(* ===== verification/Prelude.thy ===== *)
theory Prelude
  imports Main "HOL-Library.AList" "HOL-Library.Multiset" "HOL-Library.Monad_Syntax"
    "HOL-Library.Word"
begin

text \<open>
  Shared ground of the development: the fact collections of the components, loops over a
  list of pointers in the option monad (where \<^const>\<open>None\<close> is undefined behaviour of the C
  code, such as a dereferenced NULL pointer) with the two locales that carry the loop proofs,
  sums over association lists, and the part of the C library's string and number functions
  that the sources call.
\<close>

named_theorems stat_simps \<open>how an operation on the file list moves the counters of a site\<close>
named_theorems inv_intros \<open>operations that preserve the invariant of a site\<close>
named_theorems frame_simps \<open>fields that an operation leaves alone\<close>

section \<open>Loops over a list of pointers\<close>

text \<open>
  \<open>for_each body as s\<close> runs the loop body at every pointer of \<open>as\<close>, in that order, and
  stops with \<^const>\<open>None\<close> where a body does.
\<close>

fun for_each :: "('a \<Rightarrow> 's \<Rightarrow> 's option) \<Rightarrow> 'a list \<Rightarrow> 's \<Rightarrow> 's option" where
  "for_each body [] s = Some s"
| "for_each body (a # as) s = Option.bind (body a s) (for_each body as)"

lemma for_each_append:
  "for_each body (as @ bs) s = Option.bind (for_each body as s) (for_each body bs)"
proof (induction as arbitrary: s)
  case (Cons a as)
  then show ?case by (cases "body a s") auto
qed simp

lemma for_each_Cons_Some:
  "for_each body (a # as) s = Some t \<longleftrightarrow> (\<exists>u. body a s = Some u \<and> for_each body as u = Some t)"
  by (auto simp: bind_eq_Some_conv)

text \<open>
  A loop over pointers that are live when it starts: the body runs at every live pointer,
  keeps the invariant, and leaves the other pointers live (it may free its own).
\<close>

locale loop_inv =
  fixes body :: "'a \<Rightarrow> 's \<Rightarrow> 's option" and inv :: "'s \<Rightarrow> bool" and live :: "'a \<Rightarrow> 's \<Rightarrow> bool"
  assumes body_runs: "inv s \<Longrightarrow> live a s \<Longrightarrow> \<exists>t. body a s = Some t \<and> inv t"
    and body_live: "inv s \<Longrightarrow> live a s \<Longrightarrow> body a s = Some t \<Longrightarrow> live b s \<Longrightarrow> b \<noteq> a \<Longrightarrow> live b t"
begin

lemma loop_runs:
  "inv s \<Longrightarrow> distinct as \<Longrightarrow> (\<forall>a\<in>set as. live a s) \<Longrightarrow> \<exists>t. for_each body as s = Some t \<and> inv t"
proof (induction as arbitrary: s)
  case (Cons a as)
  then obtain u where u: "body a s = Some u" "inv u" using body_runs [of s a] by auto
  have "\<forall>b\<in>set as. live b u" using body_live [OF _ _ u(1)] Cons.prems by auto
  then show ?case using Cons u by simp
qed simp

end

text \<open>
  A sweep: besides, the body settles the pointer it runs at, and no later step of the loop
  unsettles it.
\<close>

locale sweep = loop_inv body inv live
  for body :: "'a \<Rightarrow> 's \<Rightarrow> 's option" and inv :: "'s \<Rightarrow> bool" and live :: "'a \<Rightarrow> 's \<Rightarrow> bool" +
  fixes settled :: "'a \<Rightarrow> 's \<Rightarrow> bool"
  assumes body_settles: "inv s \<Longrightarrow> live a s \<Longrightarrow> body a s = Some t \<Longrightarrow> settled a t"
    and body_keeps: "inv s \<Longrightarrow> live a s \<Longrightarrow> body a s = Some t \<Longrightarrow> b \<noteq> a \<Longrightarrow> settled b s \<Longrightarrow> settled b t"
begin

lemma loop_settles:
  "inv s \<Longrightarrow> distinct as \<Longrightarrow> (\<forall>a\<in>set as. live a s) \<Longrightarrow> for_each body as s = Some t
   \<Longrightarrow> b \<in> set as \<or> settled b s \<Longrightarrow> settled b t"
proof (induction as arbitrary: s)
  case (Cons a as)
  then obtain u where u: "body a s = Some u" "inv u" using body_runs [of s a] by auto
  have l: "\<forall>b\<in>set as. live b u" using body_live [OF _ _ u(1)] Cons.prems by auto
  have "b \<in> set as \<or> settled b u"
    using Cons.prems body_settles [OF _ _ u(1)] body_keeps [OF _ _ u(1), of b] by auto
  then show ?case using Cons.IH [OF u(2) _ l] Cons.prems u by simp
qed simp

end

section \<open>Association lists of heap nodes\<close>

text \<open>The address the allocator returns: one that no live node has.\<close>

definition fresh_addr :: "(nat \<times> 'a) list \<Rightarrow> nat" where
  "fresh_addr xs = Suc (foldr max (map fst xs) 0)"

lemma foldr_max_ge: "x \<in> set xs \<Longrightarrow> x \<le> foldr max xs (0::nat)"
  by (induction xs) auto

lemma fresh_addr_notin [simp]: "fresh_addr xs \<notin> fst ` set xs"
proof
  assume "fresh_addr xs \<in> fst ` set xs"
  then have "fresh_addr xs \<le> foldr max (map fst xs) 0"
    by (intro foldr_max_ge) simp
  then show False by (simp add: fresh_addr_def)
qed

lemma fresh_addr_pos [simp]: "0 < fresh_addr xs"
  by (simp add: fresh_addr_def)

definition tally :: "('v \<Rightarrow> 'a::comm_monoid_add) \<Rightarrow> ('k \<times> 'v) list \<Rightarrow> 'a" where
  "tally w xs = (\<Sum>p\<leftarrow>xs. w (snd p))"

lemma tally_simps [simp]:
  "tally w [] = 0"
  "tally w ((k, v) # xs) = w v + tally w xs"
  "tally w (xs @ ys) = tally w xs + tally w ys"
  by (simp_all add: tally_def)

lemma map_entry_notin: "k \<notin> fst ` set xs \<Longrightarrow> AList.map_entry k f xs = xs"
  by (induction xs) auto

lemma delete_notin: "k \<notin> fst ` set xs \<Longrightarrow> AList.delete k xs = xs"
  by (induction xs) (auto simp: AList.delete_eq)

lemma keys_map_entry [simp]: "map fst (AList.map_entry k f xs) = map fst xs"
  by (induction xs) auto

lemma tally_replace:
  "distinct (map fst xs) \<Longrightarrow> map_of xs k = Some v \<Longrightarrow>
   tally w (AList.map_entry k f xs) + w v = tally w xs + w (f v)"
proof (induction xs)
  case (Cons p xs)
  then show ?case by (cases p) (auto simp: map_entry_notin ac_simps)
qed simp

lemma tally_map_entry:
  fixes w :: "'v \<Rightarrow> int"
  shows "distinct (map fst xs) \<Longrightarrow> map_of xs k = Some v \<Longrightarrow>
    tally w (AList.map_entry k f xs) = tally w xs - w v + w (f v)"
  using tally_replace [of xs k v w f] by simp

lemma tally_remove:
  "distinct (map fst xs) \<Longrightarrow> map_of xs k = Some v \<Longrightarrow>
   tally w (AList.delete k xs) + w v = tally w xs"
proof (induction xs)
  case (Cons p xs)
  then show ?case by (cases p) (auto simp: delete_notin ac_simps)
qed simp

lemma tally_delete:
  fixes w :: "'v \<Rightarrow> int"
  shows "distinct (map fst xs) \<Longrightarrow> map_of xs k = Some v \<Longrightarrow>
    tally w (AList.delete k xs) = tally w xs - w v"
  using tally_remove [of xs k v w] by simp

lemma map_of_map_entry:
  "map_of (AList.map_entry k f xs) j = (if j = k then map_option f (map_of xs k) else map_of xs j)"
  by (induction xs) auto

lemma map_of_delete: "map_of (AList.delete k xs) j = (if j = k then None else map_of xs j)"
  by (auto simp: delete_conv')

lemma map_of_append_notin:
  "k \<notin> fst ` set xs \<Longrightarrow> map_of (xs @ [(k, v)]) j = (if j = k then Some v else map_of xs j)"
  by (induction xs) auto

lemma distinct_keys_delete: "distinct (map fst xs) \<Longrightarrow> distinct (map fst (AList.delete k xs))"
  by (simp add: AList.distinct_delete)

lemma map_of_in_set: "map_of xs a = Some f \<Longrightarrow> (a, f) \<in> set xs"
  by (rule map_of_SomeD)

lemma ball_map_of:
  "distinct (map fst xs) \<Longrightarrow> (\<forall>p \<in> set xs. Q (snd p)) \<longleftrightarrow> (\<forall>a f. map_of xs a = Some f \<longrightarrow> Q f)"
  by (auto simp: map_of_eq_Some_iff)

lemma tally_nonneg:
  fixes w :: "'v \<Rightarrow> int"
  shows "(\<And>v. 0 \<le> w v) \<Longrightarrow> 0 \<le> tally w xs"
  by (induction xs) auto

lemma tally_pos_iff:
  fixes w :: "'v \<Rightarrow> int"
  assumes "\<And>v. 0 \<le> w v"
  shows "0 < tally w xs \<longleftrightarrow> (\<exists>p \<in> set xs. 0 < w (snd p))"
proof (induction xs)
  case (Cons p xs)
  obtain k v where p: "p = (k, v)" by (cases p)
  have "0 < w v + tally w xs \<longleftrightarrow> 0 < w v \<or> 0 < tally w xs"
    using assms [of v] tally_nonneg [of w xs, OF assms] by linarith
  with Cons p show ?case by simp
qed simp

lemma tally_add: "tally (\<lambda>v. w v + u v) xs = tally w xs + tally u xs"
  by (induction xs) (auto simp: ac_simps)

lemma tally_zero: "(\<And>p. p \<in> set xs \<Longrightarrow> w (snd p) = 0) \<Longrightarrow> tally w xs = 0"
  by (induction xs) (auto simp: tally_def)

section \<open>Bytes and characters in the C locale\<close>

abbreviation code :: "char \<Rightarrow> nat" where "code c \<equiv> of_char c"

lemma code_bound: "code c < 256"
proof -
  have "code c mod 256 < 256" by simp
  then show ?thesis by (simp only: of_char_mod_256)
qed

lemma char_of_code [simp]: "char_of (code c) = c"
  by simp

definition isspace :: "char \<Rightarrow> bool" where
  "isspace c \<longleftrightarrow> code c = 32 \<or> (9 \<le> code c \<and> code c \<le> 13)"

definition isdigit :: "char \<Rightarrow> bool" where
  "isdigit c \<longleftrightarrow> 48 \<le> code c \<and> code c \<le> 57"

definition isupper :: "char \<Rightarrow> bool" where
  "isupper c \<longleftrightarrow> 65 \<le> code c \<and> code c \<le> 90"

definition islower :: "char \<Rightarrow> bool" where
  "islower c \<longleftrightarrow> 97 \<le> code c \<and> code c \<le> 122"

definition isalpha :: "char \<Rightarrow> bool" where
  "isalpha c \<longleftrightarrow> isupper c \<or> islower c"

definition isalnum :: "char \<Rightarrow> bool" where
  "isalnum c \<longleftrightarrow> isalpha c \<or> isdigit c"

definition tolower :: "char \<Rightarrow> char" where
  "tolower c = (if isupper c then char_of (code c + 32) else c)"

definition strcasecmp_eq :: "string \<Rightarrow> string \<Rightarrow> bool" where
  "strcasecmp_eq s t \<longleftrightarrow> map tolower s = map tolower t"

text \<open>The value of a character, which is signed here.\<close>

definition signed_char :: "char \<Rightarrow> int" where
  "signed_char c = (if code c > 127 then int (code c) - 256 else int (code c))"

section \<open>Strings: a C string is the list of its characters before the NUL\<close>

text \<open>
  \<open>strchr s c\<close>: the suffix of \<open>s\<close> that starts at the first \<open>c\<close>.  \<open>strrchr_split\<close>
  gives the string before and after the last \<open>c\<close>.
\<close>

fun strchr :: "string \<Rightarrow> char \<Rightarrow> string option" where
  "strchr [] c = None"
| "strchr (x # xs) c = (if x = c then Some (x # xs) else strchr xs c)"

lemma strchr_Some: "strchr s c = Some t \<Longrightarrow> \<exists>p. s = p @ t \<and> c \<notin> set p \<and> (\<exists>r. t = c # r)"
proof (induction s)
  case (Cons x xs)
  show ?case
  proof (cases "x = c")
    case True
    then show ?thesis using Cons.prems by auto
  next
    case False
    then obtain p where "xs = p @ t" "c \<notin> set p" "\<exists>r. t = c # r"
      using Cons by auto
    then show ?thesis using False by (intro exI [of _ "x # p"]) auto
  qed
qed simp

lemma strchr_None: "strchr s c = None \<longleftrightarrow> c \<notin> set s"
  by (induction s) auto

definition strrchr_split :: "string \<Rightarrow> char \<Rightarrow> (string \<times> string) option" where
  "strrchr_split s c =
     (if c \<in> set s
      then Some (rev (dropWhile (\<lambda>x. x \<noteq> c) (rev s)), rev (takeWhile (\<lambda>x. x \<noteq> c) (rev s)))
      else None)"

lemma strrchr_split_Some:
  assumes "strrchr_split s c = Some (p, r)"
  shows "s = p @ r \<and> c \<notin> set r \<and> (\<exists>q. p = q @ [c])"
proof -
  from assms have c: "c \<in> set s"
    and p: "p = rev (dropWhile (\<lambda>x. x \<noteq> c) (rev s))"
    and r: "r = rev (takeWhile (\<lambda>x. x \<noteq> c) (rev s))"
    by (auto simp: strrchr_split_def split: if_splits)
  have "rev (p @ r) = rev s" by (simp add: p r)
  then have 1: "s = p @ r" by (metis rev_rev_ident)
  have 2: "c \<notin> set r" by (auto simp: r dest: set_takeWhileD)
  have "dropWhile (\<lambda>x. x \<noteq> c) (rev s) \<noteq> []" using c by (auto simp: dropWhile_eq_Nil_conv)
  then obtain t where "dropWhile (\<lambda>x. x \<noteq> c) (rev s) = c # t"
    using hd_dropWhile [of "\<lambda>x. x \<noteq> c" "rev s"]
    by (cases "dropWhile (\<lambda>x. x \<noteq> c) (rev s)") auto
  then have 3: "p = rev t @ [c]" by (simp add: p)
  from 1 2 3 show ?thesis by blast
qed

text \<open>The size of a buffer of \<^verbatim>\<open>stdio.h\<close>, and what \<^verbatim>\<open>snprintf\<close> leaves of a text in \<open>n\<close> bytes.\<close>

definition BUFSIZ :: nat where "BUFSIZ = 8192"

definition snprintf :: "nat \<Rightarrow> string \<Rightarrow> string" where "snprintf n t = take (n - 1) t"

definition strncmp_eq :: "string \<Rightarrow> string \<Rightarrow> nat \<Rightarrow> bool" where
  "strncmp_eq s t n \<longleftrightarrow> take n s = take n t"

end
