(* ===== verification/Site_Types.thy ===== *)
theory Site_Types
  imports Prelude
begin

text \<open>
  The data model of \<^verbatim>\<open>src/sites.h\<close> and \<^verbatim>\<open>src/protocol.h\<close>: every enum is a datatype with
  the source's constructors and every struct is a record.  Field names carry a prefix that
  names their struct (\<open>fs_\<close> file_state, \<open>sf_\<close> site_file, \<open>fn_\<close> fnlist, \<open>h_\<close> site_host,
  \<open>s_\<close> site, \<open>pf_\<close> proto_file), because C has one name space of fields for each struct.
  A \<^verbatim>\<open>char *\<close> that may be NULL is a \<^typ>\<open>string option\<close>.  The doubly linked list of files of
  a site is an association list from the address of a node to the node; theory File_List
  shows that the pointer code implements the list operations used here.
\<close>

section \<open>Enumerations\<close>

datatype state_method = state_timesize | state_checksum

datatype file_diff = file_unchanged | file_changed | file_new | file_deleted | file_moved

datatype file_type = file_file | file_dir | file_link

datatype site_perm_modes = sitep_ignore | sitep_exec | sitep_all

datatype site_symlink_modes = sitesym_ignore | sitesym_follow | sitesym_maintain

datatype site_protocol_modes =
  siteproto_ftp | siteproto_dav | siteproto_rsh | siteproto_sftp | siteproto_unknown

datatype proto_filetype = proto_file | proto_link | proto_dir

datatype driver_name = ftp_driver | dav_driver | rsh_driver | sftp_driver | null_driver

text \<open>The return codes are the source's integers (\<^verbatim>\<open>#define SITE_OK 0\<close> and so on).\<close>

abbreviation (input) SITE_OK :: int where "SITE_OK \<equiv> 0"
abbreviation (input) SITE_LOOKUP :: int where "SITE_LOOKUP \<equiv> - 1"
abbreviation (input) SITE_PROXYLOOKUP :: int where "SITE_PROXYLOOKUP \<equiv> - 2"
abbreviation (input) SITE_CONNECT :: int where "SITE_CONNECT \<equiv> - 3"
abbreviation (input) SITE_ERRORS :: int where "SITE_ERRORS \<equiv> - 4"
abbreviation (input) SITE_AUTH :: int where "SITE_AUTH \<equiv> - 5"
abbreviation (input) SITE_PROXYAUTH :: int where "SITE_PROXYAUTH \<equiv> - 6"
abbreviation (input) SITE_FAILED :: int where "SITE_FAILED \<equiv> - 7"
abbreviation (input) SITE_UNSUPPORTED :: int where "SITE_UNSUPPORTED \<equiv> - 9"

text \<open>The size of the buffers of the frontend for a name or a password (\<^verbatim>\<open>src/frontend.h\<close>).\<close>

definition FE_LBUFSIZ :: nat where "FE_LBUFSIZ = 256"

section \<open>Structures\<close>

type_synonym mode_t = "32 word"
type_synonym addr = nat

record file_state =
  fs_filename :: "string option"
  fs_time :: int
  fs_size :: int
  fs_checksum :: "char list"
  fs_linktarget :: "string option"
  fs_exists :: bool
  fs_ascii :: bool
  fs_mode :: mode_t

record site_file =
  sf_diff :: file_diff
  sf_live_diff :: file_diff
  sf_type :: file_type
  sf_ignore :: bool
  sf_local :: file_state
  sf_stored :: file_state
  sf_server :: file_state
  sf_live :: file_state

record fnlist =
  fn_pattern :: string
  fn_haspath :: bool

record site_host =
  h_hostname :: "string option"
  h_port :: int
  h_username :: "string option"
  h_password :: "string option"

record site =
  s_name :: string
  s_url :: "string option"
  s_server :: site_host
  s_proxy :: site_host
  s_protocol :: site_protocol_modes
  s_proto_string :: string
  s_driver :: "driver_name option"
  s_remote_root :: "string option"
  s_remote_root_user :: "string option"
  s_remote_isrel :: bool
  s_local_root :: "string option"
  s_local_root_user :: "string option"
  s_local_isrel :: bool
  s_infofile :: string
  s_certfile :: string
  s_storage_file :: bool
  s_client_cert :: "string option"
  s_perms :: site_perm_modes
  s_dirperms :: bool
  s_symlinks :: site_symlink_modes
  s_ftp_pasv_mode :: bool
  s_ftp_echo_quit :: bool
  s_ftp_forcecd :: bool
  s_ftp_use_cwd :: bool
  s_http_use_expect :: bool
  s_http_limit :: bool
  s_http_secure :: bool
  s_http_tolerant :: bool
  s_rsh_cmd :: "string option"
  s_rcp_cmd :: "string option"
  s_nodelete :: bool
  s_checkmoved :: bool
  s_checkrenames :: bool
  s_nooverwrite :: bool
  s_safemode :: bool
  s_lowercase :: bool
  s_tempupload :: bool
  s_keep_going :: bool
  s_use_this :: bool
  s_local_is_different :: bool
  s_remote_is_different :: bool
  s_state_method :: state_method
  s_stored_state_method :: state_method
  s_excludes :: "fnlist list"
  s_ignores :: "fnlist list"
  s_asciis :: "fnlist list"
  s_files :: "(addr \<times> site_file) list"
  s_numnew :: int
  s_numchanged :: int
  s_numignored :: int
  s_numdeleted :: int
  s_nummoved :: int
  s_numunchanged :: int
  s_totalnew :: int
  s_totalchanged :: int
  s_last_error :: "string option"
  s_critical :: int

record proto_file =
  pf_filename :: string
  pf_type :: proto_filetype
  pf_size :: int
  pf_modtime :: int
  pf_mode :: mode_t
  pf_checksum :: "char list"

text \<open>The all-zero values that \<^verbatim>\<open>ne_calloc\<close>, \<^verbatim>\<open>memset\<close> and \<^verbatim>\<open>= {0}\<close> give.\<close>

definition zero_checksum :: "char list" where
  "zero_checksum = replicate 16 (CHR 0x00)"

definition zero_state :: file_state where
  "zero_state = \<lparr>fs_filename = None, fs_time = 0, fs_size = 0, fs_checksum = zero_checksum,
     fs_linktarget = None, fs_exists = False, fs_ascii = False, fs_mode = 0\<rparr>"

definition zero_file :: site_file where
  "zero_file = \<lparr>sf_diff = file_unchanged, sf_live_diff = file_unchanged, sf_type = file_file,
     sf_ignore = False, sf_local = zero_state, sf_stored = zero_state, sf_server = zero_state,
     sf_live = zero_state\<rparr>"

definition zero_host :: site_host where
  "zero_host = \<lparr>h_hostname = None, h_port = 0, h_username = None, h_password = None\<rparr>"

definition zero_site :: site where
  "zero_site = \<lparr>s_name = '''', s_url = None, s_server = zero_host, s_proxy = zero_host,
     s_protocol = siteproto_ftp, s_proto_string = '''', s_driver = None,
     s_remote_root = None, s_remote_root_user = None, s_remote_isrel = False,
     s_local_root = None, s_local_root_user = None, s_local_isrel = False,
     s_infofile = '''', s_certfile = '''', s_storage_file = False, s_client_cert = None,
     s_perms = sitep_ignore, s_dirperms = False, s_symlinks = sitesym_ignore,
     s_ftp_pasv_mode = False, s_ftp_echo_quit = False, s_ftp_forcecd = False,
     s_ftp_use_cwd = False, s_http_use_expect = False, s_http_limit = False,
     s_http_secure = False, s_http_tolerant = False, s_rsh_cmd = None, s_rcp_cmd = None,
     s_nodelete = False, s_checkmoved = False, s_checkrenames = False,
     s_nooverwrite = False, s_safemode = False, s_lowercase = False, s_tempupload = False,
     s_keep_going = False, s_use_this = False, s_local_is_different = False,
     s_remote_is_different = False, s_state_method = state_timesize,
     s_stored_state_method = state_timesize, s_excludes = [], s_ignores = [], s_asciis = [],
     s_files = [], s_numnew = 0, s_numchanged = 0, s_numignored = 0, s_numdeleted = 0,
     s_nummoved = 0, s_numunchanged = 0, s_totalnew = 0, s_totalchanged = 0,
     s_last_error = None, s_critical = 0\<rparr>"

end
