(* ===== verification/Site_Files.thy ===== *)
theory Site_Files
  imports Site_Types
begin

text \<open>
  The files list of a site: \<^verbatim>\<open>src/sitesi.h\<close> and \<^verbatim>\<open>src/sitefiles.c\<close>, with
  \<^verbatim>\<open>lib/basename.c\<close>.  The C library's \<^verbatim>\<open>fnmatch\<close> is a parameter \<open>fnm\<close> (theory Fnmatch
  models the copy in \<^verbatim>\<open>lib/fnmatch.c\<close>): \<open>fnm pattern name path\<close> is true when it returns 0,
  with the flags \<^verbatim>\<open>FNM_PATHNAME | FNM_LEADING_DIR\<close> for \<open>path\<close> and 0 otherwise.  A result
  \<^const>\<open>None\<close> is a dereferenced NULL pointer.
\<close>

type_synonym matcher = "string \<Rightarrow> string \<Rightarrow> bool \<Rightarrow> bool"

section \<open>Names and patterns\<close>

fun base_name_loop :: "string \<Rightarrow> string \<Rightarrow> bool \<Rightarrow> string \<times> bool" where
  "base_name_loop [] base all_slashes = (base, all_slashes)"
| "base_name_loop (c # p) base all_slashes =
     (if c = CHR ''/'' then base_name_loop p p all_slashes
      else base_name_loop p base False)"

definition base_name :: "string \<Rightarrow> string" where
  "base_name name =
     (let (base, all_slashes) = base_name_loop name name True
      in if base = [] \<and> name \<noteq> [] \<and> hd name = CHR ''/'' \<and> all_slashes then ''/'' else base)"

definition fnlist_prepend :: "fnlist \<Rightarrow> fnlist list \<Rightarrow> fnlist list" where
  "fnlist_prepend item list = item # list"

fun fnlist_deep_copy :: "fnlist list \<Rightarrow> fnlist list" where
  "fnlist_deep_copy [] = []"
| "fnlist_deep_copy (iter # rest) =
     \<lparr>fn_pattern = fn_pattern iter, fn_haspath = fn_haspath iter\<rparr> # fnlist_deep_copy rest"

fun fnlist_match :: "matcher \<Rightarrow> string \<Rightarrow> fnlist list \<Rightarrow> bool" where
  "fnlist_match fnm filename [] = False"
| "fnlist_match fnm filename (item # rest) =
     (if fn_haspath item
      then (if fnm (fn_pattern item) filename True then True else fnlist_match fnm filename rest)
      else (if fnm (fn_pattern item) (base_name filename) False then True
            else fnlist_match fnm filename rest))"

definition file_isexcluded :: "matcher \<Rightarrow> string \<Rightarrow> site \<Rightarrow> bool" where
  "file_isexcluded fnm filename s = fnlist_match fnm filename (s_excludes s)"

definition file_isignored :: "matcher \<Rightarrow> string \<Rightarrow> site \<Rightarrow> bool" where
  "file_isignored fnm filename s = fnlist_match fnm filename (s_ignores s)"

definition file_isascii :: "matcher \<Rightarrow> string \<Rightarrow> site \<Rightarrow> bool" where
  "file_isascii fnm filename s = fnlist_match fnm filename (s_asciis s)"

section \<open>The counters of a site\<close>

definition site_stats_increase :: "site_file \<Rightarrow> site \<Rightarrow> site" where
  "site_stats_increase f s =
     (case sf_diff f of
        file_unchanged \<Rightarrow> s\<lparr>s_numunchanged := s_numunchanged s + 1\<rparr>
      | file_changed \<Rightarrow>
          (if sf_ignore f then s\<lparr>s_numignored := s_numignored s + 1\<rparr>
           else s\<lparr>s_numchanged := s_numchanged s + 1,
                  s_totalchanged := s_totalchanged s + fs_size (sf_local f)\<rparr>)
      | file_new \<Rightarrow>
          s\<lparr>s_numnew := s_numnew s + 1, s_totalnew := s_totalnew s + fs_size (sf_local f)\<rparr>
      | file_moved \<Rightarrow> s\<lparr>s_nummoved := s_nummoved s + 1\<rparr>
      | file_deleted \<Rightarrow> s\<lparr>s_numdeleted := s_numdeleted s + 1\<rparr>)"

definition site_stats_decrease :: "site_file \<Rightarrow> site \<Rightarrow> site" where
  "site_stats_decrease f s =
     (case sf_diff f of
        file_unchanged \<Rightarrow> s\<lparr>s_numunchanged := s_numunchanged s - 1\<rparr>
      | file_changed \<Rightarrow>
          (if sf_ignore f then s\<lparr>s_numignored := s_numignored s - 1\<rparr>
           else s\<lparr>s_numchanged := s_numchanged s - 1,
                  s_totalchanged := s_totalchanged s - fs_size (sf_local f)\<rparr>)
      | file_new \<Rightarrow>
          s\<lparr>s_numnew := s_numnew s - 1, s_totalnew := s_totalnew s - fs_size (sf_local f)\<rparr>
      | file_moved \<Rightarrow> s\<lparr>s_nummoved := s_nummoved s - 1\<rparr>
      | file_deleted \<Rightarrow> s\<lparr>s_numdeleted := s_numdeleted s - 1\<rparr>)"

definition site_stats_update :: "site \<Rightarrow> site" where
  "site_stats_update s =
     s\<lparr>s_remote_is_different :=
         s_nummoved s + s_numnew s + (if s_nodelete s then 0 else s_numdeleted s)
           + s_numchanged s > 0,
       s_local_is_different :=
         s_nummoved s + s_numnew s + s_numdeleted s + s_numchanged s + s_numignored s > 0\<rparr>"

section \<open>Comparing the states of a file\<close>

definition S_IXUSR :: mode_t where "S_IXUSR = 64"

text \<open>\<open>strcmp\<close> on pointers: \<^const>\<open>None\<close> where it would read through NULL.\<close>

fun strcmp_ne :: "string option \<Rightarrow> string option \<Rightarrow> bool option" where
  "strcmp_ne (Some x) (Some y) = Some (x \<noteq> y)"
| "strcmp_ne _ _ = None"

definition mode_exec :: "mode_t \<Rightarrow> bool" where
  "mode_exec m \<longleftrightarrow> and m S_IXUSR \<noteq> 0"

definition file_compare ::
    "file_type \<Rightarrow> file_state \<Rightarrow> file_state \<Rightarrow> site \<Rightarrow> file_diff option" where
  "file_compare type first second s =
     (if \<not> fs_exists first then Some file_deleted
      else if \<not> fs_exists second then Some file_new
      else case type of
        file_dir \<Rightarrow>
          (if s_dirperms s
           then Some (if fs_mode first \<noteq> fs_mode second then file_changed else file_unchanged)
           else Some file_unchanged)
      | file_link \<Rightarrow>
          do { ne \<leftarrow> strcmp_ne (fs_linktarget first) (fs_linktarget second);
               Some (if ne then file_changed else file_unchanged) }
      | file_file \<Rightarrow>
          (if (case s_state_method s of
                 state_timesize \<Rightarrow>
                   fs_time first \<noteq> fs_time second \<or> fs_size first \<noteq> fs_size second
               | state_checksum \<Rightarrow> fs_checksum first \<noteq> fs_checksum second)
           then Some file_changed
           else if fs_ascii first \<noteq> fs_ascii second then Some file_changed
           else if (s_perms s = sitep_all
                    \<or> ((mode_exec (fs_mode first) \<or> mode_exec (fs_mode second))
                       \<and> s_perms s = sitep_exec))
                   \<and> fs_mode first \<noteq> fs_mode second
           then Some file_changed
           else if s_checkmoved s
           then do { ne \<leftarrow> strcmp_ne (fs_filename first) (fs_filename second);
                     Some (if ne then file_moved else file_unchanged) }
           else Some file_unchanged))"

definition file_contents_changed :: "site_file \<Rightarrow> site \<Rightarrow> bool" where
  "file_contents_changed f s =
     ((if s_state_method s = state_checksum
       then fs_checksum (sf_stored f) \<noteq> fs_checksum (sf_local f)
       else fs_size (sf_stored f) \<noteq> fs_size (sf_local f)
            \<or> fs_time (sf_stored f) \<noteq> fs_time (sf_local f))
      \<or> fs_ascii (sf_stored f) \<noteq> fs_ascii (sf_local f))"

definition file_perms_changed :: "site_file \<Rightarrow> site \<Rightarrow> bool" where
  "file_perms_changed f s =
     ((s_perms s = sitep_all
       \<or> (mode_exec (or (fs_mode (sf_local f)) (fs_mode (sf_stored f))) \<and> s_perms s = sitep_exec))
      \<and> (s_tempupload s \<or> s_nooverwrite s
         \<or> fs_mode (sf_local f) \<noteq> fs_mode (sf_stored f)
         \<or> fs_exists (sf_local f) \<noteq> fs_exists (sf_stored f)))"

section \<open>Operations on the list\<close>

definition get_file :: "addr \<Rightarrow> site \<Rightarrow> site_file option" where
  "get_file a s = map_of (s_files s) a"

definition put_file :: "addr \<Rightarrow> (site_file \<Rightarrow> site_file) \<Rightarrow> site \<Rightarrow> site" where
  "put_file a g s = s\<lparr>s_files := AList.map_entry a g (s_files s)\<rparr>"

definition file_delete :: "addr \<Rightarrow> site \<Rightarrow> site option" where
  "file_delete a s =
     do { item \<leftarrow> get_file a s;
          let s = site_stats_update (site_stats_decrease item s);
          Some (s\<lparr>s_files := AList.delete a (s_files s)\<rparr>) }"

definition file_insert :: "file_type \<Rightarrow> site \<Rightarrow> addr \<times> site" where
  "file_insert type s =
     (let a = fresh_addr (s_files s)
      in (a, if s_files s = [] then s\<lparr>s_files := [(a, zero_file)]\<rparr>
             else if type = file_dir then s\<lparr>s_files := s_files s @ [(a, zero_file)]\<rparr>
             else s\<lparr>s_files := (a, zero_file) # s_files s\<rparr>))"

definition file_set_diff :: "addr \<Rightarrow> site \<Rightarrow> site option" where
  "file_set_diff a s =
     do { f \<leftarrow> get_file a s;
          let s = site_stats_decrease f s;
          d \<leftarrow> file_compare (sf_type f) (sf_local f) (sf_stored f) s;
          let s = put_file a (sf_diff_update (\<lambda>_. d)) s;
          let s = site_stats_increase (f\<lparr>sf_diff := d\<rparr>) s;
          Some (site_stats_update s) }"

text \<open>
  The two offsets that \<^verbatim>\<open>file_set\<close> takes select the member a state is stored in and the
  member it is compared with; \<open>FS_ALPHA\<close> and \<open>FS_BETA\<close> read them.
\<close>

datatype member = m_local | m_stored

fun FS_GET :: "member \<Rightarrow> site_file \<Rightarrow> file_state" where
  "FS_GET m_local f = sf_local f"
| "FS_GET m_stored f = sf_stored f"

fun FS_PUT :: "member \<Rightarrow> file_state \<Rightarrow> site_file \<Rightarrow> site_file" where
  "FS_PUT m_local st f = f\<lparr>sf_local := st\<rparr>"
| "FS_PUT m_stored st f = f\<lparr>sf_stored := st\<rparr>"

text \<open>The search loop of \<^verbatim>\<open>file_set\<close>: the candidates (direct, moved, frename) so far.\<close>

type_synonym candidates = "addr option \<times> addr option \<times> addr option"

definition file_set_step ::
    "file_type \<Rightarrow> file_state \<Rightarrow> site \<Rightarrow> member \<Rightarrow> addr \<Rightarrow> site_file \<Rightarrow> candidates
     \<Rightarrow> candidates option" where
  "file_set_step type state s beta_off a file cands =
     (let (direct, moved, frename) = cands; beta = FS_GET beta_off file in
      do { same \<leftarrow> (if fs_exists beta \<and> direct = None \<and> sf_type file = type
                    then map_option Not (strcmp_ne (fs_filename beta) (fs_filename state))
                    else Some False);
           if same then Some (Some a, moved, frename)
           else if s_checkmoved s \<and> type = file_file \<and> sf_type file = file_file
                   \<and> sf_diff file \<noteq> file_unchanged
           then do { d \<leftarrow> file_compare file_file state beta s;
                     if d = file_moved
                     then do { sname \<leftarrow> fs_filename state;
                               bname \<leftarrow> fs_filename beta;
                               if moved = None \<and> base_name sname = base_name bname
                               then Some (direct, Some a, frename)
                               else if s_checkrenames s \<and> frename = None
                               then Some (direct, moved, Some a)
                               else Some cands }
                     else Some cands }
           else Some cands })"

fun file_set_scan ::
    "file_type \<Rightarrow> file_state \<Rightarrow> site \<Rightarrow> member \<Rightarrow> (addr \<times> site_file) list \<Rightarrow> candidates
     \<Rightarrow> candidates option" where
  "file_set_scan type state s beta_off [] cands = Some cands"
| "file_set_scan type state s beta_off ((a, file) # rest) cands =
     do { cands \<leftarrow> file_set_step type state s beta_off a file cands;
          (case cands of
             (Some _, Some _, Some _) \<Rightarrow> Some cands
           | _ \<Rightarrow> file_set_scan type state s beta_off rest cands) }"

text \<open>
  What follows the search, once the file to write to is chosen: make room by shoving an
  existing state into a node of its own, then write the new state and count the file.
\<close>

definition file_set_shove :: "addr \<Rightarrow> site \<Rightarrow> member \<Rightarrow> file_diff \<Rightarrow> site option" where
  "file_set_shove a s alpha_off default_diff =
     do { file \<leftarrow> get_file a s;
          if fs_exists (FS_GET alpha_off file)
          then (let (b, s) = file_insert (sf_type file) s;
                    other = FS_PUT alpha_off (FS_GET alpha_off file)
                      (zero_file\<lparr>sf_type := sf_type file, sf_diff := default_diff,
                                 sf_ignore := sf_ignore file\<rparr>);
                    s = put_file b (\<lambda>_. other) s
                in Some (site_stats_increase other s))
          else Some s }"

definition file_set_write :: "addr \<Rightarrow> file_state \<Rightarrow> site \<Rightarrow> member \<Rightarrow> (addr \<times> site) option" where
  "file_set_write a state s alpha_off =
     do { let s = put_file a (FS_PUT alpha_off state) s;
          file \<leftarrow> get_file a s;
          Some (a, site_stats_update (site_stats_increase file s)) }"

definition file_set ::
    "matcher \<Rightarrow> file_type \<Rightarrow> file_state \<Rightarrow> site \<Rightarrow> member \<Rightarrow> member \<Rightarrow> file_diff
     \<Rightarrow> (addr \<times> site) option" where
  "file_set fnm type state s alpha_off beta_off default_diff =
     do { (direct, moved0, frename) \<leftarrow>
            file_set_scan type state s beta_off (s_files s) (None, None, None);
          let moved = (if moved0 = None then frename else moved0);
          dir_diff \<leftarrow> (case direct of
              Some d \<Rightarrow> do { df \<leftarrow> get_file d s;
                            file_compare type state (FS_GET beta_off df) s }
            | None \<Rightarrow> Some default_diff);
          direct_moved \<leftarrow> (case direct of
              Some d \<Rightarrow> do { df \<leftarrow> get_file d s; Some (sf_diff df = file_moved) }
            | None \<Rightarrow> Some False);
          if (direct = None \<and> moved = None)
             \<or> (direct \<noteq> None \<and> direct_moved \<and> moved = None \<and> dir_diff \<noteq> file_unchanged)
          then
            do { ign \<leftarrow> (if type = file_file
                        then do { fname \<leftarrow> fs_filename state; Some (file_isignored fnm fname s) }
                        else Some False);
                 let (a, s) = file_insert type s;
                 let s = put_file a (\<lambda>f. f\<lparr>sf_type := type, sf_diff := default_diff,
                                           sf_ignore := ign\<rparr>) s;
                 file_set_write a state s alpha_off }
          else
            do { (a, diff) \<leftarrow>
                   (if moved \<noteq> None \<and> dir_diff \<noteq> file_unchanged
                    then map_option (\<lambda>m. (m, file_moved)) moved
                    else map_option (\<lambda>d. (d, dir_diff)) direct);
                 file \<leftarrow> get_file a s;
                 let s = site_stats_decrease file s;
                 let s = put_file a (sf_diff_update (\<lambda>_. diff)) s;
                 s \<leftarrow> file_set_shove a s alpha_off default_diff;
                 file_set_write a state s alpha_off } }"

definition file_set_local ::
    "matcher \<Rightarrow> file_type \<Rightarrow> file_state \<Rightarrow> site \<Rightarrow> (addr \<times> site) option" where
  "file_set_local fnm type state s = file_set fnm type state s m_local m_stored file_new"

definition file_set_stored ::
    "matcher \<Rightarrow> file_type \<Rightarrow> file_state \<Rightarrow> site \<Rightarrow> (addr \<times> site) option" where
  "file_set_stored fnm type state s = file_set fnm type state s m_stored m_local file_deleted"

section \<open>File states, names and the two halves of a transfer\<close>

text \<open>Copying a state duplicates its strings; as values they are equal.\<close>

definition file_state_copy :: "file_state \<Rightarrow> file_state" where
  "file_state_copy src = src"

definition file_state_destroy :: "file_state \<Rightarrow> file_state" where
  "file_state_destroy st = st\<lparr>fs_linktarget := None, fs_filename := None\<rparr>"

definition file_full_remote :: "file_state \<Rightarrow> site \<Rightarrow> string option" where
  "file_full_remote st s =
     do { root \<leftarrow> s_remote_root s;
          fname \<leftarrow> fs_filename st;
          Some (root @ (if s_lowercase s then map tolower fname else fname)) }"

definition file_full_local :: "file_state \<Rightarrow> site \<Rightarrow> string option" where
  "file_full_local st s =
     do { root \<leftarrow> s_local_root s; fname \<leftarrow> fs_filename st; Some (root @ fname) }"

definition file_name :: "site_file \<Rightarrow> string option" where
  "file_name f =
     (if sf_diff f = file_deleted then fs_filename (sf_stored f) else fs_filename (sf_local f))"

text \<open>What a successful transfer copies from one state to the other.\<close>

definition transfer_state :: "file_state \<Rightarrow> file_state \<Rightarrow> site \<Rightarrow> file_state" where
  "transfer_state src dest s =
     (let dest = dest\<lparr>fs_size := fs_size src\<rparr>;
          dest = (if s_state_method s = state_checksum
                  then dest\<lparr>fs_checksum := fs_checksum src\<rparr>
                  else dest\<lparr>fs_time := fs_time src\<rparr>)
      in dest\<lparr>fs_filename := fs_filename src, fs_ascii := fs_ascii src,
              fs_exists := fs_exists src, fs_mode := fs_mode src\<rparr>)"

definition file_uploaded :: "addr \<Rightarrow> site \<Rightarrow> site option" where
  "file_uploaded a s =
     do { f \<leftarrow> get_file a s;
          _ \<leftarrow> fs_filename (sf_local f);
          file_set_diff a
            (put_file a (sf_stored_update (\<lambda>st. transfer_state (sf_local f) st s)) s) }"

definition file_downloaded :: "addr \<Rightarrow> site \<Rightarrow> site option" where
  "file_downloaded a s =
     do { f \<leftarrow> get_file a s;
          _ \<leftarrow> fs_filename (sf_stored f);
          file_set_diff a
            (put_file a (sf_local_update (\<lambda>st. transfer_state (sf_stored f) st s)) s) }"

end
