(* ===== verification/Site_Inv.thy ===== *)
theory Site_Inv
  imports Site_Files
begin

text \<open>
  The invariant of a site's files list and the proof that the list operations of
  theory Site_Files keep it: addresses are distinct, every counter of the site is the sum
  over the files of what each file counts for, the two \<open>is_different\<close> flags are those of the
  counters, and every file's \<open>diff\<close> is the comparison of its local and stored states.
\<close>

section \<open>Counters as sums\<close>

datatype stat = st_unchanged | st_changed | st_ignored | st_new | st_moved | st_deleted
  | st_total_new | st_total_changed

fun counter :: "stat \<Rightarrow> site \<Rightarrow> int" where
  "counter st_unchanged s = s_numunchanged s"
| "counter st_changed s = s_numchanged s"
| "counter st_ignored s = s_numignored s"
| "counter st_new s = s_numnew s"
| "counter st_moved s = s_nummoved s"
| "counter st_deleted s = s_numdeleted s"
| "counter st_total_new s = s_totalnew s"
| "counter st_total_changed s = s_totalchanged s"

fun weight :: "stat \<Rightarrow> site_file \<Rightarrow> int" where
  "weight st_unchanged f = of_bool (sf_diff f = file_unchanged)"
| "weight st_changed f = of_bool (sf_diff f = file_changed \<and> \<not> sf_ignore f)"
| "weight st_ignored f = of_bool (sf_diff f = file_changed \<and> sf_ignore f)"
| "weight st_new f = of_bool (sf_diff f = file_new)"
| "weight st_moved f = of_bool (sf_diff f = file_moved)"
| "weight st_deleted f = of_bool (sf_diff f = file_deleted)"
| "weight st_total_new f = (if sf_diff f = file_new then fs_size (sf_local f) else 0)"
| "weight st_total_changed f =
     (if sf_diff f = file_changed \<and> \<not> sf_ignore f then fs_size (sf_local f) else 0)"

lemma counter_increase [stat_simps]:
  "counter k (site_stats_increase f s) = counter k s + weight k f"
  by (cases k) (auto simp: site_stats_increase_def split: file_diff.split)

lemma counter_decrease [stat_simps]:
  "counter k (site_stats_decrease f s) = counter k s - weight k f"
  by (cases k) (auto simp: site_stats_decrease_def split: file_diff.split)

lemma counter_update [stat_simps]: "counter k (site_stats_update s) = counter k s"
  by (cases k) (auto simp: site_stats_update_def)

lemma counter_files [stat_simps]: "counter k (s\<lparr>s_files := xs\<rparr>) = counter k s"
  by (cases k) auto

lemma counter_put_file [stat_simps]: "counter k (put_file a g s) = counter k s"
  by (simp add: put_file_def stat_simps)

lemma counter_insert [stat_simps]: "counter k (snd (file_insert t s)) = counter k s"
  by (simp add: file_insert_def Let_def stat_simps)

lemma weight_diff_only:
  "sf_diff f = sf_diff g \<Longrightarrow> sf_ignore f = sf_ignore g \<Longrightarrow> sf_local f = sf_local g \<Longrightarrow>
   weight k f = weight k g"
  by (cases k) auto

lemma weight_stored [simp]: "weight k (f\<lparr>sf_stored := st\<rparr>) = weight k f"
  by (rule weight_diff_only) auto

lemma weight_server [simp]: "weight k (f\<lparr>sf_server := st\<rparr>) = weight k f"
  by (rule weight_diff_only) auto

lemma weight_unchanged [simp]: "weight st_unchanged f = 1 \<longleftrightarrow> sf_diff f = file_unchanged"
  by simp

section \<open>What the counters do not touch\<close>

text \<open>\<open>opts s\<close>: the settings of a site, without its files, counters and flags.\<close>

definition opts :: "site \<Rightarrow> site" where
  "opts s = s\<lparr>s_files := [], s_numnew := 0, s_numchanged := 0, s_numignored := 0,
     s_numdeleted := 0, s_nummoved := 0, s_numunchanged := 0, s_totalnew := 0,
     s_totalchanged := 0, s_local_is_different := False, s_remote_is_different := False\<rparr>"

lemma opts_increase [frame_simps]: "opts (site_stats_increase f s) = opts s"
  by (simp add: opts_def site_stats_increase_def split: file_diff.split)

lemma opts_decrease [frame_simps]: "opts (site_stats_decrease f s) = opts s"
  by (simp add: opts_def site_stats_decrease_def split: file_diff.split)

lemma opts_update [frame_simps]: "opts (site_stats_update s) = opts s"
  by (simp add: opts_def site_stats_update_def)

lemma opts_put_file [frame_simps]: "opts (put_file a g s) = opts s"
  by (simp add: opts_def put_file_def)

lemma opts_files [frame_simps]: "opts (s\<lparr>s_files := xs\<rparr>) = opts s"
  by (simp add: opts_def)

lemma opts_insert [frame_simps]: "opts (snd (file_insert t s)) = opts s"
  by (simp add: file_insert_def Let_def frame_simps)

lemma files_increase [frame_simps]: "s_files (site_stats_increase f s) = s_files s"
  by (simp add: site_stats_increase_def split: file_diff.split)

lemma files_decrease [frame_simps]: "s_files (site_stats_decrease f s) = s_files s"
  by (simp add: site_stats_decrease_def split: file_diff.split)

lemma files_update [frame_simps]: "s_files (site_stats_update s) = s_files s"
  by (simp add: site_stats_update_def)

lemma files_put_file [frame_simps]: "s_files (put_file a g s) = AList.map_entry a g (s_files s)"
  by (simp add: put_file_def)

lemma get_file_increase [frame_simps]: "get_file a (site_stats_increase f s) = get_file a s"
  by (simp add: get_file_def frame_simps)

lemma get_file_decrease [frame_simps]: "get_file a (site_stats_decrease f s) = get_file a s"
  by (simp add: get_file_def frame_simps)

lemma get_file_update [frame_simps]: "get_file a (site_stats_update s) = get_file a s"
  by (simp add: get_file_def frame_simps)

lemma get_put_file [frame_simps]:
  "get_file b (put_file a g s) = (if b = a then map_option g (get_file a s) else get_file b s)"
  by (simp add: get_file_def put_file_def map_of_map_entry)

lemma opts_sel:
  "s_state_method (opts s) = s_state_method s"
  "s_checkmoved (opts s) = s_checkmoved s"
  "s_checkrenames (opts s) = s_checkrenames s"
  "s_perms (opts s) = s_perms s"
  "s_dirperms (opts s) = s_dirperms s"
  "s_nodelete (opts s) = s_nodelete s"
  "s_ignores (opts s) = s_ignores s"
  "s_remote_root (opts s) = s_remote_root s"
  "s_local_root (opts s) = s_local_root s"
  "s_lowercase (opts s) = s_lowercase s"
  "s_nooverwrite (opts s) = s_nooverwrite s"
  "s_safemode (opts s) = s_safemode s"
  "s_tempupload (opts s) = s_tempupload s"
  "s_symlinks (opts s) = s_symlinks s"
  "s_keep_going (opts s) = s_keep_going s"
  "s_excludes (opts s) = s_excludes s"
  "s_asciis (opts s) = s_asciis s"
  by (simp_all add: opts_def)

lemma opts_fields:
  assumes "opts s = opts t"
  shows "s_state_method s = s_state_method t"
    "s_checkmoved s = s_checkmoved t"
    "s_checkrenames s = s_checkrenames t"
    "s_perms s = s_perms t"
    "s_dirperms s = s_dirperms t"
    "s_nodelete s = s_nodelete t"
    "s_ignores s = s_ignores t"
    "s_remote_root s = s_remote_root t"
    "s_local_root s = s_local_root t"
    "s_lowercase s = s_lowercase t"
    "s_nooverwrite s = s_nooverwrite t"
    "s_safemode s = s_safemode t"
    "s_tempupload s = s_tempupload t"
    "s_symlinks s = s_symlinks t"
    "s_keep_going s = s_keep_going t"
    "s_excludes s = s_excludes t"
    "s_asciis s = s_asciis t"
  using assms opts_sel [of s] opts_sel [of t] by simp_all

lemma file_compare_opts:
  assumes "opts s = opts t"
  shows "file_compare ty a b s = file_compare ty a b t"
  unfolding file_compare_def opts_fields [OF assms] by (rule refl)

section \<open>The invariant\<close>

text \<open>A state that exists has a name, and a link that exists has a target.\<close>

definition wf_state :: "file_type \<Rightarrow> file_state \<Rightarrow> bool" where
  "wf_state type st \<longleftrightarrow>
     (fs_exists st \<longrightarrow> fs_filename st \<noteq> None \<and> (type = file_link \<longrightarrow> fs_linktarget st \<noteq> None))"

definition wf_file :: "site_file \<Rightarrow> bool" where
  "wf_file f \<longleftrightarrow>
     wf_state (sf_type f) (sf_local f) \<and> wf_state (sf_type f) (sf_stored f)
     \<and> (fs_exists (sf_local f) \<or> fs_exists (sf_stored f))"

definition file_ok :: "site \<Rightarrow> site_file \<Rightarrow> bool" where
  "file_ok s f \<longleftrightarrow>
     wf_file f \<and> file_compare (sf_type f) (sf_local f) (sf_stored f) s = Some (sf_diff f)"

definition stats_ok :: "site \<Rightarrow> bool" where
  "stats_ok s \<longleftrightarrow> (\<forall>k. counter k s = tally (weight k) (s_files s))"

definition flags_ok :: "site \<Rightarrow> bool" where
  "flags_ok s \<longleftrightarrow>
     s_remote_is_different s = s_remote_is_different (site_stats_update s)
     \<and> s_local_is_different s = s_local_is_different (site_stats_update s)"

definition files_ok :: "site \<Rightarrow> bool" where
  "files_ok s \<longleftrightarrow> distinct (map fst (s_files s)) \<and> (\<forall>(a, f) \<in> set (s_files s). file_ok s f)"

definition site_inv :: "site \<Rightarrow> bool" where
  "site_inv s \<longleftrightarrow> files_ok s \<and> stats_ok s \<and> flags_ok s"

lemma file_ok_opts: "opts s = opts t \<Longrightarrow> file_ok s f = file_ok t f"
  by (simp add: file_ok_def file_compare_opts [of s t])

lemma flags_ok_update [simp]: "flags_ok (site_stats_update s)"
  by (simp add: flags_ok_def site_stats_update_def)

lemma flags_ok_files [simp]: "flags_ok (s\<lparr>s_files := xs\<rparr>) \<longleftrightarrow> flags_ok s"
  by (simp add: flags_ok_def site_stats_update_def)

lemma flags_ok_put_file [simp]: "flags_ok (put_file a g s) \<longleftrightarrow> flags_ok s"
  by (simp add: put_file_def)

lemma files_ok_get: "files_ok s \<Longrightarrow> get_file a s = Some f \<Longrightarrow> file_ok s f"
  by (auto simp: files_ok_def get_file_def dest: map_of_SomeD)

lemma files_ok_iff:
  "files_ok s \<longleftrightarrow> distinct (map fst (s_files s)) \<and> (\<forall>a f. get_file a s = Some f \<longrightarrow> file_ok s f)"
  by (auto simp: files_ok_def get_file_def map_of_eq_Some_iff)

lemma site_invD:
  assumes "site_inv s"
  shows "files_ok s" "stats_ok s" "flags_ok s" "distinct (map fst (s_files s))"
  using assms by (simp_all add: site_inv_def files_ok_def)

lemma site_inv_get: "site_inv s \<Longrightarrow> get_file a s = Some f \<Longrightarrow> file_ok s f"
  by (simp add: site_inv_def files_ok_get)

lemma site_invI:
  assumes "distinct (map fst (s_files s))"
    and "\<And>a f. get_file a s = Some f \<Longrightarrow> file_ok s f"
    and "\<And>k. counter k s = tally (weight k) (s_files s)"
    and "flags_ok s"
  shows "site_inv s"
  using assms by (simp add: site_inv_def stats_ok_def files_ok_iff)

section \<open>Changing one file\<close>

text \<open>
  The pattern every operation follows: take the file out of the counters, change it, count it
  again, update the flags.
\<close>

definition replace_file :: "addr \<Rightarrow> site_file \<Rightarrow> site_file \<Rightarrow> site \<Rightarrow> site" where
  "replace_file a f g s =
     site_stats_update (site_stats_increase g (put_file a (\<lambda>_. g) (site_stats_decrease f s)))"

lemma counter_replace_file [stat_simps]:
  "counter k (replace_file a f g s) = counter k s - weight k f + weight k g"
  by (simp add: replace_file_def stat_simps)

lemma opts_replace_file [frame_simps]: "opts (replace_file a f g s) = opts s"
  by (simp add: replace_file_def frame_simps)

lemma files_replace_file [frame_simps]:
  "s_files (replace_file a f g s) = AList.map_entry a (\<lambda>_. g) (s_files s)"
  by (simp add: replace_file_def frame_simps)

lemma get_replace_file [frame_simps]:
  "get_file b (replace_file a f g s) =
     (if b = a then map_option (\<lambda>_. g) (get_file a s) else get_file b s)"
  by (simp add: get_file_def frame_simps map_of_map_entry)

lemma replace_file_inv:
  assumes inv: "site_inv s" and f: "get_file a s = Some f" and g: "file_ok s g"
  shows "site_inv (replace_file a f g s)"
proof (rule site_invI)
  note d = site_invD(4) [OF inv]
  show "distinct (map fst (s_files (replace_file a f g s)))"
    using d by (simp add: frame_simps)
  show "file_ok (replace_file a f g s) h" if "get_file b (replace_file a f g s) = Some h" for b h
  proof -
    have "file_ok s h"
      using that f g site_inv_get [OF inv, of b] by (auto simp: frame_simps split: if_splits)
    then show ?thesis by (simp add: file_ok_opts [of "replace_file a f g s" s] frame_simps)
  qed
  show "counter k (replace_file a f g s) = tally (weight k) (s_files (replace_file a f g s))" for k
    using site_invD(2) [OF inv] tally_map_entry [OF d, of a f "weight k" "\<lambda>_. g"] f
    by (simp add: stats_ok_def stat_simps frame_simps get_file_def)
  show "flags_ok (replace_file a f g s)" by (simp add: replace_file_def)
qed

text \<open>\<open>file_set_diff\<close> after a change of one of the states is such a replacement.\<close>

lemma put_file_const:
  assumes "distinct (map fst (s_files s))" and "get_file a s = Some f"
  shows "put_file a g s = put_file a (\<lambda>_. g f) s"
proof -
  have "map_of xs a = Some f \<Longrightarrow> distinct (map fst xs) \<Longrightarrow>
      AList.map_entry a g xs = AList.map_entry a (\<lambda>_. g f) xs" for xs
    by (induction xs) auto
  then show ?thesis using assms by (simp add: put_file_def get_file_def)
qed

lemma put_file_put_file: "put_file a g (put_file a h s) = put_file a (g \<circ> h) s"
proof -
  have "AList.map_entry a g (AList.map_entry a h xs) = AList.map_entry a (g \<circ> h) xs" for xs
    by (induction xs) auto
  then show ?thesis by (simp add: put_file_def)
qed

lemma put_file_decrease:
  "put_file a g (site_stats_decrease f s) = site_stats_decrease f (put_file a g s)"
  by (auto simp: put_file_def site_stats_decrease_def split: file_diff.split)

lemma map_of_ident: "get_file a s = Some f \<Longrightarrow> put_file a (\<lambda>_. f) s = s"
proof -
  have "map_of xs a = Some f \<Longrightarrow> AList.map_entry a (\<lambda>_. f) xs = xs" for xs
    by (induction xs) auto
  then show "get_file a s = Some f \<Longrightarrow> put_file a (\<lambda>_. f) s = s"
    by (simp add: put_file_def get_file_def)
qed

lemma file_set_diff_put:
  assumes d: "distinct (map fst (s_files s))" and f: "get_file a s = Some f"
    and cmp: "file_compare (sf_type g) (sf_local g) (sf_stored g) s = Some d"
  shows "file_set_diff a (put_file a (\<lambda>_. g) s) =
    Some (replace_file a g (g\<lparr>sf_diff := d\<rparr>) s)"
proof -
  have cmp': "file_compare (sf_type g) (sf_local g) (sf_stored g)
      (site_stats_decrease g (put_file a (\<lambda>_. g) s)) = Some d"
    using cmp by (simp add: file_compare_opts [of "site_stats_decrease g (put_file a (\<lambda>_. g) s)" s]
        frame_simps)
  have put: "put_file a (sf_diff_update (\<lambda>_. d)) (site_stats_decrease g (put_file a (\<lambda>_. g) s)) =
      put_file a (\<lambda>_. g\<lparr>sf_diff := d\<rparr>) (site_stats_decrease g s)"
    by (simp add: put_file_decrease put_file_put_file comp_def)
  show ?thesis
    unfolding file_set_diff_def
    by (simp add: frame_simps f cmp' put replace_file_def)
qed

end
