(* ===== verification/Site_List.thy ===== *)
theory Site_List
  imports Site_Inv
begin

text \<open>
  Correctness of the operations on the files list: \<open>file_delete\<close>, \<open>file_set_diff\<close> and
  \<open>file_set\<close> never dereference NULL on a well-formed site and keep the invariant;
  \<open>file_set\<close> adds exactly one state of the kind it is told to set and loses none.
\<close>

section \<open>Comparison of states\<close>

lemma strcmp_ne_Some [simp]: "strcmp_ne (Some x) y = Some b \<longleftrightarrow> (\<exists>z. y = Some z \<and> b = (x \<noteq> z))"
  by (cases y) auto

lemma strcmp_ne_sym: "strcmp_ne x y = strcmp_ne y x"
  by (cases x; cases y) auto

lemma file_compare_total:
  assumes "wf_state t a" "wf_state t b"
  shows "\<exists>d. file_compare t a b s = Some d"
  using assms by (cases t) (auto simp: file_compare_def wf_state_def split: option.splits)

lemma file_compare_sym:
  assumes "fs_exists a" "fs_exists b"
  shows "file_compare t a b s = file_compare t b a s"
  using assms
  by (auto simp: file_compare_def strcmp_ne_sym split: file_type.splits state_method.splits)

lemma file_compare_moved:
  assumes "file_compare t a b s = Some file_moved"
  shows "t = file_file \<and> s_checkmoved s \<and> fs_exists a \<and> fs_exists b
    \<and> (\<exists>x y. fs_filename a = Some x \<and> fs_filename b = Some y \<and> x \<noteq> y)"
proof -
  have "strcmp_ne p q = Some True \<Longrightarrow> \<exists>x y. p = Some x \<and> q = Some y \<and> x \<noteq> y" for p q
    by (cases p; cases q) auto
  then show ?thesis using assms
    by (auto simp: file_compare_def bind_eq_Some_conv
        split: if_splits file_type.splits state_method.splits)
qed

lemma file_compare_new: "file_compare t a b s = Some file_new \<longleftrightarrow> fs_exists a \<and> \<not> fs_exists b"
  by (auto simp: file_compare_def bind_eq_Some_conv
      split: if_splits file_type.splits state_method.splits)

lemma file_compare_deleted: "file_compare t a b s = Some file_deleted \<longleftrightarrow> \<not> fs_exists a"
  by (auto simp: file_compare_def bind_eq_Some_conv
      split: if_splits file_type.splits state_method.splits)

lemma file_ok_diff:
  assumes "file_ok s f"
  shows "sf_diff f = file_new \<longleftrightarrow> fs_exists (sf_local f) \<and> \<not> fs_exists (sf_stored f)"
    and "sf_diff f = file_deleted \<longleftrightarrow> \<not> fs_exists (sf_local f)"
    and "sf_diff f = file_moved \<Longrightarrow> sf_type f = file_file \<and> s_checkmoved s"
  using assms file_compare_new [of "sf_type f" "sf_local f" "sf_stored f" s]
    file_compare_deleted [of "sf_type f" "sf_local f" "sf_stored f" s]
    file_compare_moved [of "sf_type f" "sf_local f" "sf_stored f" s]
  by (auto simp: file_ok_def)

section \<open>Deleting a file\<close>

lemma get_file_delete:
  assumes "file_delete a s = Some t"
  shows "get_file b t = (if b = a then None else get_file b s)"
  using assms
  by (auto simp: file_delete_def Let_def bind_eq_Some_conv get_file_def frame_simps map_of_delete)

lemma file_delete_frame:
  assumes "file_delete a s = Some t"
  shows "opts t = opts s" "s_files t = AList.delete a (s_files s)"
  using assms by (auto simp: file_delete_def Let_def bind_eq_Some_conv frame_simps)

lemma file_delete_inv:
  assumes inv: "site_inv s" and f: "get_file a s = Some f"
  shows "\<exists>t. file_delete a s = Some t \<and> site_inv t"
proof -
  obtain t where t: "file_delete a s = Some t"
    using f by (simp add: file_delete_def Let_def)
  have t': "t = (site_stats_update (site_stats_decrease f s))
      \<lparr>s_files := AList.delete a (s_files s)\<rparr>"
    using t f by (simp add: file_delete_def Let_def frame_simps)
  have "site_inv t"
  proof (rule site_invI)
    note d = site_invD(4) [OF inv]
    show "distinct (map fst (s_files t))"
      using d by (simp add: file_delete_frame [OF t] distinct_keys_delete)
    show "file_ok t g" if "get_file b t = Some g" for b g
      using that site_inv_get [OF inv, of b g] file_ok_opts [of t s g] file_delete_frame(1) [OF t]
      by (simp add: get_file_delete [OF t] split: if_splits)
    show "counter k t = tally (weight k) (s_files t)" for k
      using site_invD(2) [OF inv] tally_delete [OF d, of a f "weight k"] f
      by (simp add: stats_ok_def t' stat_simps get_file_def)
    show "flags_ok t" by (simp add: t')
  qed
  with t show ?thesis by blast
qed

section \<open>Inserting a node\<close>

lemma file_insert_fst [simp]: "fst (file_insert t s) = fresh_addr (s_files s)"
  by (simp add: file_insert_def Let_def)

lemma fresh_get_file [simp]: "get_file (fresh_addr (s_files s)) s = None"
  by (simp add: get_file_def map_of_eq_None_iff)

lemma file_insert_get:
  "get_file b (snd (file_insert t s)) =
     (if b = fresh_addr (s_files s) then Some zero_file else get_file b s)"
  by (simp del: map_of_append add: file_insert_def Let_def get_file_def map_of_append_notin)

lemma file_insert_distinct:
  "distinct (map fst (s_files s)) \<Longrightarrow> distinct (map fst (s_files (snd (file_insert t s))))"
  using fresh_addr_notin [of "s_files s"] by (auto simp: file_insert_def Let_def)

lemma file_insert_tally:
  "tally w (AList.map_entry (fresh_addr (s_files s)) g (s_files (snd (file_insert t s))))
     = tally w (s_files s) + w (g zero_file)"
proof -
  have "AList.map_entry k g (xs @ [(k, z)]) = xs @ [(k, g z)]" if "k \<notin> fst ` set xs" for k xs z
    using that by (induction xs) auto
  from this [OF fresh_addr_notin [of "s_files s"]] show ?thesis
    by (auto simp: file_insert_def Let_def map_entry_notin ac_simps)
qed

section \<open>The search of file_set\<close>

definition direct_cand :: "file_type \<Rightarrow> file_state \<Rightarrow> member \<Rightarrow> site_file \<Rightarrow> bool" where
  "direct_cand type state beta_off f \<longleftrightarrow>
     fs_exists (FS_GET beta_off f) \<and> sf_type f = type
     \<and> fs_filename (FS_GET beta_off f) = fs_filename state"

definition moved_cand :: "file_type \<Rightarrow> file_state \<Rightarrow> site \<Rightarrow> member \<Rightarrow> site_file \<Rightarrow> bool" where
  "moved_cand type state s beta_off f \<longleftrightarrow>
     type = file_file \<and> sf_type f = file_file \<and> sf_diff f \<noteq> file_unchanged
     \<and> file_compare file_file state (FS_GET beta_off f) s = Some file_moved"

text \<open>What the search guarantees of its three candidates.\<close>

definition cands_ok ::
    "file_type \<Rightarrow> file_state \<Rightarrow> site \<Rightarrow> member \<Rightarrow> (addr \<times> site_file) set \<Rightarrow> candidates \<Rightarrow> bool" where
  "cands_ok type state s beta_off A cands \<longleftrightarrow>
     (case cands of (direct, moved, frename) \<Rightarrow>
       (\<forall>d. direct = Some d \<longrightarrow> (\<exists>f. (d, f) \<in> A \<and> direct_cand type state beta_off f))
       \<and> (\<forall>m. moved = Some m \<or> frename = Some m \<longrightarrow>
             (\<exists>f. (m, f) \<in> A \<and> moved_cand type state s beta_off f)))"

lemma FS_GET_wf: "wf_file f \<Longrightarrow> wf_state (sf_type f) (FS_GET m f)"
  by (cases m) (auto simp: wf_file_def)

lemma file_set_step_ok:
  assumes wf: "wf_file f" and st: "fs_filename state = Some n" "wf_state type state"
    and c: "cands_ok type state s beta_off A cands" and A: "(a, f) \<in> A"
  shows "\<exists>c'. file_set_step type state s beta_off a f cands = Some c'
    \<and> cands_ok type state s beta_off A c'"
proof -
  obtain direct moved frename where cands: "cands = (direct, moved, frename)" by (cases cands)
  let ?beta = "FS_GET beta_off f"
  obtain same where same: "(if fs_exists ?beta \<and> direct = None \<and> sf_type f = type
      then map_option Not (strcmp_ne (fs_filename ?beta) (fs_filename state)) else Some False)
      = Some same"
    and same_cand: "same \<Longrightarrow> direct_cand type state beta_off f"
  proof (cases "fs_exists ?beta \<and> direct = None \<and> sf_type f = type")
    case True
    then obtain y where "fs_filename ?beta = Some y"
      using FS_GET_wf [OF wf, of beta_off] by (auto simp: wf_state_def)
    with True st(1) show ?thesis by (intro that [of "y = n"]) (auto simp: direct_cand_def)
  next
    case False
    then show ?thesis by (intro that [of False]) auto
  qed
  show ?thesis
  proof (cases "\<not> same \<and> s_checkmoved s \<and> type = file_file \<and> sf_type f = file_file
      \<and> sf_diff f \<noteq> file_unchanged")
    case False
    show ?thesis
    proof (cases same)
      case True
      then have "file_set_step type state s beta_off a f cands = Some (Some a, moved, frename)"
        using True unfolding file_set_step_def cands Let_def prod.case same by auto
      then show ?thesis using same_cand [OF True] c A by (auto simp: cands_ok_def cands)
    next
      case ns: False
      have "file_set_step type state s beta_off a f cands = Some cands"
        using False ns unfolding file_set_step_def cands Let_def prod.case same by auto
      then show ?thesis using c by simp
    qed
  next
    case True
    obtain d where d: "file_compare file_file state ?beta s = Some d"
      using file_compare_total [of file_file state ?beta s] FS_GET_wf [OF wf, of beta_off] st(2) True
      by auto
    show ?thesis
    proof (cases "d = file_moved")
      case False
      with True same d c show ?thesis by (auto simp: file_set_step_def cands)
    next
      case moved: True
      with d obtain y where "fs_filename ?beta = Some y"
        using file_compare_moved by blast
      moreover have "moved_cand type state s beta_off f"
        using True d moved by (simp add: moved_cand_def)
      ultimately show ?thesis
        using True same d moved c A st(1) by (auto simp: file_set_step_def cands cands_ok_def)
    qed
  qed
qed

lemma file_set_scan_ok:
  assumes "\<forall>(a, f) \<in> set xs. wf_file f" "set xs \<subseteq> A"
    and "fs_filename state = Some n" "wf_state type state"
    and "cands_ok type state s beta_off A cands"
  shows "\<exists>c'. file_set_scan type state s beta_off xs cands = Some c'
    \<and> cands_ok type state s beta_off A c'"
  using assms
proof (induction xs arbitrary: cands)
  case (Cons p xs)
  obtain a f where p: "p = (a, f)" by (cases p)
  obtain c' where c': "file_set_step type state s beta_off a f cands = Some c'"
      "cands_ok type state s beta_off A c'"
    using file_set_step_ok [of f state n type s beta_off A cands a] Cons.prems p by auto
  obtain x y z where xyz: "c' = (x, y, z)" by (cases c')
  have IH: "\<exists>c''. file_set_scan type state s beta_off xs c' = Some c''
      \<and> cands_ok type state s beta_off A c''"
    using Cons.IH [of c'] Cons.prems c' p by auto
  with c' show ?case by (cases x; cases y; cases z) (auto simp: p xyz)
qed simp

text \<open>Without \<^verbatim>\<open>checkmoved\<close> only the first candidate is looked for, and it is found if there is one.\<close>

lemma file_set_step_unmoved:
  assumes "\<not> s_checkmoved s" "file_set_step type state s m a f (dir, None, None) = Some c"
  shows "\<exists>dir'. c = (dir', None, None) \<and> (dir' = None \<longrightarrow> dir = None \<and> \<not> direct_cand type state m f)"
proof (cases "fs_exists (FS_GET m f) \<and> dir = None \<and> sf_type f = type")
  case True
  then obtain x y where "fs_filename (FS_GET m f) = Some x" "fs_filename state = Some y"
    using assms(2)
    by (cases "fs_filename (FS_GET m f)"; cases "fs_filename state")
      (simp_all add: file_set_step_def del: strcmp_ne_Some)
  then show ?thesis
    using assms True by (auto simp: file_set_step_def direct_cand_def Let_def split: if_splits)
next
  case False
  then show ?thesis
    using assms by (auto simp: file_set_step_def direct_cand_def Let_def)
qed

lemma file_set_scan_unmoved:
  assumes "\<not> s_checkmoved s" "file_set_scan type state s m xs (dir, None, None) = Some (d, moved, frename)"
  shows "moved = None \<and> frename = None
    \<and> (d = None \<longrightarrow> dir = None \<and> (\<forall>(a, f) \<in> set xs. \<not> direct_cand type state m f))"
  using assms(2)
proof (induction xs arbitrary: dir)
  case (Cons p xs)
  obtain a f where p: "p = (a, f)" by (cases p)
  obtain c where c: "file_set_step type state s m a f (dir, None, None) = Some c"
    using Cons.prems by (auto simp: p bind_eq_Some_conv)
  obtain dir' where s: "c = (dir', None, None)" "dir' = None \<longrightarrow> dir = None \<and> \<not> direct_cand type state m f"
    using file_set_step_unmoved [OF assms(1) c] by blast
  then show ?case using Cons.prems Cons.IH [of dir'] c by (auto simp: p split: option.splits)
qed simp

section \<open>The three outcomes of file_set\<close>

lemma flags_ok_cong:
  assumes "opts s = opts t" "\<And>k. counter k s = counter k t" "flags_ok s" "flags_ok t"
  shows "s_local_is_different s = s_local_is_different t"
    "s_remote_is_different s = s_remote_is_different t"
  using assms(3,4) assms(2) [of st_new] assms(2) [of st_moved] assms(2) [of st_changed]
    assms(2) [of st_deleted] assms(2) [of st_ignored] opts_fields(6) [OF assms(1)]
  by (simp_all add: flags_ok_def site_stats_update_def)

text \<open>A site is its settings, its files, its counters and its flags.\<close>

definition rebuild ::
    "site \<Rightarrow> (addr \<times> site_file) list \<Rightarrow> (stat \<Rightarrow> int) \<Rightarrow> bool \<Rightarrow> bool \<Rightarrow> site" where
  "rebuild o' xs k l r = o'\<lparr>s_files := xs, s_numnew := k st_new,
      s_numchanged := k st_changed, s_numignored := k st_ignored,
      s_numdeleted := k st_deleted, s_nummoved := k st_moved,
      s_numunchanged := k st_unchanged, s_totalnew := k st_total_new,
      s_totalchanged := k st_total_changed,
      s_local_is_different := l, s_remote_is_different := r\<rparr>"

lemma rebuild_id:
  "u = rebuild (opts u) (s_files u) (\<lambda>k. counter k u) (s_local_is_different u)
     (s_remote_is_different u)"
  by (simp add: opts_def rebuild_def)

lemma site_eqI:
  assumes o: "opts s = opts t" and f: "s_files s = s_files t"
    and k: "\<And>k. counter k s = counter k t" and fl: "flags_ok s" "flags_ok t"
  shows "s = t"
proof -
  have k': "(\<lambda>k. counter k s) = (\<lambda>k. counter k t)" using k by (rule ext)
  show ?thesis
    by (subst rebuild_id [of s], subst rebuild_id [of t])
      (simp only: o f k' flags_ok_cong [OF o k fl])
qed

definition add_file :: "file_type \<Rightarrow> site_file \<Rightarrow> site \<Rightarrow> site" where
  "add_file type g s =
     site_stats_update (site_stats_increase g
       (put_file (fresh_addr (s_files s)) (\<lambda>_. g) (snd (file_insert type s))))"

lemma counter_add_file [stat_simps]: "counter k (add_file type g s) = counter k s + weight k g"
  by (simp add: add_file_def stat_simps)

lemma opts_add_file [frame_simps]: "opts (add_file type g s) = opts s"
  by (simp add: add_file_def frame_simps)

lemma get_add_file [frame_simps]:
  "get_file b (add_file type g s) =
     (if b = fresh_addr (s_files s) then Some g else get_file b s)"
  by (simp add: add_file_def frame_simps file_insert_get)

lemma tally_add_file:
  "tally w (s_files (add_file type g s)) = tally w (s_files s) + w g"
  by (simp add: add_file_def frame_simps file_insert_tally)

lemma add_file_inv:
  assumes inv: "site_inv s" and g: "file_ok s g"
  shows "site_inv (add_file type g s)"
proof (rule site_invI)
  show "distinct (map fst (s_files (add_file type g s)))"
    using file_insert_distinct [OF site_invD(4) [OF inv]]
    by (simp add: add_file_def frame_simps)
  show "file_ok (add_file type g s) h" if "get_file b (add_file type g s) = Some h" for b h
    using that g site_inv_get [OF inv, of b h] file_ok_opts [OF opts_add_file, of type g s h]
    by (auto simp: frame_simps split: if_splits)
  show "counter k (add_file type g s) = tally (weight k) (s_files (add_file type g s))" for k
    using site_invD(2) [OF inv] by (simp add: stat_simps tally_add_file stats_ok_def)
  show "flags_ok (add_file type g s)" by (simp add: add_file_def)
qed

lemma fresh_addr_map_entry [simp]: "fresh_addr (AList.map_entry a g xs) = fresh_addr xs"
  by (simp add: fresh_addr_def)

text \<open>The third outcome: the state that was in the way moves to a node of its own.\<close>

lemma file_set_write_eq:
  assumes "distinct (map fst (s_files s))" "get_file a s = Some f"
  shows "file_set_write a state s m =
    Some (a, site_stats_update (site_stats_increase (FS_PUT m state f)
      (put_file a (\<lambda>_. FS_PUT m state f) s)))"
  using put_file_const [OF assms, of "FS_PUT m state"] assms(2)
  by (simp add: file_set_write_def frame_simps)

lemma distinct_put_file [simp]:
  "distinct (map fst (s_files (put_file a g s))) \<longleftrightarrow> distinct (map fst (s_files s))"
  by (simp add: put_file_def)

lemma map_entry_comp: "AList.map_entry a g (AList.map_entry a h xs) = AList.map_entry a (g \<circ> h) xs"
  by (induction xs) auto

lemma map_entry_commute:
  "a \<noteq> b \<Longrightarrow> AList.map_entry a g (AList.map_entry b h xs) = AList.map_entry b h (AList.map_entry a g xs)"
  by (induction xs) auto

lemma file_insert_files_put:
  assumes "a \<noteq> fresh_addr (s_files s)"
  shows "s_files (snd (file_insert type (put_file a g s))) =
    AList.map_entry a g (s_files (snd (file_insert type s)))"
proof -
  have *: "AList.map_entry a g (xs @ [(k, z)]) = AList.map_entry a g xs @ [(k, z)]"
    if "a \<noteq> k" for xs k z
    using that by (induction xs) auto
  have e: "AList.map_entry a g xs = [] \<longleftrightarrow> xs = []" for xs
    by (cases xs) auto
  show ?thesis
    using assms unfolding file_insert_def Let_def put_file_def
    by (cases "s_files s = []") (simp_all add: * e)
qed

lemma FS_PUT_simps [simp]:
  "sf_diff (FS_PUT m st f) = sf_diff f"
  "sf_type (FS_PUT m st f) = sf_type f"
  "sf_ignore (FS_PUT m st f) = sf_ignore f"
  "FS_GET m (FS_PUT m st f) = st"
  "m \<noteq> m' \<Longrightarrow> FS_GET m (FS_PUT m' st f) = FS_GET m f"
  by (cases m; cases m'; simp)+

lemma FS_GET_diff [simp]: "FS_GET m (f\<lparr>sf_diff := d\<rparr>) = FS_GET m f"
  by (cases m) auto

lemma FS_PUT_diff: "FS_PUT m st (f\<lparr>sf_diff := d\<rparr>) = (FS_PUT m st f)\<lparr>sf_diff := d\<rparr>"
  by (cases m) auto

definition overwritten :: "addr \<Rightarrow> member \<Rightarrow> file_state \<Rightarrow> file_diff \<Rightarrow> file_diff \<Rightarrow> site \<Rightarrow> site_file
    \<Rightarrow> site" where
  "overwritten a m state diff default_diff s f =
     replace_file a f (FS_PUT m state (f\<lparr>sf_diff := diff\<rparr>))
       (if fs_exists (FS_GET m f)
        then add_file (sf_type f) (FS_PUT m (FS_GET m f)
               (zero_file\<lparr>sf_type := sf_type f, sf_diff := default_diff, sf_ignore := sf_ignore f\<rparr>)) s
        else s)"

lemma file_set_overwrite:
  assumes d: "distinct (map fst (s_files s))" and f: "get_file a s = Some f"
  shows "Option.bind (file_set_shove a (put_file a (sf_diff_update (\<lambda>_. diff))
        (site_stats_decrease f s)) m default_diff) (\<lambda>s. file_set_write a state s m)
    = Some (a, overwritten a m state diff default_diff s f)"
proof -
  define s1 where "s1 = put_file a (sf_diff_update (\<lambda>_. diff)) (site_stats_decrease f s)"
  let ?f1 = "f\<lparr>sf_diff := diff\<rparr>"
  have s1: "s1 = put_file a (\<lambda>_. ?f1) (site_stats_decrease f s)"
    unfolding s1_def using d f by (intro put_file_const) (simp_all add: frame_simps)
  have d1: "distinct (map fst (s_files s1))" using d by (simp add: s1 frame_simps)
  have f1: "get_file a s1 = Some ?f1" using f by (simp add: s1 frame_simps)
  show ?thesis
  proof (cases "fs_exists (FS_GET m f)")
    case False
    then have "file_set_shove a s1 m default_diff = Some s1"
      by (simp add: file_set_shove_def f1)
    moreover have "put_file a (\<lambda>_. FS_PUT m state ?f1) s1 =
        put_file a (\<lambda>_. FS_PUT m state ?f1) (site_stats_decrease f s)"
      by (simp add: s1 put_file_put_file comp_def)
    ultimately show ?thesis
      using False file_set_write_eq [OF d1 f1, of state m]
      by (simp add: s1_def [symmetric] overwritten_def replace_file_def)
  next
    case True
    let ?o = "FS_PUT m (FS_GET m f)
      (zero_file\<lparr>sf_type := sf_type f, sf_diff := default_diff, sf_ignore := sf_ignore f\<rparr>)"
    let ?b = "fresh_addr (s_files s)"
    have ab: "a \<noteq> ?b" using f fresh_get_file [of s] by auto
    have b1: "fresh_addr (s_files s1) = ?b" by (simp add: s1 frame_simps)
    define s2 where "s2 = site_stats_increase ?o
      (put_file ?b (\<lambda>_. ?o) (snd (file_insert (sf_type f) s1)))"
    have sh: "file_set_shove a s1 m default_diff = Some s2"
      using True b1 by (simp add: file_set_shove_def f1 case_prod_beta' Let_def s2_def)
    have d2: "distinct (map fst (s_files s2))"
      using file_insert_distinct [OF d1] by (simp add: s2_def frame_simps)
    have f2: "get_file a s2 = Some ?f1"
      using f1 ab b1 by (simp add: s2_def frame_simps file_insert_get)
    have "site_stats_update (site_stats_increase (FS_PUT m state ?f1)
          (put_file a (\<lambda>_. FS_PUT m state ?f1) s2))
        = replace_file a f (FS_PUT m state ?f1) (add_file (sf_type f) ?o s)"
    proof (rule site_eqI)
      show "s_files (site_stats_update (site_stats_increase (FS_PUT m state ?f1)
          (put_file a (\<lambda>_. FS_PUT m state ?f1) s2)))
          = s_files (replace_file a f (FS_PUT m state ?f1) (add_file (sf_type f) ?o s))"
        using ab file_insert_files_put [of a "site_stats_decrease f s" "sf_type f" "\<lambda>_. ?f1"]
        by (simp add: frame_simps s2_def s1 add_file_def map_entry_comp comp_def
            map_entry_commute [of a ?b] file_insert_def Let_def)
    qed (simp_all add: frame_simps stat_simps s2_def s1 replace_file_def)
    then show ?thesis
      using True sh file_set_write_eq [OF d2 f2, of state m]
      by (simp add: s1_def [symmetric] overwritten_def)
  qed
qed

section \<open>The states on either side of a site\<close>

definition states :: "member \<Rightarrow> site \<Rightarrow> (file_type \<times> file_state) multiset" where
  "states m s = tally (\<lambda>f. if fs_exists (FS_GET m f) then {#(sf_type f, FS_GET m f)#} else {#})
     (s_files s)"

abbreviation other_member :: "member \<Rightarrow> member" where
  "other_member m \<equiv> (if m = m_local then m_stored else m_local)"

definition default_of :: "member \<Rightarrow> file_diff" where
  "default_of m = (if m = m_local then file_new else file_deleted)"

lemma states_add_file:
  "states m (add_file type g s) = states m s
     + (if fs_exists (FS_GET m g) then {#(sf_type g, FS_GET m g)#} else {#})"
  by (simp add: states_def tally_add_file)

lemma states_replace_file:
  assumes "distinct (map fst (s_files s))" "get_file a s = Some f"
  shows "states m (replace_file a f g s)
      + (if fs_exists (FS_GET m f) then {#(sf_type f, FS_GET m f)#} else {#})
    = states m s + (if fs_exists (FS_GET m g) then {#(sf_type g, FS_GET m g)#} else {#})"
  using tally_replace [OF assms(1), of a f
      "\<lambda>f. if fs_exists (FS_GET m f) then {#(sf_type f, FS_GET m f)#} else {#}" "\<lambda>_. g"] assms(2)
  by (simp add: states_def frame_simps get_file_def)

lemma zero_exists [simp]: "\<not> fs_exists (FS_GET m (zero_file\<lparr>sf_type := t, sf_diff := d, sf_ignore := i\<rparr>))"
  by (cases m) (auto simp: zero_file_def zero_state_def)

lemma compare_default:
  assumes "fs_exists st" "sf_diff g = default_of m" "\<not> fs_exists (FS_GET (other_member m) g)"
    "wf_state (sf_type g) st"
  shows "file_ok s (FS_PUT m st g)"
  using assms
  by (cases m) (auto simp: file_ok_def wf_file_def default_of_def file_compare_def wf_state_def)

lemma compare_beta:
  assumes "fs_exists st" "wf_state (sf_type g) st" "fs_exists (FS_GET (other_member m) g)"
    "wf_state (sf_type g) (FS_GET (other_member m) g)"
    "file_compare (sf_type g) st (FS_GET (other_member m) g) s = Some (sf_diff g)"
  shows "file_ok s (FS_PUT m st g)"
  using assms file_compare_sym [of st "FS_GET (other_member m) g" "sf_type g" s]
  by (cases m) (auto simp: file_ok_def wf_file_def)

text \<open>
  A local and a stored state of the same type and name are in the same node (\<open>paired\<close>); setting the
  state of a name that has none on that side keeps this, unless moved files are looked for.
\<close>

definition has_name :: "member \<Rightarrow> site \<Rightarrow> addr \<Rightarrow> file_type \<times> string option \<Rightarrow> bool" where
  "has_name m s a k \<longleftrightarrow> (\<exists>f. get_file a s = Some f \<and> fs_exists (FS_GET m f)
     \<and> k = (sf_type f, fs_filename (FS_GET m f)))"

definition paired :: "site \<Rightarrow> bool" where
  "paired s \<longleftrightarrow> (\<forall>m n a b k. has_name m s a k \<longrightarrow> has_name n s b k \<longrightarrow> a = b)"

definition fresh_name :: "file_type \<Rightarrow> file_state \<Rightarrow> member \<Rightarrow> site \<Rightarrow> bool" where
  "fresh_name type state m s \<longleftrightarrow> (\<forall>a. \<not> has_name m s a (type, fs_filename state))"

definition no_server :: "site \<Rightarrow> bool" where
  "no_server s \<longleftrightarrow> (\<forall>a f. get_file a s = Some f \<longrightarrow> \<not> fs_exists (sf_server f))"

definition set_keeps :: "file_type \<Rightarrow> file_state \<Rightarrow> member \<Rightarrow> site \<Rightarrow> site \<Rightarrow> bool" where
  "set_keeps type state m s t \<longleftrightarrow> (no_server s \<longrightarrow> no_server t)
     \<and> (\<not> s_checkmoved s \<longrightarrow> paired s \<longrightarrow> fresh_name type state m s \<longrightarrow> paired t)"

definition set_result ::
    "file_type \<Rightarrow> file_state \<Rightarrow> member \<Rightarrow> site \<Rightarrow> addr \<times> site \<Rightarrow> bool" where
  "set_result type state m s r \<longleftrightarrow>
     (case r of (a, t) \<Rightarrow>
       site_inv t \<and> opts t = opts s
       \<and> states m t = add_mset (type, state) (states m s)
       \<and> states (other_member m) t = states (other_member m) s
       \<and> (\<exists>f. get_file a t = Some f \<and> sf_type f = type \<and> FS_GET m f = state)
       \<and> set_keeps type state m s t)"

lemma FS_PUT_get: "FS_GET n (FS_PUT m st f) = (if n = m then st else FS_GET n f)"
  by (cases m; cases n) simp_all

lemma FS_PUT_server [simp]: "sf_server (FS_PUT m st f) = sf_server f"
  by (cases m) simp_all

abbreviation new_node :: "file_type \<Rightarrow> file_state \<Rightarrow> member \<Rightarrow> bool \<Rightarrow> site_file" where
  "new_node type state m ign \<equiv>
     FS_PUT m state (zero_file\<lparr>sf_type := type, sf_diff := default_of m, sf_ignore := ign\<rparr>)"

lemma has_name_created:
  assumes "fs_exists state"
  shows "has_name n (add_file type (new_node type state m ign) s) b k
    \<longleftrightarrow> has_name n s b k \<or> n = m \<and> b = fresh_addr (s_files s) \<and> k = (type, fs_filename state)"
  using assms
  by (cases m; cases n) (auto simp: has_name_def frame_simps zero_file_def zero_state_def split: if_splits)

lemma created_keeps:
  assumes "fs_exists state"
    and "\<And>b f. \<not> s_checkmoved s \<Longrightarrow> get_file b s = Some f \<Longrightarrow> \<not> direct_cand type state (other_member m) f"
  shows "set_keeps type state m s (add_file type (new_node type state m ign) s)"
proof -
  have other: "\<not> has_name (other_member m) s b (type, fs_filename state)" if "\<not> s_checkmoved s" for b
    using assms(2) [OF that, of b] unfolding has_name_def direct_cand_def by (metis prod.inject)
  have side: "n = m \<or> n = other_member m" for n by (cases n; cases m) simp_all
  have "paired (add_file type (new_node type state m ign) s)"
    if c: "\<not> s_checkmoved s" and p: "paired s" "fresh_name type state m s"
  proof -
    have none: "\<not> has_name n s b (type, fs_filename state)" for n b
      using side [of n] other [OF c] p(2) by (auto simp: fresh_name_def)
    show ?thesis
      using p(1) none unfolding paired_def has_name_created [OF assms(1)] by blast
  qed
  moreover have "no_server (add_file type (new_node type state m ign) s)" if "no_server s"
    using that by (simp add: no_server_def frame_simps zero_file_def zero_state_def)
  ultimately show ?thesis by (simp add: set_keeps_def)
qed

lemma created_result:
  assumes inv: "site_inv s" and st: "fs_exists state" "wf_state type state"
    and dir: "\<And>b f. \<not> s_checkmoved s \<Longrightarrow> get_file b s = Some f \<Longrightarrow> \<not> direct_cand type state (other_member m) f"
  shows "set_result type state m s
    (fresh_addr (s_files s),
     add_file type (FS_PUT m state
       (zero_file\<lparr>sf_type := type, sf_diff := default_of m, sf_ignore := ign\<rparr>)) s)"
proof -
  let ?z = "zero_file\<lparr>sf_type := type, sf_diff := default_of m, sf_ignore := ign\<rparr>"
  let ?g = "FS_PUT m state ?z"
  have "file_ok s ?g"
    by (rule compare_default) (use st in simp_all)
  then have "site_inv (add_file type ?g s)" by (rule add_file_inv [OF inv])
  then show ?thesis
    using st created_keeps [OF st(1) dir]
    by (cases m) (simp_all add: set_result_def states_add_file frame_simps
        zero_file_def zero_state_def)
qed

text \<open>The node that takes the older state has its name; the node it was in has the new one.\<close>

lemma has_name_overwritten:
  assumes f: "get_file a s = Some f" and st: "fs_exists state" and t: "sf_type f = type"
  shows "has_name n (overwritten a m state diff (default_of m) s f) b k
    \<longleftrightarrow> (if n = m
         then b = a \<and> k = (type, fs_filename state) \<or> b \<noteq> a \<and> has_name m s b k
           \<or> b = fresh_addr (s_files s) \<and> has_name m s a k
         else has_name n s b k)"
proof -
  have fr: "fresh_addr (s_files s) \<noteq> a" using f fresh_get_file [of s] by auto
  let ?s = "if fs_exists (FS_GET m f)
    then add_file (sf_type f) (new_node (sf_type f) (FS_GET m f) m (sf_ignore f)) s else s"
  have f': "get_file a ?s = Some f" using f fr by (simp add: frame_simps)
  have get: "get_file b (overwritten a m state diff (default_of m) s f)
    = (if b = a then Some (FS_PUT m state (f\<lparr>sf_diff := diff\<rparr>)) else get_file b ?s)"
    using f' unfolding overwritten_def get_replace_file by simp
  have ty: "sf_type (FS_PUT m x g) = sf_type g" for x g by (cases m) simp_all
  have a: "has_name n s a k \<longleftrightarrow> fs_exists (FS_GET n f) \<and> k = (type, fs_filename (FS_GET n f))" for n
    using f t by (simp add: has_name_def)
  have "has_name n (overwritten a m state diff (default_of m) s f) b k
    \<longleftrightarrow> (if b = a then (if n = m then k = (type, fs_filename state) else has_name n s a k)
         else has_name n ?s b k)"
    unfolding has_name_def get using f st t by (auto simp: FS_PUT_get ty)
  also have "has_name n ?s b k \<longleftrightarrow> has_name n s b k \<or> n = m \<and> b = fresh_addr (s_files s) \<and> has_name m s a k"
    using has_name_created [of "FS_GET m f" n "sf_type f" m _ s b k] a [of m] t by auto
  finally show ?thesis using fr by auto
qed

lemma overwritten_keeps:
  assumes f: "get_file a s = Some f" and st: "fs_exists state" and t: "sf_type f = type"
    and dir: "\<not> s_checkmoved s \<Longrightarrow> direct_cand type state (other_member m) f"
  shows "set_keeps type state m s (overwritten a m state diff (default_of m) s f)"
proof -
  let ?t = "overwritten a m state diff (default_of m) s f"
  let ?k = "(type, fs_filename state)"
  have side: "n = m \<or> n = other_member m" for n by (cases n; cases m) simp_all
  have no_fresh: "\<not> has_name n s (fresh_addr (s_files s)) k" for n k by (simp add: has_name_def)
  have "paired ?t" if c: "\<not> s_checkmoved s" and p: "paired s" "fresh_name type state m s"
  proof -
    have a: "has_name (other_member m) s a ?k"
      using dir [OF c] f by (auto simp: has_name_def direct_cand_def)
    have none: "\<not> has_name m s b ?k" for b using p(2) by (simp add: fresh_name_def)
    have eq: "b = c" if "has_name i s b k" "has_name j s c k" for i j b c k
      using p(1) that unfolding paired_def by blast
    have old: "\<not> has_name i s b k" if "has_name m s a k" "i \<noteq> m" for i b k
    proof
      assume h: "has_name i s b k"
      then have "b = a" using eq that(1) by blast
      moreover have "i = other_member m" using side that(2) by blast
      ultimately have "k = ?k" using h a by (auto simp: has_name_def)
      then show False using that(1) none by simp
    qed
    show ?thesis
      unfolding paired_def has_name_overwritten [OF f st t]
      using eq none old a no_fresh by (auto split: if_splits; metis)
  qed
  moreover have "no_server ?t" if "no_server s"
    using that f fresh_get_file [of s] unfolding no_server_def overwritten_def get_replace_file
    by (auto simp: frame_simps zero_file_def zero_state_def split: if_splits)
  ultimately show ?thesis by (simp add: set_keeps_def)
qed

lemma states_overwritten:
  assumes d: "distinct (map fst (s_files s))" and f: "get_file a s = Some f"
    and st: "fs_exists state" and t: "sf_type f = type"
  shows "states m (overwritten a m state diff dd s f) = add_mset (type, state) (states m s)"
    and "states (other_member m) (overwritten a m state diff dd s f) = states (other_member m) s"
proof -
  let ?o = "FS_PUT m (FS_GET m f)
      (zero_file\<lparr>sf_type := sf_type f, sf_diff := dd, sf_ignore := sf_ignore f\<rparr>)"
  let ?s = "if fs_exists (FS_GET m f) then add_file (sf_type f) ?o s else s"
  have "fresh_addr (s_files s) \<noteq> a" using f fresh_get_file [of s] by auto
  then have f': "get_file a ?s = Some f" using f by (simp add: frame_simps)
  have d': "distinct (map fst (s_files ?s))"
    using d file_insert_distinct [OF d] by (simp add: add_file_def frame_simps)
  have o': "\<not> fs_exists (FS_GET (other_member m) ?o)"
    using zero_exists [of "other_member m"] by (cases m) simp_all
  show "states m (overwritten a m state diff dd s f) = add_mset (type, state) (states m s)"
    using states_replace_file [OF d' f', of m "FS_PUT m state (f\<lparr>sf_diff := diff\<rparr>)"] st t
    by (simp add: overwritten_def states_add_file split: if_splits)
  show "states (other_member m) (overwritten a m state diff dd s f) = states (other_member m) s"
    using states_replace_file [OF d' f', of "other_member m" "FS_PUT m state (f\<lparr>sf_diff := diff\<rparr>)"]
      o' by (cases m) (simp_all add: overwritten_def states_add_file split: if_splits)
qed

lemma overwritten_result:
  assumes inv: "site_inv s" and f: "get_file a s = Some f"
    and st: "fs_exists state" "wf_state type state" and t: "sf_type f = type"
    and beta: "fs_exists (FS_GET (other_member m) f)"
    and c: "file_compare type state (FS_GET (other_member m) f) s = Some diff"
    and dir: "\<not> s_checkmoved s \<Longrightarrow> direct_cand type state (other_member m) f"
  shows "set_result type state m s (a, overwritten a m state diff (default_of m) s f)"
proof -
  let ?o = "FS_PUT m (FS_GET m f)
      (zero_file\<lparr>sf_type := sf_type f, sf_diff := default_of m, sf_ignore := sf_ignore f\<rparr>)"
  let ?s = "if fs_exists (FS_GET m f) then add_file (sf_type f) ?o s else s"
  let ?g = "FS_PUT m state (f\<lparr>sf_diff := diff\<rparr>)"
  have wf: "wf_file f" using site_inv_get [OF inv f] by (simp add: file_ok_def)
  have o': "file_ok s ?o" if "fs_exists (FS_GET m f)"
    by (rule compare_default) (use that FS_GET_wf [OF wf, of m] in simp_all)
  have os: "opts ?s = opts s" by (simp add: frame_simps)
  have "site_inv ?s" using o' add_file_inv [OF inv] inv by auto
  moreover have f': "get_file a ?s = Some f"
    using f fresh_get_file [of s] by (auto simp: frame_simps)
  moreover have "file_ok ?s ?g"
    unfolding file_ok_opts [OF os]
    by (rule compare_beta) (use st t beta c FS_GET_wf [OF wf, of "other_member m"] in simp_all)
  ultimately have "site_inv (overwritten a m state diff (default_of m) s f)"
    unfolding overwritten_def by (rule replace_file_inv)
  moreover have "opts (overwritten a m state diff (default_of m) s f) = opts s"
    unfolding overwritten_def opts_replace_file by (rule os)
  moreover have "get_file a (overwritten a m state diff (default_of m) s f) = Some ?g"
    unfolding overwritten_def by (simp only: get_replace_file f') simp
  ultimately show ?thesis
    using states_overwritten [OF site_invD(4) [OF inv] f st(1) t, of m diff "default_of m"] t
      overwritten_keeps [OF f st(1) t dir]
    by (simp add: set_result_def)
qed

section \<open>file_set\<close>

lemma files_set_get:
  "site_inv s \<Longrightarrow> (a, f) \<in> set (s_files s) \<longleftrightarrow> get_file a s = Some f"
  using site_invD(4) [of s] by (simp add: get_file_def map_of_eq_Some_iff)

lemma direct_candD:
  assumes "direct_cand type state beta_off f"
  shows "fs_exists (FS_GET beta_off f)" "sf_type f = type"
  using assms by (simp_all add: direct_cand_def)

lemma moved_candD:
  assumes "moved_cand type state s beta_off f"
  shows "fs_exists (FS_GET beta_off f)" "sf_type f = type"
    "file_compare type state (FS_GET beta_off f) s = Some file_moved"
  using assms file_compare_moved [of file_file state "FS_GET beta_off f" s]
  by (auto simp: moved_cand_def)

lemma file_set_scan_result:
  assumes inv: "site_inv s" and st: "fs_filename state = Some n" "wf_state type state"
  obtains direct moved frename where
    "file_set_scan type state s m (s_files s) (None, None, None) = Some (direct, moved, frename)"
    "\<And>d. direct = Some d \<Longrightarrow> \<exists>f. get_file d s = Some f \<and> direct_cand type state m f"
    "\<And>x. moved = Some x \<or> frename = Some x \<Longrightarrow>
       \<exists>f. get_file x s = Some f \<and> moved_cand type state s m f"
    "\<not> s_checkmoved s \<Longrightarrow> moved = None \<and> frename = None
       \<and> (direct = None \<longrightarrow> (\<forall>a f. get_file a s = Some f \<longrightarrow> \<not> direct_cand type state m f))"
proof -
  have "\<exists>c'. file_set_scan type state s m (s_files s) (None, None, None) = Some c'
      \<and> cands_ok type state s m (set (s_files s)) c'"
  proof (rule file_set_scan_ok [OF _ subset_refl st])
    show "\<forall>(a, f) \<in> set (s_files s). wf_file f"
      using site_invD(1) [OF inv] by (auto simp: files_ok_def file_ok_def)
  qed (simp add: cands_ok_def)
  then obtain d mv fr where c: "file_set_scan type state s m (s_files s) (None, None, None) = Some (d, mv, fr)"
    "cands_ok type state s m (set (s_files s)) (d, mv, fr)"
    by (metis prod_cases3)
  have "\<not> s_checkmoved s \<Longrightarrow> mv = None \<and> fr = None
       \<and> (d = None \<longrightarrow> (\<forall>a f. get_file a s = Some f \<longrightarrow> \<not> direct_cand type state m f))"
    using file_set_scan_unmoved [OF _ c(1)] by (auto simp: files_set_get [OF inv, symmetric])
  with c show ?thesis
    by (intro that [of d mv fr]) (auto simp: cands_ok_def files_set_get [OF inv, symmetric])
qed

lemma not_moved:
  assumes "site_inv s" "get_file a s = Some f" "\<not> s_checkmoved s"
  shows "sf_diff f \<noteq> file_moved"
  using site_inv_get [OF assms(1,2)] assms(3)
  by (auto simp: file_ok_def file_compare_def bind_eq_Some_conv split: if_splits file_type.splits)

lemma file_set_result:
  assumes inv: "site_inv s" and st: "fs_exists state" "wf_state type state"
  shows "\<exists>r. file_set fnm type state s m (other_member m) (default_of m) = Some r
    \<and> set_result type state m s r"
proof -
  let ?b = "other_member m"
  obtain n where n: "fs_filename state = Some n" using st by (auto simp: wf_state_def)
  obtain direct moved0 frename where
    sc: "file_set_scan type state s ?b (s_files s) (None, None, None)
          = Some (direct, moved0, frename)"
    and dir: "\<And>d. direct = Some d \<Longrightarrow> \<exists>f. get_file d s = Some f \<and> direct_cand type state ?b f"
    and mov: "\<And>x. moved0 = Some x \<or> frename = Some x \<Longrightarrow>
       \<exists>f. get_file x s = Some f \<and> moved_cand type state s ?b f"
    and unm: "\<not> s_checkmoved s \<Longrightarrow> moved0 = None \<and> frename = None
       \<and> (direct = None \<longrightarrow> (\<forall>a f. get_file a s = Some f \<longrightarrow> \<not> direct_cand type state ?b f))"
    by (rule file_set_scan_result [OF inv n st(2), where m = ?b]) (rule that; assumption)
  define moved where "moved = (if moved0 = None then frename else moved0)"
  have mov': "\<exists>f. get_file x s = Some f \<and> moved_cand type state s ?b f" if "moved = Some x" for x
    using that mov [of x] by (simp add: moved_def split: if_splits)
  obtain dd where dd: "(case direct of Some d \<Rightarrow> do { df \<leftarrow> get_file d s;
        file_compare type state (FS_GET ?b df) s } | None \<Rightarrow> Some (default_of m)) = Some dd"
    and dd0: "direct = None \<Longrightarrow> dd = default_of m"
    and dd1: "\<And>d f. direct = Some d \<Longrightarrow> get_file d s = Some f \<Longrightarrow>
      file_compare type state (FS_GET ?b f) s = Some dd"
  proof (cases direct)
    case (Some d)
    then obtain f where f: "get_file d s = Some f" "direct_cand type state ?b f" using dir by blast
    have "wf_state type (FS_GET ?b f)"
      using FS_GET_wf [of f ?b] site_inv_get [OF inv f(1)] direct_candD(2) [OF f(2)]
      by (simp add: file_ok_def)
    then obtain e where "file_compare type state (FS_GET ?b f) s = Some e"
      using file_compare_total [OF st(2)] by blast
    then show ?thesis using Some f(1) by (intro that [of e]) auto
  qed (use that in auto)
  obtain dm where dm: "(case direct of Some d \<Rightarrow> do { df \<leftarrow> get_file d s;
        Some (sf_diff df = file_moved) } | None \<Rightarrow> Some False) = Some dm"
    using dir by (cases direct) auto
  have dm': "\<not> dm" if "\<not> s_checkmoved s"
    using dm dir not_moved [OF inv _ that] by (cases direct) auto
  note unf = file_set_def sc dd dm moved_def [symmetric] Option.bind.simps(2) prod.case Let_def
  show ?thesis
  proof (cases "(direct = None \<and> moved = None)
      \<or> (direct \<noteq> None \<and> dm \<and> moved = None \<and> dd \<noteq> file_unchanged)")
    case True
    obtain ign where ign: "(if type = file_file
        then do { fname \<leftarrow> fs_filename state; Some (file_isignored fnm fname s) }
        else Some False) = Some ign"
      by (cases "type = file_file") (use n in auto)
    let ?z = "zero_file\<lparr>sf_type := type, sf_diff := default_of m, sf_ignore := ign\<rparr>"
    let ?a = "fresh_addr (s_files s)"
    let ?s1 = "put_file ?a (\<lambda>f. f\<lparr>sf_type := type, sf_diff := default_of m, sf_ignore := ign\<rparr>)
        (snd (file_insert type s))"
    have d1: "distinct (map fst (s_files ?s1))"
      using file_insert_distinct [OF site_invD(4) [OF inv]] by simp
    have g1: "get_file ?a ?s1 = Some ?z" by (simp add: frame_simps file_insert_get)
    have "file_set fnm type state s m ?b (default_of m) = file_set_write ?a state ?s1 m"
      unfolding unf if_P [OF True] ign by (simp add: case_prod_beta')
    also have "\<dots> = Some (?a, add_file type (FS_PUT m state ?z) s)"
      by (simp add: file_set_write_eq [OF d1 g1] put_file_put_file comp_def add_file_def)
    finally show ?thesis
      using created_result [OF inv st, of m ign] True dm' unm by blast
  next
    case False
    obtain a diff f where pick: "(if moved \<noteq> None \<and> dd \<noteq> file_unchanged
          then map_option (\<lambda>m. (m, file_moved)) moved
          else map_option (\<lambda>d. (d, dd)) direct) = Some (a, diff)"
      and f: "get_file a s = Some f" "sf_type f = type" "fs_exists (FS_GET ?b f)"
        "file_compare type state (FS_GET ?b f) s = Some diff"
        "\<not> s_checkmoved s \<Longrightarrow> direct_cand type state ?b f"
    proof (cases "moved \<noteq> None \<and> dd \<noteq> file_unchanged")
      case True
      then obtain x f where "moved = Some x" "get_file x s = Some f" "moved_cand type state s ?b f"
        using mov' by blast
      moreover from this have "s_checkmoved s" using unm by (cases moved0) (auto simp: moved_def)
      ultimately show ?thesis using that [of x file_moved f] True moved_candD by simp
    next
      case F: False
      have "default_of m \<noteq> file_unchanged" by (simp add: default_of_def)
      then have "direct \<noteq> None" using F False dd0 by metis
      then obtain d f where "direct = Some d" "get_file d s = Some f" "direct_cand type state ?b f"
        using dir by blast
      then show ?thesis using that [of d dd f] F direct_candD dd1 by auto
    qed
    have "file_set fnm type state s m ?b (default_of m) =
        Option.bind (file_set_shove a (put_file a (sf_diff_update (\<lambda>_. diff))
          (site_stats_decrease f s)) m (default_of m)) (\<lambda>s. file_set_write a state s m)"
      unfolding unf if_not_P [OF False] pick f(1) by simp
    also have "\<dots> = Some (a, overwritten a m state diff (default_of m) s f)"
      by (rule file_set_overwrite [OF site_invD(4) [OF inv] f(1)])
    finally show ?thesis
      using overwritten_result [OF inv f(1) st f(2,3,4,5)] by blast
  qed
qed

lemma file_set_local_result:
  assumes "site_inv s" "fs_exists state" "wf_state type state"
  shows "\<exists>r. file_set_local fnm type state s = Some r \<and> set_result type state m_local s r"
  using file_set_result [OF assms, of fnm m_local]
  by (simp add: file_set_local_def default_of_def)

lemma file_set_stored_result:
  assumes "site_inv s" "fs_exists state" "wf_state type state"
  shows "\<exists>r. file_set_stored fnm type state s = Some r \<and> set_result type state m_stored s r"
  using file_set_result [OF assms, of fnm m_stored]
  by (simp add: file_set_stored_def default_of_def)

section \<open>Names\<close>

definition names_of :: "(file_type \<times> file_state) multiset \<Rightarrow> (file_type \<times> string option) multiset" where
  "names_of M = image_mset (\<lambda>(type, st). (type, fs_filename st)) M"

definition distinct_names :: "(file_type \<times> file_state) multiset \<Rightarrow> bool" where
  "distinct_names M \<longleftrightarrow> (\<forall>k. count (names_of M) k \<le> 1)"

lemma distinct_names_add [simp]:
  "distinct_names (add_mset (type, st) M)
    \<longleftrightarrow> distinct_names M \<and> (type, fs_filename st) \<notin># names_of M"
proof -
  have n: "names_of (add_mset (type, st) M) = add_mset (type, fs_filename st) (names_of M)"
    by (simp add: names_of_def)
  have c: "(\<forall>k. count (add_mset x N) k \<le> 1) \<longleftrightarrow> (\<forall>k. count N k \<le> 1) \<and> x \<notin># N"
    for x and N :: "(file_type \<times> string option) multiset"
  proof
    assume a: "\<forall>k. count (add_mset x N) k \<le> 1"
    have "count N k \<le> 1" for k
      using a [rule_format, of k] by (cases "k = x") simp_all
    then show "(\<forall>k. count N k \<le> 1) \<and> x \<notin># N"
      using a [rule_format, of x] by (simp add: not_in_iff)
  qed (auto simp: not_in_iff)
  show ?thesis unfolding distinct_names_def n by (rule c)
qed

lemma distinct_names_empty [simp]: "distinct_names {#}"
  by (simp add: distinct_names_def names_of_def)

lemma distinct_names_list: "distinct_names (mset xs) \<longleftrightarrow> distinct (map (\<lambda>(t, st). (t, fs_filename st)) xs)"
proof (induction xs)
  case (Cons p xs)
  then show ?case by (cases p) (auto simp: names_of_def)
qed simp

lemma states_member:
  assumes "site_inv s"
  shows "p \<in># states m s \<longleftrightarrow> (\<exists>a f. get_file a s = Some f \<and> fs_exists (FS_GET m f) \<and> p = (sf_type f, FS_GET m f))"
proof -
  have "p \<in># tally (\<lambda>f. if fs_exists (FS_GET m f) then {#(sf_type f, FS_GET m f)#} else {#}) xs
    \<longleftrightarrow> (\<exists>(a, f) \<in> set xs. fs_exists (FS_GET m f) \<and> p = (sf_type f, FS_GET m f))"
    for xs :: "(addr \<times> site_file) list"
    by (induction xs) (auto split: if_splits)
  then show ?thesis
    unfolding states_def files_set_get [OF assms, symmetric] by fastforce
qed

lemma has_name_states:
  assumes "site_inv s"
  shows "(\<exists>a. has_name m s a k) \<longleftrightarrow> k \<in># names_of (states m s)"
  unfolding has_name_def names_of_def in_image_mset image_iff Bex_def
  by (auto simp: states_member [OF assms])

text \<open>Sites whose states have distinct names are in order, unless moved files are looked for.\<close>

definition tidy :: "site \<Rightarrow> bool" where
  "tidy s \<longleftrightarrow> (\<not> s_checkmoved s \<longrightarrow> distinct_names (states m_local s)
     \<longrightarrow> distinct_names (states m_stored s) \<longrightarrow> paired s)"

lemma set_result_tidy:
  assumes inv: "site_inv s" and res: "set_result type state m s (a, t)" and tidy: "tidy s"
  shows "tidy t"
proof -
  have sts: "states m t = add_mset (type, state) (states m s)"
    "states (other_member m) t = states (other_member m) s"
    and k: "set_keeps type state m s t" and o: "opts t = opts s"
    using res by (simp_all add: set_result_def)
  have "distinct_names (states m_local t) \<and> distinct_names (states m_stored t)
    \<longleftrightarrow> distinct_names (states m_local s) \<and> distinct_names (states m_stored s)
      \<and> (type, fs_filename state) \<notin># names_of (states m s)"
    using sts by (cases m) auto
  moreover have "fresh_name type state m s \<longleftrightarrow> (type, fs_filename state) \<notin># names_of (states m s)"
    using has_name_states [OF inv, of m "(type, fs_filename state)"] by (auto simp: fresh_name_def)
  ultimately show ?thesis
    using tidy k opts_fields(2) [OF o] by (auto simp: tidy_def set_keeps_def)
qed

definition undisturbed :: "site \<Rightarrow> site \<Rightarrow> bool" where
  "undisturbed s t \<longleftrightarrow> (no_server s \<longrightarrow> no_server t) \<and> (tidy s \<longrightarrow> tidy t)"

lemma undisturbed_refl [simp]: "undisturbed s s"
  by (simp add: undisturbed_def)

lemma undisturbed_trans [trans]: "undisturbed s t \<Longrightarrow> undisturbed t u \<Longrightarrow> undisturbed s u"
  by (simp add: undisturbed_def)

lemma set_result_undisturbed: "site_inv s \<Longrightarrow> set_result type state m s (a, t) \<Longrightarrow> undisturbed s t"
  using set_result_tidy [of s type state m a t]
  by (auto simp: undisturbed_def set_result_def set_keeps_def)

section \<open>A finished transfer\<close>

lemma transfer_state_compare:
  assumes "fs_exists src" "t \<noteq> file_link" "fs_filename src = Some n"
  shows "file_compare t src (transfer_state src dest s) s = Some file_unchanged"
  using assms by (auto simp: file_compare_def transfer_state_def Let_def
      split: file_type.splits state_method.splits)

lemma transfer_state_wf:
  "fs_exists src \<Longrightarrow> t \<noteq> file_link \<Longrightarrow> wf_state t src \<Longrightarrow> wf_state t (transfer_state src dest s)"
  by (simp add: wf_state_def transfer_state_def Let_def)

lemma decrease_stored: "site_stats_decrease (f\<lparr>sf_stored := st\<rparr>) s = site_stats_decrease f s"
  by (cases "sf_diff f") (simp_all add: site_stats_decrease_def)

lemma file_uploaded_eq:
  assumes inv: "site_inv s" and f: "get_file a s = Some f"
    and ex: "fs_exists (sf_local f)" and ty: "sf_type f \<noteq> file_link"
  shows "file_uploaded a s = Some (replace_file a f
    (f\<lparr>sf_stored := transfer_state (sf_local f) (sf_stored f) s, sf_diff := file_unchanged\<rparr>) s)"
proof -
  have d: "distinct (map fst (s_files s))" by (rule site_invD(4) [OF inv])
  have "wf_file f" using site_inv_get [OF inv f] by (simp add: file_ok_def)
  then obtain n where n: "fs_filename (sf_local f) = Some n"
    using ex by (auto simp: wf_file_def wf_state_def)
  let ?g = "f\<lparr>sf_stored := transfer_state (sf_local f) (sf_stored f) s\<rparr>"
  have g: "put_file a (sf_stored_update (\<lambda>st. transfer_state (sf_local f) st s)) s
      = put_file a (\<lambda>_. ?g) s"
    by (subst put_file_const [OF d f]) (cases f, simp)
  have c: "file_compare (sf_type ?g) (sf_local ?g) (sf_stored ?g) s = Some file_unchanged"
    using transfer_state_compare [OF ex ty n] by simp
  have r: "replace_file a ?g h s = replace_file a f h s" for h
    by (simp add: replace_file_def decrease_stored)
  show ?thesis
    using file_set_diff_put [OF d f c] n f by (simp add: file_uploaded_def g r)
qed

lemma file_uploaded_result:
  assumes inv: "site_inv s" and f: "get_file a s = Some f"
    and ex: "fs_exists (sf_local f)" and ty: "sf_type f \<noteq> file_link"
  shows "\<exists>t. file_uploaded a s = Some t \<and> site_inv t \<and> opts t = opts s
    \<and> map fst (s_files t) = map fst (s_files s)
    \<and> (\<forall>b. get_file b t = (if b = a then Some (f\<lparr>sf_stored :=
          transfer_state (sf_local f) (sf_stored f) s, sf_diff := file_unchanged\<rparr>)
        else get_file b s))"
proof -
  let ?g = "f\<lparr>sf_stored := transfer_state (sf_local f) (sf_stored f) s, sf_diff := file_unchanged\<rparr>"
  have wf: "wf_file f" using site_inv_get [OF inv f] by (simp add: file_ok_def)
  then obtain n where n: "fs_filename (sf_local f) = Some n"
    using ex by (auto simp: wf_file_def wf_state_def)
  have "file_ok s ?g"
    using wf ex ty transfer_state_compare [OF ex ty n]
      transfer_state_wf [OF ex ty, of "sf_stored f" s]
    by (simp add: file_ok_def wf_file_def)
  then have "site_inv (replace_file a f ?g s)" by (rule replace_file_inv [OF inv f])
  then show ?thesis
    using file_uploaded_eq [OF assms] f by (auto simp: frame_simps)
qed

section \<open>Properties\<close>

text \<open>A site without files, and a state as the scan of a directory builds it.\<close>

lemma zero_site_inv: "s_files s = [] \<Longrightarrow> s_numnew s = 0 \<Longrightarrow> s_numchanged s = 0 \<Longrightarrow>
    s_numignored s = 0 \<Longrightarrow> s_numdeleted s = 0 \<Longrightarrow> s_nummoved s = 0 \<Longrightarrow> s_numunchanged s = 0 \<Longrightarrow>
    s_totalnew s = 0 \<Longrightarrow> s_totalchanged s = 0 \<Longrightarrow> \<not> s_local_is_different s \<Longrightarrow>
    \<not> s_remote_is_different s \<Longrightarrow> site_inv s"
proof (rule site_invI)
  assume a: "s_files s = []" "s_numnew s = 0" "s_numchanged s = 0"
    "s_numignored s = 0" "s_numdeleted s = 0" "s_nummoved s = 0" "s_numunchanged s = 0"
    "s_totalnew s = 0" "s_totalchanged s = 0" "\<not> s_local_is_different s"
    "\<not> s_remote_is_different s"
  show "distinct (map fst (s_files s))" using a by simp
  show "file_ok s f" if "get_file b s = Some f" for b f using that a by (simp add: get_file_def)
  show "counter k s = tally (weight k) (s_files s)" for k by (cases k) (use a in simp_all)
  show "flags_ok s" using a by (simp add: flags_ok_def site_stats_update_def)
qed

definition example_state :: file_state where
  "example_state = zero_state\<lparr>fs_filename := Some ''index.html'', fs_exists := True, fs_size := 7\<rparr>"

definition example_file :: site_file where
  "example_file = zero_file\<lparr>sf_local := example_state, sf_diff := file_new\<rparr>"

definition example_site :: site where
  "example_site = zero_site\<lparr>s_files := [(1, example_file)], s_numnew := 1, s_totalnew := 7,
     s_local_is_different := True, s_remote_is_different := True\<rparr>"

lemma example_site_inv: "site_inv example_site"
proof (rule site_invI)
  show "distinct (map fst (s_files example_site))" by (simp add: example_site_def)
  have "file_ok example_site example_file"
    by (simp add: file_ok_def wf_file_def wf_state_def file_compare_def example_file_def
        example_state_def zero_file_def zero_state_def)
  then show "file_ok example_site f" if "get_file b example_site = Some f" for b f
    using that by (auto simp: get_file_def example_site_def split: if_splits)
  show "counter k example_site = tally (weight k) (s_files example_site)" for k
    by (cases k) (simp_all add: example_site_def example_file_def example_state_def zero_site_def)
  show "flags_ok example_site"
    by (simp add: flags_ok_def site_stats_update_def example_site_def zero_site_def)
qed

lemma example_site_get: "get_file 1 example_site = Some example_file"
  by (simp add: get_file_def example_site_def)

lemma example_state_ok: "fs_exists example_state" "wf_state t example_state \<or> t = file_link"
  by (auto simp: example_state_def wf_state_def)

text \<open>C9. Setting the local state of a file found on disk (\<^verbatim>\<open>file_set_local\<close>) never dereferences
  NULL, keeps the invariant of the files list (every counter the sum over the files, every diff the
  comparison of the two states), records exactly that state among the local states, shoving an older
  one into a node of its own, and loses no stored state; the file returned has the new state.\<close>

theorem file_set_local_correct:
  assumes "site_inv s" "fs_exists state" "wf_state type state"
  shows "\<exists>a t f. file_set_local fnm type state s = Some (a, t) \<and> site_inv t \<and> opts t = opts s
    \<and> states m_local t = add_mset (type, state) (states m_local s)
    \<and> states m_stored t = states m_stored s
    \<and> get_file a t = Some f \<and> sf_type f = type \<and> sf_local f = state"
  using file_set_local_result [OF assms, of fnm] by (auto simp: set_result_def)

lemma file_set_local_correct_witness:
  "\<exists>a t f. file_set_local (\<lambda>_ _ _. False) file_file example_state example_site = Some (a, t)
    \<and> site_inv t \<and> opts t = opts example_site
    \<and> states m_local t = add_mset (file_file, example_state) (states m_local example_site)
    \<and> states m_stored t = states m_stored example_site
    \<and> get_file a t = Some f \<and> sf_type f = file_file \<and> sf_local f = example_state"
  by (rule file_set_local_correct [OF example_site_inv])
    (simp_all add: example_state_def wf_state_def)

text \<open>C13. Setting the stored state of a file (\<^verbatim>\<open>file_set_stored\<close>, called for each file that the
  storage file or the server lists) never dereferences NULL, keeps the invariant, records exactly
  that state among the stored states and loses no local state.\<close>

theorem file_set_stored_correct:
  assumes "site_inv s" "fs_exists state" "wf_state type state"
  shows "\<exists>a t f. file_set_stored fnm type state s = Some (a, t) \<and> site_inv t \<and> opts t = opts s
    \<and> states m_stored t = add_mset (type, state) (states m_stored s)
    \<and> states m_local t = states m_local s
    \<and> get_file a t = Some f \<and> sf_type f = type \<and> sf_stored f = state"
  using file_set_stored_result [OF assms, of fnm] by (auto simp: set_result_def)

lemma file_set_stored_correct_witness:
  "\<exists>a t f. file_set_stored (\<lambda>_ _ _. False) file_file example_state example_site = Some (a, t)
    \<and> site_inv t \<and> opts t = opts example_site
    \<and> states m_stored t = add_mset (file_file, example_state) (states m_stored example_site)
    \<and> states m_local t = states m_local example_site
    \<and> get_file a t = Some f \<and> sf_type f = file_file \<and> sf_stored f = example_state"
  by (rule file_set_stored_correct [OF example_site_inv])
    (simp_all add: example_state_def wf_state_def)

text \<open>C27. After \<^verbatim>\<open>file_uploaded\<close> the file counts as unchanged, its stored state exists and has the
  local state's name, size and permissions, its local state and every other file are as before,
  and the counters are again the sums over the files.\<close>

theorem file_uploaded_correct:
  assumes "site_inv s" "get_file a s = Some f" "fs_exists (sf_local f)" "sf_type f \<noteq> file_link"
  shows "\<exists>t g. file_uploaded a s = Some t \<and> site_inv t \<and> opts t = opts s
    \<and> get_file a t = Some g \<and> sf_diff g = file_unchanged \<and> sf_local g = sf_local f
    \<and> fs_exists (sf_stored g) \<and> fs_filename (sf_stored g) = fs_filename (sf_local f)
    \<and> fs_size (sf_stored g) = fs_size (sf_local f) \<and> fs_mode (sf_stored g) = fs_mode (sf_local f)
    \<and> (\<forall>b. b = a \<or> get_file b t = get_file b s)"
  using file_uploaded_result [OF assms] assms(3) by (auto simp: transfer_state_def Let_def)

lemma file_uploaded_correct_witness:
  "\<exists>t g. file_uploaded 1 example_site = Some t \<and> site_inv t \<and> opts t = opts example_site
    \<and> get_file 1 t = Some g \<and> sf_diff g = file_unchanged \<and> sf_local g = sf_local example_file
    \<and> fs_exists (sf_stored g) \<and> fs_filename (sf_stored g) = fs_filename (sf_local example_file)
    \<and> fs_size (sf_stored g) = fs_size (sf_local example_file)
    \<and> fs_mode (sf_stored g) = fs_mode (sf_local example_file)
    \<and> (\<forall>b. b = 1 \<or> get_file b t = get_file b example_site)"
  by (rule file_uploaded_correct [OF example_site_inv example_site_get])
    (simp_all add: example_file_def example_state_def zero_file_def)

text \<open>C28. \<^verbatim>\<open>file_delete\<close> removes the node it is given and no other, and keeps the invariant: the
  counters no longer count the file.\<close>

theorem file_delete_correct:
  assumes "site_inv s" "get_file a s = Some f"
  shows "\<exists>t. file_delete a s = Some t \<and> site_inv t \<and> opts t = opts s
    \<and> (\<forall>b. get_file b t = (if b = a then None else get_file b s))"
  using file_delete_inv [OF assms] get_file_delete [of a s] file_delete_frame [of a s] by blast

lemma file_delete_correct_witness:
  "\<exists>t. file_delete 1 example_site = Some t \<and> site_inv t \<and> opts t = opts example_site
    \<and> (\<forall>b. get_file b t = (if b = 1 then None else get_file b example_site))"
  by (rule file_delete_correct [OF example_site_inv example_site_get])

definition drift_file :: site_file where
  "drift_file = zero_file\<lparr>sf_diff := file_changed, sf_local := example_state,
     sf_stored := example_state\<lparr>fs_size := 11\<rparr>\<rparr>"

definition drift_site :: site where
  "drift_site = zero_site\<lparr>s_files := [(1, drift_file)],
     s_numchanged := 1, s_totalchanged := 7,
     s_local_is_different := True, s_remote_is_different := True\<rparr>"

lemma drift_site_inv: "site_inv drift_site"
proof (rule site_invI)
  show "distinct (map fst (s_files drift_site))" by (simp add: drift_site_def)
  have "file_ok drift_site drift_file"
    by (simp add: file_ok_def wf_file_def wf_state_def file_compare_def drift_file_def
        example_state_def zero_file_def zero_state_def drift_site_def zero_site_def)
  then show "file_ok drift_site f" if "get_file b drift_site = Some f" for b f
    using that by (auto simp: get_file_def drift_site_def split: if_splits)
  show "counter k drift_site = tally (weight k) (s_files drift_site)" for k
    by (cases k) (simp_all add: drift_site_def drift_file_def example_state_def zero_site_def zero_file_def)
  show "flags_ok drift_site"
    by (simp add: flags_ok_def site_stats_update_def drift_site_def zero_site_def)
qed

text \<open>\<^verbatim>\<open>file_downloaded\<close> overwrites the size of the local state before the counters are taken
  back, so that a download of a changed file leaves \<open>totalchanged\<close> wrong: here it ends at -4
  with no changed file left.\<close>

theorem file_downloaded_drift:
  "site_inv drift_site \<and>
   map_option (\<lambda>t. (s_numchanged t, s_numunchanged t, s_totalchanged t))
     (file_downloaded 1 drift_site) = Some (0, 1, - 4)"
proof
  show "map_option (\<lambda>t. (s_numchanged t, s_numunchanged t, s_totalchanged t))
     (file_downloaded 1 drift_site) = Some (0, 1, - 4)"
    by code_simp
qed (rule drift_site_inv)

end
