(* ===== verification/File_List.thy ===== *)
theory File_List
  imports Site_List
begin

text \<open>
  The pointers behind the files list: \<^verbatim>\<open>struct site_file\<close> nodes with \<open>prev\<close> and \<open>next\<close>, and
  the \<open>files\<close> and \<open>files_tail\<close> pointers of a site.  The pointer code of \<^verbatim>\<open>file_insert\<close> and
  \<^verbatim>\<open>file_delete\<close> (\<^verbatim>\<open>src/sitefiles.c\<close>) and the loop \<^verbatim>\<open>for_each_file\<close> implement the list operations of
  theory Site_Files: each is a data refinement along \<open>represents\<close>.  \<^const>\<open>None\<close> is a
  dereference of NULL or of a freed node.
\<close>

record node =
  n_prev :: "addr option"
  n_next :: "addr option"
  n_file :: site_file

record file_heap =
  fh_nodes :: "addr \<rightharpoonup> node"
  fh_files :: "addr option"
  fh_files_tail :: "addr option"

definition set_next :: "addr \<Rightarrow> addr option \<Rightarrow> file_heap \<Rightarrow> file_heap option" where
  "set_next a p h =
     do { n \<leftarrow> fh_nodes h a; Some (h\<lparr>fh_nodes := (fh_nodes h)(a \<mapsto> n\<lparr>n_next := p\<rparr>)\<rparr>) }"

definition set_prev :: "addr \<Rightarrow> addr option \<Rightarrow> file_heap \<Rightarrow> file_heap option" where
  "set_prev a p h =
     do { n \<leftarrow> fh_nodes h a; Some (h\<lparr>fh_nodes := (fh_nodes h)(a \<mapsto> n\<lparr>n_prev := p\<rparr>)\<rparr>) }"

text \<open>\<open>a\<close> is the address that \<^verbatim>\<open>ne_calloc\<close> returns.\<close>

definition ptr_insert :: "addr \<Rightarrow> file_type \<Rightarrow> file_heap \<Rightarrow> file_heap option" where
  "ptr_insert a type h =
     (let h = h\<lparr>fh_nodes := (fh_nodes h)(a \<mapsto> \<lparr>n_prev = None, n_next = None, n_file = zero_file\<rparr>)\<rparr>
      in case fh_files h of
           None \<Rightarrow> Some (h\<lparr>fh_files := Some a, fh_files_tail := Some a\<rparr>)
         | Some first \<Rightarrow>
             if type = file_dir
             then do { last \<leftarrow> fh_files_tail h;
                       h \<leftarrow> set_next last (Some a) h;
                       h \<leftarrow> set_prev a (fh_files_tail h) h;
                       Some (h\<lparr>fh_files_tail := Some a\<rparr>) }
             else do { h \<leftarrow> set_prev first (Some a) h;
                       h \<leftarrow> set_next a (fh_files h) h;
                       Some (h\<lparr>fh_files := Some a\<rparr>) })"

definition ptr_delete :: "addr \<Rightarrow> file_heap \<Rightarrow> file_heap option" where
  "ptr_delete item h =
     do { n \<leftarrow> fh_nodes h item;
          h \<leftarrow> (case n_prev n of
                  Some p \<Rightarrow> set_next p (n_next n) h
                | None \<Rightarrow> Some (h\<lparr>fh_files := n_next n\<rparr>));
          h \<leftarrow> (case n_next n of
                  Some q \<Rightarrow> set_prev q (n_prev n) h
                | None \<Rightarrow> Some (h\<lparr>fh_files_tail := n_prev n\<rparr>));
          Some (h\<lparr>fh_nodes := (fh_nodes h)(item := None)\<rparr>) }"

text \<open>The loop \<^verbatim>\<open>for (x = site->files; x != NULL; x = x->next)\<close>, with fuel.\<close>

fun walk :: "nat \<Rightarrow> addr option \<Rightarrow> file_heap \<Rightarrow> (addr \<times> site_file) list option" where
  "walk 0 p h = (if p = None then Some [] else None)"
| "walk (Suc n) None h = Some []"
| "walk (Suc n) (Some a) h =
     do { nd \<leftarrow> fh_nodes h a; rest \<leftarrow> walk n (n_next nd) h; Some ((a, n_file nd) # rest) }"

section \<open>The list a heap represents\<close>

fun first_of :: "(addr \<times> site_file) list \<Rightarrow> addr option \<Rightarrow> addr option" where
  "first_of [] d = d"
| "first_of (p # xs) d = Some (fst p)"

definition last_of :: "(addr \<times> site_file) list \<Rightarrow> addr option \<Rightarrow> addr option" where
  "last_of xs d = (if xs = [] then d else Some (fst (last xs)))"

fun links :: "addr option \<Rightarrow> (addr \<times> site_file) list \<Rightarrow> addr option \<Rightarrow> (addr \<times> node) list" where
  "links p [] nx = []"
| "links p ((a, f) # xs) nx =
     (a, \<lparr>n_prev = p, n_next = first_of xs nx, n_file = f\<rparr>) # links (Some a) xs nx"

definition represents :: "file_heap \<Rightarrow> (addr \<times> site_file) list \<Rightarrow> bool" where
  "represents h xs \<longleftrightarrow>
     distinct (map fst xs) \<and> fh_nodes h = map_of (links None xs None)
     \<and> fh_files h = first_of xs None \<and> fh_files_tail h = last_of xs None"

lemma last_of_simps [simp]:
  "last_of [] d = d" "last_of (xs @ [p]) d = Some (fst p)"
  "last_of (p # xs) d = last_of xs (Some (fst p))"
  by (auto simp: last_of_def)

lemma last_of_append [simp]: "last_of (xs @ ys) d = last_of ys (last_of xs d)"
  by (auto simp: last_of_def)

lemma first_of_append [simp]: "first_of (xs @ ys) d = first_of xs (first_of ys d)"
  by (cases xs) auto

lemma links_append:
  "links p (xs @ ys) nx = links p xs (first_of ys nx) @ links (last_of xs p) ys nx"
  by (induction p xs nx rule: links.induct) auto

lemma keys_links [simp]: "map fst (links p xs nx) = map fst xs"
  by (induction p xs nx rule: links.induct) auto

lemma set_keys_links [simp]: "fst ` set (links p xs nx) = fst ` set xs"
  using keys_links [of p xs nx] by (metis list.set_map)

lemma links_notin [simp]: "a \<notin> fst ` set xs \<Longrightarrow> map_of (links p xs nx) a = None"
  by (simp add: map_of_eq_None_iff)

text \<open>The next pointer of the last node and the previous pointer of the first.\<close>

lemma links_set_next:
  assumes "distinct (map fst (xs @ [(a, f)]))"
  shows "map_of (links p (xs @ [(a, f)]) nx') =
    (map_of (links p (xs @ [(a, f)]) nx))
      (a \<mapsto> \<lparr>n_prev = last_of xs p, n_next = nx', n_file = f\<rparr>)"
  using assms by (auto simp: links_append fun_eq_iff map_add_def split: option.splits)

lemma links_set_prev:
  "map_of (links p' ((a, f) # xs) nx) =
    (map_of (links p ((a, f) # xs) nx))
      (a \<mapsto> \<lparr>n_prev = p', n_next = first_of xs nx, n_file = f\<rparr>)"
  by (auto simp: fun_eq_iff)

section \<open>Refinement\<close>

lemma represents_walk_aux:
  "fh_nodes h = map_of (ys @ links p xs None) \<Longrightarrow> distinct (map fst (ys @ links p xs None)) \<Longrightarrow>
   length xs \<le> n \<Longrightarrow> walk n (first_of xs None) h = Some xs"
proof (induction xs arbitrary: n p ys)
  case Nil
  then show ?case by (cases n) auto
next
  case (Cons x xs)
  obtain a f where x: "x = (a, f)" by (cases x)
  obtain m where n: "n = Suc m" using Cons.prems(3) by (cases n) auto
  let ?n = "\<lparr>n_prev = p, n_next = first_of xs None, n_file = f\<rparr>"
  have "walk m (first_of xs None) h = Some xs"
    by (rule Cons.IH [of "ys @ [(a, ?n)]" "Some a"]) (use Cons.prems x n in auto)
  moreover have "fh_nodes h a = Some ?n"
    using Cons.prems(1,2)
    by (auto simp: x map_add_def split: option.split dest!: map_of_SomeD intro: rev_image_eqI)
  ultimately show ?case by (simp add: x n)
qed

lemma represents_walk:
  assumes "represents h xs" and "length xs \<le> n"
  shows "walk n (fh_files h) h = Some xs"
  using represents_walk_aux [of h "[]" None xs n] assms by (simp add: represents_def)

lemma set_next_links:
  assumes "distinct (map fst (xs @ [(b, g)]))"
    and "fh_nodes h = map_of (links p (xs @ [(b, g)]) nx @ ys)"
  shows "set_next b nx' h = Some (h\<lparr>fh_nodes := map_of (links p (xs @ [(b, g)]) nx' @ ys)\<rparr>)"
  using assms by (auto simp: set_next_def links_append map_add_def fun_eq_iff
      intro!: file_heap.equality split: option.splits)

lemma ptr_insert_refines:
  assumes r: "represents h xs" and a: "a \<notin> fst ` set xs"
  shows "\<exists>h'. ptr_insert a type h = Some h' \<and>
    represents h' (if xs = [] then [(a, zero_file)]
                   else if type = file_dir then xs @ [(a, zero_file)] else (a, zero_file) # xs)"
proof (cases xs)
  case Nil
  then show ?thesis using r by (auto simp: represents_def ptr_insert_def Let_def)
next
  case (Cons x rest)
  obtain b f where x: "x = (b, f)" by (cases x)
  note ne = Cons
  show ?thesis
  proof (cases "type = file_dir")
    case False
    with r a show ?thesis
      by (auto simp: represents_def ptr_insert_def Let_def Cons x set_prev_def set_next_def
          fun_eq_iff)
  next
    case True
    obtain ys c g where xs: "xs = ys @ [(c, g)]"
      using ne by (metis rev_exhaust surj_pair list.distinct(1))
    have b: "first_of ys (Some c) = Some b" using ne x xs by (cases ys) auto
    have hd: "fh_files h = Some b" "fh_files_tail h = Some c"
      using r b by (simp_all add: represents_def xs)
    have nodes: "fh_nodes h = map_of (links None (ys @ [(c, g)]) None)"
      using r by (simp add: represents_def xs)
    have d: "distinct (map fst (ys @ [(c, g)]))" and ac: "a \<noteq> c" "a \<notin> fst ` set ys"
      using r a by (auto simp: represents_def xs)
    have "c \<notin> fst ` set ys" using d by auto
    then show ?thesis
      unfolding xs using True ac nodes hd d b
      by (auto simp: ptr_insert_def Let_def set_next_def set_prev_def links_append represents_def
          map_add_def fun_eq_iff split: option.splits)
  qed
qed

lemma ptr_delete_refines:
  assumes r: "represents h (ys @ (a, f) # zs)"
  shows "\<exists>h'. ptr_delete a h = Some h' \<and> represents h' (ys @ zs)"
proof -
  have d: "distinct (map fst (ys @ (a, f) # zs))"
    and nodes: "fh_nodes h = map_of (links None (ys @ (a, f) # zs) None)"
    and ends: "fh_files h = first_of ys (Some a)" "fh_files_tail h = last_of zs (Some a)"
    using r by (auto simp: represents_def)
  have an: "a \<notin> fst ` set ys" "a \<notin> fst ` set zs" using d by auto
  have na: "fh_nodes h a = Some \<lparr>n_prev = last_of ys None, n_next = first_of zs None, n_file = f\<rparr>"
    using an by (simp add: nodes links_append map_add_def)
  show ?thesis
  proof (cases ys rule: rev_cases)
    case ys: Nil
    show ?thesis
    proof (cases zs)
      case zs: Nil
      show ?thesis using na ends nodes by (auto simp: ptr_delete_def represents_def ys zs)
    next
      case zs: (Cons z zs')
      obtain b g where z: "z = (b, g)" by (cases z)
      show ?thesis using na ends nodes d
        by (auto simp: ptr_delete_def represents_def ys zs z set_prev_def fun_eq_iff)
    qed
  next
    case ys: (snoc ys' y)
    obtain c k where y: "y = (c, k)" by (cases y)
    show ?thesis
    proof (cases zs)
      case zs: Nil
      show ?thesis using na ends nodes d
        by (auto simp: ptr_delete_def represents_def ys zs y set_next_def fun_eq_iff links_append
            map_add_def split: option.splits)
    next
      case zs: (Cons z zs')
      obtain b g where z: "z = (b, g)" by (cases z)
      show ?thesis using na ends nodes d
        by (auto simp: ptr_delete_def represents_def ys zs y z set_next_def set_prev_def
            fun_eq_iff links_append map_add_def split: option.splits)
    qed
  qed
qed

section \<open>Properties\<close>

text \<open>C29. The pointer code of \<^verbatim>\<open>file_insert\<close> implements the list operation: on a heap whose
  nodes form the files list of a site it never follows NULL, and leaves a heap that forms the list
  after the insertion, which the loop \<^verbatim>\<open>for_each_file\<close> visits in that order.\<close>

theorem ptr_insert_correct:
  assumes "represents h (s_files s)"
  shows "\<exists>h'. ptr_insert (fresh_addr (s_files s)) type h = Some h'
    \<and> represents h' (s_files (snd (file_insert type s)))
    \<and> walk (Suc (length (s_files s))) (fh_files h') h' = Some (s_files (snd (file_insert type s)))"
proof -
  let ?z = "(fresh_addr (s_files s), zero_file)"
  have eq: "s_files (snd (file_insert type s)) = (if s_files s = [] then [?z]
      else if type = file_dir then s_files s @ [?z] else ?z # s_files s)"
    by (simp add: file_insert_def Let_def)
  obtain h' where "ptr_insert (fresh_addr (s_files s)) type h = Some h'"
      "represents h' (s_files (snd (file_insert type s)))"
    using ptr_insert_refines [OF assms fresh_addr_notin, of type] unfolding eq [symmetric] by blast
  moreover have "length (s_files (snd (file_insert type s))) \<le> Suc (length (s_files s))"
    by (simp add: file_insert_def Let_def)
  ultimately show ?thesis using represents_walk by blast
qed

definition example_heap :: file_heap where
  "example_heap = \<lparr>fh_nodes = [1 \<mapsto> \<lparr>n_prev = None, n_next = None, n_file = example_file\<rparr>],
     fh_files = Some 1, fh_files_tail = Some 1\<rparr>"

lemma example_heap_represents: "represents example_heap (s_files example_site)"
  by (simp add: represents_def example_heap_def example_site_def)

lemma ptr_insert_correct_witness:
  "\<exists>h'. ptr_insert (fresh_addr (s_files example_site)) file_dir example_heap = Some h'
    \<and> represents h' (s_files (snd (file_insert file_dir example_site)))
    \<and> walk (Suc (length (s_files example_site))) (fh_files h') h'
        = Some (s_files (snd (file_insert file_dir example_site)))"
  by (rule ptr_insert_correct [OF example_heap_represents])

text \<open>The pointer code of \<^verbatim>\<open>file_delete\<close> unlinks a node of the list without following NULL
  or a freed node, and the loop then visits the other files in the same order.\<close>

theorem ptr_delete_correct:
  assumes "represents h (s_files s)" "get_file a s = Some f"
  shows "\<exists>h' t. ptr_delete a h = Some h' \<and> file_delete a s = Some t \<and> represents h' (s_files t)
    \<and> walk (length (s_files s)) (fh_files h') h' = Some (s_files t)"
proof -
  obtain ys zs where xs: "s_files s = ys @ (a, f) # zs"
    using assms(2) by (auto simp: get_file_def dest!: map_of_SomeD split_list)
  obtain h' where h': "ptr_delete a h = Some h'" "represents h' (ys @ zs)"
    using ptr_delete_refines assms(1) unfolding xs by blast
  have "distinct (map fst (s_files s))" using assms(1) by (simp add: represents_def)
  moreover have "AList.delete a (s_files s) = AList.delete a ys @ AList.delete a zs"
    by (simp add: xs AList.delete_eq)
  ultimately have del: "AList.delete a (s_files s) = ys @ zs"
    by (simp add: xs delete_notin)
  obtain t where t: "file_delete a s = Some t"
    using assms(2) by (simp add: file_delete_def Let_def)
  then have "s_files t = ys @ zs" using file_delete_frame(2) [OF t] del by simp
  moreover have "walk (length (s_files s)) (fh_files h') h' = Some (ys @ zs)"
    by (rule represents_walk [OF h'(2)]) (simp add: xs)
  ultimately show ?thesis using h' t by auto
qed

lemma ptr_delete_correct_witness:
  "\<exists>h' t. ptr_delete 1 example_heap = Some h' \<and> file_delete 1 example_site = Some t
    \<and> represents h' (s_files t)
    \<and> walk (length (s_files example_site)) (fh_files h') h' = Some (s_files t)"
  by (rule ptr_delete_correct [OF example_heap_represents example_site_get])

end
