(* ===== verification/Site_Ops.thy ===== *)
theory Site_Ops
  imports Site_List
begin

text \<open>
  The operations of \<^verbatim>\<open>src/sites.c\<close> on the files list of a site as a whole, without a
  connection to the server: \<open>site_find\<close>, \<open>site_catchup\<close>, \<open>site_initialize\<close>,
  \<open>site_destroy\<close>, \<open>site_destroy_stored\<close>, the comparison of \<open>site_verify\<close>, the flat listing,
  and the functions that add a fetched file.  Each loop is an instance of the locale
  \<open>sweep\<close> of theory Prelude.
\<close>

section \<open>Changing the stored state of a file\<close>

abbreviation live :: "addr \<Rightarrow> site \<Rightarrow> bool" where
  "live a s \<equiv> get_file a s \<noteq> None"

text \<open>\<open>frame a s t\<close>: from \<open>s\<close> to \<open>t\<close> only the file at \<open>a\<close> changed, and no node was added.\<close>

definition frame :: "addr \<Rightarrow> site \<Rightarrow> site \<Rightarrow> bool" where
  "frame a s t \<longleftrightarrow> opts t = opts s \<and> (\<forall>b. b \<noteq> a \<longrightarrow> get_file b t = get_file b s)"

lemma frame_refl [simp]: "frame a s s"
  by (simp add: frame_def)

lemma stored_set_result:
  assumes inv: "site_inv s" and f: "get_file a s = Some f"
    and wf: "wf_file (f\<lparr>sf_stored := st\<rparr>)"
  shows "\<exists>t d. file_set_diff a (put_file a (\<lambda>f. f\<lparr>sf_stored := st\<rparr>) s) = Some t
    \<and> site_inv t \<and> frame a s t \<and> get_file a t = Some (f\<lparr>sf_stored := st, sf_diff := d\<rparr>)
    \<and> file_compare (sf_type f) (sf_local f) st s = Some d
    \<and> states m_local t = states m_local s
    \<and> states m_stored t + (if fs_exists (sf_stored f) then {#(sf_type f, sf_stored f)#} else {#})
      = states m_stored s + (if fs_exists st then {#(sf_type f, st)#} else {#})"
proof -
  have d: "distinct (map fst (s_files s))" by (rule site_invD(4) [OF inv])
  let ?g = "f\<lparr>sf_stored := st\<rparr>"
  obtain e where e: "file_compare (sf_type f) (sf_local f) st s = Some e"
    using file_compare_total [of "sf_type f" "sf_local f" st s] wf by (auto simp: wf_file_def)
  have g: "put_file a (\<lambda>f. f\<lparr>sf_stored := st\<rparr>) s = put_file a (\<lambda>_. ?g) s"
    by (rule put_file_const [OF d f])
  have r: "replace_file a ?g h s = replace_file a f h s" for h
    by (simp add: replace_file_def decrease_stored)
  have "file_ok s (?g\<lparr>sf_diff := e\<rparr>)"
    using wf e by (simp add: file_ok_def wf_file_def)
  then have "site_inv (replace_file a f (?g\<lparr>sf_diff := e\<rparr>) s)"
    by (rule replace_file_inv [OF inv f])
  moreover have "file_set_diff a (put_file a (\<lambda>_. ?g) s) = Some (replace_file a f (?g\<lparr>sf_diff := e\<rparr>) s)"
    using file_set_diff_put [OF d f, of ?g e] e by (simp add: r)
  moreover have "states m_local (replace_file a f (?g\<lparr>sf_diff := e\<rparr>) s) = states m_local s"
    using states_replace_file [OF d f, of m_local "?g\<lparr>sf_diff := e\<rparr>"] by (simp split: if_splits)
  moreover have "states m_stored (replace_file a f (?g\<lparr>sf_diff := e\<rparr>) s)
      + (if fs_exists (sf_stored f) then {#(sf_type f, sf_stored f)#} else {#})
      = states m_stored s + (if fs_exists st then {#(sf_type f, st)#} else {#})"
    using states_replace_file [OF d f, of m_stored "?g\<lparr>sf_diff := e\<rparr>"]
    by (cases "fs_exists (sf_stored f)"; cases "fs_exists st") simp_all
  ultimately show ?thesis using e f by (simp add: g frame_def frame_simps)
qed

lemma counter_zero:
  assumes inv: "site_inv s" and z: "\<And>a f. get_file a s = Some f \<Longrightarrow> weight k f = 0"
  shows "counter k s = 0"
proof -
  have "tally (weight k) (s_files s) = 0"
    using z by (intro tally_zero) (auto simp: files_set_get [OF inv])
  then show ?thesis using site_invD(2) [OF inv] by (simp add: stats_ok_def)
qed

text \<open>When every file is unchanged, the counters and the flags say so.\<close>

lemma all_unchanged_counters:
  assumes inv: "site_inv s" and u: "\<And>a f. get_file a s = Some f \<Longrightarrow> sf_diff f = file_unchanged"
  shows "s_numnew s = 0" "s_numchanged s = 0" "s_numdeleted s = 0" "s_nummoved s = 0"
    "s_numignored s = 0" "s_totalnew s = 0" "s_totalchanged s = 0"
    "\<not> s_local_is_different s" "\<not> s_remote_is_different s"
proof -
  have c: "counter k s = 0" if "k \<noteq> st_unchanged" for k
    using counter_zero [OF inv, of k] u that by (cases k) auto
  show n: "s_numnew s = 0" "s_numchanged s = 0" "s_numdeleted s = 0" "s_nummoved s = 0"
    "s_numignored s = 0" "s_totalnew s = 0" "s_totalchanged s = 0"
    using c [of st_new] c [of st_changed] c [of st_deleted] c [of st_moved] c [of st_ignored]
      c [of st_total_new] c [of st_total_changed] by simp_all
  show "\<not> s_local_is_different s" "\<not> s_remote_is_different s"
    using site_invD(3) [OF inv] n by (simp_all add: flags_ok_def site_stats_update_def)
qed

section \<open>Definitions\<close>

fun site_find :: "string \<Rightarrow> site list \<Rightarrow> site option" where
  "site_find sitename [] = None"
| "site_find sitename (current # rest) =
     (if s_name current = sitename then Some current else site_find sitename rest)"

definition catchup_step :: "addr \<Rightarrow> site \<Rightarrow> site option" where
  "catchup_step current s =
     do { f \<leftarrow> get_file current s;
          (case sf_diff f of
             file_deleted \<Rightarrow> file_delete current s
           | file_unchanged \<Rightarrow> Some s
           | _ \<Rightarrow> file_set_diff current
                  (put_file current (\<lambda>f. f\<lparr>sf_stored := file_state_copy (sf_local f)\<rparr>) s)) }"

definition site_catchup :: "site \<Rightarrow> site option" where
  "site_catchup s = for_each catchup_step (map fst (s_files s)) s"

definition destroy_stored_step :: "addr \<Rightarrow> site \<Rightarrow> site option" where
  "destroy_stored_step current s =
     do { f \<leftarrow> get_file current s;
          if \<not> fs_exists (sf_local f) then file_delete current s
          else file_set_diff current (put_file current (\<lambda>f. f\<lparr>sf_stored := zero_state\<rparr>) s) }"

definition site_destroy_stored :: "site \<Rightarrow> site option" where
  "site_destroy_stored s = for_each destroy_stored_step (map fst (s_files s)) s"

definition site_initialize :: "site \<Rightarrow> site option" where
  "site_initialize s = site_destroy_stored s"

definition site_destroy :: "site \<Rightarrow> site option" where
  "site_destroy s = for_each file_delete (map fst (s_files s)) s"

text \<open>\<open>now\<close> is what \<^verbatim>\<open>time(NULL)\<close> returns.\<close>

definition munge_modtime :: "int \<Rightarrow> addr \<Rightarrow> int \<Rightarrow> site \<Rightarrow> site option" where
  "munge_modtime now a remote_mtime s =
     do { f \<leftarrow> get_file a s;
          if sf_type f = file_file \<and> s_state_method s = state_timesize
          then (let t = (if fs_exists (sf_local f)
                         then (if s_safemode s \<and> fs_exists (sf_server f)
                                  \<and> fs_time (sf_server f) \<noteq> remote_mtime
                               then fs_time (sf_local f) + 1
                               else fs_time (sf_local f))
                         else now)
                in file_set_diff a
                     (put_file a (\<lambda>f. f\<lparr>sf_stored := (sf_stored f)\<lparr>fs_time := t\<rparr>\<rparr>) s))
          else Some s }"

fun fetch_type :: "proto_filetype \<Rightarrow> file_type" where
  "fetch_type proto_file = file_file"
| "fetch_type proto_dir = file_dir"
| "fetch_type proto_link = file_link"

definition fetch_add_file :: "matcher \<Rightarrow> int \<Rightarrow> proto_file \<Rightarrow> site \<Rightarrow> (addr \<times> site) option" where
  "fetch_add_file fnm now pf s =
     (let type = fetch_type (pf_type pf);
          state = zero_state\<lparr>fs_size := pf_size pf, fs_time := pf_modtime pf, fs_exists := True,
            fs_filename := Some (pf_filename pf), fs_mode := pf_mode pf,
            fs_ascii := file_isascii fnm (pf_filename pf) s,
            fs_checksum := pf_checksum pf\<rparr>
      in do { (file, s) \<leftarrow> file_set_stored fnm type state s;
              s \<leftarrow> munge_modtime now file (pf_modtime pf) s;
              Some (file,
                if s_safemode s
                then put_file file (\<lambda>f. f\<lparr>sf_server := (sf_server f)\<lparr>fs_time := pf_modtime pf,
                       fs_exists := True\<rparr>\<rparr>) s
                else s) })"

section \<open>Comparing with what the server lists\<close>

fun verify_find :: "proto_file \<Rightarrow> site \<Rightarrow> (addr \<times> site_file) list \<Rightarrow> file_diff option" where
  "verify_find lfile s [] = Some file_new"
| "verify_find lfile s ((a, file) # rest) =
     (if fs_exists (sf_stored file)
      then do { fname \<leftarrow> fs_filename (sf_stored file);
                if fname = pf_filename lfile
                then Some (if s_state_method s = state_checksum
                           then (if fs_checksum (sf_stored file) \<noteq> pf_checksum lfile
                                 then file_changed else file_unchanged)
                           else if fs_size (sf_stored file) \<noteq> pf_size lfile
                                   \<or> (s_safemode s \<and> fs_time (sf_server file) \<noteq> pf_modtime lfile)
                           then file_changed else file_unchanged)
                else verify_find lfile s rest }
      else verify_find lfile s rest)"

text \<open>The result is the return code, \<open>*numremoved\<close> and the calls of \<^verbatim>\<open>fe_verified\<close>.\<close>

fun verify_loop ::
    "site \<Rightarrow> proto_file list \<Rightarrow> int \<Rightarrow> (int \<times> (string \<times> file_diff) list) option" where
  "verify_loop s [] numremote = Some (numremote, [])"
| "verify_loop s (lfile # files) numremote =
     do { diff \<leftarrow> verify_find lfile s (s_files s);
          (n, log) \<leftarrow> verify_loop s files
            (if diff = file_new then numremote - 1 + 1 else numremote - 1);
          Some (n, (pf_filename lfile, diff) # log) }"

definition site_verify_compare ::
    "site \<Rightarrow> proto_file list \<Rightarrow> (int \<times> int \<times> (string \<times> file_diff) list) option" where
  "site_verify_compare s files =
     do { (numremote, log) \<leftarrow> verify_loop s files
            (int (length (filter (\<lambda>(a, f). fs_exists (sf_stored f)) (s_files s))));
          Some (if numremote \<noteq> 0 then SITE_ERRORS else SITE_OK, numremote, log) }"

section \<open>The flat listing\<close>

definition nl :: string where "nl = [char_of (10::nat)]"

definition flatlist_item :: "file_diff \<Rightarrow> site_file \<Rightarrow> string option" where
  "flatlist_item diff f =
     (if sf_diff f = diff
      then do { name \<leftarrow> file_name f;
                moved \<leftarrow> (if sf_diff f = file_moved
                          then map_option (\<lambda>n. ''|'' @ n) (fs_filename (sf_stored f))
                          else Some '''');
                Some (''item|'' @ name @ (if sf_type f = file_dir then ''/'' else '''')
                  @ moved @ (if sf_ignore f then ''|ignored'' else '''') @ nl) }
      else Some '''')"

fun flatlist_loop :: "file_diff \<Rightarrow> (addr \<times> site_file) list \<Rightarrow> string option" where
  "flatlist_loop diff [] = Some ''''"
| "flatlist_loop diff ((a, f) # rest) =
     do { x \<leftarrow> flatlist_item diff f; y \<leftarrow> flatlist_loop diff rest; Some (x @ y) }"

definition site_flatlist_items :: "site \<Rightarrow> file_diff \<Rightarrow> string \<Rightarrow> string option" where
  "site_flatlist_items s diff name =
     do { items \<leftarrow> flatlist_loop diff (s_files s);
          Some (''sectstart|'' @ name @ nl @ items @ ''sectend|'' @ name @ nl) }"

definition site_flatlist :: "site \<Rightarrow> string option" where
  "site_flatlist s =
     do { added \<leftarrow> (if s_numnew s > 0 then site_flatlist_items s file_new ''added'' else Some '''');
          changed \<leftarrow> (if s_numchanged s > 0
                      then site_flatlist_items s file_changed ''changed'' else Some '''');
          deleted \<leftarrow> (if s_numdeleted s > 0
                      then site_flatlist_items s file_deleted ''deleted'' else Some '''');
          moved \<leftarrow> (if s_nummoved s > 0
                    then site_flatlist_items s file_moved ''moved'' else Some '''');
          Some (''sitestart|'' @ s_name s
            @ (case s_url s of Some u \<Rightarrow> ''|'' @ u | None \<Rightarrow> '''') @ nl
            @ added @ changed @ deleted @ moved
            @ ''siteend|'' @ (if s_remote_is_different s then ''changed'' else ''unchanged'') @ nl) }"

section \<open>The loops as sweeps\<close>

lemma states_delete:
  assumes inv: "site_inv s" and f: "get_file a s = Some f" and t: "file_delete a s = Some t"
  shows "states m t + (if fs_exists (FS_GET m f) then {#(sf_type f, FS_GET m f)#} else {#})
    = states m s"
  using tally_remove [OF site_invD(4) [OF inv], of a f
      "\<lambda>f. if fs_exists (FS_GET m f) then {#(sf_type f, FS_GET m f)#} else {#}"] f
  by (simp add: states_def file_delete_frame [OF t] get_file_def)

lemma file_delete_step:
  assumes inv: "site_inv s" and f: "get_file a s = Some f"
  shows "\<exists>t. file_delete a s = Some t \<and> site_inv t \<and> frame a s t \<and> get_file a t = None
    \<and> (fs_exists (sf_local f) \<or> states m_local t = states m_local s)"
proof -
  obtain t where t: "file_delete a s = Some t" "site_inv t"
    using file_delete_inv [OF assms] by blast
  then show ?thesis
    using states_delete [OF assms t(1), of m_local] file_delete_frame(1) [OF t(1)]
      get_file_delete [OF t(1)] by (cases "fs_exists (sf_local f)") (simp_all add: frame_def)
qed

lemma wf_catchup:
  assumes "wf_file f" "fs_exists (sf_local f)"
  shows "wf_file (f\<lparr>sf_stored := sf_local f\<rparr>)" "wf_file (f\<lparr>sf_stored := zero_state\<rparr>)"
  using assms by (simp_all add: wf_file_def wf_state_def zero_state_def)

lemma file_compare_self:
  assumes "wf_state ty st" "fs_exists st"
  shows "file_compare ty st st s = Some file_unchanged"
  using assms by (auto simp: file_compare_def wf_state_def
      split: file_type.splits state_method.splits)

definition caught_up :: "addr \<Rightarrow> site \<Rightarrow> bool" where
  "caught_up a s \<longleftrightarrow> (case get_file a s of None \<Rightarrow> True | Some f \<Rightarrow> sf_diff f = file_unchanged)"

lemma catchup_step_result:
  assumes inv: "site_inv s" and f: "get_file a s = Some f"
  shows "\<exists>t. catchup_step a s = Some t \<and> site_inv t \<and> frame a s t \<and> caught_up a t
    \<and> states m_local t = states m_local s"
proof -
  have ok: "file_ok s f" by (rule site_inv_get [OF inv f])
  note diff = file_ok_diff(1,2) [OF ok]
  show ?thesis
  proof (cases "sf_diff f = file_deleted")
    case True
    then show ?thesis
      using file_delete_step [OF inv f] diff f
      by (fastforce simp: catchup_step_def caught_up_def)
  next
    case False
    show ?thesis
    proof (cases "sf_diff f = file_unchanged")
      case True
      then show ?thesis using f inv by (auto simp: catchup_step_def caught_up_def)
    next
      case changed: False
      have ex: "fs_exists (sf_local f)" using False diff by simp
      have wf: "wf_file f" using ok by (simp add: file_ok_def)
      have "put_file a (\<lambda>f. f\<lparr>sf_stored := file_state_copy (sf_local f)\<rparr>) s
          = put_file a (\<lambda>f'. f'\<lparr>sf_stored := sf_local f\<rparr>) s"
        by (subst (1 2) put_file_const [OF site_invD(4) [OF inv] f]) (simp add: file_state_copy_def)
      then have "catchup_step a s = file_set_diff a (put_file a (\<lambda>f'. f'\<lparr>sf_stored := sf_local f\<rparr>) s)"
        using f False changed by (cases "sf_diff f") (simp_all add: catchup_step_def)
      then show ?thesis
        using stored_set_result [OF inv f wf_catchup(1) [OF wf ex]] wf ex
          file_compare_self [of "sf_type f" "sf_local f" s]
        by (fastforce simp: caught_up_def wf_file_def)
    qed
  qed
qed

definition fresh_stored :: "addr \<Rightarrow> site \<Rightarrow> bool" where
  "fresh_stored a s \<longleftrightarrow> (case get_file a s of None \<Rightarrow> True
     | Some f \<Rightarrow> sf_diff f = file_new \<and> sf_stored f = zero_state)"

lemma destroy_stored_step_result:
  assumes inv: "site_inv s" and f: "get_file a s = Some f"
  shows "\<exists>t. destroy_stored_step a s = Some t \<and> site_inv t \<and> frame a s t \<and> fresh_stored a t
    \<and> states m_local t = states m_local s"
proof (cases "fs_exists (sf_local f)")
  case True
  have wf: "wf_file f" using site_inv_get [OF inv f] by (simp add: file_ok_def)
  have "file_compare (sf_type f) (sf_local f) zero_state s = Some file_new"
    using True by (simp add: file_compare_new zero_state_def)
  then show ?thesis
    using stored_set_result [OF inv f wf_catchup(2) [OF wf True]] True f
    by (fastforce simp: destroy_stored_step_def fresh_stored_def)
next
  case False
  then show ?thesis using file_delete_step [OF inv f] f
    by (fastforce simp: destroy_stored_step_def fresh_stored_def)
qed

text \<open>The invariant of these loops: the settings and the local states do not change.\<close>

definition kept :: "site \<Rightarrow> site \<Rightarrow> bool" where
  "kept s0 s \<longleftrightarrow> site_inv s \<and> opts s = opts s0 \<and> states m_local s = states m_local s0"

interpretation catchup: sweep catchup_step "kept s0" live caught_up for s0
proof
  fix s a b t
  assume k: "kept s0 s" and l: "live a s"
  then obtain f where f: "get_file a s = Some f" by blast
  note r = catchup_step_result [OF _ f]
  show "\<exists>t. catchup_step a s = Some t \<and> kept s0 t"
    using r k by (fastforce simp: kept_def frame_def)
  assume t: "catchup_step a s = Some t"
  show "live b t" if "live b s" "b \<noteq> a" using r k t that by (fastforce simp: kept_def frame_def)
  show "caught_up a t" using r k t by (fastforce simp: kept_def frame_def)
  show "caught_up b t" if "caught_up b s" "b \<noteq> a"
    using r k t that by (fastforce simp: kept_def frame_def caught_up_def)
qed

interpretation destroy_stored: sweep destroy_stored_step "kept s0" live fresh_stored for s0
proof
  fix s a b t
  assume k: "kept s0 s" and l: "live a s"
  then obtain f where f: "get_file a s = Some f" by blast
  note r = destroy_stored_step_result [OF _ f]
  show "\<exists>t. destroy_stored_step a s = Some t \<and> kept s0 t"
    using r k by (fastforce simp: kept_def frame_def)
  assume t: "destroy_stored_step a s = Some t"
  show "live b t" if "live b s" "b \<noteq> a" using r k t that by (fastforce simp: kept_def frame_def)
  show "fresh_stored a t" using r k t by (fastforce simp: kept_def frame_def)
  show "fresh_stored b t" if "fresh_stored b s" "b \<noteq> a"
    using r k t that by (fastforce simp: kept_def frame_def fresh_stored_def)
qed

interpretation destroy: sweep file_delete site_inv live "\<lambda>a s. get_file a s = None"
proof
  fix s a b t
  assume k: "site_inv s" and l: "live a s"
  then obtain f where f: "get_file a s = Some f" by blast
  note r = file_delete_step [OF k f]
  show "\<exists>t. file_delete a s = Some t \<and> site_inv t" using r by blast
  assume t: "file_delete a s = Some t"
  show "live b t" if "live b s" "b \<noteq> a" using r t that by (fastforce simp: frame_def)
  show "get_file a t = None" using r t by fastforce
  show "get_file b t = None" if "get_file b s = None" "b \<noteq> a"
    using r t that by (fastforce simp: frame_def)
qed

lemma files_live:
  assumes "site_inv s"
  shows "distinct (map fst (s_files s))" "\<forall>a\<in>set (map fst (s_files s)). live a s"
    "a \<in> set (map fst (s_files s)) \<or> get_file a s = None"
  using site_invD(4) [OF assms] by (auto simp: get_file_def map_of_eq_None_iff)

lemma no_files: "(\<And>a. get_file a s = None) \<Longrightarrow> s_files s = []"
proof -
  assume n: "\<And>a. get_file a s = None"
  have "get_file (fst (hd (s_files s))) s = None" by (rule n)
  then show "s_files s = []" by (cases "s_files s") (auto simp: get_file_def)
qed

lemma gone [intro]: "get_file a s = None \<Longrightarrow> caught_up a s" "get_file a s = None \<Longrightarrow> fresh_stored a s"
  by (simp_all add: caught_up_def fresh_stored_def)

lemma site_catchup_result:
  assumes inv: "site_inv s"
  shows "\<exists>t. site_catchup s = Some t \<and> kept s t \<and> (\<forall>a. caught_up a t)"
proof -
  have k: "kept s s" using inv by (simp add: kept_def)
  note fl = files_live [OF inv]
  obtain t where t: "site_catchup s = Some t" "kept s t"
    using catchup.loop_runs [OF k fl(1,2)] by (auto simp: site_catchup_def)
  moreover have "caught_up a t" for a
    using catchup.loop_settles [OF k fl(1,2) t(1) [unfolded site_catchup_def], of a] fl(3) [of a]
    by blast
  ultimately show ?thesis by blast
qed

lemma site_destroy_stored_result:
  assumes inv: "site_inv s"
  shows "\<exists>t. site_destroy_stored s = Some t \<and> kept s t \<and> (\<forall>a. fresh_stored a t)"
proof -
  have k: "kept s s" using inv by (simp add: kept_def)
  note fl = files_live [OF inv]
  obtain t where t: "site_destroy_stored s = Some t" "kept s t"
    using destroy_stored.loop_runs [OF k fl(1,2)] by (auto simp: site_destroy_stored_def)
  moreover have "fresh_stored a t" for a
    using destroy_stored.loop_settles [OF k fl(1,2) t(1) [unfolded site_destroy_stored_def], of a]
      fl(3) [of a]
    by blast
  ultimately show ?thesis by blast
qed

lemma states_none:
  assumes inv: "site_inv s" and n: "\<And>a f. get_file a s = Some f \<Longrightarrow> \<not> fs_exists (FS_GET m f)"
  shows "states m s = {#}"
  unfolding states_def using n by (intro tally_zero) (auto simp: files_set_get [OF inv])

section \<open>Properties\<close>

text \<open>C30. \<^verbatim>\<open>site_catchup\<close> makes the stored state of the site that of the local files: it returns
  (no NULL is dereferenced), keeps the settings, the invariant and every existing local state, and
  then every file is unchanged and no counter or flag announces work to do.\<close>

theorem site_catchup_correct:
  assumes "site_inv s"
  shows "\<exists>t. site_catchup s = Some t \<and> site_inv t \<and> opts t = opts s
    \<and> states m_local t = states m_local s
    \<and> (\<forall>a f. get_file a t = Some f \<longrightarrow> sf_diff f = file_unchanged)
    \<and> s_numnew t = 0 \<and> s_numchanged t = 0 \<and> s_numdeleted t = 0 \<and> s_nummoved t = 0
    \<and> s_numignored t = 0 \<and> \<not> s_local_is_different t \<and> \<not> s_remote_is_different t"
proof -
  obtain t where t: "site_catchup s = Some t" "kept s t" "\<forall>a. caught_up a t"
    using site_catchup_result [OF assms] by blast
  have u: "sf_diff f = file_unchanged" if "get_file a t = Some f" for a f
    using t(3) that by (auto simp: caught_up_def split: option.splits)
  have inv: "site_inv t" using t(2) by (simp add: kept_def)
  show ?thesis
    using t(1,2) u all_unchanged_counters [OF inv u] by (auto simp: kept_def)
qed

lemma site_catchup_correct_witness:
  "\<exists>t. site_catchup example_site = Some t \<and> site_inv t \<and> opts t = opts example_site
    \<and> states m_local t = states m_local example_site
    \<and> (\<forall>a f. get_file a t = Some f \<longrightarrow> sf_diff f = file_unchanged)
    \<and> s_numnew t = 0 \<and> s_numchanged t = 0 \<and> s_numdeleted t = 0 \<and> s_nummoved t = 0
    \<and> s_numignored t = 0 \<and> \<not> s_local_is_different t \<and> \<not> s_remote_is_different t"
  by (rule site_catchup_correct [OF example_site_inv])

text \<open>\<^verbatim>\<open>site_initialize\<close> (\<^verbatim>\<open>site_destroy_stored\<close>) forgets the remote site: no stored state is left,
  every file of the list is new, and the local states are the ones there were.\<close>

theorem site_initialize_correct:
  assumes "site_inv s"
  shows "\<exists>t. site_initialize s = Some t \<and> site_inv t \<and> opts t = opts s
    \<and> states m_stored t = {#} \<and> states m_local t = states m_local s
    \<and> (\<forall>a f. get_file a t = Some f \<longrightarrow> sf_diff f = file_new)"
proof -
  obtain t where t: "site_destroy_stored s = Some t" "kept s t" "\<forall>a. fresh_stored a t"
    using site_destroy_stored_result [OF assms] by blast
  have u: "sf_diff f = file_new \<and> sf_stored f = zero_state" if "get_file a t = Some f" for a f
    using t(3) that by (auto simp: fresh_stored_def split: option.splits)
  have "states m_stored t = {#}"
    by (rule states_none) (use t(2) u in \<open>auto simp: kept_def zero_state_def\<close>)
  then show ?thesis using t(1,2) u by (auto simp: site_initialize_def kept_def)
qed

lemma site_initialize_correct_witness:
  "\<exists>t. site_initialize example_site = Some t \<and> site_inv t \<and> opts t = opts example_site
    \<and> states m_stored t = {#} \<and> states m_local t = states m_local example_site
    \<and> (\<forall>a f. get_file a t = Some f \<longrightarrow> sf_diff f = file_new)"
  by (rule site_initialize_correct [OF example_site_inv])

text \<open>\<^verbatim>\<open>site_destroy\<close> empties the files list and brings every counter back to zero.\<close>

theorem site_destroy_correct:
  assumes "site_inv s"
  shows "\<exists>t. site_destroy s = Some t \<and> site_inv t \<and> s_files t = [] \<and> (\<forall>k. counter k t = 0)"
proof -
  note fl = files_live [OF assms]
  obtain t where t: "site_destroy s = Some t" "site_inv t"
    using destroy.loop_runs [OF assms fl(1,2)] by (auto simp: site_destroy_def)
  have n: "get_file a t = None" for a
    using destroy.loop_settles [OF assms fl(1,2) t(1) [unfolded site_destroy_def], of a] fl(3) [of a]
    by blast
  show ?thesis using t no_files [OF n] counter_zero [OF t(2)] n by auto
qed

lemma site_destroy_correct_witness:
  "\<exists>t. site_destroy example_site = Some t \<and> site_inv t \<and> s_files t = [] \<and> (\<forall>k. counter k t = 0)"
  by (rule site_destroy_correct [OF example_site_inv])

section \<open>Adding a fetched file\<close>

lemma file_ok_server [simp]: "file_ok s (f\<lparr>sf_server := x\<rparr>) = file_ok s f"
  by (simp add: file_ok_def wf_file_def)

lemma put_server_inv:
  assumes inv: "site_inv s" and f: "get_file a s = Some f"
  shows "site_inv (put_file a (\<lambda>_. f\<lparr>sf_server := x\<rparr>) s)"
proof (rule site_invI)
  note d = site_invD(4) [OF inv]
  show "distinct (map fst (s_files (put_file a (\<lambda>_. f\<lparr>sf_server := x\<rparr>) s)))" using d by simp
  show "file_ok (put_file a (\<lambda>_. f\<lparr>sf_server := x\<rparr>) s) g"
    if "get_file b (put_file a (\<lambda>_. f\<lparr>sf_server := x\<rparr>) s) = Some g" for b g
    using that f site_inv_get [OF inv, of b] file_ok_opts [OF opts_put_file]
    by (auto simp: frame_simps split: if_splits)
  show "counter k (put_file a (\<lambda>_. f\<lparr>sf_server := x\<rparr>) s)
      = tally (weight k) (s_files (put_file a (\<lambda>_. f\<lparr>sf_server := x\<rparr>) s))" for k
    using site_invD(2) [OF inv] tally_map_entry [OF d, of a f "weight k"] f
    by (simp add: stats_ok_def stat_simps frame_simps get_file_def)
  show "flags_ok (put_file a (\<lambda>_. f\<lparr>sf_server := x\<rparr>) s)" using site_invD(3) [OF inv] by simp
qed

lemma put_server_states:
  assumes "distinct (map fst (s_files s))" "get_file a s = Some f"
  shows "states m (put_file a (\<lambda>_. f\<lparr>sf_server := x\<rparr>) s) = states m s"
  using tally_replace [OF assms(1), of a f
      "\<lambda>f. if fs_exists (FS_GET m f) then {#(sf_type f, FS_GET m f)#} else {#}"
      "\<lambda>_. f\<lparr>sf_server := x\<rparr>"] assms(2)
  by (cases m) (auto simp: states_def frame_simps get_file_def split: if_splits)

text \<open>The kinds and names of the stored states.\<close>

definition stored_names :: "site \<Rightarrow> (file_type \<times> string option) multiset" where
  "stored_names s = image_mset (\<lambda>(t, st). (t, fs_filename st)) (states m_stored s)"

lemma stored_names_replace:
  assumes "states m_stored t + (if fs_exists x then {#(ty, x)#} else {#})
      = states m_stored s + (if fs_exists y then {#(ty, y)#} else {#})"
    and "fs_filename x = fs_filename y" "fs_exists x = fs_exists y"
  shows "stored_names t = stored_names s"
proof -
  have "stored_names t + image_mset (\<lambda>(t, st). (t, fs_filename st))
        (if fs_exists x then {#(ty, x)#} else {#})
      = stored_names s + image_mset (\<lambda>(t, st). (t, fs_filename st))
        (if fs_exists y then {#(ty, y)#} else {#})"
    using assms(1) by (simp only: stored_names_def flip: image_mset_union)
  then show ?thesis using assms(2,3) by (cases "fs_exists x") simp_all
qed

lemma munge_modtime_result:
  assumes inv: "site_inv s" and f: "get_file a s = Some f"
  shows "\<exists>t g. munge_modtime now a m s = Some t \<and> site_inv t \<and> frame a s t
    \<and> states m_local t = states m_local s \<and> stored_names t = stored_names s
    \<and> get_file a t = Some g \<and> sf_type g = sf_type f \<and> sf_local g = sf_local f
    \<and> fs_filename (sf_stored g) = fs_filename (sf_stored f)
    \<and> fs_exists (sf_stored g) = fs_exists (sf_stored f)
    \<and> fs_size (sf_stored g) = fs_size (sf_stored f)
    \<and> (sf_type f = file_file \<and> s_state_method s = state_timesize \<and> fs_exists (sf_local f)
       \<longrightarrow> fs_time (sf_stored g) = (if s_safemode s \<and> fs_exists (sf_server f)
             \<and> fs_time (sf_server f) \<noteq> m then fs_time (sf_local f) + 1 else fs_time (sf_local f)))"
proof (cases "sf_type f = file_file \<and> s_state_method s = state_timesize")
  case True
  define t where "t = (if fs_exists (sf_local f)
      then (if s_safemode s \<and> fs_exists (sf_server f) \<and> fs_time (sf_server f) \<noteq> m
            then fs_time (sf_local f) + 1 else fs_time (sf_local f)) else now)"
  let ?st = "(sf_stored f)\<lparr>fs_time := t\<rparr>"
  have "wf_file f" using site_inv_get [OF inv f] by (simp add: file_ok_def)
  then have wf: "wf_file (f\<lparr>sf_stored := ?st\<rparr>)" by (auto simp: wf_file_def wf_state_def)
  have p: "put_file a (\<lambda>f. f\<lparr>sf_stored := (sf_stored f)\<lparr>fs_time := t\<rparr>\<rparr>) s
      = put_file a (\<lambda>f. f\<lparr>sf_stored := ?st\<rparr>) s"
    by (subst (1 2) put_file_const [OF site_invD(4) [OF inv] f]) simp
  have "munge_modtime now a m s = file_set_diff a (put_file a (\<lambda>f. f\<lparr>sf_stored := ?st\<rparr>) s)"
    using True f by (simp add: munge_modtime_def Let_def p flip: t_def)
  moreover obtain u d where u: "file_set_diff a (put_file a (\<lambda>f. f\<lparr>sf_stored := ?st\<rparr>) s) = Some u"
      "site_inv u" "frame a s u" "get_file a u = Some (f\<lparr>sf_stored := ?st, sf_diff := d\<rparr>)"
      "states m_local u = states m_local s"
      "states m_stored u + (if fs_exists (sf_stored f) then {#(sf_type f, sf_stored f)#} else {#})
      = states m_stored s + (if fs_exists ?st then {#(sf_type f, ?st)#} else {#})"
    using stored_set_result [OF inv f wf] by blast
  moreover have "stored_names u = stored_names s"
    by (rule stored_names_replace [OF u(6)]) simp_all
  ultimately show ?thesis using True by (auto simp: t_def)
next
  case False
  then show ?thesis using inv f by (auto simp: munge_modtime_def)
qed

lemma fetch_add_file_result:
  assumes inv: "site_inv s" and ty: "pf_type pf \<noteq> proto_link"
  shows "\<exists>a t f. fetch_add_file fnm now pf s = Some (a, t) \<and> site_inv t \<and> opts t = opts s
    \<and> states m_local t = states m_local s
    \<and> stored_names t = add_mset (fetch_type (pf_type pf), Some (pf_filename pf)) (stored_names s)
    \<and> get_file a t = Some f \<and> sf_type f = fetch_type (pf_type pf)
    \<and> fs_exists (sf_stored f) \<and> fs_filename (sf_stored f) = Some (pf_filename pf)
    \<and> fs_size (sf_stored f) = pf_size pf
    \<and> (s_safemode s \<longrightarrow> fs_exists (sf_server f) \<and> fs_time (sf_server f) = pf_modtime pf)"
proof -
  define state where "state = zero_state\<lparr>fs_size := pf_size pf, fs_time := pf_modtime pf,
    fs_exists := True, fs_filename := Some (pf_filename pf), fs_mode := pf_mode pf,
    fs_ascii := file_isascii fnm (pf_filename pf) s, fs_checksum := pf_checksum pf\<rparr>"
  let ?ty = "fetch_type (pf_type pf)"
  have st: "fs_exists state" "wf_state ?ty state"
    using ty by (cases "pf_type pf"; simp add: state_def wf_state_def)+
  obtain a u where u: "file_set_stored fnm ?ty state s = Some (a, u)" "site_inv u" "opts u = opts s"
      "states m_local u = states m_local s" "states m_stored u = add_mset (?ty, state) (states m_stored s)"
    and "\<exists>f. get_file a u = Some f \<and> sf_type f = ?ty \<and> sf_stored f = state"
    using file_set_stored_result [OF inv st, of fnm] by (auto simp: set_result_def)
  then obtain f where f: "get_file a u = Some f" "sf_type f = ?ty" "sf_stored f = state" by blast
  obtain v g where v: "munge_modtime now a (pf_modtime pf) u = Some v" "site_inv v" "frame a u v"
      "states m_local v = states m_local u" "stored_names v = stored_names u"
      "get_file a v = Some g" "sf_type g = sf_type f"
      "fs_filename (sf_stored g) = fs_filename (sf_stored f)"
      "fs_exists (sf_stored g) = fs_exists (sf_stored f)"
      "fs_size (sf_stored g) = fs_size (sf_stored f)"
    using munge_modtime_result [OF u(2) f(1), of now "pf_modtime pf"] by blast
  define x where "x = (sf_server g)\<lparr>fs_time := pf_modtime pf, fs_exists := True\<rparr>"
  define t where "t = (if s_safemode s then put_file a (\<lambda>_. g\<lparr>sf_server := x\<rparr>) v else v)"
  have dv: "distinct (map fst (s_files v))" by (rule site_invD(4) [OF v(2)])
  have "put_file a (\<lambda>f. f\<lparr>sf_server := (sf_server f)\<lparr>fs_time := pf_modtime pf,
      fs_exists := True\<rparr>\<rparr>) v = put_file a (\<lambda>_. g\<lparr>sf_server := x\<rparr>) v"
    by (subst put_file_const [OF dv v(6)]) (simp add: x_def)
  moreover have "opts v = opts s" using v(3) u(3) by (simp add: frame_def)
  moreover from this have "s_safemode v = s_safemode s" by (rule opts_fields)
  ultimately have "fetch_add_file fnm now pf s = Some (a, t)"
    using u(1) v(1) by (simp add: fetch_add_file_def Let_def state_def t_def)
  moreover have "site_inv t" "opts t = opts s" "states m_local t = states m_local s"
    using put_server_inv [OF v(2,6), of x] put_server_states [OF dv v(6), of m_local x]
      v u \<open>opts v = opts s\<close> by (simp_all add: t_def frame_simps)
  moreover have "stored_names t = add_mset (?ty, Some (pf_filename pf)) (stored_names s)"
    using put_server_states [OF dv v(6), of m_stored x] v(5) u(5)
    by (simp add: t_def stored_names_def state_def)
  moreover have "\<exists>h. get_file a t = Some h \<and> sf_type h = ?ty \<and> sf_stored h = sf_stored g
      \<and> (s_safemode s \<longrightarrow> sf_server h = x)"
    using v f by (simp add: t_def frame_simps)
  ultimately show ?thesis using v f by (auto simp: state_def x_def)
qed

text \<open>Adding a file that the server lists (\<^verbatim>\<open>fetch_add_file\<close>, for anything but a symbolic
  link, whose target the code leaves NULL) keeps the invariant and the local states, adds its kind
  and name to those of the stored states, and the file then has a stored state of the listed name
  and size; in safe mode its server state has the listed modification time.\<close>

theorem fetch_add_file_correct:
  assumes "site_inv s" and "pf_type pf \<noteq> proto_link"
  shows "\<exists>a t f. fetch_add_file fnm now pf s = Some (a, t) \<and> site_inv t \<and> opts t = opts s
    \<and> states m_local t = states m_local s
    \<and> stored_names t = add_mset (fetch_type (pf_type pf), Some (pf_filename pf)) (stored_names s)
    \<and> get_file a t = Some f \<and> sf_type f = fetch_type (pf_type pf)
    \<and> fs_exists (sf_stored f) \<and> fs_filename (sf_stored f) = Some (pf_filename pf)
    \<and> fs_size (sf_stored f) = pf_size pf
    \<and> (s_safemode s \<longrightarrow> fs_exists (sf_server f) \<and> fs_time (sf_server f) = pf_modtime pf)"
  by (rule fetch_add_file_result [OF assms])

definition example_pf :: proto_file where
  "example_pf = \<lparr>pf_filename = ''index.html'', pf_type = proto_file, pf_size = 9,
     pf_modtime = 1000, pf_mode = 0, pf_checksum = zero_checksum\<rparr>"

lemma fetch_add_file_correct_witness:
  "\<exists>a t f. fetch_add_file (\<lambda>_ _ _. False) 77 example_pf example_site = Some (a, t)
    \<and> site_inv t \<and> opts t = opts example_site \<and> states m_local t = states m_local example_site
    \<and> stored_names t = add_mset (fetch_type (pf_type example_pf), Some (pf_filename example_pf))
        (stored_names example_site)
    \<and> get_file a t = Some f \<and> sf_type f = fetch_type (pf_type example_pf)
    \<and> fs_exists (sf_stored f) \<and> fs_filename (sf_stored f) = Some (pf_filename example_pf)
    \<and> fs_size (sf_stored f) = pf_size example_pf
    \<and> (s_safemode example_site \<longrightarrow> fs_exists (sf_server f)
        \<and> fs_time (sf_server f) = pf_modtime example_pf)"
  by (rule fetch_add_file_correct [OF example_site_inv]) (simp add: example_pf_def)

section \<open>Verification\<close>

lemma verify_find_new:
  assumes "\<forall>(a, f) \<in> set xs. fs_exists (sf_stored f) \<longrightarrow> fs_filename (sf_stored f) \<noteq> None"
  shows "\<exists>d. verify_find lf s xs = Some d
    \<and> (d = file_new \<longleftrightarrow> \<not> (\<exists>(a, f) \<in> set xs. fs_exists (sf_stored f)
          \<and> fs_filename (sf_stored f) = Some (pf_filename lf)))"
  using assms
proof (induction xs)
  case (Cons p xs)
  then show ?case by (cases p; cases "fs_filename (sf_stored (snd p))") (auto split: if_splits)
qed simp

text \<open>A listed file is known when a stored state has its name.\<close>

definition known :: "site \<Rightarrow> proto_file \<Rightarrow> bool" where
  "known s lf \<longleftrightarrow> (\<exists>(a, f) \<in> set (s_files s). fs_exists (sf_stored f)
     \<and> fs_filename (sf_stored f) = Some (pf_filename lf))"

lemma verify_loop_result:
  assumes inv: "site_inv s"
  shows "\<exists>log. verify_loop s files n = Some (n - int (length (filter (known s) files)), log)
    \<and> map fst log = map pf_filename files
    \<and> (\<forall>i < length files. snd (log ! i) = file_new \<longleftrightarrow> \<not> known s (files ! i))"
proof (induction files arbitrary: n)
  case (Cons lf files)
  have "\<forall>(a, f) \<in> set (s_files s). fs_exists (sf_stored f) \<longrightarrow> fs_filename (sf_stored f) \<noteq> None"
    using site_invD(1) [OF inv] by (auto simp: files_ok_def file_ok_def wf_file_def wf_state_def)
  from verify_find_new [OF this, of lf s] obtain d where
    d: "verify_find lf s (s_files s) = Some d" "d = file_new \<longleftrightarrow> \<not> known s lf"
    by (auto simp: known_def)
  obtain log where "verify_loop s files (if d = file_new then n - 1 + 1 else n - 1)
      = Some ((if d = file_new then n - 1 + 1 else n - 1) - int (length (filter (known s) files)), log)"
      "map fst log = map pf_filename files"
      "\<forall>i < length files. snd (log ! i) = file_new \<longleftrightarrow> \<not> known s (files ! i)"
    using Cons.IH by blast
  then show ?case using d by (auto simp: nth_Cons split: nat.split)
qed simp

lemma states_size:
  "size (states m_stored s) = length (filter (\<lambda>(a, f). fs_exists (sf_stored f)) (s_files s))"
proof -
  have "size (tally (\<lambda>f. if fs_exists (FS_GET m_stored f)
        then {#(sf_type f, FS_GET m_stored f)#} else {#}) xs)
      = length (filter (\<lambda>(a, f). fs_exists (sf_stored f)) xs)" for xs :: "(addr \<times> site_file) list"
    by (induction xs) auto
  then show ?thesis by (simp only: states_def)
qed

text \<open>The comparison of \<^verbatim>\<open>site_verify\<close> reports each listed file once, in the order of the list,
  as new exactly when no stored state has its name; it counts as removed the stored files less the
  listed files that are known, and returns \<^verbatim>\<open>SITE_OK\<close> exactly when that count is zero.\<close>

theorem site_verify_compare_correct:
  assumes "site_inv s"
  shows "\<exists>ret n log. site_verify_compare s files = Some (ret, n, log)
    \<and> n = int (size (states m_stored s)) - int (length (filter (known s) files))
    \<and> (ret = SITE_OK \<longleftrightarrow> n = 0)
    \<and> map fst log = map pf_filename files
    \<and> (\<forall>i < length files. snd (log ! i) = file_new \<longleftrightarrow> \<not> known s (files ! i))"
  using verify_loop_result [OF assms, of files
      "int (length (filter (\<lambda>(a, f). fs_exists (sf_stored f)) (s_files s)))"]
  by (auto simp: site_verify_compare_def states_size)

definition synced_site :: site where
  "synced_site = zero_site\<lparr>s_files := [(1, zero_file\<lparr>sf_local := example_state,
     sf_stored := example_state\<rparr>)], s_numunchanged := 1\<rparr>"

lemma synced_site_inv: "site_inv synced_site"
proof (rule site_invI)
  show "distinct (map fst (s_files synced_site))" by (simp add: synced_site_def)
  have "file_ok synced_site (zero_file\<lparr>sf_local := example_state, sf_stored := example_state\<rparr>)"
    by (simp add: file_ok_def wf_file_def wf_state_def file_compare_def
        example_state_def zero_file_def zero_state_def synced_site_def zero_site_def)
  then show "file_ok synced_site f" if "get_file b synced_site = Some f" for b f
    using that by (auto simp: get_file_def synced_site_def split: if_splits)
  show "counter k synced_site = tally (weight k) (s_files synced_site)" for k
    by (cases k) (simp_all add: synced_site_def zero_site_def zero_file_def)
  show "flags_ok synced_site"
    by (simp add: flags_ok_def site_stats_update_def synced_site_def zero_site_def)
qed

lemma site_verify_compare_correct_witness:
  "\<exists>ret n log. site_verify_compare synced_site [example_pf] = Some (ret, n, log)
    \<and> n = int (size (states m_stored synced_site)) - int (length (filter (known synced_site) [example_pf]))
    \<and> (ret = SITE_OK \<longleftrightarrow> n = 0)
    \<and> map fst log = map pf_filename [example_pf]
    \<and> (\<forall>i < length [example_pf]. snd (log ! i) = file_new \<longleftrightarrow> \<not> known synced_site ([example_pf] ! i))"
  by (rule site_verify_compare_correct [OF synced_site_inv])

text \<open>The header of the comparison promises \<^verbatim>\<open>SITE_ERRORS\<close> on any mismatch; a file whose size on
  the server differs from the stored one is reported as changed and \<^verbatim>\<open>SITE_OK\<close> is returned.\<close>

theorem site_verify_compare_changed_ok:
  "site_inv synced_site
   \<and> site_verify_compare synced_site [example_pf] = Some (SITE_OK, 0, [(''index.html'', file_changed)])"
  by (rule conjI [OF synced_site_inv]) code_simp

end
