(* ===== verification/Site_Driver.thy ===== *)
theory Site_Driver
  imports Site_Ops
begin

text \<open>
  What \<^verbatim>\<open>src/sites.c\<close> calls: the driver of the site's protocol (\<^verbatim>\<open>struct proto_driver\<close> of
  \<^verbatim>\<open>src/protocol.h\<close>), the user's answer to \<^verbatim>\<open>fe_can_update\<close>, the notifications of the frontend
  (\<^verbatim>\<open>src/frontend.h\<close>) and the calls on the local file system.  All act on a world of a type
  \<open>'w\<close> that the model leaves open: the server, the local disk, the session and the user.  The
  notifications are recorded in a log, with the file as it is at the call.  The functions for
  links, and the one that lists a directory, are NULL in some drivers.
\<close>

record 'w proto_driver =
  d_init :: "site \<Rightarrow> 'w \<Rightarrow> int \<times> 'w"
  d_finish :: "'w \<Rightarrow> 'w"
  d_file_move :: "string \<Rightarrow> string \<Rightarrow> 'w \<Rightarrow> int \<times> 'w"
  d_file_upload :: "string \<Rightarrow> string \<Rightarrow> bool \<Rightarrow> 'w \<Rightarrow> int \<times> 'w"
  d_file_upload_cond :: "string \<Rightarrow> string \<Rightarrow> bool \<Rightarrow> int \<Rightarrow> 'w \<Rightarrow> int \<times> 'w"
  d_file_get_modtime :: "string \<Rightarrow> 'w \<Rightarrow> (int \<times> int) \<times> 'w"
  d_file_download :: "string \<Rightarrow> string \<Rightarrow> bool \<Rightarrow> 'w \<Rightarrow> int \<times> 'w"
  d_file_read :: "string \<Rightarrow> 'w \<Rightarrow> (int \<times> string list) \<times> 'w"
  d_file_delete :: "string \<Rightarrow> 'w \<Rightarrow> int \<times> 'w"
  d_file_chmod :: "string \<Rightarrow> mode_t \<Rightarrow> 'w \<Rightarrow> int \<times> 'w"
  d_dir_create :: "string \<Rightarrow> 'w \<Rightarrow> int \<times> 'w"
  d_dir_remove :: "string \<Rightarrow> 'w \<Rightarrow> int \<times> 'w"
  d_link_create :: "(string \<Rightarrow> string option \<Rightarrow> 'w \<Rightarrow> int \<times> 'w) option"
  d_link_change :: "(string \<Rightarrow> string option \<Rightarrow> 'w \<Rightarrow> int \<times> 'w) option"
  d_link_delete :: "(string \<Rightarrow> 'w \<Rightarrow> int \<times> 'w) option"
  d_fetch_list :: "(string \<Rightarrow> bool \<Rightarrow> 'w \<Rightarrow> (int \<times> proto_file list) \<times> 'w) option"
  d_error :: "'w \<Rightarrow> string"
  d_get_server_port :: "site \<Rightarrow> int"
  d_get_proxy_port :: "site \<Rightarrow> int"
  d_protocol_name :: string

text \<open>The system calls on local files: \<^const>\<open>None\<close> is success, \<open>Some e\<close> the error string.\<close>

record 'w os =
  o_mkdir :: "string \<Rightarrow> mode_t \<Rightarrow> 'w \<Rightarrow> string option \<times> 'w"
  o_rmdir :: "string \<Rightarrow> 'w \<Rightarrow> string option \<times> 'w"
  o_unlink :: "string \<Rightarrow> 'w \<Rightarrow> string option \<times> 'w"
  o_rename :: "string \<Rightarrow> string \<Rightarrow> 'w \<Rightarrow> string option \<times> 'w"
  o_chmod :: "string \<Rightarrow> mode_t \<Rightarrow> 'w \<Rightarrow> string option \<times> 'w"
  o_utime :: "string \<Rightarrow> int \<Rightarrow> 'w \<Rightarrow> string option \<times> 'w"
  o_can_update :: "site_file \<Rightarrow> 'w \<Rightarrow> bool \<times> 'w"

datatype fe_event =
    fe_updating site_file
  | fe_updated site_file bool "string option"
  | fe_setting_perms site_file
  | fe_set_perms site_file bool "string option"
  | fe_synching site_file
  | fe_synched site_file bool "string option"
  | fe_warning string string string
  | fe_checksumming string
  | fe_checksummed string bool "string option"
  | fe_fetch_found site_file
  | fe_verified string file_diff

record 'w run =
  r_site :: site
  r_world :: 'w
  r_log :: "fe_event list"

definition notify :: "fe_event \<Rightarrow> 'w run \<Rightarrow> 'w run" where
  "notify e r = r\<lparr>r_log := r_log r @ [e]\<rparr>"

definition call :: "('w \<Rightarrow> 'b \<times> 'w) \<Rightarrow> 'w run \<Rightarrow> 'b \<times> 'w run" where
  "call g r = (let (x, w) = g (r_world r) in (x, r\<lparr>r_world := w\<rparr>))"

definition on_site :: "(site \<Rightarrow> site option) \<Rightarrow> 'w run \<Rightarrow> 'w run option" where
  "on_site g r = do { s \<leftarrow> g (r_site r); Some (r\<lparr>r_site := s\<rparr>) }"

definition run_put :: "addr \<Rightarrow> (site_file \<Rightarrow> site_file) \<Rightarrow> 'w run \<Rightarrow> 'w run" where
  "run_put a g r = r\<lparr>r_site := put_file a g (r_site r)\<rparr>"

abbreviation run_file :: "addr \<Rightarrow> 'w run \<Rightarrow> site_file option" where
  "run_file a r \<equiv> get_file a (r_site r)"

definition driver_err :: "'w proto_driver \<Rightarrow> 'w run \<Rightarrow> string option" where
  "driver_err drv r = Some (d_error drv (r_world r))"

lemma run_simps [simp]:
  "r_site (notify e r) = r_site r"
  "r_world (notify e r) = r_world r"
  "r_log (notify e r) = r_log r @ [e]"
  "r_site (snd (call g r)) = r_site r"
  "r_log (snd (call g r)) = r_log r"
  by (simp_all add: notify_def call_def case_prod_beta' Let_def)

section \<open>Opening and closing the connection\<close>

definition proto_seterror :: "'w proto_driver \<Rightarrow> 'w run \<Rightarrow> 'w run" where
  "proto_seterror drv r = r\<lparr>r_site := (r_site r)\<lparr>s_last_error := driver_err drv r\<rparr>\<rparr>"

definition proto_finish :: "'w proto_driver \<Rightarrow> 'w run \<Rightarrow> 'w run" where
  "proto_finish drv r =
     (let r = proto_seterror drv r in r\<lparr>r_world := d_finish drv (r_world r)\<rparr>)"

definition proto_init :: "'w proto_driver \<Rightarrow> 'w run \<Rightarrow> int \<times> 'w run" where
  "proto_init drv r =
     (let r = r\<lparr>r_site := (r_site r)\<lparr>s_last_error := None\<rparr>\<rparr>;
          (ret, r) = call (d_init drv (r_site r)) r
      in if ret \<noteq> SITE_OK then (ret, proto_seterror drv r) else (SITE_OK, r))"

text \<open>The name of the protocol, from the driver or as given in the rcfile.\<close>

definition site_get_protoname :: "(driver_name \<Rightarrow> 'w proto_driver) \<Rightarrow> site \<Rightarrow> string" where
  "site_get_protoname driver_of s =
     (case s_driver s of Some d \<Rightarrow> d_protocol_name (driver_of d) | None \<Rightarrow> s_proto_string s)"

end
