(* ===== verification/Site_Update.thy ===== *)
theory Site_Update
  imports Site_Driver
begin

text \<open>
  Update mode: \<^verbatim>\<open>site_update\<close> and its handlers of \<^verbatim>\<open>src/sites.c\<close>, with the driver, the local
  system calls and the user's answers as parameters.  Each handler is a loop over the files list;
  its body is a function on the run and the return code \<open>ret\<close>.
\<close>

section \<open>Definitions\<close>

definition file_chmod :: "'w proto_driver \<Rightarrow> addr \<Rightarrow> 'w run \<Rightarrow> (int \<times> 'w run) option" where
  "file_chmod drv a r =
     do { f \<leftarrow> run_file a r;
          if file_perms_changed f (r_site r)
          then do { full_remote \<leftarrow> file_full_remote (sf_local f) (r_site r);
                    let r = notify (fe_setting_perms f) r;
                    let (ret, r) = call (d_file_chmod drv full_remote (fs_mode (sf_local f))) r;
                    if ret \<noteq> SITE_OK
                    then Some (1, notify (fe_set_perms f False (driver_err drv r)) r)
                    else do { let f' = f\<lparr>sf_stored := (sf_stored f)\<lparr>fs_mode := fs_mode (sf_local f)\<rparr>\<rparr>;
                              let r = run_put a (\<lambda>f. f\<lparr>sf_stored :=
                                (sf_stored f)\<lparr>fs_mode := fs_mode (sf_local f)\<rparr>\<rparr>) r;
                              let r = notify (fe_set_perms f' True None) r;
                              r \<leftarrow> on_site (file_set_diff a) r;
                              Some (0, r) } }
          else Some (0, r) }"

definition file_retrieve_server :: "'w proto_driver \<Rightarrow> addr \<Rightarrow> 'w run \<Rightarrow> 'w run option" where
  "file_retrieve_server drv a r =
     do { f \<leftarrow> run_file a r;
          full_remote \<leftarrow> file_full_remote (sf_local f) (r_site r);
          let ((ret, rtime), r) = call (d_file_get_modtime drv full_remote) r;
          Some (if ret = SITE_OK
                then run_put a (\<lambda>f. f\<lparr>sf_server := (sf_server f)\<lparr>fs_time := rtime, fs_exists := True\<rparr>\<rparr>) r
                else notify (fe_warning ''Upload succeeded, but could not retrieve modification time.''
                       full_remote (d_error drv (r_world r)))
                     (run_put a (\<lambda>f. f\<lparr>sf_server := (sf_server f)\<lparr>fs_exists := False\<rparr>\<rparr>) r)) }"

text \<open>\<open>temp_upload_filename\<close>: \<^verbatim>\<open>.in.\<close> goes before the last segment.\<close>

definition temp_upload_filename :: "string \<Rightarrow> string" where
  "temp_upload_filename filename =
     (case strrchr_split filename CHR ''/'' of
        None \<Rightarrow> ''.in.'' @ filename
      | Some (dir, segment) \<Rightarrow> dir @ ''.in.'' @ segment)"

type_synonym 'w body = "addr \<Rightarrow> 'w run \<times> int \<Rightarrow> ('w run \<times> int) option"

definition create_directories_body :: "'w proto_driver \<Rightarrow> 'w os \<Rightarrow> 'w body" where
  "create_directories_body drv os current st =
     (let (r, ret) = st in
      do { f \<leftarrow> run_file current r;
           if sf_type f = file_dir \<and> (sf_diff f = file_new \<or> sf_diff f = file_changed)
           then
             (let (yes, r) = call (o_can_update os f) r in
              if \<not> yes then Some (r, ret)
              else
                do { full_remote \<leftarrow> file_full_remote (sf_local f) (r_site r);
                     let (oret, r) =
                       (if sf_diff f = file_new
                        then (let r = notify (fe_updating f) r;
                                  (oret, r) = call (d_dir_create drv full_remote) r
                              in (oret, notify (if oret \<noteq> SITE_OK
                                                then fe_updated f False (driver_err drv r)
                                                else fe_updated f True None) r))
                        else (SITE_OK, r));
                     let (oret, r) =
                       (if s_dirperms (r_site r) \<and> oret = SITE_OK
                        then (let r = notify (fe_setting_perms f) r;
                                  (oret, r) = call (d_file_chmod drv full_remote (fs_mode (sf_local f))) r
                              in (oret, notify (if oret = SITE_OK
                                                then fe_set_perms f True None
                                                else fe_set_perms f False (driver_err drv r)) r))
                        else (oret, r));
                     if oret \<noteq> SITE_OK then Some (r, 1)
                     else do { r \<leftarrow> on_site (file_uploaded current) r; Some (r, ret) } })
           else Some (r, ret) })"

definition delete_files_body :: "'w proto_driver \<Rightarrow> 'w os \<Rightarrow> 'w body" where
  "delete_files_body drv os current st =
     (let (r, ret) = st in
      do { f \<leftarrow> run_file current r;
           if sf_diff f = file_deleted \<and> sf_type f = file_file
           then
             (let (yes, r) = call (o_can_update os f) r in
              if \<not> yes then Some (r, ret)
              else
                do { full_remote \<leftarrow> file_full_remote (sf_stored f) (r_site r);
                     let r = notify (fe_updating f) r;
                     let (res, r) = call (d_file_delete drv full_remote) r;
                     if res \<noteq> SITE_OK
                     then Some (notify (fe_updated f False (driver_err drv r)) r, 1)
                     else do { let r = notify (fe_updated f True None) r;
                               r \<leftarrow> on_site (file_delete current) r;
                               Some (r, ret) } })
           else Some (r, ret) })"

definition move_files_body :: "'w proto_driver \<Rightarrow> 'w os \<Rightarrow> 'w body" where
  "move_files_body drv os current st =
     (let (r, ret) = st in
      do { f \<leftarrow> run_file current r;
           if sf_diff f \<noteq> file_moved then Some (r, ret)
           else
             do { full_remote \<leftarrow> file_full_remote (sf_local f) (r_site r);
                  let (yes, r) = call (o_can_update os f) r;
                  if \<not> yes then Some (r, ret)
                  else
                    do { let r = notify (fe_updating f) r;
                         old_full_remote \<leftarrow> file_full_remote (sf_stored f) (r_site r);
                         let (res, r) = call (d_file_move drv old_full_remote full_remote) r;
                         if res \<noteq> SITE_OK
                         then Some (notify (fe_updated f False (driver_err drv r)) r, 1)
                         else do { let r = notify (fe_updated f True None) r;
                                   r \<leftarrow> on_site (file_uploaded current) r;
                                   Some (r, ret) } } } })"

text \<open>What follows a successful upload.\<close>

definition upload_done :: "'w proto_driver \<Rightarrow> bool \<Rightarrow> site_file \<Rightarrow> 'w body" where
  "upload_done drv retrieve f current st =
     (let (r, ret) = st; r = notify (fe_updated f True None) r in
      do { r \<leftarrow> (if retrieve then file_retrieve_server drv current r else Some r);
           (cret, r) \<leftarrow> file_chmod drv current r;
           r \<leftarrow> on_site (file_uploaded current) r;
           Some (r, if cret \<noteq> 0 then 1 else ret) })"

definition upload_body :: "'w proto_driver \<Rightarrow> string \<Rightarrow> string \<Rightarrow> site_file \<Rightarrow> 'w body" where
  "upload_body drv full_local full_remote f current st =
     (let (r, ret) = st;
          r = notify (fe_updating f) r;
          site = r_site r
      in
      if s_safemode site \<and> fs_exists (sf_server f)
      then
        (let (cret, r) = call (d_file_upload_cond drv full_local full_remote
                (fs_ascii (sf_local f)) (fs_time (sf_server f))) r
         in if cret = SITE_ERRORS
            then Some (notify (fe_updated f False (driver_err drv r)) r, 1)
            else if cret = SITE_FAILED
            then Some (notify (fe_updated f False
              (Some ''Remote file has been modified - not overwriting with local changes'')) r, 1)
            else upload_done drv True f current (r, ret))
      else if s_tempupload site
      then
        (let temp_remote = temp_upload_filename full_remote;
             (res, r) = call (d_file_upload drv full_local temp_remote (fs_ascii (sf_local f))) r
         in if res \<noteq> 0
            then Some (notify (fe_updated f False (driver_err drv r)) r, 1)
            else
              (let (res, r) = call (d_file_move drv temp_remote full_remote) r
               in if res \<noteq> SITE_OK
                  then Some (notify (fe_updated f False (driver_err drv r)) r, 1)
                  else upload_done drv (s_safemode site) f current (r, ret)))
      else
        (let (res, r) = call (d_file_upload drv full_local full_remote (fs_ascii (sf_local f))) r
         in if res \<noteq> SITE_OK
            then Some (notify (fe_updated f False (driver_err drv r)) r, 1)
            else upload_done drv (s_safemode site) f current (r, ret)))"

definition update_files_body :: "'w proto_driver \<Rightarrow> 'w os \<Rightarrow> 'w body" where
  "update_files_body drv os current st =
     (let (r, ret) = st in
      do { f \<leftarrow> run_file current r;
           if sf_type f \<noteq> file_file \<or> sf_diff f = file_deleted \<or> sf_diff f = file_moved
              \<or> sf_diff f = file_unchanged
           then Some (r, ret)
           else
             do { full_local \<leftarrow> file_full_local (sf_local f) (r_site r);
                  full_remote \<leftarrow> file_full_remote (sf_local f) (r_site r);
                  if sf_diff f = file_changed \<and> sf_ignore f then Some (r, ret)
                  else if sf_diff f = file_changed \<and> \<not> file_contents_changed f (r_site r)
                  then do { (cret, r) \<leftarrow> file_chmod drv current r;
                            Some (r, if cret \<noteq> 0 then 1 else ret) }
                  else
                    (let (yes, r) = call (o_can_update os f) r in
                     if \<not> yes then Some (r, ret)
                     else if sf_diff f = file_changed \<and> s_nooverwrite (r_site r)
                     then
                       (let r = run_put current (sf_diff_update (\<lambda>_. file_deleted)) r;
                            r = notify (fe_updating (f\<lparr>sf_diff := file_deleted\<rparr>)) r;
                            (res, r) = call (d_file_delete drv full_remote) r
                        in if res \<noteq> SITE_OK
                           then (let r = notify (fe_updated (f\<lparr>sf_diff := file_deleted\<rparr>) False
                                           (driver_err drv r)) r
                                 in Some (run_put current (sf_diff_update (\<lambda>_. file_changed)) r, 1))
                           else (let r = notify (fe_updated (f\<lparr>sf_diff := file_deleted\<rparr>) True None) r;
                                     r = run_put current (sf_diff_update (\<lambda>_. file_changed)) r
                                 in upload_body drv full_local full_remote f current (r, ret)))
                     else upload_body drv full_local full_remote f current (r, ret)) } })"

definition delete_directories_body :: "'w proto_driver \<Rightarrow> 'w os \<Rightarrow> 'w body" where
  "delete_directories_body drv os current st =
     (let (r, ret) = st in
      do { f \<leftarrow> run_file current r;
           if sf_type f = file_dir \<and> sf_diff f = file_deleted
           then
             (let (yes, r) = call (o_can_update os f) r in
              if \<not> yes then Some (r, ret)
              else
                do { full_remote \<leftarrow> file_full_remote (sf_stored f) (r_site r);
                     let r = notify (fe_updating f) r;
                     let (res, r) = call (d_dir_remove drv full_remote) r;
                     if res \<noteq> SITE_OK
                     then Some (notify (fe_updated f False (driver_err drv r)) r, 1)
                     else do { let r = notify (fe_updated f True None) r;
                               r \<leftarrow> on_site (file_delete current) r;
                               Some (r, ret) } })
           else Some (r, ret) })"

definition links_body :: "'w proto_driver \<Rightarrow> 'w body" where
  "links_body drv current st =
     (let (r, ret) = st in
      do { f \<leftarrow> run_file current r;
           if sf_type f \<noteq> file_link then Some (r, ret)
           else
             do { full_remote \<leftarrow> file_full_remote (sf_local f) (r_site r);
                  case sf_diff f of
                    file_new \<Rightarrow>
                      do { link_create \<leftarrow> d_link_create drv;
                           let (res, r) = call (link_create full_remote (fs_linktarget (sf_local f)))
                                            (notify (fe_updating f) r);
                           if res \<noteq> SITE_OK
                           then Some (notify (fe_updated f False (driver_err drv r)) r, 1)
                           else Some (run_put current (sf_diff_update (\<lambda>_. file_unchanged))
                                        (notify (fe_updated f True None) r), ret) }
                  | file_changed \<Rightarrow>
                      do { link_change \<leftarrow> d_link_change drv;
                           let (res, r) = call (link_change full_remote (fs_linktarget (sf_local f)))
                                            (notify (fe_updating f) r);
                           if res \<noteq> SITE_OK
                           then Some (notify (fe_updated f False (driver_err drv r)) r, 1)
                           else Some (run_put current (sf_diff_update (\<lambda>_. file_unchanged))
                                        (notify (fe_updated f True None) r), ret) }
                  | file_deleted \<Rightarrow>
                      do { link_delete \<leftarrow> d_link_delete drv;
                           let (res, r) = call (link_delete full_remote) (notify (fe_updating f) r);
                           if res \<noteq> SITE_OK
                           then Some (notify (fe_updated f False (driver_err drv r)) r, 1)
                           else do { r \<leftarrow> on_site (file_delete current)
                                            (notify (fe_updated f True None) r);
                                     Some (r, ret) } }
                  | _ \<Rightarrow> Some (r, ret) } })"

definition forwards :: "'w body \<Rightarrow> 'w run \<Rightarrow> ('w run \<times> int) option" where
  "forwards body r = for_each body (map fst (s_files (r_site r))) (r, 0)"

definition backwards :: "'w body \<Rightarrow> 'w run \<Rightarrow> ('w run \<times> int) option" where
  "backwards body r = for_each body (rev (map fst (s_files (r_site r)))) (r, 0)"

definition update_create_directories where
  "update_create_directories drv os = forwards (create_directories_body drv os)"

definition update_delete_files where
  "update_delete_files drv os = forwards (delete_files_body drv os)"

definition update_move_files where
  "update_move_files drv os = forwards (move_files_body drv os)"

definition update_files where
  "update_files drv os = forwards (update_files_body drv os)"

definition update_links where
  "update_links drv = forwards (links_body drv)"

definition update_delete_directories where
  "update_delete_directories drv os = backwards (delete_directories_body drv os)"

text \<open>The table of \<^verbatim>\<open>site_update\<close>: the handlers with their guards, in the order they run.\<close>

definition handlers ::
    "'w proto_driver \<Rightarrow> 'w os \<Rightarrow> site \<Rightarrow> (('w run \<Rightarrow> ('w run \<times> int) option) \<times> bool) list" where
  "handlers drv os site =
     [(update_delete_files drv os, \<not> s_nodelete site),
      (update_create_directories drv os, True),
      (update_move_files drv os, s_checkmoved site),
      (update_files drv os, True),
      (update_links drv, s_symlinks site = sitesym_maintain),
      (update_delete_directories drv os, \<not> s_nodelete site)]"

fun run_handlers ::
    "bool \<Rightarrow> (('w run \<Rightarrow> ('w run \<times> int) option) \<times> bool) list \<Rightarrow> 'w run \<Rightarrow> int
     \<Rightarrow> ('w run \<times> int) option" where
  "run_handlers keep_going [] r ret = Some (r, ret)"
| "run_handlers keep_going ((func, guard) # rest) r ret =
     (if ret = 0 \<or> keep_going
      then if guard
           then do { (r, newret) \<leftarrow> func r;
                     run_handlers keep_going rest r (if newret \<noteq> 0 then newret else ret) }
           else run_handlers keep_going rest r ret
      else Some (r, ret))"

definition site_update :: "'w proto_driver \<Rightarrow> 'w os \<Rightarrow> 'w run \<Rightarrow> ('w run \<times> int) option" where
  "site_update drv os r =
     (let table = handlers drv os (r_site r);
          (ret, r) = proto_init drv r
      in if ret \<noteq> SITE_OK then Some (proto_finish drv r, ret)
         else do { (r, ret) \<leftarrow> run_handlers (s_keep_going (r_site r)) table r 0;
                   Some (proto_finish drv r, if ret = 0 then SITE_OK else SITE_ERRORS) })"

end
