(* ===== verification/Site_Update_Inv.thy ===== *)
theory Site_Update_Inv
  imports Site_Update
begin

text \<open>
  Correctness of update mode: no handler dereferences NULL on a site that is ready for an
  update, each keeps the invariant of the files list, a file is only ever settled (made
  unchanged, or removed), and the loops of the handlers are sweeps, so that an update which
  returns \<^verbatim>\<open>SITE_OK\<close> leaves nothing to do.
\<close>

section \<open>Sites that are ready\<close>

definition names_ok :: "site_file \<Rightarrow> bool" where
  "names_ok f \<longleftrightarrow> (sf_diff f = file_changed \<longrightarrow> fs_filename (sf_local f) = fs_filename (sf_stored f))"

definition ready :: "site \<Rightarrow> bool" where
  "ready s \<longleftrightarrow> site_inv s \<and> s_remote_root s \<noteq> None \<and> s_local_root s \<noteq> None
     \<and> (\<forall>a f. get_file a s = Some f \<longrightarrow> names_ok f)"

definition same_kind :: "site_file \<Rightarrow> site_file \<Rightarrow> bool" where
  "same_kind f g \<longleftrightarrow> sf_type g = sf_type f \<and> sf_ignore g = sf_ignore f \<and> sf_local g = sf_local f
     \<and> (sf_diff g = file_unchanged \<or> sf_diff g = sf_diff f)"

text \<open>The local states are kept: files that exist locally stay in the list, and every file of the
  list has the local state that it had.\<close>

definition local_kept :: "site \<Rightarrow> site \<Rightarrow> bool" where
  "local_kept s t \<longleftrightarrow>
     (\<forall>a f. get_file a s = Some f \<longrightarrow> fs_exists (sf_local f) \<longrightarrow> get_file a t \<noteq> None)
     \<and> (\<forall>a g. get_file a t = Some g \<longrightarrow> (\<exists>f. get_file a s = Some f \<and> sf_local g = sf_local f))"

text \<open>What a step at \<open>a\<close> may do: the site stays ready, only the file at \<open>a\<close> changes, and it is
  removed, which only happens to a file that does not exist locally, unchanged, or differs in the
  same way as before.\<close>

definition progress :: "addr \<Rightarrow> site \<Rightarrow> site \<Rightarrow> bool" where
  "progress a s t \<longleftrightarrow> ready t \<and> frame a s t
     \<and> (\<forall>f. get_file a s = Some f \<longrightarrow> get_file a t = None \<longrightarrow> \<not> fs_exists (sf_local f))
     \<and> (\<forall>f g. get_file a s = Some f \<longrightarrow> get_file a t = Some g \<longrightarrow> same_kind f g)"

lemma local_kept_refl: "local_kept s s"
  by (simp add: local_kept_def)

lemma local_kept_progress:
  assumes k: "local_kept s0 s" and p: "progress a s t" and l: "get_file a s \<noteq> None"
  shows "local_kept s0 t"
  unfolding local_kept_def
proof (intro conjI allI impI)
  have fr: "get_file b t = get_file b s" if "b \<noteq> a" for b
    using that p by (simp add: progress_def frame_def)
  show "get_file b t \<noteq> None" if f: "get_file b s0 = Some f" "fs_exists (sf_local f)" for b f
  proof -
    have "get_file b s \<noteq> None" using k f by (simp add: local_kept_def)
    then obtain g where g: "get_file b s = Some g" by blast
    then have "sf_local g = sf_local f" using k f(1) unfolding local_kept_def by fastforce
    then show ?thesis using g f(2) p fr by (cases "b = a") (auto simp: progress_def)
  qed
  show "\<exists>f. get_file b s0 = Some f \<and> sf_local g = sf_local f" if g: "get_file b t = Some g" for b g
  proof -
    obtain f where f: "get_file b s = Some f" "sf_local g = sf_local f"
    proof (cases "b = a")
      case True
      then obtain f where "get_file b s = Some f" using l by blast
      moreover from this have "same_kind f g" using p g True unfolding progress_def by blast
      ultimately show thesis by (intro that) (simp_all add: same_kind_def)
    next
      case False
      then show thesis using that [of g] fr g by simp
    qed
    then obtain h where "get_file b s0 = Some h" "sf_local f = sf_local h"
      using k unfolding local_kept_def by blast
    then show ?thesis using f(2) by simp
  qed
qed

lemma progress_refl: "ready s \<Longrightarrow> progress a s s"
  by (simp add: progress_def same_kind_def)

lemma ready_opts:
  assumes "ready s" "opts t = opts s" "site_inv t"
    "\<And>b f. get_file b t = Some f \<Longrightarrow> names_ok f"
  shows "ready t"
  using assms opts_fields(8,9) [OF assms(2)] by (simp add: ready_def)

lemma ready_file:
  assumes "ready s" "get_file a s = Some f"
  shows "site_inv s" "file_ok s f" "wf_file f" "names_ok f"
  using assms site_inv_get by (auto simp: ready_def file_ok_def)

lemma progressI:
  assumes r: "ready s" and inv: "site_inv t" and fr: "frame a s t"
    and a: "get_file a t = None \<and> (\<forall>f. get_file a s = Some f \<longrightarrow> \<not> fs_exists (sf_local f))
      \<or> (\<exists>f g. get_file a s = Some f \<and> get_file a t = Some g \<and> same_kind f g \<and> names_ok g)"
  shows "progress a s t"
proof -
  have "names_ok g" if "get_file b t = Some g" for b g
    using that a fr r by (cases "b = a") (auto simp: frame_def ready_def)
  then have "ready t" using r fr inv by (auto intro: ready_opts simp: frame_def)
  with fr a show ?thesis by (auto simp: progress_def)
qed

text \<open>The part of \<open>ready\<close> that holds between the steps of one upload.\<close>

definition rooted :: "site \<Rightarrow> bool" where
  "rooted s \<longleftrightarrow> site_inv s \<and> s_remote_root s \<noteq> None \<and> s_local_root s \<noteq> None"

lemma ready_rooted: "ready s \<Longrightarrow> rooted s"
  by (simp add: ready_def rooted_def)

lemma rooted_opts:
  assumes "rooted s" "opts t = opts s" "site_inv t"
  shows "rooted t"
  using assms opts_fields(8,9) [OF assms(2)] by (simp add: rooted_def)

lemma rooted_full_names:
  assumes "rooted s" "get_file a s = Some f"
  shows "fs_exists (sf_local f) \<Longrightarrow> \<exists>p. file_full_remote (sf_local f) s = Some p"
    "fs_exists (sf_local f) \<Longrightarrow> \<exists>p. file_full_local (sf_local f) s = Some p"
    "fs_exists (sf_stored f) \<Longrightarrow> \<exists>p. file_full_remote (sf_stored f) s = Some p"
    "fs_exists (sf_stored f) \<Longrightarrow> \<exists>p. file_full_local (sf_stored f) s = Some p"
  using assms site_inv_get [of s a f]
  by (auto simp: rooted_def file_ok_def wf_file_def wf_state_def file_full_remote_def
      file_full_local_def)

lemma full_names:
  assumes "ready s" "get_file a s = Some f"
  shows "fs_exists (sf_local f) \<Longrightarrow> \<exists>p. file_full_remote (sf_local f) s = Some p"
    "fs_exists (sf_local f) \<Longrightarrow> \<exists>p. file_full_local (sf_local f) s = Some p"
    "fs_exists (sf_stored f) \<Longrightarrow> \<exists>p. file_full_remote (sf_stored f) s = Some p"
    "fs_exists (sf_stored f) \<Longrightarrow> \<exists>p. file_full_local (sf_stored f) s = Some p"
  using rooted_full_names [OF ready_rooted [OF assms(1)] assms(2)] by blast+

lemma uploaded_progress:
  assumes r: "ready s" and f: "get_file a s = Some f"
    and ex: "fs_exists (sf_local f)" and ty: "sf_type f \<noteq> file_link"
  shows "\<exists>t g. file_uploaded a s = Some t \<and> progress a s t
    \<and> get_file a t = Some g \<and> sf_diff g = file_unchanged"
proof -
  obtain t where t: "file_uploaded a s = Some t" "site_inv t" "opts t = opts s"
    and g: "\<And>b. get_file b t = (if b = a then Some (f\<lparr>sf_stored :=
          transfer_state (sf_local f) (sf_stored f) s, sf_diff := file_unchanged\<rparr>)
        else get_file b s)"
    using file_uploaded_result [OF ready_file(1) [OF r f] f ex ty] by blast
  have "progress a s t"
    by (rule progressI [OF r t(2)]) (use t(3) g f in \<open>auto simp: frame_def same_kind_def names_ok_def\<close>)
  then show ?thesis using t g by auto
qed

lemma delete_progress:
  assumes r: "ready s" and f: "get_file a s = Some f" and d: "sf_diff f = file_deleted"
  shows "\<exists>t. file_delete a s = Some t \<and> progress a s t \<and> get_file a t = None"
proof -
  have "\<not> fs_exists (sf_local f)" using file_ok_diff(2) [OF ready_file(2) [OF r f]] d by simp
  then show ?thesis
    using file_delete_step [OF ready_file(1) [OF r f] f] progressI [OF r] f by fastforce
qed

lemma on_site_Some [simp]: "g (r_site r) = Some t \<Longrightarrow> on_site g r = Some (r\<lparr>r_site := t\<rparr>)"
  by (simp add: on_site_def)

section \<open>The handlers that delete, create and move\<close>

definition agrees :: "'w os \<Rightarrow> bool" where
  "agrees os \<longleftrightarrow> (\<forall>f w. fst (o_can_update os f w))"

text \<open>\<open>handles os Q a st st'\<close>: a body at \<open>a\<close> made progress, kept an error, and if there is none
  and the user agrees, then the file satisfies \<open>Q\<close> (or is gone).\<close>

definition handles ::
    "'w os \<Rightarrow> (site_file \<Rightarrow> bool) \<Rightarrow> addr \<Rightarrow> 'w run \<times> int \<Rightarrow> 'w run \<times> int \<Rightarrow> bool" where
  "handles os Q a st st' \<longleftrightarrow>
     progress a (r_site (fst st)) (r_site (fst st')) \<and> (snd st' = 0 \<longrightarrow> snd st = 0)
     \<and> (snd st' = 0 \<longrightarrow> agrees os \<longrightarrow> (\<forall>f. run_file a (fst st') = Some f \<longrightarrow> Q f))"

lemma fst_call_agrees: "agrees os \<Longrightarrow> fst (call (o_can_update os f) r)"
  by (simp add: agrees_def call_def case_prod_beta' Let_def)

lemma delete_files_handles:
  assumes r: "ready (r_site r)" and f: "run_file a r = Some f"
  shows "\<exists>st'. delete_files_body drv os a (r, ret) = Some st'
    \<and> handles os (\<lambda>f. \<not> (sf_type f = file_file \<and> sf_diff f = file_deleted)) a (r, ret) st'"
proof (cases "sf_diff f = file_deleted \<and> sf_type f = file_file")
  case True
  have "fs_exists (sf_stored f)"
    using True file_ok_diff(2) [OF ready_file(2) [OF r f]] ready_file(3) [OF r f]
    by (auto simp: wf_file_def)
  then obtain p where p: "file_full_remote (sf_stored f) (r_site r) = Some p"
    using full_names(3) [OF r f] by blast
  obtain t where t: "file_delete a (r_site r) = Some t" "progress a (r_site r) t" "get_file a t = None"
    using delete_progress [OF r f] True by blast
  show ?thesis
    using True f p t progress_refl [OF r] fst_call_agrees [of os f r]
    by (auto simp: delete_files_body_def handles_def Let_def case_prod_beta')
next
  case False
  then show ?thesis using f progress_refl [OF r] by (auto simp: delete_files_body_def handles_def)
qed

lemma delete_directories_handles:
  assumes r: "ready (r_site r)" and f: "run_file a r = Some f"
  shows "\<exists>st'. delete_directories_body drv os a (r, ret) = Some st'
    \<and> handles os (\<lambda>f. \<not> (sf_type f = file_dir \<and> sf_diff f = file_deleted)) a (r, ret) st'"
proof (cases "sf_type f = file_dir \<and> sf_diff f = file_deleted")
  case True
  have "fs_exists (sf_stored f)"
    using True file_ok_diff(2) [OF ready_file(2) [OF r f]] ready_file(3) [OF r f]
    by (auto simp: wf_file_def)
  then obtain p where p: "file_full_remote (sf_stored f) (r_site r) = Some p"
    using full_names(3) [OF r f] by blast
  obtain t where t: "file_delete a (r_site r) = Some t" "progress a (r_site r) t" "get_file a t = None"
    using delete_progress [OF r f] True by blast
  show ?thesis
    using True f p t progress_refl [OF r] fst_call_agrees [of os f r]
    by (auto simp: delete_directories_body_def handles_def Let_def case_prod_beta')
next
  case False
  then show ?thesis
    using f progress_refl [OF r] by (auto simp: delete_directories_body_def handles_def)
qed

lemma move_files_handles:
  assumes r: "ready (r_site r)" and f: "run_file a r = Some f"
  shows "\<exists>st'. move_files_body drv os a (r, ret) = Some st'
    \<and> handles os (\<lambda>f. sf_diff f \<noteq> file_moved) a (r, ret) st'"
proof (cases "sf_diff f = file_moved")
  case True
  have ok: "file_ok (r_site r) f" by (rule ready_file(2) [OF r f])
  then have ex: "fs_exists (sf_local f)" "fs_exists (sf_stored f)" "sf_type f \<noteq> file_link"
    using True file_compare_moved [of "sf_type f" "sf_local f" "sf_stored f"]
    by (auto simp: file_ok_def)
  then obtain p q where p: "file_full_remote (sf_local f) (r_site r) = Some p"
      "file_full_remote (sf_stored f) (r_site r) = Some q"
    using full_names(1,3) [OF r f] by blast
  obtain t g where t: "file_uploaded a (r_site r) = Some t" "progress a (r_site r) t"
      "get_file a t = Some g" "sf_diff g = file_unchanged"
    using uploaded_progress [OF r f ex(1,3)] by blast
  show ?thesis
    using True f p t progress_refl [OF r] fst_call_agrees [of os f r]
    by (auto simp: move_files_body_def handles_def Let_def case_prod_beta')
next
  case False
  then show ?thesis using f progress_refl [OF r] by (auto simp: move_files_body_def handles_def)
qed

lemma create_directories_handles:
  assumes r: "ready (r_site r)" and f: "run_file a r = Some f"
  shows "\<exists>st'. create_directories_body drv os a (r, ret) = Some st'
    \<and> handles os (\<lambda>f. \<not> (sf_type f = file_dir \<and> (sf_diff f = file_new \<or> sf_diff f = file_changed)))
        a (r, ret) st'"
proof (cases "sf_type f = file_dir \<and> (sf_diff f = file_new \<or> sf_diff f = file_changed)")
  case True
  have ok: "file_ok (r_site r) f" by (rule ready_file(2) [OF r f])
  have ex: "fs_exists (sf_local f)" "sf_type f \<noteq> file_link"
    using True file_ok_diff(2) [OF ok] by auto
  then obtain p where p: "file_full_remote (sf_local f) (r_site r) = Some p"
    using full_names(1) [OF r f] by blast
  obtain t g where t: "file_uploaded a (r_site r) = Some t" "progress a (r_site r) t"
      "get_file a t = Some g" "sf_diff g = file_unchanged"
    using uploaded_progress [OF r f ex] by blast
  show ?thesis
    using True f p t progress_refl [OF r] fst_call_agrees [of os f r]
    by (auto simp: create_directories_body_def handles_def Let_def case_prod_beta')
next
  case False
  then show ?thesis
    using f progress_refl [OF r] by (auto simp: create_directories_body_def handles_def)
qed

section \<open>The handler that uploads\<close>

text \<open>\<open>keeps_local a r r'\<close>: a step inside an upload at \<open>a\<close> leaves the local state alone.\<close>

definition keeps_local :: "addr \<Rightarrow> site_file \<Rightarrow> site \<Rightarrow> site \<Rightarrow> bool" where
  "keeps_local a f s t \<longleftrightarrow> rooted t \<and> frame a s t
     \<and> (\<exists>g. get_file a t = Some g \<and> sf_local g = sf_local f \<and> sf_type g = sf_type f
          \<and> sf_ignore g = sf_ignore f)"

lemma file_chmod_result:
  assumes r: "rooted (r_site r)" and f: "run_file a r = Some f" and ex: "fs_exists (sf_local f)"
  shows "\<exists>ret r'. file_chmod drv a r = Some (ret, r') \<and> keeps_local a f (r_site r) (r_site r')
    \<and> (ret \<noteq> 0 \<longrightarrow> r_site r' = r_site r)
    \<and> (ret = 0 \<longrightarrow> file_perms_changed f (r_site r) \<longrightarrow>
        (\<exists>d. run_file a r' = Some (f\<lparr>sf_stored := (sf_stored f)\<lparr>fs_mode := fs_mode (sf_local f)\<rparr>,
               sf_diff := d\<rparr>)
          \<and> file_compare (sf_type f) (sf_local f)
              ((sf_stored f)\<lparr>fs_mode := fs_mode (sf_local f)\<rparr>) (r_site r) = Some d))
    \<and> (\<not> file_perms_changed f (r_site r) \<longrightarrow> r_site r' = r_site r)"
proof -
  have inv: "site_inv (r_site r)" using r by (simp add: rooted_def)
  have wf: "wf_file f" using site_inv_get [OF inv f] by (simp add: file_ok_def)
  let ?st = "(sf_stored f)\<lparr>fs_mode := fs_mode (sf_local f)\<rparr>"
  have wf': "wf_file (f\<lparr>sf_stored := ?st\<rparr>)" using wf by (auto simp: wf_file_def wf_state_def)
  obtain t d where t: "file_set_diff a (put_file a (\<lambda>f. f\<lparr>sf_stored := ?st\<rparr>) (r_site r)) = Some t"
      "site_inv t" "frame a (r_site r) t" "get_file a t = Some (f\<lparr>sf_stored := ?st, sf_diff := d\<rparr>)"
      "file_compare (sf_type f) (sf_local f) ?st (r_site r) = Some d"
    using stored_set_result [OF inv f wf'] by blast
  have p: "put_file a (\<lambda>f. f\<lparr>sf_stored := (sf_stored f)\<lparr>fs_mode := fs_mode (sf_local f)\<rparr>\<rparr>) (r_site r)
      = put_file a (\<lambda>f. f\<lparr>sf_stored := ?st\<rparr>) (r_site r)"
    by (subst (1 2) put_file_const [OF site_invD(4) [OF inv] f]) simp
  have "rooted t" using r t(2,3) by (auto intro: rooted_opts simp: frame_def)
  moreover obtain q where "file_full_remote (sf_local f) (r_site r) = Some q"
    using rooted_full_names(1) [OF r f ex] by blast
  ultimately show ?thesis
    using f t r by (auto simp: file_chmod_def Let_def case_prod_beta' run_put_def p on_site_def
        keeps_local_def)
qed

lemma put_server_keeps:
  assumes r: "rooted s" and f: "get_file a s = Some f"
  shows "keeps_local a f s (put_file a (\<lambda>_. f\<lparr>sf_server := x\<rparr>) s)"
proof -
  have "site_inv (put_file a (\<lambda>_. f\<lparr>sf_server := x\<rparr>) s)"
    using put_server_inv [of s a f x] r f by (simp add: rooted_def)
  then have "rooted (put_file a (\<lambda>_. f\<lparr>sf_server := x\<rparr>) s)"
    by (intro rooted_opts [OF r]) (simp_all add: frame_simps)
  then show ?thesis using f by (simp add: keeps_local_def frame_def frame_simps)
qed

lemma file_retrieve_server_result:
  assumes r: "rooted (r_site r)" and f: "run_file a r = Some f" and ex: "fs_exists (sf_local f)"
  shows "\<exists>r'. file_retrieve_server drv a r = Some r' \<and> keeps_local a f (r_site r) (r_site r')"
proof -
  have d: "distinct (map fst (s_files (r_site r)))"
    using r site_invD(4) by (simp add: rooted_def)
  obtain q where q: "file_full_remote (sf_local f) (r_site r) = Some q"
    using rooted_full_names(1) [OF r f ex] by blast
  have p: "put_file a g (r_site r) = put_file a (\<lambda>_. g f) (r_site r)" for g
    by (rule put_file_const [OF d f])
  have k: "keeps_local a f (r_site r) (put_file a g (r_site r))"
    if "g f = f\<lparr>sf_server := x\<rparr>" for g x
    using put_server_keeps [OF r f, of x] that by (simp add: p [of g])
  show ?thesis using q f
    by (auto simp: file_retrieve_server_def Let_def case_prod_beta' run_put_def intro!: k)
qed

lemma keeps_local_trans:
  assumes "keeps_local a f s t" "keeps_local a g t u" "get_file a t = Some g"
  shows "keeps_local a f s u"
  using assms by (auto simp: keeps_local_def frame_def)

lemma upload_done_handles:
  assumes r: "rooted (r_site r)" and f: "run_file a r = Some f" and ex: "fs_exists (sf_local f)"
    and ty: "sf_type f \<noteq> file_link"
  shows "\<exists>r' ret'. upload_done drv retrieve h a (r, ret) = Some (r', ret')
    \<and> keeps_local a f (r_site r) (r_site r') \<and> (ret' = 0 \<longrightarrow> ret = 0)
    \<and> (\<exists>g. run_file a r' = Some g \<and> sf_diff g = file_unchanged)"
proof -
  let ?r0 = "notify (fe_updated h True None) r"
  obtain r1 where r1: "(if retrieve then file_retrieve_server drv a ?r0 else Some ?r0) = Some r1"
      "keeps_local a f (r_site r) (r_site r1)"
    using file_retrieve_server_result [of ?r0 a f drv] r f ex
    by (cases retrieve) (auto simp: keeps_local_def)
  then obtain f1 where f1: "rooted (r_site r1)" "run_file a r1 = Some f1" "sf_local f1 = sf_local f"
      "sf_type f1 = sf_type f" "sf_ignore f1 = sf_ignore f"
    by (auto simp: keeps_local_def)
  obtain cret r2 where r2: "file_chmod drv a r1 = Some (cret, r2)"
      "keeps_local a f1 (r_site r1) (r_site r2)"
    using file_chmod_result [OF f1(1,2), of drv] f1(3) ex by auto
  then obtain f2 where f2: "rooted (r_site r2)" "run_file a r2 = Some f2" "sf_local f2 = sf_local f1"
      "sf_type f2 = sf_type f1" "sf_ignore f2 = sf_ignore f1"
    by (auto simp: keeps_local_def)
  have k2: "keeps_local a f (r_site r) (r_site r2)"
    by (rule keeps_local_trans [OF r1(2) r2(2) f1(2)])
  obtain t where t: "file_uploaded a (r_site r2) = Some t" "site_inv t" "opts t = opts (r_site r2)"
      "\<forall>b. get_file b t = (if b = a then Some (f2\<lparr>sf_stored :=
          transfer_state (sf_local f2) (sf_stored f2) (r_site r2), sf_diff := file_unchanged\<rparr>)
        else get_file b (r_site r2))"
    using file_uploaded_result [of "r_site r2" a f2] f2 f1 ex ty by (auto simp: rooted_def)
  have "rooted t" by (rule rooted_opts [OF f2(1) t(3,2)])
  then have "keeps_local a f (r_site r) t"
    using k2 t f2 f1 by (auto simp: keeps_local_def frame_def)
  moreover have "upload_done drv retrieve h a (r, ret)
      = Some (r2\<lparr>r_site := t\<rparr>, if cret \<noteq> 0 then 1 else ret)"
    using r1(1) r2(1) t(1) by (simp add: upload_done_def Let_def)
  ultimately show ?thesis using t(4) by auto
qed

lemma keeps_progress:
  assumes r: "ready s" and k: "keeps_local a f s t" and f: "get_file a s = Some f"
    and g: "get_file a t = Some g" "sf_diff g = file_unchanged"
  shows "progress a s t"
  by (rule progressI [OF r]) (use k f g in \<open>auto simp: keeps_local_def rooted_def same_kind_def names_ok_def\<close>)

lemma upload_body_handles:
  assumes r: "ready (r_site r)" and f: "run_file a r = Some f" and ex: "fs_exists (sf_local f)"
    and ty: "sf_type f \<noteq> file_link"
  shows "\<exists>st'. upload_body drv l p f a (r, ret) = Some st'
    \<and> handles os (\<lambda>f. sf_diff f = file_unchanged) a (r, ret) st'"
proof -
  define good where "good X \<longleftrightarrow> (\<exists>st'. X = Some st'
      \<and> handles os (\<lambda>f. sf_diff f = file_unchanged) a (r, ret) st')" for X
  have fin: "good (upload_done drv retrieve f a (r', ret))"
    if "r_site r' = r_site r" for r' retrieve
    unfolding good_def
    using upload_done_handles [of r' a f drv retrieve f ret] ready_rooted [OF r] f ex ty that
      keeps_progress [OF r _ f]
    by (fastforce simp: handles_def)
  have fail: "good (Some (r', 1))" if "r_site r' = r_site r" for r'
    using progress_refl [OF r] that by (simp add: handles_def good_def)
  have split: "good (if c then X else Y)" if "good X" "good Y" for c X Y
    using that by simp
  have "good (upload_body drv l p f a (r, ret))"
    unfolding upload_body_def Let_def case_prod_beta' fst_conv snd_conv
    by (intro split fin fail) simp_all
  then show ?thesis by (simp add: good_def)
qed

lemma mode_exec_or: "mode_exec (or a b) \<longleftrightarrow> mode_exec a \<or> mode_exec b"
  by (simp add: mode_exec_def bit.conj_disj_distrib2 or_eq_0_iff)

lemma chmod_only:
  assumes ok: "file_ok s f" and f: "sf_diff f = file_changed" "sf_type f = file_file" "names_ok f"
    and c: "\<not> file_contents_changed f s"
  shows "file_perms_changed f s"
    and "file_compare (sf_type f) (sf_local f) ((sf_stored f)\<lparr>fs_mode := fs_mode (sf_local f)\<rparr>) s
      = Some file_unchanged"
proof -
  have ex: "fs_exists (sf_local f)" "fs_exists (sf_stored f)"
    using file_ok_diff(1,2) [OF ok] f(1) by auto
  have cmp: "file_compare file_file (sf_local f) (sf_stored f) s = Some file_changed"
    using ok f by (simp add: file_ok_def)
  have same: "fs_filename (sf_local f) = fs_filename (sf_stored f)"
      "fs_filename (sf_stored f) \<noteq> None"
    using f ok ex by (auto simp: names_ok_def file_ok_def wf_file_def wf_state_def)
  show "file_perms_changed f s"
    using cmp c ex same by (auto simp: file_compare_def file_contents_changed_def
        file_perms_changed_def mode_exec_or split: if_splits state_method.splits)
  show "file_compare (sf_type f) (sf_local f) ((sf_stored f)\<lparr>fs_mode := fs_mode (sf_local f)\<rparr>) s
      = Some file_unchanged"
    using c ex same f(2) by (auto simp: file_compare_def file_contents_changed_def
        split: if_splits state_method.splits)
qed

lemma put_back:
  assumes "get_file a s = Some f" "distinct (map fst (s_files s))"
  shows "put_file a (sf_diff_update (\<lambda>_. sf_diff f)) (put_file a (sf_diff_update (\<lambda>_. d)) s) = s"
proof -
  have "put_file a (sf_diff_update (\<lambda>_. sf_diff f)) (put_file a (sf_diff_update (\<lambda>_. d)) s)
      = put_file a (\<lambda>_. f) s"
    unfolding put_file_put_file by (subst put_file_const [OF assms(2,1)]) simp
  then show ?thesis using map_of_ident [OF assms(1)] by simp
qed

definition wants_upload :: "site_file \<Rightarrow> bool" where
  "wants_upload f \<longleftrightarrow> sf_type f = file_file
     \<and> (sf_diff f = file_new \<or> (sf_diff f = file_changed \<and> \<not> sf_ignore f))"

lemma update_files_handles:
  assumes r: "ready (r_site r)" and f: "run_file a r = Some f"
  shows "\<exists>st'. update_files_body drv os a (r, ret) = Some st'
    \<and> handles os (\<lambda>f. \<not> wants_upload f) a (r, ret) st'"
proof -
  define good where "good X \<longleftrightarrow> (\<exists>st'. X = Some st'
      \<and> handles os (\<lambda>f. \<not> wants_upload f) a (r, ret) st')" for X
  have ok: "file_ok (r_site r) f" "names_ok f" and d: "distinct (map fst (s_files (r_site r)))"
    using ready_file [OF r f] site_invD(4) by auto
  have stay: "good (Some (r', ret))"
    if "r_site r' = r_site r" "\<not> wants_upload f \<or> \<not> agrees os" for r'
    using that progress_refl [OF r] f by (auto simp: good_def handles_def)
  have fail: "good (Some (r', 1))" if "r_site r' = r_site r" for r'
    using progress_refl [OF r] that by (simp add: handles_def good_def)
  have split: "good (if c then X else Y)" if "c \<Longrightarrow> good X" "\<not> c \<Longrightarrow> good Y" for c X Y
    using that by simp
  show ?thesis
  proof (cases "sf_type f \<noteq> file_file \<or> sf_diff f = file_deleted \<or> sf_diff f = file_moved
      \<or> sf_diff f = file_unchanged")
    case True
    then have "update_files_body drv os a (r, ret) = Some (r, ret)" "\<not> wants_upload f"
      using f by (auto simp: update_files_body_def wants_upload_def)
    then show ?thesis using stay [of r] by (auto simp: good_def)
  next
    case act: False
    then have ex: "fs_exists (sf_local f)" "sf_type f \<noteq> file_link"
      using file_ok_diff(2) [OF ok(1)] by auto
    obtain l p where names: "file_full_local (sf_local f) (r_site r) = Some l"
        "file_full_remote (sf_local f) (r_site r) = Some p"
      using full_names(1,2) [OF r f ex(1)] by blast
    have up: "good (upload_body drv l p f a (r', ret))" if "r_site r' = r_site r" for r'
      using upload_body_handles [of r' a f drv l p ret os] r f ex that
      by (auto simp: good_def handles_def wants_upload_def)
    have undo: "r_site (run_put a (sf_diff_update (\<lambda>_. file_changed)) r') = r_site r"
      if "r_site r' = put_file a (sf_diff_update (\<lambda>_. file_deleted)) (r_site r)"
        "sf_diff f = file_changed" for r'
      using put_back [OF f d, of file_deleted] that by (simp add: run_put_def)
    have chm: "good (do { x \<leftarrow> file_chmod drv a r; Some (snd x, if fst x \<noteq> 0 then 1 else ret) })"
      if c: "sf_diff f = file_changed" "\<not> file_contents_changed f (r_site r)"
    proof -
      have ty: "sf_type f = file_file" using act by simp
      note only = chmod_only [OF ok(1) c(1) ty ok(2) c(2)]
      obtain cret r' where r': "file_chmod drv a r = Some (cret, r')"
          "keeps_local a f (r_site r) (r_site r')" "cret \<noteq> 0 \<longrightarrow> r_site r' = r_site r"
          "cret = 0 \<longrightarrow> run_file a r' = Some (f\<lparr>sf_stored := (sf_stored f)\<lparr>fs_mode := fs_mode (sf_local f)\<rparr>,
             sf_diff := file_unchanged\<rparr>)"
        using file_chmod_result [OF ready_rooted [OF r] f ex(1), of drv] only by auto
      show ?thesis
        using r' fail [of r'] keeps_progress [OF r r'(2) f]
        by (cases "cret = 0") (auto simp: good_def handles_def wants_upload_def)
    qed
    have "good (update_files_body drv os a (r, ret))"
      unfolding update_files_body_def Let_def case_prod_beta' fst_conv snd_conv f names
        Option.bind.simps(2) if_not_P [OF act]
      by (intro split stay fail up undo chm)
        (use act fst_call_agrees in \<open>auto simp: run_put_def wants_upload_def\<close>)
    then show ?thesis by (simp add: good_def)
  qed
qed

section \<open>The handlers as sweeps\<close>

datatype stage = delete_stage | create_stage | move_stage | upload_stage | remove_stage

text \<open>What each handler leaves nothing of.\<close>

fun stage_ok :: "stage \<Rightarrow> site_file \<Rightarrow> bool" where
  "stage_ok delete_stage f \<longleftrightarrow> \<not> (sf_type f = file_file \<and> sf_diff f = file_deleted)"
| "stage_ok create_stage f \<longleftrightarrow>
     \<not> (sf_type f = file_dir \<and> (sf_diff f = file_new \<or> sf_diff f = file_changed))"
| "stage_ok move_stage f \<longleftrightarrow> sf_diff f \<noteq> file_moved"
| "stage_ok upload_stage f \<longleftrightarrow> \<not> wants_upload f"
| "stage_ok remove_stage f \<longleftrightarrow> \<not> (sf_type f = file_dir \<and> sf_diff f = file_deleted)"

lemma stage_ok_fun:
  "stage_ok delete_stage = (\<lambda>f. \<not> (sf_type f = file_file \<and> sf_diff f = file_deleted))"
  "stage_ok create_stage =
     (\<lambda>f. \<not> (sf_type f = file_dir \<and> (sf_diff f = file_new \<or> sf_diff f = file_changed)))"
  "stage_ok move_stage = (\<lambda>f. sf_diff f \<noteq> file_moved)"
  "stage_ok upload_stage = (\<lambda>f. \<not> wants_upload f)"
  "stage_ok remove_stage = (\<lambda>f. \<not> (sf_type f = file_dir \<and> sf_diff f = file_deleted))"
  by (simp_all add: fun_eq_iff)

lemma stage_ok_stable: "stage_ok k f \<Longrightarrow> same_kind f g \<Longrightarrow> stage_ok k g"
  by (cases k) (auto simp: same_kind_def wants_upload_def)

definition started :: "site \<Rightarrow> stage set \<Rightarrow> 'w run \<Rightarrow> bool" where
  "started s0 K r \<longleftrightarrow> ready (r_site r) \<and> opts (r_site r) = opts s0 \<and> local_kept s0 (r_site r)
     \<and> (\<forall>a f. run_file a r = Some f \<longrightarrow> (\<forall>k\<in>K. stage_ok k f))"

definition live_run :: "addr \<Rightarrow> 'w run \<times> int \<Rightarrow> bool" where
  "live_run a st \<longleftrightarrow> run_file a (fst st) \<noteq> None"

text \<open>A file is settled for a stage once nothing is left to do or it is gone, unless there was
  an error.\<close>

definition settled_run :: "'w os \<Rightarrow> stage \<Rightarrow> addr \<Rightarrow> 'w run \<times> int \<Rightarrow> bool" where
  "settled_run os k a st \<longleftrightarrow> snd st = 0 \<longrightarrow> agrees os \<longrightarrow>
     (\<forall>f. run_file a (fst st) = Some f \<longrightarrow> stage_ok k f)"

lemma progress_started:
  assumes s: "started s0 K r" and p: "progress a (r_site r) (r_site r')" and l: "run_file a r \<noteq> None"
  shows "started s0 K r'"
proof -
  have "stage_ok k g" if g: "run_file b r' = Some g" and k: "k \<in> K" for b g k
  proof (cases "b = a")
    case True
    then obtain f where "run_file a r = Some f" "same_kind f g"
      using l p g by (auto simp: progress_def)
    moreover from this(1) have "stage_ok k f" using s k by (simp add: started_def)
    ultimately show ?thesis by (simp add: stage_ok_stable)
  next
    case False
    then show ?thesis using s g k p by (auto simp: started_def progress_def frame_def)
  qed
  moreover have "local_kept s0 (r_site r')"
    using local_kept_progress [OF _ p] s l by (simp add: started_def)
  ultimately show ?thesis using s p by (auto simp: started_def progress_def frame_def)
qed

lemma handler_sweep:
  fixes body :: "'w body"
  assumes h: "\<And>a r ret f. ready (r_site r) \<Longrightarrow> run_file a r = Some f \<Longrightarrow>
    \<exists>st'. body a (r, ret) = Some st' \<and> handles os (stage_ok k) a (r, ret) st'"
  shows "sweep body (\<lambda>st. started s0 K (fst st)) live_run (settled_run os k)"
proof
  fix st st' :: "'w run \<times> int" and a b :: addr
  assume s: "started s0 K (fst st)" and l: "live_run a st"
  obtain r ret where st: "st = (r, ret)" by (cases st)
  then obtain f where f: "run_file a r = Some f" using l by (auto simp: live_run_def)
  obtain t where t: "body a st = Some t" "handles os (stage_ok k) a st t"
    using h [OF _ f, of ret] s st by (auto simp: started_def)
  then have "started s0 K (fst t)"
    using progress_started [OF s] l by (auto simp: handles_def live_run_def)
  then show "\<exists>t. body a st = Some t \<and> started s0 K (fst t)" using t by blast
  assume b: "body a st = Some st'"
  then have hs: "handles os (stage_ok k) a st st'" using t by simp
  show "live_run b st'" if "live_run b st" "b \<noteq> a"
    using that hs by (auto simp: live_run_def handles_def progress_def frame_def)
  show "settled_run os k a st'"
    using hs by (auto simp: settled_run_def handles_def)
  show "settled_run os k b st'" if "settled_run os k b st" "b \<noteq> a"
    using that hs by (auto simp: settled_run_def handles_def progress_def frame_def)
qed

interpretation deletes: sweep "delete_files_body drv os" "\<lambda>st. started s0 K (fst st)" live_run
    "settled_run os delete_stage" for drv os s0 K
  by (rule handler_sweep) (unfold stage_ok_fun, rule delete_files_handles)

interpretation creates: sweep "create_directories_body drv os" "\<lambda>st. started s0 K (fst st)" live_run
    "settled_run os create_stage" for drv os s0 K
  by (rule handler_sweep) (unfold stage_ok_fun, rule create_directories_handles)

interpretation moves: sweep "move_files_body drv os" "\<lambda>st. started s0 K (fst st)" live_run
    "settled_run os move_stage" for drv os s0 K
  by (rule handler_sweep) (unfold stage_ok_fun, rule move_files_handles)

interpretation uploads: sweep "update_files_body drv os" "\<lambda>st. started s0 K (fst st)" live_run
    "settled_run os upload_stage" for drv os s0 K
  by (rule handler_sweep) (unfold stage_ok_fun, rule update_files_handles)

interpretation removes: sweep "delete_directories_body drv os" "\<lambda>st. started s0 K (fst st)" live_run
    "settled_run os remove_stage" for drv os s0 K
  by (rule handler_sweep) (unfold stage_ok_fun, rule delete_directories_handles)

section \<open>The handlers in sequence\<close>

definition clears :: "'w os \<Rightarrow> ('w run \<Rightarrow> ('w run \<times> int) option) \<Rightarrow> stage \<Rightarrow> bool" where
  "clears os func k \<longleftrightarrow> (\<forall>s0 K r. started s0 K r \<longrightarrow>
     (\<exists>r' ret. func r = Some (r', ret) \<and> started s0 K r'
        \<and> (ret = 0 \<longrightarrow> agrees os \<longrightarrow> started s0 (insert k K) r')))"

lemma loop_clears:
  fixes body :: "'w body"
  assumes runs: "\<And>s0 K st as. started s0 K (fst st) \<Longrightarrow> distinct as \<Longrightarrow> \<forall>a\<in>set as. live_run a st
      \<Longrightarrow> \<exists>t. for_each body as st = Some t \<and> started s0 K (fst t)"
    and settles: "\<And>s0 K st as t b. started s0 K (fst st) \<Longrightarrow> distinct as \<Longrightarrow> \<forall>a\<in>set as. live_run a st
      \<Longrightarrow> for_each body as st = Some t \<Longrightarrow> b \<in> set as \<or> settled_run os k b st \<Longrightarrow> settled_run os k b t"
    and func: "\<And>r. \<exists>as. func r = for_each body as (r, 0) \<and> distinct as = distinct (map fst (s_files (r_site r)))
      \<and> set as = set (map fst (s_files (r_site r)))"
  shows "clears os func k"
  unfolding clears_def
proof (intro allI impI)
  fix s0 K and r :: "'w run"
  assume s: "started s0 K r"
  obtain as where f: "func r = for_each body as (r, 0)"
    and d: "distinct as = distinct (map fst (s_files (r_site r)))"
    and as: "set as = set (map fst (s_files (r_site r)))" using func by blast
  have inv: "site_inv (r_site r)" using s by (simp add: started_def ready_def)
  note fl = files_live [OF inv]
  have l: "\<forall>a\<in>set as. live_run a (r, 0)" using fl(2) as by (simp add: live_run_def)
  obtain t where t: "for_each body as (r, 0) = Some t" "started s0 K (fst t)"
    using runs [of s0 K "(r, 0)" as] s d fl(1) l by auto
  have "settled_run os k b t" for b
    by (rule settles [of s0 K "(r, 0)" as t b, OF _ _ l t(1)])
      (use s d fl(1) as fl(3) [of b] in \<open>auto simp: settled_run_def\<close>)
  then show "\<exists>r' ret. func r = Some (r', ret) \<and> started s0 K r'
      \<and> (ret = 0 \<longrightarrow> agrees os \<longrightarrow> started s0 (insert k K) r')"
    using f t by (cases t) (auto simp: started_def settled_run_def)
qed

lemma forwards_loop: "\<exists>as. forwards body r = for_each body as (r, 0)
    \<and> distinct as = distinct (map fst (s_files (r_site r)))
    \<and> set as = set (map fst (s_files (r_site r)))"
  by (rule exI [of _ "map fst (s_files (r_site r))"]) (simp add: forwards_def)

lemma backwards_loop: "\<exists>as. backwards body r = for_each body as (r, 0)
    \<and> distinct as = distinct (map fst (s_files (r_site r)))
    \<and> set as = set (map fst (s_files (r_site r)))"
  by (rule exI [of _ "rev (map fst (s_files (r_site r)))"]) (simp add: backwards_def)

lemma handlers_clear:
  "clears os (update_delete_files drv os) delete_stage"
  "clears os (update_create_directories drv os) create_stage"
  "clears os (update_move_files drv os) move_stage"
  "clears os (update_files drv os) upload_stage"
  "clears os (update_delete_directories drv os) remove_stage"
  unfolding update_delete_files_def update_create_directories_def update_move_files_def
    update_files_def update_delete_directories_def
  by (rule loop_clears [OF deletes.loop_runs deletes.loop_settles forwards_loop]
      loop_clears [OF creates.loop_runs creates.loop_settles forwards_loop]
      loop_clears [OF moves.loop_runs moves.loop_settles forwards_loop]
      loop_clears [OF uploads.loop_runs uploads.loop_settles forwards_loop]
      loop_clears [OF removes.loop_runs removes.loop_settles backwards_loop]; assumption)+

lemma started_mono: "started s0 K r \<Longrightarrow> J \<subseteq> K \<Longrightarrow> started s0 J r"
  by (auto simp: started_def)

text \<open>The table with the stage of each handler; the stage of a handler that does not run is
  irrelevant.\<close>

lemma run_handlers_result:
  assumes "\<forall>(func, guard, k) \<in> set xs. guard \<longrightarrow> clears os func k"
    and "started s0 K r"
  shows "\<exists>r' ret'. run_handlers kg (map (\<lambda>(func, guard, k). (func, guard)) xs) r ret = Some (r', ret')
    \<and> started s0 K r' \<and> (ret' = 0 \<longrightarrow> ret = 0)
    \<and> (ret' = 0 \<longrightarrow> agrees os \<longrightarrow> started s0 (K \<union> {k. \<exists>func. (func, True, k) \<in> set xs}) r')"
  using assms
proof (induction xs arbitrary: K r ret)
  case (Cons x xs)
  obtain func guard k where x: "x = (func, guard, k)" by (cases x) auto
  let ?T = "map (\<lambda>(func, guard, k). (func, guard)) xs"
  show ?case
  proof (cases "ret = 0 \<or> kg")
    case False
    then show ?thesis using Cons.prems by (simp add: x)
  next
    case go: True
    show ?thesis
    proof (cases guard)
      case False
      then show ?thesis using Cons.IH [of K r ret] Cons.prems go by (simp add: x)
    next
      case True
      have "clears os func k" using Cons.prems(1) True by (simp add: x)
      then obtain r1 nr where r1: "func r = Some (r1, nr)" "started s0 K r1"
          "nr = 0 \<longrightarrow> agrees os \<longrightarrow> started s0 (insert k K) r1"
        using Cons.prems(2) unfolding clears_def by blast
      show ?thesis
      proof (cases "nr = 0 \<and> agrees os")
        case True
        then obtain r' ret' where "run_handlers kg ?T r1 ret = Some (r', ret')"
            "started s0 (insert k K) r'" "ret' = 0 \<longrightarrow> ret = 0"
            "ret' = 0 \<longrightarrow> agrees os \<longrightarrow> started s0 (insert k K \<union> {k. \<exists>func. (func, True, k) \<in> set xs}) r'"
          using Cons.IH [of "insert k K" r1 ret] Cons.prems r1 by auto
        moreover have "K \<union> {k. \<exists>func. (func, True, k) \<in> set (x # xs)}
            = insert k K \<union> {k. \<exists>func. (func, True, k) \<in> set xs}"
          using \<open>guard\<close> by (auto simp: x)
        moreover have "K \<subseteq> insert k K" by blast
        ultimately show ?thesis
          using go \<open>guard\<close> r1(1) True started_mono by (fastforce simp: x)
      next
        case F: False
        then obtain r' ret' where rh: "run_handlers kg ?T r1 (if nr \<noteq> 0 then nr else ret) = Some (r', ret')"
            "started s0 K r'" "ret' = 0 \<longrightarrow> (if nr \<noteq> 0 then nr else ret) = 0"
          using Cons.IH [of K r1 "if nr \<noteq> 0 then nr else ret"] Cons.prems r1 by auto
        then show ?thesis
          using go \<open>guard\<close> r1(1) F by (auto simp: x split: if_splits)
      qed
    qed
  qed
qed simp

lemma last_error_frame [simp]:
  "s_files (s\<lparr>s_last_error := e\<rparr>) = s_files s"
  "get_file a (s\<lparr>s_last_error := e\<rparr>) = get_file a s"
  by (simp_all add: get_file_def)

lemma last_error_compare [simp]:
  "file_compare t x y (s\<lparr>s_last_error := e\<rparr>) = file_compare t x y s"
  by (cases s) (simp only: file_compare_def site.select_convs site.update_convs)

lemma last_error_ready [simp]: "ready (s\<lparr>s_last_error := e\<rparr>) = ready s"
proof -
  have "counter k (s\<lparr>s_last_error := e\<rparr>) = counter k s" for k by (cases k) simp_all
  then show ?thesis
    by (simp add: ready_def site_inv_def files_ok_def stats_ok_def flags_ok_def file_ok_def
        site_stats_update_def)
qed

lemma proto_init_ready:
  assumes "ready (r_site r)"
  shows "ready (r_site (snd (proto_init drv r)))"

    "s_nodelete (r_site (snd (proto_init drv r))) = s_nodelete (r_site r)"
    "s_checkmoved (r_site (snd (proto_init drv r))) = s_checkmoved (r_site r)"
    "s_symlinks (r_site (snd (proto_init drv r))) = s_symlinks (r_site r)"
    "local_kept (r_site (snd (proto_init drv r))) t = local_kept (r_site r) t"
  using assms
  by (auto simp: proto_init_def proto_seterror_def Let_def case_prod_beta' local_kept_def)

lemma proto_finish_site [simp]:
  "ready (r_site (proto_finish drv r)) = ready (r_site r)"
  "run_file a (proto_finish drv r) = run_file a r"
  "local_kept s (r_site (proto_finish drv r)) = local_kept s (r_site r)"
  "s_nodelete (r_site (proto_finish drv r)) = s_nodelete (r_site r)"
  by (simp_all add: proto_finish_def proto_seterror_def Let_def local_kept_def)

text \<open>What an update leaves in the files list.\<close>

definition left_over :: "site \<Rightarrow> site_file \<Rightarrow> bool" where
  "left_over s f \<longleftrightarrow> sf_type f = file_link \<or> sf_diff f = file_unchanged
     \<or> (sf_diff f = file_changed \<and> sf_ignore f) \<or> (sf_diff f = file_deleted \<and> s_nodelete s)"

lemma stages_left_over:
  assumes ok: "file_ok s f"
    and st: "stage_ok create_stage f" "stage_ok upload_stage f"
    and mv: "s_checkmoved s \<Longrightarrow> stage_ok move_stage f"
    and del: "\<not> s_nodelete s \<Longrightarrow> stage_ok delete_stage f \<and> stage_ok remove_stage f"
  shows "left_over s f"
  using st mv del file_ok_diff(3) [OF ok]
  by (cases "sf_diff f"; cases "sf_type f") (auto simp: left_over_def wants_upload_def)

lemma site_update_result:
  assumes r: "ready (r_site r)" and sym: "s_symlinks (r_site r) \<noteq> sitesym_maintain"
  shows "\<exists>r' ret. site_update drv os r = Some (r', ret) \<and> ready (r_site r')
    \<and> local_kept (r_site r) (r_site r') \<and> s_nodelete (r_site r') = s_nodelete (r_site r)
    \<and> (ret = SITE_OK \<longrightarrow> agrees os \<longrightarrow>
        (\<forall>a f. run_file a r' = Some f \<longrightarrow> left_over (r_site r) f))"
proof -
  let ?s = "r_site r"
  obtain ret0 r0 where i: "proto_init drv r = (ret0, r0)" by (cases "proto_init drv r")
  note i' = proto_init_ready [OF r, of drv, unfolded i snd_conv]
  show ?thesis
  proof (cases "ret0 = SITE_OK")
    case False
    then show ?thesis using i i' local_kept_refl [of "r_site r0"] by (simp add: site_update_def Let_def)
  next
    case True
    let ?xs = "[(update_delete_files drv os, \<not> s_nodelete ?s, delete_stage),
      (update_create_directories drv os, True, create_stage),
      (update_move_files drv os, s_checkmoved ?s, move_stage),
      (update_files drv os, True, upload_stage),
      (update_links drv, s_symlinks ?s = sitesym_maintain, upload_stage),
      (update_delete_directories drv os, \<not> s_nodelete ?s, remove_stage)]"
    have h: "handlers drv os ?s = map (\<lambda>(func, guard, k). (func, guard)) ?xs"
      by (simp add: handlers_def)
    have s0: "started (r_site r0) {} r0" using i'(1) by (simp add: started_def local_kept_refl)
    have c: "\<forall>(func, guard, k) \<in> set ?xs. guard \<longrightarrow> clears os func k"
      using handlers_clear [of os drv] sym by simp
    obtain r1 ret where r1: "run_handlers (s_keep_going (r_site r0)) (handlers drv os ?s) r0 0
          = Some (r1, ret)" "started (r_site r0) {} r1"
        "ret = 0 \<longrightarrow> agrees os \<longrightarrow> started (r_site r0) ({} \<union> {k. \<exists>func. (func, True, k) \<in> set ?xs}) r1"
      using run_handlers_result [OF c s0, of "s_keep_going (r_site r0)" 0] unfolding h by blast
    have o1: "opts (r_site r1) = opts (r_site r0)" using r1(2) by (simp add: started_def)
    have "left_over ?s f" if "ret = 0" "agrees os" and f: "run_file a r1 = Some f" for a f
    proof -
      have st: "stage_ok k f" if "\<exists>func. (func, True, k) \<in> set ?xs" for k
        using r1(3) \<open>ret = 0\<close> \<open>agrees os\<close> f that by (auto simp: started_def)
      have ok: "file_ok (r_site r1) f"
        using ready_file(2) [OF _ f] r1(2) by (simp add: started_def)
      have "left_over (r_site r1) f"
      proof (rule stages_left_over [OF ok])
        show "stage_ok create_stage f" "stage_ok upload_stage f" by (rule st; fastforce)+
        show "stage_ok move_stage f" if "s_checkmoved (r_site r1)"
          by (rule st) (use that i'(3) opts_fields(2) [OF o1] in simp)
        show "stage_ok delete_stage f \<and> stage_ok remove_stage f" if "\<not> s_nodelete (r_site r1)"
        proof -
          have "\<not> s_nodelete ?s" using that i'(2) opts_fields(6) [OF o1] by simp
          then show ?thesis using st [of delete_stage] st [of remove_stage] by simp
        qed
      qed
      then show ?thesis using opts_fields(6) [OF o1] i'(2) by (simp add: left_over_def)
    qed
    moreover have "local_kept ?s (r_site r1)" using r1(2) i'(5) by (simp add: started_def)
    ultimately show ?thesis
      using i True r1 opts_fields(6) [OF o1] i'(2)
      by (auto simp: site_update_def Let_def started_def)
  qed
qed

section \<open>A server that accepts everything\<close>

definition accepts :: "'w proto_driver \<Rightarrow> bool" where
  "accepts drv \<longleftrightarrow>
     (\<forall>s w. fst (d_init drv s w) = SITE_OK)
     \<and> (\<forall>a b w. fst (d_file_move drv a b w) = SITE_OK)
     \<and> (\<forall>l p m w. fst (d_file_upload drv l p m w) = SITE_OK)
     \<and> (\<forall>l p m t w. fst (d_file_upload_cond drv l p m t w) = SITE_OK)
     \<and> (\<forall>p w. fst (d_file_delete drv p w) = SITE_OK)
     \<and> (\<forall>p m w. fst (d_file_chmod drv p m w) = SITE_OK)
     \<and> (\<forall>p w. fst (d_dir_create drv p w) = SITE_OK)
     \<and> (\<forall>p w. fst (d_dir_remove drv p w) = SITE_OK)"

lemma fst_call: "fst (call g r) = fst (g (r_world r))"
  by (simp add: call_def case_prod_beta' Let_def)

lemma accepts_call:
  assumes "accepts drv"
  shows "fst (call (d_file_move drv a b) r) = 0" "fst (call (d_file_upload drv a b m) r) = 0"
    "fst (call (d_file_upload_cond drv a b m t) r) = 0" "fst (call (d_file_delete drv a) r) = 0"
    "fst (call (d_file_chmod drv a md) r) = 0" "fst (call (d_dir_create drv a) r) = 0"
    "fst (call (d_dir_remove drv a) r) = 0"
  using assms by (simp_all add: accepts_def fst_call)

text \<open>\<open>gives P X\<close>: what \<open>X\<close> returns, if it returns, satisfies \<open>P\<close>.\<close>

definition gives :: "('a \<Rightarrow> bool) \<Rightarrow> 'a option \<Rightarrow> bool" where
  "gives P X \<longleftrightarrow> (\<forall>x. X = Some x \<longrightarrow> P x)"

lemma gives_Some: "P x \<Longrightarrow> gives P (Some x)"
  by (simp add: gives_def)

lemma gives_if: "(c \<Longrightarrow> gives P X) \<Longrightarrow> (\<not> c \<Longrightarrow> gives P Y) \<Longrightarrow> gives P (if c then X else Y)"
  by simp

lemma gives_bind: "gives Q X \<Longrightarrow> (\<And>y. Q y \<Longrightarrow> gives P (F y)) \<Longrightarrow> gives P (Option.bind X F)"
  by (cases X) (auto simp: gives_def)

lemma gives_any: "gives (\<lambda>x. True) X"
  by (simp add: gives_def)

lemma gives_for_each:
  assumes "\<And>a s. P s \<Longrightarrow> gives P (body a s)"
  shows "P s \<Longrightarrow> gives P (for_each body as s)"
proof (induction as arbitrary: s)
  case Nil
  then show ?case by (simp add: gives_Some)
next
  case (Cons a as)
  show ?case unfolding for_each.simps
    by (rule gives_bind [OF assms [OF Cons.prems] Cons.IH])
qed

lemmas gives_intros = gives_if gives_Some gives_bind [OF gives_any]

lemma file_chmod_accepted:
  "accepts drv \<Longrightarrow> gives (\<lambda>x. fst x = 0) (file_chmod drv a r)"
  unfolding file_chmod_def Let_def case_prod_beta'
  by (intro gives_intros) (simp_all add: accepts_call)

lemma upload_done_accepted:
  assumes "accepts drv"
  shows "gives (\<lambda>x. snd x = snd st) (upload_done drv g h a st)"
  unfolding upload_done_def Let_def case_prod_beta'
  by (rule gives_bind [OF gives_any], rule gives_bind [OF file_chmod_accepted [OF assms]])
    (intro gives_intros, simp)

lemma upload_body_accepted:
  assumes "accepts drv"
  shows "gives (\<lambda>x. snd x = snd st) (upload_body drv l p f a st)"
  unfolding upload_body_def Let_def case_prod_beta'
  using upload_done_accepted [OF assms, where st = "(r, snd st)" for r]
  by (intro gives_if gives_Some) (simp_all add: accepts_call [OF assms])

lemma bodies_accepted:
  assumes ac: "accepts drv"
  shows "gives (\<lambda>x. snd x = snd st) (delete_files_body drv os a st)"
    "gives (\<lambda>x. snd x = snd st) (create_directories_body drv os a st)"
    "gives (\<lambda>x. snd x = snd st) (move_files_body drv os a st)"
    "gives (\<lambda>x. snd x = snd st) (delete_directories_body drv os a st)"
  unfolding delete_files_body_def create_directories_body_def move_files_body_def
    delete_directories_body_def Let_def case_prod_beta'
  by (intro gives_intros; simp add: accepts_call [OF ac] if_distrib [of fst] cong: if_cong)+

lemma update_files_accepted:
  assumes ac: "accepts drv"
  shows "gives (\<lambda>x. snd x = snd st) (update_files_body drv os a st)"
proof -
  have up: "gives (\<lambda>x. snd x = snd st) (upload_body drv l p f a (r, snd st))" for l p f r
    using upload_body_accepted [OF ac, of "(r, snd st)"] by simp
  have chm: "gives (\<lambda>x. snd x = snd st)
      (Option.bind (file_chmod drv a r) (\<lambda>x. Some (snd x, if fst x \<noteq> 0 then 1 else snd st)))" for r
    by (rule gives_bind [OF file_chmod_accepted [OF ac]]) (simp add: gives_Some)
  show ?thesis
    unfolding update_files_body_def Let_def case_prod_beta'
    by (rule gives_bind [OF gives_any], intro gives_if up chm,
        simp add: gives_Some, (rule gives_bind [OF gives_any])+,
        intro gives_if up chm gives_Some)
      (simp_all add: accepts_call [OF ac])
qed

lemma loop_accepted:
  assumes "\<And>a st. gives (\<lambda>x. snd x = snd st) (body a st)" and "for_each body as (r, 0) = Some x"
  shows "snd x = 0"
proof -
  have "gives (\<lambda>x. snd x = 0) (for_each body as (r, 0))"
    by (rule gives_for_each) (use assms(1) in \<open>auto simp: gives_def\<close>)
  then show ?thesis using assms(2) by (simp add: gives_def)
qed

lemma handlers_accepted:
  assumes ac: "accepts drv"
  shows "update_delete_files drv os r = Some x \<Longrightarrow> snd x = 0"
    "update_create_directories drv os r = Some x \<Longrightarrow> snd x = 0"
    "update_move_files drv os r = Some x \<Longrightarrow> snd x = 0"
    "update_files drv os r = Some x \<Longrightarrow> snd x = 0"
    "update_delete_directories drv os r = Some x \<Longrightarrow> snd x = 0"
  using loop_accepted [OF bodies_accepted(1) [OF ac]] loop_accepted [OF bodies_accepted(2) [OF ac]]
    loop_accepted [OF bodies_accepted(3) [OF ac]] loop_accepted [OF update_files_accepted [OF ac]]
    loop_accepted [OF bodies_accepted(4) [OF ac]]
  by (simp_all add: update_delete_files_def update_create_directories_def update_move_files_def
      update_files_def update_delete_directories_def forwards_def backwards_def)

lemma run_handlers_accepted:
  assumes "\<forall>(func, guard) \<in> set xs. guard \<longrightarrow> (\<forall>r x. func r = Some x \<longrightarrow> snd x = 0)"
    and "run_handlers kg xs r 0 = Some x"
  shows "snd x = 0"
  using assms
proof (induction xs arbitrary: r)
  case (Cons h xs)
  obtain func guard where h: "h = (func, guard)" by (cases h)
  show ?case
  proof (cases guard)
    case True
    then obtain r1 nr where r1: "func r = Some (r1, nr)"
        "run_handlers kg xs r1 (if nr \<noteq> 0 then nr else 0) = Some x"
      using Cons.prems(2) by (auto simp: h bind_eq_Some_conv)
    then have "nr = 0" using Cons.prems(1) True by (force simp: h)
    then show ?thesis using Cons.IH [of r1] Cons.prems(1) r1 by (simp add: h)
  next
    case False
    then show ?thesis using Cons by (simp add: h)
  qed
qed auto

lemma site_update_accepted:
  assumes ac: "accepts drv" and sym: "s_symlinks (r_site r) \<noteq> sitesym_maintain"
    and u: "site_update drv os r = Some (r', ret)"
  shows "ret = SITE_OK"
proof -
  have i: "fst (proto_init drv r) = 0"
    using ac by (simp add: proto_init_def accepts_def fst_call Let_def case_prod_beta')
  then obtain x where x: "run_handlers (s_keep_going (r_site (snd (proto_init drv r))))
      (handlers drv os (r_site r)) (snd (proto_init drv r)) 0 = Some x" "ret = (if snd x = 0 then 0 else SITE_ERRORS)"
    using u by (auto simp: site_update_def Let_def case_prod_beta' bind_eq_Some_conv)
  have "\<forall>(func, guard) \<in> set (handlers drv os (r_site r)). guard \<longrightarrow> (\<forall>r x. func r = Some x \<longrightarrow> snd x = 0)"
    using handlers_accepted [OF ac] sym by (auto simp: handlers_def)
  then have "snd x = 0" using run_handlers_accepted x(1) by blast
  then show ?thesis using x(2) by simp
qed

section \<open>Properties\<close>

definition ok_driver :: "unit proto_driver" where
  "ok_driver = \<lparr>d_init = (\<lambda>_ w. (0, w)), d_finish = id, d_file_move = (\<lambda>_ _ w. (0, w)),
     d_file_upload = (\<lambda>_ _ _ w. (0, w)), d_file_upload_cond = (\<lambda>_ _ _ _ w. (0, w)),
     d_file_get_modtime = (\<lambda>_ w. ((0, 0), w)), d_file_download = (\<lambda>_ _ _ w. (0, w)),
     d_file_read = (\<lambda>_ w. ((0, []), w)), d_file_delete = (\<lambda>_ w. (0, w)),
     d_file_chmod = (\<lambda>_ _ w. (0, w)), d_dir_create = (\<lambda>_ w. (0, w)),
     d_dir_remove = (\<lambda>_ w. (0, w)), d_link_create = Some (\<lambda>_ _ w. (0, w)),
     d_link_change = Some (\<lambda>_ _ w. (0, w)), d_link_delete = Some (\<lambda>_ w. (0, w)), d_fetch_list = None,
     d_error = (\<lambda>_. ''''), d_get_server_port = (\<lambda>_. 21), d_get_proxy_port = (\<lambda>_. 0),
     d_protocol_name = ''Example''\<rparr>"

definition yes_os :: "unit os" where
  "yes_os = \<lparr>o_mkdir = (\<lambda>_ _ w. (None, w)), o_rmdir = (\<lambda>_ w. (None, w)),
     o_unlink = (\<lambda>_ w. (None, w)), o_rename = (\<lambda>_ _ w. (None, w)),
     o_chmod = (\<lambda>_ _ w. (None, w)), o_utime = (\<lambda>_ _ w. (None, w)),
     o_can_update = (\<lambda>_ w. (True, w))\<rparr>"

definition rooted_example :: site where
  "rooted_example = example_site\<lparr>s_remote_root := Some ''/www/'', s_local_root := Some ''/home/''\<rparr>"

definition example_run :: "unit run" where
  "example_run = \<lparr>r_site = rooted_example, r_world = (), r_log = []\<rparr>"

lemma roots_inv: "site_inv (s\<lparr>s_remote_root := a, s_local_root := b\<rparr>) = site_inv s"
proof -
  let ?s = "s\<lparr>s_remote_root := a, s_local_root := b\<rparr>"
  have "counter k ?s = counter k s" for k by (cases k) simp_all
  moreover have "file_compare t x y ?s = file_compare t x y s" for t x y
    by (cases s) (simp only: file_compare_def site.select_convs site.update_convs)
  ultimately show ?thesis
    by (simp add: site_inv_def files_ok_def stats_ok_def flags_ok_def file_ok_def
        site_stats_update_def)
qed

lemma rooted_example_inv: "site_inv rooted_example"
  unfolding rooted_example_def roots_inv by (rule example_site_inv)

lemma example_run_ready: "ready (r_site example_run)"
proof -
  have "\<forall>a f. get_file a rooted_example = Some f \<longrightarrow> names_ok f"
    by (simp add: rooted_example_def get_file_def example_site_def example_file_def names_ok_def)
  then show ?thesis
    using rooted_example_inv by (simp add: ready_def example_run_def rooted_example_def)
qed

lemma left_over_counts:
  assumes inv: "site_inv s" and nd: "s_nodelete s = s_nodelete s0"
    and l: "\<And>a f. get_file a s = Some f \<Longrightarrow> left_over s0 f \<and> sf_type f \<noteq> file_link"
  shows "\<not> s_remote_is_different s"
proof -
  have c: "counter k s = 0" if "k \<in> {st_new, st_changed, st_moved}" for k
    by (rule counter_zero [OF inv]) (use l that in \<open>fastforce simp: left_over_def\<close>)
  have d: "s_numdeleted s = 0" if "\<not> s_nodelete s"
    using counter_zero [OF inv, of st_deleted] l that nd by (fastforce simp: left_over_def)
  show ?thesis
    using site_invD(3) [OF inv] c [of st_new] c [of st_changed] c [of st_moved] d
    by (auto simp: flags_ok_def site_stats_update_def)
qed

text \<open>C1. \<^verbatim>\<open>site_update\<close>, with any server and any user, on a site whose files list is well formed
  and that does not maintain symbolic links: it returns without dereferencing NULL, keeps the
  invariant, and keeps the local state of every file, of which only files that do not exist
  locally may leave the list.  When it returns \<^verbatim>\<open>SITE_OK\<close> and the user agreed to everything, every file of the list is
  unchanged, up to symbolic links, ignored changes and, with \<open>nodelete\<close>, deleted files; and if no
  symbolic link is in the list, the site is no longer marked as different from the server.\<close>

theorem site_update_correct:
  assumes "ready (r_site r)" and "s_symlinks (r_site r) \<noteq> sitesym_maintain"
  shows "\<exists>r' ret. site_update drv os r = Some (r', ret) \<and> ready (r_site r')
    \<and> local_kept (r_site r) (r_site r')
    \<and> (ret = SITE_OK \<longrightarrow> agrees os \<longrightarrow>
        (\<forall>a f. run_file a r' = Some f \<longrightarrow>
           sf_type f = file_link \<or> sf_diff f = file_unchanged
           \<or> (sf_diff f = file_changed \<and> sf_ignore f)
           \<or> (sf_diff f = file_deleted \<and> s_nodelete (r_site r)))
        \<and> ((\<forall>a f. run_file a r' = Some f \<longrightarrow> sf_type f \<noteq> file_link)
             \<longrightarrow> \<not> s_remote_is_different (r_site r')))"
proof -
  obtain r' ret where u: "site_update drv os r = Some (r', ret)" "ready (r_site r')"
      "s_nodelete (r_site r') = s_nodelete (r_site r)" "local_kept (r_site r) (r_site r')"
    and l: "ret = SITE_OK \<Longrightarrow> agrees os \<Longrightarrow> run_file a r' = Some f \<Longrightarrow> left_over (r_site r) f" for a f
    using site_update_result [OF assms, of drv os] by blast
  have inv: "site_inv (r_site r')" using u(2) by (simp add: ready_def)
  show ?thesis
    using u l left_over_counts [OF inv u(3)] by (auto simp: left_over_def)
qed

lemma site_update_correct_witness:
  "\<exists>r' ret. site_update ok_driver yes_os example_run = Some (r', ret) \<and> ready (r_site r')
    \<and> local_kept (r_site example_run) (r_site r')
    \<and> (ret = SITE_OK \<longrightarrow> agrees yes_os \<longrightarrow>
        (\<forall>a f. run_file a r' = Some f \<longrightarrow>
           sf_type f = file_link \<or> sf_diff f = file_unchanged
           \<or> (sf_diff f = file_changed \<and> sf_ignore f)
           \<or> (sf_diff f = file_deleted \<and> s_nodelete (r_site example_run)))
        \<and> ((\<forall>a f. run_file a r' = Some f \<longrightarrow> sf_type f \<noteq> file_link)
             \<longrightarrow> \<not> s_remote_is_different (r_site r')))"
  by (rule site_update_correct [OF example_run_ready])
    (simp add: example_run_def rooted_example_def example_site_def zero_site_def)

text \<open>C14. With a server that accepts every operation, and a user who agrees, an update succeeds:
  \<^verbatim>\<open>SITE_OK\<close> is returned and nothing is left to do but links, ignored changes and, with
  \<open>nodelete\<close>, deleted files.\<close>

theorem site_update_succeeds:
  assumes "ready (r_site r)" and "s_symlinks (r_site r) \<noteq> sitesym_maintain"
    and "accepts drv" and "agrees os"
  shows "\<exists>r'. site_update drv os r = Some (r', SITE_OK) \<and> ready (r_site r')
    \<and> (\<forall>a f. run_file a r' = Some f \<longrightarrow> left_over (r_site r) f)"
  using site_update_result [OF assms(1,2), of drv os] site_update_accepted [OF assms(3,2), of os]
    assms(4) by blast

lemma example_accepts: "accepts ok_driver" "agrees yes_os"
  by (simp_all add: accepts_def ok_driver_def agrees_def yes_os_def)

lemma site_update_succeeds_witness:
  "\<exists>r'. site_update ok_driver yes_os example_run = Some (r', SITE_OK) \<and> ready (r_site r')
    \<and> (\<forall>a f. run_file a r' = Some f \<longrightarrow> left_over (r_site example_run) f)"
  by (rule site_update_succeeds [OF example_run_ready _ example_accepts])
    (simp add: example_run_def rooted_example_def example_site_def zero_site_def)

section \<open>What an update never asks of the server\<close>

lemma for_each_eq:
  assumes "\<And>a s. I s \<Longrightarrow> body a s = body' a s" and "\<And>a s. I s \<Longrightarrow> gives I (body a s)"
  shows "I s \<Longrightarrow> for_each body as s = for_each body' as s"
proof (induction as arbitrary: s)
  case (Cons a as)
  show ?case
  proof (cases "body a s")
    case (Some t)
    then have "I t" using assms(2) [OF Cons.prems, of a] by (simp add: gives_def)
    then show ?thesis using Cons.IH Some assms(1) [OF Cons.prems, of a] by simp
  qed (use assms(1) [OF Cons.prems, of a] in simp)
qed simp

definition keeps_opts :: "site \<Rightarrow> 'w run \<Rightarrow> bool" where
  "keeps_opts s r \<longleftrightarrow> opts (r_site r) = opts s"

lemma opts_set_diff: "file_set_diff a s = Some t \<Longrightarrow> opts t = opts s"
  by (auto simp: file_set_diff_def bind_eq_Some_conv Let_def frame_simps)

lemma opts_uploaded: "file_uploaded a s = Some t \<Longrightarrow> opts t = opts s"
  by (auto simp: file_uploaded_def bind_eq_Some_conv frame_simps dest!: opts_set_diff)

lemma on_site_keeps:
  "keeps_opts s r \<Longrightarrow> gives (keeps_opts s) (on_site (file_set_diff a) r)"
  "keeps_opts s r \<Longrightarrow> gives (keeps_opts s) (on_site (file_uploaded a) r)"
  by (auto simp: gives_def on_site_def bind_eq_Some_conv keeps_opts_def
      dest: opts_set_diff opts_uploaded)

lemma run_put_keeps [simp]: "keeps_opts s (run_put a g r) = keeps_opts s r"
  "keeps_opts s (notify e r) = keeps_opts s r" "keeps_opts s (snd (call h r)) = keeps_opts s r"
  by (simp_all add: keeps_opts_def run_put_def frame_simps)

lemma file_chmod_keeps:
  "keeps_opts s r \<Longrightarrow> gives (\<lambda>x. keeps_opts s (snd x)) (file_chmod drv a r)"
  unfolding file_chmod_def Let_def case_prod_beta'
  by (intro gives_if gives_Some gives_bind [OF gives_any] gives_bind [OF on_site_keeps(1)]) simp_all

lemma file_retrieve_server_keeps:
  "keeps_opts s r \<Longrightarrow> gives (keeps_opts s) (file_retrieve_server drv a r)"
  unfolding file_retrieve_server_def Let_def case_prod_beta'
  by (intro gives_if gives_Some gives_bind [OF gives_any]) simp_all

lemma upload_done_keeps:
  assumes "keeps_opts s r"
  shows "gives (\<lambda>x. keeps_opts s (fst x)) (upload_done drv g h a (r, ret))"
proof -
  have "gives (keeps_opts s) (if g then file_retrieve_server drv a (notify (fe_updated h True None) r)
      else Some (notify (fe_updated h True None) r))"
    using assms by (intro gives_if gives_Some file_retrieve_server_keeps) simp_all
  then show ?thesis
    unfolding upload_done_def Let_def case_prod_beta' fst_conv snd_conv
    by (rule gives_bind, intro gives_bind [OF file_chmod_keeps] gives_bind [OF on_site_keeps(2)]
        gives_Some) simp_all
qed

lemma upload_body_keeps:
  assumes "keeps_opts s r"
  shows "gives (\<lambda>x. keeps_opts s (fst x)) (upload_body drv l p f a (r, ret))"
  unfolding upload_body_def Let_def case_prod_beta' fst_conv snd_conv
  by (intro gives_if gives_Some upload_done_keeps) (use assms in simp_all)

lemma update_files_keeps:
  assumes "keeps_opts s (fst st)"
  shows "gives (\<lambda>x. keeps_opts s (fst x)) (update_files_body drv os a st)"
  unfolding update_files_body_def Let_def case_prod_beta'
  by (intro gives_if gives_bind [OF gives_any] gives_bind [OF file_chmod_keeps] upload_body_keeps
      gives_Some) (use assms in simp_all)

text \<open>\<open>blind drv g h k\<close>: the same driver with other functions to delete with.\<close>

abbreviation blind where
  "blind drv g h k \<equiv> drv\<lparr>d_file_delete := g, d_dir_remove := h, d_link_delete := k\<rparr>"

lemma blind_calls:
  "create_directories_body (blind drv g h k) os = create_directories_body drv os"
  "move_files_body (blind drv g h k) os = move_files_body drv os"
  "file_chmod (blind drv g h k) = file_chmod drv"
  "file_retrieve_server (blind drv g h k) = file_retrieve_server drv"
  "proto_init (blind drv g h k) = proto_init drv"
  "proto_finish (blind drv g h k) = proto_finish drv"
  by ((rule ext)+, cases drv, simp only: create_directories_body_def move_files_body_def
      driver_err_def file_chmod_def file_retrieve_server_def proto_init_def proto_finish_def
      proto_seterror_def proto_driver.select_convs proto_driver.update_convs)+

lemma blind_upload: "upload_body (blind drv g h k) = upload_body drv"
proof -
  have done_eq: "upload_done (blind drv g h k) = upload_done drv"
    by (rule ext)+ (simp only: upload_done_def blind_calls)
  show ?thesis
    by ((rule ext)+, simp only: upload_body_def done_eq driver_err_def, cases drv,
        simp only: proto_driver.select_convs proto_driver.update_convs)
qed

lemma blind_update_files:
  assumes "\<not> s_nooverwrite (r_site (fst st))"
  shows "update_files_body (blind drv g h k) os a st = update_files_body drv os a st"
  unfolding update_files_body_def Let_def case_prod_beta' blind_upload blind_calls
  by (simp only: run_simps assms simp_thms if_False)

lemma blind_handler:
  fixes r :: "'w run"
  assumes "\<not> s_nooverwrite (r_site r)"
  shows "update_files (blind drv g h k) os r = update_files drv os r"
proof -
  have "for_each (update_files_body (blind drv g h k) os) as (r, 0)
      = for_each (update_files_body drv os) as (r, 0)" for as
  proof (rule for_each_eq [where I = "\<lambda>st. keeps_opts (r_site r) (fst st)"])
    fix a and st :: "'w run \<times> int"
    assume k: "keeps_opts (r_site r) (fst st)"
    then have "\<not> s_nooverwrite (r_site (fst st))"
      using assms opts_fields(11) [of "r_site (fst st)" "r_site r"] by (simp add: keeps_opts_def)
    then show e: "update_files_body (blind drv g h k) os a st = update_files_body drv os a st" for g h k
      by (rule blind_update_files)
    show "gives (\<lambda>st. keeps_opts (r_site r) (fst st)) (update_files_body (blind drv g h k) os a st)"
      unfolding e using update_files_keeps [OF k] .
  qed (simp add: keeps_opts_def)
  then show ?thesis by (simp add: update_files_def forwards_def)
qed

lemma handler_keeps_opts:
  assumes "\<And>a st s. keeps_opts s (fst st) \<Longrightarrow> gives (\<lambda>x. keeps_opts s (fst x)) (body a st)"
    and "keeps_opts s r"
  shows "gives (\<lambda>x. keeps_opts s (fst x)) (for_each body as (r, 0))"
  by (rule gives_for_each) (use assms in auto)

lemma create_directories_keeps:
  assumes "keeps_opts s (fst st)"
  shows "gives (\<lambda>x. keeps_opts s (fst x)) (create_directories_body drv os a st)"
  unfolding create_directories_body_def Let_def case_prod_beta'
  by (intro gives_if gives_bind [OF gives_any] gives_bind [OF on_site_keeps(2)] gives_Some)
    (use assms in \<open>simp_all add: if_distrib [of snd] if_distrib [of "keeps_opts s"] cong: if_cong\<close>)

lemma move_files_keeps:
  assumes "keeps_opts s (fst st)"
  shows "gives (\<lambda>x. keeps_opts s (fst x)) (move_files_body drv os a st)"
  unfolding move_files_body_def Let_def case_prod_beta'
  by (intro gives_if gives_bind [OF gives_any] gives_bind [OF on_site_keeps(2)] gives_Some)
    (use assms in simp_all)

lemma run_handlers_eq:
  assumes "list_all2 (\<lambda>(f, g) (f', g'). g = g' \<and> (g \<longrightarrow> (\<forall>r. I r \<longrightarrow> f r = f' r \<and>
      gives (\<lambda>x. I (fst x)) (f' r)))) xs ys"
  shows "I r \<Longrightarrow> run_handlers kg xs r ret = run_handlers kg ys r ret"
  using assms
proof (induction xs ys arbitrary: r ret rule: list_all2_induct)
  case (Cons x xs y ys)
  obtain f f' g where xy: "x = (f, g)" "y = (f', g)" using Cons.hyps by (cases x; cases y) auto
  show ?case
  proof (cases "g \<and> (ret = 0 \<or> kg)")
    case True
    then have e: "f r = f' r" "gives (\<lambda>x. I (fst x)) (f' r)" using Cons.hyps Cons.prems xy by auto
    show ?thesis
    proof (cases "f' r")
      case (Some z)
      then have "I (fst z)" using e(2) by (simp add: gives_def)
      then show ?thesis using True e(1) Some Cons.IH by (cases z) (simp add: xy)
    qed (use True e(1) in \<open>simp add: xy\<close>)
  qed (use Cons.IH Cons.prems in \<open>auto simp: xy\<close>)
qed simp

text \<open>C15. \<open>nodelete\<close> is honoured: with it, and without \<open>nooverwrite\<close>, an update never asks the
  server to delete a file, a directory or a link.  Whatever the driver's delete functions do, the
  update has the same effect on the site, the server and the user's screen.\<close>

theorem site_update_never_deletes:
  assumes "s_nodelete (r_site r)" and "\<not> s_nooverwrite (r_site r)"
    and "s_symlinks (r_site r) \<noteq> sitesym_maintain"
  shows "site_update (drv\<lparr>d_file_delete := g, d_dir_remove := h, d_link_delete := k\<rparr>) os r
    = site_update drv os r"
proof -
  let ?d = "blind drv g h k"
  define r0 where "r0 = snd (proto_init drv r)"
  have r0: "\<not> s_nooverwrite (r_site r0)"
    using assms(2) by (simp add: r0_def proto_init_def proto_seterror_def Let_def case_prod_beta')
  have c: "update_create_directories ?d os = update_create_directories drv os"
    "update_move_files ?d os = update_move_files drv os"
    by (simp_all add: update_create_directories_def update_move_files_def blind_calls)
  have keep: "gives (\<lambda>x. \<not> s_nooverwrite (r_site (fst x))) (update_create_directories drv os r1)"
      "gives (\<lambda>x. \<not> s_nooverwrite (r_site (fst x))) (update_move_files drv os r1)"
      "gives (\<lambda>x. \<not> s_nooverwrite (r_site (fst x))) (update_files drv os r1)"
    if n: "\<not> s_nooverwrite (r_site r1)" for r1
  proof -
    have weak: "gives (\<lambda>x. \<not> s_nooverwrite (r_site (fst x))) X"
      if "gives (\<lambda>x. keeps_opts (r_site r1) (fst x)) X" for X :: "('a run \<times> int) option"
      using that n opts_fields(11) [of _ "r_site r1"]
      unfolding gives_def keeps_opts_def by blast
    show "gives (\<lambda>x. \<not> s_nooverwrite (r_site (fst x))) (update_create_directories drv os r1)"
      "gives (\<lambda>x. \<not> s_nooverwrite (r_site (fst x))) (update_move_files drv os r1)"
      "gives (\<lambda>x. \<not> s_nooverwrite (r_site (fst x))) (update_files drv os r1)"
      unfolding update_create_directories_def update_move_files_def update_files_def forwards_def
      by (rule weak, rule handler_keeps_opts, rule create_directories_keeps move_files_keeps
          update_files_keeps, assumption, simp add: keeps_opts_def)+
  qed
  have "run_handlers kg (handlers ?d os (r_site r)) r0 0
      = run_handlers kg (handlers drv os (r_site r)) r0 0" for kg
    by (rule run_handlers_eq [where I = "\<lambda>r. \<not> s_nooverwrite (r_site r)", OF _ r0])
      (use assms(1,3) keep blind_handler [where drv = drv and g = g and h = h and k = k
        and os = os] in \<open>auto simp: handlers_def c\<close>)
  then show ?thesis
    by (simp add: site_update_def blind_calls Let_def case_prod_beta' r0_def)
qed

lemma site_update_never_deletes_witness:
  "site_update (ok_driver\<lparr>d_file_delete := (\<lambda>_ w. (5, w)), d_dir_remove := (\<lambda>_ w. (5, w)),
      d_link_delete := None\<rparr>) yes_os
      (example_run\<lparr>r_site := rooted_example\<lparr>s_nodelete := True\<rparr>\<rparr>)
    = site_update ok_driver yes_os (example_run\<lparr>r_site := rooted_example\<lparr>s_nodelete := True\<rparr>\<rparr>)"
  by (rule site_update_never_deletes)
    (simp_all add: example_run_def rooted_example_def example_site_def zero_site_def)

text \<open>C16. Safe mode: a file whose modification time on the server is known is never uploaded
  without the check of that time; whatever an unconditional upload does, it is not asked for.\<close>

theorem safemode_uploads_conditionally:
  assumes "run_file a r = Some f" "s_safemode (r_site r)" "fs_exists (sf_server f)"
  shows "update_files_body (drv\<lparr>d_file_upload := g\<rparr>) os a (r, ret)
    = update_files_body drv os a (r, ret)"
proof -
  let ?d = "drv\<lparr>d_file_upload := g\<rparr>"
  have c: "file_chmod ?d = file_chmod drv" "file_retrieve_server ?d = file_retrieve_server drv"
    by ((rule ext)+, cases drv, simp only: driver_err_def file_chmod_def
        file_retrieve_server_def proto_driver.select_convs proto_driver.update_convs)+
  have dn: "upload_done ?d = upload_done drv" by (rule ext)+ (simp only: upload_done_def c)
  have de: "driver_err ?d = driver_err drv" by (rule ext) (simp add: driver_err_def)
  have safe: "s_safemode (r_site (run_put a h r1)) = s_safemode (r_site r1)" for h r1
    by (simp add: run_put_def put_file_def)
  have fd: "d_file_delete ?d = d_file_delete drv" by simp
  have u: "upload_body ?d l p f a (r', ret) = upload_body drv l p f a (r', ret)"
    if "s_safemode (r_site r')" for l p r'
    unfolding upload_body_def dn de using that assms(3) by simp
  show ?thesis
    unfolding update_files_body_def Let_def case_prod_beta' c de fd fst_conv snd_conv assms(1)
      Option.bind.simps(2)
    by (simp only: u safe run_simps assms(2))
qed

definition guarded_run :: "unit run" where
  "guarded_run = \<lparr>r_site = rooted_example\<lparr>s_safemode := True, s_files := [(1, zero_file\<lparr>
       sf_diff := file_changed, sf_local := example_state,
       sf_stored := example_state\<lparr>fs_size := 9\<rparr>,
       sf_server := zero_state\<lparr>fs_exists := True, fs_time := 5\<rparr>\<rparr>)]\<rparr>,
     r_world = (), r_log = []\<rparr>"

lemma safemode_uploads_conditionally_witness:
  "update_files_body (ok_driver\<lparr>d_file_upload := (\<lambda>_ _ _ w. (SITE_FAILED, w))\<rparr>) yes_os 1 (guarded_run, 0)
    = update_files_body ok_driver yes_os 1 (guarded_run, 0)"
  by (rule safemode_uploads_conditionally, simp add: guarded_run_def get_file_def)
    (simp_all add: guarded_run_def zero_state_def)

text \<open>\<^verbatim>\<open>update_links\<close> builds the remote name of a link from its local state before it looks at the
  diff: for a link that was deleted locally, which has no local name, it reads through NULL, so the
  removal of a link never gets as far as the driver's \<^verbatim>\<open>link_delete\<close>.\<close>

theorem deleted_link_crashes:
  assumes "run_file a r = Some f" "sf_type f = file_link" "sf_diff f = file_deleted"
    and "fs_filename (sf_local f) = None"
  shows "links_body drv a (r, ret) = None"
  using assms by (simp add: links_body_def file_full_remote_def)

definition dead_link :: site_file where
  "dead_link = zero_file\<lparr>sf_type := file_link, sf_diff := file_deleted, sf_stored :=
     zero_state\<lparr>fs_filename := Some ''l'', fs_linktarget := Some ''t'', fs_exists := True\<rparr>\<rparr>"

definition dead_link_run :: "unit run" where
  "dead_link_run = \<lparr>r_site = zero_site\<lparr>s_files := [(1, dead_link)], s_numdeleted := 1,
       s_local_is_different := True, s_remote_is_different := True,
       s_symlinks := sitesym_maintain, s_remote_root := Some ''/www/'', s_local_root := Some ''/home/''\<rparr>,
     r_world = (), r_log = []\<rparr>"

lemma deleted_link_crashes_witness:
  "links_body ok_driver 1 (dead_link_run, 0) = None \<and> site_update ok_driver yes_os dead_link_run = None"
proof
  show "links_body ok_driver 1 (dead_link_run, 0) = None"
    by (rule deleted_link_crashes [of _ _ dead_link])
      (simp_all add: dead_link_run_def dead_link_def get_file_def zero_file_def zero_state_def)
  show "site_update ok_driver yes_os dead_link_run = None" by code_simp
qed

end
