(* ===== verification/Site_Synch.thy ===== *)
theory Site_Synch
  imports Site_Update_Inv
begin

text \<open>
  The other operations of \<^verbatim>\<open>src/sites.c\<close> that talk to the server: synchronise mode
  (\<open>site_synch\<close>), fetch mode (\<open>site_fetch\<close>) and verify mode (\<open>site_verify\<close>).
\<close>

section \<open>Synchronise mode\<close>

definition S_755 :: mode_t where "S_755 = 493"

definition synch_directories_body :: "'w os \<Rightarrow> 'w body" where
  "synch_directories_body os current st =
     (let (r, ret) = st in
      do { f \<leftarrow> run_file current r;
           if sf_type f = file_dir \<and> sf_diff f = file_deleted
           then do { full_local \<leftarrow> file_full_local (sf_stored f) (r_site r);
                     let r = notify (fe_synching f) r;
                     let (err, r) = call (o_mkdir os full_local S_755) r;
                     (case err of
                        None \<Rightarrow> Some (notify (fe_synched f True None) r, ret)
                      | Some e \<Rightarrow>
                          do { r \<leftarrow> on_site (file_downloaded current)
                                       (notify (fe_synched f False (Some e)) r);
                               Some (r, 1) }) }
           else Some (r, ret) })"

text \<open>The two places that set the permissions of a local file.\<close>

definition synch_chmod :: "'w os \<Rightarrow> site_file \<Rightarrow> string \<Rightarrow> 'w run \<Rightarrow> 'w run" where
  "synch_chmod os f full_local r =
     (let r = notify (fe_setting_perms f) r;
          (err, r) = call (o_chmod os full_local (fs_mode (sf_stored f))) r
      in case err of
           Some e \<Rightarrow> notify (fe_set_perms f False (Some e)) r
         | None \<Rightarrow> notify (fe_set_perms f True None) r)"

definition synch_download :: "'w proto_driver \<Rightarrow> 'w os \<Rightarrow> site_file \<Rightarrow> 'w body" where
  "synch_download drv os f current st =
     (let (r, ret) = st in
      do { full_local \<leftarrow> file_full_local (sf_stored f) (r_site r);
           full_remote \<leftarrow> file_full_remote (sf_stored f) (r_site r);
           let r = notify (fe_synching f) r;
           let (res, r) = call (d_file_download drv full_local full_remote
                                  (fs_ascii (sf_stored f))) r;
           if res \<noteq> SITE_OK
           then Some (notify (fe_synched f False (driver_err drv r)) r, 1)
           else do { let r = notify (fe_synched f True None) r;
                     let r = (if s_state_method (r_site r) = state_timesize
                              then (let (err, r) = call (o_utime os full_local
                                                          (fs_time (sf_stored f))) r
                                    in case err of
                                         Some e \<Rightarrow> notify (fe_warning
                                           ''Could not set modification time of local file.''
                                           full_local e) r
                                       | None \<Rightarrow> r)
                              else r);
                     let r = (if file_perms_changed f (r_site r)
                              then synch_chmod os f full_local r else r);
                     r \<leftarrow> on_site (file_downloaded current) r;
                     Some (r, ret) } })"

definition synch_files_body :: "'w proto_driver \<Rightarrow> 'w os \<Rightarrow> 'w body" where
  "synch_files_body drv os current st =
     (let (r, ret) = st in
      do { f \<leftarrow> run_file current r;
           if sf_type f \<noteq> file_file then Some (r, ret)
           else (case sf_diff f of
             file_changed \<Rightarrow>
               (if \<not> file_contents_changed f (r_site r)
                then do { full_local \<leftarrow> file_full_local (sf_stored f) (r_site r);
                          Some (synch_chmod os f full_local r, ret) }
                else synch_download drv os f current (r, ret))
           | file_deleted \<Rightarrow> synch_download drv os f current (r, ret)
           | file_new \<Rightarrow>
               do { full_local \<leftarrow> file_full_local (sf_local f) (r_site r);
                    let r = notify (fe_synching f) r;
                    let (err, r) = call (o_unlink os full_local) r;
                    (case err of
                       Some e \<Rightarrow> Some (notify (fe_synched f False (Some e)) r, 1)
                     | None \<Rightarrow> Some (notify (fe_synched f True None) r, ret)) }
           | file_moved \<Rightarrow>
               do { old_full_local \<leftarrow> file_full_local (sf_stored f) (r_site r);
                    full_local \<leftarrow> file_full_local (sf_local f) (r_site r);
                    let r = notify (fe_synching f) r;
                    let (err, r) = call (o_rename os full_local old_full_local) r;
                    (case err of
                       None \<Rightarrow> Some (notify (fe_synched f True None) r, ret)
                     | Some e \<Rightarrow> Some (notify (fe_synched f False (Some e)) r, 1)) }
           | file_unchanged \<Rightarrow> Some (r, ret)) })"

definition synch_delete_body :: "'w os \<Rightarrow> 'w body" where
  "synch_delete_body os current st =
     (let (r, ret) = st in
      do { f \<leftarrow> run_file current r;
           if sf_type f = file_dir \<and> sf_diff f = file_new
           then do { full_local \<leftarrow> file_full_local (sf_local f) (r_site r);
                     let r = notify (fe_synching f) r;
                     let (err, r) = call (o_rmdir os full_local) r;
                     (case err of
                        Some e \<Rightarrow> Some (notify (fe_synched f False (Some e)) r, 3)
                      | None \<Rightarrow> do { r \<leftarrow> on_site (file_delete current)
                                              (notify (fe_synched f True None) r);
                                     Some (r, ret) }) }
           else Some (r, ret) })"

definition synch_create_directories where
  "synch_create_directories os = forwards (synch_directories_body os)"

definition synch_files where
  "synch_files drv os = forwards (synch_files_body drv os)"

definition synch_delete_directories where
  "synch_delete_directories os = backwards (synch_delete_body os)"

definition site_synch :: "'w proto_driver \<Rightarrow> 'w os \<Rightarrow> 'w run \<Rightarrow> ('w run \<times> int) option" where
  "site_synch drv os r =
     (let s = r_site r;
          need_conn = s_numchanged s + s_numdeleted s + s_numignored s > 0;
          (ret, r) = (if need_conn then proto_init drv r else (SITE_OK, r))
      in if ret \<noteq> SITE_OK then Some (proto_finish drv r, ret)
         else
           do { (r, ret) \<leftarrow> synch_create_directories os r;
                (r, ret) \<leftarrow>
                  (if ret = 0 \<or> s_keep_going (r_site r)
                   then do { (r, ret) \<leftarrow> synch_files drv os r;
                             if ret = 0 \<or> s_keep_going (r_site r)
                             then synch_delete_directories os r
                             else Some (r, ret) }
                   else Some (r, ret));
                let r = (if need_conn then proto_finish drv r else r);
                Some (r, if ret = 0 then SITE_OK else SITE_ERRORS) })"

section \<open>Fetch mode\<close>

text \<open>\<open>md5\<close> is the digest that \<^verbatim>\<open>ne_md5_finish_ctx\<close> gives for the blocks read.\<close>

definition fetch_checksum_file ::
    "'w proto_driver \<Rightarrow> (string \<Rightarrow> char list) \<Rightarrow> proto_file \<Rightarrow> 'w run \<Rightarrow> (proto_file \<times> 'w run) option"
where
  "fetch_checksum_file drv md5 file r =
     do { root \<leftarrow> s_remote_root (r_site r);
          let full_remote = root @ pf_filename file;
          let r = notify (fe_checksumming (pf_filename file)) r;
          let ((res, blocks), r) = call (d_file_read drv full_remote) r;
          Some (if res \<noteq> SITE_OK
                then (file, notify (fe_checksummed full_remote False (driver_err drv r)) r)
                else (file\<lparr>pf_checksum := md5 (concat blocks)\<rparr>,
                      notify (fe_checksummed full_remote True None) r)) }"

definition DIRSTACKSIZE :: nat where "DIRSTACKSIZE = 128"

text \<open>The loop over the entries of one listed directory: the stack of directories left to
  list, and the entries with their names made relative to the root of the site.\<close>

definition fetch_entry ::
    "'w proto_driver \<Rightarrow> matcher \<Rightarrow> (string \<Rightarrow> char list) \<Rightarrow> string \<Rightarrow> proto_file
     \<Rightarrow> string list \<Rightarrow> 'w run \<Rightarrow> (string list \<times> proto_file \<times> 'w run) option" where
  "fetch_entry drv fnm md5 prefix f dirstack r =
     (let relfn = prefix @ pf_filename f; f = f\<lparr>pf_filename := relfn\<rparr>
      in if \<not> file_isexcluded fnm relfn (r_site r)
         then (if pf_type f = proto_dir \<and> length dirstack < DIRSTACKSIZE
               then Some (relfn # dirstack, f, r)
               else if pf_type f = proto_file \<and> s_state_method (r_site r) = state_checksum
               then do { (f, r) \<leftarrow> fetch_checksum_file drv md5 f r; Some (dirstack, f, r) }
               else Some (dirstack, f, r))
         else Some (dirstack, f, r))"

fun fetch_entries ::
    "'w proto_driver \<Rightarrow> matcher \<Rightarrow> (string \<Rightarrow> char list) \<Rightarrow> string \<Rightarrow> proto_file list
     \<Rightarrow> string list \<Rightarrow> 'w run \<Rightarrow> (string list \<times> proto_file list \<times> 'w run) option" where
  "fetch_entries drv fnm md5 prefix [] dirstack r = Some (dirstack, [], r)"
| "fetch_entries drv fnm md5 prefix (f # newfiles) dirstack r =
     do { (dirstack, f, r) \<leftarrow> fetch_entry drv fnm md5 prefix f dirstack r;
          (dirstack, files, r) \<leftarrow> fetch_entries drv fnm md5 prefix newfiles dirstack r;
          Some (dirstack, f # files, r) }"

text \<open>The loop over the directories, which ends only if the server's directories do: \<open>fuel\<close> bounds
  the directories listed.  The result \<open>Inl\<close> is running out of fuel.\<close>

fun fetch_dirs ::
    "nat \<Rightarrow> 'w proto_driver \<Rightarrow> (string \<Rightarrow> bool \<Rightarrow> 'w \<Rightarrow> (int \<times> proto_file list) \<times> 'w) \<Rightarrow> matcher
     \<Rightarrow> (string \<Rightarrow> char list) \<Rightarrow> bool \<Rightarrow> string list \<Rightarrow> proto_file list \<Rightarrow> 'w run
     \<Rightarrow> (unit + int \<times> proto_file list \<times> 'w run) option" where
  "fetch_dirs fuel drv fetch_list fnm md5 need_modtimes [] files r = Some (Inr (SITE_OK, files, r))"
| "fetch_dirs 0 drv fetch_list fnm md5 need_modtimes (d # dirstack) files r = Some (Inl ())"
| "fetch_dirs (Suc fuel) drv fetch_list fnm md5 need_modtimes (reldir # dirstack) files r =
     do { root \<leftarrow> s_remote_root (r_site r);
          let slash = (if reldir = '''' then '''' else ''/'');
          let ((ret, newfiles), r) = call (fetch_list (root @ reldir @ slash) need_modtimes) r;
          if ret \<noteq> SITE_OK then Some (Inr (ret, files, r))
          else do { (dirstack, newfiles, r) \<leftarrow>
                      fetch_entries drv fnm md5 (reldir @ slash) newfiles dirstack r;
                    fetch_dirs fuel drv fetch_list fnm md5 need_modtimes dirstack
                      (newfiles @ files) r } }"

text \<open>Replacing the stored state by the files that were listed.\<close>

fun fetch_add_all :: "matcher \<Rightarrow> int \<Rightarrow> proto_file list \<Rightarrow> 'w run \<Rightarrow> 'w run option" where
  "fetch_add_all fnm now [] r = Some r"
| "fetch_add_all fnm now (f # files) r =
     do { r \<leftarrow> (if \<not> file_isexcluded fnm (pf_filename f) (r_site r)
                then do { (a, s) \<leftarrow> fetch_add_file fnm now f (r_site r);
                          sf \<leftarrow> get_file a s;
                          Some (notify (fe_fetch_found sf) (r\<lparr>r_site := s\<rparr>)) }
                else Some r);
          fetch_add_all fnm now files r }"

definition site_fetch ::
    "nat \<Rightarrow> 'w proto_driver \<Rightarrow> matcher \<Rightarrow> (string \<Rightarrow> char list) \<Rightarrow> int \<Rightarrow> 'w run
     \<Rightarrow> (unit + 'w run \<times> int) option" where
  "site_fetch fuel drv fnm md5 now r =
     (let (ret, r) = proto_init drv r
      in if ret \<noteq> SITE_OK then Some (Inr (proto_finish drv r, ret))
         else case d_fetch_list drv of
           None \<Rightarrow> Some (Inr (proto_finish drv r, SITE_UNSUPPORTED))
         | Some fetch_list \<Rightarrow>
             (let need_modtimes = s_safemode (r_site r) \<or> s_state_method (r_site r) = state_timesize
              in do { res \<leftarrow> fetch_dirs fuel drv fetch_list fnm md5 need_modtimes [''''] [] r;
                      case res of
                        Inl _ \<Rightarrow> Some (Inl ())
                      | Inr (ret, files, r) \<Rightarrow>
                          if ret = SITE_OK
                          then do { r \<leftarrow> on_site site_destroy_stored r;
                                    r \<leftarrow> fetch_add_all fnm now files r;
                                    Some (Inr (proto_finish drv r, SITE_OK)) }
                          else Some (Inr (proto_finish drv r, SITE_FAILED)) }))"

section \<open>Verify mode\<close>

definition site_verify ::
    "'w proto_driver \<Rightarrow> 'w run \<Rightarrow> ('w run \<times> int \<times> int option) option" where
  "site_verify drv r =
     (let (ret, r) = proto_init drv r
      in if ret \<noteq> SITE_OK then Some (r, ret, None)
         else case d_fetch_list drv of
           None \<Rightarrow> Some (r, SITE_UNSUPPORTED, None)
         | Some fetch_list \<Rightarrow>
             do { root \<leftarrow> s_remote_root (r_site r);
                  let ((ret, files), r) = call (fetch_list root True) r;
                  let r = proto_finish drv r;
                  if ret = SITE_OK
                  then do { (ret, numremoved, log) \<leftarrow> site_verify_compare (r_site r) files;
                            Some (foldl (\<lambda>r (n, d). notify (fe_verified n d) r) r log,
                                  ret, Some numremoved) }
                  else Some (r, SITE_FAILED, None) })"

section \<open>What synchronise mode asks of the server\<close>

abbreviation read_only where
  "read_only drv mv up upc del chm mkd rmd lc lch ld \<equiv> drv\<lparr>d_file_move := mv, d_file_upload := up,
     d_file_upload_cond := upc, d_file_delete := del, d_file_chmod := chm, d_dir_create := mkd,
     d_dir_remove := rmd, d_link_create := lc, d_link_change := lch, d_link_delete := ld\<rparr>"

lemma synch_files_read_only:
  "synch_files (read_only drv mv up upc del chm mkd rmd lc lch ld) os = synch_files drv os"
proof -
  let ?d = "read_only drv mv up upc del chm mkd rmd lc lch ld"
  have e: "driver_err ?d = driver_err drv" by (rule ext) (simp add: driver_err_def)
  have f: "d_file_download ?d = d_file_download drv" by simp
  have dl: "synch_download ?d = synch_download drv"
    by (rule ext)+ (simp only: synch_download_def e f)
  show ?thesis by (simp only: synch_files_def synch_files_body_def [abs_def] dl)
qed

text \<open>C17. Synchronise mode changes the local site, never the server: whatever the driver's
  functions that upload, move, delete, create or change permissions do, \<^verbatim>\<open>site_synch\<close> has the same
  effect; it only downloads.\<close>

theorem site_synch_read_only:
  "site_synch (drv\<lparr>d_file_move := mv, d_file_upload := up,
     d_file_upload_cond := upc, d_file_delete := del, d_file_chmod := chm, d_dir_create := mkd,
     d_dir_remove := rmd, d_link_create := lc, d_link_change := lch, d_link_delete := ld\<rparr>) os r
   = site_synch drv os r"
proof -
  let ?d = "read_only drv mv up upc del chm mkd rmd lc lch ld"
  have p: "proto_init ?d = proto_init drv" "proto_finish ?d = proto_finish drv"
    by ((rule ext)+, cases drv, simp only: driver_err_def proto_init_def proto_finish_def
        proto_seterror_def proto_driver.select_convs proto_driver.update_convs)+
  show ?thesis unfolding site_synch_def p synch_files_read_only by (rule refl)
qed

section \<open>Fetch mode\<close>

lemma fetch_checksum_file_site:
  "s_remote_root (r_site r) \<noteq> None \<Longrightarrow> \<exists>f' r'. fetch_checksum_file drv md5 f r = Some (f', r')
    \<and> r_site r' = r_site r \<and> pf_type f' = pf_type f \<and> pf_filename f' = pf_filename f"
  by (auto simp: fetch_checksum_file_def Let_def case_prod_beta')

text \<open>The server's directory tree, apart from the code: an entry has its kind, its name and, if it
  is a directory, the entries in it.\<close>

datatype remote = Remote (remote_kind: proto_filetype) (remote_name: string) (remote_kids: "remote list")

definition in_dir :: "string \<Rightarrow> string" where
  "in_dir reldir = (if reldir = '''' then '''' else reldir @ ''/'')"

text \<open>The whole tree below a directory: every entry with its name relative to the root, an excluded
  entry left out with all that is below it.\<close>

fun tree_entries :: "(string \<Rightarrow> bool) \<Rightarrow> string \<Rightarrow> remote list \<Rightarrow> (proto_filetype \<times> string) multiset" where
  "tree_entries ex prefix [] = {#}"
| "tree_entries ex prefix (Remote k n below # kids) =
     (if ex (prefix @ n) then {#}
      else {#(k, prefix @ n)#}
           + (if k = proto_dir then tree_entries ex (in_dir (prefix @ n)) below else {#}))
     + tree_entries ex prefix kids"

text \<open>The number of its directories, and the greatest number of directories that are found but not
  yet listed, when \<open>n\<close> wait already.\<close>

fun tree_dirs :: "(string \<Rightarrow> bool) \<Rightarrow> string \<Rightarrow> remote list \<Rightarrow> nat" where
  "tree_dirs ex prefix [] = 0"
| "tree_dirs ex prefix (Remote k n below # kids) =
     (if k = proto_dir \<and> \<not> ex (prefix @ n) then Suc (tree_dirs ex (in_dir (prefix @ n)) below) else 0)
     + tree_dirs ex prefix kids"

fun tree_waiting :: "(string \<Rightarrow> bool) \<Rightarrow> nat \<Rightarrow> string \<Rightarrow> remote list \<Rightarrow> nat" where
  "tree_waiting ex m prefix [] = m"
| "tree_waiting ex m prefix (Remote k n below # kids) =
     (if k = proto_dir \<and> \<not> ex (prefix @ n)
      then max (tree_waiting ex m (in_dir (prefix @ n)) below) (tree_waiting ex (Suc m) prefix kids)
      else tree_waiting ex m prefix kids)"

text \<open>A server that holds the tree: whenever one of its directories is listed with success, the
  listing has the entries of the directory in their order.\<close>

type_synonym 'w lister = "string \<Rightarrow> bool \<Rightarrow> 'w \<Rightarrow> (int \<times> proto_file list) \<times> 'w"

definition lists_as :: "'w lister \<Rightarrow> string \<Rightarrow> string \<Rightarrow> remote list \<Rightarrow> bool" where
  "lists_as fl root reldir kids \<longleftrightarrow>
     (\<forall>need w. fst (fst (fl (root @ in_dir reldir) need w)) = SITE_OK \<longrightarrow>
        map (\<lambda>f. (pf_type f, pf_filename f)) (snd (fst (fl (root @ in_dir reldir) need w)))
        = map (\<lambda>k. (remote_kind k, remote_name k)) kids)"

definition lists_always :: "'w lister \<Rightarrow> bool" where
  "lists_always fl \<longleftrightarrow> (\<forall>d need w. fst (fst (fl d need w)) = SITE_OK)"

fun holds :: "'w lister \<Rightarrow> string \<Rightarrow> string \<Rightarrow> remote list \<Rightarrow> bool" where
  "holds fl root prefix [] \<longleftrightarrow> True"
| "holds fl root prefix (Remote k n below # kids) \<longleftrightarrow>
     (k = proto_dir \<longrightarrow> lists_as fl root (prefix @ n) below \<and> holds fl root (in_dir (prefix @ n)) below)
     \<and> holds fl root prefix kids"

definition serves :: "'w lister \<Rightarrow> string \<Rightarrow> string \<Rightarrow> remote list \<Rightarrow> bool" where
  "serves fl root reldir kids \<longleftrightarrow> lists_as fl root reldir kids \<and> holds fl root (in_dir reldir) kids"

text \<open>The stack of the loop, with the entries of each directory on it.\<close>

type_synonym tree_stack = "(string \<times> remote list) list"

primrec stack_entries :: "(string \<Rightarrow> bool) \<Rightarrow> tree_stack \<Rightarrow> (proto_filetype \<times> string) multiset" where
  "stack_entries ex [] = {#}"
| "stack_entries ex (d # st) = tree_entries ex (in_dir (fst d)) (snd d) + stack_entries ex st"

primrec stack_dirs :: "(string \<Rightarrow> bool) \<Rightarrow> tree_stack \<Rightarrow> nat" where
  "stack_dirs ex [] = 0"
| "stack_dirs ex (d # st) = Suc (tree_dirs ex (in_dir (fst d)) (snd d)) + stack_dirs ex st"

primrec stack_fits :: "(string \<Rightarrow> bool) \<Rightarrow> tree_stack \<Rightarrow> bool" where
  "stack_fits ex [] = True"
| "stack_fits ex (d # st) =
     (tree_waiting ex (length st) (in_dir (fst d)) (snd d) \<le> DIRSTACKSIZE \<and> stack_fits ex st)"

lemma stack_append:
  "stack_entries ex (st @ st') = stack_entries ex st + stack_entries ex st'"
  "stack_dirs ex (st @ st') = stack_dirs ex st + stack_dirs ex st'"
  by (induction st) (simp_all add: ac_simps)

lemma tree_waiting_ge: "m \<le> tree_waiting ex m prefix kids"
  by (induction ex m prefix kids rule: tree_waiting.induct) auto

text \<open>What was listed and is not excluded.\<close>

definition pf_entries :: "(string \<Rightarrow> bool) \<Rightarrow> proto_file list \<Rightarrow> (proto_filetype \<times> string) multiset" where
  "pf_entries ex files = mset (map (\<lambda>f. (pf_type f, pf_filename f))
     (filter (\<lambda>f. \<not> ex (pf_filename f)) files))"

lemma pf_entries_simps [simp]:
  "pf_entries ex [] = {#}"
  "pf_entries ex (f # files) =
     (if ex (pf_filename f) then {#} else {#(pf_type f, pf_filename f)#}) + pf_entries ex files"
  "pf_entries ex (files @ files') = pf_entries ex files + pf_entries ex files'"
  by (simp_all add: pf_entries_def)

lemma fetch_entry_result:
  assumes "s_remote_root (r_site r) \<noteq> None"
  shows "\<exists>g r'. fetch_entry drv fnm md5 prefix f dirstack r
      = Some (if pf_type f = proto_dir \<and> \<not> file_isexcluded fnm (prefix @ pf_filename f) (r_site r)
                 \<and> length dirstack < DIRSTACKSIZE
              then (prefix @ pf_filename f) # dirstack else dirstack, g, r')
    \<and> r_site r' = r_site r \<and> pf_filename g = prefix @ pf_filename f \<and> pf_type g = pf_type f"
  using fetch_checksum_file_site [OF assms, of drv md5 "f\<lparr>pf_filename := prefix @ pf_filename f\<rparr>"]
  by (auto simp: fetch_entry_def Let_def)

definition entries_ok where
  "entries_ok ex fl root prefix kids st new fs \<longleftrightarrow>
     pf_entries ex fs + stack_entries ex new \<subseteq># tree_entries ex prefix kids
   \<and> stack_dirs ex new \<le> tree_dirs ex prefix kids
   \<and> (\<forall>d \<in> set new. serves fl root (fst d) (snd d))
   \<and> (tree_waiting ex (length st) prefix kids \<le> DIRSTACKSIZE \<and> stack_fits ex st
        \<longrightarrow> pf_entries ex fs + stack_entries ex new = tree_entries ex prefix kids
          \<and> stack_fits ex (new @ st))"

lemma fetch_entries_result:
  assumes "s_remote_root (r_site r) \<noteq> None" and "holds fl root prefix kids"
    and "map (\<lambda>f. (pf_type f, pf_filename f)) newfiles = map (\<lambda>k. (remote_kind k, remote_name k)) kids"
    and "ex = (\<lambda>n. file_isexcluded fnm n (r_site r))"
  shows "\<exists>fs r' new. fetch_entries drv fnm md5 prefix newfiles (map fst st) r
      = Some (map fst (new @ st), fs, r') \<and> r_site r' = r_site r
    \<and> entries_ok ex fl root prefix kids st new fs"
  using assms
proof (induction kids arbitrary: newfiles st r)
  case Nil
  then show ?case by (simp add: entries_ok_def)
next
  case (Cons kid kids)
  obtain k n below where kid: "kid = Remote k n below" by (cases kid)
  obtain f rest where nf: "newfiles = f # rest" "pf_type f = k" "pf_filename f = n"
      "map (\<lambda>f. (pf_type f, pf_filename f)) rest = map (\<lambda>k. (remote_kind k, remote_name k)) kids"
    using Cons.prems(3) kid by (cases newfiles) auto
  let ?st = "if k = proto_dir \<and> \<not> ex (prefix @ n) \<and> length st < DIRSTACKSIZE
    then (prefix @ n, below) # st else st"
  obtain g r1 where g: "fetch_entry drv fnm md5 prefix f (map fst st) r = Some (map fst ?st, g, r1)"
      "r_site r1 = r_site r" "pf_filename g = prefix @ n" "pf_type g = k"
    using fetch_entry_result [OF Cons.prems(1), of drv fnm md5 prefix f "map fst st"] nf
    by (auto simp: Cons.prems(4))
  have h: "holds fl root prefix kids"
      "k = proto_dir \<Longrightarrow> serves fl root (prefix @ n) below"
    using Cons.prems(2) by (simp_all add: kid serves_def)
  obtain fs r2 new where ih: "fetch_entries drv fnm md5 prefix rest (map fst ?st) r1
        = Some (map fst (new @ ?st), fs, r2)" "r_site r2 = r_site r1"
      "entries_ok ex fl root prefix kids ?st new fs"
    using Cons.IH [OF _ h(1) nf(4), of r1 ?st] Cons.prems(1,4) g(2) by auto
  let ?new = "new @ (if ?st = st then [] else [(prefix @ n, below)])"
  have new: "new @ ?st = ?new @ st" by simp
  have "entries_ok ex fl root prefix (kid # kids) st ?new (g # fs)"
  proof -
    note ge = tree_waiting_ge [of "Suc (length st)" ex prefix kids]
    from ih(3) h(2) show ?thesis
      using ge by (auto simp: entries_ok_def kid g(3,4) stack_append ac_simps
          intro: subset_mset.add_mono subset_mset.order_trans)
  qed
  moreover have "fetch_entries drv fnm md5 prefix newfiles (map fst st) r
      = Some (map fst (?new @ st), g # fs, r2)"
    unfolding nf(1) fetch_entries.simps g(1) bind.bind_lunit case_prod_conv ih(1) new by (rule refl)
  ultimately show ?case using g(2) ih(2)
    by (intro exI [of _ "g # fs"] exI [of _ r2] exI [of _ ?new] conjI) simp_all
qed

lemma fetch_dirs_result:
  assumes "s_remote_root (r_site r) = Some root" and "\<forall>d \<in> set st. serves fl root (fst d) (snd d)"
    and "stack_dirs ex st \<le> fuel" and "ex = (\<lambda>n. file_isexcluded fnm n (r_site r))"
  shows "\<exists>ret files' r'. fetch_dirs fuel drv fl fnm md5 need (map fst st) files r
      = Some (Inr (ret, files', r')) \<and> r_site r' = r_site r
    \<and> (ret = SITE_OK \<longrightarrow> pf_entries ex files' \<subseteq># pf_entries ex files + stack_entries ex st
        \<and> (stack_fits ex st \<longrightarrow> pf_entries ex files' = pf_entries ex files + stack_entries ex st))
    \<and> (lists_always fl \<longrightarrow> ret = SITE_OK)"
  using assms
proof (induction fuel arbitrary: st files r)
  case 0
  then show ?case by (cases st) auto
next
  case (Suc fuel)
  show ?case
  proof (cases st)
    case Nil
    then show ?thesis by simp
  next
    case (Cons d ds)
    obtain reldir kids where d: "d = (reldir, kids)" by (cases d)
    define x where "x = call (fl (root @ in_dir reldir) need) r"
    obtain ret newfiles r1 where x: "x = ((ret, newfiles), r1)" by (cases x) auto
    have nf: "ret = fst (fst (fl (root @ in_dir reldir) need (r_world r)))"
        "newfiles = snd (fst (fl (root @ in_dir reldir) need (r_world r)))"
      using x by (simp_all add: x_def call_def case_prod_beta' Let_def)
    have r1: "r_site r1 = r_site r"
      using x run_simps(4) [of "fl (root @ in_dir reldir) need" r] by (simp add: x_def)
    have path: "root @ reldir @ (if reldir = '''' then '''' else ''/'') = root @ in_dir reldir"
        "reldir @ (if reldir = '''' then '''' else ''/'') = in_dir reldir"
      by (simp_all add: in_dir_def)
    have eq: "fetch_dirs (Suc fuel) drv fl fnm md5 need (map fst st) files r =
      (if ret \<noteq> SITE_OK then Some (Inr (ret, files, r1))
       else do { (dirstack, newfiles, r) \<leftarrow> fetch_entries drv fnm md5 (in_dir reldir) newfiles (map fst ds) r1;
                 fetch_dirs fuel drv fl fnm md5 need dirstack (newfiles @ files) r })"
      using Suc.prems(1) x by (cases "reldir = ''''") (simp_all add: Cons d x_def in_dir_def Let_def)
    show ?thesis
    proof (cases "ret = SITE_OK")
      case False
      then show ?thesis using eq r1 nf(1) by (auto simp: lists_always_def)
    next
      case True
      have sv: "lists_as fl root reldir kids" "holds fl root (in_dir reldir) kids"
        using Suc.prems(2) by (simp_all add: Cons d serves_def)
      have kids: "map (\<lambda>f. (pf_type f, pf_filename f)) newfiles
          = map (\<lambda>k. (remote_kind k, remote_name k)) kids"
        using sv(1) nf True unfolding lists_as_def by blast
      obtain fs r2 new where e: "fetch_entries drv fnm md5 (in_dir reldir) newfiles (map fst ds) r1
            = Some (map fst (new @ ds), fs, r2)" "r_site r2 = r_site r1"
          "entries_ok ex fl root (in_dir reldir) kids ds new fs"
        using fetch_entries_result [OF _ sv(2) kids, of r1 ex fnm drv md5 ds] r1 Suc.prems(1,4) by auto
      have f: "fetch_dirs (Suc fuel) drv fl fnm md5 need (map fst st) files r
          = fetch_dirs fuel drv fl fnm md5 need (map fst (new @ ds)) (fs @ files) r2"
        unfolding eq e(1) using True by simp
      have "\<forall>d \<in> set (new @ ds). serves fl root (fst d) (snd d)"
        using Suc.prems(2) e(3) by (auto simp: Cons entries_ok_def)
      moreover have "stack_dirs ex (new @ ds) \<le> fuel"
        using Suc.prems(3) e(3) by (simp add: Cons d stack_append entries_ok_def)
      ultimately obtain ret' files' r' where ih:
          "fetch_dirs fuel drv fl fnm md5 need (map fst (new @ ds)) (fs @ files) r2
             = Some (Inr (ret', files', r'))" "r_site r' = r_site r2"
          "ret' = SITE_OK \<Longrightarrow> pf_entries ex files'
             \<subseteq># pf_entries ex (fs @ files) + stack_entries ex (new @ ds)"
          "ret' = SITE_OK \<Longrightarrow> stack_fits ex (new @ ds) \<Longrightarrow> pf_entries ex files'
             = pf_entries ex (fs @ files) + stack_entries ex (new @ ds)"
          "lists_always fl \<longrightarrow> ret' = SITE_OK"
        using Suc.IH [of r2 "new @ ds" "fs @ files"] Suc.prems(1,4) e(2) r1 by auto
      have step: "pf_entries ex fs + stack_entries ex new \<subseteq># tree_entries ex (in_dir reldir) kids"
          "stack_fits ex st \<Longrightarrow> pf_entries ex fs + stack_entries ex new
             = tree_entries ex (in_dir reldir) kids \<and> stack_fits ex (new @ ds)"
        using e(3) by (auto simp: entries_ok_def Cons d)
      have all: "pf_entries ex (fs @ files) + stack_entries ex (new @ ds)
          = pf_entries ex files + (pf_entries ex fs + stack_entries ex new) + stack_entries ex ds"
        by (simp add: stack_append ac_simps)
      have "pf_entries ex (fs @ files) + stack_entries ex (new @ ds)
          \<subseteq># pf_entries ex files + stack_entries ex st"
        unfolding all using step(1) by (simp add: Cons d ac_simps)
      moreover have "pf_entries ex (fs @ files) + stack_entries ex (new @ ds)
          = pf_entries ex files + stack_entries ex st \<and> stack_fits ex (new @ ds)"
        if "stack_fits ex st" unfolding all using step(2) [OF that] by (simp add: Cons d ac_simps)
      ultimately show ?thesis unfolding f ih(1) using ih(2-5) e(2) r1
        by (auto intro: subset_mset.order_trans)
    qed
  qed
qed

text \<open>The stored names that a fetch of these entries leaves.\<close>

definition fetched_names :: "(proto_filetype \<times> string) multiset \<Rightarrow> (file_type \<times> string option) multiset" where
  "fetched_names es = image_mset (\<lambda>(k, n). (fetch_type k, Some n)) es"

lemma fetch_add_all_result:
  assumes "site_inv (r_site r)" and "\<forall>e \<in># pf_entries (\<lambda>n. file_isexcluded fnm n (r_site r)) files. fst e \<noteq> proto_link"
  shows "\<exists>r'. fetch_add_all fnm now files r = Some r' \<and> site_inv (r_site r')
    \<and> opts (r_site r') = opts (r_site r)
    \<and> states m_local (r_site r') = states m_local (r_site r)
    \<and> stored_names (r_site r') = stored_names (r_site r)
        + fetched_names (pf_entries (\<lambda>n. file_isexcluded fnm n (r_site r)) files)"
  using assms
proof (induction files arbitrary: r)
  case (Cons f files)
  show ?case
  proof (cases "file_isexcluded fnm (pf_filename f) (r_site r)")
    case True
    then show ?thesis using Cons by simp
  next
    case False
    obtain a t g where t: "fetch_add_file fnm now f (r_site r) = Some (a, t)" "site_inv t"
        "opts t = opts (r_site r)" "states m_local t = states m_local (r_site r)"
        "stored_names t = add_mset (fetch_type (pf_type f), Some (pf_filename f)) (stored_names (r_site r))"
        "get_file a t = Some g"
      using fetch_add_file_result [of "r_site r" f fnm now] Cons.prems False by auto
    let ?r = "notify (fe_fetch_found g) (r\<lparr>r_site := t\<rparr>)"
    have ex: "file_isexcluded fnm n t = file_isexcluded fnm n (r_site r)" for n
      using opts_fields(16) [OF t(3)] by (simp add: file_isexcluded_def)
    have "site_inv (r_site ?r)" using t(2) by simp
    from Cons.IH [OF this] obtain r' where r': "fetch_add_all fnm now files ?r = Some r'"
        "site_inv (r_site r')" "opts (r_site r') = opts t"
        "states m_local (r_site r') = states m_local t"
        "stored_names (r_site r') = stored_names t
          + fetched_names (pf_entries (\<lambda>n. file_isexcluded fnm n (r_site r)) files)"
      using Cons.prems(2) False by (auto simp: ex)
    then show ?thesis using False t by (simp add: fetched_names_def)
  qed
qed (simp add: fetched_names_def)

lemma last_error_inv [simp]: "site_inv (s\<lparr>s_last_error := e\<rparr>) = site_inv s"
proof -
  have "counter k (s\<lparr>s_last_error := e\<rparr>) = counter k s" for k by (cases k) simp_all
  then show ?thesis
    by (simp add: site_inv_def files_ok_def stats_ok_def flags_ok_def file_ok_def
        site_stats_update_def)
qed

lemma last_error_states [simp]: "states m (s\<lparr>s_last_error := e\<rparr>) = states m s"
  "stored_names (s\<lparr>s_last_error := e\<rparr>) = stored_names s"
  by (simp_all add: states_def stored_names_def)

lemma last_error_excluded [simp]:
  "file_isexcluded fnm n (s\<lparr>s_last_error := e\<rparr>) = file_isexcluded fnm n s"
  by (simp add: file_isexcluded_def)

lemma proto_site:
  "\<exists>e. r_site (snd (proto_init drv r)) = (r_site r)\<lparr>s_last_error := e\<rparr>"
  "\<exists>e. r_site (proto_finish drv r) = (r_site r)\<lparr>s_last_error := e\<rparr>"
  by (auto simp: proto_init_def proto_finish_def proto_seterror_def Let_def case_prod_beta')

lemma excluded_opts:
  "opts s = opts t \<Longrightarrow> file_isexcluded fnm n s = file_isexcluded fnm n t"
  using opts_fields(16) [of s t] by (simp add: file_isexcluded_def)

text \<open>C7. Fetch mode, with a server that holds the directory tree \<open>tree\<close> (whenever it lists one of
  the directories with success, the listing has the entries of that directory), in which no entry
  that counts is a symbolic link: a listing for the root and for each directory not excluded is
  enough for the loop over the directories to end, NULL is never dereferenced, and the invariant
  holds at the end.  The local states are kept.  When \<^verbatim>\<open>SITE_OK\<close> is returned, the stored states
  are, by kind and name, the entries of the whole tree that are neither excluded nor below an
  excluded directory; \<^verbatim>\<open>DIRSTACKSIZE\<close> limits this: when more directories than it has room for wait
  to be listed, some are not visited and only the others are stored.  Otherwise the files list is
  untouched; with a connection and every listing a success, \<^verbatim>\<open>SITE_OK\<close> is returned.\<close>

theorem site_fetch_correct:
  assumes inv: "site_inv (r_site r)" and root: "s_remote_root (r_site r) = Some root"
    and fl: "d_fetch_list drv = Some fl" and serves: "serves fl root '''' tree"
    and ex: "ex = (\<lambda>n. file_isexcluded fnm n (r_site r))"
    and nl: "\<forall>e \<in># tree_entries ex '''' tree. fst e \<noteq> proto_link"
    and fuel: "tree_dirs ex '''' tree < fuel"
  shows "\<exists>r' ret. site_fetch fuel drv fnm md5 now r = Some (Inr (r', ret)) \<and> site_inv (r_site r')
    \<and> states m_local (r_site r') = states m_local (r_site r)
    \<and> (ret = SITE_OK \<longrightarrow> stored_names (r_site r') \<subseteq># fetched_names (tree_entries ex '''' tree)
        \<and> (tree_waiting ex 0 '''' tree \<le> DIRSTACKSIZE
             \<longrightarrow> stored_names (r_site r') = fetched_names (tree_entries ex '''' tree)))
    \<and> (ret \<noteq> SITE_OK \<longrightarrow> s_files (r_site r') = s_files (r_site r))
    \<and> (fst (proto_init drv r) = SITE_OK \<and> lists_always fl
         \<longrightarrow> ret = SITE_OK)"
proof -
  obtain ret0 r0 where i: "proto_init drv r = (ret0, r0)" by (cases "proto_init drv r")
  obtain e where r0: "r_site r0 = (r_site r)\<lparr>s_last_error := e\<rparr>"
    using proto_site(1) [of drv r] i by auto
  note fin = proto_site(2) [of drv]
  show ?thesis
  proof (cases "ret0 = SITE_OK")
    case False
    then show ?thesis using i fin [of r0] r0 inv by (auto simp: site_fetch_def)
  next
    case True
    let ?need = "s_safemode (r_site r0) \<or> s_state_method (r_site r0) = state_timesize"
    have st: "stack_dirs ex [('''', tree)] \<le> fuel" using fuel by (simp add: in_dir_def)
    obtain ret files r1 where d: "fetch_dirs fuel drv fl fnm md5 ?need [''''] [] r0
          = Some (Inr (ret, files, r1))" "r_site r1 = r_site r0"
        "ret = SITE_OK \<Longrightarrow> pf_entries ex files \<subseteq># tree_entries ex '''' tree"
        "ret = SITE_OK \<Longrightarrow> tree_waiting ex 0 '''' tree \<le> DIRSTACKSIZE
           \<Longrightarrow> pf_entries ex files = tree_entries ex '''' tree"
        "lists_always fl \<longrightarrow> ret = SITE_OK"
      using fetch_dirs_result [OF _ _ st, of r0 root fl fnm drv md5 ?need "[]"] root serves r0 ex
      by (auto simp: in_dir_def)
    show ?thesis
    proof (cases "ret = SITE_OK")
      case False
      then show ?thesis
        using i True fl d(1,2,5) fin [of r1] r0 inv by (auto simp: site_fetch_def Let_def)
    next
      case ok: True
      obtain t where t: "site_destroy_stored (r_site r1) = Some t" "kept (r_site r1) t"
          "\<forall>a. fresh_stored a t"
        using site_destroy_stored_result [of "r_site r1"] d(2) r0 inv by auto
      have t': "site_inv t" "opts t = opts (r_site r1)" "states m_local t = states m_local (r_site r1)"
        using t(2) by (simp_all add: kept_def)
      have "states m_stored t = {#}"
        by (rule states_none [OF t'(1)])
          (use t(3) in \<open>auto simp: fresh_stored_def zero_state_def split: option.splits\<close>)
      then have n0: "stored_names t = {#}" by (simp add: stored_names_def)
      have ext: "(\<lambda>n. file_isexcluded fnm n t) = ex"
        using excluded_opts [OF t'(2)] d(2) r0 ex by simp
      have nl': "\<forall>e \<in># pf_entries ex files. fst e \<noteq> proto_link"
        using mset_subset_eqD [OF d(3) [OF ok]] nl by blast
      obtain r2 where r2: "fetch_add_all fnm now files (r1\<lparr>r_site := t\<rparr>) = Some r2"
          "site_inv (r_site r2)" "states m_local (r_site r2) = states m_local t"
          "stored_names (r_site r2) = fetched_names (pf_entries ex files)"
        using fetch_add_all_result [of "r1\<lparr>r_site := t\<rparr>" fnm files now] t'(1) nl' n0 ext by auto
      have "fetched_names (pf_entries ex files) \<subseteq># fetched_names (tree_entries ex '''' tree)"
        unfolding fetched_names_def by (rule image_mset_subseteq_mono [OF d(3) [OF ok]])
      then show ?thesis
        using i True fl d(1) d(4) [OF ok] ok t(1) r2 fin [of r2] t' d(2) r0
        by (auto simp: site_fetch_def Let_def)
    qed
  qed
qed

definition list_driver :: "unit proto_driver" where
  "list_driver = ok_driver\<lparr>d_fetch_list := Some (\<lambda>d _ w. ((SITE_OK,
     if d = ''/www/'' then [example_pf\<lparr>pf_filename := ''sub'', pf_type := proto_dir\<rparr>]
     else if d = ''/www/sub/'' then [example_pf\<lparr>pf_filename := ''a''\<rparr>] else []), w))\<rparr>"

definition list_tree :: "remote list" where
  "list_tree = [Remote proto_dir ''sub'' [Remote proto_file ''a'' []]]"

lemma site_fetch_correct_witness:
  "\<exists>r' ret. site_fetch 2 list_driver (\<lambda>_ _ _. False) id 77 example_run = Some (Inr (r', ret))
    \<and> ret = SITE_OK \<and> stored_names (r_site r')
        = {#(file_dir, Some ''sub''), (file_file, Some ''sub/a'')#}"
proof -
  have fl: "d_fetch_list list_driver = Some (the (d_fetch_list list_driver))"
    by (simp add: list_driver_def)
  have none: "(\<lambda>n. file_isexcluded (\<lambda>_ _ _. False) n (r_site example_run)) = (\<lambda>_. False)"
    by (rule ext) (simp add: example_run_def rooted_example_def file_isexcluded_def example_site_def zero_site_def)
  have sv: "serves (the (d_fetch_list list_driver)) ''/www/'' '''' list_tree"
      "lists_always (the (d_fetch_list list_driver))"
    by (simp_all add: list_driver_def list_tree_def serves_def lists_as_def lists_always_def
        in_dir_def example_pf_def)
  have site: "site_inv (r_site example_run)" "s_remote_root (r_site example_run) = Some ''/www/''"
    using example_run_ready by (simp_all add: ready_def example_run_def rooted_example_def)
  have init: "fst (proto_init list_driver example_run) = SITE_OK"
    by (simp add: list_driver_def ok_driver_def proto_init_def call_def)
  have tree: "\<forall>e \<in># tree_entries (\<lambda>_. False) '''' list_tree. fst e \<noteq> proto_link"
      "tree_dirs (\<lambda>_. False) '''' list_tree < 2"
      "tree_waiting (\<lambda>_. False) 0 '''' list_tree \<le> DIRSTACKSIZE"
    by (simp_all add: list_tree_def in_dir_def DIRSTACKSIZE_def)
  have "\<exists>r' ret. site_fetch 2 list_driver (\<lambda>_ _ _. False) id 77 example_run = Some (Inr (r', ret))
    \<and> ret = SITE_OK
    \<and> stored_names (r_site r') = fetched_names (tree_entries (\<lambda>_. False) '''' list_tree)"
    using site_fetch_correct [OF site fl sv(1) none [symmetric] tree(1,2), of id 77]
      init sv(2) tree(3) by auto
  then show ?thesis by (simp add: fetched_names_def list_tree_def in_dir_def add_mset_commute)
qed

end
