(* ===== verification/Site_Scan.thy ===== *)
theory Site_Scan
  imports Site_Synch "HOL-Library.Sublist"
begin

text \<open>
  The scan of the local directories: \<open>site_read_local_state\<close>, \<open>site_read_local_dirs\<close> and
  \<open>site_autoupdate\<close> of \<^verbatim>\<open>src/sites.c\<close>.  The local file system is a parameter: what
  \<^verbatim>\<open>readdir\<close>, \<^verbatim>\<open>lstat\<close>, \<^verbatim>\<open>stat\<close>, \<^verbatim>\<open>readlink\<close> and \<^verbatim>\<open>file_checksum\<close> return for a path
  (\<^const>\<open>None\<close> is failure), the same throughout the scan.  The loop over the stack of
  directories takes fuel, since links that are followed may make the tree infinite.
\<close>

section \<open>Definitions\<close>

datatype file_kind = S_REG | S_LNK | S_DIR | S_OTHER

record stat_buf =
  st_kind :: file_kind
  st_mtime :: int
  st_size :: int
  st_mode :: mode_t

record fsys =
  y_readdir :: "string \<Rightarrow> string list option"
  y_lstat :: "string \<Rightarrow> stat_buf option"
  y_stat :: "string \<Rightarrow> stat_buf option"
  y_readlink :: "string \<Rightarrow> string option"
  y_checksum :: "string \<Rightarrow> char list option"

definition special_entry :: "string \<Rightarrow> bool" where
  "special_entry d_name \<longleftrightarrow> d_name = ''.'' \<or> d_name = ''..''"

text \<open>What the loop body makes of one directory entry: nothing, a warning, or a file with its
  local state.\<close>

datatype entry = Skip | Warn string string | Found file_type file_state

text \<open>The rest of the local state, and \<open>fname\<close>, the path below the local root.\<close>

definition finish_state :: "string \<Rightarrow> stat_buf \<Rightarrow> file_state \<Rightarrow> file_state" where
  "finish_state fname item local =
     local\<lparr>fs_mode := and (st_mode item) 511, fs_exists := True, fs_filename := Some fname\<rparr>"

definition classify_item ::
    "fsys \<Rightarrow> matcher \<Rightarrow> site \<Rightarrow> string \<Rightarrow> string \<Rightarrow> stat_buf \<Rightarrow> entry option" where
  "classify_item y fnm s root full item =
     (let fname = drop (length root) full in
      if file_isexcluded fnm fname s then Some Skip
      else case st_kind item of
        S_REG \<Rightarrow>
          (let local = zero_state\<lparr>fs_size := st_size item, fs_ascii := file_isascii fnm fname s\<rparr>
           in case s_state_method s of
                state_timesize \<Rightarrow>
                  Some (Found file_file (finish_state fname item (local\<lparr>fs_time := st_mtime item\<rparr>)))
              | state_checksum \<Rightarrow>
                  (case y_checksum y full of
                     None \<Rightarrow> Some (Warn ''Could not checksum file'' full)
                   | Some digest \<Rightarrow>
                       Some (Found file_file (finish_state fname item (local\<lparr>fs_checksum := digest\<rparr>)))))
      | S_LNK \<Rightarrow>
          (case y_readlink y full of
             None \<Rightarrow> Some (Warn ''The target of the symlink could not be read.'' full)
           | Some target \<Rightarrow>
               if length target < BUFSIZ
               then Some (Found file_link (finish_state fname item
                      (zero_state\<lparr>fs_linktarget := Some target\<rparr>)))
               else None)
      | S_DIR \<Rightarrow> Some (Found file_dir (finish_state fname item zero_state))
      | S_OTHER \<Rightarrow> Some Skip)"

definition classify_entry ::
    "fsys \<Rightarrow> matcher \<Rightarrow> site \<Rightarrow> string \<Rightarrow> string \<Rightarrow> entry option" where
  "classify_entry y fnm s this d_name =
     do { root \<leftarrow> s_local_root s;
          if special_entry d_name then Some Skip
          else (let full = this @ d_name in
            case y_lstat y full of
              None \<Rightarrow> Some (Warn ''Could not examine file.'' full)
            | Some item \<Rightarrow>
                if st_kind item = S_LNK \<and> s_symlinks s = sitesym_ignore then Some Skip
                else if st_kind item = S_LNK \<and> s_symlinks s = sitesym_follow
                then (case y_stat y full of
                        None \<Rightarrow> Some Skip
                      | Some item \<Rightarrow> classify_item y fnm s root full item)
                else classify_item y fnm s root full item) }"

text \<open>The state of the scan: the stack of directories, the site, and the warnings so far.\<close>

type_synonym scan = "string list \<times> site \<times> (string \<times> string) list"

definition scan_entry :: "fsys \<Rightarrow> matcher \<Rightarrow> string \<Rightarrow> string \<Rightarrow> scan \<Rightarrow> scan option" where
  "scan_entry y fnm this d_name st =
     (let (dirstack, s, log) = st in
      do { e \<leftarrow> classify_entry y fnm s this d_name;
           case e of
             Skip \<Rightarrow> Some st
           | Warn w path \<Rightarrow> Some (dirstack, s, log @ [(w, path)])
           | Found type local \<Rightarrow>
               do { (a, s) \<leftarrow> file_set_local fnm type local s;
                    Some (if type = file_dir then (this @ d_name @ ''/'') # dirstack else dirstack,
                          s, log) } })"

fun scan_entries :: "fsys \<Rightarrow> matcher \<Rightarrow> string \<Rightarrow> string list \<Rightarrow> scan \<Rightarrow> scan option" where
  "scan_entries y fnm this [] st = Some st"
| "scan_entries y fnm this (d_name # rest) st =
     do { st \<leftarrow> scan_entry y fnm this d_name st; scan_entries y fnm this rest st }"

fun scan_dirs :: "nat \<Rightarrow> fsys \<Rightarrow> matcher \<Rightarrow> scan \<Rightarrow> (unit + site \<times> (string \<times> string) list) option"
where
  "scan_dirs fuel y fnm ([], s, log) = Some (Inr (s, log))"
| "scan_dirs 0 y fnm (this # dirstack, s, log) = Some (Inl ())"
| "scan_dirs (Suc fuel) y fnm (this # dirstack, s, log) =
     (case y_readdir y this of
        None \<Rightarrow> scan_dirs fuel y fnm (dirstack, s, log @ [(''Could not read directory'', this)])
      | Some names \<Rightarrow>
          do { st \<leftarrow> scan_entries y fnm this names (dirstack, s, log);
               scan_dirs fuel y fnm st })"

definition site_read_local_state ::
    "nat \<Rightarrow> fsys \<Rightarrow> matcher \<Rightarrow> site \<Rightarrow> (unit + site \<times> (string \<times> string) list) option" where
  "site_read_local_state fuel y fnm s =
     do { root \<leftarrow> s_local_root s; scan_dirs fuel y fnm ([root], s, []) }"

text \<open>\<open>site_read_local_dirs\<close> walks the same tree, without following links, and prints the
  directories it pushes; it changes nothing.\<close>

definition local_dir_entry ::
    "fsys \<Rightarrow> matcher \<Rightarrow> site \<Rightarrow> string \<Rightarrow> string \<Rightarrow> string \<Rightarrow> string list" where
  "local_dir_entry y fnm s root this d_name =
     (if special_entry d_name then []
      else let full = this @ d_name in
        case y_lstat y full of
          None \<Rightarrow> []
        | Some item \<Rightarrow>
            if \<not> file_isexcluded fnm (drop (length root) full) s \<and> st_kind item = S_DIR
            then [full @ ''/''] else [])"

fun local_dirs ::
    "nat \<Rightarrow> fsys \<Rightarrow> matcher \<Rightarrow> site \<Rightarrow> string \<Rightarrow> string list \<Rightarrow> unit + string list" where
  "local_dirs fuel y fnm s root [] = Inr []"
| "local_dirs 0 y fnm s root (this # dirstack) = Inl ()"
| "local_dirs (Suc fuel) y fnm s root (this # dirstack) =
     (let pushed = (case y_readdir y this of
                      None \<Rightarrow> []
                    | Some names \<Rightarrow> concat (map (local_dir_entry y fnm s root this) names))
      in case local_dirs fuel y fnm s root (rev pushed @ dirstack) of
           Inl e \<Rightarrow> Inl e
         | Inr printed \<Rightarrow> Inr (pushed @ printed))"

definition site_read_local_dirs ::
    "nat \<Rightarrow> fsys \<Rightarrow> matcher \<Rightarrow> site \<Rightarrow> (unit + string list) option" where
  "site_read_local_dirs fuel y fnm s =
     do { root \<leftarrow> s_local_root s;
          Some (case local_dirs fuel y fnm s root [root] of
                  Inl e \<Rightarrow> Inl e | Inr printed \<Rightarrow> Inr (root # printed)) }"

text \<open>\<open>site_autoupdate\<close> opens the connection and lists the local directories; the handlers of
  its table are never called.\<close>

definition site_autoupdate ::
    "nat \<Rightarrow> fsys \<Rightarrow> matcher \<Rightarrow> 'w proto_driver \<Rightarrow> 'w run \<Rightarrow> (unit + 'w run \<times> int \<times> string list) option"
where
  "site_autoupdate fuel y fnm drv r =
     (let (ret, r) = proto_init drv r
      in do { res \<leftarrow> site_read_local_dirs fuel y fnm (r_site r);
              Some (case res of Inl e \<Rightarrow> Inl e | Inr printed \<Rightarrow> Inr (r, ret, printed)) })"

section \<open>The files that a scan finds\<close>

fun found_files :: "entry option \<Rightarrow> (file_type \<times> file_state) list" where
  "found_files (Some (Found type local)) = [(type, local)]"
| "found_files e = []"

definition found_in :: "fsys \<Rightarrow> matcher \<Rightarrow> site \<Rightarrow> string \<Rightarrow> string list \<Rightarrow> (file_type \<times> file_state) list"
where
  "found_in y fnm s this names = concat (map (\<lambda>d. found_files (classify_entry y fnm s this d)) names)"

definition dirs_in :: "fsys \<Rightarrow> matcher \<Rightarrow> site \<Rightarrow> string \<Rightarrow> string list \<Rightarrow> string list" where
  "dirs_in y fnm s this names =
     concat (map (\<lambda>d. map (\<lambda>x. this @ d @ ''/'')
       (filter (\<lambda>x. fst x = file_dir) (found_files (classify_entry y fnm s this d)))) names)"

text \<open>The files of the tree below a stack of directories, as a list: what the scan should add.\<close>

fun local_tree ::
    "nat \<Rightarrow> fsys \<Rightarrow> matcher \<Rightarrow> site \<Rightarrow> string list \<Rightarrow> unit + (file_type \<times> file_state) list" where
  "local_tree fuel y fnm s [] = Inr []"
| "local_tree 0 y fnm s (this # dirstack) = Inl ()"
| "local_tree (Suc fuel) y fnm s (this # dirstack) =
     (let names = (case y_readdir y this of None \<Rightarrow> [] | Some names \<Rightarrow> names)
      in case local_tree fuel y fnm s (rev (dirs_in y fnm s this names) @ dirstack) of
           Inl e \<Rightarrow> Inl e
         | Inr files \<Rightarrow> Inr (found_in y fnm s this names @ files))"

lemma classify_opts:
  assumes "opts s = opts t"
  shows "classify_entry y fnm s this d = classify_entry y fnm t this d"
  unfolding classify_entry_def classify_item_def file_isexcluded_def file_isascii_def
    opts_fields [OF assms] by (rule refl)

lemma found_opts:
  assumes "opts s = opts t"
  shows "found_in y fnm s this names = found_in y fnm t this names"
    "dirs_in y fnm s this names = dirs_in y fnm t this names"
  unfolding found_in_def dirs_in_def classify_opts [OF assms] by (rule refl)+

definition short_links :: "fsys \<Rightarrow> bool" where
  "short_links y \<longleftrightarrow> (\<forall>path t. y_readlink y path = Some t \<longrightarrow> length t < BUFSIZ)"

lemma classify_total:
  assumes "s_local_root s \<noteq> None" "short_links y"
  shows "\<exists>e. classify_entry y fnm s this d = Some e"
proof -
  have "\<exists>e. classify_item y fnm s root full item = Some e" for root full item
    using assms(2) by (auto simp: classify_item_def Let_def short_links_def
        split: file_kind.split state_method.split option.split)
  then show ?thesis
    using assms(1) by (auto simp: classify_entry_def Let_def split: option.split)
qed

lemma classify_found:
  assumes "classify_entry y fnm s this d = Some (Found type local)"
  shows "fs_exists local \<and> wf_state type local"
  using assms
  by (auto simp: classify_entry_def classify_item_def Let_def bind_eq_Some_conv finish_state_def
      wf_state_def split: if_splits option.splits file_kind.splits state_method.splits)

lemma scan_entries_result:
  assumes "site_inv s" "s_local_root s \<noteq> None" "short_links y"
  shows "\<exists>s' log'. scan_entries y fnm this names (dirstack, s, log)
      = Some (rev (dirs_in y fnm s this names) @ dirstack, s', log')
    \<and> site_inv s' \<and> opts s' = opts s \<and> states m_stored s' = states m_stored s
    \<and> states m_local s' = states m_local s + mset (found_in y fnm s this names)
    \<and> undisturbed s s'"
  using assms
proof (induction names arbitrary: dirstack s log)
  case Nil
  then show ?case by (simp add: dirs_in_def found_in_def)
next
  case (Cons d names)
  obtain e where e: "classify_entry y fnm s this d = Some e"
    using classify_total [OF Cons.prems(2,3)] by blast
  show ?case
  proof (cases e)
    case (Found type local)
    have wf: "fs_exists local" "wf_state type local"
      using classify_found e Found by blast+
    obtain a s1 where s1: "file_set_local fnm type local s = Some (a, s1)" "site_inv s1"
        "opts s1 = opts s" "states m_local s1 = add_mset (type, local) (states m_local s)"
        "states m_stored s1 = states m_stored s" "undisturbed s s1"
      using file_set_local_result [OF Cons.prems(1) wf, of fnm] set_result_undisturbed [OF Cons.prems(1)]
      by (fastforce simp: set_result_def)
    have "s_local_root s1 \<noteq> None" using opts_fields(9) [OF s1(3)] Cons.prems(2) by simp
    from Cons.IH [OF s1(2) this Cons.prems(3),
        of "if type = file_dir then (this @ d @ ''/'') # dirstack else dirstack" log]
    show ?thesis
      using e Found s1 found_opts [OF s1(3), of y fnm this names] undisturbed_trans
      by (auto simp: scan_entry_def dirs_in_def found_in_def)
  qed (use Cons e in \<open>auto simp: scan_entry_def dirs_in_def found_in_def\<close>)
qed

lemma local_tree_opts:
  assumes "opts s = opts t"
  shows "local_tree fuel y fnm s ds = local_tree fuel y fnm t ds"
proof (induction fuel arbitrary: ds)
  case 0
  then show ?case by (cases ds) auto
next
  case (Suc fuel)
  then show ?case by (cases ds) (simp_all add: found_opts [OF assms] Let_def split: sum.split)
qed

lemma scan_dirs_result:
  assumes "site_inv s" "s_local_root s \<noteq> None" "short_links y"
    and "local_tree fuel y fnm s dirstack = Inr files"
  shows "\<exists>s' log'. scan_dirs fuel y fnm (dirstack, s, log) = Some (Inr (s', log'))
    \<and> site_inv s' \<and> opts s' = opts s \<and> states m_stored s' = states m_stored s
    \<and> states m_local s' = states m_local s + mset files \<and> undisturbed s s'"
  using assms
proof (induction fuel arbitrary: dirstack s log files)
  case 0
  then show ?case by (cases dirstack) auto
next
  case (Suc fuel)
  show ?case
  proof (cases dirstack)
    case Nil
    then show ?thesis using Suc.prems by auto
  next
    case (Cons this ds)
    let ?names = "case y_readdir y this of None \<Rightarrow> [] | Some names \<Rightarrow> names"
    obtain s1 log1 where s1: "scan_entries y fnm this ?names (ds, s, log)
        = Some (rev (dirs_in y fnm s this ?names) @ ds, s1, log1)"
      "site_inv s1" "opts s1 = opts s" "states m_stored s1 = states m_stored s"
      "states m_local s1 = states m_local s + mset (found_in y fnm s this ?names)" "undisturbed s s1"
      using scan_entries_result [OF Suc.prems(1-3), of fnm this ?names ds log] by blast
    obtain rest where rest: "local_tree fuel y fnm s (rev (dirs_in y fnm s this ?names) @ ds) = Inr rest"
        "files = found_in y fnm s this ?names @ rest"
      using Suc.prems(4) by (auto simp: Cons Let_def split: sum.splits)
    have root: "s_local_root s1 \<noteq> None" using opts_fields(9) [OF s1(3)] Suc.prems(2) by simp
    note IH = Suc.IH [OF s1(2) root Suc.prems(3), of "rev (dirs_in y fnm s this ?names) @ ds" rest,
        unfolded local_tree_opts [OF s1(3)], OF rest(1)]
    show ?thesis
    proof (cases "y_readdir y this")
      case None
      then have "rest = files" "dirs_in y fnm s this ?names = []" "s1 = s"
        using rest s1(1) by (simp_all add: found_in_def dirs_in_def)
      then show ?thesis
        using IH [of "log @ [(''Could not read directory'', this)]"] None Cons by auto
    next
      case (Some names)
      then show ?thesis
        using IH [of log1] s1(1,4,5) rest(2) Cons undisturbed_trans [OF s1(6)] s1(3)
        by (auto simp: ac_simps)
    qed
  qed
qed

section \<open>Enough fuel\<close>

definition finite_local_tree :: "fsys \<Rightarrow> nat \<Rightarrow> (string \<Rightarrow> nat) \<Rightarrow> bool" where
  "finite_local_tree y b rank \<longleftrightarrow>
     (\<forall>this names. y_readdir y this = Some names \<longrightarrow> length names \<le> b
        \<and> (\<forall>d \<in> set names. \<not> special_entry d \<longrightarrow>
             (\<exists>item. (y_lstat y (this @ d) = Some item \<or> y_stat y (this @ d) = Some item)
                \<and> st_kind item = S_DIR)
             \<longrightarrow> rank (this @ d @ ''/'') < rank this))"

lemma weight_step:
  assumes "\<forall>d \<in> set new. rank d < (k::nat)" "length new \<le> b"
  shows "(\<Sum>d\<leftarrow>new. Suc b ^ rank d) < Suc b ^ k"
proof (cases k)
  case 0
  then show ?thesis using assms(1) by (cases new) auto
next
  case (Suc j)
  have "(\<Sum>d\<leftarrow>new. Suc b ^ rank d) \<le> (\<Sum>d\<leftarrow>new. Suc b ^ j)"
    using assms(1) Suc by (intro sum_list_mono) (auto intro!: power_increasing)
  also have "\<dots> = length new * Suc b ^ j" by (simp add: sum_list_triv)
  also have "\<dots> \<le> b * Suc b ^ j" using assms(2) by simp
  also have "\<dots> < Suc b ^ k" by (simp add: Suc)
  finally show ?thesis .
qed

lemma classify_item_dir:
  assumes "classify_item y fnm s root full item = Some (Found file_dir local)"
  shows "st_kind item = S_DIR"
  using assms by (auto simp: classify_item_def Let_def
      split: if_splits option.splits file_kind.splits state_method.splits)

lemma classify_dir:
  assumes "classify_entry y fnm s this d = Some (Found file_dir local)"
  shows "\<not> special_entry d \<and> (\<exists>item. (y_lstat y (this @ d) = Some item \<or> y_stat y (this @ d) = Some item)
    \<and> st_kind item = S_DIR)"
  using assms
  by (auto simp: classify_entry_def Let_def bind_eq_Some_conv split: if_splits option.splits
      dest!: classify_item_dir)

lemma found_files_dir:
  "filter (\<lambda>x. fst x = file_dir) (found_files e) = [] \<or>
   (\<exists>local. e = Some (Found file_dir local) \<and> filter (\<lambda>x. fst x = file_dir) (found_files e) = [(file_dir, local)])"
  by (cases e rule: found_files.cases) auto

lemma dirs_in_bounds:
  "length (dirs_in y fnm s this names) \<le> length names"
  "x \<in> set (dirs_in y fnm s this names) \<Longrightarrow>
     \<exists>d \<in> set names. x = this @ d @ ''/'' \<and> (\<exists>local. classify_entry y fnm s this d = Some (Found file_dir local))"
proof -
  have one: "length (map (\<lambda>x. this @ d @ ''/'') (filter (\<lambda>x. fst x = file_dir) (found_files e))) \<le> 1" for d e
    using found_files_dir [of e] by auto
  show "length (dirs_in y fnm s this names) \<le> length names"
    unfolding dirs_in_def
  proof (induction names)
    case (Cons a names)
    then show ?case
      using one [of a "classify_entry y fnm s this a"] by simp
  qed simp
  show "\<exists>d \<in> set names. x = this @ d @ ''/'' \<and> (\<exists>local. classify_entry y fnm s this d = Some (Found file_dir local))"
    if x: "x \<in> set (dirs_in y fnm s this names)"
  proof -
    obtain d where d: "d \<in> set names" "x = this @ d @ ''/''"
        "filter (\<lambda>x. fst x = file_dir) (found_files (classify_entry y fnm s this d)) \<noteq> []"
      using x by (auto simp: dirs_in_def filter_empty_conv)
    then show ?thesis using found_files_dir [of "classify_entry y fnm s this d"] by auto
  qed
qed

lemma local_tree_ends:
  assumes "finite_local_tree y b rank" "(\<Sum>d\<leftarrow>dirstack. Suc b ^ rank d) \<le> fuel"
  shows "\<exists>files. local_tree fuel y fnm s dirstack = Inr files"
  using assms(2)
proof (induction fuel arbitrary: dirstack)
  case 0
  then show ?case by (cases dirstack) auto
next
  case (Suc fuel)
  show ?case
  proof (cases dirstack)
    case (Cons this ds)
    let ?names = "case y_readdir y this of None \<Rightarrow> [] | Some names \<Rightarrow> names"
    let ?new = "dirs_in y fnm s this ?names"
    have "(\<Sum>d\<leftarrow>?new. Suc b ^ rank d) < Suc b ^ rank this"
    proof (rule weight_step)
      show "length ?new \<le> b"
        using dirs_in_bounds(1) [of y fnm s this ?names] assms(1)
        by (auto simp: finite_local_tree_def dirs_in_def split: option.splits intro: le_trans)
      show "\<forall>d\<in>set ?new. rank d < rank this"
        using dirs_in_bounds(2) [of _ y fnm s this ?names] classify_dir [of y fnm s this] assms(1)
        unfolding finite_local_tree_def by (fastforce split: option.splits)
    qed
    then have "(\<Sum>d\<leftarrow>rev ?new @ ds. Suc b ^ rank d) \<le> fuel"
      using Suc.prems by (simp add: Cons rev_map [symmetric])
    from Suc.IH [OF this] obtain files where
      "local_tree fuel y fnm s (rev ?new @ ds) = Inr files" by blast
    then show ?thesis by (simp add: Cons Let_def)
  qed simp
qed

section \<open>Which files the scan should find\<close>

text \<open>This says it without the code: of an entry the kind and the attributes are those of the
  link's target when links are followed, and an ignored link is no entry at all.  An entry counts
  if its path below the local root is not excluded and what its kind asks for can be read, and its
  state has just the attributes of its kind.\<close>

definition seen_stat :: "fsys \<Rightarrow> site \<Rightarrow> string \<Rightarrow> stat_buf option" where
  "seen_stat y s path = (case y_lstat y path of
       None \<Rightarrow> None
     | Some item \<Rightarrow>
         if st_kind item \<noteq> S_LNK then Some item
         else (case s_symlinks s of
             sitesym_ignore \<Rightarrow> None
           | sitesym_follow \<Rightarrow> y_stat y path
           | sitesym_maintain \<Rightarrow> Some item))"

definition local_state :: "string \<Rightarrow> stat_buf \<Rightarrow> file_state" where
  "local_state rel item = \<lparr>fs_filename = Some rel, fs_time = 0, fs_size = 0, fs_checksum = zero_checksum,
     fs_linktarget = None, fs_exists = True, fs_ascii = False, fs_mode = and (st_mode item) 511\<rparr>"

definition counts_as :: "fsys \<Rightarrow> matcher \<Rightarrow> site \<Rightarrow> string \<Rightarrow> string \<Rightarrow> stat_buf \<Rightarrow> file_type \<Rightarrow> file_state \<Rightarrow> bool" where
  "counts_as y fnm s path rel item type state \<longleftrightarrow> \<not> file_isexcluded fnm rel s
     \<and> (case st_kind item of
          S_REG \<Rightarrow> type = file_file
            \<and> (let st = (local_state rel item)\<lparr>fs_size := st_size item, fs_ascii := file_isascii fnm rel s\<rparr>
               in if s_state_method s = state_timesize then state = st\<lparr>fs_time := st_mtime item\<rparr>
                  else \<exists>digest. y_checksum y path = Some digest \<and> state = st\<lparr>fs_checksum := digest\<rparr>)
        | S_LNK \<Rightarrow> type = file_link \<and> (\<exists>target. y_readlink y path = Some target
            \<and> state = (local_state rel item)\<lparr>fs_linktarget := Some target\<rparr>)
        | S_DIR \<Rightarrow> type = file_dir \<and> state = local_state rel item
        | S_OTHER \<Rightarrow> False)"

definition should_be :: "fsys \<Rightarrow> matcher \<Rightarrow> site \<Rightarrow> string \<Rightarrow> string \<Rightarrow> file_type \<Rightarrow> file_state \<Rightarrow> bool" where
  "should_be y fnm s root path type state \<longleftrightarrow> (\<exists>item. seen_stat y s path = Some item
     \<and> counts_as y fnm s path (drop (length root) path) item type state)"

text \<open>The directories that count, from a set of them downwards, and the files in them.\<close>

inductive_set visited :: "fsys \<Rightarrow> matcher \<Rightarrow> site \<Rightarrow> string \<Rightarrow> string set \<Rightarrow> string set"
  for y :: fsys and fnm :: matcher and s :: site and root :: string and start :: "string set"
where
  start: "this \<in> start \<Longrightarrow> this \<in> visited y fnm s root start"
| below: "this \<in> visited y fnm s root start \<Longrightarrow> y_readdir y this = Some names \<Longrightarrow> d \<in> set names
    \<Longrightarrow> \<not> special_entry d \<Longrightarrow> should_be y fnm s root (this @ d) file_dir state
    \<Longrightarrow> this @ d @ ''/'' \<in> visited y fnm s root start"

definition files_of :: "fsys \<Rightarrow> matcher \<Rightarrow> site \<Rightarrow> string \<Rightarrow> string \<Rightarrow> (file_type \<times> file_state) set" where
  "files_of y fnm s root this = {(type, state). \<exists>names d. y_readdir y this = Some names \<and> d \<in> set names
     \<and> \<not> special_entry d \<and> should_be y fnm s root (this @ d) type state}"

definition files_below :: "fsys \<Rightarrow> matcher \<Rightarrow> site \<Rightarrow> string \<Rightarrow> (file_type \<times> file_state) set" where
  "files_below y fnm s root = (\<Union>this \<in> visited y fnm s root {root}. files_of y fnm s root this)"

text \<open>The names in a directory are distinct and have no slash.\<close>

definition plain_names :: "fsys \<Rightarrow> bool" where
  "plain_names y \<longleftrightarrow> (\<forall>this names. y_readdir y this = Some names
     \<longrightarrow> distinct names \<and> (\<forall>d \<in> set names. CHR ''/'' \<notin> set d))"

lemma classify_item_counts:
  assumes "short_links y"
  shows "classify_item y fnm s root full item = Some (Found type state)
    \<longleftrightarrow> counts_as y fnm s full (drop (length root) full) item type state"
proof (cases "st_kind item")
  case S_REG
  then show ?thesis
    by (cases "s_state_method s"; cases "y_checksum y full")
      (auto simp: classify_item_def counts_as_def local_state_def finish_state_def Let_def zero_state_def)
next
  case S_LNK
  then show ?thesis using assms
    by (cases "y_readlink y full")
      (auto simp: classify_item_def counts_as_def local_state_def finish_state_def Let_def
        zero_state_def short_links_def)
next
  case S_DIR
  then show ?thesis
    by (auto simp: classify_item_def counts_as_def local_state_def finish_state_def Let_def zero_state_def)
qed (auto simp: classify_item_def counts_as_def Let_def)

lemma classify_should_be:
  assumes "s_local_root s = Some root" "short_links y"
  shows "classify_entry y fnm s this d = Some (Found type state)
    \<longleftrightarrow> \<not> special_entry d \<and> should_be y fnm s root (this @ d) type state"
proof (cases "special_entry d")
  case False
  note one = classify_item_counts [OF assms(2)]
  show ?thesis
  proof (cases "y_lstat y (this @ d)")
    case (Some item)
    then show ?thesis using False assms(1)
      by (cases "s_symlinks s"; cases "y_stat y (this @ d)"; cases "st_kind item = S_LNK")
        (simp_all add: classify_entry_def should_be_def seen_stat_def Let_def one)
  qed (simp add: False assms(1) classify_entry_def should_be_def seen_stat_def)
qed (simp add: assms(1) classify_entry_def)

lemma found_files_set: "x \<in> set (found_files e) \<longleftrightarrow> e = Some (Found (fst x) (snd x))"
  by (cases e rule: found_files.cases) auto

lemma found_in_set:
  assumes "s_local_root s = Some root" "short_links y"
  shows "set (found_in y fnm s this names) = {(type, state). \<exists>d \<in> set names.
     \<not> special_entry d \<and> should_be y fnm s root (this @ d) type state}"
  using classify_should_be [OF assms]
  by (auto simp: found_in_def found_files_set)

lemma dirs_in_set:
  assumes "s_local_root s = Some root" "short_links y"
  shows "set (dirs_in y fnm s this names) = {this @ d @ ''/'' |d. d \<in> set names \<and>
     \<not> special_entry d \<and> (\<exists>state. should_be y fnm s root (this @ d) file_dir state)}"
proof -
  have "set (map (\<lambda>x. this @ d @ ''/'') (filter (\<lambda>x. fst x = file_dir) (found_files (classify_entry y fnm s this d))))
      = {x. x = this @ d @ ''/'' \<and> (\<exists>state. classify_entry y fnm s this d = Some (Found file_dir state))}"
    for d by (cases "classify_entry y fnm s this d" rule: found_files.cases) auto
  then show ?thesis by (auto simp: dirs_in_def classify_should_be [OF assms])
qed

lemma visited_empty: "visited y fnm s root {} = {}"
proof -
  have False if "x \<in> visited y fnm s root {}" for x
    using that by induction auto
  then show ?thesis by blast
qed

lemma visited_step:
  assumes "s_local_root s = Some root" "short_links y"
    and "names = (case y_readdir y this of None \<Rightarrow> [] | Some names \<Rightarrow> names)"
  shows "visited y fnm s root (insert this A)
    = insert this (visited y fnm s root (set (dirs_in y fnm s this names) \<union> A))"
proof -
  let ?B = "set (dirs_in y fnm s this names) \<union> A"
  have "x \<in> insert this (visited y fnm s root ?B)" if "x \<in> visited y fnm s root (insert this A)" for x
    using that
  proof induction
    case (below this' names' d state)
    show ?case
    proof (cases "this' = this")
      case True
      then have "this' @ d @ ''/'' \<in> set (dirs_in y fnm s this names)"
        using below dirs_in_set [OF assms(1,2), of fnm this names] assms(3) by auto
      then show ?thesis by (auto intro: visited.start)
    qed (use below in \<open>auto intro: visited.below\<close>)
  qed (auto intro: visited.start)
  moreover have "x \<in> visited y fnm s root (insert this A)" if "x \<in> visited y fnm s root ?B" for x
    using that
  proof induction
    case (start x)
    then show ?case
      using dirs_in_set [OF assms(1,2), of fnm this names] assms(3)
      by (auto intro: visited.start visited.below split: option.splits)
  qed (auto intro: visited.below)
  ultimately show ?thesis by (auto intro: visited.start)
qed

lemma local_tree_set:
  assumes "s_local_root s = Some root" "short_links y"
    and "local_tree fuel y fnm s dirstack = Inr files"
  shows "set files = (\<Union>this \<in> visited y fnm s root (set dirstack). files_of y fnm s root this)"
  using assms(3)
proof (induction fuel arbitrary: dirstack files)
  case 0
  then have "dirstack = []" "files = []" by (cases dirstack; simp)+
  then show ?case by (simp add: visited_empty)
next
  case (Suc fuel)
  show ?case
  proof (cases dirstack)
    case Nil
    then show ?thesis using Suc.prems by (simp add: visited_empty)
  next
    case (Cons this ds)
    let ?names = "case y_readdir y this of None \<Rightarrow> [] | Some names \<Rightarrow> names"
    obtain rest where rest: "local_tree fuel y fnm s (rev (dirs_in y fnm s this ?names) @ ds) = Inr rest"
        "files = found_in y fnm s this ?names @ rest"
      using Suc.prems by (auto simp: Cons Let_def split: sum.splits)
    have "set (found_in y fnm s this ?names) = files_of y fnm s root this"
      by (cases "y_readdir y this") (auto simp: found_in_set [OF assms(1,2)] files_of_def)
    moreover note Suc.IH [OF rest(1)] visited_step [OF assms(1,2) refl, of fnm this "set ds"]
    ultimately show ?thesis by (simp add: Cons rest(2))
  qed
qed

text \<open>Each file once: the directories of the stack are apart, and so are the paths in them.\<close>

definition apart :: "string \<Rightarrow> string \<Rightarrow> bool" where
  "apart a b \<longleftrightarrow> \<not> prefix a b \<and> \<not> prefix b a"

lemma apart_append: "apart a b \<Longrightarrow> a @ x \<noteq> b @ y"
  unfolding apart_def by (metis prefixI prefix_same_cases)

lemma apart_below: "apart a b \<Longrightarrow> apart (a @ x) b" "apart a b \<Longrightarrow> apart b (a @ x)"
  unfolding apart_def by (metis append_prefixD prefixI prefix_same_cases)+

lemma apart_slash:
  assumes "CHR ''/'' \<notin> set d" "CHR ''/'' \<notin> set e" "d \<noteq> e"
  shows "apart (a @ d @ ''/'') (a @ e @ ''/'')"
proof -
  have "\<not> prefix (d @ ''/'') (e @ ''/'')" if "CHR ''/'' \<notin> set e" "d \<noteq> e" for d e :: string
  proof
    assume "prefix (d @ ''/'') (e @ ''/'')"
    then have "d @ ''/'' = e @ ''/'' \<or> prefix (d @ ''/'') e"
      by (metis append_Nil2 append_butlast_last_id prefix_snoc snoc_eq_iff_butlast)
    then show False using that set_mono_prefix by fastforce
  qed
  from this [OF assms(2,3)] this [OF assms(1) assms(3) [symmetric]] show ?thesis
    by (simp add: apart_def)
qed

lemma counts_as_name: "counts_as y fnm s path rel item type state \<Longrightarrow> fs_filename state = Some rel"
  by (cases "st_kind item") (auto simp: counts_as_def local_state_def Let_def split: if_splits)

lemma found_in_named:
  assumes "s_local_root s = Some root" "short_links y" "x \<in> set (found_in y fnm s this names)"
  shows "\<exists>d \<in> set names. fs_filename (snd x) = Some (drop (length root) (this @ d))"
  using assms(3) counts_as_name by (fastforce simp: found_in_set [OF assms(1,2)] should_be_def)

lemma drop_root:
  assumes "prefix root a" "prefix root b"
  shows "drop (length root) (a @ x) = drop (length root) (b @ y) \<longleftrightarrow> a @ x = b @ y"
  using assms by (auto simp: prefix_def)

lemma found_in_distinct:
  assumes "s_local_root s = Some root" "short_links y" "prefix root this" "distinct names"
  shows "distinct (found_in y fnm s this names)"
  using assms(4)
proof (induction names)
  case (Cons d names)
  let ?F = "found_files (classify_entry y fnm s this d)"
  have split: "found_in y fnm s this (d # names) = ?F @ found_in y fnm s this names"
      "?F = found_in y fnm s this [d]"
    by (simp_all add: found_in_def)
  have "x \<notin> set (found_in y fnm s this names)" if "x \<in> set ?F" for x
  proof
    assume "x \<in> set (found_in y fnm s this names)"
    then obtain e where e: "e \<in> set names" "fs_filename (snd x) = Some (drop (length root) (this @ e))"
      using found_in_named [OF assms(1,2)] by blast
    have "fs_filename (snd x) = Some (drop (length root) (this @ d))"
      using found_in_named [OF assms(1,2), of x fnm this "[d]"] that split(2) by auto
    then have "this @ d = this @ e" using e(2) drop_root [OF assms(3,3)] by simp
    then show False using e(1) Cons.prems by simp
  qed
  moreover have "distinct ?F" by (cases "classify_entry y fnm s this d" rule: found_files.cases) auto
  ultimately show ?case using Cons split(1) by auto
qed (simp add: found_in_def)

lemma dirs_in_apart:
  assumes "s_local_root s = Some root" "short_links y" "distinct names"
    and "\<forall>d \<in> set names. CHR ''/'' \<notin> set d"
  shows "sorted_wrt apart (dirs_in y fnm s this names)"
  using assms(3,4)
proof (induction names)
  case (Cons d names)
  have split: "dirs_in y fnm s this (d # names) = dirs_in y fnm s this [d] @ dirs_in y fnm s this names"
    by (simp add: dirs_in_def)
  have "apart a b" if "a \<in> set (dirs_in y fnm s this [d])" "b \<in> set (dirs_in y fnm s this names)" for a b
    using that Cons.prems apart_slash by (fastforce simp: dirs_in_set [OF assms(1,2)])
  moreover have "sorted_wrt apart (dirs_in y fnm s this [d])"
    using found_files_dir [of "classify_entry y fnm s this d"] by (auto simp: dirs_in_def)
  ultimately show ?case using Cons unfolding split sorted_wrt_append by auto
qed (simp add: dirs_in_def)

lemma local_tree_distinct:
  assumes "s_local_root s = Some root" "short_links y" "plain_names y"
    and "local_tree fuel y fnm s dirstack = Inr files"
    and "sorted_wrt apart dirstack" "\<forall>d \<in> set dirstack. prefix root d"
  shows "distinct files \<and> (\<forall>x \<in> set files. \<exists>d \<in> set dirstack. \<exists>q.
    fs_filename (snd x) = Some (drop (length root) (d @ q)))"
  using assms(4-)
proof (induction fuel arbitrary: dirstack files)
  case 0
  then show ?case by (cases dirstack) auto
next
  case (Suc fuel)
  show ?case
  proof (cases dirstack)
    case (Cons this ds)
    define names where "names = (case y_readdir y this of None \<Rightarrow> [] | Some names \<Rightarrow> names)"
    let ?new = "dirs_in y fnm s this names"
    obtain rest where rest: "local_tree fuel y fnm s (rev ?new @ ds) = Inr rest"
        "files = found_in y fnm s this names @ rest"
      using Suc.prems(1) by (auto simp: Cons Let_def names_def split: sum.splits)
    have names: "distinct names" "\<forall>d \<in> set names. CHR ''/'' \<notin> set d"
      using assms(3) by (cases "y_readdir y this"; auto simp: plain_names_def names_def)+
    have ap: "\<forall>d \<in> set ds. apart this d" "sorted_wrt apart ds" "prefix root this"
        "\<forall>d \<in> set ds. prefix root d"
      using Suc.prems(2,3) by (auto simp: Cons)
    have new: "\<exists>n. x = this @ n @ ''/'' \<and> CHR ''/'' \<notin> set n" if "x \<in> set ?new" for x
      using that names(2) by (auto simp: dirs_in_set [OF assms(1,2)])
    have "sorted_wrt apart (rev ?new)"
      unfolding sorted_wrt_rev
      by (rule sorted_wrt_mono_rel [OF _ dirs_in_apart [OF assms(1,2) names]]) (auto simp: apart_def)
    then have sorted: "sorted_wrt apart (rev ?new @ ds)"
      using ap(1,2) new apart_below(1) by (fastforce simp: sorted_wrt_append)
    have roots: "\<forall>d \<in> set (rev ?new @ ds). prefix root d"
      using ap(3,4) new by (fastforce simp: prefix_def)
    note ih = Suc.IH [OF rest(1) sorted roots]
    have named: "\<exists>q. fs_filename (snd x) = Some (drop (length root) (this @ q)) \<and> CHR ''/'' \<notin> set q"
      if "x \<in> set (found_in y fnm s this names)" for x
      using found_in_named [OF assms(1,2) that] names(2) by blast
    have "x \<notin> set rest" if x: "x \<in> set (found_in y fnm s this names)" for x
    proof
      assume "x \<in> set rest"
      then obtain d q where d: "d \<in> set ?new \<union> set ds" "prefix root d"
          "fs_filename (snd x) = Some (drop (length root) (d @ q))"
        using ih roots by fastforce
      obtain n where n: "fs_filename (snd x) = Some (drop (length root) (this @ n))" "CHR ''/'' \<notin> set n"
        using named [OF x] by blast
      have "this @ n = d @ q" using d(3) n(1) drop_root [OF ap(3) d(2)] by simp
      moreover have "this @ n \<noteq> d @ q" if "d \<in> set ds" using ap(1) that apart_append by blast
      moreover have "this @ n \<noteq> d @ q" if "d \<in> set ?new" using new [OF that] n(2) by auto
      ultimately show False using d(1) by blast
    qed
    then have "distinct files"
      using ih found_in_distinct [OF assms(1,2) ap(3) names(1)] by (auto simp: rest(2))
    moreover have "\<exists>d \<in> set dirstack. \<exists>q. fs_filename (snd x) = Some (drop (length root) (d @ q))"
      if "x \<in> set files" for x
    proof (cases "x \<in> set rest")
      case True
      then obtain d q where d: "d \<in> set ?new \<union> set ds"
          "fs_filename (snd x) = Some (drop (length root) (d @ q))"
        using ih by fastforce
      then consider "d \<in> set ds" | n where "d = this @ n @ ''/''" using new [of d] by blast
      then show ?thesis
      proof cases
        case 2
        then have "fs_filename (snd x) = Some (drop (length root) (this @ n @ ''/'' @ q))"
          using d(2) by (simp del: drop_append)
        then show ?thesis by (auto simp: Cons simp del: drop_append)
      qed (use d(2) in \<open>auto simp: Cons\<close>)
    next
      case False
      then have "x \<in> set (found_in y fnm s this names)" using that by (simp add: rest(2))
      from named [OF this] show ?thesis by (auto simp: Cons simp del: drop_append)
    qed
    ultimately show ?thesis by blast
  qed (use Suc.prems in simp)
qed

section \<open>Properties\<close>

text \<open>C10. The scan of the local site (\<^verbatim>\<open>site_read_local_state\<close>) over a file system whose tree is
  finite (rank \<open>rank\<close>, at most \<open>b\<close> entries in each directory), whose links are shorter than
  \<^verbatim>\<open>BUFSIZ\<close>, and in which the names in a directory are distinct and have no slash: with
  \<open>Suc b ^ rank root\<close> directories of fuel it ends, never dereferences NULL and keeps the invariant
  and the stored states.  What it adds to the local states is the set \<open>files_below\<close>, each file once:
  the entries, other than \<open>.\<close> and \<open>..\<close>, of the directories that count, which are not excluded, are
  a regular file, a directory or a maintained link, and could be examined, with the attributes of
  their kind.\<close>

theorem site_read_local_state_correct:
  assumes "site_inv s" and root: "s_local_root s = Some root" and "short_links y" and "plain_names y"
    and "finite_local_tree y b rank" and "Suc b ^ rank root \<le> fuel"
  shows "\<exists>t log. site_read_local_state fuel y fnm s = Some (Inr (t, log))
    \<and> site_inv t \<and> opts t = opts s \<and> states m_stored t = states m_stored s
    \<and> finite (files_below y fnm s root)
    \<and> states m_local t = states m_local s + mset_set (files_below y fnm s root)"
proof -
  obtain files where f: "local_tree fuel y fnm s [root] = Inr files"
    using local_tree_ends [OF assms(5), of "[root]" fuel fnm s] assms(6) by auto
  have "set files = files_below y fnm s root"
    using local_tree_set [OF root assms(3) f] by (simp add: files_below_def)
  moreover have "distinct files" using local_tree_distinct [OF root assms(3,4) f] by simp
  ultimately have files: "finite (files_below y fnm s root)" "mset files = mset_set (files_below y fnm s root)"
    using mset_set_set [of files] List.finite_set [of files] by simp_all
  have "s_local_root s \<noteq> None" using root by simp
  from scan_dirs_result [OF assms(1) this assms(3) f, of "[]"] show ?thesis
    using files by (fastforce simp: site_read_local_state_def root)
qed

definition example_fsys :: fsys where
  "example_fsys = \<lparr>
     y_readdir = (\<lambda>d. if d = ''/home/'' then Some [''.'', ''..'', ''a''] else None),
     y_lstat = (\<lambda>p. if p = ''/home/a''
        then Some \<lparr>st_kind = S_REG, st_mtime = 5, st_size = 3, st_mode = 420\<rparr> else None),
     y_stat = (\<lambda>p. None), y_readlink = (\<lambda>p. None), y_checksum = (\<lambda>p. None)\<rparr>"

lemma example_files_below:
  "(file_file, (local_state ''a'' \<lparr>st_kind = S_REG, st_mtime = 5, st_size = 3, st_mode = 420\<rparr>)
      \<lparr>fs_size := 3, fs_time := 5\<rparr>) \<in> files_below example_fsys (\<lambda>_ _ _. False) rooted_example ''/home/''"
proof -
  have ex: "\<not> file_isexcluded (\<lambda>_ _ _. False) n rooted_example"
      "\<not> file_isascii (\<lambda>_ _ _. False) n rooted_example" for n
    by (simp_all add: rooted_example_def file_isexcluded_def file_isascii_def example_site_def zero_site_def)
  have "(file_file, (local_state ''a'' \<lparr>st_kind = S_REG, st_mtime = 5, st_size = 3, st_mode = 420\<rparr>)
      \<lparr>fs_size := 3, fs_time := 5\<rparr>) \<in> files_of example_fsys (\<lambda>_ _ _. False) rooted_example ''/home/'' ''/home/''"
    using ex by (auto simp: files_of_def should_be_def counts_as_def seen_stat_def example_fsys_def
        special_entry_def rooted_example_def example_site_def zero_site_def local_state_def)
  then show ?thesis unfolding files_below_def by (auto intro: visited.start)
qed

lemma site_read_local_state_correct_witness:
  "\<exists>t log. site_read_local_state 1 example_fsys (\<lambda>_ _ _. False) rooted_example = Some (Inr (t, log))
    \<and> site_inv t \<and> opts t = opts rooted_example
    \<and> states m_stored t = states m_stored rooted_example
    \<and> finite (files_below example_fsys (\<lambda>_ _ _. False) rooted_example ''/home/'')
    \<and> states m_local t = states m_local rooted_example
        + mset_set (files_below example_fsys (\<lambda>_ _ _. False) rooted_example ''/home/'')"
  by (rule site_read_local_state_correct [OF rooted_example_inv, where b = 3 and rank = "\<lambda>_. 0"])
    (auto simp: rooted_example_def short_links_def plain_names_def example_fsys_def finite_local_tree_def
      special_entry_def split: if_splits)

end
