(* ===== verification/C_Number.thy ===== *)
theory C_Number
  imports Prelude
begin

text \<open>
  Numbers as text: the conversions of \<^verbatim>\<open>printf\<close> (\<^verbatim>\<open>%d\<close>, \<^verbatim>\<open>%ld\<close>, \<^verbatim>\<open>%o\<close>, \<^verbatim>\<open>%03o\<close>, \<^verbatim>\<open>%02x\<close>) and
  \<^verbatim>\<open>strtol\<close>, \<^verbatim>\<open>strtoul\<close> and \<^verbatim>\<open>atoi\<close> of the C library, with the round trips between them.
  \<^verbatim>\<open>long\<close> has 32 bits, as \<^verbatim>\<open>SIZEOF_LONG\<close> of \<^verbatim>\<open>config.h\<close> says.
\<close>

definition LONG_MAX :: int where "LONG_MAX = 2147483647"
definition LONG_MIN :: int where "LONG_MIN = - 2147483648"
definition ULONG_MAX :: int where "ULONG_MAX = 4294967295"

definition digit_char :: "nat \<Rightarrow> char" where
  "digit_char d = (if d < 10 then char_of (48 + d) else char_of (87 + d))"

fun digits :: "nat \<Rightarrow> nat \<Rightarrow> string" where
  "digits b n =
     (if b < 2 \<or> n < b then [digit_char n] else digits b (n div b) @ [digit_char (n mod b)])"

declare digits.simps [simp del]

text \<open>The value of a digit, and whether a character is a digit of the base (up to 16).\<close>

definition digit_val :: "char \<Rightarrow> nat" where
  "digit_val c = (if isdigit c then code c - 48
     else if 97 \<le> code c \<and> code c \<le> 122 then code c - 87
     else if 65 \<le> code c \<and> code c \<le> 90 then code c - 55 else 99)"

definition number :: "nat \<Rightarrow> string \<Rightarrow> nat" where
  "number b s = foldl (\<lambda>v c. v * b + digit_val c) 0 s"

text \<open>\<open>strtol s base\<close> for the bases 8 and 10: white space, a sign, the digits; saturating.\<close>

definition strip_sign :: "string \<Rightarrow> bool \<times> string" where
  "strip_sign s = (case s of
     c # r \<Rightarrow> if c = CHR ''-'' then (True, r) else if c = CHR ''+'' then (False, r) else (False, s)
   | [] \<Rightarrow> (False, s))"

definition strtol :: "string \<Rightarrow> nat \<Rightarrow> int" where
  "strtol s base =
     (let (neg, r) = strip_sign (dropWhile isspace s);
          v = int (number base (takeWhile (\<lambda>c. digit_val c < base) r))
      in if neg then max LONG_MIN (- v) else min LONG_MAX v)"

definition strtoul :: "string \<Rightarrow> nat \<Rightarrow> int" where
  "strtoul s base =
     (let (neg, r) = strip_sign (dropWhile isspace s);
          v = int (number base (takeWhile (\<lambda>c. digit_val c < base) r))
      in if v > ULONG_MAX then ULONG_MAX
         else if neg then (- v) mod (ULONG_MAX + 1) else v)"

definition show_nat :: "nat \<Rightarrow> string" where "show_nat n = digits 10 n"

definition show_int :: "int \<Rightarrow> string" where
  "show_int i = (if i < 0 then ''-'' @ show_nat (nat (- i)) else show_nat (nat i))"

definition pad0 :: "nat \<Rightarrow> string \<Rightarrow> string" where
  "pad0 w s = replicate (w - length s) CHR ''0'' @ s"

definition show_oct3 :: "nat \<Rightarrow> string" where "show_oct3 n = pad0 3 (digits 8 n)"

definition show_hex2 :: "nat \<Rightarrow> string" where "show_hex2 n = pad0 2 (digits 16 n)"

section \<open>Round trips\<close>

lemma code_char_of: "n < 256 \<Longrightarrow> code (char_of n) = n"
  by (simp add: of_char_of unsigned_of_nat)

lemma digit_val_char [simp]: "d < 16 \<Longrightarrow> digit_val (digit_char d) = d"
  by (auto simp: digit_val_def digit_char_def isdigit_def code_char_of)

lemma number_append: "number b (s @ [c]) = number b s * b + digit_val c"
  by (simp add: number_def)

lemma number_digits: "2 \<le> b \<Longrightarrow> b \<le> 16 \<Longrightarrow> number b (digits b n) = n"
proof (induction b n rule: digits.induct)
  case (1 b n)
  show ?case
  proof (cases "n < b")
    case True
    then show ?thesis using 1 by (subst digits.simps) (simp add: number_def)
  next
    case False
    then have "digits b n = digits b (n div b) @ [digit_char (n mod b)]"
      using 1 by (subst digits.simps) simp
    moreover have "n mod b < 16" using 1 by (meson less_le_trans mod_less_divisor zero_less_numeral order_less_le_trans)
    ultimately show ?thesis using 1 False by (simp add: number_append)
  qed
qed

lemma digits_all: "2 \<le> b \<Longrightarrow> b \<le> 16 \<Longrightarrow> c \<in> set (digits b n) \<Longrightarrow> \<exists>d < b. c = digit_char d"
proof (induction b n rule: digits.induct)
  case (1 b n)
  show ?case
  proof (cases "n < b")
    case True
    then show ?thesis using 1 by (subst (asm) (2) digits.simps) auto
  next
    case False
    then have "digits b n = digits b (n div b) @ [digit_char (n mod b)]"
      using 1 by (subst digits.simps) simp
    then show ?thesis using 1 False by (auto intro: exI [of _ "n mod b"])
  qed
qed

lemma digits_nonempty: "digits b n \<noteq> []"
  by (subst digits.simps) simp

lemma digits_length: "n < b ^ k \<Longrightarrow> 0 < k \<Longrightarrow> 2 \<le> b \<Longrightarrow> length (digits b n) \<le> k"
proof (induction b n arbitrary: k rule: digits.induct)
  case (1 b n)
  show ?case
  proof (cases "n < b")
    case True
    then show ?thesis using 1 by (subst digits.simps) simp
  next
    case False
    obtain j where k: "k = Suc j" using 1(3) by (cases k) auto
    then have "0 < j" using False 1(2) by (cases j) auto
    moreover have "n div b < b ^ j" using 1 k by (simp add: less_mult_imp_div_less mult.commute)
    ultimately have "length (digits b (n div b)) \<le> j" using 1 False by simp
    then show ?thesis using 1 False k by (subst digits.simps) simp
  qed
qed

lemma digits_val: "2 \<le> b \<Longrightarrow> b \<le> 16 \<Longrightarrow> c \<in> set (digits b n) \<Longrightarrow> digit_val c < b"
  using digits_all [of b c n] by fastforce

lemma digit_char_plain: "d < 10 \<Longrightarrow> \<not> isspace (digit_char d) \<and> digit_char d \<noteq> CHR ''-'' \<and> digit_char d \<noteq> CHR ''+''"
proof -
  assume d: "d < 10"
  then have "code (digit_char d) = 48 + d" by (simp add: digit_char_def code_char_of)
  then show ?thesis using d by (auto simp: isspace_def)
qed

lemma dec_plain:
  assumes "2 \<le> b" "b \<le> 10"
  shows "dropWhile isspace (digits b n @ r) = digits b n @ r" "strip_sign (digits b n @ r) = (False, digits b n @ r)"
proof -
  obtain c s where d: "digits b n = c # s" using digits_nonempty [of b n] by (cases "digits b n") auto
  then obtain k where "k < b" "c = digit_char k" using digits_all [of b c n] assms by auto
  then have "\<not> isspace c \<and> c \<noteq> CHR ''-'' \<and> c \<noteq> CHR ''+''" using digit_char_plain [of k] assms by simp
  then show "dropWhile isspace (digits b n @ r) = digits b n @ r"
    "strip_sign (digits b n @ r) = (False, digits b n @ r)"
    by (auto simp: d strip_sign_def)
qed

lemma takeWhile_digits:
  assumes "2 \<le> b" "b \<le> 16"
  shows "takeWhile (\<lambda>c. digit_val c < b) (digits b n) = digits b n"
  using digits_val [OF assms] by (simp add: takeWhile_eq_all_conv)

lemma strtol_show_int:
  assumes "LONG_MIN \<le> i" "i \<le> LONG_MAX"
  shows "strtol (show_int i) 10 = i"
proof (cases "i < 0")
  case True
  have "dropWhile isspace (show_int i) = show_int i"
    using True by (simp add: show_int_def isspace_def)
  then show ?thesis
    using True assms takeWhile_digits [of 10 "nat (- i)"] number_digits [of 10 "nat (- i)"]
    by (simp add: strtol_def show_int_def strip_sign_def show_nat_def LONG_MIN_def
        del: takeWhile_eq_all_conv)
next
  case False
  then show ?thesis
    using assms dec_plain [of 10 "nat i" "[]"] takeWhile_digits [of 10 "nat i"]
      number_digits [of 10 "nat i"]
    by (simp add: strtol_def show_int_def show_nat_def del: takeWhile_eq_all_conv)
qed

lemma number_zeros: "number b (replicate k CHR ''0'' @ s) = number b s"
  by (induction k) (simp_all add: number_def digit_val_def isdigit_def)

lemma strtoul_show_oct3:
  assumes "int n \<le> ULONG_MAX"
  shows "strtoul (show_oct3 n) 8 = int n"
proof -
  let ?z = "replicate (3 - length (digits 8 n)) CHR ''0''"
  have z: "digit_val CHR ''0'' = 0" by (simp add: digit_val_def isdigit_def)
  have s: "dropWhile isspace (?z @ digits 8 n) = ?z @ digits 8 n"
    "strip_sign (?z @ digits 8 n) = (False, ?z @ digits 8 n)"
    using dec_plain [of 8 n "[]"]
    by (cases "3 - length (digits 8 n)"; simp add: isspace_def strip_sign_def)+
  have "takeWhile (\<lambda>c. digit_val c < 8) (?z @ digits 8 n) = ?z @ digits 8 n"
    using digits_val [of 8 _ n] z by (auto simp: takeWhile_eq_all_conv)
  then show ?thesis
    using assms s number_zeros [of 8 "3 - length (digits 8 n)" "digits 8 n"] number_digits [of 8 n]
    by (simp add: strtoul_def show_oct3_def pad0_def Let_def del: takeWhile_eq_all_conv)
qed

end
