(* ===== verification/Site_Store.thy ===== *)
theory Site_Store
  imports Site_Scan C_Number
begin

text \<open>
  The storage file of a site: \<^verbatim>\<open>src/sitestore.c\<close>, with the digest conversions of
  \<^verbatim>\<open>lib/neon/ne_md5.c\<close>.  The writer is a function to the text that \<^verbatim>\<open>fprintf\<close> produces; the reader is
  the three handlers that the XML parser calls, and the loop that calls them.  The parser (expat,
  through neon) is a parameter from texts to events.
\<close>

section \<open>Escaped file names and digests\<close>

definition fn_plain :: "char \<Rightarrow> bool" where
  "fn_plain c \<longleftrightarrow> (isalnum c \<or> c = CHR ''/'' \<or> c = CHR ''.'' \<or> c = CHR ''-'') \<and> \<not> code c > 127"

text \<open>The loop tests for the end of the name after each character: an empty name is read past
  its end, which is \<^const>\<open>None\<close>.\<close>

definition fn_escape :: "string \<Rightarrow> string option" where
  "fn_escape filename =
     (if filename = [] then None
      else Some (concat (map (\<lambda>c. if fn_plain c then [c] else CHR ''%'' # show_hex2 (code c)) filename)))"

text \<open>The macro \<^verbatim>\<open>NE_ASC2HEX\<close> on the integer value of a character, and \<^verbatim>\<open>NE_HEX2ASC\<close>.\<close>

definition NE_ASC2HEX :: "int \<Rightarrow> int" where
  "NE_ASC2HEX x = (if x \<le> 57 then x - 48 else (if 65 \<le> x \<and> x \<le> 90 then x + 32 else x) + 10 - 97)"

definition NE_HEX2ASC :: "nat \<Rightarrow> char" where
  "NE_HEX2ASC x = char_of (if x > 9 then x - 10 + 97 else x + 48)"

fun unescape_loop :: "string \<Rightarrow> string option" where
  "unescape_loop [] = Some []"
| "unescape_loop (p # rest) =
     (if p = CHR ''%''
      then (case rest of
              h # l # rest' \<Rightarrow>
                map_option (\<lambda>t. char_of (nat (((NE_ASC2HEX (int (code h)) * 16) mod 256)
                    + NE_ASC2HEX (int (code l)) mod 16)) # t) (unescape_loop rest')
            | _ \<Rightarrow> None)
      else map_option (\<lambda>t. p # t) (unescape_loop rest))"

definition fn_unescape :: "string \<Rightarrow> string option" where
  "fn_unescape filename = (if filename = [] then None else unescape_loop filename)"

definition ne_md5_to_ascii :: "char list \<Rightarrow> string" where
  "ne_md5_to_ascii md5_buf =
     concat (map (\<lambda>c. [NE_HEX2ASC (code c div 16), NE_HEX2ASC (code c mod 16)]) md5_buf)"

text \<open>Characters are signed here; the byte is the low eight bits of the two values combined.  A
  text of fewer than 32 characters is read past its end.\<close>

fun ascii_pairs :: "string \<Rightarrow> char list" where
  "ascii_pairs (h # l # rest) =
     char_of (unat (or (push_bit 4 (word_of_int (NE_ASC2HEX (signed_char h)) :: 8 word))
                       (word_of_int (NE_ASC2HEX (signed_char l))))) # ascii_pairs rest"
| "ascii_pairs _ = []"

definition ne_ascii_to_md5 :: "string \<Rightarrow> char list option" where
  "ne_ascii_to_md5 buffer = (if length buffer < 32 then None else Some (ascii_pairs (take 32 buffer)))"

section \<open>Writing the storage file\<close>

definition INVALID_MODE :: mode_t where "INVALID_MODE = - 1"

definition sitestate_version :: string where "sitestate_version = ''1.0''"

definition dq :: "string \<Rightarrow> string" where "dq s = CHR 0x22 # s @ [CHR 0x22]"
definition sq :: "string \<Rightarrow> string" where "sq s = CHR 0x27 # s @ [CHR 0x27]"

definition el :: "string \<Rightarrow> string \<Rightarrow> string" where
  "el name body = ''<'' @ name @ ''>'' @ body @ ''</'' @ name @ ''>''"

definition item_text :: "site \<Rightarrow> site_file \<Rightarrow> string option" where
  "item_text s current =
     do { filename \<leftarrow> fs_filename (sf_stored current);
          fname \<leftarrow> fn_escape filename;
          body \<leftarrow> (case sf_type current of
                     file_link \<Rightarrow>
                       do { t \<leftarrow> fs_linktarget (sf_stored current); Some (el ''linktarget'' t) }
                   | file_file \<Rightarrow>
                       Some (el ''size'' (show_int (fs_size (sf_stored current)))
                         @ (case s_state_method s of
                              state_checksum \<Rightarrow>
                                el ''checksum'' (ne_md5_to_ascii (fs_checksum (sf_stored current)))
                            | state_timesize \<Rightarrow> el ''modtime'' (show_int (fs_time (sf_stored current))))
                         @ el ''ascii'' (if fs_ascii (sf_stored current) then ''<true/>'' else ''<false/>'')
                         @ (if fs_exists (sf_server current)
                            then el ''server-modtime'' (show_int (fs_time (sf_server current)))
                            else ''''))
                   | file_dir \<Rightarrow> Some '''');
          Some (''<item>''
            @ ''<type><type-'' @ (case sf_type current of file_file \<Rightarrow> ''file''
                | file_dir \<Rightarrow> ''directory'' | file_link \<Rightarrow> ''link'') @ ''/></type>''
            @ el ''filename'' fname @ nl
            @ (if fs_mode (sf_stored current) \<noteq> INVALID_MODE
               then el ''protection'' (show_oct3 (unat (fs_mode (sf_stored current)))) else '''')
            @ body @ ''</item>'' @ nl) }"

fun items_text :: "site \<Rightarrow> (addr \<times> site_file) list \<Rightarrow> string option" where
  "items_text s [] = Some ''''"
| "items_text s ((a, current) # rest) =
     (if \<not> fs_exists (sf_stored current) then items_text s rest
      else do { x \<leftarrow> item_text s current; y \<leftarrow> items_text s rest; Some (x @ y) })"

text \<open>\<open>saved_by\<close> is \<^verbatim>\<open>PACKAGE_NAME\<close> and \<^verbatim>\<open>PACKAGE_VERSION\<close>.  The result is the text of the file and
  the site; theory Console opens and closes the file.\<close>

definition site_write_stored_state :: "string \<times> string \<Rightarrow> site \<Rightarrow> (string \<times> site) option" where
  "site_write_stored_state saved_by s =
     do { items \<leftarrow> items_text s (s_files s);
          Some (''<?xml version='' @ dq ''1.0'' @ '' encoding='' @ dq ''ISO-8859-1'' @ ''?>'' @ nl
            @ ''<sitestate version='' @ sq sitestate_version @ ''>'' @ nl
            @ ''<options>'' @ nl
            @ '' <saved-by package='' @ sq (fst saved_by) @ '' version='' @ sq (snd saved_by) @ ''/>'' @ nl
            @ (if s_state_method s = state_checksum
               then '' <checksum-algorithm><checksum-MD5/></checksum-algorithm>'' @ nl else '''')
            @ '' <state-method><state-''
            @ (if s_state_method s = state_checksum then ''checksum'' else ''timesize'')
            @ ''/></state-method>'' @ nl
            @ (if s_safemode s then '' <safemode/>'' @ nl else '''')
            @ '' <escaped-filenames/>'' @ nl
            @ ''</options>'' @ nl
            @ ''<items>'' @ nl
            @ items
            @ ''</items>'' @ nl
            @ ''</sitestate>'' @ nl,
            s\<lparr>s_stored_state_method := s_state_method s\<rparr>) }"

section \<open>Reading it back: the handlers\<close>

datatype elm = ELM_sitestate | ELM_options | ELM_opt_saved_by | ELM_opt_checksum
  | ELM_opt_checksum_md5 | ELM_opt_state_method | ELM_opt_state_method_timesize
  | ELM_opt_state_method_checksum | ELM_items | ELM_item | ELM_type | ELM_type_file
  | ELM_type_directory | ELM_type_link | ELM_filename | ELM_size | ELM_modtime | ELM_ascii
  | ELM_linktarget | ELM_checksum | ELM_protection | ELM_server_modtime | ELM_true | ELM_false

definition elmmap :: "(string \<times> elm) list" where
  "elmmap = [(''sitestate'', ELM_sitestate), (''options'', ELM_options),
     (''saved-by'', ELM_opt_saved_by), (''checksum-algorithm'', ELM_opt_checksum),
     (''checksum-MD5'', ELM_opt_checksum_md5), (''state-method'', ELM_opt_state_method),
     (''state-timesize'', ELM_opt_state_method_timesize),
     (''state-checksum'', ELM_opt_state_method_checksum), (''items'', ELM_items),
     (''item'', ELM_item), (''type'', ELM_type), (''type-file'', ELM_type_file),
     (''type-directory'', ELM_type_directory), (''type-link'', ELM_type_link),
     (''filename'', ELM_filename), (''size'', ELM_size), (''modtime'', ELM_modtime),
     (''ascii'', ELM_ascii), (''linktarget'', ELM_linktarget), (''checksum'', ELM_checksum),
     (''protection'', ELM_protection), (''server-modtime'', ELM_server_modtime),
     (''true'', ELM_true), (''false'', ELM_false)]"

record site_xmldoc =
  x_site :: site
  x_type :: file_type
  x_stored :: file_state
  x_server :: file_state
  x_cdata :: string
  x_truth :: nat

text \<open>\<open>start_element\<close>: \<^const>\<open>None\<close> is the state 0, which declines the element.\<close>

definition start_element :: "string \<Rightarrow> string \<Rightarrow> site_xmldoc \<Rightarrow> elm option \<times> site_xmldoc" where
  "start_element nspace name doc =
     (case (if nspace = '''' then map_of elmmap name else None) of
        None \<Rightarrow> (None, doc)
      | Some state \<Rightarrow>
          (let doc = doc\<lparr>x_cdata := ''''\<rparr>;
               doc = (if state = ELM_item
                      then doc\<lparr>x_stored := zero_state\<lparr>fs_mode := INVALID_MODE\<rparr>\<rparr> else doc);
               doc = (if state = ELM_ascii then doc\<lparr>x_truth := 0\<rparr> else doc)
           in (Some state, doc)))"

definition char_data :: "string \<Rightarrow> site_xmldoc \<Rightarrow> site_xmldoc" where
  "char_data cdata doc = doc\<lparr>x_cdata := x_cdata doc @ cdata\<rparr>"

datatype store_error = invalid_checksum | boolean_missing | size_overflow string

definition end_element ::
    "matcher \<Rightarrow> elm \<Rightarrow> site_xmldoc \<Rightarrow> (store_error + site_xmldoc) option" where
  "end_element fnm state doc =
     (let cdata = x_cdata doc in
      case state of
        ELM_opt_state_method_timesize \<Rightarrow>
          Some (Inr (doc\<lparr>x_site := (x_site doc)\<lparr>s_stored_state_method := state_timesize\<rparr>\<rparr>))
      | ELM_opt_state_method_checksum \<Rightarrow>
          Some (Inr (doc\<lparr>x_site := (x_site doc)\<lparr>s_stored_state_method := state_checksum\<rparr>\<rparr>))
      | ELM_type_file \<Rightarrow> Some (Inr (doc\<lparr>x_type := file_file\<rparr>))
      | ELM_type_directory \<Rightarrow> Some (Inr (doc\<lparr>x_type := file_dir\<rparr>))
      | ELM_type_link \<Rightarrow> Some (Inr (doc\<lparr>x_type := file_link\<rparr>))
      | ELM_filename \<Rightarrow>
          do { n \<leftarrow> fn_unescape cdata;
               Some (Inr (doc\<lparr>x_stored := (x_stored doc)\<lparr>fs_filename := Some n\<rparr>\<rparr>)) }
      | ELM_checksum \<Rightarrow>
          (if length cdata > 32 then Some (Inl invalid_checksum)
           else do { c \<leftarrow> ne_ascii_to_md5 cdata;
                     Some (Inr (doc\<lparr>x_stored := (x_stored doc)\<lparr>fs_checksum := c\<rparr>\<rparr>)) })
      | ELM_size \<Rightarrow> Some (Inr (doc\<lparr>x_stored := (x_stored doc)\<lparr>fs_size := strtol cdata 10\<rparr>\<rparr>))
      | ELM_protection \<Rightarrow>
          Some (Inr (doc\<lparr>x_stored := (x_stored doc)\<lparr>fs_mode := word_of_int (strtoul cdata 8)\<rparr>\<rparr>))
      | ELM_server_modtime \<Rightarrow>
          (let t = strtol cdata 10; doc = doc\<lparr>x_server := (x_server doc)\<lparr>fs_time := t\<rparr>\<rparr> in
           if t = LONG_MIN \<or> t = LONG_MAX then Some (Inl (size_overflow cdata))
           else Some (Inr (doc\<lparr>x_server := (x_server doc)\<lparr>fs_exists := True\<rparr>\<rparr>)))
      | ELM_modtime \<Rightarrow>
          (let t = strtol cdata 10 in
           if t = LONG_MIN \<or> t = LONG_MAX then Some (Inl (size_overflow cdata))
           else Some (Inr (doc\<lparr>x_stored := (x_stored doc)\<lparr>fs_time := t\<rparr>\<rparr>)))
      | ELM_true \<Rightarrow> Some (Inr (doc\<lparr>x_truth := 1\<rparr>))
      | ELM_false \<Rightarrow> Some (Inr (doc\<lparr>x_truth := 2\<rparr>))
      | ELM_ascii \<Rightarrow>
          (if x_truth doc \<noteq> 0
           then Some (Inr (doc\<lparr>x_stored := (x_stored doc)\<lparr>fs_ascii := (x_truth doc = 1)\<rparr>\<rparr>))
           else Some (Inl boolean_missing))
      | ELM_linktarget \<Rightarrow>
          Some (Inr (doc\<lparr>x_stored := (x_stored doc)\<lparr>fs_linktarget := Some cdata\<rparr>\<rparr>))
      | ELM_item \<Rightarrow>
          (let doc = doc\<lparr>x_stored := (x_stored doc)\<lparr>fs_exists := True\<rparr>\<rparr> in
           do { (file, s) \<leftarrow> file_set_stored fnm (x_type doc) (x_stored doc) (x_site doc);
                Some (Inr (doc\<lparr>x_site :=
                  (if fs_exists (x_server doc)
                   then put_file file (\<lambda>f. f\<lparr>sf_server := file_state_copy (x_server doc)\<rparr>) s
                   else s)\<rparr>)) })
      | _ \<Rightarrow> Some (Inr doc))"

text \<open>How the parser calls them (\<^verbatim>\<open>lib/neon/ne_xml.c\<close>): the states of the open elements are a stack;
  \<open>prune\<close> is the depth within an element that was declined.\<close>

datatype xml_event = Start string string | Chars string | End string string

fun handle_events ::
    "matcher \<Rightarrow> xml_event list \<Rightarrow> elm list \<Rightarrow> nat \<Rightarrow> site_xmldoc \<Rightarrow> (store_error option \<times> site_xmldoc) option"
where
  "handle_events fnm [] stack prune doc = Some (None, doc)"
| "handle_events fnm (Start nspace name # es) stack prune doc =
     (if prune > 0 then handle_events fnm es stack (prune + 1) doc
      else case start_element nspace name doc of
             (None, doc) \<Rightarrow> handle_events fnm es stack 1 doc
           | (Some state, doc) \<Rightarrow> handle_events fnm es (state # stack) 0 doc)"
| "handle_events fnm (Chars t # es) stack prune doc =
     (if prune > 0 \<or> stack = [] then handle_events fnm es stack prune doc
      else handle_events fnm es stack prune (char_data t doc))"
| "handle_events fnm (End nspace name # es) stack prune doc =
     (if prune > 0 then handle_events fnm es stack (prune - 1) doc
      else case stack of
             [] \<Rightarrow> handle_events fnm es stack prune doc
           | state # stack \<Rightarrow>
               do { res \<leftarrow> end_element fnm state doc;
                    case res of
                      Inl err \<Rightarrow> Some (Some err, doc)
                    | Inr doc \<Rightarrow> handle_events fnm es stack 0 doc })"

text \<open>\<open>parser text\<close>: the events of the text, and the error that ends them if it is not well formed.
  \<open>msg\<close> is the text of an error of the handlers.  The return code of a successful parse is the
  value of \<open>ret\<close> that ended the reading loop.\<close>

type_synonym xml_parser = "string \<Rightarrow> xml_event list \<times> string option"

definition parse_storage_file ::
    "xml_parser \<Rightarrow> (store_error \<Rightarrow> string) \<Rightarrow> matcher \<Rightarrow> string \<Rightarrow> string option \<Rightarrow> site
     \<Rightarrow> (int \<times> site) option" where
  "parse_storage_file parser msg fnm text read_error s =
     (let (events, malformed) = parser text;
          doc = \<lparr>x_site = s, x_type = file_file, x_stored = zero_state, x_server = zero_state,
                 x_cdata = '''', x_truth = 0\<rparr>;
          ret = (if read_error = None then 1 else - 1 :: int)
      in do { (err, doc) \<leftarrow> handle_events fnm events [] 0 doc;
              let s = x_site doc;
              case err of
                Some e \<Rightarrow> Some (SITE_ERRORS, s\<lparr>s_last_error := Some (msg e)\<rparr>)
              | None \<Rightarrow>
                  (case malformed of
                     Some e \<Rightarrow> Some (SITE_ERRORS, s\<lparr>s_last_error := Some e\<rparr>)
                   | None \<Rightarrow>
                       if ret < 0 then Some (SITE_ERRORS, s\<lparr>s_last_error := read_error\<rparr>)
                       else Some (ret, s)) })"

datatype info_file = Info_text string "string option" | Info_missing string | Info_unreadable string

definition site_read_stored_state ::
    "xml_parser \<Rightarrow> (store_error \<Rightarrow> string) \<Rightarrow> matcher \<Rightarrow> info_file \<Rightarrow> site \<Rightarrow> (int \<times> site) option" where
  "site_read_stored_state parser msg fnm file s =
     (case file of
        Info_missing e \<Rightarrow> Some (SITE_FAILED, s\<lparr>s_last_error := Some e\<rparr>)
      | Info_unreadable e \<Rightarrow> Some (SITE_ERRORS, s\<lparr>s_last_error := Some e\<rparr>)
      | Info_text text read_error \<Rightarrow> parse_storage_file parser msg fnm text read_error s)"

text \<open>\<^verbatim>\<open>site_readfiles\<close> of \<^verbatim>\<open>src/sites.c\<close>.\<close>

definition site_readfiles ::
    "xml_parser \<Rightarrow> (store_error \<Rightarrow> string) \<Rightarrow> matcher \<Rightarrow> info_file \<Rightarrow> nat \<Rightarrow> fsys \<Rightarrow> site
     \<Rightarrow> (unit + int \<times> site) option" where
  "site_readfiles parser msg fnm file fuel y s =
     do { s \<leftarrow> site_destroy s;
          (ret, s) \<leftarrow> site_read_stored_state parser msg fnm file s;
          if ret = SITE_OK
          then do { res \<leftarrow> site_read_local_state fuel y fnm s;
                    Some (map_sum id (\<lambda>(s, log). (ret, s)) res) }
          else Some (Inr (ret, s)) }"

section \<open>Round trips of names and digests\<close>

lemma digits16_lt: "d < 16 \<Longrightarrow> digits 16 d = [digit_char d]"
  by (subst digits.simps) simp

lemma digit_char_0: "digit_char 0 = CHR ''0''"
  by code_simp

lemma high_nibble: "code c div 16 < 16"
  by (rule less_mult_imp_div_less) (use code_bound [of c] in simp)

lemma show_hex2_byte:
  assumes "n < 256"
  shows "show_hex2 n = [digit_char (n div 16), digit_char (n mod 16)]"
proof (cases "n < 16")
  case True
  then show ?thesis
    by (simp add: show_hex2_def pad0_def digits16_lt digit_char_0)
next
  case False
  have "digits 16 n = digits 16 (n div 16) @ [digit_char (n mod 16)]"
    using False by (subst digits.simps) simp
  moreover have "n div 16 < 16" using assms by auto
  ultimately show ?thesis by (simp add: show_hex2_def pad0_def digits16_lt)
qed

lemma asc2hex_digit: "d < 16 \<Longrightarrow> NE_ASC2HEX (int (code (digit_char d))) = int d"
  by (simp add: NE_ASC2HEX_def digit_char_def code_char_of)

lemma code_digit_char: "d < 16 \<Longrightarrow> code (digit_char d) = (if d < 10 then 48 + d else 87 + d)"
  by (simp add: digit_char_def code_char_of)

definition esc :: "char \<Rightarrow> string" where
  "esc c = (if fn_plain c then [c] else CHR ''%'' # show_hex2 (code c))"

lemma unescape_esc: "unescape_loop (esc c @ r) = map_option (\<lambda>t. c # t) (unescape_loop r)"
proof (cases "fn_plain c")
  case True
  then have "c \<noteq> CHR ''%''" by (auto simp: fn_plain_def isalnum_def isalpha_def isupper_def islower_def isdigit_def)
  then show ?thesis using True by (simp add: esc_def)
next
  case False
  have lt: "code c div 16 < 16" by (rule high_nibble)
  have "char_of (nat (int (code c div 16) * 16 mod 256 + int (code c mod 16) mod 16)) = c"
  proof -
    have "int (code c div 16) * 16 mod 256 = int (code c div 16) * 16" using lt by simp
    moreover have "int (code c mod 16) mod 16 = int (code c mod 16)" by simp
    ultimately have "nat (int (code c div 16) * 16 mod 256 + int (code c mod 16) mod 16)
      = code c div 16 * 16 + code c mod 16"
      by (metis nat_int of_nat_add of_nat_mult of_nat_numeral)
    then show ?thesis by simp
  qed
  then show ?thesis
    using False lt by (simp add: esc_def show_hex2_byte code_bound asc2hex_digit)
qed

lemma unescape_escaped: "unescape_loop (concat (map esc s)) = Some s"
  by (induction s) (simp_all add: unescape_esc)

lemma fn_escape_esc: "s \<noteq> '''' \<Longrightarrow> fn_escape s = Some (concat (map esc s))"
  by (simp add: fn_escape_def esc_def [abs_def])

lemma esc_nonempty [simp]: "esc c \<noteq> []"
  by (simp add: esc_def)

text \<open>The characters of an escaped name and of a digest are safe in XML text.\<close>

definition xml_safe :: "string \<Rightarrow> bool" where
  "xml_safe s \<longleftrightarrow> (\<forall>c \<in> set s. 32 \<le> code c \<and> code c < 127 \<and> c \<noteq> CHR ''<'' \<and> c \<noteq> CHR ''>'' \<and> c \<noteq> CHR ''&'')"

lemma xml_safe_simps [simp]:
  "xml_safe ''''" "xml_safe (c # s) \<longleftrightarrow> xml_safe [c] \<and> xml_safe s" if "s \<noteq> ''''"
  using that by (auto simp: xml_safe_def)

lemma xml_safe_append: "xml_safe (s @ t) \<longleftrightarrow> xml_safe s \<and> xml_safe t"
  by (auto simp: xml_safe_def)

lemma xml_safe_code:
  "32 \<le> code c \<Longrightarrow> code c < 127 \<Longrightarrow> code c \<noteq> 60 \<Longrightarrow> code c \<noteq> 62 \<Longrightarrow> code c \<noteq> 38 \<Longrightarrow> xml_safe [c]"
  by (auto simp: xml_safe_def)

lemma digit_char_safe: "d < 16 \<Longrightarrow> xml_safe [digit_char d]"
  by (rule xml_safe_code) (simp_all add: code_digit_char)

lemma esc_safe: "xml_safe (esc c)"
proof (cases "fn_plain c")
  case True
  then show ?thesis
    by (auto simp: xml_safe_def esc_def fn_plain_def isalnum_def isalpha_def isupper_def islower_def isdigit_def)
next
  case False
  have "code c div 16 < 16" by (rule high_nibble)
  then show ?thesis
    using False digit_char_safe [of "code c div 16"] digit_char_safe [of "code c mod 16"]
    by (simp add: esc_def show_hex2_byte code_bound xml_safe_def)
qed

lemma escaped_safe: "xml_safe (concat (map esc s))"
  by (induction s) (simp_all add: xml_safe_append esc_safe, simp add: xml_safe_def)

lemma hex2asc_digit: "d < 16 \<Longrightarrow> NE_HEX2ASC d = digit_char d"
  by (simp add: NE_HEX2ASC_def digit_char_def add.commute)

lemma byte_join:
  assumes "a < 16" "b < 16"
  shows "unat (or (push_bit 4 (word_of_int (int a) :: 8 word)) (word_of_int (int b))) = a * 16 + b"
proof -
  have "\<forall>a < 16. \<forall>b < 16. unat (or (push_bit 4 (word_of_int (int a) :: 8 word)) (word_of_int (int b))) = a * 16 + b"
    by code_simp
  then show ?thesis using assms by blast
qed

lemma ascii_pair:
  "ascii_pairs (NE_HEX2ASC (code c div 16) # NE_HEX2ASC (code c mod 16) # r) = c # ascii_pairs r"
proof -
  have lt: "code c div 16 < 16" by (rule high_nibble)
  have "signed_char (digit_char d) = int (code (digit_char d))" if "d < 16" for d
    using that by (simp add: signed_char_def code_digit_char)
  then show ?thesis
    using lt by (simp add: hex2asc_digit asc2hex_digit byte_join [simplified])
qed

lemma ascii_pairs_md5: "ascii_pairs (ne_md5_to_ascii m) = m"
  by (induction m) (simp_all add: ne_md5_to_ascii_def ascii_pair del: ascii_pairs.simps(1))

lemma length_md5 [simp]: "length (ne_md5_to_ascii m) = 2 * length m"
  by (induction m) (simp_all add: ne_md5_to_ascii_def)

lemma md5_safe: "xml_safe (ne_md5_to_ascii m)"
proof (induction m)
  case (Cons c m)
  have "code c div 16 < 16" by (rule high_nibble)
  then show ?case
    using Cons digit_char_safe [of "code c div 16"] digit_char_safe [of "code c mod 16"]
    by (auto simp: ne_md5_to_ascii_def hex2asc_digit xml_safe_def)
qed (simp add: ne_md5_to_ascii_def xml_safe_def)

text \<open>A non-empty name, whatever its bytes, survives escaping and unescaping, and the escaped
  form holds only printable characters that XML does not treat specially.\<close>

theorem fn_escape_round_trip:
  assumes "name \<noteq> ''''"
  shows "\<exists>e. fn_escape name = Some e \<and> fn_unescape e = Some name \<and> xml_safe e"
  using assms
  by (cases name) (simp_all add: fn_escape_esc fn_unescape_def unescape_escaped unescape_esc escaped_safe
    esc_safe xml_safe_append)

lemma fn_escape_round_trip_witness:
  "\<exists>e. fn_escape ''a b<&%'' = Some e \<and> fn_unescape e = Some ''a b<&%'' \<and> xml_safe e"
  by (rule fn_escape_round_trip) simp

text \<open>A digest of 16 bytes survives the conversion to text and back, and its text has the 32
  characters that the reader accepts.\<close>

theorem md5_round_trip:
  assumes "length m = 16"
  shows "length (ne_md5_to_ascii m) = 32 \<and> ne_ascii_to_md5 (ne_md5_to_ascii m) = Some m"
  using assms by (simp add: ne_ascii_to_md5_def ascii_pairs_md5)

lemma md5_round_trip_witness:
  "length (ne_md5_to_ascii zero_checksum) = 32
    \<and> ne_ascii_to_md5 (ne_md5_to_ascii zero_checksum) = Some zero_checksum"
  by (rule md5_round_trip) (simp add: zero_checksum_def)

end
