(* ===== verification/Store_Trip.thy ===== *)
theory Store_Trip
  imports Site_Store
begin

text \<open>
  What is written to the storage file is what is read back (\<^verbatim>\<open>src/sitestore.c\<close>).  The text that the
  writer prints is shown to be an XML document, given as a tree; the parser is required to turn
  that document into its events, up to the way it cuts character data into pieces.
\<close>

section \<open>Documents and their events\<close>

datatype xml = Elem string "(string \<times> string) list" "xml list" | Text string

definition attr_text :: "(string \<times> string) list \<Rightarrow> string" where
  "attr_text as = concat (map (\<lambda>(k, v). '' '' @ k @ ''='' @ sq v) as)"

fun render :: "xml \<Rightarrow> string" where
  "render (Text t) = t"
| "render (Elem n as cs) =
     ''<'' @ n @ attr_text as
       @ (if cs = [] then ''/>'' else ''>'' @ concat (map render cs) @ ''</'' @ n @ ''>'')"

definition document :: "xml \<Rightarrow> string" where
  "document t = ''<?xml version='' @ dq ''1.0'' @ '' encoding='' @ dq ''ISO-8859-1'' @ ''?>'' @ nl
     @ render t @ nl"

fun events :: "xml \<Rightarrow> xml_event list" where
  "events (Text t) = [Chars t]"
| "events (Elem n as cs) = Start '''' n # concat (map events cs) @ [End '''' n]"

text \<open>A parser may deliver character data in any number of pieces.\<close>

fun normal :: "xml_event list \<Rightarrow> xml_event list" where
  "normal [] = []"
| "normal (Chars t # es) =
     (case normal es of
        Chars u # fs \<Rightarrow> Chars (t @ u) # fs
      | fs \<Rightarrow> if t = '''' then fs else Chars t # fs)"
| "normal (e # es) = e # normal es"

definition parses :: "xml_parser \<Rightarrow> xml \<Rightarrow> bool" where
  "parses parser t \<longleftrightarrow>
     snd (parser (document t)) = None \<and> normal (fst (parser (document t))) = normal (events t)"

text \<open>The documents for which a parser is asked to do this: names of letters and hyphens, texts and
  attribute values without markup characters.\<close>

definition name_char :: "char \<Rightarrow> bool" where
  "name_char c \<longleftrightarrow> isalpha c \<or> c = CHR ''-'' \<or> isdigit c"

definition xml_name :: "string \<Rightarrow> bool" where
  "xml_name n \<longleftrightarrow> (case n of [] \<Rightarrow> False | c # r \<Rightarrow> isalpha c \<and> (\<forall>d \<in> set r. name_char d))"

definition text_char :: "char \<Rightarrow> bool" where
  "text_char c \<longleftrightarrow> c = CHR 0x0A
     \<or> (32 \<le> code c \<and> code c < 127 \<and> c \<noteq> CHR ''<'' \<and> c \<noteq> CHR ''>'' \<and> c \<noteq> CHR ''&'')"

fun wf_xml :: "xml \<Rightarrow> bool" where
  "wf_xml (Text t) \<longleftrightarrow> (\<forall>c \<in> set t. text_char c)"
| "wf_xml (Elem n as cs) \<longleftrightarrow> xml_name n
     \<and> (\<forall>(k, v) \<in> set as. xml_name k \<and> xml_safe v \<and> CHR 0x27 \<notin> set v)
     \<and> (\<forall>c \<in> set cs. wf_xml c)"

section \<open>The document of a site\<close>

definition leaf :: "string \<Rightarrow> string \<Rightarrow> xml" where "leaf n t = Elem n [] [Text t]"

definition void :: "string \<Rightarrow> xml" where "void n = Elem n [] []"

definition type_name :: "file_type \<Rightarrow> string" where
  "type_name t = ''type-'' @ (case t of file_file \<Rightarrow> ''file'' | file_dir \<Rightarrow> ''directory''
     | file_link \<Rightarrow> ''link'')"

definition body_trees :: "site \<Rightarrow> site_file \<Rightarrow> xml list" where
  "body_trees s f = (case sf_type f of
     file_link \<Rightarrow> [leaf ''linktarget'' (the (fs_linktarget (sf_stored f)))]
   | file_file \<Rightarrow>
       [leaf ''size'' (show_int (fs_size (sf_stored f))),
        (case s_state_method s of
           state_checksum \<Rightarrow> leaf ''checksum'' (ne_md5_to_ascii (fs_checksum (sf_stored f)))
         | state_timesize \<Rightarrow> leaf ''modtime'' (show_int (fs_time (sf_stored f)))),
        Elem ''ascii'' [] [void (if fs_ascii (sf_stored f) then ''true'' else ''false'')]]
       @ (if fs_exists (sf_server f)
          then [leaf ''server-modtime'' (show_int (fs_time (sf_server f)))] else [])
   | file_dir \<Rightarrow> [])"

definition item_tree :: "site \<Rightarrow> site_file \<Rightarrow> xml" where
  "item_tree s f = Elem ''item'' []
     ([Elem ''type'' [] [void (type_name (sf_type f))],
       leaf ''filename'' (concat (map esc (the (fs_filename (sf_stored f))))), Text nl]
      @ (if fs_mode (sf_stored f) \<noteq> INVALID_MODE
         then [leaf ''protection'' (show_oct3 (unat (fs_mode (sf_stored f))))] else [])
      @ body_trees s f)"

definition option_trees :: "string \<times> string \<Rightarrow> site \<Rightarrow> xml list" where
  "option_trees saved_by s =
     [Text (nl @ '' ''), Elem ''saved-by'' [(''package'', fst saved_by), (''version'', snd saved_by)] [],
      Text (nl @ '' '')]
     @ (if s_state_method s = state_checksum
        then [Elem ''checksum-algorithm'' [] [void ''checksum-MD5''], Text (nl @ '' '')] else [])
     @ [Elem ''state-method'' []
          [void (if s_state_method s = state_checksum then ''state-checksum'' else ''state-timesize'')],
        Text (nl @ '' '')]
     @ (if s_safemode s then [void ''safemode'', Text (nl @ '' '')] else [])
     @ [void ''escaped-filenames'', Text nl]"

definition stored_files :: "site \<Rightarrow> site_file list" where
  "stored_files s = filter (\<lambda>f. fs_exists (sf_stored f)) (map snd (s_files s))"

definition state_tree :: "string \<times> string \<Rightarrow> site \<Rightarrow> xml" where
  "state_tree saved_by s =
     Elem ''sitestate'' [(''version'', sitestate_version)]
       [Text nl, Elem ''options'' [] (option_trees saved_by s), Text nl,
        Elem ''items'' [] (Text nl # concat (map (\<lambda>f. [item_tree s f, Text nl]) (stored_files s))),
        Text nl]"

text \<open>What the format can hold.\<close>

definition long_ok :: "int \<Rightarrow> bool" where "long_ok i \<longleftrightarrow> LONG_MIN < i \<and> i < LONG_MAX"

definition storable :: "site \<Rightarrow> site_file \<Rightarrow> bool" where
  "storable s f \<longleftrightarrow>
     (\<exists>n. fs_filename (sf_stored f) = Some n \<and> n \<noteq> '''')
     \<and> (case sf_type f of
          file_link \<Rightarrow> (\<exists>t. fs_linktarget (sf_stored f) = Some t \<and> xml_safe t)
        | file_file \<Rightarrow>
            LONG_MIN \<le> fs_size (sf_stored f) \<and> fs_size (sf_stored f) \<le> LONG_MAX
            \<and> (case s_state_method s of
                 state_checksum \<Rightarrow> length (fs_checksum (sf_stored f)) = 16
               | state_timesize \<Rightarrow> long_ok (fs_time (sf_stored f)))
            \<and> (fs_exists (sf_server f) \<longrightarrow> long_ok (fs_time (sf_server f)))
        | file_dir \<Rightarrow> True)"

text \<open>What the format keeps of a stored state.\<close>

definition recorded :: "state_method \<Rightarrow> file_type \<times> file_state \<Rightarrow> file_type \<times> file_state" where
  "recorded m p = (case p of (t, st) \<Rightarrow> (t, case t of
     file_dir \<Rightarrow> zero_state\<lparr>fs_filename := fs_filename st, fs_mode := fs_mode st, fs_exists := True\<rparr>
   | file_link \<Rightarrow> zero_state\<lparr>fs_filename := fs_filename st, fs_mode := fs_mode st,
       fs_linktarget := fs_linktarget st, fs_exists := True\<rparr>
   | file_file \<Rightarrow> zero_state\<lparr>fs_filename := fs_filename st, fs_mode := fs_mode st,
       fs_size := fs_size st, fs_ascii := fs_ascii st, fs_exists := True,
       fs_time := (if m = state_timesize then fs_time st else 0),
       fs_checksum := (if m = state_checksum then fs_checksum st else zero_checksum)\<rparr>))"

section \<open>The writer prints the document\<close>

lemma render_void: "render (void n) = ''<'' @ n @ ''/>''"
  by (simp add: void_def attr_text_def)

lemma render_leaf: "render (leaf n t) = el n t"
  by (simp add: leaf_def attr_text_def el_def)

lemma item_text_render:
  assumes "storable s f"
  shows "item_text s f = Some (render (item_tree s f) @ nl)"
proof -
  obtain n where n: "fs_filename (sf_stored f) = Some n" "n \<noteq> ''''" using assms by (auto simp: storable_def)
  have sel: "fn_escape n = Some (concat (map esc n))" using n by (simp add: fn_escape_esc)
  show ?thesis
  proof (cases "sf_type f")
    case file_file
    then show ?thesis
      by (cases "s_state_method s")
        (simp_all add: item_text_def item_tree_def body_trees_def n sel render_leaf render_void
          attr_text_def type_name_def el_def void_def)
  next
    case file_dir
    then show ?thesis
      by (simp add: item_text_def item_tree_def body_trees_def n sel render_leaf render_void
          attr_text_def type_name_def el_def)
  next
    case file_link
    then obtain t where "fs_linktarget (sf_stored f) = Some t" using assms by (auto simp: storable_def)
    then show ?thesis using file_link
      by (simp add: item_text_def item_tree_def body_trees_def n sel render_leaf render_void
          attr_text_def type_name_def el_def)
  qed
qed

lemma items_text_render:
  assumes "\<And>f. f \<in> set (filter (\<lambda>f. fs_exists (sf_stored f)) (map snd fs)) \<Longrightarrow> storable s f"
  shows "items_text s fs = Some (concat (map (\<lambda>f. render (item_tree s f) @ nl)
    (filter (\<lambda>f. fs_exists (sf_stored f)) (map snd fs))))"
  using assms
proof (induction fs)
  case (Cons p fs)
  obtain a f where p: "p = (a, f)" by (cases p)
  show ?case using Cons item_text_render [of s f] by (simp add: p)
qed simp

lemma render_items:
  "concat (map render (concat (map (\<lambda>f. [item_tree s f, Text nl]) fs)))
    = concat (map (\<lambda>f. render (item_tree s f) @ nl) fs)"
  by (induction fs) simp_all

lemma written_document:
  assumes "\<And>f. f \<in> set (stored_files s) \<Longrightarrow> storable s f"
  shows "site_write_stored_state saved_by s =
    Some (document (state_tree saved_by s), s\<lparr>s_stored_state_method := s_state_method s\<rparr>)"
proof -
  have "items_text s (s_files s) = Some (concat (map (\<lambda>f. render (item_tree s f) @ nl) (stored_files s)))"
    unfolding stored_files_def
    by (rule items_text_render) (rule assms, simp add: stored_files_def)
  then show ?thesis
    by (simp add: site_write_stored_state_def document_def state_tree_def option_trees_def attr_text_def
        render_void render_items del: map_concat)
qed

section \<open>The handlers on a document\<close>

lemma handle_Chars: "handle_events fnm (Chars a # Chars b # es) st p d = handle_events fnm (Chars (a @ b) # es) st p d"
  by (simp add: char_data_def)

lemma handle_empty: "handle_events fnm (Chars '''' # es) st p d = handle_events fnm es st p d"
  by (simp add: char_data_def)

lemma handle_cong:
  assumes "\<And>st p d. handle_events fnm es st p d = handle_events fnm fs st p d"
  shows "handle_events fnm (e # es) st p d = handle_events fnm (e # fs) st p d"
proof -
  have "handle_events fnm es = handle_events fnm fs" by (intro ext assms)
  then show ?thesis by (cases e) (simp_all split: prod.split option.split list.split)
qed

lemma handle_normal: "handle_events fnm (normal es) st p d = handle_events fnm es st p d"
proof (induction es arbitrary: st p d)
  case (Cons e es)
  have keep: "handle_events fnm (e # normal es) st p d = handle_events fnm (e # es) st p d"
    by (rule handle_cong) (rule Cons.IH)
  show ?case
  proof (cases e)
    case (Chars t)
    have "handle_events fnm (Chars t # normal es) st p d = handle_events fnm (normal (Chars t # es)) st p d"
    proof (cases "normal es")
      case Nil
      then show ?thesis by (simp add: char_data_def)
    next
      case (Cons e fs)
      then show ?thesis
        using handle_Chars [of fnm t _ fs st p d] handle_empty [of fnm "normal es" st p d]
        by (cases e) (simp_all del: handle_events.simps)
    qed
    then show ?thesis using keep Chars by simp
  qed (use keep in \<open>simp_all del: handle_events.simps\<close>)
qed simp

lemma skip_trees:
  assumes "\<And>c rest p. c \<in> set cs \<Longrightarrow> handle_events fnm (events c @ rest) st (Suc p) d = handle_events fnm rest st (Suc p) d"
  shows "handle_events fnm (concat (map events cs) @ rest) st (Suc p) d = handle_events fnm rest st (Suc p) d"
  using assms by (induction cs) simp_all

lemma skip_tree: "handle_events fnm (events t @ rest) st (Suc p) d = handle_events fnm rest st (Suc p) d"
proof (induction t arbitrary: rest p)
  case (Elem n as cs)
  then show ?case by (simp add: skip_trees)
qed simp

lemma elm_lookup [simp]:
  "map_of elmmap ''sitestate'' = Some ELM_sitestate"
  "map_of elmmap ''options'' = Some ELM_options"
  "map_of elmmap ''saved-by'' = Some ELM_opt_saved_by"
  "map_of elmmap ''checksum-algorithm'' = Some ELM_opt_checksum"
  "map_of elmmap ''checksum-MD5'' = Some ELM_opt_checksum_md5"
  "map_of elmmap ''state-method'' = Some ELM_opt_state_method"
  "map_of elmmap ''state-timesize'' = Some ELM_opt_state_method_timesize"
  "map_of elmmap ''state-checksum'' = Some ELM_opt_state_method_checksum"
  "map_of elmmap ''items'' = Some ELM_items"
  "map_of elmmap ''item'' = Some ELM_item"
  "map_of elmmap ''type'' = Some ELM_type"
  "map_of elmmap ''type-file'' = Some ELM_type_file"
  "map_of elmmap ''type-directory'' = Some ELM_type_directory"
  "map_of elmmap ''type-link'' = Some ELM_type_link"
  "map_of elmmap ''filename'' = Some ELM_filename"
  "map_of elmmap ''size'' = Some ELM_size"
  "map_of elmmap ''modtime'' = Some ELM_modtime"
  "map_of elmmap ''ascii'' = Some ELM_ascii"
  "map_of elmmap ''linktarget'' = Some ELM_linktarget"
  "map_of elmmap ''checksum'' = Some ELM_checksum"
  "map_of elmmap ''protection'' = Some ELM_protection"
  "map_of elmmap ''server-modtime'' = Some ELM_server_modtime"
  "map_of elmmap ''true'' = Some ELM_true"
  "map_of elmmap ''false'' = Some ELM_false"
  "map_of elmmap ''safemode'' = None"
  "map_of elmmap ''escaped-filenames'' = None"
  by (simp_all add: elmmap_def)

lemma leaf_step:
  assumes "map_of elmmap n = Some e" "e \<noteq> ELM_item" "e \<noteq> ELM_ascii"
    and "end_element fnm e (d\<lparr>x_cdata := t\<rparr>) = Some (Inr d')"
  shows "handle_events fnm (events (leaf n t) @ rest) st 0 d = handle_events fnm rest st 0 d'"
  using assms by (simp add: leaf_def start_element_def char_data_def)

lemma void_step:
  assumes "map_of elmmap n = Some e" "e \<noteq> ELM_item" "e \<noteq> ELM_ascii"
    and "end_element fnm e (d\<lparr>x_cdata := ''''\<rparr>) = Some (Inr d')"
  shows "handle_events fnm (events (void n) @ rest) st 0 d = handle_events fnm rest st 0 d'"
  using assms by (simp add: void_def start_element_def)

lemma declined_step:
  assumes "map_of elmmap n = None"
  shows "handle_events fnm (events (void n) @ rest) st 0 d = handle_events fnm rest st 0 d"
  using assms by (simp add: void_def start_element_def)

lemma text_step:
  "handle_events fnm (events (Text t) @ rest) (e # st) 0 d
    = handle_events fnm rest (e # st) 0 (d\<lparr>x_cdata := x_cdata d @ t\<rparr>)"
  by (simp add: char_data_def)

section \<open>Reading an item\<close>

lemma type_step:
  "handle_events fnm (events (Elem ''type'' [] [void (type_name t)]) @ rest) st 0 d
    = handle_events fnm rest st 0 (d\<lparr>x_cdata := '''', x_type := t\<rparr>)"
  by (cases t) (simp_all add: type_name_def void_def start_element_def end_element_def)

lemma filename_step:
  assumes "n \<noteq> ''''"
  shows "handle_events fnm (events (leaf ''filename'' (concat (map esc n))) @ rest) st 0 d
    = handle_events fnm rest st 0
        (d\<lparr>x_cdata := concat (map esc n), x_stored := (x_stored d)\<lparr>fs_filename := Some n\<rparr>\<rparr>)"
  by (rule leaf_step, simp) (use assms in \<open>simp_all add: end_element_def fn_unescape_def unescape_escaped\<close>)

lemma stored_same: "x_stored d = st \<Longrightarrow> d\<lparr>x_stored := st\<rparr> = d"
  by (cases d) simp

lemma protection_step:
  assumes "fs_mode (x_stored d) = INVALID_MODE"
  shows "\<exists>c. handle_events fnm (concat (map events (if m \<noteq> INVALID_MODE
        then [leaf ''protection'' (show_oct3 (unat m))] else [])) @ rest) st 0 d
    = handle_events fnm rest st 0 (d\<lparr>x_cdata := c, x_stored := (x_stored d)\<lparr>fs_mode := m\<rparr>\<rparr>)"
proof (cases "m = INVALID_MODE")
  case True
  then show ?thesis using assms by (intro exI [of _ "x_cdata d"]) (simp add: stored_same)
next
  case False
  have "uint m < 2 ^ LENGTH(32)" by (rule unsigned_less)
  then have "int (unat m) \<le> ULONG_MAX" by (simp add: ULONG_MAX_def)
  then have "handle_events fnm (events (leaf ''protection'' (show_oct3 (unat m))) @ rest) st 0 d
    = handle_events fnm rest st 0 (d\<lparr>x_cdata := show_oct3 (unat m), x_stored := (x_stored d)\<lparr>fs_mode := m\<rparr>\<rparr>)"
    by (intro leaf_step [where e = ELM_protection]) (simp_all add: end_element_def strtoul_show_oct3)
  then show ?thesis using False by auto
qed

lemma size_step:
  assumes "LONG_MIN \<le> i" "i \<le> LONG_MAX"
  shows "handle_events fnm (events (leaf ''size'' (show_int i)) @ rest) st 0 d
    = handle_events fnm rest st 0 (d\<lparr>x_cdata := show_int i, x_stored := (x_stored d)\<lparr>fs_size := i\<rparr>\<rparr>)"
  by (rule leaf_step, simp) (use assms in \<open>simp_all add: end_element_def strtol_show_int\<close>)

lemma modtime_step:
  assumes "long_ok i"
  shows "handle_events fnm (events (leaf ''modtime'' (show_int i)) @ rest) st 0 d
    = handle_events fnm rest st 0 (d\<lparr>x_cdata := show_int i, x_stored := (x_stored d)\<lparr>fs_time := i\<rparr>\<rparr>)"
  by (rule leaf_step, simp) (use assms in \<open>auto simp: end_element_def strtol_show_int long_ok_def\<close>)

lemma server_step:
  assumes "long_ok i"
  shows "handle_events fnm (events (leaf ''server-modtime'' (show_int i)) @ rest) st 0 d
    = handle_events fnm rest st 0
        (d\<lparr>x_cdata := show_int i, x_server := (x_server d)\<lparr>fs_time := i, fs_exists := True\<rparr>\<rparr>)"
  by (rule leaf_step, simp) (use assms in \<open>auto simp: end_element_def strtol_show_int long_ok_def\<close>)

lemma checksum_step:
  assumes "length m = 16"
  shows "handle_events fnm (events (leaf ''checksum'' (ne_md5_to_ascii m)) @ rest) st 0 d
    = handle_events fnm rest st 0
        (d\<lparr>x_cdata := ne_md5_to_ascii m, x_stored := (x_stored d)\<lparr>fs_checksum := m\<rparr>\<rparr>)"
  by (rule leaf_step, simp) (use assms in \<open>auto simp: end_element_def ne_ascii_to_md5_def ascii_pairs_md5\<close>)

lemma linktarget_step:
  "handle_events fnm (events (leaf ''linktarget'' t) @ rest) st 0 d
    = handle_events fnm rest st 0
        (d\<lparr>x_cdata := t, x_stored := (x_stored d)\<lparr>fs_linktarget := Some t\<rparr>\<rparr>)"
  by (rule leaf_step, simp) (auto simp: end_element_def)

lemma ascii_step:
  "handle_events fnm (events (Elem ''ascii'' [] [void (if b then ''true'' else ''false'')]) @ rest) st 0 d
    = handle_events fnm rest st 0
        (d\<lparr>x_cdata := '''', x_truth := (if b then 1 else 2), x_stored := (x_stored d)\<lparr>fs_ascii := b\<rparr>\<rparr>)"
  by (simp add: void_def start_element_def end_element_def)

lemmas ascii_steps = ascii_step [where b = True, simplified if_True]
  ascii_step [where b = False, simplified if_False]

lemmas field_steps = ascii_steps type_step filename_step size_step modtime_step server_step checksum_step
  linktarget_step ascii_step

lemma body_step:
  assumes s: "storable s f" and d: "x_stored d = zero_state\<lparr>fs_filename := fs_filename (sf_stored f),
      fs_mode := fs_mode (sf_stored f)\<rparr>"
  shows "\<exists>c b sv. handle_events fnm (concat (map events (body_trees s f)) @ rest) st 0 d
    = handle_events fnm rest st 0 (d\<lparr>x_cdata := c, x_truth := b, x_server := sv,
        x_stored := (snd (recorded (s_state_method s) (sf_type f, sf_stored f)))\<lparr>fs_exists := False\<rparr>\<rparr>)"
proof (cases "sf_type f")
  case file_dir
  then show ?thesis
    by (intro exI [of _ "x_cdata d"] exI [of _ "x_truth d"] exI [of _ "x_server d"])
      (simp add: body_trees_def recorded_def stored_same d zero_state_def)
next
  case file_link
  then obtain t where "fs_linktarget (sf_stored f) = Some t" using s by (auto simp: storable_def)
  then show ?thesis using file_link
    by (intro exI [of _ t] exI [of _ "x_truth d"] exI [of _ "x_server d"])
      (simp add: body_trees_def recorded_def linktarget_step d zero_state_def)
next
  case file_file
  have z: "LONG_MIN \<le> fs_size (sf_stored f)" "fs_size (sf_stored f) \<le> LONG_MAX"
    using s file_file by (simp_all add: storable_def)
  have m: "s_state_method s = state_timesize \<and> long_ok (fs_time (sf_stored f))
    \<or> s_state_method s = state_checksum \<and> length (fs_checksum (sf_stored f)) = 16"
    using s file_file by (cases "s_state_method s") (simp_all add: storable_def)
  have sv: "fs_exists (sf_server f) \<Longrightarrow> long_ok (fs_time (sf_server f))"
    using s file_file by (simp add: storable_def)
  let ?k = "snd (recorded (s_state_method s) (sf_type f, sf_stored f))\<lparr>fs_exists := False\<rparr>"
  let ?b = "if fs_ascii (sf_stored f) then 1 else 2 :: nat"
  have steps: "\<exists>c. handle_events fnm (events (leaf ''size'' (show_int (fs_size (sf_stored f)))) @ events
        (case s_state_method s of
           state_checksum \<Rightarrow> leaf ''checksum'' (ne_md5_to_ascii (fs_checksum (sf_stored f)))
         | state_timesize \<Rightarrow> leaf ''modtime'' (show_int (fs_time (sf_stored f))))
        @ events (Elem ''ascii'' [] [void (if fs_ascii (sf_stored f) then ''true'' else ''false'')])
        @ rest) st 0 d
    = handle_events fnm rest st 0 (d\<lparr>x_cdata := c, x_truth := ?b, x_stored := ?k\<rparr>)" for rest
    using m z
    by (auto simp del: append_assoc events.simps simp: field_steps d recorded_def zero_state_def file_file)
  let ?srv = "if fs_exists (sf_server f)
      then [leaf ''server-modtime'' (show_int (fs_time (sf_server f)))] else []"
  obtain c where c: "handle_events fnm (concat (map events (body_trees s f)) @ rest) st 0 d
    = handle_events fnm (concat (map events ?srv) @ rest) st 0
        (d\<lparr>x_cdata := c, x_truth := ?b, x_stored := ?k\<rparr>)"
    using steps [of "concat (map events ?srv) @ rest"]
    by (auto simp: body_trees_def file_file simp del: events.simps split del: if_split)
  show ?thesis
  proof (cases "fs_exists (sf_server f)")
    case True
    show ?thesis unfolding c using True server_step [OF sv [OF True]]
      by (intro exI [of _ "show_int (fs_time (sf_server f))"] exI [of _ ?b]
          exI [of _ "(x_server d)\<lparr>fs_time := fs_time (sf_server f), fs_exists := True\<rparr>"])
        (cases d, simp del: events.simps)
  next
    case False
    then show ?thesis unfolding c
      by (intro exI [of _ c] exI [of _ ?b] exI [of _ "x_server d"]) (cases d, simp)
  qed
qed

text \<open>What the handlers have made of the site so far.\<close>

definition reading ::
    "bool \<Rightarrow> site_xmldoc \<Rightarrow> site \<Rightarrow> (file_type \<times> file_state) multiset \<Rightarrow> (file_type \<times> file_state) multiset \<Rightarrow> bool"
where
  "reading p d opt S L \<longleftrightarrow> site_inv (x_site d) \<and> opts (x_site d) = opt
     \<and> states m_stored (x_site d) = S \<and> states m_local (x_site d) = L
     \<and> (p \<longrightarrow> tidy (x_site d))"

lemma reading_doc [simp]:
  "reading p (d\<lparr>x_cdata := c\<rparr>) opt S L = reading p d opt S L"
  "reading p (d\<lparr>x_stored := st\<rparr>) opt S L = reading p d opt S L"
  "reading p (d\<lparr>x_server := st\<rparr>) opt S L = reading p d opt S L"
  "reading p (d\<lparr>x_truth := b\<rparr>) opt S L = reading p d opt S L"
  "reading p (d\<lparr>x_type := t\<rparr>) opt S L = reading p d opt S L"
  by (simp_all add: reading_def)

lemma tidy_frame [simp]:
  "tidy (s\<lparr>s_stored_state_method := m\<rparr>) = tidy s"
proof -
  have "states k (s\<lparr>s_stored_state_method := m\<rparr>) = states k s" for k by (simp add: states_def)
  moreover have "has_name k (s\<lparr>s_stored_state_method := m\<rparr>) = has_name k s" for k
    by (intro ext) (simp add: has_name_def get_file_def)
  ultimately show ?thesis by (simp add: tidy_def paired_def)
qed

lemma put_server_tidy:
  assumes "site_inv s" and f: "get_file a s = Some f"
  shows "tidy (put_file a (\<lambda>_. f\<lparr>sf_server := x\<rparr>) s) = tidy s"
proof -
  let ?t = "put_file a (\<lambda>_. f\<lparr>sf_server := x\<rparr>) s"
  have "states k ?t = states k s" for k by (rule put_server_states [OF site_invD(4) [OF assms(1)] f])
  moreover have "FS_GET k (f\<lparr>sf_server := x\<rparr>) = FS_GET k f" for k by (cases k) simp_all
  then have "has_name k ?t = has_name k s" for k
    using f by (intro ext) (auto simp: has_name_def frame_simps)
  moreover have "s_checkmoved ?t = s_checkmoved s" by (simp add: put_file_def)
  ultimately show ?thesis by (simp add: tidy_def paired_def)
qed

lemma item_end:
  assumes r: "reading p d opt S L" and st: "wf_state (x_type d) ((x_stored d)\<lparr>fs_exists := True\<rparr>)"
  shows "\<exists>d'. end_element fnm ELM_item d = Some (Inr d')
    \<and> reading p d' opt (add_mset (x_type d, (x_stored d)\<lparr>fs_exists := True\<rparr>) S) L"
proof -
  let ?st = "(x_stored d)\<lparr>fs_exists := True\<rparr>"
  obtain a t where s: "file_set_stored fnm (x_type d) ?st (x_site d) = Some (a, t)"
    and res: "set_result (x_type d) ?st m_stored (x_site d) (a, t)"
    using file_set_stored_result [OF _ _ st, of "x_site d" fnm] r by (auto simp: reading_def)
  obtain f where f: "get_file a t = Some f" using res by (auto simp: set_result_def)
  have inv: "site_inv t" "opts t = opt" "states m_stored t = add_mset (x_type d, ?st) S"
    "states m_local t = L"
    using res r by (auto simp: set_result_def reading_def)
  have tidy: "p \<longrightarrow> tidy t"
    using set_result_tidy [OF _ res] r by (simp add: reading_def)
  have p: "put_file a (\<lambda>f. f\<lparr>sf_server := x\<rparr>) t = put_file a (\<lambda>_. f\<lparr>sf_server := x\<rparr>) t" for x
    by (rule put_file_const) (use f inv(1) in \<open>auto dest: site_invD(4)\<close>)
  show ?thesis
    using s inv p tidy put_server_inv [OF inv(1) f] put_server_states [OF site_invD(4) [OF inv(1)] f]
      put_server_tidy [OF inv(1) f]
    by (auto simp: end_element_def reading_def frame_simps Let_def)
qed

lemma recorded_wf:
  assumes "storable s f"
  shows "wf_state (sf_type f) (snd (recorded m (sf_type f, sf_stored f)))"
  using assms by (auto simp: storable_def recorded_def wf_state_def split: file_type.splits)

lemma recorded_exists:
  "(snd (recorded m (t, st)))\<lparr>fs_exists := False, fs_exists := True\<rparr> = snd (recorded m (t, st))"
  by (simp add: recorded_def zero_state_def split: file_type.split)

lemma item_start:
  "handle_events fnm (events (Elem ''item'' [] cs) @ rest) st 0 d
    = handle_events fnm (concat (map events cs) @ End '''' ''item'' # rest) (ELM_item # st) 0
        (d\<lparr>x_cdata := '''', x_stored := zero_state\<lparr>fs_mode := INVALID_MODE\<rparr>\<rparr>)"
  by (simp add: start_element_def)

lemma item_reads:
  assumes s: "storable s f" and r: "reading p d opt S L"
  shows "\<exists>d'. handle_events fnm (events (item_tree s f) @ rest) st 0 d = handle_events fnm rest st 0 d'
    \<and> reading p d' opt (add_mset (recorded (s_state_method s) (sf_type f, sf_stored f)) S) L"
proof -
  let ?k = "recorded (s_state_method s) (sf_type f, sf_stored f)"
  obtain n where n: "fs_filename (sf_stored f) = Some n" "n \<noteq> ''''" using s by (auto simp: storable_def)
  let ?st = "ELM_item # st"
  let ?tail = "End '''' ''item'' # rest"
  let ?d1 = "d\<lparr>x_cdata := '''', x_stored := zero_state\<lparr>fs_mode := INVALID_MODE\<rparr>, x_type := sf_type f\<rparr>"
  let ?e = "concat (map esc n)"
  let ?d2 = "?d1\<lparr>x_cdata := ?e @ nl, x_stored := zero_state\<lparr>fs_mode := INVALID_MODE, fs_filename := Some n\<rparr>\<rparr>"
  let ?prot = "if fs_mode (sf_stored f) \<noteq> INVALID_MODE
         then [leaf ''protection'' (show_oct3 (unat (fs_mode (sf_stored f))))] else []"
  have 1: "handle_events fnm (events (item_tree s f) @ rest) st 0 d
    = handle_events fnm (concat (map events ?prot) @ concat (map events (body_trees s f)) @ ?tail) ?st 0 ?d2"
    unfolding item_tree_def item_start
    using filename_step [OF n(2)] text_step
    by (simp only: map_append concat_append append_assoc append_Cons append_Nil concat.simps list.map
        type_step n option.sel filename_step [OF n(2)] text_step) (cases d, simp)
  obtain c where 2: "handle_events fnm (concat (map events ?prot) @ concat (map events (body_trees s f)) @ ?tail) ?st 0 ?d2
    = handle_events fnm (concat (map events (body_trees s f)) @ ?tail) ?st 0
        (?d2\<lparr>x_cdata := c, x_stored := (x_stored ?d2)\<lparr>fs_mode := fs_mode (sf_stored f)\<rparr>\<rparr>)"
    using protection_step [of ?d2 fnm "fs_mode (sf_stored f)"] by auto
  obtain c' b sv where 3: "handle_events fnm (concat (map events (body_trees s f)) @ ?tail) ?st 0
        (?d2\<lparr>x_cdata := c, x_stored := (x_stored ?d2)\<lparr>fs_mode := fs_mode (sf_stored f)\<rparr>\<rparr>)
    = handle_events fnm ?tail ?st 0
        (?d2\<lparr>x_cdata := c', x_truth := b, x_server := sv, x_stored := (snd ?k)\<lparr>fs_exists := False\<rparr>\<rparr>)"
    using body_step [OF s, of "?d2\<lparr>x_cdata := c, x_stored := (x_stored ?d2)\<lparr>fs_mode := fs_mode (sf_stored f)\<rparr>\<rparr>"
        fnm ?tail ?st] n by (auto simp: zero_state_def)
  let ?d3 = "?d2\<lparr>x_cdata := c', x_truth := b, x_server := sv, x_stored := (snd ?k)\<lparr>fs_exists := False\<rparr>\<rparr>"
  have "x_type ?d3 = sf_type f" "(x_stored ?d3)\<lparr>fs_exists := True\<rparr> = snd ?k"
    using recorded_exists by simp_all
  then obtain d' where d': "end_element fnm ELM_item ?d3 = Some (Inr d')"
    "reading p d' opt (add_mset (sf_type f, snd ?k) S) L"
    using item_end [of p ?d3 opt S L fnm] recorded_wf [OF s] r by auto
  have "(sf_type f, snd ?k) = ?k" by (simp add: recorded_def)
  then show ?thesis using 1 2 3 d' by auto
qed

section \<open>The whole document\<close>

lemma items_read:
  assumes "\<And>f. f \<in> set fs \<Longrightarrow> storable s f" and "reading p d opt S L"
  shows "\<exists>d'. handle_events fnm (concat (map events (concat (map (\<lambda>f. [item_tree s f, Text nl]) fs))) @ rest) (e # st) 0 d
      = handle_events fnm rest (e # st) 0 d'
    \<and> reading p d' opt (S + mset (map (\<lambda>f. recorded (s_state_method s) (sf_type f, sf_stored f)) fs)) L"
  using assms
proof (induction fs arbitrary: d S)
  case Nil
  then show ?case by auto
next
  case (Cons f fs)
  let ?k = "recorded (s_state_method s) (sf_type f, sf_stored f)"
  let ?rest = "concat (map events (concat (map (\<lambda>f. [item_tree s f, Text nl]) fs))) @ rest"
  obtain d1 where d1: "handle_events fnm (events (item_tree s f) @ events (Text nl) @ ?rest) (e # st) 0 d
      = handle_events fnm (events (Text nl) @ ?rest) (e # st) 0 d1" "reading p d1 opt (add_mset ?k S) L"
    using item_reads [OF Cons.prems(1) Cons.prems(2), of f fnm "events (Text nl) @ ?rest" "e # st"]
    by (auto simp del: events.simps)
  obtain d2 where d2: "handle_events fnm ?rest (e # st) 0 (d1\<lparr>x_cdata := x_cdata d1 @ nl\<rparr>) = handle_events fnm rest (e # st) 0 d2"
    "reading p d2 opt (add_mset ?k S + mset (map (\<lambda>f. recorded (s_state_method s) (sf_type f, sf_stored f)) fs)) L"
    using Cons.IH [of "d1\<lparr>x_cdata := x_cdata d1 @ nl\<rparr>" "add_mset ?k S"] Cons.prems d1(2) by auto
  show ?case
    by (rule exI [of _ d2]) (use d1 d2 text_step in \<open>simp del: events.simps\<close>)
qed

lemma nested_step:
  assumes "map_of elmmap n = Some e" "e \<noteq> ELM_item" "e \<noteq> ELM_ascii" "\<And>d. end_element fnm e d = Some (Inr d)"
    and "\<exists>d'. handle_events fnm (concat (map events cs) @ End '''' n # rest) (e # st) 0 (d\<lparr>x_cdata := ''''\<rparr>)
      = handle_events fnm (End '''' n # rest) (e # st) 0 d' \<and> P d'"
  shows "\<exists>d'. handle_events fnm (events (Elem n as cs) @ rest) st 0 d = handle_events fnm rest st 0 d' \<and> P d'"
  using assms by (auto simp: start_element_def)

definition with_method :: "state_method \<Rightarrow> string \<Rightarrow> site_xmldoc \<Rightarrow> site_xmldoc" where
  "with_method m c d = d\<lparr>x_site := (x_site d)\<lparr>s_stored_state_method := m\<rparr>, x_cdata := c\<rparr>"

lemma with_method_cdata [simp]: "with_method m c (d\<lparr>x_cdata := x\<rparr>) = with_method m c d"
  by (simp add: with_method_def)

lemma options_read:
  "\<exists>c. handle_events fnm (events (Elem ''options'' [] (option_trees sb s)) @ rest) st 0 d
    = handle_events fnm rest st 0 (with_method (s_state_method s) c d)"
  by (cases "s_state_method s"; cases "s_safemode s")
    (auto simp: option_trees_def void_def start_element_def end_element_def char_data_def with_method_def)

lemma method_frame:
  "site_inv (s\<lparr>s_stored_state_method := m\<rparr>) = site_inv s"
  "states k (s\<lparr>s_stored_state_method := m\<rparr>) = states k s"
  "opts (s\<lparr>s_stored_state_method := m\<rparr>) = (opts s)\<lparr>s_stored_state_method := m\<rparr>"
proof -
  have c: "counter k (s\<lparr>s_stored_state_method := m\<rparr>) = counter k s" for k by (cases k) simp_all
  have "file_compare ty a b (s\<lparr>s_stored_state_method := m\<rparr>) = file_compare ty a b s" for ty a b
    by (cases s) (simp only: file_compare_def site.select_convs site.update_convs)
  then show "site_inv (s\<lparr>s_stored_state_method := m\<rparr>) = site_inv s"
    by (simp add: site_inv_def files_ok_def stats_ok_def flags_ok_def file_ok_def c site_stats_update_def)
qed (simp_all add: states_def opts_def)

lemma states_stored:
  "states m_stored s = mset (map (\<lambda>f. (sf_type f, sf_stored f)) (stored_files s))"
proof -
  have "tally (\<lambda>f. if fs_exists (sf_stored f) then {#(sf_type f, sf_stored f)#} else {#}) xs
    = mset (map (\<lambda>f. (sf_type f, sf_stored f)) (filter (\<lambda>f. fs_exists (sf_stored f)) (map snd xs)))"
    for xs :: "(addr \<times> site_file) list"
    by (induction xs) auto
  then show ?thesis by (simp add: states_def stored_files_def cong: if_cong)
qed

lemma document_read:
  assumes st: "\<And>f. f \<in> set (stored_files s) \<Longrightarrow> storable s f" and inv: "site_inv (x_site d)"
    and tidy: "p \<longrightarrow> tidy (x_site d)"
  shows "\<exists>d'. handle_events fnm (events (state_tree sb s)) [] 0 d = Some (None, d')
    \<and> reading p d' ((opts (x_site d))\<lparr>s_stored_state_method := s_state_method s\<rparr>)
        (states m_stored (x_site d) + image_mset (recorded (s_state_method s)) (states m_stored s))
        (states m_local (x_site d))"
proof -
  let ?m = "s_state_method s"
  let ?items = "Text nl # concat (map (\<lambda>f. [item_tree s f, Text nl]) (stored_files s))"
  let ?rest = "events (Text nl) @ events (Elem ''items'' [] ?items) @ events (Text nl) @ [End '''' ''sitestate'']"
  have 1: "handle_events fnm (events (state_tree sb s)) [] 0 d
    = handle_events fnm (events (Text nl) @ events (Elem ''options'' [] (option_trees sb s)) @ ?rest)
        [ELM_sitestate] 0 (d\<lparr>x_cdata := ''''\<rparr>)"
    by (simp add: state_tree_def start_element_def)
  obtain c where 2: "handle_events fnm (events (Elem ''options'' [] (option_trees sb s)) @ ?rest)
      [ELM_sitestate] 0 (d\<lparr>x_cdata := nl\<rparr>)
    = handle_events fnm ?rest [ELM_sitestate] 0 (with_method ?m c d)"
    using options_read [of fnm sb s ?rest "[ELM_sitestate]" "d\<lparr>x_cdata := nl\<rparr>"]
    unfolding with_method_cdata by blast
  let ?d = "with_method ?m (c @ nl) d"
  let ?S = "states m_stored (x_site d)"
  let ?opt = "(opts (x_site d))\<lparr>s_stored_state_method := ?m\<rparr>"
  have "reading p (?d\<lparr>x_cdata := nl\<rparr>) ?opt ?S (states m_local (x_site d))"
    using inv tidy by (simp add: reading_def with_method_def method_frame)
  from items_read [OF st this]
  obtain d' where 3: "handle_events fnm (concat (map events (concat (map (\<lambda>f. [item_tree s f, Text nl]) (stored_files s))))
        @ [End '''' ''items''] @ events (Text nl) @ [End '''' ''sitestate'']) [ELM_items, ELM_sitestate] 0 (?d\<lparr>x_cdata := nl\<rparr>)
    = handle_events fnm ([End '''' ''items''] @ events (Text nl) @ [End '''' ''sitestate'']) [ELM_items, ELM_sitestate] 0 d'"
    "reading p d' ?opt (?S + mset (map (\<lambda>f. recorded ?m (sf_type f, sf_stored f)) (stored_files s)))
      (states m_local (x_site d))" by blast
  have "handle_events fnm (events (state_tree sb s)) [] 0 d = Some (None, d'\<lparr>x_cdata := x_cdata d' @ nl\<rparr>)"
    using 1 2 3(1)
    by (simp add: start_element_def end_element_def char_data_def with_method_def del: map_concat)
  moreover have "image_mset (recorded ?m) (states m_stored s)
    = mset (map (\<lambda>f. recorded ?m (sf_type f, sf_stored f)) (stored_files s))"
    by (simp add: states_stored multiset.map_comp comp_def flip: mset_map)
  ultimately show ?thesis using 3(2) by auto
qed

section \<open>The document is well formed\<close>

lemma text_char_safe: "xml_safe t \<Longrightarrow> c \<in> set t \<Longrightarrow> text_char c"
  by (auto simp: xml_safe_def text_char_def)

lemma digits_text: "2 \<le> b \<Longrightarrow> b \<le> 16 \<Longrightarrow> c \<in> set (digits b n) \<Longrightarrow> text_char c"
proof -
  assume b: "2 \<le> b" "b \<le> 16" "c \<in> set (digits b n)"
  then obtain d where "d < b" "c = digit_char d" using digits_all by blast
  then show "text_char c" using b digit_char_safe [of d] by (auto intro: text_char_safe)
qed

lemma show_int_text: "c \<in> set (show_int i) \<Longrightarrow> text_char c"
  by (auto simp: show_int_def show_nat_def split: if_splits dest: digits_text [rotated 2])
    (simp add: text_char_def)

lemma show_oct_text: "c \<in> set (show_oct3 i) \<Longrightarrow> text_char c"
  by (auto simp: show_oct3_def pad0_def dest: digits_text [rotated 2])
    (simp add: text_char_def)

lemma wf_leaf: "xml_name n \<Longrightarrow> (\<And>c. c \<in> set t \<Longrightarrow> text_char c) \<Longrightarrow> wf_xml (leaf n t)"
  by (simp add: leaf_def)

lemma wf_void: "xml_name n \<Longrightarrow> wf_xml (void n)"
  by (simp add: void_def)

lemma nl_char: "nl = [CHR 0x0A]"
  by code_simp

lemma nl_text: "c \<in> set nl \<Longrightarrow> text_char c"
  by (simp add: nl_char text_char_def)

lemma xml_names [simp]:
  "xml_name ''sitestate''" "xml_name ''options''" "xml_name ''saved-by''" "xml_name ''checksum-algorithm''"
  "xml_name ''checksum-MD5''" "xml_name ''state-method''" "xml_name ''state-timesize''"
  "xml_name ''state-checksum''" "xml_name ''items''" "xml_name ''item''" "xml_name ''type''"
  "xml_name (type_name t)" "xml_name ''filename''" "xml_name ''size''" "xml_name ''modtime''"
  "xml_name ''ascii''" "xml_name ''linktarget''" "xml_name ''checksum''" "xml_name ''protection''"
  "xml_name ''server-modtime''" "xml_name ''true''" "xml_name ''false''" "xml_name ''safemode''"
  "xml_name ''escaped-filenames''" "xml_name ''version''" "xml_name ''package''"
  by (simp_all add: xml_name_def name_char_def isalpha_def isupper_def islower_def isdigit_def
      type_name_def split: file_type.split)

lemma wf_item:
  assumes "storable s f"
  shows "wf_xml (item_tree s f)"
proof -
  have "wf_xml t" if "t \<in> set (body_trees s f)" for t
    using that assms
    by (auto simp: body_trees_def storable_def wf_leaf wf_void show_int_text
        split: file_type.splits state_method.splits if_splits
        intro!: wf_leaf dest: text_char_safe [OF md5_safe] text_char_safe)
  moreover have "wf_xml (leaf ''filename'' (concat (map esc n)))" for n
    using text_char_safe [OF escaped_safe] by (intro wf_leaf) auto
  moreover have "wf_xml (leaf ''protection'' (show_oct3 k))" for k
    by (rule wf_leaf) (auto dest: show_oct_text)
  ultimately show ?thesis
    by (auto simp: item_tree_def wf_void nl_text split: if_splits)
qed

definition plain_attr :: "string \<Rightarrow> bool" where
  "plain_attr v \<longleftrightarrow> xml_safe v \<and> CHR 0x27 \<notin> set v"

lemma wf_state_tree:
  assumes "\<And>f. f \<in> set (stored_files s) \<Longrightarrow> storable s f" "plain_attr (fst sb)" "plain_attr (snd sb)"
  shows "wf_xml (state_tree sb s)"
proof -
  have v: "xml_safe sitestate_version \<and> CHR 0x27 \<notin> set sitestate_version"
    by (simp add: sitestate_version_def xml_safe_def)
  have sp: "text_char CHR '' ''" by (simp add: text_char_def)
  show ?thesis
    using assms v
    by (auto simp: state_tree_def option_trees_def plain_attr_def wf_item wf_void nl_text sp split: if_splits)
qed

section \<open>The round trip\<close>

lemma stored_state_read:
  assumes "site_inv t0" "\<And>f. f \<in> set (stored_files s) \<Longrightarrow> storable s f"
    and "parses parser (state_tree saved_by s)"
  shows "\<exists>t. site_read_stored_state parser msg fnm (Info_text (document (state_tree saved_by s)) None) t0 = Some (1, t)
    \<and> site_inv t \<and> opts t = (opts t0)\<lparr>s_stored_state_method := s_state_method s\<rparr>
    \<and> states m_stored t
        = states m_stored t0 + image_mset (recorded (s_state_method s)) (states m_stored s)
    \<and> states m_local t = states m_local t0 \<and> (tidy t0 \<longrightarrow> tidy t)"
proof -
  let ?text = "document (state_tree saved_by s)"
  let ?d = "\<lparr>x_site = t0, x_type = file_file, x_stored = zero_state, x_server = zero_state,
    x_cdata = '''', x_truth = 0\<rparr>"
  obtain es where p: "parser ?text = (es, None)" "normal es = normal (events (state_tree saved_by s))"
    using assms(3) by (cases "parser ?text") (auto simp: parses_def)
  obtain d' where d': "handle_events fnm es [] 0 ?d = Some (None, d')"
    "reading (tidy t0) d' ((opts t0)\<lparr>s_stored_state_method := s_state_method s\<rparr>)
      (states m_stored t0 + image_mset (recorded (s_state_method s)) (states m_stored s)) (states m_local t0)"
    using document_read [OF assms(2), of ?d "tidy t0" fnm saved_by] assms(1)
      handle_normal [of fnm es] handle_normal [of fnm "events (state_tree saved_by s)"] p(2)
    by (auto simp del: handle_events.simps events.simps)
  then show ?thesis
    using p by (auto simp: site_read_stored_state_def parse_storage_file_def reading_def)
qed

text \<open>C4. For a site whose stored states fit the format (\<open>storable\<close>: names that are not empty,
  numbers in the range of \<^verbatim>\<open>long\<close>, checksums of 16 bytes, and targets of links without characters
  that need an escape, because the code writes these raw) and a program name and version that need
  none either: what \<^verbatim>\<open>site_write_stored_state\<close> writes is a well-formed XML document, and with any parser
  that turns that document into its events, \<^verbatim>\<open>site_read_stored_state\<close> accepts it and adds to the site
  it reads into exactly the stored states of the site that was written, as far as the state method
  records them; it keeps the local states and the invariant, and the stored state method becomes
  the one that was written.\<close>

theorem stored_state_round_trip:
  assumes "site_inv t0" "\<And>f. f \<in> set (stored_files s) \<Longrightarrow> storable s f"
    and "plain_attr (fst saved_by)" "plain_attr (snd saved_by)" "parses parser (state_tree saved_by s)"
  shows "\<exists>text t. site_write_stored_state saved_by s = Some (text, s\<lparr>s_stored_state_method := s_state_method s\<rparr>)
    \<and> text = document (state_tree saved_by s) \<and> wf_xml (state_tree saved_by s)
    \<and> site_read_stored_state parser msg fnm (Info_text text None) t0 = Some (1, t)
    \<and> site_inv t \<and> opts t = (opts t0)\<lparr>s_stored_state_method := s_state_method s\<rparr>
    \<and> states m_stored t
        = states m_stored t0 + image_mset (recorded (s_state_method s)) (states m_stored s)
    \<and> states m_local t = states m_local t0"
  using stored_state_read [OF assms(1,2,5), of msg fnm] written_document [OF assms(2)]
    wf_state_tree [OF assms(2-4)] by blast

definition saved_site :: site where
  "saved_site = zero_site\<lparr>s_files :=
     [(1, zero_file\<lparr>sf_type := file_dir, sf_stored := zero_state\<lparr>fs_filename := Some ''a b'', fs_exists := True,
            fs_mode := 493\<rparr>\<rparr>),
      (2, zero_file\<lparr>sf_stored := zero_state\<lparr>fs_filename := Some ''a b/<&>'', fs_exists := True, fs_size := 7,
            fs_time := 12\<rparr>, sf_server := zero_state\<lparr>fs_exists := True, fs_time := 15\<rparr>\<rparr>),
      (3, zero_file\<lparr>sf_stored := zero_state\<lparr>fs_filename := Some ''z'', fs_exists := True\<rparr>\<rparr>)]\<rparr>"

definition saved_parser :: xml_parser where
  "saved_parser text = (events (state_tree (''sitecopy'', ''0.16.6'') saved_site), None)"

lemma saved_site_storable: "f \<in> set (stored_files saved_site) \<Longrightarrow> storable saved_site f"
  by (auto simp: stored_files_def saved_site_def storable_def zero_file_def zero_state_def zero_site_def
      long_ok_def LONG_MIN_def LONG_MAX_def)

lemma stored_state_round_trip_witness:
  "\<exists>text t. site_write_stored_state (''sitecopy'', ''0.16.6'') saved_site
      = Some (text, saved_site\<lparr>s_stored_state_method := s_state_method saved_site\<rparr>)
    \<and> text = document (state_tree (''sitecopy'', ''0.16.6'') saved_site)
    \<and> wf_xml (state_tree (''sitecopy'', ''0.16.6'') saved_site)
    \<and> site_read_stored_state saved_parser (\<lambda>_. '''') (\<lambda>_ _ _. False) (Info_text text None) zero_site
        = Some (1, t)
    \<and> site_inv t \<and> opts t = (opts zero_site)\<lparr>s_stored_state_method := s_state_method saved_site\<rparr>
    \<and> states m_stored t = states m_stored zero_site
        + image_mset (recorded (s_state_method saved_site)) (states m_stored saved_site)
    \<and> states m_local t = states m_local zero_site"
proof (rule stored_state_round_trip)
  show "site_inv zero_site" by (rule zero_site_inv) (simp_all add: zero_site_def)
  show "storable saved_site f" if "f \<in> set (stored_files saved_site)" for f
    using that by (rule saved_site_storable)
  show "parses saved_parser (state_tree (''sitecopy'', ''0.16.6'') saved_site)"
    by (simp add: parses_def saved_parser_def)
qed (simp_all add: plain_attr_def xml_safe_def)

definition leak_document :: xml where
  "leak_document = Elem ''items'' []
     [Elem ''item'' [] [leaf ''filename'' ''x'', leaf ''server-modtime'' ''15''],
      Elem ''item'' [] [leaf ''filename'' ''z'']]"

text \<open>The reader never resets the server state it collects: of two stored files of which only the
  first has a server modification time in the document, both have one after reading.\<close>

theorem server_state_leaks:
  "map_option (\<lambda>(ret, t). (ret, map (\<lambda>(a, f).
       (fs_filename (sf_stored f), fs_exists (sf_server f), fs_time (sf_server f))) (s_files t)))
     (site_read_stored_state (\<lambda>text. (events leak_document, None)) (\<lambda>_. '''') (\<lambda>_ _ _. False)
       (Info_text (document leak_document) None) zero_site)
   = Some (1, [(Some ''z'', True, 15), (Some ''x'', True, 15)])"
  by code_simp

text \<open>Reading the stored state never returns \<^verbatim>\<open>SITE_OK\<close>: success is the value 1 that ended the
  reading loop.  So \<^verbatim>\<open>site_readfiles\<close>, which scans the local files only after \<^verbatim>\<open>SITE_OK\<close>, is the
  destruction of the files followed by the reading of the stored state, and nothing else.\<close>

theorem site_readfiles_never_scans:
  "site_readfiles parser msg fnm file fuel y s =
     do { s \<leftarrow> site_destroy s;
          (ret, s) \<leftarrow> site_read_stored_state parser msg fnm file s;
          Some (Inr (ret, s)) }"
proof -
  have "ret \<noteq> SITE_OK" if "site_read_stored_state parser msg fnm file s = Some (ret, t)" for s ret t
    using that
    by (auto simp: site_read_stored_state_def parse_storage_file_def Let_def split_beta
        split: info_file.splits bind_splits option.splits prod.splits if_splits)
  then show ?thesis
    by (cases "site_destroy s")
      (auto simp: site_readfiles_def split: bind_splits)
qed

end
