(* ===== verification/Fnmatch.thy ===== *)
theory Fnmatch
  imports Site_Files
begin

text \<open>
  Matching of file names against wildcard patterns: \<^verbatim>\<open>lib/fnmatch.c\<close>, which the exclude, ignore and
  ascii lists of a site rest on where the C library has no \<^verbatim>\<open>fnmatch\<close> of its own.  A pointer into a
  string is the rest of the string with its terminating NUL; reading the empty rest, one past the
  NUL, is the result \<^const>\<open>None\<close>.
\<close>

section \<open>Flags\<close>

unbundle bit_operations_syntax

type_synonym fnm_flags = "32 word"

definition FNM_PATHNAME :: fnm_flags where "FNM_PATHNAME = 1"
definition FNM_NOESCAPE :: fnm_flags where "FNM_NOESCAPE = 2"
definition FNM_PERIOD :: fnm_flags where "FNM_PERIOD = 4"
definition FNM_LEADING_DIR :: fnm_flags where "FNM_LEADING_DIR = 8"
definition FNM_CASEFOLD :: fnm_flags where "FNM_CASEFOLD = 16"

definition flag :: "fnm_flags \<Rightarrow> fnm_flags \<Rightarrow> bool" where
  "flag fl f \<longleftrightarrow> fl AND f \<noteq> 0"

definition NUL :: char where "NUL = CHR 0x00"

definition FOLD :: "fnm_flags \<Rightarrow> char \<Rightarrow> char" where
  "FOLD fl c = (if flag fl FNM_CASEFOLD \<and> isupper c then tolower c else c)"

text \<open>A leading period that \<^verbatim>\<open>FNM_PERIOD\<close> protects; \<open>prev\<close> is \<^verbatim>\<open>n[-1]\<close>, or \<^const>\<open>None\<close> at the start.\<close>

definition leading_dot :: "fnm_flags \<Rightarrow> char option \<Rightarrow> char \<Rightarrow> bool" where
  "leading_dot fl prev x \<longleftrightarrow> flag fl FNM_PERIOD \<and> x = CHR ''.''
     \<and> (prev = None \<or> flag fl FNM_PATHNAME \<and> prev = Some (CHR ''/''))"

section \<open>Character classes\<close>

datatype class_step = Bad | Hit char string | Miss string | Next char string

text \<open>The first character of an item of the class, unescaped.\<close>

definition class_start :: "fnm_flags \<Rightarrow> char \<Rightarrow> string \<Rightarrow> (char \<times> string) option" where
  "class_start fl c p =
     (if \<not> flag fl FNM_NOESCAPE \<and> c = CHR 0x5C
      then (case p of [] \<Rightarrow> None | e # q \<Rightarrow> Some (FOLD fl e, q))
      else Some (FOLD fl c, p))"

text \<open>The end of an item: of a range \<open>c-d\<close>, or of a single character.  \<open>Inl\<close> is an unterminated
  range, \<open>Inr\<close> the end, the next character and the rest.\<close>

definition class_range ::
    "fnm_flags \<Rightarrow> char \<Rightarrow> char \<Rightarrow> string \<Rightarrow> (unit + char \<times> char \<times> string) option" where
  "class_range fl cstart c p =
     (if c = CHR ''-''
      then (case p of
              [] \<Rightarrow> None
            | d # q \<Rightarrow>
                if d = CHR '']'' then Some (Inr (cstart, c, p))
                else do { (cend, q) \<leftarrow>
                            (if \<not> flag fl FNM_NOESCAPE \<and> d = CHR 0x5C
                             then (case q of [] \<Rightarrow> None | e # q \<Rightarrow> Some (e, q))
                             else Some (d, q));
                          if cend = NUL then Some (Inl ())
                          else case q of
                            [] \<Rightarrow> None
                          | c # q \<Rightarrow> Some (Inr (FOLD fl cend, c, q)) })
      else Some (Inr (cstart, c, p)))"

definition class_item :: "fnm_flags \<Rightarrow> char \<Rightarrow> char \<Rightarrow> string \<Rightarrow> class_step option" where
  "class_item fl x c p =
     do { (cstart, p) \<leftarrow> class_start fl c p;
          if c = NUL then Some Bad
          else case p of
            [] \<Rightarrow> None
          | c # p \<Rightarrow>
              (let c = FOLD fl c in
               if flag fl FNM_PATHNAME \<and> c = CHR ''/'' then Some Bad
               else do { res \<leftarrow> class_range fl cstart c p;
                         case res of
                           Inl _ \<Rightarrow> Some Bad
                         | Inr (cend, c, p) \<Rightarrow>
                             Some (if signed_char cstart \<le> signed_char x \<and> signed_char x \<le> signed_char cend
                                   then Hit c p
                                   else if c = CHR '']'' then Miss p else Next c p) }) }"

lemma class_item_shorter:
  "class_item fl x c p = Some (Next c' p') \<Longrightarrow> length p' < length p"
  by (auto simp: class_item_def class_start_def class_range_def Let_def
      split: if_splits list.splits bind_splits sum.splits)

function class_loop :: "fnm_flags \<Rightarrow> char \<Rightarrow> char \<Rightarrow> string \<Rightarrow> class_step option" where
  "class_loop fl x c p =
     do { st \<leftarrow> class_item fl x c p;
          case st of Next c p \<Rightarrow> class_loop fl x c p | _ \<Rightarrow> Some st }"
  by pat_completeness auto
termination by (relation "measure (\<lambda>(fl, x, c, p). length p)") (auto dest: class_item_shorter)

declare class_loop.simps [simp del]

lemma class_loop_step:
  "class_item fl x c p = Some it \<Longrightarrow>
     class_loop fl x c p = (case it of Next c p \<Rightarrow> class_loop fl x c p | _ \<Rightarrow> Some it)"
  by (subst class_loop.simps) simp

text \<open>The rest of a class that has matched; \<open>Some None\<close> is an unterminated one.\<close>

function class_skip :: "fnm_flags \<Rightarrow> char \<Rightarrow> string \<Rightarrow> string option option" where
  "class_skip fl c p =
     (if c = CHR '']'' then Some (Some p)
      else if c = NUL then Some None
      else case p of
        [] \<Rightarrow> None
      | c # p \<Rightarrow> class_skip fl c (if \<not> flag fl FNM_NOESCAPE \<and> c = CHR 0x5C then tl p else p))"
  by pat_completeness auto
termination by (relation "measure (\<lambda>(fl, c, p). length p)") auto

declare class_skip.simps [simp del]

text \<open>The whole class, after its bracket: \<open>Some None\<close> is no match, \<open>Some (Some p)\<close> a match.\<close>

definition class_close :: "fnm_flags \<Rightarrow> bool \<Rightarrow> class_step \<Rightarrow> string option option" where
  "class_close fl inverted st =
     (case st of
        Hit c p \<Rightarrow> do { res \<leftarrow> class_skip fl c p; Some (if inverted then None else res) }
      | Miss p \<Rightarrow> Some (if inverted then Some p else None)
      | _ \<Rightarrow> Some None)"

definition class_match :: "fnm_flags \<Rightarrow> char \<Rightarrow> string \<Rightarrow> string option option" where
  "class_match fl x p =
     (case p of
        [] \<Rightarrow> None
      | b # q \<Rightarrow>
          (let inverted = (b = CHR ''!'' \<or> b = CHR ''^'') in
           case if inverted then q else p of
             [] \<Rightarrow> None
           | c # r \<Rightarrow> do { st \<leftarrow> class_loop fl (FOLD fl x) c r; class_close fl inverted st }))"

section \<open>The matcher\<close>

text \<open>The loop over the wildcards that follow a \<open>*\<close>; \<open>Some None\<close> is no match.\<close>

fun star_skip :: "fnm_flags \<Rightarrow> string \<Rightarrow> string \<Rightarrow> (string \<times> string) option option" where
  "star_skip fl [] n = None"
| "star_skip fl (c # p) n =
     (if c = CHR ''?'' \<or> c = CHR ''*''
      then (if flag fl FNM_PATHNAME \<or> c = CHR ''?''
            then (case n of
                    [] \<Rightarrow> None
                  | x # n' \<Rightarrow>
                      if flag fl FNM_PATHNAME \<and> x = CHR ''/'' \<or> c = CHR ''?'' \<and> x = NUL
                      then Some None else star_skip fl p n')
            else star_skip fl p (tl n))
      else Some (Some (c # p, n)))"

text \<open>The loop over the places where the rest of the pattern may match; \<open>rest\<close> is the recursive call.\<close>

fun star_try :: "(string \<Rightarrow> bool option) \<Rightarrow> fnm_flags \<Rightarrow> char \<Rightarrow> char \<Rightarrow> string \<Rightarrow> bool option" where
  "star_try rest fl c c1 [] = None"
| "star_try rest fl c c1 (x # n) =
     (if x = NUL then Some False
      else if c = CHR ''['' \<or> FOLD fl x = c1
      then do { m \<leftarrow> rest (x # n); if m then Some True else star_try rest fl c c1 n }
      else star_try rest fl c c1 n)"

lemma star_skip_shorter: "star_skip fl p n = Some (Some (q, n')) \<Longrightarrow> length q \<le> length p"
  by (induction fl p n rule: star_skip.induct) (auto split: if_splits list.splits)

lemma class_item_len:
  "class_item fl x c p = Some (Hit c' p') \<Longrightarrow> length p' < length p"
  "class_item fl x c p = Some (Miss p') \<Longrightarrow> length p' < length p"
  by (auto simp: class_item_def class_start_def class_range_def Let_def
      split: if_splits list.splits bind_splits sum.splits)

lemma class_loop_shorter:
  "class_loop fl x c p = Some st \<Longrightarrow>
     case st of Hit c' q \<Rightarrow> length q \<le> length p | Miss q \<Rightarrow> length q \<le> length p | _ \<Rightarrow> True"
proof (induction fl x c p rule: class_loop.induct)
  case (1 fl x c p)
  then obtain it where it: "class_item fl x c p = Some it"
    by (subst (asm) class_loop.simps) (auto split: bind_splits)
  note l = class_loop_step [OF it]
  show ?case
  proof (cases it)
    case (Next c' p')
    then show ?thesis
      using "1.IH" [OF it Next] "1.prems" l class_item_shorter [of fl x c p] it
      by (auto split: class_step.splits)
  qed (use l it "1.prems" class_item_len [of fl x c p] in \<open>fastforce split: class_step.splits\<close>)+
qed

lemma class_skip_shorter: "class_skip fl c p = Some (Some q) \<Longrightarrow> length q \<le> length p"
proof (induction fl c p rule: class_skip.induct)
  case (1 fl c p)
  show ?case
  proof (cases "c = CHR '']'' \<or> c = NUL")
    case True
    then show ?thesis using "1.prems" by (subst (asm) class_skip.simps) (auto split: if_splits)
  next
    case False
    then obtain d r where p: "p = d # r"
      using "1.prems" by (subst (asm) class_skip.simps) (auto split: list.splits)
    let ?r = "if \<not> flag fl FNM_NOESCAPE \<and> d = CHR 0x5C then tl r else r"
    have "class_skip fl d ?r = Some (Some q)"
      using False "1.prems" by (subst (asm) class_skip.simps) (simp add: p)
    then have "length q \<le> length ?r" using "1.IH" False p by blast
    then show ?thesis using p by (auto split: if_splits)
  qed
qed

lemma class_close_shorter:
  "class_close fl inverted st = Some (Some q) \<Longrightarrow>
     (\<exists>c p. st = Hit c p \<and> length q \<le> length p) \<or> st = Miss q"
  by (cases st) (auto simp: class_close_def class_skip_shorter split: bind_splits if_splits)

lemma class_match_shorter:
  assumes "class_match fl x p = Some (Some q)"
  shows "length q < length p"
proof -
  obtain b r where p: "p = b # r" using assms by (cases p) (auto simp: class_match_def)
  let ?inv = "b = CHR ''!'' \<or> b = CHR ''^''"
  let ?p = "if ?inv then r else b # r"
  obtain c s where s: "?p = c # s" using assms by (cases ?p) (auto simp: class_match_def p Let_def)
  have "class_match fl x p = class_loop fl (FOLD fl x) c s \<bind> class_close fl ?inv"
    using s unfolding class_match_def Let_def p by (simp del: if_split)
  then obtain st where "class_loop fl (FOLD fl x) c s = Some st" "class_close fl ?inv st = Some (Some q)"
    using assms by (cases "class_loop fl (FOLD fl x) c s") auto
  moreover have "length s < length p" using s p by (auto split: if_splits)
  ultimately show ?thesis
    using class_loop_shorter [of fl "FOLD fl x" c s st] class_close_shorter [of fl ?inv st q] by fastforce
qed

text \<open>A character that must be equal: the pointers move on, or there is no match.\<close>

definition same :: "fnm_flags \<Rightarrow> char \<Rightarrow> string \<Rightarrow> (char \<times> string) option option" where
  "same fl c n = (case n of [] \<Rightarrow> None
     | x # n' \<Rightarrow> Some (if FOLD fl x \<noteq> c then None else Some (x, n')))"

function fnm_loop :: "fnm_flags \<Rightarrow> string \<Rightarrow> char option \<Rightarrow> string \<Rightarrow> bool option" where
  "fnm_loop fl [] prev n = None"
| "fnm_loop fl (c # p) prev n =
     (if c = NUL
      then (case n of [] \<Rightarrow> None
              | x # _ \<Rightarrow> Some (x = NUL \<or> flag fl FNM_LEADING_DIR \<and> x = CHR ''/''))
      else if FOLD fl c = CHR ''?''
      then (case n of [] \<Rightarrow> None
              | x # n' \<Rightarrow>
                  if x = NUL \<or> flag fl FNM_PATHNAME \<and> x = CHR ''/'' \<or> leading_dot fl prev x
                  then Some False else fnm_loop fl p (Some x) n')
      else if FOLD fl c = CHR 0x5C \<and> \<not> flag fl FNM_NOESCAPE
      then (case p of [] \<Rightarrow> None
              | e # q \<Rightarrow>
                  do { m \<leftarrow> same fl (FOLD fl e) n;
                       case m of None \<Rightarrow> Some False | Some (x, n') \<Rightarrow> fnm_loop fl q (Some x) n' })
      else if FOLD fl c = CHR ''*''
      then (case n of [] \<Rightarrow> None
              | x # _ \<Rightarrow>
                  if leading_dot fl prev x then Some False
                  else do { m \<leftarrow> star_skip fl p n;
                            case m of
                              None \<Rightarrow> Some False
                            | Some (q, n) \<Rightarrow>
                                (case q of [] \<Rightarrow> None
                                   | c # r \<Rightarrow>
                                       if c = NUL then Some True
                                       else do { c1 \<leftarrow> (if \<not> flag fl FNM_NOESCAPE \<and> c = CHR 0x5C
                                                        then (case r of [] \<Rightarrow> None | e # _ \<Rightarrow> Some e)
                                                        else Some c);
                                                 star_try (\<lambda>n. fnm_loop (fl AND NOT FNM_PERIOD) q None n)
                                                   fl c (FOLD fl c1) n }) })
      else if FOLD fl c = CHR ''[''
      then (case n of [] \<Rightarrow> None
              | x # n' \<Rightarrow>
                  if x = NUL \<or> leading_dot fl prev x then Some False
                  else do { m \<leftarrow> class_match fl x p;
                            case m of None \<Rightarrow> Some False | Some q \<Rightarrow> fnm_loop fl q (Some x) n' })
      else do { m \<leftarrow> same fl (FOLD fl c) n;
                case m of None \<Rightarrow> Some False | Some (x, n') \<Rightarrow> fnm_loop fl p (Some x) n' })"
  by pat_completeness auto
termination
  by (relation "measure (\<lambda>(fl, p, prev, n). length p)")
    (auto dest: star_skip_shorter class_match_shorter)

declare fnm_loop.simps [simp del]

text \<open>\<open>Some True\<close> is the result 0, \<open>Some False\<close> is \<^verbatim>\<open>FNM_NOMATCH\<close>.\<close>

definition fnmatch :: "string \<Rightarrow> string \<Rightarrow> fnm_flags \<Rightarrow> bool option" where
  "fnmatch pattern string flags = fnm_loop flags (pattern @ [NUL]) None (string @ [NUL])"

text \<open>The two uses in \<open>fnlist_match\<close>.\<close>

definition lib_matcher :: matcher where
  "lib_matcher pattern name path \<longleftrightarrow>
     fnmatch pattern name (if path then FNM_PATHNAME OR FNM_LEADING_DIR else 0) = Some True"

end
