(* ===== verification/Glob.thy ===== *)
theory Glob
  imports Fnmatch
begin

text \<open>
  What a wildcard pattern means, and that \<^verbatim>\<open>lib/fnmatch.c\<close> computes it for the two ways in which the
  program calls it (\<open>path\<close> is \<^verbatim>\<open>FNM_PATHNAME | FNM_LEADING_DIR\<close>), for the patterns on which the
  code agrees with that meaning; and the patterns on which it does not.
\<close>

section \<open>Patterns and their meaning\<close>

datatype glob = Lit char | AnyChar | Star | Class bool "(char \<times> char) list"

definition in_class :: "(char \<times> char) list \<Rightarrow> char \<Rightarrow> bool" where
  "in_class items x \<longleftrightarrow>
     (\<exists>(lo, hi) \<in> set items. signed_char lo \<le> signed_char x \<and> signed_char x \<le> signed_char hi)"

fun accepts :: "bool \<Rightarrow> glob \<Rightarrow> char \<Rightarrow> bool" where
  "accepts path (Lit c) x = (x = c)"
| "accepts path AnyChar x = (\<not> (path \<and> x = CHR ''/''))"
| "accepts path (Class inverted items) x = (in_class items x \<noteq> inverted)"
| "accepts path Star x = True"


text \<open>The looser meaning that the code has: a star and a class do take a slash.\<close>

fun gmatch :: "bool \<Rightarrow> glob list \<Rightarrow> string \<Rightarrow> bool" where
  "gmatch path [] s = (s = [] \<or> path \<and> hd s = CHR ''/'')"
| "gmatch path (t # ts) s =
     (if t = Star then (\<exists>k \<in> {0..length s}. gmatch path ts (drop k s))
      else case s of [] \<Rightarrow> False | x # s' \<Rightarrow> accepts path t x \<and> gmatch path ts s')"






section \<open>Patterns as text\<close>

definition special :: "char \<Rightarrow> bool" where
  "special c \<longleftrightarrow> c = CHR ''?'' \<or> c = CHR ''*'' \<or> c = CHR ''['' \<or> c = CHR 0x5C"

fun range_text :: "char \<times> char \<Rightarrow> string" where
  "range_text (lo, hi) = (if lo = hi then [lo] else [lo, CHR ''-'', hi])"

fun glob_text :: "glob \<Rightarrow> string" where
  "glob_text (Lit c) = (if special c then [CHR 0x5C, c] else [c])"
| "glob_text AnyChar = ''?''"
| "glob_text Star = ''*''"
| "glob_text (Class inverted items) =
     CHR ''['' # (if inverted then ''!'' else '''') @ concat (map range_text items) @ '']''"

definition pattern_text :: "glob list \<Rightarrow> string" where
  "pattern_text ts = concat (map glob_text ts)"

definition class_char :: "bool \<Rightarrow> char \<Rightarrow> bool" where
  "class_char path c \<longleftrightarrow> c \<noteq> NUL \<and> c \<noteq> CHR '']'' \<and> c \<noteq> CHR 0x5C \<and> c \<noteq> CHR ''-''
     \<and> c \<noteq> CHR ''!'' \<and> c \<noteq> CHR ''^'' \<and> \<not> (path \<and> c = CHR ''/'')"

fun wf_glob :: "bool \<Rightarrow> glob \<Rightarrow> bool" where
  "wf_glob path (Lit c) = (c \<noteq> NUL)"
| "wf_glob path (Class inverted items) =
     (items \<noteq> [] \<and> (\<forall>(lo, hi) \<in> set items. class_char path lo \<and> class_char path hi))"
| "wf_glob path _ = True"

text \<open>A star is not followed by another, not even after some question marks, and with \<open>path\<close> not
  by a question mark.\<close>

fun runs_ok :: "bool \<Rightarrow> glob list \<Rightarrow> bool" where
  "runs_ok path [] = True"
| "runs_ok path (t # ts) =
     ((t = Star \<longrightarrow> (let rest = dropWhile (\<lambda>t. t = AnyChar) ts
                    in (rest = [] \<or> hd rest \<noteq> Star) \<and> (path \<longrightarrow> rest = ts)))
      \<and> runs_ok path ts)"

definition wf_pattern :: "bool \<Rightarrow> glob list \<Rightarrow> bool" where
  "wf_pattern path ts \<longleftrightarrow> (\<forall>t \<in> set ts. wf_glob path t) \<and> runs_ok path ts"

definition flags_of :: "bool \<Rightarrow> fnm_flags" where
  "flags_of path = (if path then FNM_PATHNAME OR FNM_LEADING_DIR else 0)"

section \<open>The code on such patterns\<close>

lemma flags_simps [simp]:
  "flag (flags_of path) FNM_PATHNAME = path" "flag (flags_of path) FNM_LEADING_DIR = path"
  "\<not> flag (flags_of path) FNM_NOESCAPE" "\<not> flag (flags_of path) FNM_PERIOD"
  "\<not> flag (flags_of path) FNM_CASEFOLD" "flags_of path AND NOT FNM_PERIOD = flags_of path"
  by (simp_all add: flags_of_def flag_def FNM_PATHNAME_def FNM_LEADING_DIR_def FNM_NOESCAPE_def
      FNM_PERIOD_def FNM_CASEFOLD_def)

lemma fold_simps [simp]: "FOLD (flags_of path) c = c" "\<not> leading_dot (flags_of path) prev x"
  by (simp_all add: FOLD_def leading_dot_def)

lemma class_charD:
  assumes "class_char path c"
  shows "c \<noteq> NUL" "c \<noteq> CHR '']''" "c \<noteq> CHR 0x5C" "c \<noteq> CHR ''-''" "c \<noteq> CHR ''!''" "c \<noteq> CHR ''^''"
    "\<not> (path \<and> c = CHR ''/'')"
  using assms by (simp_all add: class_char_def)

lemma NUL_simps [simp]:
  "NUL \<noteq> CHR '']''" "NUL \<noteq> CHR ''?''" "NUL \<noteq> CHR ''*''" "NUL \<noteq> CHR ''-''" "NUL \<noteq> CHR 0x5C"
  "CHR '']'' \<noteq> NUL" "CHR ''-'' \<noteq> NUL" "CHR 0x5C \<noteq> NUL" "CHR ''['' \<noteq> NUL" "CHR ''?'' \<noteq> NUL" "CHR ''*'' \<noteq> NUL"
  by (simp_all add: NUL_def)

lemma class_item_text:
  assumes ok: "class_char path lo" "class_char path hi" "c # r = range_text (lo, hi)"
    and "e \<noteq> CHR ''-''" "\<not> (path \<and> e = CHR ''/'')"
  shows "class_item (flags_of path) x c (r @ e # q) =
    Some (if signed_char lo \<le> signed_char x \<and> signed_char x \<le> signed_char hi then Hit e q
          else if e = CHR '']'' then Miss q else Next e q)"
proof (cases "lo = hi")
  case True
  then have "c = lo" "r = []" using assms(3) by simp_all
  then show ?thesis using class_charD [OF ok(1)] class_charD [OF ok(2)] assms(4,5) True
    by (simp add: class_item_def class_start_def class_range_def)
next
  case False
  then have "c = lo" "r = [CHR ''-'', hi]" using assms(3) by simp_all
  then show ?thesis using class_charD [OF ok(1)] class_charD [OF ok(2)] assms(4,5) False
    by (simp add: class_item_def class_start_def class_range_def)
qed

definition ranges_ok :: "bool \<Rightarrow> (char \<times> char) list \<Rightarrow> bool" where
  "ranges_ok path items \<longleftrightarrow> (\<forall>(lo, hi) \<in> set items. class_char path lo \<and> class_char path hi)"

lemma ranges_ok_Cons [simp]:
  "ranges_ok path ((lo, hi) # items) \<longleftrightarrow> class_char path lo \<and> class_char path hi \<and> ranges_ok path items"
  by (auto simp: ranges_ok_def)

abbreviation ranges_text :: "(char \<times> char) list \<Rightarrow> string" where
  "ranges_text items \<equiv> concat (map range_text items)"

definition plain_char :: "char \<Rightarrow> bool" where
  "plain_char d \<longleftrightarrow> d \<noteq> NUL \<and> d \<noteq> CHR '']'' \<and> d \<noteq> CHR 0x5C \<and> d \<noteq> CHR ''!'' \<and> d \<noteq> CHR ''^''"

lemma plain_chars: "class_char path d \<Longrightarrow> plain_char d" "plain_char (CHR ''-'')"
  by (simp_all add: plain_char_def class_char_def)

lemma range_text_set: "set (range_text (lo, hi)) \<subseteq> {lo, CHR ''-'', hi}"
  by simp

lemma ranges_plain: "ranges_ok path items \<Longrightarrow> d \<in> set (ranges_text items) \<Longrightarrow> plain_char d"
proof (induction items)
  case (Cons item items)
  obtain lo hi where item: "item = (lo, hi)" by (cases item)
  show ?case
  proof (cases "d \<in> set (ranges_text items)")
    case True
    then show ?thesis using Cons item by simp
  next
    case False
    then have "d \<in> {lo, CHR ''-'', hi}" using Cons.prems(2) range_text_set [of lo hi] item by (simp only: list.map concat.simps set_append) blast
    then show ?thesis using Cons.prems(1) item plain_chars by auto
  qed
qed simp

lemma range_text_Cons: "\<exists>r. range_text (lo, hi) = lo # r"
  by (cases "lo = hi") simp_all

lemma ranges_text_Cons: "items \<noteq> [] \<Longrightarrow> \<exists>c r. ranges_text items = c # r"
proof (cases items)
  case (Cons item rest)
  then show ?thesis using range_text_Cons [of "fst item" "snd item"] by (cases item) auto
qed simp

text \<open>Skipping the rest of a class that has matched.\<close>

lemma class_skip_plain:
  assumes "plain_char c" "\<forall>d \<in> set r. plain_char d"
  shows "class_skip (flags_of path) c (r @ CHR '']'' # q) = Some (Some q)"
  using assms
proof (induction r arbitrary: c)
  case Nil
  then show ?case
    by (subst class_skip.simps) (simp add: plain_char_def, subst class_skip.simps, simp)
next
  case (Cons d r)
  then show ?case by (subst class_skip.simps) (simp add: plain_char_def)
qed

lemma class_loop_ranges:
  assumes "ranges_ok path items" "ranges_text items = c # r"
  shows "if in_class items x
    then \<exists>c' p'. class_loop (flags_of path) x c (r @ CHR '']'' # q) = Some (Hit c' p')
           \<and> class_skip (flags_of path) c' p' = Some (Some q)
    else class_loop (flags_of path) x c (r @ CHR '']'' # q) = Some (Miss q)"
  using assms
proof (induction items arbitrary: c r)
  case (Cons item items)
  obtain lo hi where item: "item = (lo, hi)" by (cases item)
  obtain r1 where r1: "range_text (lo, hi) = lo # r1" using range_text_Cons by blast
  then have c: "c = lo" "r = r1 @ ranges_text items" using Cons.prems(2) item by auto
  have ok: "class_char path lo" "class_char path hi" "ranges_ok path items"
    using Cons.prems(1) item by simp_all
  let ?in = "signed_char lo \<le> signed_char x \<and> signed_char x \<le> signed_char hi"
  have here: "in_class (item # items) x \<longleftrightarrow> ?in \<or> in_class items x"
    by (auto simp: in_class_def item)
  show ?case
  proof (cases "ranges_text items")
    case Nil
    then have "items = []" by (cases items) (auto split: if_splits)
    then have "\<not> in_class items x" by (simp add: in_class_def)
    moreover have item: "class_item (flags_of path) x c (r @ CHR '']'' # q)
        = Some (if ?in then Hit (CHR '']'') q else Miss q)"
      using class_item_text [OF ok(1,2) r1 [symmetric], of "CHR '']''" x q] c Nil by simp
    moreover have "class_skip (flags_of path) (CHR '']'') q = Some (Some q)" by (simp add: class_skip.simps)
    ultimately show ?thesis unfolding here using class_loop_step [OF item] by (cases ?in) simp_all
  next
    case (Cons e r')
    have "class_char path e" using Cons ok(3) range_text_Cons
      by (cases items) (auto split: if_splits)
    then have e: "e \<noteq> CHR ''-''" "\<not> (path \<and> e = CHR ''/'')" "e \<noteq> CHR '']''"
      by (simp_all add: class_char_def)
    have item: "class_item (flags_of path) x c (r @ CHR '']'' # q)
      = Some (if ?in then Hit e (r' @ CHR '']'' # q) else Next e (r' @ CHR '']'' # q))"
      using class_item_text [OF ok(1,2) r1 [symmetric] e(1,2), of x "r' @ CHR '']'' # q"] c Cons e(3)
      by simp
    have "class_skip (flags_of path) e (r' @ CHR '']'' # q) = Some (Some q)"
      by (rule class_skip_plain) (use ranges_plain [OF ok(3)] Cons in simp_all)
    then show ?thesis
      using Cons.IH [OF ok(3) Cons] class_loop_step [OF item] unfolding here by (cases ?in) auto
  qed
qed simp

lemma class_match_text:
  assumes "ranges_ok path items" "items \<noteq> []"
  shows "class_match (flags_of path) x ((if inverted then ''!'' else '''') @ ranges_text items @ CHR '']'' # q)
    = Some (if in_class items x \<noteq> inverted then Some q else None)"
proof -
  obtain c r where c: "ranges_text items = c # r"
    using ranges_text_Cons [OF assms(2)] by blast
  have "c \<noteq> CHR ''!''" "c \<noteq> CHR ''^''"
    using ranges_plain [OF assms(1), of c] c by (simp_all add: plain_char_def)
  then have "class_match (flags_of path) x ((if inverted then ''!'' else '''') @ ranges_text items @ CHR '']'' # q)
    = class_loop (flags_of path) x c (r @ CHR '']'' # q) \<bind> class_close (flags_of path) inverted"
    unfolding class_match_def c by simp
  then show ?thesis
    using class_loop_ranges [OF assms(1) c, of x q] by (auto simp: class_close_def split: if_splits)
qed

section \<open>Stars\<close>

lemma star_skip_stop:
  "c \<noteq> CHR ''?'' \<Longrightarrow> c \<noteq> CHR ''*'' \<Longrightarrow> star_skip fl (c # q) n = Some (Some (c # q, n))"
  by simp

lemma star_skip_any:
  assumes "c \<noteq> CHR ''?''" "c \<noteq> CHR ''*''" "NUL \<notin> set s"
  shows "star_skip (flags_of False) (replicate k (CHR ''?'') @ c # q) (s @ [NUL])
    = Some (if k \<le> length s then Some (c # q, drop k s @ [NUL]) else None)"
  using assms(3)
proof (induction k arbitrary: s)
  case (Suc k)
  then show ?case by (cases s) (auto simp: assms)
qed (simp add: assms)

lemma star_try_exists:
  assumes "\<And>u. set u \<subseteq> set s \<Longrightarrow> rest (u @ [NUL]) = Some (f u)" "NUL \<notin> set s"
  shows "star_try rest (flags_of path) c c1 (s @ [NUL])
    = Some (\<exists>k \<in> {0..<length s}. (c = CHR ''['' \<or> s ! k = c1) \<and> f (drop k s))"
  using assms
proof (induction s)
  case (Cons x s)
  have IH: "star_try rest (flags_of path) c c1 (s @ [NUL])
    = Some (\<exists>k \<in> {0..<length s}. (c = CHR ''['' \<or> s ! k = c1) \<and> f (drop k s))"
    using Cons by auto
  have "(\<exists>k \<in> {0..<length (x # s)}. (c = CHR ''['' \<or> (x # s) ! k = c1) \<and> f (drop k (x # s)))
    \<longleftrightarrow> (c = CHR ''['' \<or> x = c1) \<and> f (x # s)
      \<or> (\<exists>k \<in> {0..<length s}. (c = CHR ''['' \<or> s ! k = c1) \<and> f (drop k s))"
    (is "?l \<longleftrightarrow> ?r")
  proof
    assume ?l
    then obtain k where "k < Suc (length s)" "(c = CHR ''['' \<or> (x # s) ! k = c1) \<and> f (drop k (x # s))" by auto
    then show ?r by (cases k) auto
  next
    assume ?r
    then show ?l by (auto intro: bexI [of _ 0] bexI [of _ "Suc _"])
  qed
  moreover have "rest ((x # s) @ [NUL]) = Some (f (x # s))" by (rule Cons.prems) simp
  ultimately show ?case using IH Cons.prems(2) by auto
qed simp

section \<open>The code computes the meaning\<close>

lemma fnm_end:
  "fnm_loop (flags_of path) [NUL] prev (s @ [NUL]) = Some (gmatch path [] s)" if "NUL \<notin> set s"
  using that by (cases s) (auto simp: fnm_loop.simps)

lemma same_text:
  "NUL \<notin> set s \<Longrightarrow> c \<noteq> NUL \<Longrightarrow> same (flags_of path) c (s @ [NUL])
    = Some (case s of [] \<Rightarrow> None | x # s' \<Rightarrow> if x = c then Some (x, s' @ [NUL]) else None)"
  by (cases s) (auto simp: same_def)

lemma fnm_lit:
  assumes "c \<noteq> NUL" "NUL \<notin> set s"
  shows "fnm_loop (flags_of path) (glob_text (Lit c) @ p) prev (s @ [NUL])
    = (case s of [] \<Rightarrow> Some False
       | x # s' \<Rightarrow> if x = c then fnm_loop (flags_of path) p (Some x) (s' @ [NUL]) else Some False)"
proof (cases "special c")
  case True
  then show ?thesis using assms same_text [OF assms(2,1), of path]
    by (simp add: fnm_loop.simps split: list.split)
next
  case False
  then show ?thesis using assms same_text [OF assms(2,1), of path]
    by (simp add: fnm_loop.simps special_def split: list.split)
qed

lemma fnm_any:
  assumes "NUL \<notin> set s"
  shows "fnm_loop (flags_of path) (glob_text AnyChar @ p) prev (s @ [NUL])
    = (case s of [] \<Rightarrow> Some False
       | x # s' \<Rightarrow> if path \<and> x = CHR ''/'' then Some False
                  else fnm_loop (flags_of path) p (Some x) (s' @ [NUL]))"
  using assms by (cases s) (auto simp: fnm_loop.simps)

lemma fnm_class:
  assumes "NUL \<notin> set s" "wf_glob path (Class inverted items)"
  shows "fnm_loop (flags_of path) (glob_text (Class inverted items) @ p) prev (s @ [NUL])
    = (case s of [] \<Rightarrow> Some False
       | x # s' \<Rightarrow> if in_class items x \<noteq> inverted
                  then fnm_loop (flags_of path) p (Some x) (s' @ [NUL]) else Some False)"
proof (cases s)
  case Nil
  then show ?thesis by (simp add: fnm_loop.simps)
next
  case (Cons x s')
  have "ranges_ok path items" "items \<noteq> []" using assms(2) by (simp_all add: ranges_ok_def)
  moreover have "x \<noteq> NUL" using Cons assms(1) by auto
  ultimately show ?thesis using class_match_text [of path items x inverted p] Cons
    by (simp add: fnm_loop.simps)
qed

text \<open>How the pattern goes on after a star and its question marks.\<close>

definition starts :: "glob list \<Rightarrow> char \<Rightarrow> string \<Rightarrow> bool" where
  "starts ts c r \<longleftrightarrow> (ts = [] \<and> c = NUL)
     \<or> (\<exists>d ts'. ts = Lit d # ts' \<and> d \<noteq> NUL
          \<and> (if special d then c = CHR 0x5C \<and> (\<exists>r'. r = d # r') else c = d))
     \<or> (\<exists>inv items ts'. ts = Class inv items # ts' \<and> c = CHR ''['')"

lemma starts_text:
  assumes "pattern_text ts @ [NUL] = c # r" "\<forall>t \<in> set ts. wf_glob path t"
    and "ts = [] \<or> hd ts \<noteq> Star \<and> hd ts \<noteq> AnyChar"
  shows "starts ts c r"
proof (cases ts)
  case (Cons t ts')
  then show ?thesis using assms by (cases t) (auto simp: starts_def pattern_text_def split: if_splits)
qed (use assms in \<open>simp add: starts_def pattern_text_def\<close>)

lemma starts_plain:
  assumes "starts ts c r"
  shows "c \<noteq> CHR ''?''" "c \<noteq> CHR ''*''" "c = NUL \<longleftrightarrow> ts = []"
  using assms by (auto simp: starts_def special_def split: if_splits)

lemma starts_next:
  assumes "starts ts c r" "ts \<noteq> []"
  shows "\<exists>c1. (if c = CHR 0x5C then case r of [] \<Rightarrow> None | e # _ \<Rightarrow> Some e else Some c) = Some c1
    \<and> (\<forall>y v. gmatch path ts (y # v) \<longrightarrow> c = CHR ''['' \<or> y = c1) \<and> \<not> gmatch path ts []"
proof -
  consider d ts' r' where "ts = Lit d # ts'" "special d" "c = CHR 0x5C" "r = d # r'"
    | ts' where "ts = Lit c # ts'" "\<not> special c"
    | inv items ts' where "ts = Class inv items # ts'" "c = CHR ''[''"
    using assms by (auto simp: starts_def split: if_splits)
  then show ?thesis
  proof cases
    case 2
    moreover from this have "c \<noteq> CHR 0x5C" by (auto simp: special_def)
    ultimately show ?thesis by simp
  qed simp_all
qed

lemma fnm_star_step:
  assumes "star_skip (flags_of path) p (x # n) = Some (Some (c # r, n'))" "c \<noteq> NUL"
    and "(if c = CHR 0x5C then case r of [] \<Rightarrow> None | e # _ \<Rightarrow> Some e else Some c) = Some c1"
  shows "fnm_loop (flags_of path) (CHR ''*'' # p) prev (x # n)
    = star_try (fnm_loop (flags_of path) (c # r) None) (flags_of path) c c1 n'"
  by (subst fnm_loop.simps) (use assms in \<open>simp split: if_splits\<close>)

lemma fnm_star:
  assumes q: "pattern_text ts @ [NUL] = c # r" and s: "NUL \<notin> set s"
    and st: "starts ts c r"
    and k: "path \<Longrightarrow> k = 0"
    and rest: "\<And>prev u. NUL \<notin> set u \<Longrightarrow>
      fnm_loop (flags_of path) (pattern_text ts @ [NUL]) prev (u @ [NUL]) = Some (gmatch path ts u)"
  shows "fnm_loop (flags_of path) (''*'' @ replicate k (CHR ''?'') @ pattern_text ts @ [NUL]) prev (s @ [NUL])
    = Some (k \<le> length s \<and> (\<exists>j \<in> {0..length s - k}. gmatch path ts (drop j (drop k s))))"
proof -
  note c = starts_plain [OF st]
  have skip: "star_skip (flags_of path) (replicate k (CHR ''?'') @ c # r) (s @ [NUL])
    = Some (if k \<le> length s then Some (c # r, drop k s @ [NUL]) else None)"
    using star_skip_any [OF c(1,2) s] k c by (cases path) simp_all
  obtain x n where n: "s @ [NUL] = x # n" by (cases s) auto
  show ?thesis
  proof (cases "k \<le> length s")
    case False
    then show ?thesis using skip n q by (simp add: fnm_loop.simps)
  next
    case le: True
    let ?u = "drop k s"
    have u: "NUL \<notin> set ?u" using s by (auto dest: in_set_dropD)
    show ?thesis
    proof (cases "ts = []")
      case True
      then show ?thesis using skip n q c le
        by (auto simp: fnm_loop.simps intro!: bexI [of _ "length s - k"])
    next
      case False
      then obtain c1 where c1: "(if c = CHR 0x5C then case r of [] \<Rightarrow> None | e # _ \<Rightarrow> Some e else Some c) = Some c1"
        and m: "\<And>y v. gmatch path ts (y # v) \<Longrightarrow> c = CHR ''['' \<or> y = c1" "\<not> gmatch path ts []"
        using starts_next [OF st] by blast
      have "star_try (\<lambda>n. fnm_loop (flags_of path) (c # r) None n) (flags_of path) c c1 (?u @ [NUL])
        = Some (\<exists>j \<in> {0..<length ?u}. (c = CHR ''['' \<or> ?u ! j = c1) \<and> gmatch path ts (drop j ?u))"
        (is "_ = Some ?some")
        using rest q u by (intro star_try_exists) auto
      moreover have "?some \<longleftrightarrow> (\<exists>j \<in> {0..length s - k}. gmatch path ts (drop j ?u))"
      proof
        assume "\<exists>j \<in> {0..length s - k}. gmatch path ts (drop j ?u)"
        then obtain j where j: "j \<le> length ?u" "gmatch path ts (drop j ?u)" by auto
        have "j \<noteq> length ?u" using j m(2) by auto
        then have "j < length ?u" using j by simp
        moreover from this have "c = CHR ''['' \<or> ?u ! j = c1"
          using m(1) j(2) by (metis Cons_nth_drop_Suc)
        ultimately show "\<exists>j \<in> {0..<length ?u}. (c = CHR ''['' \<or> ?u ! j = c1) \<and> gmatch path ts (drop j ?u)"
          using j by auto
      qed auto
      moreover have "fnm_loop (flags_of path) (CHR ''*'' # replicate k (CHR ''?'') @ c # r) prev (x # n)
        = star_try (fnm_loop (flags_of path) (c # r) None) (flags_of path) c c1 (?u @ [NUL])"
        using skip n le c False c1 by (intro fnm_star_step) simp_all
      ultimately show ?thesis using n q le by simp
    qed
  qed
qed

lemma runs_okD:
  assumes "runs_ok path (Star # ts)"
  obtains k ts' where "ts = replicate k AnyChar @ ts'" "path \<Longrightarrow> k = 0"
    "ts' = [] \<or> hd ts' \<noteq> Star \<and> hd ts' \<noteq> AnyChar" "runs_ok path ts'"
proof -
  let ?d = "dropWhile (\<lambda>t. t = AnyChar) ts"
  have "takeWhile (\<lambda>t. t = AnyChar) ts = replicate (length (takeWhile (\<lambda>t. t = AnyChar) ts)) AnyChar"
    by (rule replicate_eqI) (auto dest: set_takeWhileD)
  then have 1: "ts = replicate (length (takeWhile (\<lambda>t. t = AnyChar) ts)) AnyChar @ ?d"
    by (metis takeWhile_dropWhile_id)
  have 2: "path \<Longrightarrow> length (takeWhile (\<lambda>t. t = AnyChar) ts) = 0"
  proof -
    assume path
    then have "?d = ts" using assms by (simp add: Let_def)
    then show ?thesis using 1 by (metis append_same_eq append_Nil length_0_conv length_replicate)
  qed
  have "runs_ok path (us @ vs) \<Longrightarrow> runs_ok path vs" for us vs by (induction us) auto
  then have "runs_ok path ?d" using assms by (metis runs_ok.simps(2) takeWhile_dropWhile_id)
  moreover have "?d = [] \<or> hd ?d \<noteq> Star \<and> hd ?d \<noteq> AnyChar"
    using assms hd_dropWhile [of "\<lambda>t. t = AnyChar" ts] by (auto simp: Let_def)
  ultimately show thesis using 1 2 that by blast
qed

lemma gmatch_any:
  "gmatch False (replicate k AnyChar @ ts) s \<longleftrightarrow> k \<le> length s \<and> gmatch False ts (drop k s)"
proof (induction k arbitrary: s)
  case (Suc k)
  then show ?case by (cases s) auto
qed simp

lemma gmatch_star:
  assumes "path \<Longrightarrow> k = 0"
  shows "gmatch path (Star # replicate k AnyChar @ ts) s
    \<longleftrightarrow> k \<le> length s \<and> (\<exists>j \<in> {0..length s - k}. gmatch path ts (drop j (drop k s)))"
proof (cases path)
  case False
  have "(\<exists>j \<in> {0..length s}. k \<le> length s - j \<and> gmatch False ts (drop k (drop j s)))
    \<longleftrightarrow> k \<le> length s \<and> (\<exists>j \<in> {0..length s - k}. gmatch False ts (drop j (drop k s)))"
    by (auto simp: add.commute intro!: bexI)
  then show ?thesis using False gmatch_any by simp
qed (use assms in simp)

lemma fnm_glob:
  assumes "wf_pattern path ts" "NUL \<notin> set s"
  shows "fnm_loop (flags_of path) (pattern_text ts @ [NUL]) prev (s @ [NUL]) = Some (gmatch path ts s)"
  using assms
proof (induction "length ts" arbitrary: ts s prev rule: less_induct)
  case less
  show ?case
  proof (cases ts)
    case Nil
    then show ?thesis using fnm_end [OF less.prems(2)] by (simp add: pattern_text_def)
  next
    case (Cons t rest)
    have wf: "wf_glob path t" "wf_pattern path rest"
      using less.prems(1) Cons by (simp_all add: wf_pattern_def)
    have IH: "fnm_loop (flags_of path) (pattern_text rest @ [NUL]) prev (u @ [NUL]) = Some (gmatch path rest u)"
      if "NUL \<notin> set u" for prev u
      using less.hyps [of rest u prev] Cons wf(2) that by simp
    have whole: "pattern_text ts @ [NUL] = glob_text t @ pattern_text rest @ [NUL]"
      by (simp add: Cons pattern_text_def)
    show ?thesis
    proof (cases t)
      case (Lit c)
      then show ?thesis unfolding whole using fnm_lit [of c s path] wf(1) less.prems(2) IH Cons
        by (auto split: list.split)
    next
      case AnyChar
      then show ?thesis unfolding whole using fnm_any [OF less.prems(2), of path] less.prems(2) IH Cons
        by (auto split: list.split)
    next
      case (Class inv items)
      then show ?thesis unfolding whole
        using fnm_class [OF less.prems(2), of path inv items] wf(1) less.prems(2) IH Cons
        by (auto split: list.split)
    next
      case Star
      then obtain k ts' where k: "rest = replicate k AnyChar @ ts'" "path \<Longrightarrow> k = 0"
        "ts' = [] \<or> hd ts' \<noteq> Star \<and> hd ts' \<noteq> AnyChar" "runs_ok path ts'"
        using runs_okD [of path rest] less.prems(1) Cons by (auto simp: wf_pattern_def)
      obtain c r where q: "pattern_text ts' @ [NUL] = c # r"
        by (cases "pattern_text ts' @ [NUL]") auto
      have w: "wf_pattern path ts'" using wf(2) k by (simp add: wf_pattern_def)
      then have st: "starts ts' c r" using starts_text [OF q _ k(3), of path] by (simp add: wf_pattern_def)
      have IH': "fnm_loop (flags_of path) (pattern_text ts' @ [NUL]) prev (u @ [NUL]) = Some (gmatch path ts' u)"
        if "NUL \<notin> set u" for prev u
        using less.hyps [of ts' u prev] Cons k(1) w that by simp
      have "pattern_text ts @ [NUL] = ''*'' @ replicate k (CHR ''?'') @ pattern_text ts' @ [NUL]"
        unfolding whole Star k(1) by (simp add: pattern_text_def)
      then show ?thesis
        using fnm_star [OF q less.prems(2) st k(2) IH'] gmatch_star [of path k ts' s, OF k(2)] Cons Star k(1)
        by simp
    qed
  qed
qed

section \<open>What the program relies on\<close>

text \<open>The exclude, ignore and ascii lists: what a client may assume of the matcher for names
  without wildcards and for suffix patterns.\<close>

definition plain_name :: "string \<Rightarrow> bool" where
  "plain_name p \<longleftrightarrow> (\<forall>c \<in> set p. \<not> special c \<and> c \<noteq> NUL)"

text \<open>An item \<open>/dir\<close> names one path and what is below it, an item \<open>name\<close> every file of that name.\<close>

definition item_names :: "fnlist \<Rightarrow> string \<Rightarrow> bool" where
  "item_names item filename \<longleftrightarrow>
     (if fn_haspath item
      then filename = fn_pattern item \<or> (\<exists>r. filename = fn_pattern item @ CHR ''/'' # r)
      else base_name filename = fn_pattern item)"

locale name_matcher =
  fixes fnm :: matcher
  assumes name: "plain_name p \<Longrightarrow> NUL \<notin> set s \<Longrightarrow> fnm p s False \<longleftrightarrow> s = p"
    and path: "plain_name p \<Longrightarrow> NUL \<notin> set s \<Longrightarrow> fnm p s True \<longleftrightarrow> s = p \<or> (\<exists>r. s = p @ CHR ''/'' # r)"
    and suffix: "plain_name p \<Longrightarrow> NUL \<notin> set s \<Longrightarrow> fnm (CHR ''*'' # p) s False \<longleftrightarrow> (\<exists>q. s = q @ p)"
begin

lemma list_iff:
  "fnlist_match fnm filename items \<longleftrightarrow> (\<exists>item \<in> set items.
     if fn_haspath item then fnm (fn_pattern item) filename True
     else fnm (fn_pattern item) (base_name filename) False)"
  by (induction items) auto

lemma list_plain:
  assumes "\<And>item. item \<in> set items \<Longrightarrow> plain_name (fn_pattern item)"
    and "NUL \<notin> set filename" "NUL \<notin> set (base_name filename)"
  shows "fnlist_match fnm filename items \<longleftrightarrow> (\<exists>item \<in> set items. item_names item filename)"
  unfolding list_iff
  by (rule bex_cong [OF refl]) (use assms name path in \<open>simp add: item_names_def\<close>)

end

lemma pattern_lits:
  assumes "plain_name p"
  shows "pattern_text (map Lit p) = p"
  using assms by (induction p) (simp_all add: pattern_text_def plain_name_def)

lemma wf_lits: "plain_name p \<Longrightarrow> wf_pattern path (map Lit p)"
  by (induction p) (auto simp: wf_pattern_def plain_name_def)

lemma wf_suffix: "plain_name p \<Longrightarrow> wf_pattern path (Star # map Lit p)"
  using wf_lits [of p path] by (cases p) (simp_all add: wf_pattern_def)

lemma gmatch_lits:
  "gmatch path (map Lit p) s \<longleftrightarrow> s = p \<or> path \<and> (\<exists>r. s = p @ CHR ''/'' # r)"
proof (induction p arbitrary: s)
  case Nil
  then show ?case by (cases s) auto
next
  case (Cons c p)
  then show ?case by (cases s) auto
qed

lemma lib_matcher_wf:
  assumes "wf_pattern path ts" "NUL \<notin> set s"
  shows "lib_matcher (pattern_text ts) s path \<longleftrightarrow> gmatch path ts s"
  using fnm_glob [OF assms, of None] by (simp add: lib_matcher_def fnmatch_def flags_of_def split: if_splits)

interpretation lib: name_matcher lib_matcher
proof
  show "lib_matcher p s False \<longleftrightarrow> s = p" if "plain_name p" "NUL \<notin> set s" for p s
    using lib_matcher_wf [OF wf_lits [OF that(1)] that(2), of False] that
    by (simp add: pattern_lits gmatch_lits)
  show "lib_matcher p s True \<longleftrightarrow> s = p \<or> (\<exists>r. s = p @ CHR ''/'' # r)"
    if "plain_name p" "NUL \<notin> set s" for p s
    using lib_matcher_wf [OF wf_lits [OF that(1)] that(2), of True] that
    by (simp add: pattern_lits gmatch_lits)
  show "lib_matcher (CHR ''*'' # p) s False \<longleftrightarrow> (\<exists>q. s = q @ p)"
    if "plain_name p" "NUL \<notin> set s" for p s
  proof -
    have "pattern_text (Star # map Lit p) = CHR ''*'' # p"
      using pattern_lits [OF that(1)] by (simp add: pattern_text_def)
    moreover have "gmatch False (Star # map Lit p) s \<longleftrightarrow> (\<exists>q. s = q @ p)"
    proof
      assume "gmatch False (Star # map Lit p) s"
      then obtain k where "drop k s = p" by (auto simp: gmatch_lits)
      then show "\<exists>q. s = q @ p" by (metis append_take_drop_id)
    next
      assume "\<exists>q. s = q @ p"
      then obtain q where "s = q @ p" by blast
      then show "gmatch False (Star # map Lit p) s"
        by (auto simp: gmatch_lits intro!: bexI [of _ "length q"])
    qed
    ultimately show ?thesis
      using lib_matcher_wf [OF wf_suffix [OF that(1)] that(2), of False] by simp
  qed
qed

section \<open>Properties\<close>



text \<open>Where the code departs from that meaning: a second star swallows a character, so \<open>**a\<close> does
  not match \<open>a\<close>; with \<^verbatim>\<open>FNM_PATHNAME\<close> a star matches across slashes; and a pattern that ends in an
  escape within a character class is read past its end.\<close>

theorem fnmatch_departures:
  "fnmatch ''**a'' ''a'' 0 = Some False \<and> fnmatch ''a*c'' ''a/b/c'' FNM_PATHNAME = Some True
   \<and> fnmatch (''['' @ [CHR 0x5C]) ''a'' 0 = None"
  by (intro conjI; code_simp)

text \<open>With the library's matcher, a list of plain names excludes exactly the files of these base
  names, and for the names given as paths, these paths and everything below them.\<close>

theorem plain_excludes:
  assumes "\<And>item. item \<in> set (s_excludes s) \<Longrightarrow> plain_name (fn_pattern item)"
    and "NUL \<notin> set filename" "NUL \<notin> set (base_name filename)"
  shows "file_isexcluded lib_matcher filename s \<longleftrightarrow> (\<exists>item \<in> set (s_excludes s).
    if fn_haspath item
    then filename = fn_pattern item \<or> (\<exists>r. filename = fn_pattern item @ CHR ''/'' # r)
    else base_name filename = fn_pattern item)"
  using lib.list_plain [OF assms(1) assms(2,3), of "s_excludes s"]
  by (simp add: file_isexcluded_def item_names_def)

lemma plain_excludes_witness:
  "file_isexcluded lib_matcher ''cgi-bin/x''
      (zero_site\<lparr>s_excludes := [\<lparr>fn_pattern = ''cgi-bin'', fn_haspath = True\<rparr>]\<rparr>)
    \<longleftrightarrow> (\<exists>item \<in> set (s_excludes (zero_site\<lparr>s_excludes := [\<lparr>fn_pattern = ''cgi-bin'', fn_haspath = True\<rparr>]\<rparr>)).
    if fn_haspath item
    then ''cgi-bin/x'' = fn_pattern item \<or> (\<exists>r. ''cgi-bin/x'' = fn_pattern item @ CHR ''/'' # r)
    else base_name ''cgi-bin/x'' = fn_pattern item)"
  by (rule plain_excludes)
    (auto simp: plain_name_def special_def NUL_def base_name_def)

end
