(* ===== verification/C_Text.thy ===== *)
theory C_Text
  imports Prelude
begin

text \<open>
  Text files as the C library reads them: \<^verbatim>\<open>fgets\<close> with a buffer of \<open>n\<close> bytes delivers at
  most \<open>n - 1\<close> characters, and no more than one line with its newline.  What follows is cut
  into the next buffers, so a long line arrives in pieces.  The code looks at a buffer as
  a C string, that is up to its first NUL.
\<close>

definition NL :: char where "NL = CHR 0x0A"
definition NULc :: char where "NULc = CHR 0x00"

definition c_string :: "string \<Rightarrow> string" where
  "c_string buf = takeWhile (\<lambda>c. c \<noteq> NULc) buf"

definition fgets :: "nat \<Rightarrow> string \<Rightarrow> string" where
  "fgets n s = take (min (n - 1) (Suc (length (takeWhile (\<lambda>c. c \<noteq> NL) s)))) s"

function fgets_lines :: "nat \<Rightarrow> string \<Rightarrow> string list" where
  "fgets_lines n s =
     (if s = [] \<or> n < 2 then [] else fgets n s # fgets_lines n (drop (length (fgets n s)) s))"
  by auto
termination
  by (relation "measure (\<lambda>(n, s). length s)") (auto simp: fgets_def)

declare fgets_lines.simps [simp del]

lemma fgets_lines_Nil [simp]: "fgets_lines n [] = []"
  by (subst fgets_lines.simps) simp

lemma fgets_length: "2 \<le> n \<Longrightarrow> length (fgets n s) < n"
  by (auto simp: fgets_def)

lemma fgets_lines_length: "l \<in> set (fgets_lines n s) \<Longrightarrow> length l < n"
proof (induction n s rule: fgets_lines.induct)
  case (1 n s)
  show ?case
  proof (cases "s = [] \<or> n < 2")
    case True
    then show ?thesis using 1 by (simp add: fgets_lines.simps [of n s])
  next
    case False
    then have "l = fgets n s \<or> l \<in> set (fgets_lines n (drop (length (fgets n s)) s))"
      using "1.prems" by (simp add: fgets_lines.simps [of n s])
    then show ?thesis using 1(1) [OF False] fgets_length [of n s] False by auto
  qed
qed

text \<open>No character is lost or invented: the buffers make up the file.\<close>

lemma fgets_lines_concat: "2 \<le> n \<Longrightarrow> concat (fgets_lines n s) = s"
proof (induction n s rule: fgets_lines.induct)
  case (1 n s)
  have *: "fgets n s = take (length (fgets n s)) s"
    by (simp add: fgets_def min_def)
  show ?case
  proof (cases "s = []")
    case False
    then have "concat (fgets_lines n s) = fgets n s @ drop (length (fgets n s)) s"
      using 1 by (subst fgets_lines.simps) simp
    then show ?thesis using * append_take_drop_id [of "length (fgets n s)" s] by metis
  qed simp
qed

text \<open>A file of short lines comes out line by line.\<close>

definition line_text :: "nat \<Rightarrow> string \<Rightarrow> bool" where
  "line_text n l \<longleftrightarrow> NL \<notin> set l \<and> NULc \<notin> set l \<and> length l + 2 \<le> n"

lemma fgets_line:
  assumes "line_text n l"
  shows "fgets n (l @ NL # s) = l @ [NL]"
proof -
  have "takeWhile (\<lambda>c. c \<noteq> NL) (l @ NL # s) = l"
    using assms by (subst takeWhile_append2) (auto simp: line_text_def)
  moreover have "min (n - 1) (Suc (length l)) = Suc (length l)"
    using assms by (intro min_absorb2) (auto simp: line_text_def)
  ultimately show ?thesis by (simp add: fgets_def)
qed

lemma fgets_lines_text:
  "(\<And>l. l \<in> set ls \<Longrightarrow> line_text n l) \<Longrightarrow>
   fgets_lines n (concat (map (\<lambda>l. l @ [NL]) ls)) = map (\<lambda>l. l @ [NL]) ls"
proof (induction ls)
  case (Cons l ls)
  have l: "line_text n l" using Cons by simp
  then have n: "\<not> n < 2" by (simp add: line_text_def)
  show ?case
    using n fgets_line [OF l] Cons
    by (subst fgets_lines.simps) (simp add: append_eq_Cons_conv)
qed simp

lemma c_string_text: "NULc \<notin> set l \<Longrightarrow> c_string l = l"
  by (auto simp: c_string_def takeWhile_eq_all_conv)

lemma c_string_length: "length (c_string l) \<le> length l"
  by (simp add: c_string_def length_takeWhile_le)

lemma c_string_no_NUL: "NULc \<notin> set (c_string l)"
  by (auto simp: c_string_def dest: set_takeWhileD)

text \<open>
  What \<^verbatim>\<open>ne_shave\<close> leaves in the buffer: it cuts the white space at the end off; the pointer past the
  white space at the start, which it returns, is not used by the callers here.
\<close>

definition cut_end :: "string \<Rightarrow> string \<Rightarrow> string" where
  "cut_end white s =
     (if set s \<subseteq> set white then s
      else rev (dropWhile (\<lambda>c. c \<in> set white) (rev s)))"

end
