(* ===== verification/Netrc.thy ===== *)
theory Netrc
  imports C_Text
begin

text \<open>
  The account file \<^verbatim>\<open>~/.netrc\<close>: \<^verbatim>\<open>lib/netrc.c\<close> (its test program under \<^verbatim>\<open>STANDALONE\<close> apart)
  and \<^verbatim>\<open>rc_get_netrc_password\<close> of \<^verbatim>\<open>src/rcfile.c\<close>.  The tokeniser of \<^verbatim>\<open>parse_netrc\<close> rewrites
  the line in place, with the write pointer never ahead of the read pointer, so the model
  keeps the token and the unread rest.  The warnings on \<^verbatim>\<open>stderr\<close> are left out.  The first
  part is the model, the second what the parser promises to its client and the round trip
  of a file of simple entries.
\<close>

section \<open>The parser\<close>

datatype netrc_tok =
  tok_nothing | tok_account | tok_login | tok_macdef | tok_machine | tok_password

record netrc_entry =
  n_host :: "string option"
  n_account :: "string option"
  n_password :: "string option"

definition zero_entry :: netrc_entry where
  "zero_entry = \<lparr>n_host = None, n_account = None, n_password = None\<rparr>"

record netrc_state =
  ns_last_token :: netrc_tok
  ns_current :: "netrc_entry option"
  ns_retval :: "netrc_entry list"

definition maybe_add_to_list ::
    "netrc_entry option \<Rightarrow> netrc_entry list \<Rightarrow> netrc_entry \<times> netrc_entry list" where
  "maybe_add_to_list a l =
     (case a of
        None \<Rightarrow> (zero_entry, l)
      | Some e \<Rightarrow> (case n_account e of None \<Rightarrow> (zero_entry, l) | Some _ \<Rightarrow> (zero_entry, e # l)))"

text \<open>The token at \<open>p\<close>: quotes are dropped and protect white space.\<close>

fun netrc_token :: "char option \<Rightarrow> string \<Rightarrow> string \<times> string" where
  "netrc_token q [] = ([], [])"
| "netrc_token (Some q) (c # p) =
     (if q = c then netrc_token None p
      else let (t, r) = netrc_token (Some q) p in (c # t, r))"
| "netrc_token None (c # p) =
     (if isspace c then ([], p)
      else if c = CHR 0x22 \<or> c = CHR 0x27 then netrc_token (Some c) p
      else let (t, r) = netrc_token None p in (c # t, r))"

definition new_machine :: "netrc_state \<Rightarrow> netrc_state" where
  "new_machine st =
     (let (a, l) = maybe_add_to_list (ns_current st) (ns_retval st)
      in st\<lparr>ns_current := Some a, ns_retval := l\<rparr>)"

definition upd_current :: "(netrc_entry \<Rightarrow> netrc_entry) \<Rightarrow> netrc_state \<Rightarrow> netrc_state" where
  "upd_current f st = st\<lparr>ns_current := map_option f (ns_current st)\<rparr>"

text \<open>The value of the keyword before it.\<close>

definition netrc_value :: "string \<Rightarrow> netrc_state \<Rightarrow> netrc_state" where
  "netrc_value tok st =
     (case ns_last_token st of
        tok_login \<Rightarrow> upd_current (\<lambda>e. e\<lparr>n_account := Some tok\<rparr>) st
      | tok_machine \<Rightarrow> upd_current (\<lambda>e. e\<lparr>n_host := Some tok\<rparr>) (new_machine st)
      | tok_password \<Rightarrow> upd_current (\<lambda>e. e\<lparr>n_password := Some tok\<rparr>) st
      | _ \<Rightarrow> st)"

definition netrc_keyword :: "string \<Rightarrow> netrc_state \<Rightarrow> netrc_state" where
  "netrc_keyword tok st =
     (if tok = ''default'' then new_machine st
      else if tok = ''login'' then st\<lparr>ns_last_token := tok_login\<rparr>
      else if tok = ''user'' then st\<lparr>ns_last_token := tok_login\<rparr>
      else if tok = ''macdef'' then st\<lparr>ns_last_token := tok_macdef\<rparr>
      else if tok = ''machine'' then st\<lparr>ns_last_token := tok_machine\<rparr>
      else if tok = ''password'' then st\<lparr>ns_last_token := tok_password\<rparr>
      else if tok = ''passwd'' then st\<lparr>ns_last_token := tok_password\<rparr>
      else if tok = ''account'' then st\<lparr>ns_last_token := tok_account\<rparr>
      else st)"

definition netrc_step :: "string \<Rightarrow> netrc_state \<Rightarrow> netrc_state" where
  "netrc_step tok st =
     (if ns_last_token st \<noteq> tok_nothing
      then (netrc_value tok st)\<lparr>ns_last_token := tok_nothing\<rparr>
      else netrc_keyword tok (netrc_value tok st))"

lemma netrc_token_length: "length (snd (netrc_token q p)) \<le> length p"
  by (induction q p rule: netrc_token.induct) (auto split: prod.splits)

lemma netrc_token_shorter: "length (snd (netrc_token q (c # p))) < length (c # p)"
  using netrc_token_length [of q p] netrc_token_length [of None p]
    netrc_token_length [of "Some c" p]
  by (cases q) (auto split: prod.splits)

text \<open>The loop over the tokens of a line: a comment ends it, and a macro definition.\<close>

function netrc_tokens :: "string \<Rightarrow> netrc_state \<Rightarrow> netrc_state" where
  "netrc_tokens p st =
     (if p = [] \<or> ns_last_token st = tok_macdef then st
      else case dropWhile isspace p of
        [] \<Rightarrow> netrc_step [] st
      | c # r \<Rightarrow>
          (if c = CHR ''#'' then st
           else netrc_tokens (snd (netrc_token None (c # r)))
                  (netrc_step (fst (netrc_token None (c # r))) st)))"
  by auto
termination
proof (relation "measure (\<lambda>(p, st). length p)", goal_cases)
  case (2 p st c r)
  have "length (snd (netrc_token None (c # r))) < length (dropWhile isspace p)"
    using netrc_token_shorter [of None c r] 2(2) by simp
  also have "\<dots> \<le> length p" by (rule length_dropWhile_le)
  finally show ?case by simp
qed simp

declare netrc_tokens.simps [simp del]

text \<open>One line: trailing white space goes, and an empty line ends a macro.\<close>

definition strip_line :: "string \<Rightarrow> string" where
  "strip_line buf = rev (dropWhile isspace (rev (c_string buf)))"

definition netrc_line :: "string \<Rightarrow> netrc_state \<Rightarrow> netrc_state" where
  "netrc_line buf st =
     (let p = strip_line buf
      in if p = []
         then (if ns_last_token st = tok_macdef then st\<lparr>ns_last_token := tok_nothing\<rparr> else st)
         else netrc_tokens p st)"

definition parse_netrc :: "string option \<Rightarrow> netrc_entry list" where
  "parse_netrc netrc =
     (case netrc of
        None \<Rightarrow> []
      | Some text \<Rightarrow>
          (let st = fold netrc_line (fgets_lines BUFSIZ text)
                      \<lparr>ns_last_token = tok_nothing, ns_current = None, ns_retval = []\<rparr>;
               (a, l) = maybe_add_to_list (ns_current st) (ns_retval st)
           in rev l))"

fun search_netrc :: "netrc_entry list \<Rightarrow> string \<Rightarrow> netrc_entry option" where
  "search_netrc [] host = None"
| "search_netrc (e # list) host =
     (if n_host e = None then Some e
      else if n_host e = Some host then Some e
      else search_netrc list host)"

text \<open>\<^const>\<open>None\<close> is the \<^verbatim>\<open>strcmp\<close> of a NULL account.\<close>

definition rc_get_netrc_password ::
    "netrc_entry list \<Rightarrow> string \<Rightarrow> string \<Rightarrow> string option option" where
  "rc_get_netrc_password netrc_list server username =
     (case search_netrc netrc_list server of
        None \<Rightarrow> Some None
      | Some found \<Rightarrow>
          (case n_account found of
             None \<Rightarrow> None
           | Some acc \<Rightarrow> Some (if acc = username then n_password found else None)))"

section \<open>What the parser promises\<close>

lemma strip_line_plain:
  "NULc \<notin> set p \<Longrightarrow> p \<noteq> [] \<Longrightarrow> \<not> isspace (last p) \<Longrightarrow> strip_line (p @ [NL]) = p"
  by (cases p rule: rev_cases)
    (auto simp: strip_line_def c_string_text NL_def NULc_def isspace_def)

definition usable :: "netrc_entry \<Rightarrow> bool" where "usable e \<longleftrightarrow> n_account e \<noteq> None"

definition usable_state :: "netrc_state \<Rightarrow> bool" where
  "usable_state st \<longleftrightarrow> list_all usable (ns_retval st)"

lemma maybe_add_usable:
  "list_all usable l \<Longrightarrow> list_all usable (snd (maybe_add_to_list a l))"
  by (auto simp: maybe_add_to_list_def usable_def split: option.splits)

lemma new_machine_usable: "usable_state st \<Longrightarrow> usable_state (new_machine st)"
  using maybe_add_usable [of "ns_retval st" "ns_current st"]
  by (simp add: usable_state_def new_machine_def case_prod_beta)

lemma netrc_step_usable: "usable_state st \<Longrightarrow> usable_state (netrc_step tok st)"
  using new_machine_usable [of st]
  by (auto simp: netrc_step_def netrc_value_def netrc_keyword_def upd_current_def usable_state_def
      split: netrc_tok.splits)

lemma netrc_tokens_usable: "usable_state st \<Longrightarrow> usable_state (netrc_tokens p st)"
proof (induction p st rule: netrc_tokens.induct)
  case (1 p st)
  then show ?case
    by (subst netrc_tokens.simps)
      (auto split: list.splits simp: netrc_step_usable simp del: netrc_token.simps)
qed

lemma netrc_line_usable: "usable_state st \<Longrightarrow> usable_state (netrc_line buf st)"
  by (auto simp: netrc_line_def usable_state_def Let_def
      intro: netrc_tokens_usable [unfolded usable_state_def])

lemma netrc_lines_usable: "usable_state st \<Longrightarrow> usable_state (fold netrc_line bufs st)"
  by (induction bufs arbitrary: st) (auto intro: netrc_line_usable)

lemma parse_netrc_usable: "list_all usable (parse_netrc netrc)"
proof (cases netrc)
  case (Some content)
  define st where "st = fold netrc_line (fgets_lines BUFSIZ content)
    \<lparr>ns_last_token = tok_nothing, ns_current = None, ns_retval = []\<rparr>"
  have "usable_state st"
    unfolding st_def by (rule netrc_lines_usable) (simp add: usable_state_def)
  then show ?thesis
    using Some maybe_add_usable [of "ns_retval st" "ns_current st"]
    by (simp add: parse_netrc_def st_def [symmetric] usable_state_def list_all_iff
        case_prod_beta Let_def)
qed (simp add: parse_netrc_def)

lemma search_netrc_find:
  "search_netrc es host = List.find (\<lambda>e. n_host e = None \<or> n_host e = Some host) es"
  by (induction es) auto

lemma search_netrc_in: "search_netrc es host = Some e \<Longrightarrow> e \<in> set es"
  by (induction es) (auto split: if_splits)

lemma password_usable:
  assumes "list_all usable es"
  shows "rc_get_netrc_password es server username \<noteq> None"
proof (cases "search_netrc es server")
  case (Some e)
  then have "usable e" using assms search_netrc_in by (auto simp: list_all_iff)
  then show ?thesis using Some by (auto simp: rc_get_netrc_password_def usable_def)
qed (simp add: rc_get_netrc_password_def)

text \<open>C32.  Whatever the file holds, every entry that parse_netrc delivers has an account, so
  the lookup of a password never compares through a NULL account.\<close>
theorem netrc_entries_usable:
  "list_all (\<lambda>e. n_account e \<noteq> None) (parse_netrc netrc)
   \<and> rc_get_netrc_password (parse_netrc netrc) server username \<noteq> None"
  using parse_netrc_usable [of netrc]
    password_usable [OF parse_netrc_usable, of netrc server username]
  by (auto simp: usable_def list_all_iff)

section \<open>The round trip\<close>

text \<open>An entry as text: every value quoted, \<open>default\<close> for the entry without a host.\<close>

definition quoted :: "string \<Rightarrow> string" where "quoted w = CHR 0x22 # w @ [CHR 0x22]"

definition entry_text :: "netrc_entry \<Rightarrow> string" where
  "entry_text e =
     (case n_host e of None \<Rightarrow> ''default'' | Some h \<Rightarrow> ''machine '' @ quoted h)
     @ (case n_account e of None \<Rightarrow> [] | Some u \<Rightarrow> '' login '' @ quoted u)
     @ (case n_password e of None \<Rightarrow> [] | Some p \<Rightarrow> '' password '' @ quoted p)"

definition quotable :: "string \<Rightarrow> bool" where
  "quotable w \<longleftrightarrow> CHR 0x22 \<notin> set w \<and> NL \<notin> set w \<and> NULc \<notin> set w"

definition writable_entry :: "netrc_entry \<Rightarrow> bool" where
  "writable_entry e \<longleftrightarrow>
     n_account e \<noteq> None
     \<and> pred_option quotable (n_host e) \<and> pred_option quotable (n_account e)
     \<and> pred_option quotable (n_password e) \<and> length (entry_text e) + 2 \<le> BUFSIZ"

lemma token_quoted:
  "CHR 0x22 \<notin> set w \<Longrightarrow>
   netrc_token (Some (CHR 0x22)) (w @ CHR 0x22 # r) = (w @ fst (netrc_token None r), snd (netrc_token None r))"
  by (induction w) auto

lemma netrc_tokens_Nil [simp]: "netrc_tokens [] st = st"
  by (subst netrc_tokens.simps) simp

lemma netrc_tokens_step:
  assumes "p = c # p'" "\<not> isspace c" "c \<noteq> CHR ''#''" "ns_last_token st \<noteq> tok_macdef"
    and "netrc_token None p = (t, r)"
  shows "netrc_tokens p st = netrc_tokens r (netrc_step t st)"
  using assms by (subst netrc_tokens.simps) simp

lemma netrc_tokens_space: "netrc_tokens (CHR '' '' # p) st = netrc_tokens p st"
  if "p = c # p'" "\<not> isspace c"
proof -
  have "isspace CHR '' ''" by (simp add: isspace_def)
  then show ?thesis using that
    by (subst (1 2) netrc_tokens.simps) simp
qed

lemma netrc_tokens_quoted:
  assumes "quotable w" "ns_last_token st \<noteq> tok_macdef" "r = [] \<or> (\<exists>r'. r = CHR '' '' # r')"
  shows "netrc_tokens (quoted w @ r) st = netrc_tokens (tl r) (netrc_step w st)"
proof -
  have "netrc_token None (quoted w @ r) = (w, tl r)"
    using assms by (auto simp: quoted_def quotable_def token_quoted isspace_def)
  then show ?thesis
    using assms(2) by (intro netrc_tokens_step [of _ "CHR 0x22" "w @ CHR 0x22 # r"])
      (simp_all add: quoted_def isspace_def)
qed

lemma netrc_line_text:
  assumes "NULc \<notin> set p" "p \<noteq> []" "\<not> isspace (last p)" "ns_last_token st \<noteq> tok_macdef"
  shows "netrc_line (p @ [NL]) st = netrc_tokens p st"
  using assms strip_line_plain [of p] by (simp add: netrc_line_def)

text \<open>What the parser still has to add: the entry it is reading, where that has an account.\<close>

definition entries_of :: "netrc_state \<Rightarrow> netrc_entry list" where
  "entries_of st = snd (maybe_add_to_list (ns_current st) (ns_retval st))"

lemma tokens_host:
  assumes "pred_option quotable h" "ns_last_token st = tok_nothing" "r = [] \<or> (\<exists>r'. r = CHR '' '' # r')"
  shows "netrc_tokens ((case h of None \<Rightarrow> ''default'' | Some h \<Rightarrow> ''machine '' @ quoted h) @ r) st
    = netrc_tokens (tl r) (st\<lparr>ns_current := Some (zero_entry\<lparr>n_host := h\<rparr>), ns_retval := entries_of st\<rparr>)"
proof (cases h)
  case None
  then show ?thesis
    using assms
    by (subst netrc_tokens_step [where t = "''default''" and r = "tl r"])
      (auto simp: isspace_def netrc_step_def netrc_value_def netrc_keyword_def new_machine_def
        entries_of_def maybe_add_to_list_def zero_entry_def split: option.splits)
next
  case (Some w)
  have "netrc_tokens (''machine '' @ quoted w @ r) st
      = netrc_tokens (quoted w @ r) (st\<lparr>ns_last_token := tok_machine\<rparr>)"
    using assms(2)
    by (subst netrc_tokens_step [where t = "''machine''" and r = "quoted w @ r"])
      (auto simp: isspace_def netrc_step_def netrc_value_def netrc_keyword_def)
  then show ?thesis
    using assms Some
    by (auto simp: netrc_tokens_quoted netrc_step_def netrc_value_def upd_current_def
        new_machine_def entries_of_def maybe_add_to_list_def split: option.splits
        intro!: arg_cong2 [where f = netrc_tokens])
qed

lemma tokens_login:
  assumes "quotable w" "ns_last_token st = tok_nothing" "r = [] \<or> (\<exists>r'. r = CHR '' '' # r')"
  shows "netrc_tokens (''login '' @ quoted w @ r) st
    = netrc_tokens (tl r) (upd_current (\<lambda>e. e\<lparr>n_account := Some w\<rparr>) st)"
proof -
  have "netrc_tokens (''login '' @ quoted w @ r) st
      = netrc_tokens (quoted w @ r) (st\<lparr>ns_last_token := tok_login\<rparr>)"
    using assms(2)
    by (subst netrc_tokens_step [where t = "''login''" and r = "quoted w @ r"])
      (auto simp: isspace_def netrc_step_def netrc_value_def netrc_keyword_def)
  then show ?thesis
    using assms
    by (auto simp: netrc_tokens_quoted netrc_step_def netrc_value_def upd_current_def
        intro!: arg_cong2 [where f = netrc_tokens])
qed

lemma tokens_password:
  assumes "quotable w" "ns_last_token st = tok_nothing"
  shows "netrc_tokens (''password '' @ quoted w) st
    = upd_current (\<lambda>e. e\<lparr>n_password := Some w\<rparr>) st"
proof -
  have "netrc_tokens (''password '' @ quoted w) st
      = netrc_tokens (quoted w @ []) (st\<lparr>ns_last_token := tok_password\<rparr>)"
    using assms(2)
    by (subst netrc_tokens_step [where t = "''password''" and r = "quoted w"])
      (auto simp: isspace_def netrc_step_def netrc_value_def netrc_keyword_def)
  then show ?thesis
    using assms netrc_tokens_quoted [of w "st\<lparr>ns_last_token := tok_password\<rparr>" "[]"]
    by (auto simp: netrc_step_def netrc_value_def upd_current_def)
qed

lemma netrc_line_entry:
  assumes "writable_entry e" "ns_last_token st = tok_nothing"
  shows "netrc_line (entry_text e @ [NL]) st
    = st\<lparr>ns_current := Some e, ns_retval := entries_of st\<rparr>"
proof -
  obtain u where u: "n_account e = Some u" using assms(1) by (auto simp: writable_entry_def)
  note q = assms(1) [unfolded writable_entry_def u]
  have sp: "\<not> isspace (CHR 0x22)" by (simp add: isspace_def)
  have "netrc_line (entry_text e @ [NL]) st = netrc_tokens (entry_text e) st"
  proof (rule netrc_line_text)
    show "NULc \<notin> set (entry_text e)"
      using q by (auto simp: entry_text_def u quoted_def quotable_def NULc_def split: option.splits)
    show "\<not> isspace (last (entry_text e))"
      using sp by (auto simp: entry_text_def u quoted_def split: option.splits)
  qed (use assms(2) u in \<open>auto simp: entry_text_def split: option.splits\<close>)
  also have "\<dots> = st\<lparr>ns_current := Some e, ns_retval := entries_of st\<rparr>"
  proof (cases "n_password e")
    case None
    then show ?thesis
      using q assms(2) u tokens_login [of u _ "[]"]
      by (simp add: entry_text_def tokens_host upd_current_def zero_entry_def)
  next
    case (Some w)
    then show ?thesis
      using q assms(2) u tokens_login [of u _ "'' password '' @ quoted w"]
        tokens_password [of w]
      by (simp add: entry_text_def tokens_host upd_current_def zero_entry_def)
  qed
  finally show ?thesis .
qed

lemma netrc_lines_entries:
  "list_all writable_entry es \<Longrightarrow> ns_last_token st = tok_nothing \<Longrightarrow>
   entries_of (fold netrc_line (map (\<lambda>e. entry_text e @ [NL]) es) st) = rev es @ entries_of st"
proof (induction es arbitrary: st)
  case (Cons e es)
  have "entries_of (st\<lparr>ns_current := Some e, ns_retval := entries_of st\<rparr>) = e # entries_of st"
    using Cons.prems by (auto simp: entries_of_def maybe_add_to_list_def writable_entry_def)
  then show ?case
    using Cons netrc_line_entry [of e st] by simp
qed simp

definition netrc_text :: "netrc_entry list \<Rightarrow> string" where
  "netrc_text es = concat (map (\<lambda>e. entry_text e @ [NL]) es)"

lemma entry_line_text:
  assumes "writable_entry e"
  shows "line_text BUFSIZ (entry_text e)"
proof -
  have "NL \<notin> set (entry_text e) \<and> NULc \<notin> set (entry_text e)"
    using assms by (auto simp: writable_entry_def entry_text_def quoted_def quotable_def
        NL_def NULc_def split: option.splits)
  then show ?thesis using assms by (simp add: line_text_def writable_entry_def)
qed

lemma parse_netrc_text:
  assumes "list_all writable_entry es"
  shows "parse_netrc (Some (netrc_text es)) = es"
proof -
  let ?init = "\<lparr>ns_last_token = tok_nothing, ns_current = None, ns_retval = []\<rparr>"
  have "fgets_lines BUFSIZ (netrc_text es) = map (\<lambda>e. entry_text e @ [NL]) es"
    using fgets_lines_text [of "map entry_text es" BUFSIZ] assms entry_line_text
    by (auto simp: netrc_text_def comp_def list_all_iff)
  moreover have "entries_of (fold netrc_line (map (\<lambda>e. entry_text e @ [NL]) es) ?init) = rev es"
    using netrc_lines_entries [OF assms, of ?init]
    by (simp add: entries_of_def maybe_add_to_list_def)
  ultimately show ?thesis
    by (simp add: parse_netrc_def entries_of_def case_prod_beta Let_def)
qed

text \<open>C33.  A file of entries written with quoted values is read back entry by entry in file
  order, and a lookup gives the password of the first entry that names the host or is the
  default, if its account is the user.\<close>
theorem netrc_round_trip:
  assumes "list_all writable_entry es"
  shows "parse_netrc (Some (netrc_text es)) = es
    \<and> rc_get_netrc_password (parse_netrc (Some (netrc_text es))) h u
      = Some (case List.find (\<lambda>e. n_host e = None \<or> n_host e = Some h) es of
                None \<Rightarrow> None
              | Some e \<Rightarrow> if n_account e = Some u then n_password e else None)"
proof -
  have "n_account e \<noteq> None" if "search_netrc es h = Some e" for e
    using assms search_netrc_in [OF that] by (auto simp: list_all_iff writable_entry_def)
  then show ?thesis
    using parse_netrc_text [OF assms]
    by (auto simp: rc_get_netrc_password_def search_netrc_find [symmetric] split: option.splits)
qed

definition example_entries :: "netrc_entry list" where
  "example_entries =
     [\<lparr>n_host = Some ''ftp.site.org'', n_account = Some ''joe'', n_password = Some ''a b''\<rparr>,
      \<lparr>n_host = None, n_account = Some ''anonymous'', n_password = None\<rparr>]"

theorem netrc_round_trip_witness:
  "list_all writable_entry example_entries
   \<and> parse_netrc (Some (netrc_text example_entries)) = example_entries
   \<and> rc_get_netrc_password (parse_netrc (Some (netrc_text example_entries))) ''ftp.site.org'' ''joe''
     = Some (Some ''a b'')"
proof -
  have w: "list_all writable_entry example_entries"
    by (simp add: example_entries_def writable_entry_def entry_text_def quoted_def quotable_def
        BUFSIZ_def NL_def NULc_def)
  have f: "List.find (\<lambda>e. n_host e = None \<or> n_host e = Some ''ftp.site.org'') example_entries
    = Some \<lparr>n_host = Some ''ftp.site.org'', n_account = Some ''joe'', n_password = Some ''a b''\<rparr>"
    by (simp add: example_entries_def)
  note r = netrc_round_trip [OF w, of "''ftp.site.org''" "''joe''"]
  show ?thesis
    using w conjunct1 [OF r] conjunct2 [OF r] by (simp add: f)
qed

end
