(* ===== verification/Rcfile.thy ===== *)
theory Rcfile
  imports Site_Files C_Number Netrc
begin

text \<open>
  The configuration: \<^verbatim>\<open>src/rcfile.c\<close>.  A line of the rcfile is cut by a lexer of ten states
  into a key and up to two values, each kept in a buffer of \<open>LINESIZE\<close> bytes that a write
  pointer walks through; writing past the end of a buffer, or reading one that holds no NUL,
  is \<^const>\<open>None\<close>.  A key changes the site being defined, or the default site that later sites
  start from.  \<open>rcfile_verify\<close> fills in what \<open>site_update\<close> needs, \<open>rcfile_write\<close> prints the
  sites back.  The environment, \<^verbatim>\<open>stat\<close> and the standard output are parameters; \<^const>\<open>None\<close> in
  \<open>rcfile_verify\<close> and \<open>rcfile_write\<close> is a NULL pointer handed to a string function.
\<close>

section \<open>The lexer\<close>

definition LINESIZE :: nat where "LINESIZE = 128"

datatype lex_buffer = in_key | in_val | in_val2

record lexer =
  lx_state :: nat
  lx_last :: nat
  lx_ptr :: lex_buffer
  lx_off :: nat
  lx_key :: string
  lx_val :: string
  lx_val2 :: string

definition lex_start :: "nat \<Rightarrow> lexer" where
  "lex_start last_state =
     \<lparr>lx_state = 0, lx_last = last_state, lx_ptr = in_key, lx_off = 0,
      lx_key = replicate LINESIZE NULc, lx_val = replicate LINESIZE NULc,
      lx_val2 = replicate LINESIZE NULc\<rparr>"

text \<open>\<^verbatim>\<open>*(ptr++) = *ch\<close>\<close>

definition lex_put :: "char \<Rightarrow> lexer \<Rightarrow> lexer option" where
  "lex_put c l =
     (if lx_off l \<ge> LINESIZE then None
      else Some ((case lx_ptr l of
          in_key \<Rightarrow> l\<lparr>lx_key := (lx_key l)[lx_off l := c]\<rparr>
        | in_val \<Rightarrow> l\<lparr>lx_val := (lx_val l)[lx_off l := c]\<rparr>
        | in_val2 \<Rightarrow> l\<lparr>lx_val2 := (lx_val2 l)[lx_off l := c]\<rparr>)\<lparr>lx_off := Suc (lx_off l)\<rparr>))"

definition lex_into :: "lex_buffer \<Rightarrow> lexer \<Rightarrow> lexer" where
  "lex_into b l = l\<lparr>lx_ptr := b, lx_off := 0\<rparr>"

definition lex_to :: "nat \<Rightarrow> lexer \<Rightarrow> lexer" where
  "lex_to n l = l\<lparr>lx_state := n\<rparr>"

definition lex_char :: "char \<Rightarrow> lexer \<Rightarrow> lexer option" where
  "lex_char c l =
     (let alpha = \<not> isspace c; hash = (c = CHR ''#''); st = lx_state l
      in if st = 0 then
           (if hash then Some (lex_to 8 l)
            else if alpha then map_option (lex_to 1) (lex_put c l)
            else Some l)
         else if st = 1 then
           (if hash then Some (lex_to 8 l)
            else if \<not> alpha then Some (lex_to 2 (lex_into in_val l))
            else lex_put c l)
         else if st = 2 then
           (if hash then Some (lex_to 8 l)
            else if c = CHR 0x22 then Some (lex_to 4 l)
            else if alpha then map_option (lex_to 3) (lex_put c l)
            else Some l)
         else if st = 3 then
           (if hash then Some (lex_to 8 l)
            else if \<not> alpha then Some (lex_to 5 (lex_into in_val2 l))
            else lex_put c l)
         else if st = 4 then
           (if c = CHR 0x22 then Some (lex_to 5 (lex_into in_val2 l))
            else if c = CHR 0x5C then Some (lex_to 9 (l\<lparr>lx_last := 4\<rparr>))
            else lex_put c l)
         else if st = 5 then
           (if hash then Some (lex_to 8 l)
            else if c = CHR 0x22 then Some (lex_to 6 l)
            else if alpha then map_option (lex_to 7) (lex_put c l)
            else Some l)
         else if st = 6 then
           (if c = CHR 0x22 then Some (lex_to 8 l)
            else if c = CHR 0x5C then Some (lex_to 9 (l\<lparr>lx_last := 4\<rparr>))
            else lex_put c l)
         else if st = 7 then
           (if hash then Some (lex_to 8 l)
            else if \<not> alpha then Some (lex_to 8 l)
            else lex_put c l)
         else if st = 9 then map_option (lex_to (lx_last l)) (lex_put c l)
         else Some l)"

fun lex_chars :: "string \<Rightarrow> lexer \<Rightarrow> lexer option" where
  "lex_chars [] l = Some l"
| "lex_chars (c # cs) l = do { l \<leftarrow> lex_char c l; lex_chars cs l }"

definition buffer_string :: "string \<Rightarrow> string option" where
  "buffer_string b = (if NULc \<in> set b then Some (c_string b) else None)"

section \<open>The keys of the rcfile\<close>

abbreviation (input) RC_OPENFILE :: int where "RC_OPENFILE \<equiv> 900"
abbreviation (input) RC_CORRUPT :: int where "RC_CORRUPT \<equiv> 901"
abbreviation (input) RC_PERMS :: int where "RC_PERMS \<equiv> 902"
abbreviation (input) RC_DIRPERMS :: int where "RC_DIRPERMS \<equiv> 903"
abbreviation (input) RC_DIROPEN :: int where "RC_DIROPEN \<equiv> 904"
abbreviation (input) RC_NETRCPERMS :: int where "RC_NETRCPERMS \<equiv> 906"

text \<open>A key with no value, for the site \<open>s\<close> that is being defined.\<close>

definition rc_flag :: "string \<Rightarrow> site \<Rightarrow> int \<times> site" where
  "rc_flag key s =
     (if key = ''nodelete'' then (0, s\<lparr>s_nodelete := True\<rparr>)
      else if key = ''checkmoved'' then (0, s\<lparr>s_checkmoved := True\<rparr>)
      else if key = ''nooverwrite'' then (0, s\<lparr>s_nooverwrite := True\<rparr>)
      else if key = ''lowercase'' then (0, s\<lparr>s_lowercase := True\<rparr>)
      else if key = ''safe'' then (0, s\<lparr>s_safemode := True\<rparr>)
      else if key = ''tempupload'' then (0, s\<lparr>s_tempupload := True\<rparr>)
      else (RC_CORRUPT, s))"

text \<open>\<open>atoi\<close> and the values that name a root: a slash is added in the buffer.\<close>

definition atoi :: "string \<Rightarrow> int" where "atoi s = strtol s 10"

definition strcat_slash :: "string \<Rightarrow> string option" where
  "strcat_slash val =
     (if last val \<noteq> CHR ''/''
      then (if length val + 1 < LINESIZE then Some (val @ ''/'') else None)
      else Some val)"

definition root_value :: "string \<Rightarrow> bool \<Rightarrow> int \<times> bool" where
  "root_value val isrel =
     (if hd val = CHR ''~''
      then (if take 1 (tl val) = ''/'' then (0, True) else (RC_CORRUPT, isrel))
      else (0, False))"

definition pattern_value :: "string \<Rightarrow> fnlist" where
  "pattern_value val =
     (if hd val = CHR ''/'' then \<lparr>fn_pattern = tl val, fn_haspath = True\<rparr>
      else \<lparr>fn_pattern = val, fn_haspath = False\<rparr>)"

definition protocol_mode :: "string \<Rightarrow> site_protocol_modes" where
  "protocol_mode val =
     (if strcasecmp_eq val ''ftp'' then siteproto_ftp
      else if strcasecmp_eq val ''http'' \<or> strcasecmp_eq val ''dav'' \<or> strcasecmp_eq val ''webdav''
      then siteproto_dav
      else if strcasecmp_eq val ''rsh'' then siteproto_rsh
      else if strcasecmp_eq val ''ssh'' then siteproto_rsh
      else if strcasecmp_eq val ''sftp'' then siteproto_sftp
      else siteproto_unknown)"

text \<open>\<open>ssh\<close> besides sets the commands that are not set.\<close>

definition ssh_command :: "string \<Rightarrow> string \<Rightarrow> string option \<Rightarrow> string option" where
  "ssh_command val cmd old = (if strcasecmp_eq val ''ssh'' \<and> old = None then Some cmd else old)"

definition protocol_value :: "string \<Rightarrow> site \<Rightarrow> site" where
  "protocol_value val s = s\<lparr>s_protocol := protocol_mode val,
     s_rsh_cmd := ssh_command val ''ssh'' (s_rsh_cmd s),
     s_rcp_cmd := ssh_command val ''scp'' (s_rcp_cmd s)\<rparr>"

text \<open>A key with one value that is one of a few words, and the other keys with one value.\<close>

definition rc_choice :: "string \<Rightarrow> string \<Rightarrow> site \<Rightarrow> int \<times> site" where
  "rc_choice key val s =
     (if key = ''permissions'' then
        (if val = ''ignore'' then (0, s\<lparr>s_perms := sitep_ignore, s_dirperms := False\<rparr>)
         else if val = ''exec'' then (0, s\<lparr>s_perms := sitep_exec\<rparr>)
         else if val = ''all'' then (0, s\<lparr>s_perms := sitep_all\<rparr>)
         else if val = ''dir'' then (0, s\<lparr>s_dirperms := True\<rparr>)
         else (RC_CORRUPT, s))
      else if key = ''symlinks'' then
        (if val = ''follow'' then (0, s\<lparr>s_symlinks := sitesym_follow\<rparr>)
         else if val = ''maintain'' then (0, s\<lparr>s_symlinks := sitesym_maintain\<rparr>)
         else if val = ''ignore'' then (0, s\<lparr>s_symlinks := sitesym_ignore\<rparr>)
         else (RC_CORRUPT, s))
      else if key = ''ftp'' then
        (if val = ''nopasv'' then (0, s\<lparr>s_ftp_pasv_mode := False\<rparr>)
         else if val = ''showquit'' then (0, s\<lparr>s_ftp_echo_quit := True\<rparr>)
         else if val = ''usecwd'' then (0, s\<lparr>s_ftp_use_cwd := True\<rparr>)
         else if val = ''nousecwd'' then (0, s\<lparr>s_ftp_use_cwd := False\<rparr>)
         else (RC_CORRUPT, s))
      else if key = ''http'' then
        (if val = ''expect'' then (0, s\<lparr>s_http_use_expect := True\<rparr>)
         else if val = ''limit'' then (0, s\<lparr>s_http_limit := True\<rparr>)
         else if val = ''secure'' then (0, s\<lparr>s_http_secure := True\<rparr>)
         else if val = ''tolerant'' then (0, s\<lparr>s_http_tolerant := True\<rparr>)
         else (RC_CORRUPT, s))
      else if key = ''state'' then
        (if val = ''checksum'' then (0, s\<lparr>s_state_method := state_checksum\<rparr>)
         else if val = ''timesize'' then (0, s\<lparr>s_state_method := state_timesize\<rparr>)
         else (RC_CORRUPT, s))
      else if key = ''checkmoved'' then
        (if val = ''renames'' then (0, s\<lparr>s_checkrenames := True, s_checkmoved := True\<rparr>)
         else (RC_CORRUPT, s))
      else if key = ''charset'' then (0, s)
      else (RC_CORRUPT, s))"

definition upd_server :: "(site_host \<Rightarrow> site_host) \<Rightarrow> site \<Rightarrow> site" where
  "upd_server f s = s\<lparr>s_server := f (s_server s)\<rparr>"

definition upd_proxy :: "(site_host \<Rightarrow> site_host) \<Rightarrow> site \<Rightarrow> site" where
  "upd_proxy f s = s\<lparr>s_proxy := f (s_proxy s)\<rparr>"

definition rc_value :: "string \<Rightarrow> string \<Rightarrow> site \<Rightarrow> (int \<times> site) option" where
  "rc_value key val s =
     (if key = ''username'' then Some (0, upd_server (\<lambda>h. h\<lparr>h_username := Some val\<rparr>) s)
      else if key = ''server'' then Some (0, upd_server (\<lambda>h. h\<lparr>h_hostname := Some val\<rparr>) s)
      else if key = ''port'' then Some (0, upd_server (\<lambda>h. h\<lparr>h_port := atoi val\<rparr>) s)
      else if key = ''proxy-server'' then Some (0, upd_proxy (\<lambda>h. h\<lparr>h_hostname := Some val\<rparr>) s)
      else if key = ''proxy-port'' then Some (0, upd_proxy (\<lambda>h. h\<lparr>h_port := atoi val\<rparr>) s)
      else if key = ''proxy-password'' then Some (0, upd_proxy (\<lambda>h. h\<lparr>h_password := Some val\<rparr>) s)
      else if key = ''proxy-username'' then Some (0, upd_proxy (\<lambda>h. h\<lparr>h_username := Some val\<rparr>) s)
      else if key = ''password'' then Some (0, upd_server (\<lambda>h. h\<lparr>h_password := Some val\<rparr>) s)
      else if key = ''url'' then Some (0, s\<lparr>s_url := Some val\<rparr>)
      else if key = ''remote'' then
        do { val' \<leftarrow> strcat_slash val;
             let (ret, rel) = root_value val (s_remote_isrel s) in
             Some (ret, s\<lparr>s_remote_isrel := rel, s_remote_root_user := Some val'\<rparr>) }
      else if key = ''local'' then
        do { val' \<leftarrow> strcat_slash val;
             let (ret, rel) = root_value val (s_local_isrel s) in
             Some (ret, s\<lparr>s_local_isrel := rel, s_local_root_user := Some val'\<rparr>) }
      else if key = ''exclude'' then
        Some (0, s\<lparr>s_excludes := fnlist_prepend (pattern_value val) (s_excludes s)\<rparr>)
      else if key = ''ignore'' then
        Some (0, s\<lparr>s_ignores := fnlist_prepend (pattern_value val) (s_ignores s)\<rparr>)
      else if key = ''ascii'' then
        Some (0, s\<lparr>s_asciis := fnlist_prepend (pattern_value val) (s_asciis s)\<rparr>)
      else if key = ''protocol'' then Some (0, (protocol_value val s)\<lparr>s_proto_string := val\<rparr>)
      else if key = ''client-cert'' then Some (0, s\<lparr>s_client_cert := Some val\<rparr>)
      else if key = ''rsh'' then Some (0, s\<lparr>s_rsh_cmd := Some val\<rparr>)
      else if key = ''rcp'' then Some (0, s\<lparr>s_rcp_cmd := Some val\<rparr>)
      else Some (rc_choice key val s))"

section \<open>Reading the file\<close>

text \<open>The site that \<^verbatim>\<open>this_site\<close> points to: none, the default site, or the last of the list.\<close>

datatype this_site = this_null | this_default | this_last

record reader =
  rd_sites :: "site list"
  rd_default :: site
  rd_this :: this_site
  rd_last_state :: nat
  rd_linenum :: int
  rd_err :: "string option"

definition default_site :: site where
  "default_site = zero_site\<lparr>s_perms := sitep_ignore, s_symlinks := sitesym_follow,
     s_protocol := siteproto_ftp, s_proto_string := ''ftp'',
     s_ftp_pasv_mode := True, s_ftp_use_cwd := False\<rparr>"

definition this_value :: "reader \<Rightarrow> site" where
  "this_value rd = (case rd_this rd of this_last \<Rightarrow> last (rd_sites rd) | _ \<Rightarrow> rd_default rd)"

definition set_this :: "site \<Rightarrow> reader \<Rightarrow> reader" where
  "set_this s rd =
     (case rd_this rd of
        this_null \<Rightarrow> rd
      | this_default \<Rightarrow> rd\<lparr>rd_default := s\<rparr>
      | this_last \<Rightarrow> rd\<lparr>rd_sites := butlast (rd_sites rd) @ [s]\<rparr>)"

text \<open>The beginning of a new site: a copy of the default site with lists of its own.\<close>

definition new_site :: "string \<Rightarrow> string \<Rightarrow> site \<Rightarrow> site" where
  "new_site copypath val d =
     d\<lparr>s_excludes := fnlist_deep_copy (s_excludes d), s_ignores := fnlist_deep_copy (s_ignores d),
       s_asciis := fnlist_deep_copy (s_asciis d), s_name := val, s_files := [],
       s_infofile := copypath @ val, s_certfile := copypath @ val @ ''.crt''\<rparr>"

definition rc_item :: "string \<Rightarrow> string \<Rightarrow> string \<Rightarrow> string \<Rightarrow> reader \<Rightarrow> (int \<times> reader) option" where
  "rc_item copypath key val val2 rd =
     (if key = [] then Some (0, rd)
      else if val = [] then
        (if rd_this rd = this_null then
           (if key = ''default'' then Some (0, rd\<lparr>rd_this := this_default\<rparr>)
            else Some (RC_CORRUPT, rd))
         else let (ret, s) = rc_flag key (this_value rd) in Some (ret, set_this s rd))
      else if val2 = [] then
        (if key = ''site'' then
           Some (0, rd\<lparr>rd_sites := rd_sites rd @ [new_site copypath val (rd_default rd)],
                       rd_this := this_last\<rparr>)
         else if rd_this rd = this_null then Some (RC_CORRUPT, rd)
         else do { (ret, s) \<leftarrow> rc_value key val (this_value rd);
                   Some (ret, set_this s rd) })
      else Some (RC_CORRUPT, rd))"

definition rc_line :: "string \<Rightarrow> string \<Rightarrow> reader \<Rightarrow> (int \<times> reader) option" where
  "rc_line copypath buf rd =
     do { l \<leftarrow> lex_chars (c_string buf) (lex_start (rd_last_state rd));
          key \<leftarrow> buffer_string (lx_key l);
          val \<leftarrow> buffer_string (lx_val l);
          val2 \<leftarrow> buffer_string (lx_val2 l);
          rc_item copypath key val val2
            (rd\<lparr>rd_last_state := lx_last l, rd_linenum := rd_linenum rd + 1,
                rd_err := Some (takeWhile (\<lambda>c. c \<noteq> NL) (c_string buf))\<rparr>) }"

fun rc_lines :: "string \<Rightarrow> string list \<Rightarrow> reader \<Rightarrow> (int \<times> reader) option" where
  "rc_lines copypath [] rd = Some (0, rd)"
| "rc_lines copypath (buf # bufs) rd =
     do { (ret, rd) \<leftarrow> rc_line copypath buf rd;
          if ret = 0 then rc_lines copypath bufs rd else Some (ret, rd) }"

text \<open>
  \<open>rcfile_read\<close> for the contents of the file, or the message of the failed \<^verbatim>\<open>fopen\<close>: the
  return code, the list of sites, \<^verbatim>\<open>rcfile_linenum\<close> and \<^verbatim>\<open>rcfile_err\<close>.
\<close>

definition rc_start :: reader where
  "rc_start = \<lparr>rd_sites = [], rd_default = default_site, rd_this = this_null, rd_last_state = 8,
     rd_linenum = 0, rd_err = None\<rparr>"

definition rcfile_read ::
    "string \<Rightarrow> string + string \<Rightarrow> int \<Rightarrow> (int \<times> site list \<times> int \<times> string option) option" where
  "rcfile_read copypath rcfile linenum =
     (case rcfile of
        Inl strerror \<Rightarrow> Some (RC_OPENFILE, [], linenum, Some strerror)
      | Inr contents \<Rightarrow>
          do { (ret, rd) \<leftarrow> rc_lines copypath (fgets_lines LINESIZE contents) rc_start;
               Some (ret, rd_sites rd, rd_linenum rd, rd_err rd) })"

section \<open>Checking a site\<close>

abbreviation (input) SITE_NOSERVER :: int where "SITE_NOSERVER \<equiv> 921"
abbreviation (input) SITE_NOREMOTEDIR :: int where "SITE_NOREMOTEDIR \<equiv> 924"
abbreviation (input) SITE_NOLOCALDIR :: int where "SITE_NOLOCALDIR \<equiv> 925"
abbreviation (input) SITE_ACCESSLOCALDIR :: int where "SITE_ACCESSLOCALDIR \<equiv> 926"
abbreviation (input) SITE_NOMAINTAIN :: int where "SITE_NOMAINTAIN \<equiv> 928"
abbreviation (input) SITE_NOREMOTEREL :: int where "SITE_NOREMOTEREL \<equiv> 929"
abbreviation (input) SITE_NOLOCALREL :: int where "SITE_NOLOCALREL \<equiv> 930"
abbreviation (input) SITE_NOPERMS :: int where "SITE_NOPERMS \<equiv> 931"
abbreviation (input) SITE_NOSAFEOVER :: int where "SITE_NOSAFEOVER \<equiv> 932"
abbreviation (input) SITE_NORENAMES :: int where "SITE_NORENAMES \<equiv> 933"
abbreviation (input) SITE_NOSAFETEMPUP :: int where "SITE_NOSAFETEMPUP \<equiv> 934"

text \<open>
  The environment of the program: the globals \<^verbatim>\<open>home\<close>, \<^verbatim>\<open>havenetrc\<close> and \<^verbatim>\<open>netrc_list\<close>, the
  success of \<^verbatim>\<open>stat\<close> on a path, and the default ports of the drivers.
\<close>

record rc_env =
  e_home :: "string option"
  e_havenetrc :: bool
  e_netrc_list :: "netrc_entry list"
  e_stat :: "string \<Rightarrow> bool"
  e_server_port :: "driver_name \<Rightarrow> site \<Rightarrow> int"
  e_proxy_port :: "driver_name \<Rightarrow> site \<Rightarrow> int"

text \<open>The switch on the protocol: an error code or the driver.\<close>

definition verify_protocol :: "site \<Rightarrow> int \<times> site" where
  "verify_protocol s =
     (case s_protocol s of
        siteproto_ftp \<Rightarrow>
          (if s_symlinks s = sitesym_maintain then SITE_NOMAINTAIN else 0,
           s\<lparr>s_driver := Some ftp_driver\<rparr>)
      | siteproto_dav \<Rightarrow>
          (if s_remote_isrel s then SITE_NOREMOTEREL
           else if s_perms s = sitep_all \<or> s_dirperms s then SITE_NOPERMS
           else if s_symlinks s = sitesym_maintain then SITE_NOMAINTAIN else 0,
           s\<lparr>s_driver := Some dav_driver\<rparr>)
      | siteproto_rsh \<Rightarrow> (0, s\<lparr>s_driver := Some rsh_driver\<rparr>)
      | siteproto_sftp \<Rightarrow> (0, s\<lparr>s_driver := Some sftp_driver\<rparr>)
      | siteproto_unknown \<Rightarrow> (SITE_UNSUPPORTED, s))"

definition lookup_password :: "rc_env \<Rightarrow> site \<Rightarrow> site option" where
  "lookup_password e s =
     (case (h_hostname (s_server s), h_username (s_server s), h_password (s_server s)) of
        (Some host, Some user, None) \<Rightarrow>
          (if e_havenetrc e
           then do { pass \<leftarrow> rc_get_netrc_password (e_netrc_list e) host user;
                     Some (case pass of None \<Rightarrow> s
                           | Some p \<Rightarrow> upd_server (\<lambda>h. h\<lparr>h_password := Some p\<rparr>) s) }
           else Some s)
      | _ \<Rightarrow> Some s)"

definition skip2 :: "string \<Rightarrow> string option" where
  "skip2 v = (if length v < 2 then None else Some (drop 2 v))"

definition set_roots :: "rc_env \<Rightarrow> string \<Rightarrow> string \<Rightarrow> site \<Rightarrow> site option" where
  "set_roots e remote loc s =
     do { r \<leftarrow> (if s_remote_isrel s then skip2 remote else Some remote);
          l \<leftarrow> (if s_local_isrel s
               then do { h \<leftarrow> e_home e; if loc = [] then None else Some (h @ tl loc) }
               else Some loc);
          Some (s\<lparr>s_remote_root := Some r, s_local_root := Some l\<rparr>) }"

definition default_ports :: "rc_env \<Rightarrow> driver_name \<Rightarrow> site \<Rightarrow> site" where
  "default_ports e d s =
     (let s = (if h_port (s_server s) = 0
               then upd_server (\<lambda>h. h\<lparr>h_port := e_server_port e d s\<rparr>) s else s)
      in if h_port (s_proxy s) = 0
         then upd_proxy (\<lambda>h. h\<lparr>h_port := e_proxy_port e d s\<rparr>) s else s)"

definition client_cert_home :: "rc_env \<Rightarrow> site \<Rightarrow> site option" where
  "client_cert_home e s =
     (case s_client_cert s of
        None \<Rightarrow> Some s
      | Some c \<Rightarrow>
          (if take 2 c = ''~/''
           then do { h \<leftarrow> e_home e; Some (s\<lparr>s_client_cert := Some (h @ tl c)\<rparr>) }
           else Some s))"

text \<open>The checks on the options and the roots, in the order of the code.\<close>

definition verify_options :: "rc_env \<Rightarrow> site \<Rightarrow> (int \<times> site) option" where
  "verify_options e s =
     (if s_checkrenames s \<and> s_state_method s \<noteq> state_checksum then Some (SITE_NORENAMES, s)
      else if h_hostname (s_server s) = None then Some (SITE_NOSERVER, s)
      else do { s \<leftarrow> lookup_password e s;
        Some (if s_remote_root_user s = None then SITE_NOREMOTEDIR
              else if s_local_root_user s = None then SITE_NOLOCALDIR
              else if e_home e = None \<and> s_local_root s \<noteq> None then SITE_NOLOCALREL
              else if s_safemode s \<and> s_nooverwrite s then SITE_NOSAFEOVER
              else if s_safemode s \<and> s_tempupload s then SITE_NOSAFETEMPUP
              else 0, s) })"

definition rcfile_verify :: "rc_env \<Rightarrow> site \<Rightarrow> (int \<times> site) option" where
  "rcfile_verify e s =
     (let (ret, s) = verify_protocol s in
      if ret \<noteq> 0 then Some (ret, s)
      else do { (ret, s) \<leftarrow> verify_options e s;
        if ret \<noteq> 0 then Some (ret, s)
        else do { remote \<leftarrow> s_remote_root_user s; loc \<leftarrow> s_local_root_user s;
          s \<leftarrow> set_roots e remote loc s;
          root \<leftarrow> s_local_root s;
          if \<not> e_stat e (root @ ''.'') then Some (SITE_ACCESSLOCALDIR, s)
          else do { s \<leftarrow> client_cert_home e s;
                    d \<leftarrow> s_driver s;
                    Some (0, default_ports e d s) } } })"

section \<open>The environment of the program\<close>

definition S_IFMT :: mode_t where "S_IFMT = 61440"
definition S_IFREG :: mode_t where "S_IFREG = 32768"
definition S_IREAD :: mode_t where "S_IREAD = 256"
definition S_IWRITE :: mode_t where "S_IWRITE = 128"
definition S_IRWXG :: mode_t where "S_IRWXG = 56"
definition S_IRWXO :: mode_t where "S_IRWXO = 7"

definition private_file :: "mode_t \<Rightarrow> bool" where
  "private_file m \<longleftrightarrow> and m (not (or S_IFREG (or S_IREAD S_IWRITE))) = 0"

text \<open>
  \<open>init_env\<close>: the globals \<^verbatim>\<open>rcfile\<close>, \<^verbatim>\<open>copypath\<close> and \<^verbatim>\<open>netrcfile\<close> from \<^verbatim>\<open>$HOME\<close>; a path given
  on the command line stays.
\<close>

type_synonym rc_paths = "string option \<times> string option \<times> string option"

definition init_env :: "string option \<Rightarrow> rc_paths \<Rightarrow> int \<times> rc_paths" where
  "init_env home paths =
     (case paths of (rcfile, copypath, netrcfile) \<Rightarrow>
       (case home of
          None \<Rightarrow> (if rcfile = None \<or> copypath = None then 1 else 0, paths)
        | Some h \<Rightarrow>
            (0, (case rcfile of None \<Rightarrow> Some (h @ ''/.sitecopyrc'') | Some f \<Rightarrow> Some f,
                 case copypath of None \<Rightarrow> Some (h @ ''/.sitecopy/'') | Some f \<Rightarrow> Some f,
                 Some (h @ ''/.netrc'')))))"

text \<open>
  \<open>init_paths\<close>: the return code and, where it is reached, \<^verbatim>\<open>havenetrc\<close>.  \<open>stat\<close> gives the mode
  of a path.
\<close>

definition init_paths ::
    "(string \<Rightarrow> mode_t option) \<Rightarrow> string \<Rightarrow> string \<Rightarrow> string option \<Rightarrow> bool \<Rightarrow> int \<times> bool" where
  "init_paths stat rcfile copypath netrcfile havenetrc =
     (case stat rcfile of
        None \<Rightarrow> (RC_OPENFILE, havenetrc)
      | Some m \<Rightarrow>
          (if and m S_IFMT \<noteq> S_IFREG then (RC_OPENFILE, havenetrc)
           else if \<not> private_file m then (RC_PERMS, havenetrc)
           else case Option.bind netrcfile stat of
             Some n \<Rightarrow>
               (if \<not> private_file n then (RC_NETRCPERMS, havenetrc)
                else (case stat copypath of
                    None \<Rightarrow> RC_DIROPEN
                  | Some d \<Rightarrow> if and d (or S_IRWXG S_IRWXO) \<noteq> 0 then RC_DIRPERMS else 0, True))
           | None \<Rightarrow>
               (case stat copypath of
                    None \<Rightarrow> RC_DIROPEN
                  | Some d \<Rightarrow> if and d (or S_IRWXG S_IRWXO) \<noteq> 0 then RC_DIRPERMS else 0, False)))"

definition init_netrc :: "bool \<Rightarrow> string option \<Rightarrow> netrc_entry list \<Rightarrow> int \<times> netrc_entry list" where
  "init_netrc havenetrc contents old =
     (if \<not> havenetrc then (0, old)
      else let l = parse_netrc contents in (if l = [] then 1 else 0, l))"

section \<open>Writing the file\<close>

text \<open>
  One string for each \<^verbatim>\<open>fprintf\<close> of \<open>rcfile_write\<close>.  A NULL host name or root is \<^const>\<open>None\<close>:
  \<^verbatim>\<open>%s\<close> with a null pointer.
\<close>

definition item_line :: "string \<Rightarrow> string \<Rightarrow> string" where
  "item_line key val = ''  '' @ key @ '' '' @ val @ [NL]"

definition flag_line :: "string \<Rightarrow> string" where
  "flag_line key = ''  '' @ key @ [NL]"

definition RCWRITEBOOL :: "bool \<Rightarrow> string \<Rightarrow> string list" where
  "RCWRITEBOOL field name = (if field then [flag_line name] else [])"

definition dump_fnlist :: "string \<Rightarrow> fnlist list \<Rightarrow> string list" where
  "dump_fnlist name list =
     map (\<lambda>item. item_line name
       ([CHR 0x22] @ (if fn_haspath item then ''/'' else []) @ fn_pattern item @ [CHR 0x22])) list"

definition opt_line :: "string \<Rightarrow> string option \<Rightarrow> string list" where
  "opt_line key v = (case v of None \<Rightarrow> [] | Some t \<Rightarrow> [item_line key t])"

definition nonempty_line :: "string \<Rightarrow> string option \<Rightarrow> string list" where
  "nonempty_line key v = (case v of None \<Rightarrow> [] | Some t \<Rightarrow> if t = [] then [] else [item_line key t])"

definition flag_chunks :: "site \<Rightarrow> string list" where
  "flag_chunks s =
     RCWRITEBOOL (s_nodelete s) ''nodelete''
     @ (if s_checkmoved s
        then (if s_checkrenames s then [item_line ''checkmoved'' ''renames'']
              else [flag_line ''checkmoved''])
        else [])
     @ RCWRITEBOOL (s_nooverwrite s) ''nooverwrite''
     @ RCWRITEBOOL (s_safemode s) ''safe''
     @ RCWRITEBOOL (s_lowercase s) ''lowercase''
     @ RCWRITEBOOL (s_tempupload s) ''tempupload''
     @ RCWRITEBOOL (\<not> s_ftp_pasv_mode s) ''ftp nopasv''
     @ RCWRITEBOOL (s_ftp_echo_quit s) ''ftp showquit''
     @ RCWRITEBOOL (s_ftp_use_cwd s) ''ftp usecwd''
     @ RCWRITEBOOL (s_http_limit s) ''http limit''
     @ RCWRITEBOOL (s_http_use_expect s) ''http expect''"

definition mode_chunks :: "site \<Rightarrow> string list" where
  "mode_chunks s =
     [item_line ''state'' (case s_state_method s of
        state_timesize \<Rightarrow> ''timesize'' | state_checksum \<Rightarrow> ''checksum'')]
     @ [item_line ''permissions'' (case s_perms s of
        sitep_ignore \<Rightarrow> ''ignore'' | sitep_exec \<Rightarrow> ''exec'' | sitep_all \<Rightarrow> ''all'')]
     @ (if s_dirperms s then [item_line ''permissions'' ''dir''] else [])
     @ [item_line ''symlinks'' (case s_symlinks s of
        sitesym_ignore \<Rightarrow> ''ignore'' | sitesym_follow \<Rightarrow> ''follow'' | sitesym_maintain \<Rightarrow> ''maintain'')]"

definition site_chunks :: "site \<Rightarrow> string option list" where
  "site_chunks s =
     [Some (''site '' @ s_name s @ [NL]), map_option (item_line ''server'') (h_hostname (s_server s))]
     @ map Some (nonempty_line ''username'' (h_username (s_server s))
         @ nonempty_line ''password'' (h_password (s_server s)))
     @ [do { remote \<leftarrow> s_remote_root_user s; loc \<leftarrow> s_local_root_user s;
             Some (item_line ''remote'' remote @ item_line ''local'' loc) }]
     @ map Some ([item_line ''protocol'' (s_proto_string s)]
         @ flag_chunks s
         @ (if h_port (s_server s) > 0
            then [item_line ''port'' (show_int (h_port (s_server s)))] else [])
         @ opt_line ''url'' (s_url s)
         @ mode_chunks s
         @ dump_fnlist ''exclude'' (s_excludes s)
         @ dump_fnlist ''ascii'' (s_asciis s)
         @ dump_fnlist ''ignore'' (s_ignores s))"

text \<open>The loop stops at the first \<^verbatim>\<open>fprintf\<close> that fails; \<open>ok n\<close> is the success of the n-th one.\<close>

fun write_chunks :: "(nat \<Rightarrow> bool) \<Rightarrow> nat \<Rightarrow> string option list \<Rightarrow> (bool \<times> string) option" where
  "write_chunks ok n [] = Some (True, [])"
| "write_chunks ok n (c # cs) =
     do { t \<leftarrow> c;
          if \<not> ok n then Some (False, [])
          else do { (done, r) \<leftarrow> write_chunks ok (Suc n) cs; Some (done, t @ r) } }"

record writer =
  w_fopen :: bool
  w_fchmod :: bool
  w_fprintf :: "nat \<Rightarrow> bool"
  w_fclose :: bool

definition rcfile_write :: "writer \<Rightarrow> site list \<Rightarrow> (int \<times> string option) option" where
  "rcfile_write w list_of_sites =
     (if \<not> w_fopen w then Some (RC_OPENFILE, None)
      else if \<not> w_fchmod w then Some (RC_PERMS, Some [])
      else do { (done, t) \<leftarrow> write_chunks (w_fprintf w) 0 (concat (map site_chunks list_of_sites));
                Some (if done then (if w_fclose w then 0 else RC_CORRUPT) else RC_CORRUPT, Some t) })"

end
