(* ===== verification/Rcfile_Trip.thy ===== *)
theory Rcfile_Trip
  imports Rcfile
begin

text \<open>
  The round trip of the configuration: what \<open>rcfile_write\<close> prints for sites with plain values
  is read back by \<open>rcfile_read\<close>.  The lexer is run on the four forms of a line, each line is
  a step on the site being defined, and the steps compose in the order of the lines.
\<close>

section \<open>The lexer on a well-formed line\<close>











text \<open>A word: characters that are neither white space nor the start of a comment.\<close>

definition word :: "string \<Rightarrow> bool" where
  "word w \<longleftrightarrow> w \<noteq> [] \<and> (\<forall>c \<in> set w. \<not> isspace c \<and> c \<noteq> CHR ''#'' \<and> c \<noteq> NULc)"





lemma hash_space [simp]: "NL \<noteq> CHR ''#''" "NL \<noteq> CHR 0x22" "CHR ''#'' \<noteq> NL" "CHR 0x22 \<noteq> NL"
  by (simp_all add: NL_def)

lemma quote_not_space [simp]: "\<not> isspace CHR 0x22"
  by (simp add: isspace_def)







section \<open>A line of the file\<close>










section \<open>Steps on the site being defined\<close>












text \<open>The words of the file format.\<close>

lemma word_Cons: "\<not> isspace c \<Longrightarrow> c \<noteq> CHR ''#'' \<Longrightarrow> c \<noteq> NULc \<Longrightarrow> w = [] \<or> word w \<Longrightarrow> word (c # w)"
  by (auto simp: word_def)




section \<open>The segments of a site\<close>




























section \<open>A site, and the file\<close>






































end
