(* ===== verification/Rcfile_Read.thy ===== *)
theory Rcfile_Read
  imports Rcfile
begin

text \<open>
  \<open>rcfile_read\<close> on any file: the lexer stays inside its buffers, \<^verbatim>\<open>strcat\<close> has room for the
  slash it adds to a root, and every site that is read has roots that end with a slash.
\<close>

section \<open>The bounds of the lexer\<close>

text \<open>After \<open>n\<close> characters; the value is at least a key and a separator behind.\<close>

definition lex_inv :: "nat \<Rightarrow> lexer \<Rightarrow> bool" where
  "lex_inv n l \<longleftrightarrow>
     lx_off l \<le> n \<and> (lx_ptr l = in_val \<longrightarrow> lx_off l + 2 \<le> n) \<and> (lx_state l = 1 \<longrightarrow> 1 \<le> n)
     \<and> lx_last l \<noteq> 1
     \<and> length (lx_key l) = 128 \<and> length (lx_val l) = 128 \<and> length (lx_val2 l) = 128
     \<and> lx_key l ! 127 = NULc \<and> lx_val l ! 127 = NULc \<and> lx_val l ! 126 = NULc
     \<and> lx_val2 l ! 127 = NULc"

lemma lex_to_inv: "lex_inv n l \<Longrightarrow> st \<noteq> 1 \<Longrightarrow> lex_inv (Suc n) (lex_to st l)"
  by (auto simp: lex_inv_def lex_to_def)

lemma lex_quote_inv: "lex_inv n l \<Longrightarrow> lex_inv n (l\<lparr>lx_last := 4\<rparr>)"
  by (auto simp: lex_inv_def)

lemma lex_stay_inv: "lex_inv n l \<Longrightarrow> lex_inv (Suc n) l"
  by (auto simp: lex_inv_def)

lemma lex_val_inv: "lex_inv n l \<Longrightarrow> lx_state l = 1 \<Longrightarrow> lex_inv (Suc n) (lex_to 2 (lex_into in_val l))"
  by (auto simp: lex_inv_def lex_to_def lex_into_def)

lemma lex_val2_inv: "lex_inv n l \<Longrightarrow> lex_inv (Suc n) (lex_to 5 (lex_into in_val2 l))"
  by (auto simp: lex_inv_def lex_to_def lex_into_def)

lemma lex_put_inv:
  assumes "lex_inv n l" "n < 127"
  shows "\<exists>l'. lex_put c l = Some l' \<and> lex_inv (Suc n) l' \<and> lx_state l' = lx_state l
    \<and> lx_last l' = lx_last l"
  using assms
  by (cases "lx_ptr l") (auto simp: lex_inv_def lex_put_def LINESIZE_def)

lemma lex_put_to_inv:
  assumes "lex_inv n l" "n < 127"
  shows "\<exists>l'. map_option (lex_to st) (lex_put c l) = Some l' \<and> lex_inv (Suc n) l'"
  using lex_put_inv [OF assms, of c] by (auto simp: lex_inv_def lex_to_def)

lemma lex_char_inv:
  assumes "lex_inv n l" "n < 127"
  shows "\<exists>l'. lex_char c l = Some l' \<and> lex_inv (Suc n) l'"
proof -
  define ok where "ok r \<longleftrightarrow> (\<exists>l'. r = Some l' \<and> lex_inv (Suc n) l')" for r
  have put: "ok (lex_put c l)" "ok (map_option (lex_to st) (lex_put c l))" for st
    using lex_put_inv [OF assms, of c] lex_put_to_inv [OF assms, of st c] by (auto simp: ok_def)
  have stay: "ok (Some l)" and move: "st \<noteq> 1 \<Longrightarrow> ok (Some (lex_to st l))" for st
    using lex_stay_inv [OF assms(1)] lex_to_inv [OF assms(1)] by (simp_all add: ok_def)
  have quote: "ok (Some (lex_to 9 (l\<lparr>lx_last := 4\<rparr>)))"
    and val: "lx_state l = 1 \<Longrightarrow> ok (Some (lex_to 2 (lex_into in_val l)))"
    and val2: "ok (Some (lex_to 5 (lex_into in_val2 l)))"
    using lex_to_inv [OF lex_quote_inv [OF assms(1)], of 9] lex_val_inv [OF assms(1)]
      lex_val2_inv [OF assms(1)]
    by (simp_all add: ok_def)
  have "ok (lex_char c l)"
    unfolding lex_char_def Let_def
    by (intro if_split [of ok, THEN iffD2] conjI impI put stay move quote val val2) simp_all
  then show ?thesis by (simp add: ok_def)
qed

lemma lex_chars_inv:
  "lex_inv n l \<Longrightarrow> n + length cs \<le> 127 \<Longrightarrow> \<exists>l'. lex_chars cs l = Some l' \<and> lex_inv (n + length cs) l'"
proof (induction cs arbitrary: n l)
  case (Cons c cs)
  obtain m where m: "lex_char c l = Some m" "lex_inv (Suc n) m"
    using lex_char_inv [of n l c] Cons.prems by auto
  then show ?case using Cons.IH [OF m(2)] Cons.prems by simp
qed simp

lemma lex_start_inv: "last_state \<noteq> 1 \<Longrightarrow> lex_inv 0 (lex_start last_state)"
  by (simp add: lex_inv_def lex_start_def LINESIZE_def)

lemma buffer_string_bound:
  assumes "k < length b" "b ! k = NULc"
  shows "\<exists>t. buffer_string b = Some t \<and> length t \<le> k"
proof -
  have "NULc \<in> set b" using assms by (metis nth_mem)
  moreover have "length (c_string b) \<le> k"
    unfolding c_string_def using assms
    by (metis (mono_tags, lifting) leI nth_length_takeWhile set_takeWhileD takeWhile_nth nth_mem)
  ultimately show ?thesis by (simp add: buffer_string_def)
qed

section \<open>The sites that are read\<close>

text \<open>What no key of the rcfile touches, and what a root given by the user looks like.\<close>

definition untouched :: "site \<Rightarrow> bool" where
  "untouched s \<longleftrightarrow> s_files s = [] \<and> s_numnew s = 0 \<and> s_numchanged s = 0 \<and> s_numignored s = 0
     \<and> s_numdeleted s = 0 \<and> s_nummoved s = 0 \<and> s_numunchanged s = 0 \<and> s_totalnew s = 0
     \<and> s_totalchanged s = 0 \<and> \<not> s_local_is_different s \<and> \<not> s_remote_is_different s
     \<and> s_remote_root s = None \<and> s_local_root s = None \<and> s_driver s = None"

definition root_ok :: "bool \<Rightarrow> string option \<Rightarrow> bool" where
  "root_ok rel v \<longleftrightarrow>
     pred_option (\<lambda>r. r \<noteq> [] \<and> last r = CHR ''/'' \<and> (rel \<longrightarrow> 2 \<le> length r)) v"

definition conf_ok :: "site \<Rightarrow> bool" where
  "conf_ok s \<longleftrightarrow> untouched s \<and> root_ok (s_remote_isrel s) (s_remote_root_user s)
     \<and> root_ok (s_local_isrel s) (s_local_root_user s)"

definition named :: "string \<Rightarrow> site \<Rightarrow> bool" where
  "named copypath s \<longleftrightarrow> s_infofile s = copypath @ s_name s \<and> s_certfile s = copypath @ s_name s @ ''.crt''"

definition keeps :: "site \<Rightarrow> site \<Rightarrow> bool" where
  "keeps s t \<longleftrightarrow> (conf_ok s \<longrightarrow> conf_ok t) \<and> s_name t = s_name s
     \<and> s_infofile t = s_infofile s \<and> s_certfile t = s_certfile s"

lemma keeps_refl [simp]: "keeps s s"
  by (simp add: keeps_def)

lemmas conf_defs = keeps_def conf_ok_def untouched_def upd_server_def upd_proxy_def

lemma rc_flag_keeps: "keeps s (snd (rc_flag key s)) \<and> fst (rc_flag key s) \<in> {0, RC_CORRUPT}"
  by (simp add: rc_flag_def conf_defs)

lemma rc_choice_keeps: "keeps s (snd (rc_choice key val s)) \<and> fst (rc_choice key val s) \<in> {0, RC_CORRUPT}"
  by (simp add: rc_choice_def conf_defs)

lemma protocol_value_keeps: "keeps s ((protocol_value val s)\<lparr>s_proto_string := val\<rparr>)"
  by (simp add: protocol_value_def conf_defs)

lemma strcat_slash_some:
  assumes "val \<noteq> []" "length val \<le> 126"
  shows "\<exists>v. strcat_slash val = Some v \<and> root_ok (snd (root_value val rel)) (Some v)"
proof (cases "last val = CHR ''/''")
  case True
  then show ?thesis using assms
    by (cases val rule: list.exhaust; cases "tl val")
      (auto simp: strcat_slash_def root_ok_def root_value_def)
next
  case False
  then show ?thesis using assms
    by (cases val) (auto simp: strcat_slash_def root_ok_def root_value_def LINESIZE_def)
qed

definition sound :: "site \<Rightarrow> (int \<times> site) option \<Rightarrow> bool" where
  "sound s r \<longleftrightarrow> (\<exists>ret t. r = Some (ret, t) \<and> ret \<in> {0, RC_CORRUPT} \<and> keeps s t)"

lemma sound_Some: "keeps s t \<Longrightarrow> sound s (Some (0, t))"
  by (simp add: sound_def)

lemma root_value_ret: "fst (root_value val rel) \<in> {0, RC_CORRUPT}"
  by (simp add: root_value_def)

lemma rc_value_sound:
  assumes "val \<noteq> []" "length val \<le> 126"
  shows "sound s (rc_value key val s)"
proof -
  obtain v where v: "strcat_slash val = Some v"
    and ok: "root_ok (snd (root_value val rel)) (Some v)" for rel
    using strcat_slash_some [OF assms] by (metis option.inject)
  have remote: "sound s (do { val' \<leftarrow> strcat_slash val;
      let (ret, rel) = root_value val (s_remote_isrel s) in
      Some (ret, s\<lparr>s_remote_isrel := rel, s_remote_root_user := Some val'\<rparr>) })"
    using ok [of "s_remote_isrel s"] root_value_ret [of val "s_remote_isrel s"]
    by (auto simp: v sound_def conf_defs case_prod_beta)
  have loc: "sound s (do { val' \<leftarrow> strcat_slash val;
      let (ret, rel) = root_value val (s_local_isrel s) in
      Some (ret, s\<lparr>s_local_isrel := rel, s_local_root_user := Some val'\<rparr>) })"
    using ok [of "s_local_isrel s"] root_value_ret [of val "s_local_isrel s"]
    by (auto simp: v sound_def conf_defs case_prod_beta)
  have choice: "sound s (Some (rc_choice key val s))"
    using rc_choice_keeps [of s key val] by (auto simp: sound_def prod_eq_iff)
  show ?thesis
    unfolding rc_value_def
    by (intro if_split [of "sound s", THEN iffD2] conjI impI remote loc choice sound_Some
        protocol_value_keeps) (simp_all add: conf_defs)
qed

definition reader_ok :: "string \<Rightarrow> reader \<Rightarrow> bool" where
  "reader_ok copypath rd \<longleftrightarrow>
     conf_ok (rd_default rd) \<and> (\<forall>s \<in> set (rd_sites rd). conf_ok s \<and> named copypath s)
     \<and> (rd_this rd = this_last \<longrightarrow> rd_sites rd \<noteq> []) \<and> rd_last_state rd \<noteq> 1"

lemma this_value_keeps:
  assumes "reader_ok copypath rd" "keeps (this_value rd) t"
  shows "reader_ok copypath (set_this t rd)"
proof (cases "rd_this rd")
  case this_last
  then have ne: "rd_sites rd \<noteq> []" using assms(1) by (simp add: reader_ok_def)
  then have "last (rd_sites rd) \<in> set (rd_sites rd)" by simp
  then have "conf_ok t \<and> named copypath t"
    using assms this_last by (auto simp: reader_ok_def this_value_def keeps_def named_def)
  moreover have "set (butlast (rd_sites rd)) \<subseteq> set (rd_sites rd)"
    by (auto dest: in_set_butlastD)
  ultimately show ?thesis
    using assms(1) this_last by (auto simp: reader_ok_def set_this_def)
qed (use assms in \<open>auto simp: reader_ok_def set_this_def this_value_def keeps_def\<close>)

lemma new_site_ok: "conf_ok d \<Longrightarrow> conf_ok (new_site copypath val d) \<and> named copypath (new_site copypath val d)"
  by (simp add: new_site_def conf_ok_def untouched_def named_def)

definition reads :: "string \<Rightarrow> (int \<times> reader) option \<Rightarrow> bool" where
  "reads copypath r \<longleftrightarrow> (\<exists>ret rd. r = Some (ret, rd) \<and> ret \<in> {0, RC_CORRUPT} \<and> reader_ok copypath rd)"

lemma reads_Some: "ret \<in> {0, RC_CORRUPT} \<Longrightarrow> reader_ok copypath rd \<Longrightarrow> reads copypath (Some (ret, rd))"
  by (simp add: reads_def)

lemma rc_item_reads:
  assumes "reader_ok copypath rd" "length val \<le> 126"
  shows "reads copypath (rc_item copypath key val val2 rd)"
proof -
  have flag: "reads copypath (let (ret, s) = rc_flag key (this_value rd) in Some (ret, set_this s rd))"
    using rc_flag_keeps [of "this_value rd" key] this_value_keeps [OF assms(1)]
    by (auto simp: case_prod_beta intro!: reads_Some)
  have val: "reads copypath (do { (ret, s) \<leftarrow> rc_value key val (this_value rd);
      Some (ret, set_this s rd) })" if "val \<noteq> []"
    using rc_value_sound [OF that assms(2), of "this_value rd" key] this_value_keeps [OF assms(1)]
    by (auto simp: sound_def intro!: reads_Some)
  have default: "reader_ok copypath (rd\<lparr>rd_this := this_default\<rparr>)"
    and new: "reader_ok copypath (rd\<lparr>rd_sites := rd_sites rd @ [new_site copypath val (rd_default rd)],
      rd_this := this_last\<rparr>)"
    using assms(1) new_site_ok by (auto simp: reader_ok_def)
  show ?thesis
    unfolding rc_item_def
    by (intro if_split [of "reads copypath", THEN iffD2] conjI impI flag val reads_Some
        default new assms(1)) simp_all
qed

lemma rc_line_reads:
  assumes "reader_ok copypath rd" "length buf < LINESIZE"
  shows "reads copypath (rc_line copypath buf rd)"
proof -
  have "length (c_string buf) \<le> 127"
    using assms(2) c_string_length [of buf] by (simp add: LINESIZE_def)
  then obtain l where l: "lex_chars (c_string buf) (lex_start (rd_last_state rd)) = Some l"
    and inv: "lex_inv (length (c_string buf)) l"
    using lex_chars_inv [OF lex_start_inv, of "rd_last_state rd" "c_string buf"] assms(1)
    by (auto simp: reader_ok_def)
  obtain key val val2 where
    b: "buffer_string (lx_key l) = Some key" "buffer_string (lx_val l) = Some val"
      "buffer_string (lx_val2 l) = Some val2" and v: "length val \<le> 126"
    using buffer_string_bound [of 127 "lx_key l"] buffer_string_bound [of 126 "lx_val l"]
      buffer_string_bound [of 127 "lx_val2 l"] inv
    by (auto simp: lex_inv_def)
  have "reader_ok copypath (rd\<lparr>rd_last_state := lx_last l, rd_linenum := rd_linenum rd + 1,
      rd_err := Some (takeWhile (\<lambda>c. c \<noteq> NL) (c_string buf))\<rparr>)"
    using assms(1) inv by (simp add: reader_ok_def lex_inv_def)
  from rc_item_reads [OF this v] show ?thesis
    by (simp add: rc_line_def l b)
qed

lemma rc_lines_reads:
  "reader_ok copypath rd \<Longrightarrow> (\<forall>buf \<in> set bufs. length buf < LINESIZE) \<Longrightarrow>
   reads copypath (rc_lines copypath bufs rd)"
proof (induction bufs arbitrary: rd)
  case (Cons buf bufs)
  then obtain ret rd' where "rc_line copypath buf rd = Some (ret, rd')"
    and r: "ret \<in> {0, RC_CORRUPT}" "reader_ok copypath rd'"
    using rc_line_reads [of copypath rd buf] by (auto simp: reads_def)
  then show ?case using Cons.IH [OF r(2)] Cons.prems r by (auto intro: reads_Some)
qed (simp add: reads_Some)

lemma rc_start_ok: "reader_ok copypath rc_start"
  by (simp add: reader_ok_def rc_start_def default_site_def zero_site_def conf_ok_def untouched_def
      root_ok_def)

definition read_ok :: "string \<Rightarrow> (int \<times> site list \<times> int \<times> string option) option \<Rightarrow> bool" where
  "read_ok copypath r \<longleftrightarrow>
     (case r of
        None \<Rightarrow> False
      | Some (ret, sites, linenum, err) \<Rightarrow>
          ret \<in> {0, RC_OPENFILE, RC_CORRUPT} \<and> list_all (\<lambda>s. conf_ok s \<and> named copypath s) sites)"

lemma rcfile_read_ok: "read_ok copypath (rcfile_read copypath rcfile linenum)"
proof (cases rcfile)
  case (Inr contents)
  have "\<forall>buf \<in> set (fgets_lines LINESIZE contents). length buf < LINESIZE"
    by (simp add: fgets_lines_length)
  from rc_lines_reads [OF rc_start_ok this, of copypath] show ?thesis
    by (auto simp: rcfile_read_def read_ok_def reads_def reader_ok_def list_all_iff Inr)
qed (simp add: rcfile_read_def read_ok_def)

text \<open>C34.  Whatever bytes the rcfile holds, \<^verbatim>\<open>rcfile_read\<close> never writes outside its buffers of 128
  bytes, not even with the slash it appends to a root, and returns 0, RC_OPENFILE or RC_CORRUPT;
  every site in the list has roots that end with a slash, at least two characters long where they
  are relative, no files, and the storage and certificate files of its name.\<close>
theorem rcfile_read_bounds:
  "\<exists>ret sites lines err. rcfile_read copypath rcfile linenum = Some (ret, sites, lines, err)
     \<and> ret \<in> {0, RC_OPENFILE, RC_CORRUPT} \<and> list_all (\<lambda>s. conf_ok s \<and> named copypath s) sites"
  using rcfile_read_ok [of copypath rcfile linenum]
  by (auto simp: read_ok_def split: option.splits)

end
