(* ===== verification/Rcfile_Verify.thy ===== *)
theory Rcfile_Verify
  imports Rcfile_Read Site_Update_Inv
begin

text \<open>
  From the configuration to an update: a site that \<open>rcfile_read\<close> delivers and \<open>rcfile_verify\<close>
  accepts has a driver and both roots, and is in the state that \<open>site_update\<close> starts from.
\<close>

section \<open>When a site is accepted\<close>

definition protocol_accepts :: "site \<Rightarrow> bool" where
  "protocol_accepts s \<longleftrightarrow>
     (case s_protocol s of
        siteproto_ftp \<Rightarrow> s_symlinks s \<noteq> sitesym_maintain
      | siteproto_dav \<Rightarrow> \<not> s_remote_isrel s \<and> s_perms s \<noteq> sitep_all \<and> \<not> s_dirperms s
          \<and> s_symlinks s \<noteq> sitesym_maintain
      | siteproto_unknown \<Rightarrow> False
      | _ \<Rightarrow> True)"

definition driver_of :: "site \<Rightarrow> driver_name option" where
  "driver_of s =
     (case s_protocol s of
        siteproto_ftp \<Rightarrow> Some ftp_driver | siteproto_dav \<Rightarrow> Some dav_driver
      | siteproto_rsh \<Rightarrow> Some rsh_driver | siteproto_sftp \<Rightarrow> Some sftp_driver
      | siteproto_unknown \<Rightarrow> None)"

definition options_accepted :: "site \<Rightarrow> bool" where
  "options_accepted s \<longleftrightarrow>
     (s_checkrenames s \<longrightarrow> s_state_method s = state_checksum)
     \<and> h_hostname (s_server s) \<noteq> None \<and> s_remote_root_user s \<noteq> None \<and> s_local_root_user s \<noteq> None
     \<and> \<not> (s_safemode s \<and> (s_nooverwrite s \<or> s_tempupload s))"

text \<open>The directories that the roots of the user stand for, with \<open>~\<close> the home directory.\<close>

definition local_dir_of :: "string \<Rightarrow> site \<Rightarrow> string option" where
  "local_dir_of home s =
     map_option (\<lambda>l. if s_local_isrel s then home @ tl l else l) (s_local_root_user s)"

definition remote_dir_of :: "site \<Rightarrow> string option" where
  "remote_dir_of s =
     map_option (\<lambda>r. if s_remote_isrel s then drop 2 r else r) (s_remote_root_user s)"

definition accepted :: "rc_env \<Rightarrow> string \<Rightarrow> site \<Rightarrow> bool" where
  "accepted e home s \<longleftrightarrow> protocol_accepts s \<and> options_accepted s
     \<and> pred_option (\<lambda>d. e_stat e (d @ ''.'')) (local_dir_of home s)"

section \<open>The steps of rcfile_verify\<close>

lemma verify_protocol_result:
  "fst (verify_protocol s) = 0 \<longleftrightarrow> protocol_accepts s"
  "snd (verify_protocol s) = s\<lparr>s_driver := (if s_protocol s = siteproto_unknown then s_driver s else driver_of s)\<rparr>"
  by (cases "s_protocol s"; simp add: verify_protocol_def protocol_accepts_def driver_of_def)+

lemma lookup_password_result:
  assumes "list_all usable (e_netrc_list e)"
  shows "\<exists>p. lookup_password e s = Some (upd_server (\<lambda>h. h\<lparr>h_password := p\<rparr>) s)"
proof -
  have same: "s = upd_server (\<lambda>h. h\<lparr>h_password := h_password (s_server s)\<rparr>) s"
    by (simp add: upd_server_def)
  show ?thesis
  proof (cases "h_hostname (s_server s) = None \<or> h_username (s_server s) = None
      \<or> h_password (s_server s) \<noteq> None \<or> \<not> e_havenetrc e")
    case True
    then have "lookup_password e s = Some s"
      by (auto simp: lookup_password_def split: option.split)
    then show ?thesis using same by auto
  next
    case False
    then obtain host user where h: "h_hostname (s_server s) = Some host"
      "h_username (s_server s) = Some user" "h_password (s_server s) = None" "e_havenetrc e"
      by auto
    moreover obtain pass where "rc_get_netrc_password (e_netrc_list e) host user = Some pass"
      using password_usable [OF assms, of host user] by auto
    ultimately show ?thesis
      using same by (cases pass) (auto simp: lookup_password_def)
  qed
qed

lemma verify_options_result:
  assumes "list_all usable (e_netrc_list e)" "e_home e = Some home"
  shows "\<exists>ret p. verify_options e s = Some (ret, upd_server (\<lambda>h. h\<lparr>h_password := p\<rparr>) s)
    \<and> (ret = 0 \<longleftrightarrow> options_accepted s)"
proof -
  have same: "s = upd_server (\<lambda>h. h\<lparr>h_password := h_password (s_server s)\<rparr>) s"
    by (simp add: upd_server_def)
  obtain p where p: "lookup_password e s = Some (upd_server (\<lambda>h. h\<lparr>h_password := p\<rparr>) s)"
    using lookup_password_result [OF assms(1)] by blast
  show ?thesis
  proof (cases "s_checkrenames s \<and> s_state_method s \<noteq> state_checksum \<or> h_hostname (s_server s) = None")
    case True
    then show ?thesis
      using same by (intro exI [of _ "if s_checkrenames s \<and> s_state_method s \<noteq> state_checksum
          then SITE_NORENAMES else SITE_NOSERVER"] exI [of _ "h_password (s_server s)"])
        (auto simp: verify_options_def options_accepted_def)
  next
    case False
    then show ?thesis
      by (auto simp: verify_options_def options_accepted_def p assms(2) upd_server_def)
  qed
qed

lemma set_roots_result:
  assumes "e_home e = Some home" "s_remote_root_user s = Some r" "s_local_root_user s = Some l"
    and "root_ok (s_remote_isrel s) (Some r)" "root_ok (s_local_isrel s) (Some l)"
  shows "set_roots e r l s = Some (s\<lparr>s_remote_root := remote_dir_of s, s_local_root := local_dir_of home s\<rparr>)"
  using assms
  by (auto simp: set_roots_def skip2_def root_ok_def remote_dir_of_def local_dir_of_def)

lemma client_cert_result:
  "e_home e = Some home \<Longrightarrow> \<exists>c. client_cert_home e s = Some (s\<lparr>s_client_cert := c\<rparr>)"
  by (cases "s_client_cert s")
    (auto simp: client_cert_home_def intro: exI [of _ "s_client_cert s"])

lemma default_ports_result:
  "\<exists>p q. default_ports e d s = upd_proxy (\<lambda>h. h\<lparr>h_port := p\<rparr>) (upd_server (\<lambda>h. h\<lparr>h_port := q\<rparr>) s)
     \<and> q = (if h_port (s_server s) = 0 then e_server_port e d s else h_port (s_server s))"
  by (cases "h_port (s_proxy s) = 0")
    (auto simp: default_ports_def upd_server_def upd_proxy_def Let_def
      intro: exI [of _ "h_port (s_proxy s)"])

text \<open>What acceptance leaves of the site: the options that neither the server, the driver, the
  roots nor the certificate are part of.\<close>

definition settings :: "site \<Rightarrow> site" where
  "settings s = s\<lparr>s_driver := None, s_remote_root := None, s_local_root := None,
     s_client_cert := None, s_server := (s_server s)\<lparr>h_password := None, h_port := 0\<rparr>,
     s_proxy := (s_proxy s)\<lparr>h_port := 0\<rparr>\<rparr>"

lemma settings_symlinks: "settings t = settings s \<Longrightarrow> s_symlinks t = s_symlinks s"
  by (drule arg_cong [of _ _ s_symlinks]) (simp add: settings_def)

definition verified :: "rc_env \<Rightarrow> string \<Rightarrow> site \<Rightarrow> site \<Rightarrow> bool" where
  "verified e home s t \<longleftrightarrow>
     ready t \<and> s_driver t = driver_of s \<and> s_remote_root t = remote_dir_of s
     \<and> s_local_root t = local_dir_of home s \<and> settings t = settings s"

lemma untouched_inv: "untouched s \<Longrightarrow> site_inv s"
  by (rule zero_site_inv) (simp_all add: untouched_def)

lemma conf_ok_verify:
  assumes conf: "conf_ok s" and env: "list_all usable (e_netrc_list e)" "e_home e = Some home"
  shows "\<exists>ret t. rcfile_verify e s = Some (ret, t) \<and> (ret = 0 \<longleftrightarrow> accepted e home s)
    \<and> (ret = 0 \<longrightarrow> verified e home s t)"
proof (cases "protocol_accepts s")
  case False
  then show ?thesis
    using verify_protocol_result(1) [of s]
    by (cases "verify_protocol s") (auto simp: rcfile_verify_def accepted_def)
next
  case True
  define s1 where "s1 = s\<lparr>s_driver := driver_of s\<rparr>"
  have p: "verify_protocol s = (0, s1)"
    using True verify_protocol_result [of s]
    by (simp add: prod_eq_iff s1_def protocol_accepts_def split: site_protocol_modes.splits)
  obtain ret q where o: "verify_options e s1 = Some (ret, upd_server (\<lambda>h. h\<lparr>h_password := q\<rparr>) s1)"
    and ret: "ret = 0 \<longleftrightarrow> options_accepted s1"
    using verify_options_result [OF env] by blast
  have same: "options_accepted s1 = options_accepted s"
    by (simp add: options_accepted_def s1_def)
  show ?thesis
  proof (cases "ret = 0")
    case False
    then show ?thesis
      using p o ret same by (simp add: rcfile_verify_def accepted_def)
  next
    case opt: True
    define s2 where "s2 = upd_server (\<lambda>h. h\<lparr>h_password := q\<rparr>) s1"
    obtain r l where rl: "s_remote_root_user s = Some r" "s_local_root_user s = Some l"
      using opt ret by (auto simp: options_accepted_def s1_def)
    define s3 where "s3 = s2\<lparr>s_remote_root := remote_dir_of s, s_local_root := local_dir_of home s\<rparr>"
    have s3: "set_roots e r l s2 = Some s3"
      using set_roots_result [OF env(2), of s2 r l] conf rl
      by (simp add: s2_def s1_def s3_def upd_server_def conf_ok_def remote_dir_of_def local_dir_of_def)
    obtain root where root: "local_dir_of home s = Some root"
      using rl by (simp add: local_dir_of_def)
    obtain c where c: "client_cert_home e s3 = Some (s3\<lparr>s_client_cert := c\<rparr>)"
      using client_cert_result [OF env(2)] by blast
    obtain d where d: "driver_of s = Some d"
      using True by (auto simp: protocol_accepts_def driver_of_def split: site_protocol_modes.splits)
    obtain a b where ab: "default_ports e d (s3\<lparr>s_client_cert := c\<rparr>)
      = upd_proxy (\<lambda>h. h\<lparr>h_port := a\<rparr>) (upd_server (\<lambda>h. h\<lparr>h_port := b\<rparr>) (s3\<lparr>s_client_cert := c\<rparr>))"
      using default_ports_result by blast
    let ?t = "upd_proxy (\<lambda>h. h\<lparr>h_port := a\<rparr>) (upd_server (\<lambda>h. h\<lparr>h_port := b\<rparr>) (s3\<lparr>s_client_cert := c\<rparr>))"
    have run: "rcfile_verify e s =
        (if e_stat e (root @ ''.'') then Some (0, ?t) else Some (SITE_ACCESSLOCALDIR, s3))"
      using p o opt rl s3 c d ab root
      by (simp add: rcfile_verify_def s2_def [symmetric])
        (simp add: s2_def s1_def s3_def upd_server_def)
    have acc: "accepted e home s \<longleftrightarrow> e_stat e (root @ ''.'')"
      using True opt ret root by (simp add: accepted_def options_accepted_def s1_def)
    have "untouched s" using conf by (simp add: conf_ok_def)
    then have "site_inv ?t" and "s_files ?t = []"
      by (auto intro!: zero_site_inv simp: s3_def s2_def s1_def untouched_def upd_server_def upd_proxy_def)
    then have "ready ?t"
      using rl by (simp add: ready_def s3_def s2_def s1_def upd_server_def upd_proxy_def
          remote_dir_of_def local_dir_of_def get_file_def)
    then have "verified e home s ?t"
      by (simp add: verified_def settings_def s3_def s2_def s1_def upd_server_def upd_proxy_def)
    then show ?thesis using run acc by simp
  qed
qed

section \<open>The properties\<close>

text \<open>C35.  A site read from any rcfile, where \<^verbatim>\<open>$HOME\<close> is set and the accounts are those of any
  netrc: \<^verbatim>\<open>rcfile_verify\<close> never dereferences NULL, and returns 0 exactly where the conditions that it
  checks hold (those of the protocol, of \<open>options_accepted\<close>, and a local directory that can be
  stat'ed).  Then the site has the driver of its protocol and the roots the user meant, every other
  setting is as it was read, and the files list is ready for \<^verbatim>\<open>site_update\<close>.  With FTP and WebDAV
  the site does not maintain symbolic links, so an update cannot crash; for rsh and SFTP the check
  of \<^verbatim>\<open>symlinks maintain\<close> is missing (\<open>rsh_maintain_crashes\<close>).\<close>
theorem rcfile_verify_correct:
  assumes "rcfile_read copypath rcfile n = Some (ret, sites, lines, err)"
    and "s \<in> set sites" "e_home e = Some home" "e_netrc_list e = parse_netrc netrc"
  shows "\<exists>ret t. rcfile_verify e s = Some (ret, t) \<and> (ret = 0 \<longleftrightarrow> accepted e home s)
    \<and> (ret = 0 \<longrightarrow> ready t \<and> s_driver t = driver_of s \<and> s_remote_root t = remote_dir_of s
        \<and> s_local_root t = local_dir_of home s \<and> settings t = settings s)
    \<and> (ret = 0 \<and> s_protocol s \<in> {siteproto_ftp, siteproto_dav}
        \<longrightarrow> s_symlinks t \<noteq> sitesym_maintain \<and> (\<forall>drv os r. r_site r = t \<longrightarrow> site_update drv os r \<noteq> None))"
proof -
  have "conf_ok s"
    using rcfile_read_ok [of copypath rcfile n] assms(1,2)
    by (auto simp: read_ok_def list_all_iff)
  moreover have "list_all usable (e_netrc_list e)"
    by (simp add: assms(4) parse_netrc_usable)
  ultimately obtain ret' t where v: "rcfile_verify e s = Some (ret', t)" "ret' = 0 \<longleftrightarrow> accepted e home s"
      "ret' = 0 \<Longrightarrow> ready t \<and> s_driver t = driver_of s \<and> s_remote_root t = remote_dir_of s
        \<and> s_local_root t = local_dir_of home s \<and> settings t = settings s"
    using conf_ok_verify assms(3) unfolding verified_def by blast
  have "s_symlinks t \<noteq> sitesym_maintain \<and> (\<forall>drv os r. r_site r = t \<longrightarrow> site_update drv os r \<noteq> None)"
    if "ret' = 0" "s_protocol s \<in> {siteproto_ftp, siteproto_dav}"
  proof -
    have "s_symlinks s \<noteq> sitesym_maintain"
      using that v(2) by (auto simp: accepted_def protocol_accepts_def)
    moreover have "s_symlinks t = s_symlinks s" using settings_symlinks v(3) that(1) by blast
    ultimately show ?thesis using site_update_result v(3) that(1) by fastforce
  qed
  then show ?thesis using v by blast
qed

text \<open>A small configuration, with a local directory relative to the home directory.\<close>

definition example_rcfile :: string where
  "example_rcfile =
     ''site a'' @ [NL] @ ''server h'' @ [NL] @ ''remote /r'' @ [NL] @ ''local ~/l'' @ [NL]"

definition example_configured :: site where
  "example_configured = (new_site ''/c/'' ''a'' default_site)\<lparr>
     s_server := zero_host\<lparr>h_hostname := Some ''h''\<rparr>,
     s_remote_root_user := Some ''/r/'', s_remote_isrel := False,
     s_local_root_user := Some ''~/l/'', s_local_isrel := True\<rparr>"

definition example_env :: "string option \<Rightarrow> rc_env" where
  "example_env home = \<lparr>e_home = home, e_havenetrc = False, e_netrc_list = [],
     e_stat = (\<lambda>_. True), e_server_port = (\<lambda>_ _. 21), e_proxy_port = (\<lambda>_ _. 0)\<rparr>"

lemma example_rcfile_read:
  "rcfile_read ''/c/'' (Inr example_rcfile) 0 = Some (0, [example_configured], 4, Some ''local ~/l'')"
  by code_simp

theorem rcfile_verify_correct_witness:
  "\<exists>ret t. rcfile_verify (example_env (Some ''/home'')) example_configured = Some (ret, t)
    \<and> (ret = 0 \<longleftrightarrow> accepted (example_env (Some ''/home'')) ''/home'' example_configured)
    \<and> (ret = 0 \<longrightarrow> ready t \<and> s_driver t = driver_of example_configured
        \<and> s_remote_root t = remote_dir_of example_configured
        \<and> s_local_root t = local_dir_of ''/home'' example_configured
        \<and> settings t = settings example_configured)
    \<and> (ret = 0 \<and> s_protocol example_configured \<in> {siteproto_ftp, siteproto_dav}
        \<longrightarrow> s_symlinks t \<noteq> sitesym_maintain \<and> (\<forall>drv os r. r_site r = t \<longrightarrow> site_update drv os r \<noteq> None))"
  by (rule rcfile_verify_correct [OF example_rcfile_read, where netrc = None])
    (simp_all add: example_env_def parse_netrc_def)

text \<open>Without \<^verbatim>\<open>$HOME\<close>, a site whose local root is relative to it makes \<^verbatim>\<open>rcfile_verify\<close> hand a
  null pointer to \<^verbatim>\<open>ne_concat\<close>: the check that should return SITE_NOLOCALREL looks at
  \<^verbatim>\<open>local_root\<close>, which is not set yet, instead of \<^verbatim>\<open>local_isrel\<close>.\<close>
theorem missing_home_crashes:
  "rcfile_read ''/c/'' (Inr example_rcfile) 0 = Some (0, [example_configured], 4, Some ''local ~/l'')
   \<and> rcfile_verify (example_env None) example_configured = None
   \<and> \<not> (\<exists>t. rcfile_verify (example_env None) example_configured = Some (SITE_NOLOCALREL, t))"
proof -
  have "rcfile_verify (example_env None) example_configured = None" by code_simp
  then show ?thesis using example_rcfile_read by simp
qed

end
