(* ===== verification/Ls_Parser.thy ===== *)
theory Ls_Parser
  imports Site_Types C_Number C_Text "HOL-Library.Sublist"
begin

text \<open>
  The parser of \<^verbatim>\<open>ls -l\<close> output that the FTP and rsh drivers share: \<^verbatim>\<open>src/lsparser.c\<close>, with
  \<^verbatim>\<open>ne_token\<close> and \<^verbatim>\<open>ne_shave\<close> of \<^verbatim>\<open>lib/neon/ne_string.c\<close>.  A line is the C string that is left
  of it, and a step of the parser beyond its NUL is \<^const>\<open>None\<close>.
\<close>

section \<open>Strings of neon\<close>

definition ne_token :: "string \<Rightarrow> char \<Rightarrow> string \<times> string option" where
  "ne_token str separator =
     (if separator \<in> set str
      then (takeWhile (\<lambda>c. c \<noteq> separator) str, Some (tl (dropWhile (\<lambda>c. c \<noteq> separator) str)))
      else (str, None))"

definition ne_shave :: "string \<Rightarrow> string \<Rightarrow> string" where
  "ne_shave str whitespace =
     rev (dropWhile (\<lambda>c. c \<in> set whitespace)
       (rev (dropWhile (\<lambda>c. c \<in> set whitespace) str)))"

section \<open>The parser\<close>

record ls_context =
  lc_after_blank :: bool
  lc_topdir :: string
  lc_curdir :: string
  lc_error :: "string option"

datatype ls_result = ls_directory | ls_file | ls_nothing | ls_error

record ls_entry =
  lf_mode :: mode_t
  lf_size :: int
  lf_name :: string

text \<open>\<open>ls_init\<close> looks at the last character of the directory: an empty one has none.\<close>

definition ls_init :: "string \<Rightarrow> ls_context option" where
  "ls_init dir =
     (if dir = [] then None
      else Some \<lparr>lc_after_blank = False,
             lc_topdir = (if last dir = CHR ''/'' then butlast dir else dir),
             lc_curdir = [], lc_error = None\<rparr>)"

definition drop_prefix :: "string \<Rightarrow> string \<Rightarrow> string" where
  "drop_prefix p line = (if strncmp_eq line p (length p) then drop (length p) line else line)"

definition drive_spec :: "string \<Rightarrow> bool" where
  "drive_spec line \<longleftrightarrow> length line > 3 \<and> isalpha (line ! 0) \<and> line ! 1 = CHR '':'' \<and> line ! 2 = CHR ''/''"

definition parse_directory :: "ls_context \<Rightarrow> string \<Rightarrow> ls_result \<times> ls_context" where
  "parse_directory ctx line =
     (let line = (if drive_spec line then drop 2 line else line);
          line = drop_prefix (lc_topdir ctx) line;
          line = (if line = ''.:'' then tl line else line);
          line = drop_prefix ''./'' line;
          line = dropWhile (\<lambda>c. c = CHR ''/'') line
      in (ls_nothing,
          ctx\<lparr>lc_curdir := (if length line > 1 then butlast line @ ''/'' else [])\<rparr>))"

definition skip_field :: "string \<Rightarrow> string" where
  "skip_field line =
     dropWhile (\<lambda>c. c = CHR '' '') (dropWhile (\<lambda>c. c \<noteq> CHR '' '') line)"

definition skip_fields3 :: "string \<Rightarrow> string" where
  "skip_fields3 line = skip_field (skip_field (skip_field line))"

text \<open>\<^verbatim>\<open>while (*line++ == ' ')\<close>: the spaces and one character more.\<close>

fun skip_run :: "string \<Rightarrow> string option" where
  "skip_run [] = None"
| "skip_run (c # line) = (if c = CHR '' '' then skip_run line else Some line)"

definition parse_permissions :: "string \<Rightarrow> mode_t" where
  "parse_permissions perms =
     and (foldl (\<lambda>ret c. if c \<noteq> CHR ''-'' then or (push_bit 1 ret) 1 else push_bit 1 ret) 0 perms) 511"

type_synonym ls_outcome = "ls_result \<times> ls_context \<times> ls_entry"

definition ls_fail :: "string \<Rightarrow> ls_context \<Rightarrow> ls_entry \<Rightarrow> ls_outcome" where
  "ls_fail errstr ctx f = (ls_error, ctx\<lparr>lc_error := Some errstr\<rparr>, f)"

text \<open>The last field of a line, once the permissions and the size are known.\<close>

definition parse_name :: "ls_context \<Rightarrow> string \<Rightarrow> string \<Rightarrow> string \<Rightarrow> ls_entry \<Rightarrow> ls_outcome" where
  "parse_name ctx perms sz line f =
     (if perms = [] \<or> (hd perms \<noteq> CHR ''-'' \<and> hd perms \<noteq> CHR ''d'') then (ls_nothing, ctx, f)
      else if CHR ''/'' \<in> set line then ls_fail ''Relative filename disallowed'' ctx f
      else if hd perms = CHR ''-'' then
        (ls_file, ctx, f\<lparr>lf_mode := parse_permissions perms, lf_name := lc_curdir ctx @ line,
           lf_size := strtol sz 10\<rparr>)
      else if line = ''.'' \<or> line = ''..'' then (ls_nothing, ctx, f)
      else (ls_directory, ctx, f\<lparr>lf_mode := parse_permissions perms, lf_name := lc_curdir ctx @ line\<rparr>))"

definition parse_file :: "ls_context \<Rightarrow> string \<Rightarrow> ls_entry \<Rightarrow> ls_outcome option" where
  "parse_file ctx line f =
     (case ne_token line CHR '' '' of
        (perms, None) \<Rightarrow> Some (ls_fail ''Missing token at beginning of line'' ctx f)
      | (perms, Some line) \<Rightarrow>
          do { line \<leftarrow> skip_run line;
               let line = skip_fields3 line in
               if line = [] then Some (ls_fail ''Missing token in inode/user/group fields'' ctx f)
               else case ne_token line CHR '' '' of
                 (sz, None) \<Rightarrow>
                   Some (ls_fail ''Missing token after inode/user/group fields'' ctx f)
               | (sz, Some line) \<Rightarrow>
                   do { line \<leftarrow> skip_run line;
                        let line = skip_fields3 line in
                        if line = [] then Some (ls_fail ''Missing token after timestamp field'' ctx f)
                        else Some (parse_name ctx perms sz line f) } })"

definition ls_white :: string where
  "ls_white = [CHR 0x0D, CHR 0x0A, CHR 0x09, CHR '' '']"

definition ls_parse :: "ls_context \<Rightarrow> string \<Rightarrow> ls_entry \<Rightarrow> ls_outcome option" where
  "ls_parse ctx line f =
     (let line = ne_shave line ls_white in
      if line = [] then Some (ls_nothing, ctx\<lparr>lc_after_blank := True\<rparr>, f)
      else let ctx = ctx\<lparr>lc_after_blank := False\<rparr> in
        if strncmp_eq line ''total '' 6 then Some (ls_nothing, ctx, f)
        else if last line = CHR '':'' \<and> (lc_after_blank ctx \<or> CHR '' '' \<notin> set line)
        then (let (r, ctx) = parse_directory ctx line in Some (r, ctx, f))
        else parse_file ctx line f)"

text \<open>
  The list that a driver builds: files go to the front, directories behind the \<open>tail\<close>, a
  pointer to a node of the list; what was behind that node is lost.
\<close>

definition zero_proto_file :: proto_file where
  "zero_proto_file = \<lparr>pf_filename = [], pf_type = proto_file, pf_size = 0, pf_modtime = 0,
     pf_mode = 0, pf_checksum = zero_checksum\<rparr>"

type_synonym pf_list = "(addr \<times> proto_file) list \<times> addr option"

fun upto_node :: "addr \<Rightarrow> (addr \<times> 'a) list \<Rightarrow> (addr \<times> 'a) list" where
  "upto_node a [] = []"
| "upto_node a (p # ps) = (if fst p = a then [p] else p # upto_node a ps)"

definition ls_pflist_add :: "ls_entry \<Rightarrow> ls_result \<Rightarrow> pf_list \<Rightarrow> pf_list" where
  "ls_pflist_add lsf result lt =
     (case lt of (list, tail) \<Rightarrow>
       (let a = fresh_addr list in
        case result of
          ls_file \<Rightarrow>
            ((a, zero_proto_file\<lparr>pf_filename := lf_name lsf, pf_mode := lf_mode lsf,
                pf_type := proto_file, pf_size := lf_size lsf\<rparr>) # list,
             if tail = None then Some a else tail)
        | ls_directory \<Rightarrow>
            (let pf = (a, zero_proto_file\<lparr>pf_filename := lf_name lsf, pf_mode := lf_mode lsf,
                pf_type := proto_dir\<rparr>)
             in (case tail of None \<Rightarrow> [pf] | Some t \<Rightarrow> upto_node t list @ [pf], Some a))
        | _ \<Rightarrow> lt))"

section \<open>The parser stays inside the line\<close>

text \<open>A line without a space at its end: what is left of it has a character to stop at.\<close>

definition shaved :: "string \<Rightarrow> string \<Rightarrow> bool" where
  "shaved line rest \<longleftrightarrow> suffix rest line \<and> (rest \<noteq> [] \<longrightarrow> last rest \<noteq> CHR '' '')"

lemma skip_run_some: "line \<noteq> [] \<Longrightarrow> last line \<noteq> CHR '' '' \<Longrightarrow> \<exists>r. skip_run line = Some r \<and> suffix r line"
  by (induction line) (auto simp: suffix_ConsI split: if_splits)

lemma suffix_last: "suffix r line \<Longrightarrow> r \<noteq> [] \<Longrightarrow> last r = last line"
  by (auto simp: suffix_def)

lemma skip_fields3_suffix: "suffix (skip_fields3 line) line"
proof -
  have "suffix (skip_field l) l" for l
    unfolding skip_field_def by (meson suffix_dropWhile suffix_order.trans)
  then show ?thesis unfolding skip_fields3_def by (meson suffix_order.trans)
qed

lemma ne_token_rest:
  assumes "ne_token line c = (t, Some r)" "last line \<noteq> c"
  shows "suffix r line \<and> r \<noteq> []"
proof -
  have c: "c \<in> set line" and r: "r = tl (dropWhile (\<lambda>x. x \<noteq> c) line)"
    using assms(1) by (auto simp: ne_token_def split: if_splits)
  have ne: "dropWhile (\<lambda>x. x \<noteq> c) line \<noteq> []"
  proof
    assume "dropWhile (\<lambda>x. x \<noteq> c) line = []"
    then have "\<forall>x \<in> set line. x \<noteq> c" by (simp only: dropWhile_eq_Nil_conv)
    with c show False by blast
  qed
  then have "hd (dropWhile (\<lambda>x. x \<noteq> c) line) = c"
    using hd_dropWhile [of "\<lambda>x. x \<noteq> c" line] by blast
  moreover have "last (dropWhile (\<lambda>x. x \<noteq> c) line) = last line"
    using suffix_last [OF suffix_dropWhile ne] .
  ultimately have "r \<noteq> []" using ne assms(2) r by (cases "dropWhile (\<lambda>x. x \<noteq> c) line") auto
  moreover have "suffix r line" unfolding r by (meson suffix_dropWhile suffix_tl suffix_order.trans)
  ultimately show ?thesis by simp
qed

lemma skip_token:
  assumes "ne_token line CHR '' '' = (t, Some r)" "last line \<noteq> CHR '' ''"
  shows "\<exists>x. skip_run r = Some x \<and> suffix (skip_fields3 x) line"
proof -
  have r: "suffix r line" "r \<noteq> []" using ne_token_rest [OF assms] by auto
  then have "last r \<noteq> CHR '' ''" using suffix_last assms(2) by metis
  then obtain x where "skip_run r = Some x" "suffix x r" using skip_run_some r(2) by blast
  then show ?thesis using r(1) skip_fields3_suffix by (meson suffix_order.trans)
qed

lemma parse_file_some:
  assumes "last line \<noteq> CHR '' ''"
  shows "parse_file ctx line f \<noteq> None"
proof (cases "ne_token line CHR '' ''")
  case (Pair perms rest)
  show ?thesis
  proof (cases rest)
    case None
    then show ?thesis by (simp add: parse_file_def Pair)
  next
    case (Some r)
    then obtain x where x: "skip_run r = Some x" "suffix (skip_fields3 x) line"
      using skip_token assms Pair by blast
    show ?thesis
    proof (cases "skip_fields3 x = []")
      case False
      then have l: "last (skip_fields3 x) \<noteq> CHR '' ''" using suffix_last [OF x(2)] assms by simp
      obtain sz rest2 where t: "ne_token (skip_fields3 x) CHR '' '' = (sz, rest2)"
        by (cases "ne_token (skip_fields3 x) CHR '' ''")
      then show ?thesis
        using Pair Some x(1) False skip_token [OF _ l, of sz]
        by (cases rest2) (auto simp: parse_file_def Let_def simp del: not_None_eq split_paired_Ex)
    qed (use Pair Some x(1) in \<open>simp add: parse_file_def\<close>)
  qed
qed

lemma ne_shave_last:
  assumes "ne_shave line ws \<noteq> []" "c \<in> set ws"
  shows "last (ne_shave line ws) \<noteq> c"
proof -
  let ?r = "dropWhile (\<lambda>c. c \<in> set ws) (rev (dropWhile (\<lambda>c. c \<in> set ws) line))"
  have "?r \<noteq> []" using assms(1) by (simp add: ne_shave_def)
  then have "hd ?r \<notin> set ws" using hd_dropWhile [of "\<lambda>c. c \<in> set ws"] by blast
  then show ?thesis using assms(2) by (auto simp: ne_shave_def last_rev)
qed

lemma ls_parse_runs: "ls_parse ctx line f \<noteq> None"
proof (cases "ne_shave line ls_white = []")
  case False
  then have "last (ne_shave line ls_white) \<noteq> CHR '' ''"
    by (rule ne_shave_last) (simp add: ls_white_def)
  then show ?thesis
    using parse_file_some
    by (auto simp: ls_parse_def Let_def split: prod.split simp del: not_None_eq)
qed (simp add: ls_parse_def)

text \<open>C36.  On any line and in any state the parser of directory listings stops at the end of the
  line: none of its scans for the end of a run of spaces passes the NUL.\<close>
theorem ls_parse_in_bounds: "ls_parse ctx line f \<noteq> None"
  by (rule ls_parse_runs)

end
