(* ===== verification/Ls_Listing.thy ===== *)
theory Ls_Listing
  imports Ls_Parser
begin

text \<open>
  What the parser makes of a listing: a line of \<^verbatim>\<open>ls -l\<close> with any number of spaces between its
  fields yields the mode, the size and the name it was made of, and a listing yields the files
  in the opposite order, followed by the directories in theirs.
\<close>

section \<open>Permissions\<close>

definition perm_char :: "nat \<Rightarrow> char" where
  "perm_char i = (if i mod 3 = 2 then CHR ''r'' else if i mod 3 = 1 then CHR ''w'' else CHR ''x'')"

definition perm_string :: "mode_t \<Rightarrow> string" where
  "perm_string m = map (\<lambda>i. if bit m i then perm_char i else CHR ''-'') (rev [0..<9])"

definition perm_step :: "mode_t \<Rightarrow> char \<Rightarrow> mode_t" where
  "perm_step ret c = (if c \<noteq> CHR ''-'' then or (push_bit 1 ret) 1 else push_bit 1 ret)"

lemma perm_step_bits:
  "foldl perm_step r (map (\<lambda>i. if bit m i then perm_char i else CHR ''-'') (rev [0..<n]))
   = or (push_bit n r) (take_bit n m)"
proof (induction n arbitrary: r)
  case (Suc n)
  have c: "perm_char n \<noteq> CHR ''-''" by (simp add: perm_char_def)
  have "or (push_bit n (perm_step r (if bit m n then perm_char n else CHR ''-''))) (take_bit n m)
      = or (push_bit (Suc n) r) (take_bit (Suc n) m)"
    by (rule bit_word_eqI)
      (auto simp: perm_step_def c bit_simps less_Suc_eq Suc_le_eq not_less le_less Suc_diff_Suc)
  then show ?case by (simp add: Suc)
qed simp

lemma parse_permissions_string:
  "parse_permissions (t # perm_string m) = take_bit 9 m"
proof -
  have "parse_permissions (t # perm_string m)
      = and (foldl perm_step (perm_step 0 t) (perm_string m)) (mask 9)"
    by (simp add: parse_permissions_def perm_step_def [abs_def] mask_eq_exp_minus_1)
  also have "\<dots> = and (or (push_bit 9 (perm_step 0 t)) (take_bit 9 m)) (mask 9)"
    by (simp only: perm_string_def perm_step_bits)
  also have "\<dots> = take_bit 9 m"
    by (rule bit_word_eqI) (auto simp: bit_simps)
  finally show ?thesis .
qed

section \<open>The fields of a line\<close>

definition field :: "string \<Rightarrow> bool" where "field w \<longleftrightarrow> w \<noteq> [] \<and> CHR '' '' \<notin> set w"

definition gap :: "string \<Rightarrow> bool" where "gap g \<longleftrightarrow> g \<noteq> [] \<and> set g = {CHR '' ''}"

definition name_ok :: "string \<Rightarrow> bool" where
  "name_ok w \<longleftrightarrow> w \<noteq> [] \<and> hd w \<noteq> CHR '' '' \<and> last w \<notin> set ls_white"

lemma gap_Cons: "gap g \<Longrightarrow> \<exists>g'. g = CHR '' '' # g' \<and> set g' \<subseteq> {CHR '' ''}"
  by (cases g) (auto simp: gap_def)

lemma dropWhile_gap:
  "set g \<subseteq> {CHR '' ''} \<Longrightarrow> r = [] \<or> hd r \<noteq> CHR '' '' \<Longrightarrow> dropWhile (\<lambda>c. c = CHR '' '') (g @ r) = r"
  by (induction g) (auto simp: dropWhile_eq_self_iff)

lemma skip_field_gap:
  assumes "CHR '' '' \<notin> set w" "gap g" "r \<noteq> []" "hd r \<noteq> CHR '' ''"
  shows "skip_field (w @ g @ r) = r"
proof -
  have "dropWhile (\<lambda>c. c \<noteq> CHR '' '') (w @ g @ r) = g @ r"
    using assms(1) gap_Cons [OF assms(2)] by (subst dropWhile_append2) auto
  then show ?thesis
    using assms dropWhile_gap [of g r] by (simp add: skip_field_def gap_def)
qed

lemma ne_token_gap:
  assumes "field w" "gap g"
  shows "ne_token (w @ g @ r) CHR '' '' = (w, Some (tl g @ r))"
proof -
  obtain g' where g: "g = CHR '' '' # g'" using gap_Cons [OF assms(2)] by blast
  have w: "CHR '' '' \<notin> set w" using assms(1) by (simp add: field_def)
  have "takeWhile (\<lambda>c. c \<noteq> CHR '' '') (w @ g @ r) = w"
    "dropWhile (\<lambda>c. c \<noteq> CHR '' '') (w @ g @ r) = g @ r"
    using w by (auto simp: g takeWhile_append dropWhile_append3)
  then show ?thesis by (simp add: ne_token_def g)
qed

lemma skip_run_gap:
  "set g \<subseteq> {CHR '' ''} \<Longrightarrow> field w \<Longrightarrow> skip_run (g @ w @ r) = Some (tl w @ r)"
proof (induction g)
  case Nil
  then show ?case by (cases w) (auto simp: field_def)
qed auto

lemma field_hd: "field w \<Longrightarrow> w @ r \<noteq> [] \<and> hd (w @ r) \<noteq> CHR '' ''"
  by (cases w) (auto simp: field_def)

lemma field_tl: "field w \<Longrightarrow> CHR '' '' \<notin> set (tl w)"
  by (cases w) (auto simp: field_def)

text \<open>A field, skipped together with the two that follow it.\<close>

lemma skip_three:
  assumes "field a" "field b" "field c" "gap g" "gap h" "gap k" "r \<noteq> []" "hd r \<noteq> CHR '' ''"
  shows "skip_fields3 (tl a @ g @ b @ h @ c @ k @ r) = r"
  using assms field_tl [OF assms(1)] field_hd [OF assms(2), of "h @ c @ k @ r"]
    field_hd [OF assms(3), of "k @ r"]
  by (simp add: skip_fields3_def skip_field_gap field_def)

section \<open>A line of a listing\<close>

record ls_line =
  ll_type :: char
  ll_mode :: mode_t
  ll_links :: string
  ll_user :: string
  ll_group :: string
  ll_size :: nat
  ll_month :: string
  ll_day :: string
  ll_time :: string
  ll_name :: string
  ll_gaps :: "nat \<Rightarrow> string"

definition ls_text :: "ls_line \<Rightarrow> string" where
  "ls_text l =
     (ll_type l # perm_string (ll_mode l)) @ ll_gaps l 0 @ ll_links l @ ll_gaps l 1 @ ll_user l
     @ ll_gaps l 2 @ ll_group l @ ll_gaps l 3 @ show_nat (ll_size l) @ ll_gaps l 4 @ ll_month l
     @ ll_gaps l 5 @ ll_day l @ ll_gaps l 6 @ ll_time l @ ll_gaps l 7 @ ll_name l"

definition ls_line_ok :: "ls_line \<Rightarrow> bool" where
  "ls_line_ok l \<longleftrightarrow>
     ll_type l \<in> set ''-dlcbps'' \<and> field (ll_links l) \<and> field (ll_user l) \<and> field (ll_group l)
     \<and> field (ll_month l) \<and> field (ll_day l) \<and> field (ll_time l) \<and> name_ok (ll_name l)
     \<and> int (ll_size l) \<le> LONG_MAX \<and> (\<forall>i<8. gap (ll_gaps l i))"

lemma perm_string_chars: "c \<in> set (perm_string m) \<Longrightarrow> c \<in> set ''rwx-''"
  by (auto simp: perm_string_def perm_char_def split: if_splits)

lemma field_perms: "ll_type l \<in> set ''-dlcbps'' \<Longrightarrow> field (ll_type l # perm_string m)"
  using perm_string_chars [of "CHR '' ''" m] by (auto simp: field_def)

lemma field_size: "field (show_nat n)"
proof -
  have "CHR '' '' \<notin> set (digits 10 n)"
  proof
    assume "CHR '' '' \<in> set (digits 10 n)"
    then have "\<exists>d<10. CHR '' '' = digit_char d" by (intro digits_all) simp_all
    then obtain d where "d < 10" "CHR '' '' = digit_char d" by blast
    then have "\<not> isspace (CHR '' '')" using digit_char_plain [of d] by metis
    then show False by (simp add: isspace_def)
  qed
  then show ?thesis by (simp add: field_def show_nat_def digits_nonempty)
qed

lemma parse_file_text:
  assumes "ls_line_ok l"
  shows "parse_file ctx (ls_text l) f
    = Some (parse_name ctx (ll_type l # perm_string (ll_mode l)) (show_nat (ll_size l)) (ll_name l) f)"
proof -
  let ?p = "ll_type l # perm_string (ll_mode l)" and ?s = "show_nat (ll_size l)"
  note ok = assms [unfolded ls_line_ok_def]
  have g: "gap (ll_gaps l 0)" "gap (ll_gaps l 1)" "gap (ll_gaps l 2)" "gap (ll_gaps l 3)"
    "gap (ll_gaps l 4)" "gap (ll_gaps l 5)" "gap (ll_gaps l 6)" "gap (ll_gaps l 7)"
    using ok by simp_all
  have fp: "field ?p" using ok field_perms by blast
  have t: "set (tl g) \<subseteq> {CHR '' ''}" if "gap g" for g using gap_Cons [OF that] by auto
  define rest where "rest = ll_month l @ ll_gaps l 5 @ ll_day l @ ll_gaps l 6 @ ll_time l
    @ ll_gaps l 7 @ ll_name l"
  have n: "ll_name l \<noteq> []" "hd (ll_name l) \<noteq> CHR '' ''" using ok by (simp_all add: name_ok_def)
  have ne: "?s @ ll_gaps l 4 @ rest \<noteq> []" "hd (?s @ ll_gaps l 4 @ rest) \<noteq> CHR '' ''"
    using field_hd [OF field_size] by blast+
  have first: "ne_token (ls_text l) CHR '' '' = (?p, Some (tl (ll_gaps l 0) @ ll_links l @ ll_gaps l 1
      @ ll_user l @ ll_gaps l 2 @ ll_group l @ ll_gaps l 3 @ ?s @ ll_gaps l 4 @ rest))"
    unfolding ls_text_def rest_def by (rule ne_token_gap) (use g fp in simp_all)
  have skip: "skip_run (tl (ll_gaps l 0) @ ll_links l @ ll_gaps l 1
      @ ll_user l @ ll_gaps l 2 @ ll_group l @ ll_gaps l 3 @ ?s @ ll_gaps l 4 @ rest)
    = Some (tl (ll_links l) @ ll_gaps l 1
      @ ll_user l @ ll_gaps l 2 @ ll_group l @ ll_gaps l 3 @ ?s @ ll_gaps l 4 @ rest)"
    by (rule skip_run_gap) (use ok t [OF g(1)] in simp_all)
  have three: "skip_fields3 (tl (ll_links l) @ ll_gaps l 1
      @ ll_user l @ ll_gaps l 2 @ ll_group l @ ll_gaps l 3 @ ?s @ ll_gaps l 4 @ rest)
    = ?s @ ll_gaps l 4 @ rest"
    by (rule skip_three) (use ok g ne in simp_all)
  have second: "ne_token (?s @ ll_gaps l 4 @ rest) CHR '' '' = (?s, Some (tl (ll_gaps l 4) @ rest))"
    by (rule ne_token_gap) (use g field_size in simp_all)
  have skip2: "skip_run (tl (ll_gaps l 4) @ rest) = Some (tl (ll_month l) @ ll_gaps l 5 @ ll_day l
      @ ll_gaps l 6 @ ll_time l @ ll_gaps l 7 @ ll_name l)"
    unfolding rest_def by (rule skip_run_gap) (use ok t [OF g(5)] in simp_all)
  have three2: "skip_fields3 (tl (ll_month l) @ ll_gaps l 5 @ ll_day l
      @ ll_gaps l 6 @ ll_time l @ ll_gaps l 7 @ ll_name l) = ll_name l"
    by (rule skip_three) (use ok g n in simp_all)
  show ?thesis
    unfolding parse_file_def first prod.case option.case skip Option.bind.bind_lunit three Let_def
      if_not_P [OF ne(1)] second skip2 three2 if_not_P [OF n(1)] by (rule refl)
qed

section \<open>A whole listing\<close>

lemma ne_shave_tail:
  assumes "l \<noteq> []" "hd l \<notin> set ws" "last l \<notin> set ws" "set e \<subseteq> set ws"
  shows "ne_shave (l @ e) ws = l"
proof -
  have "dropWhile (\<lambda>c. c \<in> set ws) (l @ e) = l @ e" using assms(1,2) by (cases l) auto
  moreover have "dropWhile (\<lambda>c. c \<in> set ws) (rev e @ rev l) = rev l"
    using assms by (subst dropWhile_append2) (auto simp: dropWhile_eq_self_iff hd_rev)
  ultimately show ?thesis by (simp add: ne_shave_def)
qed

lemma ls_text_ends:
  assumes "ls_line_ok l"
  shows "ls_text l \<noteq> []" "hd (ls_text l) = ll_type l" "last (ls_text l) = last (ll_name l)"
    "CHR '' '' \<in> set (ls_text l)" "ll_type l \<notin> set ls_white" "ll_type l \<noteq> CHR ''t''"
proof -
  have "gap (ll_gaps l 0)" "ll_name l \<noteq> []" and t: "ll_type l \<in> set ''-dlcbps''"
    using assms by (simp_all add: ls_line_ok_def name_ok_def)
  then show "ls_text l \<noteq> []" "hd (ls_text l) = ll_type l" "last (ls_text l) = last (ll_name l)"
    "CHR '' '' \<in> set (ls_text l)"
    by (simp_all add: ls_text_def gap_def)
  show "ll_type l \<notin> set ls_white" "ll_type l \<noteq> CHR ''t''"
    using t by (auto simp: ls_white_def)
qed

lemma ls_parse_text:
  assumes "ls_line_ok l" "set e \<subseteq> set ls_white"
  shows "ls_parse ctx (ls_text l @ e) f
    = Some (parse_name (ctx\<lparr>lc_after_blank := False\<rparr>) (ll_type l # perm_string (ll_mode l))
        (show_nat (ll_size l)) (ll_name l) f)"
proof -
  note ends = ls_text_ends [OF assms(1)]
  have s: "ne_shave (ls_text l @ e) ls_white = ls_text l"
    using ends assms by (intro ne_shave_tail) (simp_all add: ls_line_ok_def name_ok_def)
  have t: "\<not> strncmp_eq (ls_text l) ''total '' 6"
    using ends(1,2,6) by (cases "ls_text l") (auto simp: strncmp_eq_def)
  show ?thesis
    using parse_file_text [OF assms(1)] t ends(1,4) by (simp add: ls_parse_def s)
qed

text \<open>The entry that a line stands for: nothing for \<open>.\<close>, \<open>..\<close>, links and devices.\<close>

definition ls_item :: "ls_line \<Rightarrow> proto_file option" where
  "ls_item l =
     (let pf = zero_proto_file\<lparr>pf_filename := ll_name l, pf_mode := take_bit 9 (ll_mode l)\<rparr>
      in if ll_type l = CHR ''-'' then Some (pf\<lparr>pf_type := proto_file, pf_size := int (ll_size l)\<rparr>)
         else if ll_type l = CHR ''d'' \<and> ll_name l \<noteq> ''.'' \<and> ll_name l \<noteq> ''..''
         then Some (pf\<lparr>pf_type := proto_dir\<rparr>)
         else None)"

text \<open>The loop of a driver over the lines: the parse errors are passed over.\<close>

fun ls_run :: "ls_context \<Rightarrow> ls_entry \<Rightarrow> string list \<Rightarrow> pf_list \<Rightarrow> (ls_context \<times> pf_list) option" where
  "ls_run ctx f [] lt = Some (ctx, lt)"
| "ls_run ctx f (line # rest) lt =
     do { (res, ctx, f) \<leftarrow> ls_parse ctx line f;
          ls_run ctx f rest (if res = ls_error then lt else ls_pflist_add f res lt) }"

text \<open>The shape of the list: files in front, and the tail is the last node.\<close>

definition tail_ok :: "pf_list \<Rightarrow> bool" where
  "tail_ok lt \<longleftrightarrow> distinct (map fst (fst lt))
     \<and> snd lt = (if fst lt = [] then None else Some (fst (last (fst lt))))"

lemma upto_last: "distinct (map fst xs) \<Longrightarrow> xs \<noteq> [] \<Longrightarrow> upto_node (fst (last xs)) xs = xs"
proof (induction xs)
  case (Cons x xs)
  have "fst (last xs) \<noteq> fst x" if "xs \<noteq> []"
    using Cons.prems(1) last_in_set [OF that] by (auto simp: image_iff)
  then show ?case using Cons by auto
qed simp

lemma pflist_add_file:
  assumes "tail_ok lt"
  shows "tail_ok (ls_pflist_add e ls_file lt)
    \<and> map snd (fst (ls_pflist_add e ls_file lt)) = zero_proto_file\<lparr>pf_filename := lf_name e,
        pf_mode := lf_mode e, pf_type := proto_file, pf_size := lf_size e\<rparr> # map snd (fst lt)"
proof (cases lt)
  case (Pair xs t)
  then show ?thesis
    using assms by (cases "xs = []") (simp_all add: ls_pflist_add_def tail_ok_def Let_def)
qed

lemma pflist_add_dir:
  assumes "tail_ok lt"
  shows "tail_ok (ls_pflist_add e ls_directory lt)
    \<and> map snd (fst (ls_pflist_add e ls_directory lt)) = map snd (fst lt)
        @ [zero_proto_file\<lparr>pf_filename := lf_name e, pf_mode := lf_mode e, pf_type := proto_dir\<rparr>]"
proof (cases lt)
  case (Pair xs t)
  then show ?thesis
    using assms upto_last [of xs]
    by (cases "xs = []") (simp_all add: ls_pflist_add_def tail_ok_def Let_def)
qed

definition files_then_dirs :: "ls_line list \<Rightarrow> proto_file list" where
  "files_then_dirs ls =
     (let items = List.map_filter ls_item ls
      in rev (filter (\<lambda>p. pf_type p = proto_file) items) @ filter (\<lambda>p. pf_type p = proto_dir) items)"

definition grow :: "ls_line \<Rightarrow> proto_file list \<Rightarrow> proto_file list" where
  "grow l xs = (case ls_item l of None \<Rightarrow> xs
     | Some p \<Rightarrow> if pf_type p = proto_file then p # xs else xs @ [p])"

lemma ls_item_cases:
  obtains "ll_type l = CHR ''-''" | "ll_type l = CHR ''d''" "ll_name l \<noteq> ''.''" "ll_name l \<noteq> ''..''"
    | "ls_item l = None" "ll_type l \<noteq> CHR ''-''"
      "ll_type l \<noteq> CHR ''d'' \<or> ll_name l = ''.'' \<or> ll_name l = ''..''"
  by (cases "ll_type l = CHR ''-''"; cases "ll_type l = CHR ''d'' \<and> ll_name l \<noteq> ''.'' \<and> ll_name l \<noteq> ''..''")
    (auto simp: ls_item_def)

lemma ls_run_line:
  assumes ok: "ls_line_ok l" and e: "set e \<subseteq> set ls_white" and t: "tail_ok lt"
    and n: "CHR ''/'' \<notin> set (ll_name l)" and c: "lc_curdir ctx = []"
  shows "\<exists>ctx' f' lt'. ls_run ctx f ((ls_text l @ e) # rest) lt = ls_run ctx' f' rest lt'
    \<and> lc_curdir ctx' = [] \<and> tail_ok lt' \<and> map snd (fst lt') = grow l (map snd (fst lt))"
proof -
  let ?c = "ctx\<lparr>lc_after_blank := False\<rparr>"
  let ?f = "f\<lparr>lf_mode := take_bit 9 (ll_mode l), lf_name := ll_name l, lf_size := int (ll_size l)\<rparr>"
  let ?d = "f\<lparr>lf_mode := take_bit 9 (ll_mode l), lf_name := ll_name l\<rparr>"
  have z: "strtol (show_nat (ll_size l)) 10 = int (ll_size l)"
    using strtol_show_int [of "int (ll_size l)"] ok
    by (simp add: show_int_def ls_line_ok_def LONG_MIN_def)
  have run: "ls_run ctx f ((ls_text l @ e) # rest) lt
      = (case parse_name ?c (ll_type l # perm_string (ll_mode l)) (show_nat (ll_size l)) (ll_name l) f of
          (res, ctx, f) \<Rightarrow> ls_run ctx f rest (if res = ls_error then lt else ls_pflist_add f res lt))"
    by (simp add: ls_parse_text [OF ok e, of ctx f])
  show ?thesis
  proof (cases rule: ls_item_cases [of l])
    case 1
    then have "ls_run ctx f ((ls_text l @ e) # rest) lt = ls_run ?c ?f rest (ls_pflist_add ?f ls_file lt)"
      using n c z run by (simp add: parse_name_def parse_permissions_string)
    then show ?thesis
      using 1 c pflist_add_file [OF t, of ?f]
      by (intro exI [of _ ?c] exI [of _ ?f] exI [of _ "ls_pflist_add ?f ls_file lt"])
        (simp add: grow_def ls_item_def)
  next
    case 2
    then have "ls_run ctx f ((ls_text l @ e) # rest) lt = ls_run ?c ?d rest (ls_pflist_add ?d ls_directory lt)"
      using n c run by (simp add: parse_name_def parse_permissions_string)
    then show ?thesis
      using 2 c pflist_add_dir [OF t, of ?d]
      by (intro exI [of _ ?c] exI [of _ ?d] exI [of _ "ls_pflist_add ?d ls_directory lt"])
        (simp add: grow_def ls_item_def)
  next
    case 3
    then have "ls_run ctx f ((ls_text l @ e) # rest) lt = ls_run ?c f rest (ls_pflist_add f ls_nothing lt)"
      using n run by (auto simp: parse_name_def)
    moreover have "ls_pflist_add f ls_nothing lt = lt" by (cases lt) (simp add: ls_pflist_add_def)
    ultimately show ?thesis
      using 3 c t by (intro exI [of _ ?c] exI [of _ f] exI [of _ lt]) (simp add: grow_def)
  qed
qed

lemma ls_run_lines:
  "(\<forall>l \<in> set ls. ls_line_ok l \<and> CHR ''/'' \<notin> set (ll_name l)) \<Longrightarrow> set e \<subseteq> set ls_white \<Longrightarrow>
   tail_ok lt \<Longrightarrow> lc_curdir ctx = [] \<Longrightarrow>
   \<exists>ctx' lt'. ls_run ctx f (map (\<lambda>l. ls_text l @ e) ls) lt = Some (ctx', lt')
     \<and> map snd (fst lt') = fold grow ls (map snd (fst lt))"
proof (induction ls arbitrary: ctx f lt)
  case (Cons l ls)
  obtain ctx1 f1 lt1 where 1: "ls_run ctx f ((ls_text l @ e) # map (\<lambda>l. ls_text l @ e) ls) lt
      = ls_run ctx1 f1 (map (\<lambda>l. ls_text l @ e) ls) lt1" "lc_curdir ctx1 = []" "tail_ok lt1"
    "map snd (fst lt1) = grow l (map snd (fst lt))"
    using ls_run_line [of l e lt ctx f "map (\<lambda>l. ls_text l @ e) ls"] Cons.prems
    by (metis list.set_intros(1))
  obtain ctx' lt' where "ls_run ctx1 f1 (map (\<lambda>l. ls_text l @ e) ls) lt1 = Some (ctx', lt')"
    "map snd (fst lt') = fold grow ls (map snd (fst lt1))"
    using Cons.IH [OF _ _ 1(3,2)] Cons.prems by (metis list.set_intros(2))
  then show ?case using 1(1,4) by simp
qed simp

lemma ls_item_type: "ls_item l = Some p \<Longrightarrow> pf_type p = proto_file \<or> pf_type p = proto_dir"
  by (auto simp: ls_item_def Let_def split: if_splits)

lemma grow_all: "fold grow ls xs =
  rev (filter (\<lambda>p. pf_type p = proto_file) (List.map_filter ls_item ls)) @ xs
  @ filter (\<lambda>p. pf_type p = proto_dir) (List.map_filter ls_item ls)"
proof (induction ls arbitrary: xs)
  case (Cons l ls)
  show ?case
  proof (cases "ls_item l")
    case (Some p)
    then show ?thesis
      using ls_item_type [OF Some] Cons [of "grow l xs"]
      by (auto simp: grow_def [of l] map_filter_simps)
  qed (simp add: Cons grow_def [of l] map_filter_simps)
qed (simp add: map_filter_simps)

lemma ls_run_total:
  assumes "field n" "last n \<notin> set ls_white" "set e \<subseteq> set ls_white"
  shows "ls_run ctx f ((''total '' @ n @ e) # rest) lt = ls_run (ctx\<lparr>lc_after_blank := False\<rparr>) f rest lt"
proof -
  have "ne_shave ((''total '' @ n) @ e) ls_white = ''total '' @ n"
    using assms by (intro ne_shave_tail) (auto simp: ls_white_def field_def)
  moreover have "strncmp_eq (''total '' @ n) ''total '' 6"
    by (simp add: strncmp_eq_def)
  moreover have "ls_pflist_add f ls_nothing lt = lt" by (cases lt) (simp add: ls_pflist_add_def)
  ultimately show ?thesis by (simp add: ls_parse_def)
qed

text \<open>The lines of \<^verbatim>\<open>ls -l\<close>: the total, then one line for each entry.\<close>

definition ls_output :: "nat \<Rightarrow> string \<Rightarrow> ls_line list \<Rightarrow> string list" where
  "ls_output blocks e ls = (''total '' @ show_nat blocks @ e) # map (\<lambda>l. ls_text l @ e) ls"

lemma digit_white: "d < 10 \<Longrightarrow> digit_char d \<notin> set ls_white"
proof -
  assume d: "d < 10"
  then have "code (digit_char d) = 48 + d" by (simp add: digit_char_def code_char_of)
  then show ?thesis using d by (auto simp: ls_white_def)
qed

lemma ls_run_output:
  assumes "\<forall>l \<in> set ls. ls_line_ok l \<and> CHR ''/'' \<notin> set (ll_name l)" "set e \<subseteq> set ls_white"
    and "ls_init dir = Some ctx"
  shows "\<exists>ctx' lt'. ls_run ctx f (ls_output blocks e ls) ([], None) = Some (ctx', lt')
    \<and> map snd (fst lt') = files_then_dirs ls"
proof -
  have c: "lc_curdir ctx = []" using assms(3) by (auto simp: ls_init_def split: if_splits)
  have "last (show_nat blocks) \<in> set (digits 10 blocks)"
    using digits_nonempty [of 10 blocks] by (simp add: show_nat_def)
  then have "\<exists>d<10. last (show_nat blocks) = digit_char d" by (intro digits_all) simp_all
  then have w: "last (show_nat blocks) \<notin> set ls_white" using digit_white by auto
  have t: "tail_ok ([], None)" by (simp add: tail_ok_def)
  show ?thesis
    using ls_run_lines [OF assms(1,2) t, of "ctx\<lparr>lc_after_blank := False\<rparr>" f] c
      ls_run_total [OF field_size w assms(2)]
    by (simp add: ls_output_def grow_all files_then_dirs_def Let_def)
qed

end
