(* ===== verification/Update_World.thy ===== *)
theory Update_World
  imports Site_Update_Inv
begin

text \<open>
  An update acts on the world only through the functions of its driver and the question to the user:
  what holds once the driver is initialised and is kept by all of them holds after the update.  The contract of such a driver is a locale.
\<close>

definition in_world :: "('w \<Rightarrow> bool) \<Rightarrow> 'w run \<Rightarrow> bool" where
  "in_world W r \<longleftrightarrow> W (r_world r)"

lemma in_world_simps [simp]:
  "in_world W (notify e r) = in_world W r" "in_world W (run_put a g r) = in_world W r"
  "in_world W (r\<lparr>r_site := s\<rparr>) = in_world W r"
  by (simp_all add: in_world_def run_put_def)

lemma on_site_world: "in_world W r \<Longrightarrow> gives (in_world W) (on_site g r)"
  by (auto simp: gives_def on_site_def bind_eq_Some_conv)

lemma call_world: "in_world W r \<Longrightarrow> (\<And>w. W w \<Longrightarrow> W (snd (g w))) \<Longrightarrow> in_world W (snd (call g r))"
  by (simp add: in_world_def call_def case_prod_beta' Let_def)

locale keeps_world =
  fixes drv :: "'w proto_driver" and W :: "'w \<Rightarrow> bool"
  assumes drv_finish: "W w \<Longrightarrow> W (d_finish drv w)"
    and drv_file_move: "W w \<Longrightarrow> W (snd (d_file_move drv p q w))"
    and drv_file_upload: "W w \<Longrightarrow> W (snd (d_file_upload drv p q asc w))"
    and drv_file_upload_cond: "W w \<Longrightarrow> W (snd (d_file_upload_cond drv p q asc t w))"
    and drv_file_get_modtime: "W w \<Longrightarrow> W (snd (d_file_get_modtime drv p w))"
    and drv_file_delete: "W w \<Longrightarrow> W (snd (d_file_delete drv p w))"
    and drv_file_chmod: "W w \<Longrightarrow> W (snd (d_file_chmod drv p m w))"
    and drv_dir_create: "W w \<Longrightarrow> W (snd (d_dir_create drv p w))"
    and drv_dir_remove: "W w \<Longrightarrow> W (snd (d_dir_remove drv p w))"
    and drv_link_create: "d_link_create drv = Some f \<Longrightarrow> W w \<Longrightarrow> W (snd (f p l w))"
    and drv_link_change: "d_link_change drv = Some f \<Longrightarrow> W w \<Longrightarrow> W (snd (f p l w))"
    and drv_link_delete: "d_link_delete drv = Some g \<Longrightarrow> W w \<Longrightarrow> W (snd (g p w))"
begin

lemma calls:
  assumes "in_world W r"
  shows "in_world W (snd (call (d_file_move drv p q) r))"
    "in_world W (snd (call (d_file_upload drv p q asc) r))"
    "in_world W (snd (call (d_file_upload_cond drv p q asc t) r))"
    "in_world W (snd (call (d_file_get_modtime drv p) r))"
    "in_world W (snd (call (d_file_delete drv p) r))" "in_world W (snd (call (d_file_chmod drv p m) r))"
    "in_world W (snd (call (d_dir_create drv p) r))" "in_world W (snd (call (d_dir_remove drv p) r))"
  by (rule call_world [OF assms]; rule drv_file_move drv_file_upload drv_file_upload_cond
      drv_file_get_modtime drv_file_delete drv_file_chmod drv_dir_create drv_dir_remove; assumption)+

lemma file_chmod_world:
  "in_world W r \<Longrightarrow> gives (\<lambda>x. in_world W (snd x)) (file_chmod drv a r)"
  unfolding file_chmod_def Let_def case_prod_beta'
  by (intro gives_if gives_Some gives_bind [OF gives_any] gives_bind [OF on_site_world])
    (simp_all add: calls)

lemma file_retrieve_server_world:
  "in_world W r \<Longrightarrow> gives (in_world W) (file_retrieve_server drv a r)"
  unfolding file_retrieve_server_def Let_def case_prod_beta'
  by (intro gives_if gives_Some gives_bind [OF gives_any]) (simp_all add: calls)

lemma upload_done_world:
  assumes "in_world W r"
  shows "gives (\<lambda>x. in_world W (fst x)) (upload_done drv g h a (r, ret))"
proof -
  have "gives (in_world W) (if g then file_retrieve_server drv a (notify (fe_updated h True None) r)
      else Some (notify (fe_updated h True None) r))"
    using assms by (intro gives_if gives_Some file_retrieve_server_world) simp_all
  then show ?thesis
    unfolding upload_done_def Let_def case_prod_beta' fst_conv snd_conv
    by (rule gives_bind, intro gives_bind [OF file_chmod_world] gives_bind [OF on_site_world]
        gives_Some) simp_all
qed

lemma upload_body_world:
  assumes "in_world W r"
  shows "gives (\<lambda>x. in_world W (fst x)) (upload_body drv l p f a (r, ret))"
  unfolding upload_body_def Let_def case_prod_beta' fst_conv snd_conv
  by (intro gives_if gives_Some upload_done_world) (use assms in \<open>simp_all add: calls\<close>)

lemma links_world:
  assumes "in_world W (fst st)"
  shows "gives (\<lambda>x. in_world W (fst x)) (links_body drv a st)"
proof -
  have eq: "gives (\<lambda>x. X = Some x) X" for X :: "'b option" by (simp add: gives_def)
  have calls': "in_world W r \<Longrightarrow> d_link_create drv = Some c \<Longrightarrow> in_world W (snd (call (c p l) r))"
    "in_world W r \<Longrightarrow> d_link_change drv = Some c \<Longrightarrow> in_world W (snd (call (c p l) r))"
    "in_world W r \<Longrightarrow> d_link_delete drv = Some e \<Longrightarrow> in_world W (snd (call (e p) r))" for r c e p l
    by (rule call_world, assumption, erule (1) drv_link_create drv_link_change drv_link_delete)+
  have kinds: "gives P (case k of file_unchanged \<Rightarrow> X1 | file_changed \<Rightarrow> X2 | file_new \<Rightarrow> X3
      | file_deleted \<Rightarrow> X4 | file_moved \<Rightarrow> X5)"
    if "gives P X1" "gives P X2" "gives P X3" "gives P X4" "gives P X5"
    for P :: "'a run \<times> int \<Rightarrow> bool" and k X1 X2 X3 X4 X5
    using that by (cases k) simp_all
  show ?thesis
    unfolding links_body_def Let_def case_prod_beta'
    by (intro gives_if gives_bind [OF gives_any [of "run_file _ _"]] gives_bind [OF gives_any [of "file_full_remote _ _"]]
        gives_bind [OF eq [of "d_link_create drv"]] gives_bind [OF eq [of "d_link_change drv"]]
        gives_bind [OF eq [of "d_link_delete drv"]] gives_bind [OF on_site_world] kinds gives_Some)
      (use assms in \<open>simp_all add: calls'\<close>)
qed

lemma bodies_world:
  assumes os: "\<And>f w. W w \<Longrightarrow> W (snd (o_can_update os f w))" and st: "in_world W (fst st)"
  shows "gives (\<lambda>x. in_world W (fst x)) (delete_files_body drv os a st)"
    "gives (\<lambda>x. in_world W (fst x)) (create_directories_body drv os a st)"
    "gives (\<lambda>x. in_world W (fst x)) (move_files_body drv os a st)"
    "gives (\<lambda>x. in_world W (fst x)) (delete_directories_body drv os a st)"
proof -
  have ask: "in_world W r \<Longrightarrow> in_world W (snd (call (o_can_update os f) r))" for r f
    by (erule call_world, erule os)
  show "gives (\<lambda>x. in_world W (fst x)) (delete_files_body drv os a st)"
    unfolding delete_files_body_def Let_def case_prod_beta'
    by (intro gives_if gives_bind [OF gives_any [of "run_file _ _"]]
        gives_bind [OF gives_any [of "file_full_remote _ _"]] gives_bind [OF on_site_world] gives_Some)
      (use st in \<open>simp_all add: calls ask\<close>)
  show "gives (\<lambda>x. in_world W (fst x)) (create_directories_body drv os a st)"
    unfolding create_directories_body_def Let_def case_prod_beta'
    by (intro gives_if gives_bind [OF gives_any [of "run_file _ _"]]
        gives_bind [OF gives_any [of "file_full_remote _ _"]] gives_bind [OF on_site_world] gives_Some)
      (use st in \<open>simp_all add: calls ask if_distrib [of snd] if_distrib [of "in_world W"] cong: if_cong\<close>)
  show "gives (\<lambda>x. in_world W (fst x)) (move_files_body drv os a st)"
    unfolding move_files_body_def Let_def case_prod_beta'
    by (intro gives_if gives_bind [OF gives_any [of "run_file _ _"]]
        gives_bind [OF gives_any [of "file_full_remote _ _"]] gives_bind [OF on_site_world] gives_Some)
      (use st in \<open>simp_all add: calls ask\<close>)
  show "gives (\<lambda>x. in_world W (fst x)) (delete_directories_body drv os a st)"
    unfolding delete_directories_body_def Let_def case_prod_beta'
    by (intro gives_if gives_bind [OF gives_any [of "run_file _ _"]]
        gives_bind [OF gives_any [of "file_full_remote _ _"]] gives_bind [OF on_site_world] gives_Some)
      (use st in \<open>simp_all add: calls ask\<close>)
qed

lemma update_files_world:
  assumes os: "\<And>f w. W w \<Longrightarrow> W (snd (o_can_update os f w))" and st: "in_world W (fst st)"
  shows "gives (\<lambda>x. in_world W (fst x)) (update_files_body drv os a st)"
proof -
  have ask: "in_world W r \<Longrightarrow> in_world W (snd (call (o_can_update os f) r))" for r f
    by (erule call_world, erule os)
  show ?thesis
    unfolding update_files_body_def Let_def case_prod_beta'
    by (intro gives_if gives_bind [OF gives_any [of "run_file _ _"]]
        gives_bind [OF gives_any [of "file_full_remote _ _"]] gives_bind [OF gives_any [of "file_full_local _ _"]]
        gives_bind [OF file_chmod_world] upload_body_world gives_Some)
      (use st in \<open>simp_all add: calls ask\<close>)
qed

lemma loops_world:
  assumes "\<And>a st. in_world W (fst st) \<Longrightarrow> gives (\<lambda>x. in_world W (fst x)) (body a st)" "in_world W r"
  shows "gives (\<lambda>x. in_world W (fst x)) (forwards body r)" "gives (\<lambda>x. in_world W (fst x)) (backwards body r)"
  unfolding forwards_def backwards_def by (rule gives_for_each; use assms in simp)+

lemma run_handlers_world:
  assumes "\<forall>(func, guard) \<in> set xs. \<forall>r. in_world W r \<longrightarrow> gives (\<lambda>x. in_world W (fst x)) (func r)"
  shows "in_world W r \<Longrightarrow> gives (\<lambda>x. in_world W (fst x)) (run_handlers kg xs r ret)"
  using assms
proof (induction xs arbitrary: r ret)
  case (Cons h xs)
  obtain func guard where h: "h = (func, guard)" by (cases h)
  have "gives (\<lambda>x. in_world W (fst x)) (Option.bind (func r)
      (\<lambda>(r, newret). run_handlers kg' xs r (if newret \<noteq> 0 then newret else ret)))"
    if "kg' = kg" for kg'
    by (rule gives_bind [of "\<lambda>x. in_world W (fst x)"]) (use Cons h that in auto)
  then show ?case using Cons by (auto simp: h gives_Some)
qed (simp add: gives_Some)

lemma site_update_world:
  assumes os: "\<And>f w. W w \<Longrightarrow> W (snd (o_can_update os f w))"
    and r: "W (snd (d_init drv ((r_site r)\<lparr>s_last_error := None\<rparr>) (r_world r)))"
  shows "gives (\<lambda>x. W (r_world (fst x))) (site_update drv os r)"
proof -
  have i: "in_world W (snd (proto_init drv r))"
    using r by (auto simp: proto_init_def proto_seterror_def in_world_def call_def Let_def
        case_prod_beta')
  have fin: "W (r_world (proto_finish drv q))" if "in_world W q" for q
    using that by (simp add: proto_finish_def proto_seterror_def in_world_def drv_finish Let_def)
  have "gives (\<lambda>x. in_world W (fst x))
      (run_handlers kg (handlers drv os s) (snd (proto_init drv r)) 0)" for kg s
    by (rule run_handlers_world [OF _ i])
      (auto simp: handlers_def update_delete_files_def update_create_directories_def
        update_move_files_def update_files_def update_links_def update_delete_directories_def
        intro!: loops_world bodies_world [OF os] update_files_world [OF os] links_world)
  then have "gives (\<lambda>x. W (r_world (fst x))) (Option.bind
      (run_handlers kg (handlers drv os s) (snd (proto_init drv r)) 0)
      (\<lambda>x. Some (proto_finish drv (fst x), F x)))" for kg s F
    by (rule gives_bind) (simp add: gives_Some fin)
  then show ?thesis
    unfolding site_update_def Let_def case_prod_beta'
    by (intro gives_if) (use i fin in \<open>auto simp: gives_Some\<close>)
qed

end

end
