(* ===== verification/Rsh_Driver.thy ===== *)
theory Rsh_Driver
  imports Rcfile_Verify Ls_Listing Update_World
begin

text \<open>
  The rsh driver, \<^verbatim>\<open>src/rshdriver.c\<close>, and the driver that does nothing, \<^verbatim>\<open>src/nulldriver.c\<close>, as
  values of \<^typ>\<open>'w proto_driver\<close>.  The rsh driver runs shell commands; \<^verbatim>\<open>system\<close> and \<^verbatim>\<open>popen\<close>
  are parameters that act on the world.  Text that \<^verbatim>\<open>ne_vsnprintf\<close> puts into the buffer of
  \<open>BUFSIZ\<close> bytes is cut there.
\<close>

section \<open>The rsh driver\<close>

record 'w shell =
  sh_system :: "string \<Rightarrow> 'w \<Rightarrow> int \<times> 'w"
  sh_popen :: "string \<Rightarrow> 'w \<Rightarrow> (string \<times> int) option \<times> 'w"

text \<open>The session: the host must be there, or \<^verbatim>\<open>ne_concat\<close> would end at the NULL.\<close>

record rsh_session =
  rs_host :: string
  rs_username :: "string option"
  rs_rsh_cmd :: string
  rs_rcp_cmd :: string

definition rsh_init :: "site \<Rightarrow> rsh_session option" where
  "rsh_init s =
     do { host \<leftarrow> h_hostname (s_server s);
          Some \<lparr>rs_host = host, rs_username = h_username (s_server s),
            rs_rsh_cmd = (case s_rsh_cmd s of Some c \<Rightarrow> c | None \<Rightarrow> ''rsh''),
            rs_rcp_cmd = (case s_rcp_cmd s of Some c \<Rightarrow> c | None \<Rightarrow> ''rcp'')\<rparr> }"

datatype rcommand = RCP | RSH | RSH_PIPE_READ | RSH_PIPE_WRITE

definition buffered :: "string \<Rightarrow> string" where "buffered text = take (BUFSIZ - 1) text"

definition rcmd :: "rcommand \<Rightarrow> rsh_session \<Rightarrow> string \<Rightarrow> string" where
  "rcmd k sess args =
     (let buf = buffered args in
      if k = RCP then rs_rcp_cmd sess @ ''  2>/dev/null '' @ buf
      else case rs_username sess of
        Some username \<Rightarrow> rs_rsh_cmd sess @ '' -l '' @ username @ ''  2>/dev/null '' @ rs_host sess
          @ '' '' @ buf
      | None \<Rightarrow> rs_rsh_cmd sess @ '' 2>/dev/null '' @ rs_host sess @ '' '' @ buf)"

text \<open>The two ways \<open>run_rcmd\<close> runs it.\<close>

definition run_rcmd :: "rcommand \<Rightarrow> 'w shell \<Rightarrow> rsh_session \<Rightarrow> string \<Rightarrow> 'w \<Rightarrow> int \<times> 'w" where
  "run_rcmd k sh sess args w =
     (let (st, w) = sh_system sh (rcmd k sess args) w
      in (if st = 0 then SITE_OK else SITE_FAILED, w))"

definition run_rcmd_pipe ::
    "'w shell \<Rightarrow> rsh_session \<Rightarrow> string \<Rightarrow> 'w \<Rightarrow> (string \<times> int) option \<times> 'w" where
  "run_rcmd_pipe sh sess args w = sh_popen sh (rcmd RSH_PIPE_READ sess args) w"

definition quote1 :: "string \<Rightarrow> string" where "quote1 t = [CHR 0x27] @ t @ [CHR 0x27]"

definition rsh_move where
  "rsh_move sh sess from to = run_rcmd RSH sh sess (''mv '' @ quote1 from @ '' '' @ quote1 to)"

definition rsh_upload :: "'w shell \<Rightarrow> rsh_session \<Rightarrow> string \<Rightarrow> string \<Rightarrow> bool \<Rightarrow> 'w \<Rightarrow> int \<times> 'w" where
  "rsh_upload sh sess loc remote ascii =
     (case rs_username sess of
        Some username \<Rightarrow> run_rcmd RCP sh sess
          (quote1 loc @ '' '' @ quote1 (username @ ''@'' @ rs_host sess @ '':'' @ remote))
      | None \<Rightarrow> run_rcmd RCP sh sess
          (quote1 loc @ '' '' @ quote1 (rs_host sess @ '':'' @ remote)))"

fun blocks :: "nat \<Rightarrow> nat \<Rightarrow> string \<Rightarrow> string list" where
  "blocks 0 n s = []"
| "blocks (Suc k) n s = (if s = [] then [] else take n s # blocks k n (drop n s))"

text \<open>\<^verbatim>\<open>fread\<close> until the end: the blocks handed to the reader, \<open>BUFSIZ\<close> bytes each.\<close>

definition rsh_read :: "'w shell \<Rightarrow> rsh_session \<Rightarrow> string \<Rightarrow> 'w \<Rightarrow> (int \<times> string list) \<times> 'w" where
  "rsh_read sh sess remote w =
     (let (p, w) = run_rcmd_pipe sh sess (''cat '' @ quote1 remote) w in
      case p of
        None \<Rightarrow> ((SITE_FAILED, []), w)
      | Some (text, st) \<Rightarrow>
          ((if st = 0 then SITE_OK else SITE_FAILED, blocks (length text) BUFSIZ text), w))"

text \<open>
  \<open>fetch_list\<close>: an entry \<open>junk\<close> stands for the uninitialised \<^verbatim>\<open>lfile\<close>.  A line that cannot be
  parsed sets \<^verbatim>\<open>success\<close>, which nothing reads.  \<^const>\<open>None\<close> is \<open>ls_init\<close> of an empty name.
\<close>

definition rsh_fetch :: "ls_entry \<Rightarrow> string \<Rightarrow> string \<Rightarrow> proto_file list option" where
  "rsh_fetch junk startdir text =
     do { lsctx \<leftarrow> ls_init startdir;
          (ctx, lt) \<leftarrow> ls_run lsctx junk (map c_string (fgets_lines BUFSIZ text)) ([], None);
          Some (map snd (fst lt)) }"

definition rsh_fetch_list ::
    "ls_entry \<Rightarrow> 'w shell \<Rightarrow> rsh_session \<Rightarrow> string \<Rightarrow> 'w \<Rightarrow> ((int \<times> proto_file list) \<times> 'w) option" where
  "rsh_fetch_list junk sh sess dirname w =
     (let (p, w) = run_rcmd_pipe sh sess (''ls -la '' @ quote1 dirname) w in
      case p of
        None \<Rightarrow> Some ((SITE_FAILED, []), w)
      | Some (text, st) \<Rightarrow>
          do { files \<leftarrow> rsh_fetch junk dirname text;
               Some ((if st = 0 then SITE_OK else SITE_FAILED, files), w) })"

text \<open>
  The driver.  It is only asked for directories below a root, whose names end with a slash, so
  the undefined case of \<open>rsh_fetch_list\<close> is out of reach and is filled with a failure.
\<close>

definition rsh_driver_ops :: "ls_entry \<Rightarrow> 'w shell \<Rightarrow> rsh_session \<Rightarrow> 'w proto_driver" where
  "rsh_driver_ops junk sh sess =
     \<lparr>d_init = (\<lambda>s w. (SITE_OK, w)), d_finish = id,
      d_file_move = rsh_move sh sess,
      d_file_upload = rsh_upload sh sess,
      d_file_upload_cond = (\<lambda>_ _ _ _ w. (SITE_UNSUPPORTED, w)),
      d_file_get_modtime = (\<lambda>_ w. ((SITE_UNSUPPORTED, 0), w)),
      d_file_download = (\<lambda>_ _ _ w. (SITE_UNSUPPORTED, w)),
      d_file_read = rsh_read sh sess,
      d_file_delete = (\<lambda>f. run_rcmd RSH sh sess (''rm '' @ quote1 f)),
      d_file_chmod = (\<lambda>f m. run_rcmd RSH sh sess (''chmod '' @ show_oct3 (unat m) @ '' '' @ quote1 f)),
      d_dir_create = (\<lambda>d. run_rcmd RSH sh sess (''mkdir '' @ quote1 d)),
      d_dir_remove = (\<lambda>d. run_rcmd RSH sh sess (''rmdir '' @ quote1 d)),
      d_link_create = None, d_link_change = None, d_link_delete = None,
      d_fetch_list = Some (\<lambda>d _ w. case rsh_fetch_list junk sh sess d w of
        Some r \<Rightarrow> r | None \<Rightarrow> ((SITE_FAILED, []), w)),
      d_error = (\<lambda>_. ''An error occurred.''),
      d_get_server_port = (\<lambda>_. 0), d_get_proxy_port = (\<lambda>_. 0),
      d_protocol_name = ''rsh/rcp''\<rparr>"

section \<open>The null driver\<close>

definition null_driver_ops :: "('w \<Rightarrow> int) \<Rightarrow> 'w proto_driver" where
  "null_driver_ops time =
     \<lparr>d_init = (\<lambda>s w. (SITE_OK, w)), d_finish = id,
      d_file_move = (\<lambda>_ _ w. (SITE_OK, w)),
      d_file_upload = (\<lambda>_ _ _ w. (SITE_OK, w)),
      d_file_upload_cond = (\<lambda>_ _ _ _ w. (SITE_OK, w)),
      d_file_get_modtime = (\<lambda>_ w. ((SITE_OK, time w), w)),
      d_file_download = (\<lambda>_ _ _ w. (SITE_OK, w)),
      d_file_read = (\<lambda>_ w. ((SITE_OK, []), w)),
      d_file_delete = (\<lambda>_ w. (SITE_OK, w)),
      d_file_chmod = (\<lambda>_ _ w. (SITE_OK, w)),
      d_dir_create = (\<lambda>_ w. (SITE_OK, w)),
      d_dir_remove = (\<lambda>_ w. (SITE_OK, w)),
      d_link_create = Some (\<lambda>_ _ w. (SITE_UNSUPPORTED, w)),
      d_link_change = Some (\<lambda>_ _ w. (SITE_UNSUPPORTED, w)),
      d_link_delete = Some (\<lambda>_ w. (SITE_UNSUPPORTED, w)),
      d_fetch_list = Some (\<lambda>_ _ w. ((SITE_OK, []), w)),
      d_error = (\<lambda>_. ''No error occurred''),
      d_get_server_port = (\<lambda>_. 0), d_get_proxy_port = (\<lambda>_. 0),
      d_protocol_name = ''NULL''\<rparr>"

lemma null_driver_accepts: "accepts (null_driver_ops time)"
  by (simp add: accepts_def null_driver_ops_def)

text \<open>An update over it leaves the world as it is.\<close>

interpretation null: keeps_world "null_driver_ops time" W for time W
  by unfold_locales (auto simp: null_driver_ops_def)

lemma null_update_world:
  assumes "\<And>f w. snd (o_can_update os f w) = w"
  shows "gives (\<lambda>x. r_world (fst x) = r_world r) (site_update (null_driver_ops time) os r)"
  using null.site_update_world [where W = "\<lambda>w. w = r_world r" and r = r and os = os] assms
  by (simp add: null_driver_ops_def)

section \<open>Listing a directory\<close>

lemma show_nat_line:
  assumes "int n \<le> LONG_MAX"
  shows "NL \<notin> set (show_nat n) \<and> NULc \<notin> set (show_nat n) \<and> length (show_nat n) \<le> 10"
proof -
  have "c \<noteq> NL \<and> c \<noteq> NULc" if "c \<in> set (digits 10 n)" for c
  proof -
    have "\<exists>d<10. c = digit_char d" using that by (intro digits_all) simp_all
    then obtain d where d: "d < 10" "c = digit_char d" by blast
    then have "code c = 48 + d" by (simp add: digit_char_def code_char_of)
    then show ?thesis using d(1) by (auto simp: NL_def NULc_def)
  qed
  moreover have "length (digits 10 n) \<le> 10"
    using assms by (intro digits_length) (simp_all add: LONG_MAX_def)
  ultimately show ?thesis unfolding show_nat_def by blast
qed

text \<open>C37.  What the server prints for \<^verbatim>\<open>ls -la\<close>, with any number of spaces between the fields,
  comes out as the list of its regular files, in the opposite order, and then of its directories
  without \<open>.\<close> and \<open>..\<close>, each with its name, size and permission bits; links and devices are
  left out.\<close>
theorem rsh_fetch_correct:
  assumes "\<forall>l \<in> set ls. ls_line_ok l \<and> CHR ''/'' \<notin> set (ll_name l) \<and> line_text BUFSIZ (ls_text l)"
    and "int total_blocks \<le> LONG_MAX" "dirname \<noteq> []"
    and "sh_popen sh (rcmd RSH_PIPE_READ sess (''ls -la '' @ quote1 dirname)) w
      = (Some (concat (ls_output total_blocks [NL] ls), st), w')"
  shows "rsh_fetch_list junk sh sess dirname w
    = Some ((if st = 0 then SITE_OK else SITE_FAILED, files_then_dirs ls), w')"
proof -
  let ?bare = "(''total '' @ show_nat total_blocks) # map ls_text ls"
  have out: "ls_output total_blocks [NL] ls = map (\<lambda>l. l @ [NL]) ?bare"
    by (simp add: ls_output_def)
  have "line_text BUFSIZ (''total '' @ show_nat total_blocks)"
    using show_nat_line [OF assms(2)] by (auto simp: line_text_def BUFSIZ_def NL_def NULc_def)
  then have short: "line_text BUFSIZ l" if "l \<in> set ?bare" for l
    using that assms(1) by auto
  have lines: "fgets_lines BUFSIZ (concat (ls_output total_blocks [NL] ls)) = ls_output total_blocks [NL] ls"
    unfolding out by (rule fgets_lines_text) (rule short)
  have c: "c_string (l @ [NL]) = l @ [NL]" if "l \<in> set ?bare" for l
    using short [OF that] by (intro c_string_text) (auto simp: line_text_def NL_def NULc_def)
  have "map c_string (ls_output total_blocks [NL] ls) = ls_output total_blocks [NL] ls"
    unfolding out map_map by (rule map_cong [OF refl]) (simp only: comp_def c)
  moreover obtain ctx where ctx: "ls_init dirname = Some ctx"
    using assms(3) by (simp add: ls_init_def)
  moreover have "set [NL] \<subseteq> set ls_white" by (simp add: ls_white_def NL_def)
  ultimately have "rsh_fetch junk dirname (concat (ls_output total_blocks [NL] ls)) = Some (files_then_dirs ls)"
    using ls_run_output [of ls "[NL]" dirname ctx junk total_blocks] assms(1)
    by (auto simp: rsh_fetch_def lines)
  then show ?thesis
    unfolding rsh_fetch_list_def run_rcmd_pipe_def assms(4) by simp
qed

definition listed_lines :: "ls_line list" where
  "listed_lines = [
     \<lparr>ll_type = CHR ''d'', ll_mode = 493, ll_links = ''2'', ll_user = ''joe'', ll_group = ''www'',
      ll_size = 64, ll_month = ''Jan'', ll_day = ''1'', ll_time = ''12:00'', ll_name = ''img'',
      ll_gaps = (\<lambda>_. '' '')\<rparr>,
     \<lparr>ll_type = CHR ''-'', ll_mode = 420, ll_links = ''1'', ll_user = ''joe'', ll_group = ''www'',
      ll_size = 12, ll_month = ''Jan'', ll_day = ''1'', ll_time = ''12:00'', ll_name = ''a b.html'',
      ll_gaps = (\<lambda>i. if i = 3 then ''   '' else '' '')\<rparr>]"

definition no_entry :: ls_entry where
  "no_entry = \<lparr>lf_mode = 0, lf_size = 0, lf_name = []\<rparr>"

definition listing_shell :: "unit shell" where
  "listing_shell = \<lparr>sh_system = (\<lambda>_ w. (0, w)),
     sh_popen = (\<lambda>_ w. (Some (concat (ls_output 8 [NL] listed_lines), 0), w))\<rparr>"

definition plain_session :: rsh_session where
  "plain_session = \<lparr>rs_host = ''h'', rs_username = None, rs_rsh_cmd = ''rsh'', rs_rcp_cmd = ''rcp''\<rparr>"

lemma listed_lines_ok:
  "\<forall>l \<in> set listed_lines. ls_line_ok l \<and> CHR ''/'' \<notin> set (ll_name l) \<and> line_text BUFSIZ (ls_text l)"
proof -
  have n: "show_nat 64 = ''64''" "show_nat 12 = ''12''" by code_simp+
  have p: "perm_string 493 = ''rwxr-xr-x''" "perm_string 420 = ''rw-r--r--''" by code_simp+
  show ?thesis
    by (simp add: listed_lines_def ls_line_ok_def field_def gap_def name_ok_def ls_white_def
        LONG_MAX_def line_text_def ls_text_def n p BUFSIZ_def NL_def NULc_def)
qed

theorem rsh_fetch_correct_witness:
  "rsh_fetch_list no_entry listing_shell plain_session ''/www/'' ()
   = Some ((if (0::int) = 0 then SITE_OK else SITE_FAILED, files_then_dirs listed_lines), ())"
proof -
  have p: "sh_popen listing_shell c () = (Some (concat (ls_output 8 [NL] listed_lines), 0), ())" for c
    by (simp only: listing_shell_def shell.select_convs)
  have "int 8 \<le> LONG_MAX" by (simp add: LONG_MAX_def)
  then show ?thesis
    by (rule rsh_fetch_correct [OF listed_lines_ok _ _ p]) (rule list.distinct)
qed

section \<open>What the driver cannot do\<close>

text \<open>A shell that records its commands, and a site as \<^verbatim>\<open>site_fetch\<close> in safe mode leaves it: the
  server has the file, with a time; since then the file was changed here.\<close>

definition recording_shell :: "string list shell" where
  "recording_shell = \<lparr>sh_system = (\<lambda>c w. (0, w @ [c])), sh_popen = (\<lambda>c w. (None, w @ [c]))\<rparr>"

definition changed_file :: site_file where
  "changed_file = zero_file\<lparr>sf_diff := file_changed,
     sf_local := zero_state\<lparr>fs_filename := Some ''a'', fs_time := 2, fs_size := 2, fs_exists := True\<rparr>,
     sf_stored := zero_state\<lparr>fs_filename := Some ''a'', fs_time := 1, fs_size := 1, fs_exists := True\<rparr>,
     sf_server := zero_state\<lparr>fs_time := 1, fs_exists := True\<rparr>\<rparr>"

definition safe_rsh_site :: site where
  "safe_rsh_site = zero_site\<lparr>s_files := [(1, changed_file)], s_numchanged := 1, s_totalchanged := 2,
     s_local_is_different := True, s_remote_is_different := True, s_safemode := True,
     s_protocol := siteproto_rsh, s_server := zero_host\<lparr>h_hostname := Some ''h''\<rparr>,
     s_remote_root := Some ''/www/'', s_local_root := Some ''/home/''\<rparr>"

definition agreeing_os :: "string list os" where
  "agreeing_os = \<lparr>o_mkdir = (\<lambda>_ _ w. (None, w)), o_rmdir = (\<lambda>_ w. (None, w)),
     o_unlink = (\<lambda>_ w. (None, w)), o_rename = (\<lambda>_ _ w. (None, w)),
     o_chmod = (\<lambda>_ _ w. (None, w)), o_utime = (\<lambda>_ _ w. (None, w)),
     o_can_update = (\<lambda>_ w. (True, w))\<rparr>"

definition updated_quietly :: "(string list run \<times> int) option \<Rightarrow> bool" where
  "updated_quietly res =
     (case res of
        None \<Rightarrow> False
      | Some (r, ret) \<Rightarrow>
          ret = SITE_OK \<and> r_world r = [] \<and> \<not> s_remote_is_different (r_site r)
          \<and> list_all (\<lambda>(a, f). sf_diff f = file_unchanged) (s_files (r_site r)))"

text \<open>In safe mode the rsh driver loses an upload: it answers SITE_UNSUPPORTED to the
  conditional upload, which \<^verbatim>\<open>update_files\<close> takes for a success.  A changed file whose time on the
  server is known is marked as uploaded, the update returns SITE_OK and leaves nothing to do, and
  not a single command was run.\<close>
theorem rsh_safemode_skips_upload:
  "updated_quietly
     (site_update (rsh_driver_ops no_entry recording_shell plain_session) agreeing_os
        \<lparr>r_site = safe_rsh_site, r_world = [], r_log = []\<rparr>)"
proof -
  have "updated_quietly (site_update \<lparr>d_init = (\<lambda>s w. (SITE_OK, w)), d_finish = id,
      d_file_move = mv, d_file_upload = up, d_file_upload_cond = (\<lambda>_ _ _ _ w. (SITE_UNSUPPORTED, w)),
      d_file_get_modtime = (\<lambda>_ w. ((SITE_UNSUPPORTED, 0), w)),
      d_file_download = (\<lambda>_ _ _ w. (SITE_UNSUPPORTED, w)),
      d_file_read = rd, d_file_delete = del, d_file_chmod = ch, d_dir_create = mk, d_dir_remove = rm,
      d_link_create = None, d_link_change = None, d_link_delete = None, d_fetch_list = fl,
      d_error = (\<lambda>_. e), d_get_server_port = (\<lambda>_. 0), d_get_proxy_port = (\<lambda>_. 0),
      d_protocol_name = n\<rparr> agreeing_os \<lparr>r_site = safe_rsh_site, r_world = [], r_log = []\<rparr>)"
    for mv up rd del ch mk rm fl e n
    by code_simp
  then show ?thesis unfolding rsh_driver_ops_def .
qed

definition maintain_rcfile :: string where
  "maintain_rcfile =
     ''site a'' @ [NL] @ ''server h'' @ [NL] @ ''protocol rsh'' @ [NL] @ ''symlinks maintain'' @ [NL]
     @ ''remote /r'' @ [NL] @ ''local /l'' @ [NL]"

definition new_link :: site_file where
  "new_link = zero_file\<lparr>sf_type := file_link, sf_diff := file_new, sf_local :=
     zero_state\<lparr>fs_filename := Some ''l'', fs_linktarget := Some ''t'', fs_exists := True\<rparr>\<rparr>"

text \<open>The site of that rcfile, as accepted, with one new symbolic link.\<close>

definition update_with_link :: "site \<Rightarrow> (string list run \<times> int) option" where
  "update_with_link s =
     site_update (rsh_driver_ops no_entry recording_shell plain_session) agreeing_os
       \<lparr>r_site = s\<lparr>s_files := [(1, new_link)], s_numnew := 1, s_local_is_different := True,
          s_remote_is_different := True\<rparr>, r_world = [], r_log = []\<rparr>"

definition maintain_site :: site where
  "maintain_site = (new_site ''/c/'' ''a'' default_site)\<lparr>
     s_server := zero_host\<lparr>h_hostname := Some ''h''\<rparr>, s_protocol := siteproto_rsh,
     s_proto_string := ''rsh'', s_symlinks := sitesym_maintain,
     s_remote_root_user := Some ''/r/'', s_local_root_user := Some ''/l/''\<rparr>"

definition maintain_verified :: site where
  "maintain_verified = maintain_site\<lparr>s_driver := Some rsh_driver, s_remote_root := Some ''/r/'',
     s_local_root := Some ''/l/'', s_server := zero_host\<lparr>h_hostname := Some ''h'', h_port := 21\<rparr>\<rparr>"

text \<open>\<^verbatim>\<open>rcfile_verify\<close> accepts \<^verbatim>\<open>symlinks maintain\<close> for the rsh protocol, whose driver has no
  functions for links: the update of a new link calls through a null pointer.\<close>
theorem rsh_maintain_crashes:
  "\<exists>s t lines err. rcfile_read ''/c/'' (Inr maintain_rcfile) 0 = Some (0, [s], lines, err)
     \<and> rcfile_verify (example_env None) s = Some (0, t) \<and> update_with_link t = None"
proof (intro exI conjI)
  show "rcfile_read ''/c/'' (Inr maintain_rcfile) 0 = Some (0, [maintain_site], 6, Some ''local /l'')"
    by code_simp
  show "rcfile_verify (example_env None) maintain_site = Some (0, maintain_verified)"
    by code_simp
  have "site_update \<lparr>d_init = (\<lambda>s w. (SITE_OK, w)), d_finish = id,
      d_file_move = mv, d_file_upload = up, d_file_upload_cond = uc, d_file_get_modtime = mt,
      d_file_download = dl, d_file_read = rd, d_file_delete = del, d_file_chmod = ch,
      d_dir_create = mk, d_dir_remove = rm,
      d_link_create = None, d_link_change = None, d_link_delete = None, d_fetch_list = fl,
      d_error = (\<lambda>_. e), d_get_server_port = (\<lambda>_. 0), d_get_proxy_port = (\<lambda>_. 0),
      d_protocol_name = n\<rparr> agreeing_os
      \<lparr>r_site = maintain_verified\<lparr>s_files := [(1, new_link)], s_numnew := 1,
        s_local_is_different := True, s_remote_is_different := True\<rparr>, r_world = [], r_log = []\<rparr> = None"
    for mv up uc mt dl rd del ch mk rm fl e n
    by code_simp
  then show "update_with_link maintain_verified = None"
    unfolding update_with_link_def rsh_driver_ops_def .
qed

end
