(* ===== verification/Ftp_Text.thy ===== *)
theory Ftp_Text
  imports Ls_Listing
begin

text \<open>
  The texts of the FTP client \<^verbatim>\<open>src/ftp.c\<close>: the replies to \<^verbatim>\<open>MDTM\<close>, \<^verbatim>\<open>PASV\<close> and \<^verbatim>\<open>EPSV\<close>, with the
  conversions of \<^verbatim>\<open>sscanf\<close> they use, and the translation of line ends in an upload in ASCII mode.
  A reply is the C string in the reply buffer; a read beyond its NUL is \<^const>\<open>None\<close>.
\<close>

section \<open>Return codes\<close>

abbreviation (input) FTP_OK :: int where "FTP_OK \<equiv> 0"
abbreviation (input) FTP_NEEDPASSWORD :: int where "FTP_NEEDPASSWORD \<equiv> 1"
abbreviation (input) FTP_PASSIVE :: int where "FTP_PASSIVE \<equiv> 2"
abbreviation (input) FTP_READY :: int where "FTP_READY \<equiv> 3"
abbreviation (input) FTP_FILEMORE :: int where "FTP_FILEMORE \<equiv> 4"
abbreviation (input) FTP_MODTIME :: int where "FTP_MODTIME \<equiv> 5"
abbreviation (input) FTP_SENT :: int where "FTP_SENT \<equiv> 6"
abbreviation (input) FTP_CLOSED :: int where "FTP_CLOSED \<equiv> 101"
abbreviation (input) FTP_FILEBAD :: int where "FTP_FILEBAD \<equiv> 102"
abbreviation (input) FTP_FAILED :: int where "FTP_FAILED \<equiv> 103"
abbreviation (input) FTP_LOOKUP :: int where "FTP_LOOKUP \<equiv> 991"
abbreviation (input) FTP_CONNECT :: int where "FTP_CONNECT \<equiv> 992"
abbreviation (input) FTP_HELLO :: int where "FTP_HELLO \<equiv> 993"
abbreviation (input) FTP_LOGIN :: int where "FTP_LOGIN \<equiv> 994"
abbreviation (input) FTP_BROKEN :: int where "FTP_BROKEN \<equiv> 995"
abbreviation (input) FTP_NOPASSIVE :: int where "FTP_NOPASSIVE \<equiv> 998"
abbreviation (input) FTP_ERROR :: int where "FTP_ERROR \<equiv> 999"

text \<open>\<open>f2s\<close> of \<^verbatim>\<open>src/ftpdriver.c\<close>.\<close>

definition f2s :: "int \<Rightarrow> int" where
  "f2s errcode =
     (if errcode = FTP_OK then SITE_OK
      else if errcode = FTP_LOOKUP then SITE_LOOKUP
      else if errcode = FTP_CONNECT then SITE_CONNECT
      else if errcode = FTP_FAILED then SITE_FAILED
      else if errcode = FTP_LOGIN then SITE_AUTH
      else SITE_ERRORS)"

section \<open>Conversions of sscanf\<close>

text \<open>\<^verbatim>\<open>%<w>d\<close> reads at most \<open>w\<close> characters, \<^verbatim>\<open>%u\<close> any number; both skip white space first.\<close>

definition scan_d :: "nat \<Rightarrow> string \<Rightarrow> (int \<times> string) option" where
  "scan_d w s =
     (let s = dropWhile isspace s;
          (neg, r) = strip_sign s;
          ds = takeWhile isdigit (take (w - (length s - length r)) r)
      in if ds = [] then None
         else Some (if neg then - int (number 10 ds) else int (number 10 ds), drop (length ds) r))"

definition scan_u :: "string \<Rightarrow> (32 word \<times> string) option" where
  "scan_u s =
     (let (neg, r) = strip_sign (dropWhile isspace s)
      in if takeWhile isdigit r = [] then None
         else Some (word_of_int (strtoul s 10), dropWhile isdigit r))"

definition scan_char :: "char \<Rightarrow> string \<Rightarrow> string option" where
  "scan_char c s = (case s of x # r \<Rightarrow> if x = c then Some r else None | [] \<Rightarrow> None)"

section \<open>Replies\<close>

record tm =
  tm_year :: int
  tm_mon :: int
  tm_mday :: int
  tm_hour :: int
  tm_min :: int
  tm_sec :: int

text \<open>The six fields of \<^verbatim>\<open>"213 %4d%2d%2d%2d%2d%2d"\<close>.\<close>

definition scan_modtime :: "string \<Rightarrow> tm option" where
  "scan_modtime s =
     do { s \<leftarrow> scan_char CHR ''2'' s; s \<leftarrow> scan_char CHR ''1'' s; s \<leftarrow> scan_char CHR ''3'' s;
          (y, s) \<leftarrow> scan_d 4 (dropWhile isspace s);
          (mo, s) \<leftarrow> scan_d 2 s;
          (d, s) \<leftarrow> scan_d 2 s;
          (h, s) \<leftarrow> scan_d 2 s;
          (mi, s) \<leftarrow> scan_d 2 s;
          (se, s) \<leftarrow> scan_d 2 s;
          Some \<lparr>tm_year = y - 1900, tm_mon = mo - 1, tm_mday = d, tm_hour = h, tm_min = mi,
            tm_sec = se\<rparr> }"

text \<open>The reply without its line end; \<^verbatim>\<open>Inl\<close> is the error message.\<close>

definition parse_modtime :: "string \<Rightarrow> string + tm" where
  "parse_modtime response =
     (let response = cut_end [CHR 0x0D, CHR 0x0A] response in
      if length response \<noteq> 18 then Inl ''Cannot parse MDTM response; wrong length.''
      else case scan_modtime response of
        None \<Rightarrow> Inl ''Cannot parse MDTM response.''
      | Some t \<Rightarrow> Inr t)"

datatype dtp_addr = ipv4_addr "8 word" "8 word" "8 word" "8 word" | peer_addr nat

definition scan_pasv :: "string \<Rightarrow> (dtp_addr \<times> 16 word) option" where
  "scan_pasv s =
     do { (h1, s) \<leftarrow> scan_u s; s \<leftarrow> scan_char CHR '','' s;
          (h2, s) \<leftarrow> scan_u s; s \<leftarrow> scan_char CHR '','' s;
          (h3, s) \<leftarrow> scan_u s; s \<leftarrow> scan_char CHR '','' s;
          (h4, s) \<leftarrow> scan_u s; s \<leftarrow> scan_char CHR '','' s;
          (p1, s) \<leftarrow> scan_u s; s \<leftarrow> scan_char CHR '','' s;
          (p2, s) \<leftarrow> scan_u s;
          Some (ipv4_addr (ucast (and h1 255)) (ucast (and h2 255)) (ucast (and h3 255))
                  (ucast (and h4 255)),
                ucast (or (push_bit 8 p1) p2)) }"

definition parse_pasv_reply :: "string \<Rightarrow> string + dtp_addr \<times> 16 word" where
  "parse_pasv_reply reply =
     (case strchr reply CHR '' '' of
        None \<Rightarrow> Inl ''Could not find address in PASV response''
      | Some start \<Rightarrow>
          (case scan_pasv (dropWhile (\<lambda>c. \<not> isdigit c) start) of
             None \<Rightarrow> Inl ''Could not parse PASV response''
           | Some r \<Rightarrow> Inr r))"

text \<open>
  The reply \<^verbatim>\<open>229 text (|||port|)\<close>.  The buffer is looked at as it is, with its NUL at the end, since
  \<open>ptr[1]\<close> to \<open>ptr[3]\<close> are read without a test for it.
\<close>

definition parse_epasv_reply :: "string \<Rightarrow> (string + 16 word) option" where
  "parse_epasv_reply buf =
     (let bad = Some (Inl ''Malformed EPSV response'') in
      case strchr (c_string buf) CHR ''('' of
        None \<Rightarrow> bad
      | Some p \<Rightarrow>
          (let ptr = drop (length (c_string buf) - length p) (buf @ [NULc]) in
           if length ptr < 3 then None
           else if ptr ! 1 \<noteq> ptr ! 2 then bad
           else if length ptr < 4 then None
           else if ptr ! 1 \<noteq> ptr ! 3 then bad
           else if length ptr < 5 then None
           else case strchr (c_string (drop 4 ptr)) CHR '')'' of
             None \<Rightarrow> bad
           | Some e \<Rightarrow>
               (let arg = takeWhile (\<lambda>c. c \<noteq> CHR '')'') (drop 4 ptr) in
                if arg = [] \<or> last arg \<noteq> ptr ! 1 then bad
                else if dropWhile isdigit (snd (strip_sign (dropWhile isspace (butlast arg)))) \<noteq> []
                  \<or> (takeWhile isdigit (snd (strip_sign (dropWhile isspace (butlast arg)))) = []
                     \<and> butlast arg \<noteq> [])
                then Some (Inl ''Malformed port in EPSV response'')
                else Some (Inr (word_of_int (strtol (butlast arg) 10))))))"

section \<open>Line ends\<close>

text \<open>What \<open>send_file_ascii\<close> sends for one buffer of \<^verbatim>\<open>fgets\<close>, and for a file.\<close>

definition ascii_buffer :: "string \<Rightarrow> string" where
  "ascii_buffer buffer =
     (let line = c_string buffer in
      if CHR 0x0D \<in> set line
      then takeWhile (\<lambda>c. c \<noteq> CHR 0x0D) line @ [CHR 0x0D, CHR 0x0A]
      else if CHR 0x0A \<in> set line
      then takeWhile (\<lambda>c. c \<noteq> CHR 0x0A) line @ [CHR 0x0D, CHR 0x0A]
      else line)"

definition ascii_buffers :: "string \<Rightarrow> string list" where
  "ascii_buffers contents = map ascii_buffer (fgets_lines (BUFSIZ - 1) contents)"

fun binary_buffers :: "nat \<Rightarrow> string \<Rightarrow> string list" where
  "binary_buffers 0 s = []"
| "binary_buffers (Suc k) s =
     (if s = [] then [] else take BUFSIZ s # binary_buffers k (drop BUFSIZ s))"

section \<open>Numbers in a reply\<close>

lemma digit_val_less_ten: "digit_val c < 10 \<longleftrightarrow> isdigit c"
  by (auto simp: digit_val_def isdigit_def)

lemma takeWhile_digit_val: "takeWhile (\<lambda>c. digit_val c < 10) s = takeWhile isdigit s"
  by (simp add: digit_val_less_ten)

lemma show_nat_isdigit: "c \<in> set (show_nat n) \<Longrightarrow> isdigit c"
  using digits_val [of 10 c n] by (simp add: show_nat_def digit_val_less_ten)

definition no_digit :: "string \<Rightarrow> bool" where
  "no_digit r \<longleftrightarrow> (case r of [] \<Rightarrow> True | c # _ \<Rightarrow> \<not> isdigit c)"

lemma digits_then:
  assumes "\<forall>c \<in> set ds. isdigit c" "no_digit r"
  shows "takeWhile isdigit (ds @ r) = ds" "dropWhile isdigit (ds @ r) = r"
  using assms by (auto simp: takeWhile_append2 dropWhile_append2 no_digit_def split: list.splits)

lemma show_nat_then:
  assumes "no_digit r"
  shows "takeWhile isdigit (show_nat n @ r) = show_nat n" "dropWhile isdigit (show_nat n @ r) = r"
  using digits_then [OF _ assms, of "show_nat n"] show_nat_isdigit by auto

lemma show_nat_start:
  "dropWhile isspace (show_nat n @ r) = show_nat n @ r"
  "strip_sign (show_nat n @ r) = (False, show_nat n @ r)"
  using dec_plain [of 10 n r] by (simp_all add: show_nat_def)

lemma number_show_nat: "number 10 (show_nat n) = n"
  using number_digits [of 10 n] by (simp add: show_nat_def)

lemma scan_u_show_nat:
  assumes "int n \<le> ULONG_MAX" "no_digit r"
  shows "scan_u (show_nat n @ r) = Some (of_nat n, r)"
proof -
  have "show_nat n \<noteq> []" by (simp add: show_nat_def digits_nonempty)
  then show ?thesis
    using assms(1) by (simp add: scan_u_def strtoul_def show_nat_start takeWhile_digit_val
        show_nat_then [OF assms(2)] number_show_nat)
qed

lemma no_digit_Cons [simp]: "no_digit (c # r) = (\<not> isdigit c)"
  by (simp add: no_digit_def)

lemma not_isdigit [simp]: "\<not> isdigit CHR '',''" "\<not> isdigit CHR '')''"
  by (simp_all add: isdigit_def)

text \<open>The port and the address of a \<^verbatim>\<open>PASV\<close> reply.\<close>

definition pasv_text :: "nat \<Rightarrow> nat \<Rightarrow> nat \<Rightarrow> nat \<Rightarrow> nat \<Rightarrow> nat \<Rightarrow> string" where
  "pasv_text h1 h2 h3 h4 p1 p2 =
     show_nat h1 @ '','' @ show_nat h2 @ '','' @ show_nat h3 @ '','' @ show_nat h4 @ '','' @
     show_nat p1 @ '','' @ show_nat p2"

lemma byte_mask: "n < 256 \<Longrightarrow> and (of_nat n :: 32 word) 255 = of_nat n"
proof -
  assume "n < 256"
  then have "take_bit 8 n = n" by (intro take_bit_nat_eq_self) simp
  moreover have "(255::32 word) = mask 8" by (simp add: mask_eq_exp_minus_1)
  ultimately show ?thesis
    by (simp only: take_bit_eq_mask [symmetric]) (metis of_nat_take_bit)
qed

lemma scan_pasv_text:
  assumes "h1 < 256" "h2 < 256" "h3 < 256" "h4 < 256" "p1 < 256" "p2 < 256" "no_digit r"
  shows "scan_pasv (pasv_text h1 h2 h3 h4 p1 p2 @ r)
    = Some (ipv4_addr (of_nat h1) (of_nat h2) (of_nat h3) (of_nat h4), of_nat (256 * p1 + p2))"
proof -
  have u: "scan_u (show_nat n @ s) = Some (of_nat n, s)" if "n < 256" "no_digit s" for n s
    using that by (intro scan_u_show_nat) (simp_all add: ULONG_MAX_def)
  have "take_bit 8 (int p2) = int p2" using assms(6) by (simp add: take_bit_int_eq_self_iff)
  then have "int (or (push_bit 8 p1) p2) = int (256 * p1 + p2)"
    using concat_bit_eq [of 8 "int p2" "int p1"]
    by (simp add: concat_bit_def or.commute push_bit_eq_mult of_nat_or_eq of_nat_push_bit)
  then have "or (push_bit 8 p1) p2 = 256 * p1 + p2" by (simp only: of_nat_eq_iff)
  then have "of_nat (256 * p1 + p2) = (of_nat (or (push_bit 8 p1) p2) :: 32 word)" by simp
  also have "\<dots> = or (push_bit 8 (of_nat p1)) (of_nat p2)"
    by (simp only: of_nat_or_eq of_nat_push_bit)
  finally have "or (push_bit 8 (of_nat p1)) (of_nat p2) = (of_nat (256 * p1 + p2) :: 32 word)" ..
  moreover have "take_bit LENGTH(32) (256 * p1 + p2) = 256 * p1 + p2"
    using assms(5,6) by (intro take_bit_nat_eq_self) simp
  ultimately have port: "ucast (or (push_bit 8 (of_nat p1)) (of_nat p2) :: 32 word)
      = (of_nat (256 * p1 + p2) :: 16 word)"
    by (simp only: unsigned_of_nat)
  have byte: "ucast (of_nat n :: 32 word) = (of_nat n :: 8 word)" if "n < 256" for n
  proof -
    have "take_bit LENGTH(32) n = n" using that by (intro take_bit_nat_eq_self) simp
    then show ?thesis by (simp only: unsigned_of_nat)
  qed
  show ?thesis
    using assms by (simp add: scan_pasv_def pasv_text_def u scan_char_def byte_mask port byte)
qed

lemma parse_pasv_text:
  assumes "h1 < 256" "h2 < 256" "h3 < 256" "h4 < 256" "p1 < 256" "p2 < 256" "no_digit r"
    and "\<forall>c \<in> set words. \<not> isdigit c"
  shows "parse_pasv_reply (''227 '' @ words @ pasv_text h1 h2 h3 h4 p1 p2 @ r)
    = Inr (ipv4_addr (of_nat h1) (of_nat h2) (of_nat h3) (of_nat h4), of_nat (256 * p1 + p2))"
proof -
  have "\<exists>c s. show_nat h1 = c # s \<and> isdigit c"
    using digits_nonempty [of 10 h1] show_nat_isdigit [of _ h1]
    by (cases "show_nat h1") (auto simp: show_nat_def)
  then have "dropWhile (\<lambda>c. \<not> isdigit c) (words @ pasv_text h1 h2 h3 h4 p1 p2 @ r)
      = pasv_text h1 h2 h3 h4 p1 p2 @ r"
    using assms(8) by (subst dropWhile_append2) (auto simp: pasv_text_def)
  moreover have "\<not> isdigit CHR '' ''" by (simp add: isdigit_def)
  ultimately show ?thesis
    using scan_pasv_text [OF assms(1-7)] by (simp add: parse_pasv_reply_def)
qed

text \<open>An \<^verbatim>\<open>EPSV\<close> reply with the delimiter \<open>d\<close>.\<close>

lemma c_string_append: "NULc \<notin> set p \<Longrightarrow> c_string (p @ s) = p @ c_string s"
  unfolding c_string_def by (rule takeWhile_append2) auto

lemma c_string_Cons: "c \<noteq> NULc \<Longrightarrow> c_string (c # s) = c # c_string s"
  by (simp add: c_string_def)

lemma strchr_append: "c \<notin> set p \<Longrightarrow> strchr (p @ s) c = strchr s c"
  by (induction p) auto

lemma parse_epasv_text:
  assumes "port < 65536" "CHR ''('' \<notin> set words" "NULc \<notin> set words"
    and "d \<noteq> NULc" "d \<noteq> CHR '')''"
  shows "parse_epasv_reply (words @ ''('' @ [d, d, d] @ show_nat port @ [d] @ '')'' @ r)
    = Some (Inr (of_nat port))"
proof -
  have plain: "NULc \<notin> set (show_nat port)" "CHR '')'' \<notin> set (show_nat port)"
    using show_nat_isdigit [of NULc port] show_nat_isdigit [of "CHR '')''" port]
    by (auto simp: NULc_def isdigit_def)
  let ?tail = "''('' @ [d, d, d] @ show_nat port @ [d] @ '')'' @ r"
  let ?rest = "''('' @ [d, d, d] @ show_nat port @ [d] @ '')'' @ c_string r"
  have "CHR ''('' \<noteq> NULc" "CHR '')'' \<noteq> NULc" by (simp_all add: NULc_def)
  then have c: "c_string (words @ ?tail) = words @ ?rest"
    using assms plain by (simp add: c_string_append c_string_Cons)
  then have s: "strchr (c_string (words @ ?tail)) CHR ''('' = Some ?rest"
    using assms(2) by (simp add: strchr_append)
  have len: "length (words @ ?rest) - length ?rest = length words" by simp
  have p: "drop (length words) ((words @ ?tail) @ [NULc]) = ?tail @ [NULc]" by simp
  have "c_string (show_nat port @ [d] @ '')'' @ r @ [NULc]) = show_nat port @ [d] @ '')'' @ c_string (r @ [NULc])"
    using assms plain \<open>CHR '')'' \<noteq> NULc\<close> by (simp add: c_string_append c_string_Cons)
  then have e: "strchr (c_string (show_nat port @ [d] @ '')'' @ r @ [NULc])) CHR '')'' \<noteq> None"
    by (simp add: strchr_None)
  have arg: "takeWhile (\<lambda>c. c \<noteq> CHR '')'') (show_nat port @ [d] @ '')'' @ r @ [NULc]) = show_nat port @ [d]"
    using assms(5) plain by (subst takeWhile_append2) auto
  have n: "show_nat port \<noteq> []" by (simp add: show_nat_def digits_nonempty)
  have "strtol (show_nat port) 10 = int port"
    using strtol_show_int [of "int port"] assms(1)
    by (simp add: show_int_def LONG_MIN_def LONG_MAX_def)
  moreover have "strip_sign (show_nat port) = (False, show_nat port)" "dropWhile isspace (show_nat port) = show_nat port"
    using show_nat_start [of port "[]"] by simp_all
  moreover have "dropWhile isdigit (show_nat port) = []" "takeWhile isdigit (show_nat port) = show_nat port"
    using show_nat_then [of "[]" port] by (simp_all add: no_digit_def)
  ultimately have num: "strtol (butlast (show_nat port @ [d])) 10 = int port"
      "dropWhile isdigit (snd (strip_sign (dropWhile isspace (butlast (show_nat port @ [d]))))) = []"
      "takeWhile isdigit (snd (strip_sign (dropWhile isspace (butlast (show_nat port @ [d]))))) \<noteq> []"
    using n by (simp_all del: takeWhile_eq_all_conv dropWhile_eq_Nil_conv)
  have ptr: "drop (length (c_string (words @ ?tail)) - length ?rest) ((words @ ?tail) @ [NULc]) = ?tail @ [NULc]"
    by (simp only: c len p)
  have at: "(?tail @ [NULc]) ! 1 = d" "(?tail @ [NULc]) ! 2 = d" "(?tail @ [NULc]) ! 3 = d"
      "drop 4 (?tail @ [NULc]) = show_nat port @ [d] @ '')'' @ r @ [NULc]"
      "\<not> length (?tail @ [NULc]) < 3" "\<not> length (?tail @ [NULc]) < 4" "\<not> length (?tail @ [NULc]) < 5"
    by (simp_all add: eval_nat_numeral)
  obtain z where z: "strchr (c_string (show_nat port @ [d] @ '')'' @ r @ [NULc])) CHR '')'' = Some z"
    using e by auto
  show ?thesis
    unfolding parse_epasv_reply_def Let_def s option.case ptr at arg z num
    using num(3) by simp
qed

text \<open>A line that the socket delivered ends with its newline, and is never read past its NUL.\<close>

lemma parse_epasv_bounds: "NL \<notin> set l \<Longrightarrow> parse_epasv_reply (l @ [NL]) \<noteq> None"
proof -
  assume l: "NL \<notin> set l"
  let ?buf = "l @ [NL]"
  obtain k where k: "?buf = c_string ?buf @ k" by (metis c_string_def takeWhile_dropWhile_id)
  have "parse_epasv_reply ?buf \<noteq> None" if s: "strchr (c_string ?buf) CHR ''('' = Some p" for p
  proof -
    obtain q r where q: "c_string ?buf = q @ p" "p = CHR ''('' # r" using strchr_Some [OF s] by auto
    define t where "t = r @ k"
    have b: "l @ [NL] = q @ CHR ''('' # t" using k q by (simp add: t_def)
    have "NL \<noteq> CHR ''(''" by (simp add: NL_def)
    then obtain u where u: "t = u @ [NL]" "NL \<notin> set u"
      using b l by (cases t rule: rev_cases) (auto simp: append_eq_append_conv2 Cons_eq_append_conv)
    have ptr: "drop (length (c_string ?buf) - length p) (?buf @ [NULc]) = CHR ''('' # u @ [NL, NULc]"
      using q b u by simp
    have ne: "NL \<noteq> NULc" by (simp add: NL_def NULc_def)
    consider "length u = 0" | "length u = Suc 0" | "2 \<le> length u" by linarith
    then show ?thesis
    proof cases
      case 1
      then show ?thesis using ne unfolding parse_epasv_reply_def Let_def s option.case ptr
        by (simp add: eval_nat_numeral)
    next
      case 2
      then obtain x where "u = [x]" by (cases u) auto
      then show ?thesis using ne u(2) unfolding parse_epasv_reply_def Let_def s option.case ptr
        by (simp add: eval_nat_numeral)
    next
      case 3
      then have "\<not> length (CHR ''('' # u @ [NL, NULc]) < 3" "\<not> length (CHR ''('' # u @ [NL, NULc]) < 4"
        "\<not> length (CHR ''('' # u @ [NL, NULc]) < 5" by auto
      then show ?thesis unfolding parse_epasv_reply_def Let_def s option.case ptr
        by (simp only: if_False) (simp split: option.split)
    qed
  qed
  then show ?thesis
    by (cases "strchr (c_string ?buf) CHR ''(''") (simp_all add: parse_epasv_reply_def)
qed

text \<open>The reply to \<^verbatim>\<open>MDTM\<close>.\<close>

definition stamp :: "nat \<Rightarrow> nat \<Rightarrow> nat \<Rightarrow> nat \<Rightarrow> nat \<Rightarrow> nat \<Rightarrow> string" where
  "stamp y mo d h mi se =
     pad0 4 (show_nat y) @ pad0 2 (show_nat mo) @ pad0 2 (show_nat d) @ pad0 2 (show_nat h) @
     pad0 2 (show_nat mi) @ pad0 2 (show_nat se)"

lemma pad0_digits:
  assumes "n < 10 ^ w" "0 < w"
  shows "\<forall>c \<in> set (pad0 w (show_nat n)). isdigit c" "length (pad0 w (show_nat n)) = w"
    "number 10 (pad0 w (show_nat n)) = n"
proof -
  have len: "length (show_nat n) \<le> w" using digits_length [of n 10 w] assms by (simp add: show_nat_def)
  show "\<forall>c \<in> set (pad0 w (show_nat n)). isdigit c"
    using show_nat_isdigit by (auto simp: pad0_def) (simp add: isdigit_def)
  show "length (pad0 w (show_nat n)) = w" using len by (simp add: pad0_def)
  show "number 10 (pad0 w (show_nat n)) = n" by (simp add: pad0_def number_zeros number_show_nat)
qed

lemma scan_d_digits:
  assumes "\<forall>c \<in> set ds. isdigit c" "length ds = w" "0 < w"
  shows "scan_d w (ds @ r) = Some (int (number 10 ds), r)"
proof -
  obtain c s where ds: "ds = c # s" using assms by (cases ds) auto
  then have "\<not> isspace c" "c \<noteq> CHR ''-''" "c \<noteq> CHR ''+''"
    using assms(1) by (auto simp: isdigit_def isspace_def)
  then have "dropWhile isspace (ds @ r) = ds @ r" "strip_sign (ds @ r) = (False, ds @ r)"
    using ds by (simp_all add: strip_sign_def)
  moreover have "takeWhile isdigit ds = ds" using assms(1) by (simp add: takeWhile_eq_all_conv)
  moreover have "take w (ds @ r) = ds" using assms(2) by simp
  ultimately show ?thesis using assms(2) ds unfolding scan_d_def Let_def by (simp del: dropWhile.simps) (metis append_eq_conv_conj append_Cons length_Cons)
qed

lemma scan_d_pad0:
  "n < 10 ^ w \<Longrightarrow> 0 < w \<Longrightarrow> scan_d w (pad0 w (show_nat n) @ r) = Some (int n, r)"
  using scan_d_digits [OF pad0_digits(1,2), of n w r] pad0_digits(3) [of n w] by simp

lemma parse_modtime_stamp:
  assumes "y < 10000" "mo < 100" "d < 100" "h < 100" "mi < 100" "se < 100"
    and "set e \<subseteq> {CHR 0x0D, CHR 0x0A}"
  shows "parse_modtime (''213 '' @ stamp y mo d h mi se @ e)
    = Inr \<lparr>tm_year = int y - 1900, tm_mon = int mo - 1, tm_mday = int d, tm_hour = int h,
        tm_min = int mi, tm_sec = int se\<rparr>"
proof -
  let ?s = "stamp y mo d h mi se"
  have len: "length ?s = 14" using assms by (simp add: stamp_def pad0_digits)
  have dig: "\<forall>c \<in> set ?s. isdigit c"
    using assms pad0_digits(1) [of y 4] pad0_digits(1) [of mo 2] pad0_digits(1) [of d 2]
      pad0_digits(1) [of h 2] pad0_digits(1) [of mi 2] pad0_digits(1) [of se 2]
    by (auto simp: stamp_def)
  have "cut_end [CHR 0x0D, CHR 0x0A] (''213 '' @ ?s @ e) = ''213 '' @ ?s"
  proof -
    obtain q c where q: "?s = q @ [c]" using len by (cases ?s rule: rev_cases) auto
    have "c \<noteq> CHR 0x0D" "c \<noteq> CHR 0x0A" using dig q by (auto simp: isdigit_def)
    then have n: "c \<notin> set [CHR 0x0D, CHR 0x0A]" by simp
    have "dropWhile (\<lambda>c. c \<in> set [CHR 0x0D, CHR 0x0A]) (rev e @ c # rev (''213 '' @ q)) = c # rev (''213 '' @ q)"
      using assms(7) n by (subst dropWhile_append2) auto
    then show ?thesis using n by (simp add: cut_end_def q)
  qed
  moreover have "dropWhile isspace (CHR '' '' # ?s) = ?s"
  proof -
    obtain c q where "?s = c # q" using len by (cases ?s) auto
    then show ?thesis using dig by (auto simp: isspace_def isdigit_def)
  qed
  moreover have "scan_modtime (''213 '' @ ?s) = Some \<lparr>tm_year = int y - 1900, tm_mon = int mo - 1,
      tm_mday = int d, tm_hour = int h, tm_min = int mi, tm_sec = int se\<rparr>"
    using assms(1-6) scan_d_pad0 [of se 2 "[]"] calculation(2)
    by (simp add: scan_modtime_def scan_char_def stamp_def scan_d_pad0 del: dropWhile.simps)
  ultimately show ?thesis using len by (simp add: parse_modtime_def)
qed

section \<open>Line ends in an upload\<close>

definition crlf :: "char \<Rightarrow> string" where
  "crlf c = (if c = NL then [CHR 0x0D, NL] else [c])"

text \<open>Each buffer is a piece of one line, with the newline at its end or not at all.\<close>

lemma fgets_one_line: "\<exists>l e. fgets n s = l @ e \<and> NL \<notin> set l \<and> e \<in> {[], [NL]}"
proof (cases "NL \<in> set (fgets n s)")
  case False
  then show ?thesis by (intro exI [of _ "fgets n s"] exI [of _ "[]"]) simp
next
  case True
  let ?t = "takeWhile (\<lambda>c. c \<noteq> NL) s"
  have no: "NL \<notin> set ?t" by (auto dest: set_takeWhileD)
  have "NL \<in> set s" using True by (auto simp: fgets_def dest: in_set_takeD)
  then obtain r where s: "s = ?t @ NL # r"
    by (metis (mono_tags, lifting) dropWhile_eq_Nil_conv hd_dropWhile list.collapse takeWhile_dropWhile_id)
  have "fgets n s = take (n - 1) (take (Suc (length ?t)) s)" by (simp add: fgets_def min_def)
  also have "take (Suc (length ?t)) s = ?t @ [NL]" by (subst s) simp
  finally have f: "fgets n s = take (n - 1) (?t @ [NL])" .
  have "\<not> n - 1 \<le> length ?t"
  proof
    assume "n - 1 \<le> length ?t"
    then have "fgets n s = take (n - 1) ?t" using f by simp
    then show False using True no by (metis in_set_takeD)
  qed
  then have "fgets n s = ?t @ [NL]" using f by simp
  then show ?thesis using no by blast
qed

lemma fgets_lines_one_line:
  "b \<in> set (fgets_lines n s) \<Longrightarrow> \<exists>l e. b = l @ e \<and> NL \<notin> set l \<and> e \<in> {[], [NL]}"
proof (induction n s rule: fgets_lines.induct)
  case (1 n s)
  then have "\<not> (s = [] \<or> n < 2)" using "1.prems" by (subst (asm) fgets_lines.simps) (auto split: if_splits)
  then show ?case using 1 fgets_one_line [of n s]
    by (subst (asm) (2) fgets_lines.simps) auto
qed

lemma fgets_lines_chars: "2 \<le> n \<Longrightarrow> b \<in> set (fgets_lines n s) \<Longrightarrow> set b \<subseteq> set s"
  using fgets_lines_concat [of n s] by (metis set_concat UN_upper)

lemma ascii_buffer_line:
  assumes "NL \<notin> set l" "CHR 0x0D \<notin> set l" "NULc \<notin> set l"
  shows "ascii_buffer l = l" "ascii_buffer (l @ [NL]) = l @ [CHR 0x0D, NL]"
    "ascii_buffer (l @ [CHR 0x0D, NL]) = l @ [CHR 0x0D, NL]"
proof -
  have "NULc \<noteq> NL" "NULc \<noteq> CHR 0x0D" "CHR 0x0D \<noteq> NL" by (simp_all add: NULc_def NL_def)
  then have c: "c_string l = l" "c_string (l @ [NL]) = l @ [NL]"
    "c_string (l @ [CHR 0x0D, NL]) = l @ [CHR 0x0D, NL]"
    using assms by (simp_all add: c_string_text)
  have t: "takeWhile (\<lambda>c. c \<noteq> x) (l @ x # r) = l" if "x \<notin> set l" for x r
    using that by (subst takeWhile_append2) auto
  show "ascii_buffer l = l" "ascii_buffer (l @ [NL]) = l @ [CHR 0x0D, NL]"
    "ascii_buffer (l @ [CHR 0x0D, NL]) = l @ [CHR 0x0D, NL]"
    using assms c t [of NL] t [of "CHR 0x0D"] by (simp_all add: ascii_buffer_def NL_def)
qed

lemma concat_crlf_plain: "NL \<notin> set l \<Longrightarrow> concat (map crlf l) = l"
  by (induction l) (auto simp: crlf_def)

lemma ascii_buffers_text:
  assumes "CHR 0x0D \<notin> set contents" "NULc \<notin> set contents"
  shows "concat (ascii_buffers contents) = concat (map crlf contents)"
proof -
  have n: "2 \<le> BUFSIZ - 1" by (simp add: BUFSIZ_def)
  have "ascii_buffer b = concat (map crlf b)" if b: "b \<in> set (fgets_lines (BUFSIZ - 1) contents)" for b
  proof -
    obtain l e where l: "b = l @ e" "NL \<notin> set l" "e \<in> {[], [NL]}" using fgets_lines_one_line [OF b] by blast
    moreover have "CHR 0x0D \<notin> set b" "NULc \<notin> set b" using fgets_lines_chars [OF n b] assms by auto
    ultimately show ?thesis
      using ascii_buffer_line [of l] by (auto simp: concat_crlf_plain crlf_def)
  qed
  then have "concat (ascii_buffers contents) = concat (map (\<lambda>b. concat (map crlf b)) (fgets_lines (BUFSIZ - 1) contents))"
    unfolding ascii_buffers_def by (intro arg_cong [of _ _ concat] map_cong) auto
  also have "concat (map (\<lambda>b. concat (map crlf b)) bs) = concat (map crlf (concat bs))" for bs
    by (induction bs) auto
  finally show ?thesis using fgets_lines_concat [OF n] by simp
qed

lemma ascii_buffers_dos:
  assumes "\<forall>l \<in> set ls. line_text (BUFSIZ - 1) (l @ [CHR 0x0D]) \<and> CHR 0x0D \<notin> set l"
  shows "ascii_buffers (concat (map (\<lambda>l. l @ [CHR 0x0D, NL]) ls)) = map (\<lambda>l. l @ [CHR 0x0D, NL]) ls"
proof -
  let ?cr = "map (\<lambda>l. l @ [CHR 0x0D]) ls"
  have "fgets_lines (BUFSIZ - 1) (concat (map (\<lambda>l. l @ [NL]) ?cr)) = map (\<lambda>l. l @ [NL]) ?cr"
    using assms by (intro fgets_lines_text) auto
  moreover have "ascii_buffer (l @ [CHR 0x0D, NL]) = l @ [CHR 0x0D, NL]" if "l \<in> set ls" for l
    using assms that by (intro ascii_buffer_line) (auto simp: line_text_def)
  ultimately show ?thesis by (simp add: ascii_buffers_def comp_def)
qed

text \<open>An upload in ASCII mode sends the file with each LF as CR LF, if the file has no CR and no
  NUL; a file with CR LF at the ends of its lines is sent as it is, if no line is longer than a
  buffer.\<close>
theorem ascii_upload_correct:
  assumes "CHR 0x0D \<notin> set contents" "NULc \<notin> set contents"
    and "\<forall>l \<in> set ls. line_text (BUFSIZ - 1) (l @ [CHR 0x0D]) \<and> CHR 0x0D \<notin> set l"
  shows "concat (ascii_buffers contents) = concat (map crlf contents)
    \<and> concat (ascii_buffers (concat (map (\<lambda>l. l @ [CHR 0x0D, NL]) ls)))
      = concat (map (\<lambda>l. l @ [CHR 0x0D, NL]) ls)"
  using ascii_buffers_text [OF assms(1,2)] ascii_buffers_dos [OF assms(3)] by simp

lemma ascii_upload_correct_witness:
  "concat (ascii_buffers (''a'' @ [NL] @ ''b'')) = concat (map crlf (''a'' @ [NL] @ ''b''))
    \<and> concat (ascii_buffers (concat (map (\<lambda>l. l @ [CHR 0x0D, NL]) [''a'', ''''])))
      = concat (map (\<lambda>l. l @ [CHR 0x0D, NL]) [''a'', ''''])"
  by (rule ascii_upload_correct) (simp_all add: NL_def NULc_def line_text_def BUFSIZ_def)

lemma ascii_buffers_short:
  "NL \<notin> set l \<Longrightarrow> length l + 3 \<le> BUFSIZ \<Longrightarrow> ascii_buffers (l @ [NL]) = [ascii_buffer (l @ [NL])]"
proof -
  assume l: "NL \<notin> set l" "length l + 3 \<le> BUFSIZ"
  then have "takeWhile (\<lambda>c. c \<noteq> NL) (l @ [NL]) = l" by (subst takeWhile_append2) auto
  then have "fgets (BUFSIZ - 1) (l @ [NL]) = l @ [NL]" using l by (simp add: fgets_def)
  then show ?thesis
    using l unfolding ascii_buffers_def by (subst fgets_lines.simps) simp
qed

lemma ascii_buffers_straddle:
  assumes "NL \<notin> set l" "CHR 0x0D \<notin> set l" "NULc \<notin> set l" "length l + 3 = BUFSIZ"
  shows "concat (ascii_buffers (l @ [CHR 0x0D, NL])) = l @ [CHR 0x0D, NL, CHR 0x0D, NL]"
proof -
  have c: "CHR 0x0D \<noteq> NL" "CHR 0x0D \<noteq> NULc" by (simp_all add: NL_def NULc_def)
  have "takeWhile (\<lambda>c. c \<noteq> NL) ((l @ [CHR 0x0D]) @ [NL]) = l @ [CHR 0x0D]"
    using assms c by (subst takeWhile_append2) auto
  then have f: "fgets (BUFSIZ - 1) (l @ [CHR 0x0D, NL]) = l @ [CHR 0x0D]"
  proof -
    have "BUFSIZ - 1 - 1 = Suc (length l)" using assms(4) by linarith
    then show ?thesis using \<open>takeWhile _ _ = _\<close> by (simp only: fgets_def) simp
  qed
  have "fgets_lines (BUFSIZ - 1) (l @ [CHR 0x0D, NL]) = (l @ [CHR 0x0D]) # fgets_lines (BUFSIZ - 1) [NL]"
    unfolding fgets_lines.simps [of "BUFSIZ - 1" "l @ [CHR 0x0D, NL]"] f by (simp add: BUFSIZ_def)
  moreover have "ascii_buffers [NL] = [ascii_buffer [NL]]"
    using ascii_buffers_short [of "[]"] assms(4) by simp
  moreover have "ascii_buffer (l @ [CHR 0x0D]) = l @ [CHR 0x0D, NL]"
  proof -
    have "c_string (l @ [CHR 0x0D]) = l @ [CHR 0x0D]" using assms c by (intro c_string_text) auto
    moreover have "takeWhile (\<lambda>c. c \<noteq> CHR 0x0D) (l @ [CHR 0x0D]) = l" using assms by (subst takeWhile_append2) auto
    ultimately show ?thesis by (simp add: ascii_buffer_def NL_def)
  qed
  ultimately show ?thesis
    using ascii_buffer_line(2) [of "[]"] by (simp add: ascii_buffers_def)
qed

text \<open>Other files are damaged by an upload in ASCII mode: what follows a lone CR on its line is not
  sent, nor what follows a NUL, and a CR LF that falls between two buffers arrives as two ends of line.\<close>
theorem ascii_upload_damage:
  "concat (ascii_buffers (''a'' @ [CHR 0x0D] @ ''b'' @ [NL])) = ''a'' @ [CHR 0x0D, NL]
   \<and> concat (ascii_buffers (''a'' @ [NULc] @ ''b'' @ [NL])) = ''a''
   \<and> concat (ascii_buffers (replicate (BUFSIZ - 3) CHR ''x'' @ [CHR 0x0D, NL]))
    = replicate (BUFSIZ - 3) CHR ''x'' @ [CHR 0x0D, NL, CHR 0x0D, NL]"
proof -
  have 1: "ascii_buffers ((''a'' @ [x] @ ''b'') @ [NL]) = [ascii_buffer ((''a'' @ [x] @ ''b'') @ [NL])]"
    if "x \<noteq> NL" for x
    using that by (intro ascii_buffers_short) (simp_all add: NL_def BUFSIZ_def)
  have 2: "concat (ascii_buffers (''a'' @ [CHR 0x0D] @ ''b'' @ [NL])) = ''a'' @ [CHR 0x0D, NL]"
    "concat (ascii_buffers (''a'' @ [NULc] @ ''b'' @ [NL])) = ''a''"
    using 1 [of "CHR 0x0D"] 1 [of NULc] by (simp_all add: ascii_buffer_def c_string_def NL_def NULc_def)
  have 3: "concat (ascii_buffers (replicate (BUFSIZ - 3) CHR ''x'' @ [CHR 0x0D, NL]))
    = replicate (BUFSIZ - 3) CHR ''x'' @ [CHR 0x0D, NL, CHR 0x0D, NL]"
    by (rule ascii_buffers_straddle) (auto simp: BUFSIZ_def NL_def NULc_def)
  show ?thesis by (intro conjI 2 3)
qed

end
