(* ===== verification/Ftp_Client.thy ===== *)
theory Ftp_Client
  imports Ftp_Text
begin

text \<open>
  The control connection of the FTP client, \<^verbatim>\<open>src/ftp.c\<close>: reading and parsing replies, running a
  command, and opening the connection again when it is lost.  The sockets of neon, the system calls,
  the time zone and the frontend are the parameter \<open>'w net\<close>, whose functions act on a world.

  The result \<^const>\<open>None\<close> is a crash (a call on a socket that is NULL or closed) or a server that sends
  lines for ever.
\<close>

section \<open>What the client calls\<close>

datatype chan = PI | DTP

datatype fe_status = fe_namelookup | fe_connecting | fe_connected

record local_file =
  lo_size :: "int option"
  lo_text :: string
  lo_failed :: bool

text \<open>
  A result \<^verbatim>\<open>Inl\<close> of a read is a code \<^verbatim>\<open>NE_SOCK_*\<close>; \<open>n_strerror\<close> is the text of \<^verbatim>\<open>errno\<close>; system calls
  give whether they succeeded.  A local file is its size, which \<^verbatim>\<open>fstat\<close> may not give, its text, and
  whether reading ends with an error.  \<open>n_null_diff\<close> is what \<^verbatim>\<open>pnt - buffer\<close> is for \<^verbatim>\<open>pnt == NULL\<close>.
\<close>

record 'w net =
  n_resolve :: "string option \<Rightarrow> 'w \<Rightarrow> (string + nat) \<times> 'w"
  n_ipv6 :: "nat \<Rightarrow> bool"
  n_connect :: "nat \<Rightarrow> int \<Rightarrow> 'w \<Rightarrow> int \<times> 'w"
  n_connect_data :: "dtp_addr \<Rightarrow> 16 word \<Rightarrow> 'w \<Rightarrow> int \<times> 'w"
  n_write :: "chan \<Rightarrow> string \<Rightarrow> 'w \<Rightarrow> int \<times> 'w"
  n_readline :: "chan \<Rightarrow> 'w \<Rightarrow> (int + string) \<times> 'w"
  n_read :: "'w \<Rightarrow> (int + string) \<times> 'w"
  n_close :: "chan \<Rightarrow> 'w \<Rightarrow> int \<times> 'w"
  n_error :: "chan \<Rightarrow> 'w \<Rightarrow> string"
  n_strerror :: "'w \<Rightarrow> string"
  n_getsockname_pi :: "'w \<Rightarrow> bool \<times> 'w"
  n_socket :: "'w \<Rightarrow> bool \<times> 'w"
  n_bind :: "'w \<Rightarrow> bool \<times> 'w"
  n_getsockname :: "'w \<Rightarrow> ((8 word \<times> 8 word \<times> 8 word \<times> 8 word) \<times> 16 word) option \<times> 'w"
  n_listen :: "'w \<Rightarrow> bool \<times> 'w"
  n_accept :: "'w \<Rightarrow> bool \<times> 'w"
  n_close_listener :: "'w \<Rightarrow> 'w"
  n_fopen_read :: "string \<Rightarrow> 'w \<Rightarrow> local_file option \<times> 'w"
  n_rewind :: "'w \<Rightarrow> bool \<times> 'w"
  n_fopen_write :: "string \<Rightarrow> 'w \<Rightarrow> bool \<times> 'w"
  n_fwrite :: "string \<Rightarrow> 'w \<Rightarrow> bool \<times> 'w"
  n_fclose :: "'w \<Rightarrow> bool \<times> 'w"
  n_login :: "string option \<Rightarrow> string \<Rightarrow> string \<Rightarrow> 'w \<Rightarrow> (string \<times> string) option \<times> 'w"
  n_connection :: "fe_status \<Rightarrow> string option \<Rightarrow> 'w \<Rightarrow> 'w"
  n_progress :: "int \<Rightarrow> int \<Rightarrow> 'w \<Rightarrow> 'w"
  n_mktime :: "tm \<Rightarrow> int"
  n_null_diff :: int

abbreviation (input) NE_SOCK_TIMEOUT :: int where "NE_SOCK_TIMEOUT \<equiv> - 2"
abbreviation (input) NE_SOCK_CLOSED :: int where "NE_SOCK_CLOSED \<equiv> - 3"
abbreviation (input) NE_SOCK_RESET :: int where "NE_SOCK_RESET \<equiv> - 4"

section \<open>The session\<close>

datatype tran_mode = tran_unknown | tran_binary | tran_ascii

datatype rfc2428_mode = rfc2428_unknown | rfc2428_ok | rfc2428_bad

text \<open>The world is part of the session here.  \<open>ft_pisock\<close> is whether the pointer is not NULL, and
  \<open>ft_dtpsock\<close> whether the pointer \<^verbatim>\<open>dtpsock\<close> is a socket that is open: it is NULL at first, and
  dangles after \<^verbatim>\<open>ne_sock_close\<close>.\<close>

record 'w ftp_session =
  ft_use_passive :: bool
  ft_echo_quit :: bool
  ft_use_cwd :: bool
  ft_connected :: bool
  ft_hostname :: "string option"
  ft_dtp_port :: "16 word"
  ft_dtp_addr :: dtp_addr
  ft_pi_addr :: nat
  ft_pi_port :: int
  ft_pisock :: bool
  ft_dtpsock :: bool
  ft_pi_curaddr :: nat
  ft_mode :: tran_mode
  ft_rfc2428 :: rfc2428_mode
  ft_cwd :: string
  ft_get_modtime :: int
  ft_username :: string
  ft_password :: string
  ft_rbuf :: string
  ft_error :: string
  ft_world :: 'w

definition PATH_MAX :: nat where "PATH_MAX = 4096"

definition ftp_init :: "'w \<Rightarrow> 'w ftp_session" where
  "ftp_init w =
     \<lparr>ft_use_passive = False, ft_echo_quit = False, ft_use_cwd = False, ft_connected = False,
      ft_hostname = None, ft_dtp_port = 0, ft_dtp_addr = peer_addr 0, ft_pi_addr = 0, ft_pi_port = 0,
      ft_pisock = False, ft_dtpsock = False, ft_pi_curaddr = 0, ft_mode = tran_unknown, ft_rfc2428 = rfc2428_unknown,
      ft_cwd = [], ft_get_modtime = 0, ft_username = [], ft_password = [], ft_rbuf = [], ft_error = [],
      ft_world = w\<rparr>"

text \<open>A call that gives a value and the new world.\<close>

definition on_net :: "('w \<Rightarrow> 'a \<times> 'w) \<Rightarrow> 'w ftp_session \<Rightarrow> 'a \<times> 'w ftp_session" where
  "on_net g s = (let (x, w) = g (ft_world s) in (x, s\<lparr>ft_world := w\<rparr>))"

definition tell :: "('w \<Rightarrow> 'w) \<Rightarrow> 'w ftp_session \<Rightarrow> 'w ftp_session" where
  "tell g s = s\<lparr>ft_world := g (ft_world s)\<rparr>"

type_synonym 'w outcome = "(int \<times> 'w ftp_session) option"

section \<open>Errors\<close>

definition ftp_seterror :: "string \<Rightarrow> 'w ftp_session \<Rightarrow> 'w ftp_session" where
  "ftp_seterror e s = s\<lparr>ft_error := take BUFSIZ (c_string e)\<rparr>"

definition set_syserr :: "'w net \<Rightarrow> string \<Rightarrow> 'w ftp_session \<Rightarrow> 'w ftp_session" where
  "set_syserr n e s = s\<lparr>ft_error := snprintf BUFSIZ (e @ '': '' @ n_strerror n (ft_world s))\<rparr>"

definition set_sockerr :: "'w net \<Rightarrow> chan \<Rightarrow> string \<Rightarrow> int \<Rightarrow> 'w ftp_session \<Rightarrow> 'w ftp_session" where
  "set_sockerr n sock doing errnum s =
     s\<lparr>ft_error := snprintf BUFSIZ
        (doing @ (if errnum = NE_SOCK_CLOSED then '': connection was closed by server.''
                  else if errnum = NE_SOCK_TIMEOUT then '': connection timed out.''
                  else '': '' @ n_error n sock (ft_world s)))\<rparr>"

definition close_pi :: "'w net \<Rightarrow> 'w ftp_session \<Rightarrow> 'w ftp_session" where
  "close_pi n s = (snd (on_net (n_close n PI) s))\<lparr>ft_pisock := False, ft_connected := False\<rparr>"

definition set_pisockerr :: "'w net \<Rightarrow> string \<Rightarrow> int \<Rightarrow> 'w ftp_session \<Rightarrow> 'w ftp_session" where
  "set_pisockerr n doing errnum s = close_pi n (set_sockerr n PI doing errnum s)"

definition FTP_PI_BROKEN :: "int \<Rightarrow> bool" where
  "FTP_PI_BROKEN r \<longleftrightarrow> r = NE_SOCK_RESET \<or> r = NE_SOCK_CLOSED \<or> r = NE_SOCK_TIMEOUT"

section \<open>Replies\<close>

text \<open>One line of a reply: the new \<^verbatim>\<open>*code\<close> and \<^verbatim>\<open>multiline\<close>.\<close>

definition reply_line :: "string \<Rightarrow> int \<Rightarrow> int \<Rightarrow> int \<times> int" where
  "reply_line buf rcode multiline =
     (if length buf > 4 \<and> isdigit (buf ! 0) \<and> isdigit (buf ! 1) \<and> isdigit (buf ! 2)
      then (let rcode = strtol (c_string buf) 10 in
            if multiline = 0 \<and> buf ! 3 = CHR ''-'' then (rcode, rcode)
            else if multiline = rcode \<and> buf ! 3 = CHR '' '' then (rcode, 0)
            else (rcode, multiline))
      else (rcode, multiline))"

partial_function (option) read_lines ::
    "'w net \<Rightarrow> int \<Rightarrow> int \<Rightarrow> 'w ftp_session \<Rightarrow> ((int \<times> int) \<times> 'w ftp_session) option" where
  "read_lines n rcode multiline s =
     (if \<not> ft_pisock s then None
      else case on_net (n_readline n PI) s of
        (Inl ret, s) \<Rightarrow>
          Some ((if FTP_PI_BROKEN ret then FTP_BROKEN else FTP_ERROR, rcode),
            set_pisockerr n ''Could not read response line'' ret s)
      | (Inr buf, s) \<Rightarrow>
          (let s = s\<lparr>ft_rbuf := buf\<rparr>; next = reply_line buf rcode multiline in
           if snd next \<noteq> 0 then read_lines n (fst next) (snd next) s
           else Some ((FTP_OK, fst next), s)))"

definition read_reply :: "'w net \<Rightarrow> 'w ftp_session \<Rightarrow> ((int \<times> int) \<times> 'w ftp_session) option" where
  "read_reply n s = read_lines n 0 0 s"

text \<open>
  The reply with its code.  \<open>ne_shave\<close> changes the reply buffer; the NUL that the parser of an \<^verbatim>\<open>EPSV\<close>
  reply puts behind the port, which only the text of a later error message could show, does not.
\<close>

definition parse_reply :: "'w net \<Rightarrow> int \<Rightarrow> 'w ftp_session \<Rightarrow> 'w outcome" where
  "parse_reply n rcode s =
     (if rcode \<in> {200, 220, 230, 250, 253, 257} then Some (FTP_OK, s)
      else if rcode = 226 then Some (FTP_SENT, s)
      else if rcode = 150 \<or> rcode = 125 then Some (FTP_READY, s)
      else if rcode = 550 then Some (FTP_FILEBAD, s)
      else if rcode = 331 then Some (FTP_NEEDPASSWORD, s)
      else if rcode = 350 then Some (FTP_FILEMORE, s)
      else if rcode = 221 then Some (FTP_CLOSED, s)
      else if rcode = 421 then (if ft_pisock s then Some (FTP_BROKEN, close_pi n s) else None)
      else if rcode = 553 then Some (FTP_ERROR, s)
      else if rcode = 213 then
        (let reply = c_string (ft_rbuf s);
             s = s\<lparr>ft_rbuf := cut_end [CHR 0x0D, CHR 0x0A] reply\<rparr>
         in case parse_modtime reply of
              Inl e \<Rightarrow> Some (FTP_ERROR, ftp_seterror e s)
            | Inr t \<Rightarrow> Some (FTP_MODTIME, s\<lparr>ft_get_modtime := n_mktime n t\<rparr>))
      else if rcode = 227 then
        (case parse_pasv_reply (c_string (ft_rbuf s)) of
           Inl e \<Rightarrow> Some (FTP_ERROR, ftp_seterror e s)
         | Inr (a, p) \<Rightarrow> Some (FTP_PASSIVE, s\<lparr>ft_dtp_port := p, ft_dtp_addr := a\<rparr>))
      else if rcode = 229 then
        do { r \<leftarrow> parse_epasv_reply (ft_rbuf s);
             Some (case r of
               Inl e \<Rightarrow> (FTP_ERROR, ftp_seterror e s)
             | Inr p \<Rightarrow> (FTP_PASSIVE, s\<lparr>ft_dtp_addr := peer_addr (ft_pi_curaddr s), ft_dtp_port := p\<rparr>)) }
      else Some (FTP_ERROR, s))"

section \<open>Commands\<close>

definition CRLF :: string where "CRLF = [CHR 0x0D, NL]"

definition run_command :: "'w net \<Rightarrow> string \<Rightarrow> 'w ftp_session \<Rightarrow> 'w outcome" where
  "run_command n cmd s =
     (if \<not> ft_pisock s then None
      else let (ret, s) = on_net (n_write n PI (cmd @ CRLF)) s in
        if ret < 0
        then Some (if FTP_PI_BROKEN ret then FTP_BROKEN else FTP_ERROR,
               set_pisockerr n ''Could not send command'' ret s)
        else do { ((ret, rcode), s) \<leftarrow> read_reply n s;
                  if ret \<noteq> FTP_OK then Some (ret, s)
                  else parse_reply n rcode (ftp_seterror (ft_rbuf s) s) })"

text \<open>
  \<open>execute\<close> over a way to open the connection: at most three times, and \<open>FTP_BROKEN\<close> does not get
  out.  The command is what fits into 1024 bytes.
\<close>

fun execute_tries ::
    "('w ftp_session \<Rightarrow> 'w outcome) \<Rightarrow> 'w net \<Rightarrow> string \<Rightarrow> nat \<Rightarrow> 'w ftp_session \<Rightarrow> 'w outcome" where
  "execute_tries opn n buf 0 s = Some (FTP_ERROR, s)"
| "execute_tries opn n buf (Suc k) s =
     do { (ret, s) \<leftarrow> opn s;
          if ret \<noteq> FTP_OK then Some (ret, s)
          else do { (ret, s) \<leftarrow> run_command n buf s;
                    if ret = FTP_BROKEN then execute_tries opn n buf k s else Some (ret, s) } }"

definition execute_with ::
    "('w ftp_session \<Rightarrow> 'w outcome) \<Rightarrow> 'w net \<Rightarrow> string \<Rightarrow> 'w ftp_session \<Rightarrow> 'w outcome" where
  "execute_with opn n cmd s = execute_tries opn n (snprintf 1024 cmd) 3 s"

definition set_mode_with ::
    "('w ftp_session \<Rightarrow> 'w outcome) \<Rightarrow> 'w net \<Rightarrow> tran_mode \<Rightarrow> 'w ftp_session \<Rightarrow> 'w outcome" where
  "set_mode_with opn n mode s =
     (if ft_mode s = mode then Some (FTP_OK, s)
      else do { (ret, s) \<leftarrow> execute_with opn n (if mode = tran_ascii then ''TYPE A'' else ''TYPE I'') s;
                Some (ret, s\<lparr>ft_mode := (if ret = FTP_OK then mode else tran_unknown)\<rparr>) })"

section \<open>Opening the connection\<close>

definition authenticate :: "'w net \<Rightarrow> 'w ftp_session \<Rightarrow> 'w outcome" where
  "authenticate n s =
     (let (creds, s) =
        (if ft_username s = [] \<or> ft_password s = []
         then on_net (n_login n (ft_hostname s) (ft_username s) (ft_password s)) s
         else (Some (ft_username s, ft_password s), s))
      in case creds of
        None \<Rightarrow> Some (FTP_ERROR, s)
      | Some (user, pass) \<Rightarrow>
          do { let s = s\<lparr>ft_username := user, ft_password := pass\<rparr>;
               (ret, s) \<leftarrow> run_command n (snprintf 1024 (''USER '' @ user)) s;
               if ret = FTP_NEEDPASSWORD
               then run_command n (snprintf 1024 (''PASS '' @ pass)) s
               else Some (ret, s) })"

fun connect_first :: "'w net \<Rightarrow> nat list \<Rightarrow> 'w ftp_session \<Rightarrow> bool \<times> 'w ftp_session" where
  "connect_first n [] s = (False, s)"
| "connect_first n (ia # rest) s =
     (let (ret, s) = on_net (n_connect n ia (ft_pi_port s)) s; s = s\<lparr>ft_pi_curaddr := ia\<rparr>
      in if ret = 0 then (True, s) else connect_first n rest s)"

text \<open>\<open>ftp_open\<close> up to the point where the connection is there: from the end, the login, the
  greeting of the server, and the TCP connection.\<close>

definition log_in :: "'w net \<Rightarrow> 'w ftp_session \<Rightarrow> 'w outcome" where
  "log_in n s =
     do { (ret, s) \<leftarrow> authenticate n s;
          if ret \<noteq> FTP_OK
          then Some (FTP_LOGIN,
                 if ft_connected s then (snd (on_net (n_close n PI) s))\<lparr>ft_pisock := False\<rparr> else s)
          else Some (FTP_OK, s\<lparr>ft_connected := True\<rparr>) }"

definition hello :: "'w net \<Rightarrow> int \<Rightarrow> 'w ftp_session \<Rightarrow> 'w outcome" where
  "hello n rcode s =
     do { (ret, s) \<leftarrow> parse_reply n rcode s;
          if ret \<noteq> FTP_OK then Some (FTP_HELLO, ftp_seterror (ft_rbuf s) s) else log_in n s }"

definition greeting :: "'w net \<Rightarrow> 'w ftp_session \<Rightarrow> 'w outcome" where
  "greeting n s =
     do { ((ret, rcode), s) \<leftarrow> read_reply n s;
          if ret \<noteq> FTP_OK then Some (FTP_HELLO, s) else hello n rcode s }"

definition open_connection :: "'w net \<Rightarrow> 'w ftp_session \<Rightarrow> 'w outcome" where
  "open_connection n s =
     (let s = s\<lparr>ft_cwd := ''x''\<rparr>;
          s = tell (n_connection n fe_connecting None) s;
          s = s\<lparr>ft_pisock := True\<rparr>;
          (success, s) = connect_first n [0..<ft_pi_addr s] s
      in if \<not> success then Some (FTP_CONNECT, snd (on_net (n_close n PI) s))
         else greeting n (tell (n_connection n fe_connected None) s))"

text \<open>
  \<open>ftp_open\<close> restores the transfer mode with \<open>set_mode\<close>, which calls \<open>execute\<close>, which calls
  \<open>ftp_open\<close>.  The first argument bounds the depth of that recursion.
\<close>

fun ftp_open :: "nat \<Rightarrow> 'w net \<Rightarrow> 'w ftp_session \<Rightarrow> 'w outcome" where
  "ftp_open 0 n s = None"
| "ftp_open (Suc k) n s =
     (if ft_connected s then Some (FTP_OK, s)
      else do { (ret, s) \<leftarrow> open_connection n s;
                if ret \<noteq> FTP_OK then Some (ret, s)
                else if ft_mode s \<noteq> tran_unknown
                then set_mode_with (ftp_open k n) n (ft_mode s) (s\<lparr>ft_mode := tran_unknown\<rparr>)
                else Some (FTP_OK, s) })"

definition ftp_depth :: nat where "ftp_depth = 2"

definition execute :: "'w net \<Rightarrow> string \<Rightarrow> 'w ftp_session \<Rightarrow> 'w outcome" where
  "execute n = execute_with (ftp_open ftp_depth n) n"

definition set_mode :: "'w net \<Rightarrow> tran_mode \<Rightarrow> 'w ftp_session \<Rightarrow> 'w outcome" where
  "set_mode n = set_mode_with (ftp_open ftp_depth n) n"

end
