(* ===== verification/Ftp_Transfer.thy ===== *)
theory Ftp_Transfer
  imports Ftp_Client
begin

text \<open>
  The commands and the transfers of the FTP client, \<^verbatim>\<open>src/ftp.c\<close>: the data connection, passive and
  active, uploads, downloads, listings and modification times.
\<close>

section \<open>Commands without data\<close>

definition ftp_set_server :: "'w net \<Rightarrow> site_host \<Rightarrow> 'w ftp_session \<Rightarrow> 'w outcome" where
  "ftp_set_server n server s =
     do { user \<leftarrow> (case h_username server of None \<Rightarrow> Some (ft_username s)
            | Some u \<Rightarrow> if length u < FE_LBUFSIZ then Some u else None);
          pass \<leftarrow> (case h_password server of None \<Rightarrow> Some (ft_password s)
            | Some p \<Rightarrow> if length p < FE_LBUFSIZ then Some p else None);
          let s = s\<lparr>ft_username := user, ft_password := pass, ft_hostname := h_hostname server,
            ft_pi_port := h_port server mod 65536\<rparr>;
          let s = tell (n_connection n fe_namelookup (h_hostname server)) s;
          let (res, s) = on_net (n_resolve n (h_hostname server)) s;
          Some (case res of
            Inl e \<Rightarrow> (FTP_LOOKUP, s\<lparr>ft_error := snprintf BUFSIZ (''Could not resolve server `''
                @ (case h_hostname server of Some h \<Rightarrow> h | None \<Rightarrow> ''(null)'') @ [CHR 0x27] @ '': '' @ e)\<rparr>)
          | Inr k \<Rightarrow> (FTP_OK, s\<lparr>ft_pi_addr := k\<rparr>)) }"

definition ftp_finish :: "'w net \<Rightarrow> 'w ftp_session \<Rightarrow> 'w outcome" where
  "ftp_finish n s =
     (if \<not> ft_connected s then Some (FTP_OK, s)
      else do { (ret, s) \<leftarrow> run_command n ''QUIT'' s;
                let s = (if ft_pisock s then snd (on_net (n_close n PI) s) else s);
                Some (if ret \<noteq> FTP_CLOSED then FTP_ERROR else FTP_OK, s\<lparr>ft_connected := False\<rparr>) })"

definition ftp_mkdir :: "'w net \<Rightarrow> string \<Rightarrow> 'w ftp_session \<Rightarrow> 'w outcome" where
  "ftp_mkdir n dir = execute n (''MKD '' @ dir)"

definition ftp_move :: "'w net \<Rightarrow> string \<Rightarrow> string \<Rightarrow> 'w ftp_session \<Rightarrow> 'w outcome" where
  "ftp_move n from to s =
     do { (ret, s) \<leftarrow> execute n (''RNFR '' @ from) s;
          if ret = FTP_FILEMORE then execute n (''RNTO '' @ to) s else Some (FTP_ERROR, s) }"

definition ftp_delete :: "'w net \<Rightarrow> string \<Rightarrow> 'w ftp_session \<Rightarrow> 'w outcome" where
  "ftp_delete n filename = execute n (''DELE '' @ filename)"

definition ftp_rmdir :: "'w net \<Rightarrow> string \<Rightarrow> 'w ftp_session \<Rightarrow> 'w outcome" where
  "ftp_rmdir n filename = execute n (''RMD '' @ filename)"

definition ftp_chmod :: "'w net \<Rightarrow> string \<Rightarrow> mode_t \<Rightarrow> 'w ftp_session \<Rightarrow> 'w outcome" where
  "ftp_chmod n filename mode =
     execute n (''SITE CHMOD '' @ show_oct3 (unat (and mode 511)) @ '' '' @ filename)"

section \<open>The data connection\<close>

definition dtp_open_passive :: "'w net \<Rightarrow> 'w ftp_session \<Rightarrow> bool \<times> 'w ftp_session" where
  "dtp_open_passive n s =
     (let (ret, s) = on_net (n_connect_data n (ft_dtp_addr s) (ft_dtp_port s)) s in
      if ret \<noteq> 0
      then (False, (snd (on_net (n_close n DTP)
              (set_sockerr n DTP ''Could not connect passive data socket'' ret s)))\<lparr>ft_dtpsock := False\<rparr>)
      else (True, s\<lparr>ft_dtpsock := True\<rparr>))"

definition port_command :: "8 word \<times> 8 word \<times> 8 word \<times> 8 word \<Rightarrow> 16 word \<Rightarrow> string" where
  "port_command a p =
     (case a of (a0, a1, a2, a3) \<Rightarrow>
       ''PORT '' @ show_nat (unat a0) @ '','' @ show_nat (unat a1) @ '','' @ show_nat (unat a2) @ '',''
         @ show_nat (unat a3) @ '','' @ show_nat (unat (drop_bit 8 p)) @ '',''
         @ show_nat (unat (take_bit 8 p)))"

text \<open>
  The steps of \<open>dtp_open_active\<close> before and after \<^verbatim>\<open>PORT\<close>; the first gives the address bound.  A call
  that fails closes the socket that was opened before it.
\<close>

definition syscall ::
    "'w net \<Rightarrow> ('w \<Rightarrow> bool \<times> 'w) \<Rightarrow> string \<Rightarrow> bool
      \<Rightarrow> ('w ftp_session \<Rightarrow> 'b option \<times> 'w ftp_session) \<Rightarrow> 'w ftp_session \<Rightarrow> 'b option \<times> 'w ftp_session"
where
  "syscall n g e opened k s =
     (let (ok, s) = on_net g s in
      if ok then k s
      else (None, if opened then tell (n_close_listener n) (set_syserr n e s) else set_syserr n e s))"

definition listen_active ::
    "'w net \<Rightarrow> 'w ftp_session
      \<Rightarrow> ((8 word \<times> 8 word \<times> 8 word \<times> 8 word) \<times> 16 word) option \<times> 'w ftp_session" where
  "listen_active n =
     syscall n (n_getsockname_pi n)
       ''Active open failed: could not determine address of control socket'' False
     (syscall n (n_socket n) ''Active open failed: could not create socket'' False
     (syscall n (n_bind n) ''Active open failed: could not bind to address'' True
     (\<lambda>s. let (addr, s) = on_net (n_getsockname n) s in
       case addr of
         None \<Rightarrow> (None, tell (n_close_listener n)
           (set_syserr n ''Active open failed: could not determine address of data socket'' s))
       | Some (a, p) \<Rightarrow>
           if p = 0
           then (None, tell (n_close_listener n)
                   (ftp_seterror ''Could not determine bound port number for data socket'' s))
           else syscall n (n_listen n) ''Active open failed: could not listen for connection'' True
                  (\<lambda>s. (Some (a, p), s)) s)))"

definition accept_active :: "'w net \<Rightarrow> 'w ftp_session \<Rightarrow> int \<times> 'w ftp_session" where
  "accept_active n s =
     (let (ok, s) = on_net (n_accept n) s in
      if ok then (FTP_READY, s\<lparr>ft_dtpsock := True\<rparr>)
      else (FTP_ERROR, (snd (on_net (n_close n DTP)
              (set_syserr n ''Active open failed: could not accept connection'' s)))\<lparr>ft_dtpsock := False\<rparr>))"

definition active_command ::
    "'w net \<Rightarrow> string \<Rightarrow> 8 word \<times> 8 word \<times> 8 word \<times> 8 word \<Rightarrow> 16 word \<Rightarrow> 'w ftp_session \<Rightarrow> 'w outcome"
where
  "active_command n command a p s =
     do { (ret, s) \<leftarrow> execute n (port_command a p) s;
          if ret \<noteq> FTP_OK then Some (ret, tell (n_close_listener n) s)
          else do { (ret, s) \<leftarrow> execute n command s;
            if ret \<noteq> FTP_READY then Some (ret, tell (n_close_listener n) s)
            else let (ret, s) = accept_active n s in Some (ret, tell (n_close_listener n) s) } }"

definition dtp_open_active :: "'w net \<Rightarrow> string \<Rightarrow> 'w ftp_session \<Rightarrow> 'w outcome" where
  "dtp_open_active n command s =
     do { (ret, s) \<leftarrow> ftp_open ftp_depth n s;
          if ret \<noteq> FTP_OK then Some (ret, s)
          else case listen_active n s of
            (None, s) \<Rightarrow> Some (FTP_ERROR, s)
          | (Some (a, p), s) \<Rightarrow> active_command n command a p s }"

text \<open>The two commands that ask for an address, of \<open>ftp_data_open\<close>.\<close>

definition try_epsv :: "'w net \<Rightarrow> 'w ftp_session \<Rightarrow> 'w outcome" where
  "try_epsv n s =
     (if ft_rfc2428 s \<noteq> rfc2428_bad \<and> n_ipv6 n (ft_pi_curaddr s)
      then do { (ret, s) \<leftarrow> execute n ''EPSV'' s;
                Some (ret, if ret = FTP_PASSIVE then s\<lparr>ft_rfc2428 := rfc2428_ok\<rparr> else s) }
      else Some (FTP_ERROR, s))"

definition try_pasv :: "'w net \<Rightarrow> int \<Rightarrow> 'w ftp_session \<Rightarrow> 'w outcome" where
  "try_pasv n ret s =
     (if ft_rfc2428 s = rfc2428_unknown \<and> ret \<noteq> FTP_PASSIVE \<or> ft_rfc2428 s = rfc2428_bad
      then execute n ''PASV'' s else Some (ret, s))"

definition ftp_data_open :: "'w net \<Rightarrow> string \<Rightarrow> 'w ftp_session \<Rightarrow> 'w outcome" where
  "ftp_data_open n command s =
     (let buf = snprintf BUFSIZ command in
      if \<not> ft_use_passive s then dtp_open_active n buf s
      else do {
        (ret, s) \<leftarrow> try_epsv n s;
        (ret, s) \<leftarrow> try_pasv n ret s;
        if ret \<noteq> FTP_PASSIVE then Some (FTP_NOPASSIVE, s)
        else let (ok, s) = dtp_open_passive n s in
             if ok then execute n buf s else Some (FTP_ERROR, s) })"

definition dtp_close :: "'w net \<Rightarrow> bool \<Rightarrow> 'w ftp_session \<Rightarrow> 'w outcome" where
  "dtp_close n discard s =
     (if \<not> ft_dtpsock s then None
      else let (ret, s) = on_net (n_close n DTP) s; s = s\<lparr>ft_dtpsock := False\<rparr> in
      if ret < 0
      then Some (FTP_ERROR, if discard then s else set_syserr n ''Error closing data socket'' s)
      else do { ((ret, rcode), s) \<leftarrow> read_reply n s;
        if ret \<noteq> FTP_OK then Some (ret, s)
        else do { (ret, s) \<leftarrow> parse_reply n rcode s;
          if ret = FTP_OK \<or> ret = FTP_SENT then Some (FTP_SENT, s)
          else Some (FTP_ERROR, if discard then s else ftp_seterror (ft_rbuf s) s) } })"

section \<open>Uploads\<close>

text \<open>The name relative to the working directory, and the command that makes it so.\<close>

definition maybe_chdir ::
    "'w net \<Rightarrow> string \<Rightarrow> 'w ftp_session \<Rightarrow> ((int \<times> string) \<times> 'w ftp_session) option" where
  "maybe_chdir n fn s =
     (if \<not> ft_use_cwd s \<or> fn = [] \<or> hd fn \<noteq> CHR ''/'' \<or> length fn > PATH_MAX
      then Some ((FTP_OK, fn), s)
      else do { (slash, remotefile) \<leftarrow> strrchr_split fn CHR ''/'';
        let dir = butlast slash;
        if dir = ft_cwd s then Some ((FTP_OK, remotefile), s)
        else do { (ret, s) \<leftarrow> execute n (''CWD '' @ dir) s;
                  Some ((ret, remotefile), if ret = FTP_OK then s\<lparr>ft_cwd := dir\<rparr> else s) } })"

text \<open>Whether all went out.\<close>

fun send_ascii ::
    "'w net \<Rightarrow> int \<Rightarrow> string list \<Rightarrow> int \<Rightarrow> int \<Rightarrow> 'w ftp_session \<Rightarrow> (bool \<times> 'w ftp_session) option" where
  "send_ascii n fsize [] tot lasttotal s = Some (True, s)"
| "send_ascii n fsize (buffer # rest) tot lasttotal s =
     (if \<not> ft_dtpsock s then None
      else let (ret, s) = on_net (n_write n DTP (ascii_buffer buffer)) s in
      if ret \<noteq> 0 then Some (False, set_sockerr n DTP ''Error sending file'' ret s)
      else let line = c_string buffer;
               tot = tot + (if CHR 0x0D \<in> set line \<or> CHR 0x0A \<in> set line
                            then int (length (ascii_buffer buffer)) else n_null_diff n) + 2
           in if tot > lasttotal + 4096
              then send_ascii n fsize rest tot tot (tell (n_progress n tot fsize) s)
              else send_ascii n fsize rest tot lasttotal s)"

fun send_binary ::
    "'w net \<Rightarrow> int \<Rightarrow> string list \<Rightarrow> int \<Rightarrow> 'w ftp_session \<Rightarrow> (bool \<times> 'w ftp_session) option" where
  "send_binary n fsize [] tot s = Some (True, s)"
| "send_binary n fsize (buffer # rest) tot s =
     (if \<not> ft_dtpsock s then None
      else let (ret, s) = on_net (n_write n DTP buffer) s in
      if ret \<noteq> 0 then Some (False, set_sockerr n DTP ''Could not send file'' ret s)
      else let tot = tot + int (length buffer)
           in send_binary n fsize rest tot (tell (n_progress n tot fsize) s))"

definition send_file ::
    "'w net \<Rightarrow> bool \<Rightarrow> local_file \<Rightarrow> int \<Rightarrow> 'w ftp_session \<Rightarrow> (bool \<times> 'w ftp_session) option" where
  "send_file n ascii f fsize s =
     do { (ok, s) \<leftarrow> (if ascii then send_ascii n fsize (fgets_lines (BUFSIZ - 1) (lo_text f)) 0 0 s
                     else send_binary n fsize (binary_buffers (length (lo_text f)) (lo_text f)) 0 s);
          Some (if \<not> ok then (False, s)
                else if lo_failed f then (False, set_syserr n ''Error reading file'' s)
                else (True, s)) }"

text \<open>The attempts of \<open>ftp_put\<close>; the name of one is the name the one before left.\<close>

fun put_tries :: "'w net \<Rightarrow> bool \<Rightarrow> local_file \<Rightarrow> int \<Rightarrow> nat \<Rightarrow> bool \<Rightarrow> string \<Rightarrow> 'w ftp_session \<Rightarrow> 'w outcome" where
  "put_tries n ascii f fsize 0 again remotefile s = Some (FTP_ERROR, snd (on_net (n_fclose n) s))"
| "put_tries n ascii f fsize (Suc k) again remotefile s =
     (let (ok, s) = (if again then on_net (n_rewind n) s else (True, s)) in
      if \<not> ok
      then Some (FTP_ERROR,
             snd (on_net (n_fclose n) (set_syserr n ''Could not rewind to beginning of file'' s)))
      else do { ((ret, remotefile), s) \<leftarrow> maybe_chdir n remotefile s;
        if ret \<noteq> FTP_OK then Some (ret, snd (on_net (n_fclose n) s))
        else do { (ret, s) \<leftarrow> ftp_data_open n (''STOR '' @ remotefile) s;
          if ret \<noteq> FTP_READY then Some (FTP_ERROR, snd (on_net (n_fclose n) s))
          else do { (sent, s) \<leftarrow> send_file n ascii f fsize s;
               (dret, s) \<leftarrow> dtp_close n False s;
               if dret = FTP_SENT \<and> sent then Some (FTP_OK, snd (on_net (n_fclose n) s))
               else if dret = FTP_BROKEN then put_tries n ascii f fsize k True remotefile s
               else Some (FTP_ERROR, snd (on_net (n_fclose n) s)) } } })"

definition ftp_put :: "'w net \<Rightarrow> string \<Rightarrow> string \<Rightarrow> bool \<Rightarrow> 'w ftp_session \<Rightarrow> 'w outcome" where
  "ftp_put n localfile remotefile ascii s =
     do { (ret, s) \<leftarrow> set_mode n (if ascii then tran_ascii else tran_binary) s;
          if ret \<noteq> FTP_OK then Some (FTP_ERROR, s)
          else case on_net (n_fopen_read n localfile) s of
            (None, s) \<Rightarrow> Some (FTP_ERROR, set_syserr n ''Could not open file'' s)
          | (Some f, s) \<Rightarrow>
              (case lo_size f of
                 None \<Rightarrow> Some (FTP_ERROR,
                   snd (on_net (n_fclose n) (set_syserr n ''Could not determine length of file'' s)))
               | Some fsize \<Rightarrow> put_tries n ascii f fsize 3 False remotefile s) }"

section \<open>Modification times\<close>

definition get_modtime :: "'w net \<Rightarrow> string \<Rightarrow> string \<Rightarrow> 'w ftp_session \<Rightarrow> 'w outcome" where
  "get_modtime n root filename s =
     do { (ret, s) \<leftarrow> execute n (''MDTM '' @ root @ filename) s;
          Some (if ret = FTP_MODTIME then FTP_OK else FTP_ERROR, s) }"

definition ftp_put_cond ::
    "'w net \<Rightarrow> string \<Rightarrow> string \<Rightarrow> bool \<Rightarrow> int \<Rightarrow> 'w ftp_session \<Rightarrow> 'w outcome" where
  "ftp_put_cond n localfile remotefile ascii mtime s =
     do { (ret, s) \<leftarrow> get_modtime n remotefile '''' s;
          if ret \<noteq> FTP_OK then Some (ret, s)
          else if ft_get_modtime s \<noteq> mtime then Some (FTP_FAILED, s)
          else ftp_put n localfile remotefile ascii s }"

definition ftp_get_modtime ::
    "'w net \<Rightarrow> string \<Rightarrow> 'w ftp_session \<Rightarrow> ((int \<times> int) \<times> 'w ftp_session) option" where
  "ftp_get_modtime n filename s =
     do { (ret, s) \<leftarrow> get_modtime n filename '''' s;
          Some (if ret = FTP_OK then (FTP_OK, ft_get_modtime s) else (FTP_ERROR, - 1), s) }"

fun ftp_fetch_modtimes ::
    "'w net \<Rightarrow> string \<Rightarrow> proto_file list \<Rightarrow> 'w ftp_session \<Rightarrow> ((int \<times> proto_file list) \<times> 'w ftp_session) option"
where
  "ftp_fetch_modtimes n rootdir [] s = Some ((FTP_OK, []), s)"
| "ftp_fetch_modtimes n rootdir (this # files) s =
     (if pf_type this \<noteq> proto_file
      then do { ((ret, files), s) \<leftarrow> ftp_fetch_modtimes n rootdir files s; Some ((ret, this # files), s) }
      else do { (ret, s) \<leftarrow> get_modtime n rootdir (pf_filename this) s;
        if ret \<noteq> FTP_OK then Some ((FTP_ERROR, this # files), s)
        else do { let this = this\<lparr>pf_modtime := ft_get_modtime s\<rparr>;
                  ((ret, files), s) \<leftarrow> ftp_fetch_modtimes n rootdir files s;
                  Some ((ret, this # files), s) } })"

section \<open>Downloads\<close>

text \<open>The loop of \<open>receive_file\<close>: whether the file arrived.\<close>

partial_function (option) receive_loop ::
    "'w net \<Rightarrow> int \<Rightarrow> 'w ftp_session \<Rightarrow> (bool \<times> 'w ftp_session) option" where
  "receive_loop n got s =
     (if \<not> ft_dtpsock s then None
      else case on_net (n_read n) s of
        (Inl bytes, s) \<Rightarrow>
          Some (if bytes < 0 \<and> bytes \<noteq> NE_SOCK_CLOSED
                then (False, set_sockerr n DTP ''Receiving file'' bytes s) else (True, s))
      | (Inr data, s) \<Rightarrow>
          if data = [] then Some (True, s)
          else let got = got + int (length data);
                   (ok, s) = on_net (n_fwrite n data) (tell (n_progress n got (- 1)) s)
               in if ok then receive_loop n got s
                  else Some (False, set_syserr n ''Error writing to file'' s))"

definition ftp_get :: "'w net \<Rightarrow> string \<Rightarrow> string \<Rightarrow> bool \<Rightarrow> 'w ftp_session \<Rightarrow> 'w outcome" where
  "ftp_get n localfile remotefile ascii s =
     (let (ok, s) = on_net (n_fopen_write n localfile) s in
      if \<not> ok then Some (FTP_ERROR, set_syserr n ''Could not open file'' s)
      else do { (ret, s) \<leftarrow> set_mode n (if ascii then tran_ascii else tran_binary) s;
        if ret \<noteq> FTP_OK then Some (FTP_ERROR, s)
        else do { (ret, s) \<leftarrow> ftp_data_open n (''RETR '' @ remotefile) s;
          if ret \<noteq> FTP_READY then Some (FTP_ERROR, s)
          else do { (received, s) \<leftarrow> receive_loop n 0 s;
            let (closed, s) = on_net (n_fclose n) s;
            let errno_text = n_strerror n (ft_world s);
            (dret, s) \<leftarrow> dtp_close n False s;
            if dret = FTP_SENT \<and> received \<and> closed then Some (FTP_OK, s)
            else if \<not> closed
            then Some (FTP_ERROR, s\<lparr>ft_error := snprintf BUFSIZ (''Error writing to file'' @ '': '' @ errno_text)\<rparr>)
            else Some (FTP_ERROR, s) } } })"

text \<open>The blocks for the reader, and the code that ended them.\<close>

partial_function (option) read_blocks ::
    "'w net \<Rightarrow> string list \<Rightarrow> 'w ftp_session \<Rightarrow> ((int \<times> string list) \<times> 'w ftp_session) option" where
  "read_blocks n blocks s =
     (if \<not> ft_dtpsock s then None
      else case on_net (n_read n) s of
        (Inl ret, s) \<Rightarrow> Some ((ret, blocks), s)
      | (Inr data, s) \<Rightarrow> if data = [] then Some ((0, blocks), s) else read_blocks n (blocks @ [data]) s)"

definition ftp_read_file ::
    "'w net \<Rightarrow> string \<Rightarrow> 'w ftp_session \<Rightarrow> ((int \<times> string list) \<times> 'w ftp_session) option" where
  "ftp_read_file n remotefile s =
     do { (ret, s) \<leftarrow> set_mode n tran_binary s;
          if ret \<noteq> FTP_OK then Some ((FTP_ERROR, []), s)
          else do { (ret, s) \<leftarrow> ftp_data_open n (''RETR '' @ remotefile) s;
            if ret \<noteq> FTP_READY then Some ((FTP_ERROR, []), s)
            else do { ((ret, blocks), s) \<leftarrow> read_blocks n [] s;
              (dret, s) \<leftarrow> dtp_close n False s;
              Some ((if dret = FTP_SENT \<and> ret = NE_SOCK_CLOSED then FTP_OK else FTP_ERROR, blocks), s) } } }"

section \<open>Listings\<close>

partial_function (option) fetch_lines ::
    "'w net \<Rightarrow> ls_context \<Rightarrow> ls_entry \<Rightarrow> pf_list \<Rightarrow> 'w ftp_session
      \<Rightarrow> ((int \<times> pf_list) \<times> 'w ftp_session) option" where
  "fetch_lines n ctx f lt s =
     (if \<not> ft_dtpsock s then None
      else case on_net (n_readline n DTP) s of
        (Inl len, s) \<Rightarrow>
          Some (if len = NE_SOCK_CLOSED then ((FTP_OK, lt), s)
                else ((FTP_ERROR, lt), set_sockerr n DTP ''Could not read 'LIST' response.'' len s))
      | (Inr buf, s) \<Rightarrow>
          do { (res, ctx, f) \<leftarrow> ls_parse ctx (c_string buf) f;
               let s = s\<lparr>ft_rbuf := buf\<rparr>;
               if res = ls_error
               then Some ((FTP_ERROR, lt), ftp_seterror (snprintf 512 (''Parse error in LIST response: ''
                      @ (case lc_error ctx of Some e \<Rightarrow> e | None \<Rightarrow> ''(null)''))) s)
               else fetch_lines n ctx f (ls_pflist_add f res lt) s })"

definition ftp_fetch ::
    "'w net \<Rightarrow> ls_entry \<Rightarrow> string \<Rightarrow> 'w ftp_session \<Rightarrow> ((int \<times> proto_file list) \<times> 'w ftp_session) option" where
  "ftp_fetch n junk startdir s =
     do { (ret, s) \<leftarrow> ftp_data_open n (''LIST -la '' @ startdir) s;
          if ret \<noteq> FTP_READY then Some ((FTP_ERROR, []), s)
          else do { ctx \<leftarrow> ls_init startdir;
            ((ret, lt), s) \<leftarrow> fetch_lines n ctx junk ([], None) s;
            let files = map snd (fst lt);
            (dret, s) \<leftarrow> dtp_close n (ret \<noteq> FTP_OK) s;
            Some ((if ret \<noteq> FTP_OK then ret else if dret = FTP_SENT then FTP_OK else FTP_ERROR, files), s) } }"

end
