(* ===== verification/Ftp_Conn.thy ===== *)
theory Ftp_Conn
  imports Ftp_Transfer
begin

text \<open>
  The control connection of the FTP client never uses a socket that is closed, and every command
  comes back: \<open>ftp_open\<close> and \<open>execute\<close> call each other to a depth of two only, a command is sent
  at most three times, and a lost connection is not reported as such.
\<close>

section \<open>Computations that come back\<close>

definition ends :: "('a \<times> 's) option \<Rightarrow> ('a \<Rightarrow> 's \<Rightarrow> bool) \<Rightarrow> bool" where
  "ends r Q \<longleftrightarrow> (\<exists>x s. r = Some (x, s) \<and> Q x s)"

lemma ends_Some [simp]: "ends (Some (x, s)) Q = Q x s"
  by (simp add: ends_def)

lemma ends_bind:
  "ends r P \<Longrightarrow> (\<And>x s. P x s \<Longrightarrow> ends (f x s) Q) \<Longrightarrow> ends (do { (x, s) \<leftarrow> r; f x s }) Q"
  by (auto simp: ends_def)

lemma ends_bind_pair:
  "ends r P \<Longrightarrow> (\<And>x y s. P (x, y) s \<Longrightarrow> ends (f x y s) Q) \<Longrightarrow> ends (do { ((x, y), s) \<leftarrow> r; f x y s }) Q"
  by (auto simp: ends_def)

lemma ends_mono: "ends r P \<Longrightarrow> (\<And>x s. P x s \<Longrightarrow> Q x s) \<Longrightarrow> ends r Q"
  by (auto simp: ends_def)

lemma ends_conj: "ends r P \<Longrightarrow> ends r Q \<Longrightarrow> ends r (\<lambda>x s. P x s \<and> Q x s)"
  by (auto simp: ends_def)

lemma on_net_eq: "on_net g s = (fst (g (ft_world s)), s\<lparr>ft_world := snd (g (ft_world s))\<rparr>)"
  by (simp add: on_net_def case_prod_beta' Let_def)

section \<open>What is assumed of the network\<close>

text \<open>
  Lines end with their newline, and neither end of a connection talks for ever by itself: some
  measure of what the server still has to say falls with each line and block, until it gets a new
  command.
\<close>

definition lines_end :: "'w net \<Rightarrow> bool" where
  "lines_end n \<longleftrightarrow>
     (\<forall>ch w l w'. n_readline n ch w = (Inr l, w') \<longrightarrow> (\<exists>m. l = m @ [NL] \<and> NL \<notin> set m))"

definition falls_silent :: "'w net \<Rightarrow> ('w \<Rightarrow> nat) \<Rightarrow> bool" where
  "falls_silent n f \<longleftrightarrow>
     (\<forall>ch w l w'. n_readline n ch w = (Inr l, w') \<longrightarrow> f w' < f w)
     \<and> (\<forall>w d w'. n_read n w = (Inr d, w') \<longrightarrow> d \<noteq> [] \<longrightarrow> f w' < f w)
     \<and> (\<forall>d w. f (snd (n_fwrite n d w)) \<le> f w) \<and> (\<forall>a b w. f (n_progress n a b w) \<le> f w)"

text \<open>What the calls that carry no file data leave alone; closing is one of them.  \<open>L\<close> are command
  lines that are excepted; the client does not send them to log in or to set the transfer mode.\<close>

definition control_keeps :: "'w net \<Rightarrow> string set \<Rightarrow> ('w \<Rightarrow> bool) \<Rightarrow> bool" where
  "control_keeps n L K \<longleftrightarrow> (\<forall>w. K w \<longrightarrow>
     (\<forall>h. K (snd (n_resolve n h w))) \<and> (\<forall>a p. K (snd (n_connect n a p w)))
     \<and> (\<forall>d. d \<notin> L \<longrightarrow> K (snd (n_write n PI d w))) \<and> (\<forall>ch. K (snd (n_readline n ch w)))
     \<and> (\<forall>ch. K (snd (n_close n ch w))) \<and> K (snd (n_getsockname_pi n w)) \<and> K (snd (n_socket n w))
     \<and> K (snd (n_bind n w)) \<and> K (snd (n_getsockname n w)) \<and> K (snd (n_listen n w))
     \<and> K (n_close_listener n w) \<and> (\<forall>h u p. K (snd (n_login n h u p w)))
     \<and> (\<forall>st h. K (n_connection n st h w)))"

definition login_line :: "string \<Rightarrow> bool" where
  "login_line l \<longleftrightarrow> take 5 l \<in> {''USER '', ''PASS '', ''TYPE ''}"

definition net_ok_but :: "'w net \<Rightarrow> string set \<Rightarrow> ('w \<Rightarrow> bool) \<Rightarrow> bool" where
  "net_ok_but n L K \<longleftrightarrow> lines_end n \<and> (\<exists>f. falls_silent n f) \<and> control_keeps n L K
     \<and> (\<forall>l \<in> L. \<not> login_line l)"

abbreviation net_ok :: "'w net \<Rightarrow> ('w \<Rightarrow> bool) \<Rightarrow> bool" where
  "net_ok n \<equiv> net_ok_but n {}"

lemmas net_ok_def = net_ok_but_def [where L = "{}", simplified]

lemma net_okD:
  assumes "net_ok_but n L K" "K w"
  shows "K (snd (n_resolve n h w))" "K (snd (n_connect n a p w))" "d \<notin> L \<Longrightarrow> K (snd (n_write n PI d w))"
    "K (snd (n_readline n ch w))" "K (snd (n_close n ch w))" "K (snd (n_getsockname_pi n w))"
    "K (snd (n_socket n w))" "K (snd (n_bind n w))" "K (snd (n_getsockname n w))"
    "K (snd (n_listen n w))" "K (n_close_listener n w)" "K (snd (n_login n h u pw w))"
    "K (n_connection n st h w)"
  using assms by (simp_all add: net_ok_but_def control_keeps_def)

lemma login_line_fits: "login_line (snprintf 1024 (c @ d) @ CRLF)" if "c \<in> {''USER '', ''PASS '', ''TYPE ''}"
  using that by (auto simp: login_line_def snprintf_def)

lemma not_excepted: "net_ok_but n L K \<Longrightarrow> login_line l \<Longrightarrow> l \<notin> L"
  by (auto simp: net_ok_but_def)

section \<open>Sessions\<close>

definition same_user :: "'w ftp_session \<Rightarrow> 'w ftp_session \<Rightarrow> bool" where
  "same_user s t \<longleftrightarrow> ft_use_passive t = ft_use_passive s \<and> ft_use_cwd t = ft_use_cwd s
     \<and> ft_hostname t = ft_hostname s \<and> ft_pi_addr t = ft_pi_addr s \<and> ft_pi_port t = ft_pi_port s
     \<and> ft_dtpsock t = ft_dtpsock s"

definition low :: "('w \<Rightarrow> bool) \<Rightarrow> 'w ftp_session \<Rightarrow> 'w ftp_session \<Rightarrow> bool" where
  "low K s t \<longleftrightarrow> same_user s t \<and> ft_mode t = ft_mode s \<and> ft_rfc2428 t = ft_rfc2428 s
     \<and> ft_cwd t = ft_cwd s \<and> K (ft_world t)"

text \<open>A session between two commands.\<close>

definition ftp_ok :: "('w \<Rightarrow> bool) \<Rightarrow> 'w ftp_session \<Rightarrow> bool" where
  "ftp_ok K s \<longleftrightarrow> (ft_connected s \<longrightarrow> ft_pisock s) \<and> K (ft_world s)"

definition is_line :: "string \<Rightarrow> bool" where
  "is_line l \<longleftrightarrow> (\<exists>m. l = m @ [NL] \<and> NL \<notin> set m)"

lemma same_user_refl [simp]: "same_user s s"
  by (simp add: same_user_def)

lemma same_user_trans: "same_user s t \<Longrightarrow> same_user t u \<Longrightarrow> same_user s u"
  by (simp add: same_user_def)

lemma session_set [simp]:
  "same_user s (t\<lparr>ft_world := w\<rparr>) = same_user s t" "same_user s (t\<lparr>ft_rbuf := b\<rparr>) = same_user s t"
  "same_user s (t\<lparr>ft_error := e\<rparr>) = same_user s t" "same_user s (t\<lparr>ft_pisock := p\<rparr>) = same_user s t"
  "same_user s (t\<lparr>ft_connected := p\<rparr>) = same_user s t" "same_user s (t\<lparr>ft_mode := m\<rparr>) = same_user s t"
  "same_user s (t\<lparr>ft_cwd := d\<rparr>) = same_user s t" "same_user s (t\<lparr>ft_rfc2428 := r\<rparr>) = same_user s t"
  "same_user s (t\<lparr>ft_pi_curaddr := a\<rparr>) = same_user s t" "same_user s (t\<lparr>ft_get_modtime := i\<rparr>) = same_user s t"
  "same_user s (t\<lparr>ft_username := e\<rparr>) = same_user s t" "same_user s (t\<lparr>ft_password := e\<rparr>) = same_user s t"
  "same_user s (t\<lparr>ft_dtp_addr := ad\<rparr>) = same_user s t" "same_user s (t\<lparr>ft_dtp_port := po\<rparr>) = same_user s t"
  "same_user (s\<lparr>ft_world := w\<rparr>) t = same_user s t" "same_user (s\<lparr>ft_rbuf := b\<rparr>) t = same_user s t"
  "same_user (s\<lparr>ft_error := e\<rparr>) t = same_user s t" "same_user (s\<lparr>ft_pisock := p\<rparr>) t = same_user s t"
  "same_user (s\<lparr>ft_connected := p\<rparr>) t = same_user s t" "same_user (s\<lparr>ft_mode := m\<rparr>) t = same_user s t"
  "same_user (s\<lparr>ft_cwd := d\<rparr>) t = same_user s t" "same_user (s\<lparr>ft_rfc2428 := r\<rparr>) t = same_user s t"
  "same_user (s\<lparr>ft_pi_curaddr := a\<rparr>) t = same_user s t"
  "same_user (s\<lparr>ft_username := e\<rparr>) t = same_user s t" "same_user (s\<lparr>ft_password := e\<rparr>) t = same_user s t"
  by (simp_all add: same_user_def)

lemmas session_defs = low_def close_pi_def set_pisockerr_def set_sockerr_def set_syserr_def
  ftp_seterror_def on_net_eq tell_def

section \<open>Replies and commands\<close>

text \<open>What reading a reply gives: a whole reply, or a closed connection.\<close>

definition heard :: "('w \<Rightarrow> bool) \<Rightarrow> 'w ftp_session \<Rightarrow> int \<Rightarrow> 'w ftp_session \<Rightarrow> bool" where
  "heard K s ret t \<longleftrightarrow> low K s t
     \<and> (if ret = FTP_OK then ft_pisock t \<and> ft_connected t = ft_connected s \<and> is_line (ft_rbuf t)
        else \<not> ft_pisock t \<and> \<not> ft_connected t \<and> (ret = FTP_BROKEN \<or> ret = FTP_ERROR))"

lemma read_lines_ends:
  assumes n: "net_ok_but n L K"
  shows "ft_pisock s \<Longrightarrow> K (ft_world s) \<Longrightarrow> ends (read_lines n c m s) (\<lambda>r. heard K s (fst r))"
proof -
  obtain f where f: "falls_silent n f" using n by (auto simp: net_ok_but_def)
  show "ft_pisock s \<Longrightarrow> K (ft_world s) \<Longrightarrow> ends (read_lines n c m s) (\<lambda>r. heard K s (fst r))"
  proof (induction "f (ft_world s)" arbitrary: s c m rule: less_induct)
    case less
    obtain r w where r: "n_readline n PI (ft_world s) = (r, w)" by (cases "n_readline n PI (ft_world s)")
    then have w: "K w" using net_okD(4) [OF n less.prems(2), of PI] by simp
    show ?case
    proof (cases r)
      case (Inl e)
      then show ?thesis
        using less.prems r net_okD(5) [OF n w]
        by (subst read_lines.simps) (simp add: session_defs heard_def)
    next
      case (Inr l)
      have fall: "f w < f (ft_world s)" using f r Inr by (auto simp: falls_silent_def)
      have line: "is_line l" using n r Inr unfolding net_ok_but_def lines_end_def is_line_def by blast
      obtain c' m' where nx: "reply_line l c m = (c', m')" by (cases "reply_line l c m")
      let ?s = "s\<lparr>ft_world := w, ft_rbuf := l\<rparr>"
      have "ends (read_lines n c' m' ?s) (\<lambda>r. heard K ?s (fst r))"
        using less.hyps [of ?s c' m'] fall less.prems w by simp
      then have "ends (read_lines n c' m' ?s) (\<lambda>r. heard K s (fst r))"
        by (rule ends_mono) (simp add: heard_def low_def same_user_def)
      then show ?thesis using less.prems r w Inr nx line
        by (subst read_lines.simps) (simp add: on_net_eq low_def heard_def Let_def)
    qed
  qed
qed

lemma read_reply_ends:
  "net_ok_but n L K \<Longrightarrow> ft_pisock s \<Longrightarrow> K (ft_world s) \<Longrightarrow> ends (read_reply n s) (\<lambda>r. heard K s (fst r))"
  unfolding read_reply_def by (rule read_lines_ends)

text \<open>After a reply the connection is as it was, or it is closed.\<close>

definition replied :: "('w \<Rightarrow> bool) \<Rightarrow> 'w ftp_session \<Rightarrow> int \<Rightarrow> 'w ftp_session \<Rightarrow> bool" where
  "replied K s ret t \<longleftrightarrow> low K s t
     \<and> (ft_pisock t \<and> ft_connected t = ft_connected s \<and> ret \<noteq> FTP_BROKEN
        \<or> \<not> ft_pisock t \<and> \<not> ft_connected t \<and> (ret = FTP_BROKEN \<or> ret = FTP_ERROR))
     \<and> ret \<notin> {FTP_LOOKUP, FTP_CONNECT, FTP_HELLO, FTP_LOGIN}"

lemma parse_reply_ends:
  assumes "net_ok_but n L K" "ft_pisock s" "K (ft_world s)" "is_line (ft_rbuf s)"
  shows "ends (parse_reply n c s) (replied K s)"
proof -
  obtain e where e: "parse_epasv_reply (ft_rbuf s) = Some e"
    using assms(4) parse_epasv_bounds unfolding is_line_def by fastforce
  show ?thesis
    unfolding parse_reply_def
    using assms net_okD(5) [OF assms(1,3)]
    by (auto simp: e replied_def session_defs Let_def split: sum.split)
qed

text \<open>The first form is for a line that \<open>K\<close> does not outlast.\<close>

lemma run_command_from:
  assumes "net_ok_but n L K" "ft_pisock s" and w: "K (snd (n_write n PI (cmd @ CRLF) (ft_world s)))"
  shows "ends (run_command n cmd s) (replied K s)"
proof -
  let ?g = "n_write n PI (cmd @ CRLF) (ft_world s)"
  let ?s = "s\<lparr>ft_world := snd ?g\<rparr>"
  have "ends (parse_reply n c (ftp_seterror (ft_rbuf t) t)) (replied K s)"
    if "heard K ?s FTP_OK t" for t c
  proof -
    let ?t = "ftp_seterror (ft_rbuf t) t"
    have "ends (parse_reply n c ?t) (replied K ?t)"
      using that assms(1) by (intro parse_reply_ends) (simp_all add: heard_def low_def ftp_seterror_def)
    then show ?thesis
      by (rule ends_mono) (use that in \<open>simp add: replied_def heard_def low_def ftp_seterror_def same_user_def\<close>)
  qed
  moreover have "replied K s ret t" if "heard K ?s ret t" "ret \<noteq> FTP_OK" for ret t
    using that by (auto simp: heard_def replied_def low_def)
  ultimately have "ends (do { ((ret, rcode), t) \<leftarrow> read_reply n ?s;
      if ret \<noteq> FTP_OK then Some (ret, t)
      else parse_reply n rcode (ftp_seterror (ft_rbuf t) t) }) (replied K s)"
    using assms w by (intro ends_bind_pair [OF read_reply_ends [OF assms(1), of ?s]]) auto
  then show ?thesis
    unfolding run_command_def on_net_eq Let_def prod.case
    using assms w net_okD(5) [OF assms(1) w, of PI]
    by (auto simp: replied_def session_defs)
qed

lemma run_command_ends:
  assumes "net_ok_but n L K" "ft_pisock s" "K (ft_world s)" "cmd @ CRLF \<notin> L"
  shows "ends (run_command n cmd s) (replied K s)"
  by (rule run_command_from [OF assms(1,2) net_okD(3) [OF assms(1,3,4)]])

section \<open>Opening the connection\<close>

lemma replied_trans:
  "replied K t ret u \<Longrightarrow> low K s t \<Longrightarrow> ft_connected t = ft_connected s \<Longrightarrow> replied K s ret u"
  by (auto simp: replied_def low_def intro: same_user_trans)

lemma authenticate_ends:
  assumes n: "net_ok_but n L K" and s: "ft_pisock s" "K (ft_world s)"
  shows "ends (authenticate n s) (replied K s)"
proof -
  have pass: "ends (if ret = FTP_NEEDPASSWORD then run_command n pw u else Some (ret, u)) (replied K s)"
    if "replied K s ret u" "login_line (pw @ CRLF)" for ret u pw
  proof (cases "ret = FTP_NEEDPASSWORD")
    case True
    then have u: "ft_pisock u" "ft_connected u = ft_connected s" "low K s u"
      using that by (auto simp: replied_def)
    have "ends (run_command n pw u) (replied K u)"
      using n u not_excepted [OF n that(2)] by (intro run_command_ends) (simp_all add: low_def)
    then show ?thesis using True u by (auto intro: ends_mono replied_trans)
  qed (use that in simp)
  have user: "ends (do { (ret, u) \<leftarrow> run_command n us t;
      if ret = FTP_NEEDPASSWORD then run_command n pw u else Some (ret, u) }) (replied K s)"
    if t: "ft_pisock t" "low K s t" "ft_connected t = ft_connected s"
      and l: "login_line (us @ CRLF)" "login_line (pw @ CRLF)" for t us pw
  proof (rule ends_bind [OF run_command_ends [OF n t(1)]])
    show "K (ft_world t)" "us @ CRLF \<notin> L" using t not_excepted [OF n l(1)] by (simp_all add: low_def)
    fix ret u assume "replied K t ret u"
    then have "replied K s ret u" using t by (auto intro: replied_trans)
    then show "ends (if ret = FTP_NEEDPASSWORD then run_command n pw u else Some (ret, u)) (replied K s)"
      by (rule pass [OF _ l(2)])
  qed
  have low: "low K s (s\<lparr>ft_world := w, ft_username := a, ft_password := b\<rparr>)" if "K w" for w a b
    using that by (simp add: low_def)
  have lines: "login_line (snprintf 1024 (''USER '' @ a) @ CRLF)"
      "login_line (snprintf 1024 (''PASS '' @ a) @ CRLF)" for a
    by (rule login_line_fits, simp)+
  note user = user [OF _ _ _ lines]
  show ?thesis
  proof (cases "ft_username s = [] \<or> ft_password s = []")
    case True
    let ?w = "snd (n_login n (ft_hostname s) (ft_username s) (ft_password s) (ft_world s))"
    have w: "K ?w" using net_okD(12) [OF n s(2)] .
    show ?thesis
      using True s user low [OF w] w
      by (auto simp: authenticate_def on_net_eq replied_def low_def Let_def split: option.split)
  next
    case False
    then show ?thesis
      using s user low [OF s(2)] by (auto simp: authenticate_def low_def)
  qed
qed

lemma connect_first_keeps:
  "net_ok_but n L K \<Longrightarrow> K (ft_world s) \<Longrightarrow> connect_first n ias s = (ok, t) \<Longrightarrow>
   low K s t \<and> ft_pisock t = ft_pisock s \<and> ft_connected t = ft_connected s"
proof (induction ias arbitrary: s)
  case (Cons ia ias)
  have w: "K (snd (n_connect n ia (ft_pi_port s) (ft_world s)))" using net_okD(2) [OF Cons.prems(1,2)] .
  show ?case
    using Cons.prems w Cons.IH [OF Cons.prems(1), of "s\<lparr>ft_world := snd (n_connect n ia (ft_pi_port s) (ft_world s)),
        ft_pi_curaddr := ia\<rparr>"]
    by (auto simp: on_net_eq low_def Let_def split: if_splits)
qed (auto simp: low_def)

text \<open>What an attempt to open the connection does.\<close>

definition opened :: "('w \<Rightarrow> bool) \<Rightarrow> 'w ftp_session \<Rightarrow> int \<Rightarrow> 'w ftp_session \<Rightarrow> bool" where
  "opened K s ret t \<longleftrightarrow> same_user s t \<and> ft_mode t = ft_mode s \<and> ft_rfc2428 t = ft_rfc2428 s
     \<and> K (ft_world t) \<and> (if ret = FTP_OK then ft_connected t \<and> ft_pisock t else \<not> ft_connected t)
     \<and> ret \<in> {FTP_OK, FTP_CONNECT, FTP_HELLO, FTP_LOGIN}"

lemma opened_low:
  "opened K t ret u \<Longrightarrow> low K s t \<Longrightarrow> opened K s ret u"
  by (auto simp: opened_def low_def intro: same_user_trans)

lemma ends_opened: "ends r (opened K t) \<Longrightarrow> low K s t \<Longrightarrow> ends r (opened K s)"
  by (auto intro: ends_mono opened_low)

lemma log_in_ends:
  assumes "net_ok_but n L K" "ft_pisock s" "\<not> ft_connected s" "K (ft_world s)"
  shows "ends (log_in n s) (opened K s)"
  unfolding log_in_def
  by (rule ends_bind [OF authenticate_ends [OF assms(1,2,4)]])
    (use assms in \<open>auto simp: replied_def low_def opened_def\<close>)

lemma hello_ends:
  assumes n: "net_ok_but n L K" and s: "ft_pisock s" "\<not> ft_connected s" "K (ft_world s)" "is_line (ft_rbuf s)"
  shows "ends (hello n c s) (opened K s)"
  unfolding hello_def
proof (rule ends_bind [OF parse_reply_ends [OF n s(1,3,4)]])
  fix ret t assume t: "replied K s ret t"
  have "ends (log_in n t) (opened K t)" if "ret = FTP_OK"
    using t s that by (intro log_in_ends [OF n]) (auto simp: replied_def low_def)
  then show "ends (if ret \<noteq> FTP_OK then Some (FTP_HELLO, ftp_seterror (ft_rbuf t) t) else log_in n t) (opened K s)"
    using t s(2) ends_opened [of "log_in n t" K t s]
    by (auto simp: replied_def opened_def low_def ftp_seterror_def)
qed

lemma greeting_ends:
  assumes n: "net_ok_but n L K" and s: "ft_pisock s" "\<not> ft_connected s" "K (ft_world s)"
  shows "ends (greeting n s) (opened K s)"
  unfolding greeting_def
proof (rule ends_bind_pair [OF read_reply_ends [OF n s(1,3)]])
  fix ret c :: int and t assume "heard K s (fst (ret, c)) t"
  then have t: "heard K s ret t" by simp
  have "ends (hello n c t) (opened K t)" if "ret = FTP_OK"
    using t s that by (intro hello_ends [OF n]) (auto simp: heard_def low_def)
  then show "ends (if ret \<noteq> FTP_OK then Some (FTP_HELLO, t) else hello n c t) (opened K s)"
    using t ends_opened [of "hello n c t" K t s] by (auto simp: heard_def opened_def low_def)
qed

lemma open_connection_ends:
  assumes n: "net_ok_but n L K" and s: "\<not> ft_connected s" "K (ft_world s)"
  shows "ends (open_connection n s) (opened K s)"
proof -
  let ?s1 = "s\<lparr>ft_cwd := ''x'', ft_world := n_connection n fe_connecting None (ft_world s), ft_pisock := True\<rparr>"
  obtain ok s2 where c: "connect_first n [0..<ft_pi_addr ?s1] ?s1 = (ok, s2)"
    by (cases "connect_first n [0..<ft_pi_addr ?s1] ?s1")
  have "K (ft_world ?s1)" using net_okD(13) [OF n s(2)] by simp
  then have s2: "low K ?s1 s2" "ft_pisock s2" "\<not> ft_connected s2"
    using connect_first_keeps [OF n _ c] s(1) by auto
  let ?s3 = "s2\<lparr>ft_world := n_connection n fe_connected None (ft_world s2)\<rparr>"
  have "ends (greeting n ?s3) (opened K ?s3)"
    using s2 net_okD(13) [OF n, of "ft_world s2"] by (intro greeting_ends [OF n]) (auto simp: low_def)
  then have "ends (greeting n ?s3) (opened K s)"
    by (rule ends_mono) (use s2 in \<open>auto simp: opened_def low_def intro: same_user_trans\<close>)
  then show ?thesis
    unfolding open_connection_def tell_def Let_def
    using c s2 net_okD(5) [OF n, of "ft_world s2" PI]
    by (auto simp: on_net_eq opened_def low_def)
qed

section \<open>Commands with an open connection\<close>

text \<open>What a command leaves: an error, or an answer on a connection that is open.\<close>

definition served :: "('w \<Rightarrow> bool) \<Rightarrow> 'w ftp_session \<Rightarrow> int \<Rightarrow> 'w ftp_session \<Rightarrow> bool" where
  "served K s ret t \<longleftrightarrow> same_user s t \<and> ft_rfc2428 t = ft_rfc2428 s \<and> ftp_ok K t
     \<and> ret \<noteq> FTP_BROKEN \<and> ret \<noteq> FTP_LOOKUP
     \<and> (ret \<notin> {FTP_CONNECT, FTP_HELLO, FTP_LOGIN, FTP_ERROR} \<longrightarrow> ft_connected t)"

lemma served_trans: "served K t ret u \<Longrightarrow> same_user s t \<Longrightarrow> ft_rfc2428 t = ft_rfc2428 s \<Longrightarrow> served K s ret u"
  by (auto simp: served_def intro: same_user_trans)

lemma served_set [simp]:
  "served K s ret (t\<lparr>ft_mode := m\<rparr>) = served K s ret t"
  "served K s ret (t\<lparr>ft_cwd := d\<rparr>) = served K s ret t"
  "served K (s\<lparr>ft_mode := m\<rparr>) ret t = served K s ret t"
  by (auto simp: served_def ftp_ok_def)

locale opener =
  fixes opn :: "'w net \<Rightarrow> 'w ftp_session \<Rightarrow> 'w outcome" and P :: "tran_mode \<Rightarrow> bool"
  assumes opens: "net_ok_but n L K \<Longrightarrow> ftp_ok K s \<Longrightarrow> P (ft_mode s) \<Longrightarrow>
    ends (opn n s) (\<lambda>ret t. served K s ret t \<and> P (ft_mode t))"
begin

lemma execute_tries_ends:
  assumes n: "net_ok_but n L K" and buf: "buf @ CRLF \<notin> L"
  shows "ftp_ok K s \<Longrightarrow> P (ft_mode s) \<Longrightarrow>
    ends (execute_tries (opn n) n buf k s) (\<lambda>ret t. served K s ret t \<and> P (ft_mode t))"
proof (induction k arbitrary: s)
  case 0
  then show ?case by (simp add: served_def)
next
  case (Suc k)
  show ?case
    unfolding execute_tries.simps
  proof (rule ends_bind [OF opens [OF n Suc.prems]])
    fix ret t assume t: "served K s ret t \<and> P (ft_mode t)"
    have "ends (do { (ret, u) \<leftarrow> run_command n buf t;
        if ret = FTP_BROKEN then execute_tries (opn n) n buf k u else Some (ret, u) })
      (\<lambda>ret t. served K s ret t \<and> P (ft_mode t))" if "ret = FTP_OK"
    proof (rule ends_bind [OF run_command_ends [OF n]])
      show t': "ft_pisock t" "K (ft_world t)" using t that by (auto simp: served_def ftp_ok_def)
      show "buf @ CRLF \<notin> L" by (rule buf)
      fix ret' u assume u: "replied K t ret' u"
      have tu: "same_user s u" "ft_rfc2428 u = ft_rfc2428 s" "P (ft_mode u)" "ftp_ok K u"
        using t t' u by (auto simp: served_def replied_def low_def ftp_ok_def intro: same_user_trans)
      have "ends (execute_tries (opn n) n buf k u) (\<lambda>ret t. served K s ret t \<and> P (ft_mode t))"
        by (rule ends_mono [OF Suc.IH [OF tu(4,3)]]) (auto intro: served_trans [OF _ tu(1,2)])
      then show "ends (if ret' = FTP_BROKEN then execute_tries (opn n) n buf k u else Some (ret', u))
          (\<lambda>ret t. served K s ret t \<and> P (ft_mode t))"
        using t u tu that by (auto simp: served_def replied_def)
    qed
    then show "ends (if ret \<noteq> FTP_OK then Some (ret, t)
        else do { (ret, u) \<leftarrow> run_command n buf t;
          if ret = FTP_BROKEN then execute_tries (opn n) n buf k u else Some (ret, u) })
      (\<lambda>ret t. served K s ret t \<and> P (ft_mode t))"
      using t by auto
  qed
qed

lemma execute_with_ends:
  "net_ok_but n L K \<Longrightarrow> snprintf 1024 cmd @ CRLF \<notin> L \<Longrightarrow> ftp_ok K s \<Longrightarrow> P (ft_mode s) \<Longrightarrow>
   ends (execute_with (opn n) n cmd s) (\<lambda>ret t. served K s ret t \<and> P (ft_mode t))"
  unfolding execute_with_def by (rule execute_tries_ends)

lemma set_mode_with_ends:
  assumes "net_ok_but n L K" "ftp_ok K s" "P (ft_mode s)" "ft_connected s \<or> ft_mode s \<noteq> m"
  shows "ends (set_mode_with (opn n) n m s) (\<lambda>ret t. served K s ret t \<and> (ret = FTP_OK \<longrightarrow> ft_mode t = m))"
proof (cases "ft_mode s = m")
  case False
  have "snprintf 1024 (if m = tran_ascii then ''TYPE A'' else ''TYPE I'') @ CRLF \<notin> L"
    using not_excepted [OF assms(1) login_line_fits [of "''TYPE ''" "if m = tran_ascii then ''A'' else ''I''"]]
    by (auto split: if_splits)
  from execute_with_ends [OF assms(1) this assms(2,3)] show ?thesis
    unfolding set_mode_with_def if_not_P [OF False] by (rule ends_bind) auto
qed (use assms in \<open>simp add: set_mode_with_def served_def\<close>)

end

lemma ftp_open_connected: "ft_connected s \<Longrightarrow> ftp_open (Suc k) n s = Some (FTP_OK, s)"
  by simp

lemma opened_served:
  "opened K s ret t \<Longrightarrow> served K s ret t \<and> ft_mode t = ft_mode s"
  by (auto simp: opened_def served_def ftp_ok_def split: if_splits)

interpretation fresh: opener "ftp_open (Suc 0)" "\<lambda>m. m = tran_unknown"
proof unfold_locales
  fix n :: "'w net" and L and K and s :: "'w ftp_session"
  assume a: "net_ok_but n L K" "ftp_ok K s" "ft_mode s = tran_unknown"
  show "ends (ftp_open (Suc 0) n s) (\<lambda>ret t. served K s ret t \<and> ft_mode t = tran_unknown)"
  proof (cases "ft_connected s")
    case False
    then have "ends (open_connection n s) (opened K s)"
      using a by (intro open_connection_ends) (auto simp: ftp_ok_def)
    then show ?thesis
      using a(3) False by (auto simp: intro!: ends_bind dest: opened_served)
  qed (use a in \<open>simp add: served_def\<close>)
qed

interpretation depth: opener "ftp_open ftp_depth" "\<lambda>_. True"
proof unfold_locales
  fix n :: "'w net" and L and K and s :: "'w ftp_session"
  assume a: "net_ok_but n L K" "ftp_ok K s" "True"
  have mode: "ends (set_mode_with (ftp_open (Suc 0) n) n (ft_mode t) (t\<lparr>ft_mode := tran_unknown\<rparr>)) (served K s)"
    if t: "opened K s FTP_OK t" "ft_mode t \<noteq> tran_unknown" for t
  proof -
    have "ftp_ok K (t\<lparr>ft_mode := tran_unknown\<rparr>)" using t by (auto simp: opened_def ftp_ok_def)
    then have "ends (set_mode_with (ftp_open (Suc 0) n) n (ft_mode t) (t\<lparr>ft_mode := tran_unknown\<rparr>))
        (\<lambda>ret u. served K t ret u \<and> (ret = FTP_OK \<longrightarrow> ft_mode u = ft_mode t))"
      using fresh.set_mode_with_ends [OF a(1), of "t\<lparr>ft_mode := tran_unknown\<rparr>" "ft_mode t"] t
      by (simp add: opened_def)
    then show ?thesis
      by (rule ends_mono) (use t in \<open>auto simp: opened_def intro: served_trans\<close>)
  qed
  show "ends (ftp_open ftp_depth n s) (\<lambda>ret t. served K s ret t \<and> True)"
  proof (cases "ft_connected s")
    case False
    then have "ends (open_connection n s) (opened K s)"
      using a by (intro open_connection_ends) (auto simp: ftp_ok_def)
    then show ?thesis
      using False mode by (auto simp: ftp_depth_def numeral_2_eq_2 intro!: ends_bind dest: opened_served)
  qed (use a in \<open>simp add: served_def ftp_depth_def numeral_2_eq_2\<close>)
qed

lemma execute_ends:
  "net_ok n K \<Longrightarrow> ftp_ok K s \<Longrightarrow> ends (execute n cmd s) (served K s)"
  using depth.execute_with_ends [of n "{}" K cmd s] by (simp add: execute_def)

lemma set_mode_ends:
  assumes "net_ok n K" "ftp_ok K s"
  shows "ends (set_mode n m s) (\<lambda>ret t. same_user s t \<and> ft_rfc2428 t = ft_rfc2428 s \<and> ftp_ok K t
    \<and> (ret = FTP_OK \<longrightarrow> ft_mode t = m))"
proof (cases "ft_mode s = m")
  case False
  then show ?thesis
    using depth.set_mode_with_ends [OF assms, of m]
    by (auto simp: set_mode_def served_def elim: ends_mono)
qed (use assms in \<open>simp add: set_mode_def set_mode_with_def\<close>)

section \<open>The depth of the recursion\<close>

context opener begin

lemma execute_tries_cong:
  assumes n: "net_ok n K"
    and eq: "\<And>s. ftp_ok K s \<Longrightarrow> P (ft_mode s) \<Longrightarrow> opn' s = opn n s"
  shows "ftp_ok K s \<Longrightarrow> P (ft_mode s) \<Longrightarrow> execute_tries opn' n buf k s = execute_tries (opn n) n buf k s"
proof (induction k arbitrary: s)
  case (Suc k)
  obtain ret t where t: "opn n s = Some (ret, t)" "served K s ret t" "P (ft_mode t)"
    using opens [OF n Suc.prems] by (auto simp: ends_def)
  show ?case
  proof (cases "ret = FTP_OK")
    case True
    then have "ft_pisock t" "K (ft_world t)" using t by (auto simp: served_def ftp_ok_def)
    then obtain ret' u where u: "run_command n buf t = Some (ret', u)" "replied K t ret' u"
      using run_command_ends [OF n, of t buf] by (auto simp: ends_def)
    then have "ftp_ok K u" "P (ft_mode u)" using t by (auto simp: replied_def low_def ftp_ok_def)
    then show ?thesis using t(1) u(1) Suc.IH [of u] eq [OF Suc.prems] True by simp
  qed (use t eq [OF Suc.prems] in simp)
qed simp

lemma set_mode_with_cong:
  assumes "net_ok n K" "\<And>s. ftp_ok K s \<Longrightarrow> P (ft_mode s) \<Longrightarrow> opn' s = opn n s" "ftp_ok K s" "P (ft_mode s)"
  shows "set_mode_with opn' n m s = set_mode_with (opn n) n m s"
  using execute_tries_cong [OF assms(1), of opn' s] assms by (simp add: set_mode_with_def execute_with_def)

end

lemma ftp_open_unknown:
  assumes "net_ok n K" "ftp_ok K s" "ft_mode s = tran_unknown"
  shows "ftp_open (Suc k) n s = ftp_open (Suc 0) n s"
proof (cases "ft_connected s")
  case False
  then obtain ret t where "open_connection n s = Some (ret, t)" "opened K s ret t"
    using open_connection_ends [OF assms(1), of s] assms(2) by (auto simp: ends_def ftp_ok_def)
  then show ?thesis using False assms(3) by (simp add: opened_def)
qed simp

lemma ftp_open_depth:
  assumes n: "net_ok n K" and s: "ftp_ok K s"
  shows "ftp_open (ftp_depth + k) n s = ftp_open ftp_depth n s"
proof (cases "ft_connected s")
  case False
  then obtain ret t where o: "open_connection n s = Some (ret, t)" "opened K s ret t"
    using open_connection_ends [OF n, of s] s by (auto simp: ends_def ftp_ok_def)
  let ?t = "t\<lparr>ft_mode := tran_unknown\<rparr>"
  have eq: "ftp_open (Suc k) n u = ftp_open (Suc 0) n u" if "ftp_ok K u" "ft_mode u = tran_unknown" for u
    using ftp_open_unknown [OF n that] .
  have "ftp_ok K ?t" using o(2) by (auto simp: opened_def ftp_ok_def split: if_splits)
  then have "set_mode_with (ftp_open (Suc k) n) n m ?t = set_mode_with (ftp_open (Suc 0) n) n m ?t" for m
    by (intro fresh.set_mode_with_cong [OF n]) (simp_all only: eq, simp)
  then show ?thesis using False o(1) by (simp add: ftp_depth_def numeral_2_eq_2 del: ftp_open.simps(1))
qed (simp add: ftp_depth_def numeral_2_eq_2)

section \<open>How often a command is sent\<close>

text \<open>\<open>c\<close> counts in the world how often the line \<open>l\<close> was written to the control connection: only
  writing it raises \<open>c\<close>, by one.  It is not a line of the login or of the transfer mode, which each
  new connection sends for itself.\<close>

definition counts_line :: "'w net \<Rightarrow> string \<Rightarrow> ('w \<Rightarrow> nat) \<Rightarrow> bool" where
  "counts_line n l c \<longleftrightarrow> \<not> login_line l \<and> (\<forall>w. c (snd (n_write n PI l w)) \<le> Suc (c w))
     \<and> (\<forall>j. control_keeps n {l} (\<lambda>w. c w \<le> j))"

text \<open>Every network has such a counter: \<open>counting n l\<close> is \<open>n\<close> with one in its world.\<close>

definition besides :: "('w \<Rightarrow> 'a \<times> 'w) \<Rightarrow> 'w \<times> nat \<Rightarrow> 'a \<times> 'w \<times> nat" where
  "besides g = (\<lambda>(w, c). let (x, w') = g w in (x, w', c))"

definition counting :: "'w net \<Rightarrow> string \<Rightarrow> ('w \<times> nat) net" where
  "counting n l = \<lparr>
     n_resolve = (\<lambda>h. besides (n_resolve n h)), n_ipv6 = n_ipv6 n,
     n_connect = (\<lambda>a p. besides (n_connect n a p)),
     n_connect_data = (\<lambda>a p. besides (n_connect_data n a p)),
     n_write = (\<lambda>ch d (w, c). let (x, w') = n_write n ch d w
        in (x, w', if ch = PI \<and> d = l then Suc c else c)),
     n_readline = (\<lambda>ch. besides (n_readline n ch)), n_read = besides (n_read n),
     n_close = (\<lambda>ch. besides (n_close n ch)), n_error = (\<lambda>ch w. n_error n ch (fst w)),
     n_strerror = (\<lambda>w. n_strerror n (fst w)), n_getsockname_pi = besides (n_getsockname_pi n),
     n_socket = besides (n_socket n), n_bind = besides (n_bind n),
     n_getsockname = besides (n_getsockname n), n_listen = besides (n_listen n),
     n_accept = besides (n_accept n), n_close_listener = apfst (n_close_listener n),
     n_fopen_read = (\<lambda>f. besides (n_fopen_read n f)), n_rewind = besides (n_rewind n),
     n_fopen_write = (\<lambda>f. besides (n_fopen_write n f)), n_fwrite = (\<lambda>d. besides (n_fwrite n d)),
     n_fclose = besides (n_fclose n), n_login = (\<lambda>h u p. besides (n_login n h u p)),
     n_connection = (\<lambda>st h. apfst (n_connection n st h)),
     n_progress = (\<lambda>a b. apfst (n_progress n a b)), n_mktime = n_mktime n, n_null_diff = n_null_diff n\<rparr>"

lemma besides_simps [simp]:
  "fst (besides g w) = fst (g (fst w))" "snd (besides g w) = (snd (g (fst w)), snd w)"
  by (simp_all add: besides_def case_prod_beta' Let_def)

lemma counting_counts: "\<not> login_line l \<Longrightarrow> counts_line (counting n l) l snd"
  by (simp add: counts_line_def control_keeps_def counting_def case_prod_beta' Let_def)

lemma counting_net_ok:
  assumes "net_ok n K"
  shows "net_ok (counting n l) (\<lambda>w. K (fst w))"
proof -
  obtain f where n: "lines_end n" "falls_silent n f" "control_keeps n {} K"
    using assms by (auto simp: net_ok_def)
  have read: "besides g w = (Inr d, w') \<Longrightarrow> \<exists>v. g (fst w) = (Inr d, v) \<and> fst w' = v"
    for g :: "'a \<Rightarrow> (int + string) \<times> 'a" and w d w'
    by (cases "g (fst w)") (auto simp: besides_def split: prod.splits)
  have "lines_end (counting n l)"
    using n(1) unfolding lines_end_def counting_def by simp (metis read)
  moreover have "falls_silent (counting n l) (\<lambda>w. f (fst w))"
    using n(2) unfolding falls_silent_def counting_def by (fastforce dest!: read)
  moreover have "control_keeps (counting n l) {} (\<lambda>w. K (fst w))"
    using n(3) by (simp add: control_keeps_def counting_def case_prod_beta' Let_def)
  ultimately show ?thesis by (auto simp: net_ok_def)
qed

context opener begin

lemma execute_tries_count:
  assumes net: "lines_end n" "\<exists>f. falls_silent n f" and c: "counts_line n (buf @ CRLF) c"
  shows "ftp_ok (\<lambda>w. c w \<le> j) s \<Longrightarrow> P (ft_mode s) \<Longrightarrow>
    ends (execute_tries (opn n) n buf k s) (\<lambda>ret t. c (ft_world t) \<le> j + k)"
proof (induction k arbitrary: j s)
  case 0
  then show ?case by (simp add: ftp_ok_def)
next
  case (Suc k)
  have n: "net_ok_but n {buf @ CRLF} (\<lambda>w. c w \<le> i)" for i
    using net c by (auto simp: net_ok_but_def counts_line_def)
  show ?case
    unfolding execute_tries.simps
  proof (rule ends_bind [OF opens [OF n Suc.prems]])
    fix ret t assume t: "served (\<lambda>w. c w \<le> j) s ret t \<and> P (ft_mode t)"
    have "ends (do { (ret, u) \<leftarrow> run_command n buf t;
        if ret = FTP_BROKEN then execute_tries (opn n) n buf k u else Some (ret, u) })
      (\<lambda>ret t. c (ft_world t) \<le> j + Suc k)" if "ret = FTP_OK"
    proof (rule ends_bind [OF run_command_from [OF n]])
      show "ft_pisock t" using t that by (auto simp: served_def ftp_ok_def)
      have "c (ft_world t) \<le> j" using t by (auto simp: served_def ftp_ok_def)
      then show "c (snd (n_write n PI (buf @ CRLF) (ft_world t))) \<le> Suc j"
        using c unfolding counts_line_def by (meson Suc_le_mono order_trans)
      fix ret' u assume u: "replied (\<lambda>w. c w \<le> Suc j) t ret' u"
      then have "ftp_ok (\<lambda>w. c w \<le> Suc j) u" "P (ft_mode u)" "c (ft_world u) \<le> Suc j"
        using t that by (auto simp: served_def replied_def low_def ftp_ok_def)
      then show "ends (if ret' = FTP_BROKEN then execute_tries (opn n) n buf k u else Some (ret', u))
          (\<lambda>ret t. c (ft_world t) \<le> j + Suc k)"
        using Suc.IH [of "Suc j" u] by auto
    qed
    then show "ends (if ret \<noteq> FTP_OK then Some (ret, t)
        else do { (ret, u) \<leftarrow> run_command n buf t;
          if ret = FTP_BROKEN then execute_tries (opn n) n buf k u else Some (ret, u) })
      (\<lambda>ret t. c (ft_world t) \<le> j + Suc k)"
      using t by (auto simp: served_def ftp_ok_def)
  qed
qed

end

text \<open>C12.  Every command of the FTP client comes back, if the server ends its lines and does not talk
  for ever: no call reaches a closed socket, the result is never \<open>FTP_BROKEN\<close>, and the session is
  ready for the next command, with the settings it had.  The command is sent at most three times,
  however often the connection is lost.  Opening the connection and restoring the transfer mode
  call each other to a depth of two only.\<close>
theorem ftp_commands_end:
  assumes "net_ok n K" "ftp_ok K s"
  shows "(\<exists>ret t. execute n cmd s = Some (ret, t) \<and> ret \<noteq> FTP_BROKEN \<and> ftp_ok K t \<and> same_user s t
      \<and> (\<forall>c. counts_line n (snprintf 1024 cmd @ CRLF) c \<longrightarrow> c (ft_world t) \<le> c (ft_world s) + 3))
    \<and> execute_with (ftp_open (ftp_depth + k) n) n cmd s = execute n cmd s"
proof
  obtain ret t where t: "execute n cmd s = Some (ret, t)" "ret \<noteq> FTP_BROKEN" "ftp_ok K t" "same_user s t"
    using execute_ends [OF assms, of cmd] by (auto simp: ends_def served_def)
  have "c (ft_world t) \<le> c (ft_world s) + 3" if "counts_line n (snprintf 1024 cmd @ CRLF) c" for c
  proof -
    have idle: "ftp_ok (\<lambda>w. c w \<le> c (ft_world s)) s" using assms(2) by (simp add: ftp_ok_def)
    have net: "lines_end n" "\<exists>f. falls_silent n f" using assms(1) by (auto simp: net_ok_def)
    show ?thesis
      using depth.execute_tries_count [OF net that idle, of 3] t(1)
      by (auto simp: execute_def execute_with_def ends_def)
  qed
  with t show "\<exists>ret t. execute n cmd s = Some (ret, t) \<and> ret \<noteq> FTP_BROKEN \<and> ftp_ok K t \<and> same_user s t
      \<and> (\<forall>c. counts_line n (snprintf 1024 cmd @ CRLF) c \<longrightarrow> c (ft_world t) \<le> c (ft_world s) + 3)"
    by blast
  show "execute_with (ftp_open (ftp_depth + k) n) n cmd s = execute n cmd s"
    unfolding execute_def execute_with_def
    by (rule depth.execute_tries_cong [OF assms(1)]) (use assms ftp_open_depth in auto)
qed

end
