(* ===== verification/Ftp_Put.thy ===== *)
theory Ftp_Put
  imports Ftp_Conn
begin

text \<open>
  Transfers: each of them comes back and uses only sockets that are open, and an upload that is
  reported as successful has sent the whole file over the data connection.
\<close>

section \<open>The data connection\<close>

text \<open>
  The server does not answer \<^verbatim>\<open>TYPE\<close> and \<^verbatim>\<open>PORT\<close> with a preliminary reply.  Without this, \<open>ftp_open\<close>
  can return the \<open>FTP_READY\<close> of a \<^verbatim>\<open>TYPE\<close> it sends after a reconnection, which its callers take for
  the answer to their own command: a transfer then begins without a data connection.
\<close>

definition final_replies :: "'w net \<Rightarrow> bool" where
  "final_replies n \<longleftrightarrow> (\<forall>cmd s t. take 5 cmd \<in> {''TYPE '', ''PORT ''}
     \<longrightarrow> run_command n cmd s \<noteq> Some (FTP_READY, t))"

lemma execute_tries_not_ready:
  assumes "final_replies n" "take 5 cmd \<in> {''TYPE '', ''PORT ''}" "\<And>s t. opn s \<noteq> Some (FTP_READY, t)"
  shows "execute_tries opn n cmd k s \<noteq> Some (FTP_READY, t)"
  using assms unfolding final_replies_def
  by (induction k arbitrary: s) (auto simp: bind_eq_Some_conv split: if_splits)

lemma set_mode_with_not_ready:
  assumes "final_replies n" "\<And>s t. opn s \<noteq> Some (FTP_READY, t)"
  shows "set_mode_with opn n m s \<noteq> Some (FTP_READY, t)"
  using execute_tries_not_ready [where opn = opn, OF assms(1) _ assms(2)]
  by (auto simp: set_mode_with_def execute_with_def snprintf_def bind_eq_Some_conv)

lemma open_connection_not_ready: "open_connection n s \<noteq> Some (FTP_READY, t)"
  by (auto simp: open_connection_def greeting_def hello_def log_in_def bind_eq_Some_conv Let_def
      split: prod.split if_splits)

lemma ftp_open_not_ready:
  assumes "final_replies n"
  shows "ftp_open k n s \<noteq> Some (FTP_READY, t)"
proof (induction k arbitrary: s t)
  case (Suc k)
  show ?case
    by (auto simp: bind_eq_Some_conv open_connection_not_ready set_mode_with_not_ready [OF assms Suc.IH])
qed simp

lemma port_not_ready:
  assumes "final_replies n"
  shows "execute n (port_command a p) s \<noteq> Some (FTP_READY, t)"
proof -
  have "take 5 (snprintf 1024 (port_command a p)) \<in> {''TYPE '', ''PORT ''}"
    by (cases a) (simp add: port_command_def snprintf_def)
  then show ?thesis
    unfolding execute_def execute_with_def
    by (rule execute_tries_not_ready [OF assms _ ftp_open_not_ready [OF assms]])
qed

text \<open>
  \<open>Q x w\<close>: the data connection opened last has carried \<open>x\<close>.  Opening one begins with nothing, each
  block written is added, and nothing else changes it.
\<close>

definition carries :: "'w net \<Rightarrow> (string \<Rightarrow> 'w \<Rightarrow> bool) \<Rightarrow> bool" where
  "carries n Q \<longleftrightarrow> (\<forall>x. net_ok n (Q x)) \<and> final_replies n
     \<and> (\<forall>a p w. fst (n_connect_data n a p w) = 0 \<longrightarrow> Q [] (snd (n_connect_data n a p w)))
     \<and> (\<forall>w. fst (n_accept n w) \<longrightarrow> Q [] (snd (n_accept n w)))
     \<and> (\<forall>x d w. Q x w \<longrightarrow> fst (n_write n DTP d w) = 0 \<longrightarrow> Q (x @ d) (snd (n_write n DTP d w)))
     \<and> (\<forall>x a b w. Q x w \<longrightarrow> Q x (n_progress n a b w))
     \<and> (\<forall>x w. Q x w \<longrightarrow> Q x (snd (n_fclose n w)))"

abbreviation anything :: "'w \<Rightarrow> bool" where "anything \<equiv> \<lambda>_. True"

abbreviation idle :: "'w ftp_session \<Rightarrow> bool" where "idle \<equiv> ftp_ok anything"

lemma net_ok_anything: "net_ok n K \<Longrightarrow> net_ok n anything"
  by (auto simp: net_ok_def control_keeps_def)

lemma carries_net: "carries n Q \<Longrightarrow> net_ok n (Q x)" "carries n Q \<Longrightarrow> net_ok n anything"
  using net_ok_anything [of n "Q x"] by (simp_all add: carries_def)

lemma ftp_ok_idle: "ftp_ok K s \<longleftrightarrow> idle s \<and> K (ft_world s)"
  by (auto simp: ftp_ok_def)

lemma idle_set [simp]:
  "idle (s\<lparr>ft_world := w\<rparr>) = idle s" "idle (s\<lparr>ft_error := e\<rparr>) = idle s"
  "idle (s\<lparr>ft_rfc2428 := r\<rparr>) = idle s" "idle (s\<lparr>ft_dtpsock := p\<rparr>) = idle s" "idle (s\<lparr>ft_cwd := d\<rparr>) = idle s" "idle (s\<lparr>ft_rbuf := d\<rparr>) = idle s"
  by (simp_all add: ftp_ok_def)

lemma execute_idle:
  assumes "net_ok n K" "idle s"
  shows "ends (execute n cmd s)
    (\<lambda>ret t. idle t \<and> (ret = FTP_READY \<or> ret = FTP_OK \<or> ret = FTP_PASSIVE \<longrightarrow> ft_connected t))"
  by (rule ends_mono [OF execute_ends [OF net_ok_anything [OF assms(1)] assms(2)]])
    (auto simp: served_def)

text \<open>What opening the data connection leaves when the command may begin.\<close>

definition data_ready :: "(string \<Rightarrow> 'w \<Rightarrow> bool) \<Rightarrow> int \<Rightarrow> 'w ftp_session \<Rightarrow> bool" where
  "data_ready Q ret t \<longleftrightarrow> idle t \<and> (ret = FTP_READY \<longrightarrow>
     ft_connected t \<and> ft_dtpsock t \<and> Q [] (ft_world t))"

lemma execute_data:
  assumes "carries n Q" "idle s" "ft_dtpsock s" "Q [] (ft_world s)"
  shows "ends (execute n cmd s) (data_ready Q)"
proof -
  have "ftp_ok (Q []) s" using assms by (simp add: ftp_ok_idle [of "Q []"])
  then show ?thesis
    by (rule ends_mono [OF execute_ends [OF carries_net(1) [OF assms(1)]]])
      (use assms(3) in \<open>auto simp: served_def same_user_def data_ready_def ftp_ok_idle [of "Q []"]\<close>)
qed

lemma error_idle [simp]:
  "idle (set_syserr n e s) = idle s" "idle (ftp_seterror e s) = idle s"
  "idle (set_sockerr n ch e i s) = idle s" "idle (tell g s) = idle s"
  "ft_connected (tell g s) = ft_connected s"
  by (simp_all add: set_syserr_def ftp_seterror_def set_sockerr_def tell_def)

lemma on_net_idle: "on_net g s = (x, t) \<Longrightarrow> idle t = idle s"
  by (auto simp: on_net_eq)

lemma listen_active_idle: "idle s \<Longrightarrow> idle (snd (listen_active n s))"
proof -
  have call: "idle (snd (syscall n g e b k s))"
    if "idle s" "\<And>s. idle s \<Longrightarrow> idle (snd (k s))" for g e b s and k :: "_ \<Rightarrow> 'c option \<times> _"
    using that by (auto simp: syscall_def split: prod.split dest!: on_net_idle)
  assume "idle s"
  then show ?thesis
    unfolding listen_active_def
    by (intro call) (auto intro!: call split: prod.split option.split dest!: on_net_idle)
qed

lemma accept_active_ready:
  assumes "carries n Q" "idle s" "ft_connected s" "accept_active n s = (ret, t)"
  shows "data_ready Q ret t"
  using assms
  by (auto simp: accept_active_def on_net_eq set_syserr_def data_ready_def carries_def split: if_splits)

lemma data_ready_listener:
  "carries n Q \<Longrightarrow> data_ready Q ret t \<Longrightarrow> data_ready Q ret (tell (n_close_listener n) t)"
  using net_okD(11) [OF carries_net(1)] by (auto simp: data_ready_def tell_def)

lemma not_ready: "idle t \<Longrightarrow> ret \<noteq> FTP_READY \<Longrightarrow> data_ready Q ret t"
  by (simp add: data_ready_def)

lemma active_command_ends:
  fixes n :: "'w net"
  assumes n: "carries n Q" and s: "idle s"
  shows "ends (active_command n cmd a p s) (data_ready Q)"
proof -
  have "execute n (port_command a p) s \<noteq> Some (FTP_READY, t)" for t
    using n unfolding carries_def by (blast dest: port_not_ready)
  then obtain ret t where t: "execute n (port_command a p) s = Some (ret, t)" "idle t" "ret \<noteq> FTP_READY"
    using execute_idle [OF carries_net(2) [OF n] s, of "port_command a p"] by (auto simp: ends_def)
  have "ends (do { (ret, s) \<leftarrow> execute n cmd t;
      if ret \<noteq> FTP_READY then Some (ret, tell (n_close_listener n) s)
      else let (ret, s) = accept_active n s in Some (ret, tell (n_close_listener n) s) }) (data_ready Q)"
    by (rule ends_bind [OF execute_idle [OF carries_net(2) [OF n] t(2)]])
      (auto simp: not_ready split: prod.split
        intro!: data_ready_listener [OF n] accept_active_ready [OF n])
  then show ?thesis using t by (simp add: active_command_def not_ready)
qed


lemma ftp_open_idle:
  assumes "carries n Q" "idle s"
  shows "ends (ftp_open ftp_depth n s)
    (\<lambda>ret t. idle t \<and> ret \<noteq> FTP_READY \<and> (ret = FTP_OK \<longrightarrow> ft_connected t))"
proof -
  have "net_ok n anything" "final_replies n" using carries_net(2) [OF assms(1)] assms(1) by (auto simp: carries_def)
  then show ?thesis
    using depth.opens [of n "{}" anything s] ftp_open_not_ready [of n ftp_depth s] assms(2)
    by (auto simp: served_def ends_def)
qed

lemma dtp_open_active_ends:
  assumes n: "carries n Q" and s: "idle s"
  shows "ends (dtp_open_active n cmd s) (data_ready Q)"
  unfolding dtp_open_active_def
  by (rule ends_bind [OF ftp_open_idle [OF n s]])
    (auto simp: not_ready split: prod.split option.split
      intro!: active_command_ends [OF n] dest: listen_active_idle [of _ n])

lemma try_epsv_ends: "net_ok n K \<Longrightarrow> idle s \<Longrightarrow> ends (try_epsv n s) (\<lambda>ret t. idle t)"
  unfolding try_epsv_def by (auto intro!: ends_bind [OF execute_idle])

lemma try_pasv_ends: "net_ok n K \<Longrightarrow> idle s \<Longrightarrow> ends (try_pasv n ret s) (\<lambda>ret t. idle t)"
  unfolding try_pasv_def by (auto intro!: ends_mono [OF execute_idle])

lemma dtp_open_passive_ready:
  "carries n Q \<Longrightarrow> idle s \<Longrightarrow> dtp_open_passive n s = (ok, t) \<Longrightarrow> idle t
    \<and> (ok \<longrightarrow> ft_dtpsock t \<and> Q [] (ft_world t))"
  by (auto simp: dtp_open_passive_def on_net_eq set_sockerr_def carries_def split: if_splits)

lemma ftp_data_open_ends:
  assumes n: "carries n Q" and s: "idle s"
  shows "ends (ftp_data_open n cmd s) (data_ready Q)"
proof -
  note ok = carries_net(2) [OF n]
  have "ends (do { (ret, s) \<leftarrow> try_epsv n s;
      (ret, s) \<leftarrow> try_pasv n ret s;
      if ret \<noteq> FTP_PASSIVE then Some (FTP_NOPASSIVE, s)
      else let (ok, s) = dtp_open_passive n s in
           if ok then execute n buf s else Some (FTP_ERROR, s) }) (data_ready Q)" for buf
    by (rule ends_bind [OF try_epsv_ends [OF ok s]], rule ends_bind [OF try_pasv_ends [OF ok]], assumption)
      (auto simp: not_ready split: prod.split
        intro!: execute_data [OF n] dest: dtp_open_passive_ready [OF n])
  then show ?thesis
    using dtp_open_active_ends [OF n s] by (simp add: ftp_data_open_def Let_def)
qed

lemma dtp_close_ends:
  assumes n: "net_ok n K" and s: "idle s" "ft_connected s" "K (ft_world s)" "ft_dtpsock s"
  shows "ends (dtp_close n discard s) (\<lambda>ret t. idle t \<and> K (ft_world t))"
proof -
  let ?s = "s\<lparr>ft_world := snd (n_close n DTP (ft_world s)), ft_dtpsock := False\<rparr>"
  have w: "K (ft_world ?s)" "ft_pisock ?s" using net_okD(5) [OF n s(3)] s by (simp_all add: ftp_ok_def)
  have "ends (do { ((ret, rcode), s) \<leftarrow> read_reply n ?s;
        if ret \<noteq> FTP_OK then Some (ret, s)
        else do { (ret, s) \<leftarrow> parse_reply n rcode s;
          if ret = FTP_OK \<or> ret = FTP_SENT then Some (FTP_SENT, s)
          else Some (FTP_ERROR, if discard then s else ftp_seterror (ft_rbuf s) s) } })
      (\<lambda>ret t. idle t \<and> K (ft_world t))"
  proof (rule ends_bind_pair [OF read_reply_ends [OF n w(2,1)]])
    fix ret c :: int and t assume "heard K ?s (fst (ret, c)) t"
    then have t: "heard K ?s ret t" by simp
    have p: "ends (parse_reply n c t) (replied K t)" if "ret = FTP_OK"
      using t that by (intro parse_reply_ends [OF n]) (auto simp: heard_def low_def)
    show "ends (if ret \<noteq> FTP_OK then Some (ret, t)
        else do { (ret, s) \<leftarrow> parse_reply n c t;
          if ret = FTP_OK \<or> ret = FTP_SENT then Some (FTP_SENT, s)
          else Some (FTP_ERROR, if discard then s else ftp_seterror (ft_rbuf s) s) })
        (\<lambda>ret t. idle t \<and> K (ft_world t))"
    proof (cases "ret = FTP_OK")
      case False
      then show ?thesis using t by (auto simp: heard_def low_def ftp_ok_def)
    next
      case True
      then show ?thesis
        using t by (auto intro!: ends_bind [OF p] simp: replied_def low_def ftp_ok_def heard_def ftp_seterror_def)
    qed
  qed
  then show ?thesis
    using s w by (auto simp: dtp_close_def on_net_eq set_syserr_def Let_def)
qed

section \<open>Uploads\<close>

lemma maybe_chdir_ends:
  assumes n: "net_ok n K" and s: "idle s"
  shows "ends (maybe_chdir n fn s) (\<lambda>r. idle)"
proof (cases "\<not> ft_use_cwd s \<or> fn = [] \<or> hd fn \<noteq> CHR ''/'' \<or> length fn > PATH_MAX")
  case False
  then have "CHR ''/'' \<in> set fn" by (cases fn) auto
  then obtain slash rest where sp: "strrchr_split fn CHR ''/'' = Some (slash, rest)"
    by (auto simp: strrchr_split_def)
  have "ends (do { (ret, t) \<leftarrow> execute n (''CWD '' @ butlast slash) s;
      Some ((ret, rest), if ret = FTP_OK then t\<lparr>ft_cwd := butlast slash\<rparr> else t) }) (\<lambda>r. idle)"
    by (rule ends_bind [OF execute_idle [OF n s]]) auto
  then show ?thesis using False s sp by (auto simp: maybe_chdir_def Let_def)
qed (use s in \<open>simp add: maybe_chdir_def\<close>)

text \<open>What goes over the data connection for a file.\<close>

definition file_bytes :: "bool \<Rightarrow> string \<Rightarrow> string" where
  "file_bytes ascii contents = (if ascii then concat (ascii_buffers contents) else contents)"

lemma binary_buffers_concat: "length s \<le> k \<Longrightarrow> concat (binary_buffers k s) = s"
proof (induction k arbitrary: s)
  case (Suc k)
  then have "length (drop BUFSIZ s) \<le> k" by (cases s) (auto simp: BUFSIZ_def)
  then show ?case using Suc.IH by simp
qed simp

lemma carriesD:
  assumes "carries n Q"
  shows "Q x w \<Longrightarrow> fst (n_write n DTP d w) = 0 \<Longrightarrow> Q (x @ d) (snd (n_write n DTP d w))"
    "Q x w \<Longrightarrow> Q x (n_progress n a b w)" "Q x w \<Longrightarrow> Q x (snd (n_fclose n w))"
  using assms by (simp_all add: carries_def)

text \<open>A data connection in use: the control connection is there, and \<open>x\<close> has gone out.\<close>

definition in_transfer :: "(string \<Rightarrow> 'w \<Rightarrow> bool) \<Rightarrow> string \<Rightarrow> 'w ftp_session \<Rightarrow> bool" where
  "in_transfer Q x s \<longleftrightarrow> idle s \<and> ft_connected s \<and> ft_dtpsock s \<and> Q x (ft_world s)"

definition sent_all :: "(string \<Rightarrow> 'w \<Rightarrow> bool) \<Rightarrow> string \<Rightarrow> bool \<Rightarrow> 'w ftp_session \<Rightarrow> bool" where
  "sent_all Q x ok t \<longleftrightarrow> idle t \<and> ft_connected t \<and> ft_dtpsock t \<and> (ok \<longrightarrow> Q x (ft_world t))"

lemma send_ascii_sent:
  assumes n: "carries n Q"
  shows "in_transfer Q x s \<Longrightarrow>
    ends (send_ascii n fsize bs tot lasttotal s) (sent_all Q (x @ concat (map ascii_buffer bs)))"
proof (induction bs arbitrary: x tot lasttotal s)
  case (Cons b bs)
  let ?w = "n_write n DTP (ascii_buffer b) (ft_world s)"
  let ?s = "s\<lparr>ft_world := snd ?w\<rparr>"
  show ?case
  proof (cases "fst ?w = 0")
    case True
    then have "Q (x @ ascii_buffer b) (snd ?w)" using Cons.prems carriesD(1) [OF n] by (simp add: in_transfer_def)
    then have "in_transfer Q (x @ ascii_buffer b) ?s"
      "in_transfer Q (x @ ascii_buffer b) (tell (n_progress n i j) ?s)" for i j
      using Cons.prems carriesD(2) [OF n] by (simp_all add: in_transfer_def tell_def)
    moreover have "ft_dtpsock s" using Cons.prems by (simp add: in_transfer_def)
    ultimately show ?thesis using Cons.IH [of "x @ ascii_buffer b"] True by (simp add: on_net_eq Let_def)
  qed (use Cons.prems in \<open>auto simp: on_net_eq sent_all_def in_transfer_def set_sockerr_def\<close>)
qed (simp add: sent_all_def in_transfer_def)

lemma send_binary_sent:
  assumes n: "carries n Q"
  shows "in_transfer Q x s \<Longrightarrow> ends (send_binary n fsize bs tot s) (sent_all Q (x @ concat bs))"
proof (induction bs arbitrary: x tot s)
  case (Cons b bs)
  let ?w = "n_write n DTP b (ft_world s)"
  let ?s = "s\<lparr>ft_world := snd ?w\<rparr>"
  show ?case
  proof (cases "fst ?w = 0")
    case True
    then have "Q (x @ b) (snd ?w)" using Cons.prems carriesD(1) [OF n] by (simp add: in_transfer_def)
    then have "in_transfer Q (x @ b) (tell (n_progress n i j) ?s)" for i j
      using Cons.prems carriesD(2) [OF n] by (simp add: in_transfer_def tell_def)
    moreover have "ft_dtpsock s" using Cons.prems by (simp add: in_transfer_def)
    ultimately show ?thesis using Cons.IH [of "x @ b"] True by (simp add: on_net_eq Let_def)
  qed (use Cons.prems in \<open>auto simp: on_net_eq sent_all_def in_transfer_def set_sockerr_def\<close>)
qed (simp add: sent_all_def in_transfer_def)

lemma send_file_sent:
  assumes n: "carries n Q" and s: "in_transfer Q [] s"
  shows "ends (send_file n ascii f fsize s) (\<lambda>ok t. sent_all Q (file_bytes ascii (lo_text f)) ok t
    \<and> (ok \<longrightarrow> \<not> lo_failed f))"
proof -
  have "ends (if ascii then send_ascii n fsize (fgets_lines (BUFSIZ - 1) (lo_text f)) 0 0 s
      else send_binary n fsize (binary_buffers (length (lo_text f)) (lo_text f)) 0 s)
    (sent_all Q (file_bytes ascii (lo_text f)))"
    using send_ascii_sent [OF n s, of fsize "fgets_lines (BUFSIZ - 1) (lo_text f)" 0 0]
      send_binary_sent [OF n s, of fsize "binary_buffers (length (lo_text f)) (lo_text f)" 0]
    by (simp add: file_bytes_def ascii_buffers_def binary_buffers_concat)
  then show ?thesis
    unfolding send_file_def by (rule ends_bind) (auto simp: sent_all_def set_syserr_def ftp_ok_def)
qed

text \<open>What an upload leaves.\<close>

definition put_done :: "(string \<Rightarrow> 'w \<Rightarrow> bool) \<Rightarrow> bool \<Rightarrow> local_file \<Rightarrow> int \<Rightarrow> 'w ftp_session \<Rightarrow> bool" where
  "put_done Q ascii f ret t \<longleftrightarrow> idle t
     \<and> (ret = FTP_OK \<longrightarrow> \<not> lo_failed f \<and> Q (file_bytes ascii (lo_text f)) (ft_world t))"

lemma put_failed: "idle t \<Longrightarrow> ret \<noteq> FTP_OK \<Longrightarrow> put_done Q ascii f ret t"
  by (simp add: put_done_def)

lemma put_ok:
  "idle t \<Longrightarrow> \<not> lo_failed f \<Longrightarrow> Q (file_bytes ascii (lo_text f)) (ft_world t) \<Longrightarrow> put_done Q ascii f FTP_OK t"
  by (simp add: put_done_def)

lemma put_tries_ends:
  assumes n: "carries n Q"
  shows "idle s \<Longrightarrow> ends (put_tries n ascii f fsize k again remotefile s) (put_done Q ascii f)"
proof (induction k arbitrary: again remotefile s)
  case 0
  then show ?case by (simp add: put_done_def on_net_eq)
next
  case (Suc k)
  note ok = carries_net(2) [OF n]
  have close: "ends (do { (dret, s) \<leftarrow> dtp_close n False t;
           if dret = FTP_SENT \<and> sent then Some (FTP_OK, snd (on_net (n_fclose n) s))
           else if dret = FTP_BROKEN then put_tries n ascii f fsize k True name s
           else Some (FTP_ERROR, snd (on_net (n_fclose n) s)) }) (put_done Q ascii f)"
    if t: "sent_all Q (file_bytes ascii (lo_text f)) sent t" "sent \<longrightarrow> \<not> lo_failed f" for t sent name
  proof -
    let ?K = "\<lambda>w. sent \<longrightarrow> Q (file_bytes ascii (lo_text f)) w"
    have K: "net_ok n ?K"
      using carries_net [OF n] by (cases sent) simp_all
    show ?thesis
      by (rule ends_bind [OF dtp_close_ends [OF K]])
        (use t Suc.IH carriesD(3) [OF n] in \<open>auto simp: sent_all_def on_net_eq put_failed intro!: put_ok\<close>)
  qed
  have send: "ends (do { (sent, s) \<leftarrow> send_file n ascii f fsize u;
           (dret, s) \<leftarrow> dtp_close n False s;
           if dret = FTP_SENT \<and> sent then Some (FTP_OK, snd (on_net (n_fclose n) s))
           else if dret = FTP_BROKEN then put_tries n ascii f fsize k True name s
           else Some (FTP_ERROR, snd (on_net (n_fclose n) s)) }) (put_done Q ascii f)"
    if u: "in_transfer Q [] u" for u name
    by (rule ends_bind [OF send_file_sent [OF n u]]) (use close in blast)
  have rest: "ends (do { ((ret, remotefile), s) \<leftarrow> maybe_chdir n remotefile u;
        if ret \<noteq> FTP_OK then Some (ret, snd (on_net (n_fclose n) s))
        else do { (ret, s) \<leftarrow> ftp_data_open n (''STOR '' @ remotefile) s;
          if ret \<noteq> FTP_READY then Some (FTP_ERROR, snd (on_net (n_fclose n) s))
          else do { (sent, s) \<leftarrow> send_file n ascii f fsize s;
               (dret, s) \<leftarrow> dtp_close n False s;
               if dret = FTP_SENT \<and> sent then Some (FTP_OK, snd (on_net (n_fclose n) s))
               else if dret = FTP_BROKEN then put_tries n ascii f fsize k True remotefile s
               else Some (FTP_ERROR, snd (on_net (n_fclose n) s)) } } }) (put_done Q ascii f)"
    if "idle u" for u
    by (rule ends_bind_pair [OF maybe_chdir_ends [OF ok that]])
      (auto simp: on_net_eq put_failed data_ready_def Let_def
        intro!: ends_bind [OF ftp_data_open_ends [OF n]] send [unfolded in_transfer_def])
  show ?case
    using Suc.prems rest by (auto simp: on_net_eq put_failed)
qed

lemma set_mode_idle:
  assumes "net_ok n K" "idle s"
  shows "ends (set_mode n m s) (\<lambda>ret. idle)"
  by (rule ends_mono [OF set_mode_ends [OF net_ok_anything [OF assms(1)] assms(2)]]) simp

text \<open>What \<open>ftp_put\<close> promises: the file that was opened has gone out.\<close>

definition put_promise ::
    "'w net \<Rightarrow> (string \<Rightarrow> 'w \<Rightarrow> bool) \<Rightarrow> string \<Rightarrow> bool \<Rightarrow> int \<Rightarrow> 'w ftp_session \<Rightarrow> bool" where
  "put_promise n Q localfile ascii ret t \<longleftrightarrow> idle t
     \<and> (ret = FTP_OK \<longrightarrow> (\<exists>f w. fst (n_fopen_read n localfile w) = Some f \<and> \<not> lo_failed f
          \<and> Q (file_bytes ascii (lo_text f)) (ft_world t)))"

lemma ftp_put_ends:
  assumes n: "carries n Q" and s: "idle s"
  shows "ends (ftp_put n localfile remotefile ascii s) (put_promise n Q localfile ascii)"
  unfolding ftp_put_def
proof (rule ends_bind [OF set_mode_idle [OF carries_net(2) [OF n] s]])
  fix ret and t :: "'a ftp_session"
  assume t: "idle t"
  obtain r w where r: "n_fopen_read n localfile (ft_world t) = (r, w)"
    by (cases "n_fopen_read n localfile (ft_world t)")
  have "ends (put_tries n ascii f fsize 3 False remotefile (t\<lparr>ft_world := w\<rparr>)) (put_promise n Q localfile ascii)"
    if "r = Some f" for f fsize
    using r that t
    by (intro ends_mono [OF put_tries_ends [OF n]])
      (auto simp: put_done_def put_promise_def intro!: exI [of _ "ft_world t"])
  then show "ends (if ret \<noteq> FTP_OK then Some (FTP_ERROR, t)
      else case on_net (n_fopen_read n localfile) t of
        (None, s) \<Rightarrow> Some (FTP_ERROR, set_syserr n ''Could not open file'' s)
      | (Some f, s) \<Rightarrow>
          (case lo_size f of
             None \<Rightarrow> Some (FTP_ERROR,
               snd (on_net (n_fclose n) (set_syserr n ''Could not determine length of file'' s)))
           | Some fsize \<Rightarrow> put_tries n ascii f fsize 3 False remotefile s))
    (put_promise n Q localfile ascii)"
    using t r by (auto simp: on_net_eq put_promise_def split: option.split)
qed




section \<open>The other operations\<close>

lemma get_modtime_ends: "net_ok n K \<Longrightarrow> idle s \<Longrightarrow> ends (get_modtime n root f s) (\<lambda>ret. idle)"
  unfolding get_modtime_def by (auto intro!: ends_bind [OF execute_idle])

lemma ftp_put_cond_ends:
  assumes n: "carries n Q" and s: "idle s"
  shows "ends (ftp_put_cond n localfile remotefile ascii mtime s) (\<lambda>ret. idle)"
  unfolding ftp_put_cond_def
  by (rule ends_bind [OF get_modtime_ends [OF carries_net(2) [OF n] s]])
    (auto intro!: ends_mono [OF ftp_put_ends [OF n]] simp: put_promise_def)

lemma ftp_get_modtime_ends:
  "net_ok n K \<Longrightarrow> idle s \<Longrightarrow> ends (ftp_get_modtime n f s) (\<lambda>ret. idle)"
  unfolding ftp_get_modtime_def by (auto intro!: ends_bind [OF get_modtime_ends])

lemma ftp_fetch_modtimes_ends:
  "net_ok n K \<Longrightarrow> idle s \<Longrightarrow> ends (ftp_fetch_modtimes n root files s) (\<lambda>ret. idle)"
proof (induction files arbitrary: s)
  case (Cons pf files)
  have skip: "ends (do { ((ret, files), s) \<leftarrow> ftp_fetch_modtimes n root files u; Some ((ret, p # files), s) })
      (\<lambda>ret. idle)" if "idle u" for u p
    using Cons.IH [OF Cons.prems(1) that] by (rule ends_bind_pair) simp
  have "ends (do { (ret, s) \<leftarrow> get_modtime n root (pf_filename pf) s;
      if ret \<noteq> FTP_OK then Some ((FTP_ERROR, pf # files), s)
      else do { let pf = pf\<lparr>pf_modtime := ft_get_modtime s\<rparr>;
                ((ret, files), s) \<leftarrow> ftp_fetch_modtimes n root files s;
                Some ((ret, pf # files), s) } }) (\<lambda>ret. idle)"
    by (rule ends_bind [OF get_modtime_ends [OF Cons.prems]]) (use skip in \<open>auto simp: Let_def\<close>)
  then show ?case using skip [OF Cons.prems(2)] by simp
qed simp

lemma receive_loop_ends:
  fixes n :: "'w net"
  assumes n: "net_ok n K"
  shows "idle s \<Longrightarrow> ft_dtpsock s \<Longrightarrow> ends (receive_loop n got s) (\<lambda>ok t. idle t \<and> ft_connected t = ft_connected s \<and> ft_dtpsock t)"
proof -
  obtain f where f: "falls_silent n f" using n by (auto simp: net_ok_def)
  show "idle s \<Longrightarrow> ft_dtpsock s \<Longrightarrow> ends (receive_loop n got s) (\<lambda>ok t. idle t \<and> ft_connected t = ft_connected s \<and> ft_dtpsock t)"
  proof (induction "f (ft_world s)" arbitrary: s got rule: less_induct)
    case less
    obtain r w where r: "n_read n (ft_world s) = (r, w)" by (cases "n_read n (ft_world s)")
    show ?case
    proof (cases r)
      case (Inl e)
      then show ?thesis using less.prems r
        by (subst receive_loop.simps) (simp add: on_net_eq set_sockerr_def)
    next
      case (Inr data)
      let ?got = "got + int (length data)"
      let ?p = "n_progress n ?got (- 1) w"
      let ?s = "s\<lparr>ft_world := snd (n_fwrite n data ?p)\<rparr>"
      have "f (ft_world ?s) < f (ft_world s)" if "data \<noteq> []"
      proof -
        have "f w < f (ft_world s)" using f r Inr that by (auto simp: falls_silent_def)
        moreover have "f ?p \<le> f w" "f (ft_world ?s) \<le> f ?p" using f by (auto simp: falls_silent_def)
        ultimately show ?thesis by linarith
      qed
      then have "ends (receive_loop n ?got ?s) (\<lambda>ok t. idle t \<and> ft_connected t = ft_connected s \<and> ft_dtpsock t)"
        if "data \<noteq> []" using less.hyps [of ?s ?got] less.prems that by simp
      then show ?thesis using less.prems r Inr
        by (subst receive_loop.simps) (simp add: on_net_eq set_syserr_def tell_def Let_def)
    qed
  qed
qed

text \<open>A transfer in which nothing is written: the data connection is closed afterwards.\<close>

lemma dtp_close_idle:
  assumes "net_ok n K" "idle s" "ft_connected s" "ft_dtpsock s"
  shows "ends (dtp_close n discard s) (\<lambda>ret. idle)"
  by (rule ends_mono [OF dtp_close_ends [OF net_ok_anything [OF assms(1)] assms(2,3) _ assms(4)]]) simp_all

lemma data_open_idle:
  assumes "carries n Q" "idle s"
  shows "ends (ftp_data_open n cmd s) (\<lambda>ret t. idle t
    \<and> (ret = FTP_READY \<longrightarrow> ft_connected t \<and> ft_dtpsock t))"
  by (rule ends_mono [OF ftp_data_open_ends [OF assms]]) (simp add: data_ready_def)

lemma ftp_get_ends:
  assumes n: "carries n Q" and s: "idle s"
  shows "ends (ftp_get n localfile remotefile ascii s) (\<lambda>ret. idle)"
proof -
  note ok = carries_net(2) [OF n]
  have recv: "ends (do { (received, s) \<leftarrow> receive_loop n 0 u;
      let (closed, s) = on_net (n_fclose n) s;
      let errno_text = n_strerror n (ft_world s);
      (dret, s) \<leftarrow> dtp_close n False s;
      if dret = FTP_SENT \<and> received \<and> closed then Some (FTP_OK, s)
      else if \<not> closed
      then Some (FTP_ERROR, s\<lparr>ft_error := snprintf BUFSIZ (''Error writing to file'' @ '': '' @ errno_text)\<rparr>)
      else Some (FTP_ERROR, s) }) (\<lambda>ret. idle)" if "idle u" "ft_connected u" "ft_dtpsock u" for u
    by (rule ends_bind [OF receive_loop_ends [OF ok that(1,3)]])
      (auto simp: on_net_eq Let_def that intro!: ends_bind [OF dtp_close_idle [OF ok]])
  have "ends (do { (ret, s) \<leftarrow> set_mode n m t;
      if ret \<noteq> FTP_OK then Some (FTP_ERROR, s)
      else do { (ret, s) \<leftarrow> ftp_data_open n cmd s;
        if ret \<noteq> FTP_READY then Some (FTP_ERROR, s)
        else do { (received, s) \<leftarrow> receive_loop n 0 s;
          let (closed, s) = on_net (n_fclose n) s;
          let errno_text = n_strerror n (ft_world s);
          (dret, s) \<leftarrow> dtp_close n False s;
          if dret = FTP_SENT \<and> received \<and> closed then Some (FTP_OK, s)
          else if \<not> closed
          then Some (FTP_ERROR, s\<lparr>ft_error := snprintf BUFSIZ (''Error writing to file'' @ '': '' @ errno_text)\<rparr>)
          else Some (FTP_ERROR, s) } } }) (\<lambda>ret. idle)" if "idle t" for t m cmd
    by (rule ends_bind [OF set_mode_idle [OF ok that]])
      (auto simp: Let_def intro!: ends_bind [OF data_open_idle [OF n]] recv [unfolded Let_def])
  then show ?thesis using s by (simp add: ftp_get_def on_net_eq)
qed

lemma read_blocks_ends:
  fixes n :: "'w net"
  assumes n: "net_ok n K"
  shows "idle s \<Longrightarrow> ft_dtpsock s \<Longrightarrow> ends (read_blocks n bs s) (\<lambda>r t. idle t \<and> ft_connected t = ft_connected s \<and> ft_dtpsock t)"
proof -
  obtain f where f: "falls_silent n f" using n by (auto simp: net_ok_def)
  show "idle s \<Longrightarrow> ft_dtpsock s \<Longrightarrow> ends (read_blocks n bs s) (\<lambda>r t. idle t \<and> ft_connected t = ft_connected s \<and> ft_dtpsock t)"
  proof (induction "f (ft_world s)" arbitrary: s bs rule: less_induct)
    case less
    obtain r w where r: "n_read n (ft_world s) = (r, w)" by (cases "n_read n (ft_world s)")
    show ?case
    proof (cases r)
      case (Inr data)
      have "f w < f (ft_world s)" if "data \<noteq> []" using f r Inr that by (auto simp: falls_silent_def)
      then have "ends (read_blocks n (bs @ [data]) (s\<lparr>ft_world := w\<rparr>))
          (\<lambda>ok t. idle t \<and> ft_connected t = ft_connected s \<and> ft_dtpsock t)" if "data \<noteq> []"
        using less.hyps [of "s\<lparr>ft_world := w\<rparr>"] less.prems that by simp
      then show ?thesis using less.prems r Inr by (subst read_blocks.simps) (simp add: on_net_eq)
    qed (use less.prems r in \<open>subst read_blocks.simps, simp add: on_net_eq\<close>)
  qed
qed

lemma ftp_read_file_ends:
  assumes n: "carries n Q" and s: "idle s"
  shows "ends (ftp_read_file n remotefile s) (\<lambda>ret. idle)"
proof -
  note ok = carries_net(2) [OF n]
  have recv: "ends (do { ((ret, blocks), s) \<leftarrow> read_blocks n [] u;
      (dret, s) \<leftarrow> dtp_close n False s;
      Some ((if dret = FTP_SENT \<and> ret = NE_SOCK_CLOSED then FTP_OK else FTP_ERROR, blocks), s) })
    (\<lambda>ret. idle)" if "idle u" "ft_connected u" "ft_dtpsock u" for u
    by (rule ends_bind_pair [OF read_blocks_ends [OF ok that(1,3)]])
      (auto simp: that intro!: ends_bind [OF dtp_close_idle [OF ok]])
  show ?thesis
    unfolding ftp_read_file_def
    by (rule ends_bind [OF set_mode_idle [OF ok s]]) (auto intro!: ends_bind [OF data_open_idle [OF n]] recv)
qed

lemma fetch_lines_ends:
  fixes n :: "'w net"
  assumes n: "net_ok n K"
  shows "idle s \<Longrightarrow> ft_dtpsock s \<Longrightarrow> ends (fetch_lines n ctx f lt s) (\<lambda>r t. idle t \<and> ft_connected t = ft_connected s \<and> ft_dtpsock t)"
proof -
  obtain m where m: "falls_silent n m" using n by (auto simp: net_ok_def)
  show "idle s \<Longrightarrow> ft_dtpsock s \<Longrightarrow> ends (fetch_lines n ctx f lt s) (\<lambda>r t. idle t \<and> ft_connected t = ft_connected s \<and> ft_dtpsock t)"
  proof (induction "m (ft_world s)" arbitrary: s ctx f lt rule: less_induct)
    case less
    obtain r w where r: "n_readline n DTP (ft_world s) = (r, w)" by (cases "n_readline n DTP (ft_world s)")
    show ?case
    proof (cases r)
      case (Inl e)
      then show ?thesis using less.prems r
        by (subst fetch_lines.simps) (simp add: on_net_eq set_sockerr_def)
    next
      case (Inr l)
      obtain res ctx' f' where p: "ls_parse ctx (c_string l) f = Some (res, ctx', f')"
        using ls_parse_runs [of ctx "c_string l" f] by auto
      have "m w < m (ft_world s)" using m r Inr by (auto simp: falls_silent_def)
      then have "ends (fetch_lines n ctx' f' lt' (s\<lparr>ft_world := w, ft_rbuf := l\<rparr>))
          (\<lambda>r t. idle t \<and> ft_connected t = ft_connected s \<and> ft_dtpsock t)" for lt'
        using less.hyps [of "s\<lparr>ft_world := w, ft_rbuf := l\<rparr>"] less.prems by simp
      then show ?thesis using less.prems r Inr p
        by (subst fetch_lines.simps) (simp add: on_net_eq ftp_seterror_def Let_def)
    qed
  qed
qed

lemma ftp_fetch_ends:
  assumes n: "carries n Q" and s: "idle s" and d: "startdir \<noteq> []"
  shows "ends (ftp_fetch n junk startdir s) (\<lambda>ret. idle)"
proof -
  note ok = carries_net(2) [OF n]
  obtain ctx where ctx: "ls_init startdir = Some ctx" using d by (simp add: ls_init_def)
  have recv: "ends (do { ((ret, lt), s) \<leftarrow> fetch_lines n ctx junk ([], None) u;
      let files = map snd (fst lt);
      (dret, s) \<leftarrow> dtp_close n (ret \<noteq> FTP_OK) s;
      Some ((if ret \<noteq> FTP_OK then ret else if dret = FTP_SENT then FTP_OK else FTP_ERROR, files), s) })
    (\<lambda>ret. idle)" if "idle u" "ft_connected u" "ft_dtpsock u" for u
    by (rule ends_bind_pair [OF fetch_lines_ends [OF ok that(1,3)]])
      (auto simp: that Let_def intro!: ends_bind [OF dtp_close_idle [OF ok]])
  show ?thesis
    unfolding ftp_fetch_def
    by (rule ends_bind [OF data_open_idle [OF n s]]) (auto simp: ctx intro!: recv [unfolded Let_def])
qed

lemma execute_just_idle: "net_ok n K \<Longrightarrow> idle s \<Longrightarrow> ends (execute n cmd s) (\<lambda>ret. idle)"
  by (rule ends_mono [OF execute_idle]) simp_all

lemma ftp_move_ends: "net_ok n K \<Longrightarrow> idle s \<Longrightarrow> ends (ftp_move n from to s) (\<lambda>ret. idle)"
  unfolding ftp_move_def by (auto intro!: ends_bind [OF execute_just_idle] execute_just_idle)

lemma simple_commands_end:
  assumes "net_ok n K" "idle s"
  shows "ends (ftp_mkdir n d s) (\<lambda>ret. idle)" "ends (ftp_delete n d s) (\<lambda>ret. idle)"
    "ends (ftp_rmdir n d s) (\<lambda>ret. idle)" "ends (ftp_chmod n d m s) (\<lambda>ret. idle)"
  unfolding ftp_mkdir_def ftp_delete_def ftp_rmdir_def ftp_chmod_def
  by (rule execute_just_idle [OF assms])+

lemma ftp_finish_ends:
  assumes "net_ok n K" "idle s"
  shows "ends (ftp_finish n s) (\<lambda>ret. idle)"
proof (cases "ft_connected s")
  case True
  then have "ft_pisock s" using assms(2) by (simp add: ftp_ok_def)
  then show ?thesis
    using True unfolding ftp_finish_def
    by (auto intro!: ends_bind [OF run_command_ends [OF net_ok_anything [OF assms(1)]]] simp: ftp_ok_def Let_def)
qed (use assms in \<open>simp add: ftp_finish_def\<close>)

end
