(* ===== verification/Ftp_Driver.thy ===== *)
theory Ftp_Driver
  imports Ftp_Put Update_World Rcfile_Verify
begin

text \<open>
  The driver of \<^verbatim>\<open>src/ftpdriver.c\<close> as a value of \<^typ>\<open>'w proto_driver\<close>, with the FTP client under it,
  and site updates over FTP.  The world of the driver is the one of the network, the session with
  it once there is one, or the state of a program that crashed or hangs.
\<close>

section \<open>The driver\<close>

datatype 'w ftp_world = No_session 'w | Session "'w ftp_session" | Crashed

definition in_session ::
    "('w ftp_session \<Rightarrow> ('a \<times> 'w ftp_session) option) \<Rightarrow> 'a \<Rightarrow> 'w ftp_world \<Rightarrow> 'a \<times> 'w ftp_world" where
  "in_session g none st =
     (case st of
        Session s \<Rightarrow> (case g s of Some (x, t) \<Rightarrow> (x, Session t) | None \<Rightarrow> (none, Crashed))
      | _ \<Rightarrow> (none, Crashed))"

text \<open>An operation whose code is mapped by \<open>f2s\<close>.\<close>

definition ftp_op :: "('w ftp_session \<Rightarrow> 'w outcome) \<Rightarrow> 'w ftp_world \<Rightarrow> int \<times> 'w ftp_world" where
  "ftp_op g = in_session (\<lambda>s. do { (ret, t) \<leftarrow> g s; Some (f2s ret, t) }) SITE_ERRORS"

definition ftp_start :: "'w net \<Rightarrow> site \<Rightarrow> 'w \<Rightarrow> 'w outcome" where
  "ftp_start n site w =
     do { (ret, s) \<leftarrow> ftp_set_server n (s_server site) (ftp_init w);
          (ret, s) \<leftarrow>
            (if ret = FTP_OK
             then ftp_open ftp_depth n (s\<lparr>ft_use_passive := s_ftp_pasv_mode site,
                    ft_use_cwd := s_ftp_use_cwd site\<rparr>)
             else Some (ret, s));
          Some (if f2s ret = SITE_ERRORS then SITE_FAILED else f2s ret, s) }"

definition ftp_driver_init :: "'w net \<Rightarrow> site \<Rightarrow> 'w ftp_world \<Rightarrow> int \<times> 'w ftp_world" where
  "ftp_driver_init n site st =
     (let start = (\<lambda>w. case ftp_start n site w of
            Some (ret, s) \<Rightarrow> (ret, Session s) | None \<Rightarrow> (SITE_ERRORS, Crashed))
      in case st of No_session w \<Rightarrow> start w | Session s \<Rightarrow> start (ft_world s)
         | Crashed \<Rightarrow> (SITE_ERRORS, Crashed))"

definition ftp_driver_finish :: "'w net \<Rightarrow> 'w ftp_world \<Rightarrow> 'w ftp_world" where
  "ftp_driver_finish n st = snd (in_session (ftp_finish n) 0 st)"

definition ftp_fetch_list ::
    "'w net \<Rightarrow> ls_entry \<Rightarrow> string \<Rightarrow> bool \<Rightarrow> 'w ftp_session
      \<Rightarrow> ((int \<times> proto_file list) \<times> 'w ftp_session) option" where
  "ftp_fetch_list n junk dirname need_modtimes s =
     do { ((ret, files), s) \<leftarrow> ftp_fetch n junk dirname s;
          ((ret, files), s) \<leftarrow> (if ret = FTP_OK \<and> need_modtimes
            then ftp_fetch_modtimes n dirname files s else Some ((ret, files), s));
          Some ((f2s ret, files), s) }"

definition ftp_driver_ops :: "'w net \<Rightarrow> ls_entry \<Rightarrow> 'w ftp_world proto_driver" where
  "ftp_driver_ops n junk =
     \<lparr>d_init = ftp_driver_init n, d_finish = ftp_driver_finish n,
      d_file_move = (\<lambda>from to. ftp_op (ftp_move n from to)),
      d_file_upload = (\<lambda>l r a. ftp_op (ftp_put n l r a)),
      d_file_upload_cond = (\<lambda>l r a t. ftp_op (ftp_put_cond n l r a t)),
      d_file_get_modtime = (\<lambda>r. in_session (\<lambda>s. do { ((ret, t), s) \<leftarrow> ftp_get_modtime n r s;
         Some ((f2s ret, t), s) }) (SITE_ERRORS, - 1)),
      d_file_download = (\<lambda>l r a. ftp_op (ftp_get n l r a)),
      d_file_read = (\<lambda>r. in_session (\<lambda>s. do { ((ret, blocks), s) \<leftarrow> ftp_read_file n r s;
         Some ((f2s ret, blocks), s) }) (SITE_ERRORS, [])),
      d_file_delete = (\<lambda>f. ftp_op (ftp_delete n f)),
      d_file_chmod = (\<lambda>f m. ftp_op (ftp_chmod n f m)),
      d_dir_create = (\<lambda>d. ftp_op (ftp_mkdir n d)),
      d_dir_remove = (\<lambda>d. ftp_op (ftp_rmdir n d)),
      d_link_create = None, d_link_change = None, d_link_delete = None,
      d_fetch_list = Some (\<lambda>d need. in_session (ftp_fetch_list n junk d need) (SITE_ERRORS, [])),
      d_error = (\<lambda>st. case st of Session s \<Rightarrow> ft_error s | _ \<Rightarrow> ''''),
      d_get_server_port = (\<lambda>_. 21), d_get_proxy_port = (\<lambda>_. 21),
      d_protocol_name = ''FTP''\<rparr>"

section \<open>Updates over FTP\<close>

text \<open>The program runs, with a session between two commands.\<close>

definition running :: "'w ftp_world \<Rightarrow> bool" where
  "running st \<longleftrightarrow> (case st of No_session w \<Rightarrow> True | Session s \<Rightarrow> idle s | Crashed \<Rightarrow> False)"

definition connected_world :: "'w ftp_world \<Rightarrow> bool" where
  "connected_world st \<longleftrightarrow> (\<exists>s. st = Session s \<and> idle s)"

lemma in_session_runs:
  assumes "\<And>s. idle s \<Longrightarrow> ends (g s) (\<lambda>x. idle)" "connected_world st"
  shows "connected_world (snd (in_session g d st))"
proof -
  obtain s where s: "st = Session s" "idle s" using assms(2) by (auto simp: connected_world_def)
  then obtain x t where "g s = Some (x, t)" "idle t" using assms(1) [of s] by (auto simp: ends_def)
  then show ?thesis using s by (simp add: in_session_def connected_world_def)
qed

lemma ftp_op_runs:
  assumes "\<And>s. idle s \<Longrightarrow> ends (g s) (\<lambda>x. idle)" "connected_world st"
  shows "connected_world (snd (ftp_op g st))"
  unfolding ftp_op_def
  by (rule in_session_runs [OF _ assms(2)]) (auto intro: ends_bind [OF assms(1)])

lemma ftp_driver_keeps:
  assumes n: "carries n Q"
  shows "keeps_world (ftp_driver_ops n junk) connected_world"
proof -
  note ok = carries_net(2) [OF n]
  have put: "ends (ftp_put n l r a s) (\<lambda>x. idle)" if "idle s" for l r a s
    by (rule ends_mono [OF ftp_put_ends [OF n that]]) (simp add: put_promise_def)
  have time: "ends (do { ((ret, t), s) \<leftarrow> ftp_get_modtime n r s; Some ((f2s ret, t), s) }) (\<lambda>x. idle)"
    if "idle s" for r s
    by (rule ends_bind_pair [OF ftp_get_modtime_ends [OF ok that]]) simp
  have fin: "connected_world (ftp_driver_finish n st)" if "connected_world st" for st
    unfolding ftp_driver_finish_def by (rule in_session_runs [OF ftp_finish_ends [OF ok] that])
  show ?thesis
    by unfold_locales
      (auto simp: ftp_driver_ops_def fin intro!: ftp_op_runs in_session_runs put time
        ftp_move_ends [OF ok] ftp_put_cond_ends [OF n] simple_commands_end [OF ok])
qed

text \<open>The name and the password fit their buffers, which are the size of a line of the rcfile.\<close>

definition short_login :: "site \<Rightarrow> bool" where
  "short_login s \<longleftrightarrow>
     (\<forall>u. h_username (s_server s) = Some u \<longrightarrow> length u < FE_LBUFSIZ)
     \<and> (\<forall>p. h_password (s_server s) = Some p \<longrightarrow> length p < FE_LBUFSIZ)"

lemma ftp_start_ends:
  assumes n: "carries n Q" and s: "short_login site"
  shows "ends (ftp_start n site w) (\<lambda>ret. idle)"
proof -
  have set: "ends (ftp_set_server n (s_server site) (ftp_init w)) (\<lambda>ret. idle)"
    using s by (auto simp: ftp_set_server_def short_login_def ftp_init_def ftp_ok_def on_net_eq tell_def Let_def
        split: option.split sum.split)
  have step: "ends (if ret = FTP_OK
      then ftp_open ftp_depth n (t\<lparr>ft_use_passive := s_ftp_pasv_mode site, ft_use_cwd := s_ftp_use_cwd site\<rparr>)
      else Some (ret, t)) (\<lambda>ret. idle)" if "idle t" for ret t
    using that ends_mono [OF ftp_open_idle [OF n]] by (auto simp: ftp_ok_def)
  show ?thesis
    unfolding ftp_start_def by (rule ends_bind [OF set], rule ends_bind [OF step], assumption) simp
qed

text \<open>C8.  An update over FTP never crashes and never hangs: for every site that is ready for it and has
  a login that fits the buffers, whatever the server answers, \<open>site_update\<close> returns, and in all its
  calls the client never uses a closed connection and never waits for ever, as long as the server
  ends its lines, does not talk for ever and answers \<^verbatim>\<open>TYPE\<close> and \<^verbatim>\<open>PORT\<close> with final replies.\<close>
theorem ftp_update_never_crashes:
  assumes "carries n (\<lambda>x. anything)" "ready (r_site r)" "s_symlinks (r_site r) \<noteq> sitesym_maintain"
    and "short_login (r_site r)" "r_world r = No_session w"
    and os: "\<And>f st. connected_world st \<Longrightarrow> connected_world (snd (o_can_update os f st))"
  shows "\<exists>r' ret s. site_update (ftp_driver_ops n junk) os r = Some (r', ret) \<and> ready (r_site r')
    \<and> r_world r' = Session s \<and> idle s"
proof -
  obtain r' ret where u: "site_update (ftp_driver_ops n junk) os r = Some (r', ret)" "ready (r_site r')"
    using site_update_result [OF assms(2,3), of "ftp_driver_ops n junk" os] by blast
  have "short_login ((r_site r)\<lparr>s_last_error := None\<rparr>)" using assms(4) by (simp add: short_login_def)
  then obtain ret0 s0 where "ftp_start n ((r_site r)\<lparr>s_last_error := None\<rparr>) w = Some (ret0, s0)" "idle s0"
    using ftp_start_ends [OF assms(1), of "(r_site r)\<lparr>s_last_error := None\<rparr>" w] by (auto simp: ends_def)
  then have "connected_world (snd (d_init (ftp_driver_ops n junk) ((r_site r)\<lparr>s_last_error := None\<rparr>) (r_world r)))"
    using assms(5) by (simp add: ftp_driver_ops_def ftp_driver_init_def connected_world_def)
  then have "gives (\<lambda>x. connected_world (r_world (fst x))) (site_update (ftp_driver_ops n junk) os r)"
    by (intro keeps_world.site_update_world [OF ftp_driver_keeps [OF assms(1)]] os)
  then show ?thesis using u by (auto simp: gives_def connected_world_def)
qed

end
