(* ===== verification/Ftp_Server.thy ===== *)
theory Ftp_Server
  imports Ftp_Driver
begin

text \<open>
  A small FTP server: it answers each command, keeps a working directory for each connection and
  stores a file when a transfer ends, unless it drops the connection there.  With it the FTP client
  is run on concrete uploads.
\<close>

record ftp_server =
  sv_line :: "string option"
  sv_cwd :: string
  sv_stor :: "string option"
  sv_data :: string
  sv_drops :: nat
  sv_files :: "(string \<times> string) list"

definition srv_answer :: "string \<Rightarrow> string" where
  "srv_answer cmd =
     (let c = take 4 cmd in
      if c = ''USER'' then ''331 password'' else if c = ''PASS'' then ''230 in''
      else if c = ''PASV'' then ''227 at (127,0,0,1,4,1)'' else if c = ''STOR'' then ''150 go''
      else if c = ''MDTM'' then ''213 20060102030405'' else if c = ''QUIT'' then ''221 bye''
      else ''200 ok'')"

definition srv_command :: "string \<Rightarrow> ftp_server \<Rightarrow> ftp_server" where
  "srv_command line w =
     (let cmd = butlast (butlast line); w = w\<lparr>sv_line := Some (srv_answer cmd @ [NL])\<rparr> in
      if take 4 cmd = ''CWD '' then w\<lparr>sv_cwd := drop 4 cmd\<rparr>
      else if take 4 cmd = ''STOR'' then w\<lparr>sv_stor := Some (sv_cwd w @ ''/'' @ drop 5 cmd)\<rparr>
      else w)"

definition srv_done :: "ftp_server \<Rightarrow> ftp_server" where
  "srv_done w =
     (case sv_stor w of
        None \<Rightarrow> w
      | Some path \<Rightarrow>
          if sv_drops w = 0
          then w\<lparr>sv_stor := None, sv_line := Some (''226 done'' @ [NL]),
                 sv_files := (path, sv_data w) # sv_files w\<rparr>
          else w\<lparr>sv_stor := None, sv_line := None, sv_drops := sv_drops w - 1\<rparr>)"

definition server_net :: "ftp_server net" where
  "server_net = \<lparr>
     n_resolve = (\<lambda>h w. (Inr 1, w)), n_ipv6 = (\<lambda>_. False),
     n_connect = (\<lambda>a p w. (0, w\<lparr>sv_cwd := ''/home/joe'', sv_line := Some (''220 hello'' @ [NL])\<rparr>)),
     n_connect_data = (\<lambda>a p w. (0, w\<lparr>sv_data := []\<rparr>)),
     n_write = (\<lambda>ch d w. (0, case ch of PI \<Rightarrow> srv_command d w | DTP \<Rightarrow> w\<lparr>sv_data := sv_data w @ d\<rparr>)),
     n_readline = (\<lambda>ch w. case ch of DTP \<Rightarrow> (Inl NE_SOCK_CLOSED, w)
        | PI \<Rightarrow> (case sv_line w of None \<Rightarrow> (Inl NE_SOCK_CLOSED, w)
            | Some l \<Rightarrow> (Inr (takeWhile (\<lambda>c. c \<noteq> NL) l @ [NL]), w\<lparr>sv_line := None\<rparr>))),
     n_read = (\<lambda>w. (Inl NE_SOCK_CLOSED, w)),
     n_close = (\<lambda>ch w. (0, case ch of PI \<Rightarrow> w | DTP \<Rightarrow> srv_done w)),
     n_error = (\<lambda>_ _. ''''), n_strerror = (\<lambda>_. ''''),
     n_getsockname_pi = (\<lambda>w. (True, w)), n_socket = (\<lambda>w. (True, w)), n_bind = (\<lambda>w. (True, w)),
     n_getsockname = (\<lambda>w. (None, w)), n_listen = (\<lambda>w. (True, w)), n_accept = (\<lambda>w. (False, w)),
     n_close_listener = id,
     n_fopen_read = (\<lambda>_ w. (Some \<lparr>lo_size = Some 3, lo_text = ''abc'', lo_failed = False\<rparr>, w)),
     n_rewind = (\<lambda>w. (True, w)), n_fopen_write = (\<lambda>_ w. (True, w)), n_fwrite = (\<lambda>_ w. (True, w)),
     n_fclose = (\<lambda>w. (True, w)), n_login = (\<lambda>_ _ _ w. (None, w)),
     n_connection = (\<lambda>_ _ w. w), n_progress = (\<lambda>_ _ w. w), n_mktime = (\<lambda>t. 0), n_null_diff = 0\<rparr>"

text \<open>A session over a connection that is open, with \<^verbatim>\<open>ftp usecwd\<close>.\<close>

definition open_session :: "nat \<Rightarrow> ftp_server ftp_session" where
  "open_session drops = (ftp_init \<lparr>sv_line = None, sv_cwd = ''/home/joe'', sv_stor = None, sv_data = [],
      sv_drops = drops, sv_files = []\<rparr>)
     \<lparr>ft_use_passive := True, ft_use_cwd := True, ft_connected := True, ft_pisock := True, ft_cwd := ''x'',
      ft_pi_addr := 1, ft_username := ''joe'', ft_password := ''secret''\<rparr>"

lemma net_fields [simp]:
  "n_ipv6 server_net = (\<lambda>_. False)"
  "n_connect server_net = (\<lambda>a p w. (0, w\<lparr>sv_cwd := ''/home/joe'', sv_line := Some (''220 hello'' @ [NL])\<rparr>))"
  "n_connect_data server_net = (\<lambda>a p w. (0, w\<lparr>sv_data := []\<rparr>))"
  "n_write server_net = (\<lambda>ch d w. (0, case ch of PI \<Rightarrow> srv_command d w | DTP \<Rightarrow> w\<lparr>sv_data := sv_data w @ d\<rparr>))"
  "n_readline server_net = (\<lambda>ch w. case ch of DTP \<Rightarrow> (Inl NE_SOCK_CLOSED, w)
        | PI \<Rightarrow> (case sv_line w of None \<Rightarrow> (Inl NE_SOCK_CLOSED, w)
            | Some l \<Rightarrow> (Inr (takeWhile (\<lambda>c. c \<noteq> NL) l @ [NL]), w\<lparr>sv_line := None\<rparr>)))"
  "n_read server_net = (\<lambda>w. (Inl NE_SOCK_CLOSED, w))"
  "n_close server_net = (\<lambda>ch w. (0, case ch of PI \<Rightarrow> w | DTP \<Rightarrow> srv_done w))"
  "n_getsockname server_net = (\<lambda>w. (None, w))" "n_accept server_net = (\<lambda>w. (False, w))"
  "n_fopen_read server_net = (\<lambda>_ w. (Some \<lparr>lo_size = Some 3, lo_text = ''abc'', lo_failed = False\<rparr>, w))"
  "n_rewind server_net = (\<lambda>w. (True, w))" "n_fclose server_net = (\<lambda>w. (True, w))"
  "n_connection server_net = (\<lambda>_ _ w. w)" "n_progress server_net = (\<lambda>_ _ w. w)"
  by (simp_all add: server_net_def)

section \<open>Commands at this server\<close>

definition srv_effect :: "string \<Rightarrow> ftp_server \<Rightarrow> ftp_server" where
  "srv_effect cmd w =
     (if take 4 cmd = ''CWD '' then w\<lparr>sv_cwd := drop 4 cmd, sv_line := None\<rparr>
      else if take 4 cmd = ''STOR'' then w\<lparr>sv_stor := Some (sv_cwd w @ ''/'' @ drop 5 cmd), sv_line := None\<rparr>
      else w\<lparr>sv_line := None\<rparr>)"

definition srv_code :: "string \<Rightarrow> int" where
  "srv_code cmd =
     (let c = take 4 cmd in
      if c = ''USER'' then FTP_NEEDPASSWORD else if c = ''PASV'' then FTP_PASSIVE
      else if c = ''STOR'' then FTP_READY else if c = ''MDTM'' then FTP_MODTIME
      else if c = ''QUIT'' then FTP_CLOSED else FTP_OK)"

definition like :: "'w ftp_session \<Rightarrow> 'w ftp_session \<Rightarrow> bool" where
  "like s t \<longleftrightarrow> same_user s t \<and> ft_mode t = ft_mode s \<and> ft_rfc2428 t = ft_rfc2428 s
     \<and> ft_cwd t = ft_cwd s \<and> ft_connected t = ft_connected s \<and> ft_pisock t
     \<and> ft_username t = ft_username s \<and> ft_password t = ft_password s"

lemma srv_answer_line:
  "sv_line (srv_command (cmd @ CRLF) w) = Some (srv_answer cmd @ [NL])"
  "(srv_command (cmd @ CRLF) w)\<lparr>sv_line := None\<rparr> = srv_effect cmd w"
proof -
  have "butlast (butlast (cmd @ CRLF)) = cmd" by (simp add: CRLF_def butlast_append)
  then show "sv_line (srv_command (cmd @ CRLF) w) = Some (srv_answer cmd @ [NL])"
    "(srv_command (cmd @ CRLF) w)\<lparr>sv_line := None\<rparr> = srv_effect cmd w"
    by (simp_all add: srv_command_def srv_effect_def Let_def)
qed

lemma answer_kinds:
  "(srv_answer cmd, srv_code cmd) \<in> {(''331 password'', 1), (''230 in'', 0),
     (''227 at (127,0,0,1,4,1)'', 2), (''150 go'', 3), (''213 20060102030405'', 5), (''221 bye'', 101),
     (''200 ok'', 0)}"
  by (simp add: srv_answer_def srv_code_def Let_def)

lemma reply_lines:
  "reply_line (''331 password'' @ [NL]) 0 0 = (331, 0)" "reply_line (''230 in'' @ [NL]) 0 0 = (230, 0)"
  "reply_line (''227 at (127,0,0,1,4,1)'' @ [NL]) 0 0 = (227, 0)" "reply_line (''150 go'' @ [NL]) 0 0 = (150, 0)"
  "reply_line (''213 20060102030405'' @ [NL]) 0 0 = (213, 0)" "reply_line (''221 bye'' @ [NL]) 0 0 = (221, 0)"
  "reply_line (''200 ok'' @ [NL]) 0 0 = (200, 0)" "reply_line (''220 hello'' @ [NL]) 0 0 = (220, 0)"
  "reply_line (''226 done'' @ [NL]) 0 0 = (226, 0)"
  by code_simp+

lemma address_replies:
  "parse_pasv_reply (c_string (''227 at (127,0,0,1,4,1)'' @ [NL])) = Inr (ipv4_addr 127 0 0 1, 1025)"
  "parse_modtime (c_string (''213 20060102030405'' @ [NL]))
    = Inr \<lparr>tm_year = 106, tm_mon = 0, tm_mday = 2, tm_hour = 3, tm_min = 4, tm_sec = 5\<rparr>"
  by code_simp+

lemma read_reply_server:
  assumes "ft_pisock s" "sv_line (ft_world s) = Some (a @ [NL])" "NL \<notin> set a" "reply_line (a @ [NL]) 0 0 = (c, 0)"
  shows "read_reply server_net s
    = Some ((FTP_OK, c), s\<lparr>ft_world := (ft_world s)\<lparr>sv_line := None\<rparr>, ft_rbuf := a @ [NL]\<rparr>)"
proof -
  have "takeWhile (\<lambda>c. c \<noteq> NL) (a @ [NL]) = a" using assms(3) by (subst takeWhile_append2) auto
  then show ?thesis
    using assms unfolding read_reply_def by (subst read_lines.simps) (simp add: on_net_eq Let_def)
qed

lemma like_refl: "ft_pisock s \<Longrightarrow> like s s"
  by (simp add: like_def)

text \<open>The reply \<open>a\<close> is one line that means \<open>k\<close>.\<close>

definition means :: "string \<Rightarrow> int \<Rightarrow> bool" where
  "means a k \<longleftrightarrow> NL \<notin> set a \<and> (\<exists>c. reply_line (a @ [NL]) 0 0 = (c, 0) \<and> (\<forall>t. ft_pisock t
    \<longrightarrow> ft_rbuf t = a @ [NL]
    \<longrightarrow> ends (parse_reply server_net c t) (\<lambda>r u. r = k \<and> like t u \<and> ft_world u = ft_world t)))"

lemma meansI:
  assumes "reply_line (a @ [NL]) 0 0 = (c, 0)" "NL \<notin> set a"
    and "\<And>t. ft_pisock t \<Longrightarrow> ft_rbuf t = a @ [NL] \<Longrightarrow>
      ends (parse_reply server_net c t) (\<lambda>r u. r = k \<and> like t u \<and> ft_world u = ft_world t)"
  shows "means a k"
  using assms unfolding means_def by blast

lemma meanings:
  "means ''331 password'' 1" "means ''230 in'' 0" "means ''150 go'' 3" "means ''221 bye'' 101"
  "means ''200 ok'' 0" "means ''220 hello'' 0" "means ''226 done'' FTP_SENT"
proof -
  have simple: "ends (parse_reply server_net c t) (\<lambda>r u. r = k \<and> like t u \<and> ft_world u = ft_world t)"
    if "(c, k) \<in> {(331, 1), (230, 0), (150, 3), (221, 101), (200, 0), (220, 0), (226, FTP_SENT)}" "ft_pisock t" for c k t
    using that by (auto simp: parse_reply_def like_refl)
  show "means ''331 password'' 1" by (rule meansI [OF reply_lines(1)], simp add: NL_def, rule simple) simp_all
  show "means ''230 in'' 0" by (rule meansI [OF reply_lines(2)], simp add: NL_def, rule simple) simp_all
  show "means ''150 go'' 3" by (rule meansI [OF reply_lines(4)], simp add: NL_def, rule simple) simp_all
  show "means ''221 bye'' 101" by (rule meansI [OF reply_lines(6)], simp add: NL_def, rule simple) simp_all
  show "means ''200 ok'' 0" by (rule meansI [OF reply_lines(7)], simp add: NL_def, rule simple) simp_all
  show "means ''220 hello'' 0" by (rule meansI [OF reply_lines(8)], simp add: NL_def, rule simple) simp_all
  show "means ''226 done'' FTP_SENT" by (rule meansI [OF reply_lines(9)], simp add: NL_def, rule simple) simp_all
qed

lemma address_meanings: "means ''227 at (127,0,0,1,4,1)'' 2" "means ''213 20060102030405'' 5"
proof -
  have pasv: "ends (parse_reply server_net 227 t) (\<lambda>r u. r = 2 \<and> like t u \<and> ft_world u = ft_world t)"
    if "ft_pisock t" "ft_rbuf t = ''227 at (127,0,0,1,4,1)'' @ [NL]" for t
    unfolding parse_reply_def that(2) address_replies using that(1) by (simp add: like_def)
  have mdtm: "ends (parse_reply server_net 213 t) (\<lambda>r u. r = 5 \<and> like t u \<and> ft_world u = ft_world t)"
    if "ft_pisock t" "ft_rbuf t = ''213 20060102030405'' @ [NL]" for t
    unfolding parse_reply_def that(2) address_replies Let_def using that(1) by (simp add: like_def)
  show "means ''227 at (127,0,0,1,4,1)'' 2" by (rule meansI [OF reply_lines(3)], simp add: NL_def, rule pasv)
  show "means ''213 20060102030405'' 5" by (rule meansI [OF reply_lines(5)], simp add: NL_def, rule mdtm)
qed

lemma means_answer: "means (srv_answer cmd) (srv_code cmd)"
  using answer_kinds [of cmd] meanings address_meanings unfolding insert_iff empty_iff prod.inject
  by (elim disjE conjE) (simp_all only:)

text \<open>A reply that is read.\<close>

lemma heard_server:
  assumes "means a k" "ft_pisock s" "sv_line (ft_world s) = Some (a @ [NL])"
  obtains c where "read_reply server_net s
      = Some ((FTP_OK, c), s\<lparr>ft_world := (ft_world s)\<lparr>sv_line := None\<rparr>, ft_rbuf := a @ [NL]\<rparr>)"
    "\<And>t. ft_pisock t \<Longrightarrow> ft_rbuf t = a @ [NL] \<Longrightarrow>
      ends (parse_reply server_net c t) (\<lambda>r u. r = k \<and> like t u \<and> ft_world u = ft_world t)"
  using assms read_reply_server [OF assms(2,3)] unfolding means_def by blast

lemma run_server:
  assumes "ft_pisock s"
  shows "ends (run_command server_net cmd s) (\<lambda>r t. r = srv_code cmd \<and> like s t
    \<and> ft_world t = srv_effect cmd (ft_world s))"
proof -
  let ?s = "s\<lparr>ft_world := srv_command (cmd @ CRLF) (ft_world s)\<rparr>"
  have run: "run_command server_net cmd s = (do { ((ret, rcode), s) \<leftarrow> read_reply server_net ?s;
        if ret \<noteq> FTP_OK then Some (ret, s)
        else parse_reply server_net rcode (ftp_seterror (ft_rbuf s) s) })"
    using assms by (simp add: run_command_def on_net_eq)
  obtain c where c: "read_reply server_net ?s = Some ((FTP_OK, c),
      ?s\<lparr>ft_world := (ft_world ?s)\<lparr>sv_line := None\<rparr>, ft_rbuf := srv_answer cmd @ [NL]\<rparr>)"
    "\<And>t. ft_pisock t \<Longrightarrow> ft_rbuf t = srv_answer cmd @ [NL] \<Longrightarrow>
      ends (parse_reply server_net c t) (\<lambda>r u. r = srv_code cmd \<and> like t u \<and> ft_world u = ft_world t)"
    by (rule heard_server [OF means_answer, of ?s cmd]) (use assms in \<open>simp_all add: srv_answer_line\<close>)
  let ?t = "ftp_seterror (srv_answer cmd @ [NL]) (?s\<lparr>ft_world := srv_effect cmd (ft_world s), ft_rbuf := srv_answer cmd @ [NL]\<rparr>)"
  have "ends (parse_reply server_net c ?t) (\<lambda>r u. r = srv_code cmd \<and> like ?t u \<and> ft_world u = ft_world ?t)"
    by (rule c(2)) (use assms in \<open>simp_all add: ftp_seterror_def\<close>)
  then show ?thesis
    unfolding run c(1) by (auto simp: srv_answer_line like_def ftp_seterror_def elim!: ends_mono)
qed

section \<open>The session with this server\<close>

text \<open>A session that is logged in (\<open>up\<close>) or has lost its connection, with the working directory it
  thinks it has, its transfer mode and the state of the server.\<close>

definition at_server ::
    "bool \<Rightarrow> string \<Rightarrow> tran_mode \<Rightarrow> ftp_server \<Rightarrow> ftp_server ftp_session \<Rightarrow> bool" where
  "at_server up dir m w s \<longleftrightarrow> ft_connected s = up \<and> ft_pisock s = up \<and> ft_use_passive s \<and> ft_use_cwd s
     \<and> ft_rfc2428 s = rfc2428_unknown \<and> ft_pi_addr s = 1 \<and> ft_username s = ''joe''
     \<and> ft_password s = ''secret'' \<and> ft_cwd s = dir \<and> ft_mode s = m \<and> ft_world s = w \<and> sv_line w = None"

lemma same_world: "sv_line w = None \<Longrightarrow> w\<lparr>sv_line := None\<rparr> = w"
  by (cases w) simp

lemma at_server_run:
  assumes "at_server True dir m w s"
  shows "ends (run_command server_net cmd s)
    (\<lambda>r t. r = srv_code cmd \<and> at_server True dir m (srv_effect cmd w) t)"
  using assms by (intro ends_mono [OF run_server])
    (auto simp: at_server_def like_def same_user_def srv_effect_def)

lemma execute_tries_server:
  assumes "at_server True dir m w s" "\<And>s. ft_connected s \<Longrightarrow> opn s = Some (FTP_OK, s)"
  shows "ends (execute_tries opn server_net cmd (Suc k) s)
    (\<lambda>r t. r = srv_code cmd \<and> at_server True dir m (srv_effect cmd w) t)"
proof -
  have "srv_code cmd \<noteq> FTP_BROKEN" by (simp add: srv_code_def Let_def)
  moreover have "opn s = Some (FTP_OK, s)" using assms by (simp add: at_server_def)
  ultimately show ?thesis by (auto intro!: ends_bind [OF at_server_run [OF assms(1)]])
qed

lemma execute_server:
  assumes "at_server True dir m w s" "length cmd < 1024"
  shows "ends (execute server_net cmd s)
    (\<lambda>r t. r = srv_code cmd \<and> at_server True dir m (srv_effect cmd w) t)"
  using execute_tries_server [OF assms(1), of "ftp_open ftp_depth server_net" cmd 2] assms(2)
  by (simp add: execute_def execute_with_def snprintf_def ftp_depth_def numeral_2_eq_2 numeral_3_eq_3)

lemma set_mode_server:
  assumes "at_server True dir m' w s" "\<And>s. ft_connected s \<Longrightarrow> opn s = Some (FTP_OK, s)"
  shows "ends (set_mode_with opn server_net m s) (\<lambda>r t. r = FTP_OK \<and> at_server True dir m w t)"
proof (cases "ft_mode s = m")
  case False
  let ?c = "if m = tran_ascii then ''TYPE A'' else ''TYPE I''"
  have c: "srv_code ?c = FTP_OK" "srv_effect ?c w = w" "snprintf 1024 ?c = ?c"
    using assms(1) by (simp_all add: srv_code_def srv_effect_def same_world at_server_def snprintf_def)
  have "ends (execute_with opn server_net ?c s) (\<lambda>r t. r = FTP_OK \<and> at_server True dir m' w t)"
    using execute_tries_server [OF assms, of ?c 2] unfolding execute_with_def c
    by (simp add: numeral_2_eq_2 numeral_3_eq_3)
  then obtain t where t: "execute_with opn server_net ?c s = Some (FTP_OK, t)" "at_server True dir m' w t"
    by (auto simp: ends_def)
  then have "set_mode_with opn server_net m s = Some (FTP_OK, t\<lparr>ft_mode := m\<rparr>)"
    using False unfolding set_mode_with_def t(1) by simp
  then show ?thesis using t(2) by (simp add: at_server_def)
qed (use assms(1) in \<open>simp add: set_mode_with_def at_server_def\<close>)

text \<open>Opening the connection again: the server starts in its login directory, and the mode is
  restored.\<close>

definition greeted :: "ftp_server \<Rightarrow> ftp_server" where
  "greeted w = w\<lparr>sv_cwd := ''/home/joe''\<rparr>"

lemma log_in_server:
  assumes "at_server True dir m w s"
  shows "ends (log_in server_net (s\<lparr>ft_connected := False\<rparr>)) (\<lambda>r t. r = FTP_OK \<and> at_server True dir m w t)"
proof -
  let ?s = "s\<lparr>ft_connected := False\<rparr>"
  have run: "ends (run_command server_net cmd u)
      (\<lambda>r t. r = srv_code cmd \<and> at_server True dir m w (t\<lparr>ft_connected := True\<rparr>))"
    if "at_server True dir m w (u\<lparr>ft_connected := True\<rparr>)" "srv_effect cmd w = w" for cmd u
    using that by (intro ends_mono [OF run_server]) (auto simp: at_server_def like_def same_user_def)
  have c: "srv_code ''USER joe'' = FTP_NEEDPASSWORD" "srv_code ''PASS secret'' = FTP_OK"
    "srv_effect ''USER joe'' w = w" "srv_effect ''PASS secret'' w = w"
    using assms by (simp_all add: srv_code_def srv_effect_def at_server_def same_world)
  have s: "at_server True dir m w (?s\<lparr>ft_connected := True\<rparr>)"
    using assms by (simp add: at_server_def)
  then obtain t where t: "run_command server_net ''USER joe'' ?s = Some (FTP_NEEDPASSWORD, t)"
      "at_server True dir m w (t\<lparr>ft_connected := True\<rparr>)"
    using run [of ?s "''USER joe''"] c by (auto simp: ends_def)
  obtain u where u: "run_command server_net ''PASS secret'' t = Some (FTP_OK, u)"
      "at_server True dir m w (u\<lparr>ft_connected := True\<rparr>)"
    using run [OF t(2), of "''PASS secret''"] c by (auto simp: ends_def)
  have same: "?s\<lparr>ft_username := ''joe'', ft_password := ''secret''\<rparr> = ?s"
    using assms by (cases s) (simp add: at_server_def)
  have "authenticate server_net ?s = Some (FTP_OK, u)"
    using assms t(1) u(1) unfolding authenticate_def
    by (simp add: at_server_def snprintf_def same [simplified])
  then show ?thesis using u(2) by (simp add: log_in_def)
qed

lemma greeting_server:
  assumes "at_server True dir m w t"
    and s: "s = t\<lparr>ft_connected := False, ft_world := w\<lparr>sv_line := Some (''220 hello'' @ [NL])\<rparr>\<rparr>"
  shows "ends (greeting server_net s) (\<lambda>r u. r = FTP_OK \<and> at_server True dir m w u)"
proof -
  have p: "ft_pisock s" "sv_line (ft_world s) = Some (''220 hello'' @ [NL])"
    using assms by (simp_all add: at_server_def)
  obtain c where c: "read_reply server_net s
      = Some ((FTP_OK, c), s\<lparr>ft_world := (ft_world s)\<lparr>sv_line := None\<rparr>, ft_rbuf := ''220 hello'' @ [NL]\<rparr>)"
    "\<And>t. ft_pisock t \<Longrightarrow> ft_rbuf t = ''220 hello'' @ [NL] \<Longrightarrow>
      ends (parse_reply server_net c t) (\<lambda>r u. r = FTP_OK \<and> like t u \<and> ft_world u = ft_world t)"
    by (rule heard_server [OF meanings(6) p]) (rule that)
  let ?s = "s\<lparr>ft_world := (ft_world s)\<lparr>sv_line := None\<rparr>, ft_rbuf := ''220 hello'' @ [NL]\<rparr>"
  obtain u where u: "parse_reply server_net c ?s = Some (FTP_OK, u)" "like ?s u" "ft_world u = ft_world ?s"
    using c(2) [of ?s] p(1) by (auto simp: ends_def)
  have eq: "u = (u\<lparr>ft_connected := True\<rparr>)\<lparr>ft_connected := False\<rparr>"
    using u(2) s by (cases u) (simp add: like_def)
  have "at_server True dir m w (u\<lparr>ft_connected := True\<rparr>)"
    using assms(1) u(2,3) s by (auto simp: at_server_def like_def same_user_def same_world)
  then have "ends (log_in server_net u) (\<lambda>r u. r = FTP_OK \<and> at_server True dir m w u)"
    using log_in_server [of dir m w "u\<lparr>ft_connected := True\<rparr>"] eq by metis
  then show ?thesis using u(1) unfolding greeting_def c(1) hello_def by simp
qed

lemma reopen_server:
  assumes "at_server False dir m w s"
  shows "ends (ftp_open ftp_depth server_net s) (\<lambda>r t. r = FTP_OK \<and> at_server True ''x'' m (greeted w) t)"
proof -
  let ?t = "s\<lparr>ft_cwd := ''x'', ft_pisock := True,
      ft_world := w\<lparr>sv_cwd := ''/home/joe'', sv_line := Some (''220 hello'' @ [NL])\<rparr>, ft_pi_curaddr := 0\<rparr>"
  let ?u = "s\<lparr>ft_cwd := ''x'', ft_pisock := True, ft_pi_curaddr := 0, ft_connected := True, ft_world := greeted w\<rparr>"
  have "at_server True ''x'' m (greeted w) ?u" using assms by (simp add: at_server_def greeted_def)
  moreover have "?t = ?u\<lparr>ft_connected := False,
      ft_world := (greeted w)\<lparr>sv_line := Some (''220 hello'' @ [NL])\<rparr>\<rparr>"
    using assms by (cases s) (simp add: at_server_def greeted_def)
  ultimately obtain v where v: "greeting server_net ?t = Some (FTP_OK, v)" "at_server True ''x'' m (greeted w) v"
    using greeting_server by (fastforce simp: ends_def)
  have op: "open_connection server_net s = Some (FTP_OK, v)"
    using assms v(1) unfolding open_connection_def
    by (simp add: at_server_def tell_def on_net_eq)
  have m: "at_server True ''x'' tran_unknown (greeted w) (v\<lparr>ft_mode := tran_unknown\<rparr>)" "ft_mode v = m"
    using v(2) by (simp_all add: at_server_def)
  have o1: "ft_connected s \<Longrightarrow> ftp_open (Suc 0) server_net s = Some (FTP_OK, s)" for s by simp
  have "ftp_open ftp_depth server_net s = (if m \<noteq> tran_unknown
      then set_mode_with (ftp_open (Suc 0) server_net) server_net m (v\<lparr>ft_mode := tran_unknown\<rparr>)
      else Some (FTP_OK, v))"
    using assms op m(2) by (simp add: ftp_depth_def numeral_2_eq_2 at_server_def)
  then show ?thesis using set_mode_server [OF m(1) o1, of m] v(2) by (auto simp del: ftp_open.simps)
qed

lemma execute_down_server:
  assumes "at_server False dir m w s" "length cmd < 1024"
  shows "ends (execute server_net cmd s)
    (\<lambda>r t. r = srv_code cmd \<and> at_server True ''x'' m (srv_effect cmd (greeted w)) t)"
proof -
  obtain t where t: "ftp_open ftp_depth server_net s = Some (FTP_OK, t)" "at_server True ''x'' m (greeted w) t"
    using reopen_server [OF assms(1)] by (auto simp: ends_def)
  have "ftp_open ftp_depth server_net t = Some (FTP_OK, t)"
    using t(2) by (simp add: at_server_def ftp_depth_def numeral_2_eq_2)
  then have "execute server_net cmd s = execute server_net cmd t"
    using t(1) by (simp add: execute_def execute_with_def numeral_3_eq_3)
  then show ?thesis using execute_server [OF t(2) assms(2)] by simp
qed

section \<open>Uploads to this server\<close>

lemma maybe_chdir_server:
  assumes "at_server True c m w s" "dir \<noteq> c" "dir = CHR ''/'' # d" "CHR ''/'' \<notin> set name"
    and "length dir + length name < 1000"
  shows "ends (maybe_chdir server_net (dir @ CHR ''/'' # name) s)
    (\<lambda>r t. r = (FTP_OK, name) \<and> at_server True dir m (w\<lparr>sv_cwd := dir\<rparr>) t)"
proof -
  have sp: "strrchr_split (dir @ CHR ''/'' # name) CHR ''/'' = Some (dir @ [CHR ''/''], name)"
    using assms(4) by (auto simp: strrchr_split_def dropWhile_append takeWhile_append split: if_splits)
  have "srv_effect (''CWD '' @ dir) w = w\<lparr>sv_cwd := dir\<rparr>" "srv_code (''CWD '' @ dir) = FTP_OK"
    using assms(1) by (simp_all add: srv_effect_def srv_code_def at_server_def)
  then obtain t where "execute server_net (''CWD '' @ dir) s = Some (FTP_OK, t)"
      "at_server True c m (w\<lparr>sv_cwd := dir\<rparr>) t"
    using execute_server [OF assms(1), of "''CWD '' @ dir"] assms(5) by (auto simp: ends_def)
  then show ?thesis
    using assms sp by (simp add: maybe_chdir_def at_server_def PATH_MAX_def)
qed

lemma maybe_chdir_relative:
  "CHR ''/'' \<notin> set name \<Longrightarrow> maybe_chdir n name s = Some ((FTP_OK, name), s)"
  by (cases name) (auto simp: maybe_chdir_def)

lemma srv_data_kept [simp]: "sv_data (srv_command d w) = sv_data w" "sv_data (srv_done w) = sv_data w"
  by (simp_all add: srv_command_def srv_done_def Let_def split: option.split)

lemma server_net_ok: "net_ok server_net (\<lambda>w. sv_data w = x)"
proof -
  have "lines_end server_net"
    unfolding lines_end_def by (auto split: chan.splits option.splits dest: set_takeWhileD)
  moreover have "falls_silent server_net (\<lambda>w. if sv_line w = None then 0 else 1)"
    unfolding falls_silent_def by (auto simp: server_net_def split: chan.splits option.splits)
  moreover have "control_keeps server_net {} (\<lambda>w. sv_data w = x)"
    unfolding control_keeps_def by (auto simp: server_net_def split: chan.splits option.splits)
  ultimately show ?thesis unfolding net_ok_def by blast
qed

text \<open>Commands leave the data socket alone.\<close>

lemma execute_dtpsock:
  assumes "at_server up c m w s"
  shows "ends (execute server_net cmd s) (\<lambda>r t. ft_dtpsock t = ft_dtpsock s)"
proof -
  have "idle s" using assms by (simp add: at_server_def ftp_ok_def)
  then show ?thesis
    by (rule ends_mono [OF execute_ends [OF net_ok_anything [OF server_net_ok]]])
      (simp add: served_def same_user_def)
qed

text \<open>The data connection over a session that is up or comes back.\<close>

lemma ftp_data_open_server:
  assumes s: "at_server up c m w s" and name: "length name < 1000"
  shows "ends (ftp_data_open server_net (''STOR '' @ name) s)
    (\<lambda>r t. r = FTP_READY \<and> (let v = if up then w else greeted w in
       at_server True (if up then c else ''x'') m
         (v\<lparr>sv_data := [], sv_stor := Some (sv_cwd v @ ''/'' @ name)\<rparr>) t) \<and> ft_dtpsock t)"
proof -
  let ?v = "if up then w else greeted w" and ?c = "if up then c else ''x''"
  have l: "sv_line w = None" "sv_line ?v = None" using s by (simp_all add: at_server_def greeted_def)
  have e: "try_epsv server_net s = Some (FTP_ERROR, s)" by (simp add: try_epsv_def)
  have p: "srv_code ''PASV'' = FTP_PASSIVE" "srv_effect ''PASV'' w = w" "srv_effect ''PASV'' (greeted w) = greeted w"
    using l by (simp_all add: srv_code_def srv_effect_def same_world split: if_splits) (simp add: greeted_def same_world)
  have "ends (execute server_net ''PASV'' s) (\<lambda>r t. r = FTP_PASSIVE \<and> at_server True ?c m ?v t)"
  proof (cases up)
    case True
    then show ?thesis using execute_server [of c m w s "''PASV''"] s p by simp
  next
    case False
    then show ?thesis using execute_down_server [of c m w s "''PASV''"] s p by simp
  qed
  then obtain t where t: "try_pasv server_net FTP_ERROR s = Some (FTP_PASSIVE, t)" "at_server True ?c m ?v t"
    using s by (auto simp: ends_def try_pasv_def at_server_def)
  let ?t = "t\<lparr>ft_world := ?v\<lparr>sv_data := []\<rparr>, ft_dtpsock := True\<rparr>"
  have d: "dtp_open_passive server_net t = (True, ?t)"
    using t(2) by (simp add: dtp_open_passive_def on_net_eq at_server_def)
  have st: "srv_code (''STOR '' @ name) = FTP_READY"
    "srv_effect (''STOR '' @ name) (?v\<lparr>sv_data := []\<rparr>) = ?v\<lparr>sv_data := [], sv_stor := Some (sv_cwd ?v @ ''/'' @ name)\<rparr>"
    using l(2) by (simp_all add: srv_code_def srv_effect_def)
  have at: "at_server True ?c m (?v\<lparr>sv_data := []\<rparr>) ?t" using t(2) by (simp add: at_server_def)
  then have "ends (execute server_net (''STOR '' @ name) ?t) (\<lambda>r t. r = FTP_READY
      \<and> at_server True ?c m (?v\<lparr>sv_data := [], sv_stor := Some (sv_cwd ?v @ ''/'' @ name)\<rparr>) t)"
    using execute_server [of ?c m "?v\<lparr>sv_data := []\<rparr>" ?t "''STOR '' @ name"] name unfolding st by simp
  from ends_conj [OF this execute_dtpsock [OF at]]
  have "ends (execute server_net (''STOR '' @ name) ?t) (\<lambda>r t. (r = FTP_READY
      \<and> at_server True ?c m (?v\<lparr>sv_data := [], sv_stor := Some (sv_cwd ?v @ ''/'' @ name)\<rparr>) t) \<and> ft_dtpsock t)"
    by (rule ends_mono) simp
  moreover have "snprintf BUFSIZ (''STOR '' @ name) = ''STOR '' @ name"
    using name by (simp add: snprintf_def BUFSIZ_def)
  ultimately show ?thesis
    using s e t(1) d unfolding ftp_data_open_def Let_def by (simp add: at_server_def)
qed

lemma send_file_server:
  assumes "at_server True c m w s" "sv_data w = []" "ft_dtpsock s"
  shows "\<exists>t. send_file server_net False \<lparr>lo_size = z, lo_text = ''abc'', lo_failed = False\<rparr> fsize s = Some (True, t)
    \<and> at_server True c m (w\<lparr>sv_data := ''abc''\<rparr>) t \<and> ft_dtpsock t"
  using assms by (simp add: send_file_def on_net_eq tell_def at_server_def BUFSIZ_def eval_nat_numeral)

text \<open>The end of a transfer: the file is stored, or the connection is lost.\<close>

definition stored :: "string \<Rightarrow> ftp_server \<Rightarrow> ftp_server" where
  "stored path w = w\<lparr>sv_stor := None, sv_files := (path, sv_data w) # sv_files w\<rparr>"

lemma dtp_close_stores:
  assumes s: "at_server True c m w s" "ft_dtpsock s" and w: "sv_stor w = Some path" "sv_drops w = 0"
  shows "ends (dtp_close server_net False s) (\<lambda>r t. r = FTP_SENT \<and> at_server True c m (stored path w) t)"
proof -
  let ?s = "s\<lparr>ft_world := srv_done w, ft_dtpsock := False\<rparr>"
  have p: "ft_pisock ?s" "sv_line (ft_world ?s) = Some (''226 done'' @ [NL])"
    using s w by (simp_all add: at_server_def srv_done_def)
  obtain k where c: "read_reply server_net ?s = Some ((FTP_OK, k),
      ?s\<lparr>ft_world := (ft_world ?s)\<lparr>sv_line := None\<rparr>, ft_rbuf := ''226 done'' @ [NL]\<rparr>)"
    "\<And>t. ft_pisock t \<Longrightarrow> ft_rbuf t = ''226 done'' @ [NL] \<Longrightarrow>
      ends (parse_reply server_net k t) (\<lambda>r u. r = FTP_SENT \<and> like t u \<and> ft_world u = ft_world t)"
    by (rule heard_server [OF meanings(7) p]) (rule that)
  let ?t = "?s\<lparr>ft_world := (ft_world ?s)\<lparr>sv_line := None\<rparr>, ft_rbuf := ''226 done'' @ [NL]\<rparr>"
  obtain u where u: "parse_reply server_net k ?t = Some (FTP_SENT, u)" "like ?t u" "ft_world u = ft_world ?t"
    using c(2) [of ?t] p(1) by (auto simp: ends_def)
  have "(srv_done w)\<lparr>sv_line := None\<rparr> = stored path w"
    using s w by (cases w) (simp add: srv_done_def stored_def at_server_def)
  then have "at_server True c m (stored path w) u"
    using s u(2,3) by (auto simp: at_server_def like_def same_user_def stored_def)
  then show ?thesis
    using u(1) s c(1) unfolding dtp_close_def by (simp add: on_net_eq at_server_def)
qed

lemma dtp_close_drops:
  assumes s: "at_server True c m w s" "ft_dtpsock s" and w: "sv_stor w = Some path" "sv_drops w = Suc k"
  shows "ends (dtp_close server_net False s)
    (\<lambda>r t. r = FTP_BROKEN \<and> at_server False c m (w\<lparr>sv_stor := None, sv_drops := k\<rparr>) t)"
proof -
  let ?s = "s\<lparr>ft_world := srv_done w, ft_dtpsock := False\<rparr>"
  have "ft_pisock ?s" "sv_line (srv_done w) = None" "srv_done w = w\<lparr>sv_stor := None, sv_drops := k\<rparr>"
    using s w by (cases w; simp add: at_server_def srv_done_def)+
  then have "ends (read_reply server_net ?s)
    (\<lambda>r t. r = (FTP_BROKEN, 0) \<and> at_server False c m (w\<lparr>sv_stor := None, sv_drops := k\<rparr>) t)"
    using s unfolding read_reply_def
    by (subst read_lines.simps) (simp add: on_net_eq set_pisockerr_def close_pi_def set_sockerr_def
        at_server_def FTP_PI_BROKEN_def srv_done_def)
  then show ?thesis
    using s unfolding dtp_close_def by (auto simp: on_net_eq at_server_def intro!: ends_bind_pair)
qed

abbreviation (input) abc :: local_file where
  "abc \<equiv> \<lparr>lo_size = Some 3, lo_text = ''abc'', lo_failed = False\<rparr>"

text \<open>One attempt, up to the end of the transfer.\<close>

lemma attempt_server:
  assumes d: "maybe_chdir server_net fn s0 = Some ((FTP_OK, name), s)"
    and s: "at_server up c m w s" and name: "length name < 1000"
    and v: "v = (if up then w else greeted w)"
  obtains t where "at_server True (if up then c else ''x'') m
      (v\<lparr>sv_data := ''abc'', sv_stor := Some (sv_cwd v @ ''/'' @ name)\<rparr>) t" "ft_dtpsock t"
    "put_tries server_net False abc 3 (Suc k) again fn s0 = (do { (dret, s) \<leftarrow> dtp_close server_net False t;
       if dret = FTP_SENT then Some (FTP_OK, s)
       else if dret = FTP_BROKEN then put_tries server_net False abc 3 k True name s
       else Some (FTP_ERROR, s) })"
proof -
  let ?c = "if up then c else ''x''"
  let ?w = "v\<lparr>sv_data := [], sv_stor := Some (sv_cwd v @ ''/'' @ name)\<rparr>"
  have eq: "?w\<lparr>sv_data := ''abc''\<rparr> = v\<lparr>sv_data := ''abc'', sv_stor := Some (sv_cwd v @ ''/'' @ name)\<rparr>"
    by simp
  obtain t where t: "ftp_data_open server_net (''STOR '' @ name) s = Some (FTP_READY, t)"
      "at_server True ?c m ?w t" "ft_dtpsock t"
    using ftp_data_open_server [OF s name] unfolding ends_def Let_def v by auto
  obtain u where u: "send_file server_net False abc 3 t = Some (True, u)"
      "at_server True ?c m (?w\<lparr>sv_data := ''abc''\<rparr>) u" "ft_dtpsock u"
    using send_file_server [OF t(2) _ t(3), of "Some 3" 3] by auto
  have "put_tries server_net False abc 3 (Suc k) again fn s0 = (do { (dret, s) \<leftarrow> dtp_close server_net False u;
       if dret = FTP_SENT then Some (FTP_OK, s)
       else if dret = FTP_BROKEN then put_tries server_net False abc 3 k True name s
       else Some (FTP_ERROR, s) })"
    using d t(1) u(1) by (simp add: on_net_eq cong: if_cong)
  then show thesis by (rule that [OF u(2) [unfolded eq] u(3)])
qed

lemma put_stores:
  assumes "maybe_chdir server_net fn s0 = Some ((FTP_OK, name), s)" "at_server up c m w s" "length name < 1000"
    and w: "sv_drops w = 0" "sv_files w = fs" "sv_cwd (if up then w else greeted w) = cwd"
  shows "ends (put_tries server_net False abc 3 (Suc k) again fn s0)
    (\<lambda>r t. r = FTP_OK \<and> sv_files (ft_world t) = (cwd @ ''/'' @ name, ''abc'') # fs)"
proof -
  define v where "v = (if up then w else greeted w)"
  have v: "sv_drops v = 0" "sv_files v = fs" "sv_cwd v = cwd" using w by (auto simp: v_def greeted_def)
  obtain t where t: "at_server True (if up then c else ''x'') m
      (v\<lparr>sv_data := ''abc'', sv_stor := Some (cwd @ ''/'' @ name)\<rparr>) t" "ft_dtpsock t"
    "put_tries server_net False abc 3 (Suc k) again fn s0 = (do { (dret, s) \<leftarrow> dtp_close server_net False t;
       if dret = FTP_SENT then Some (FTP_OK, s)
       else if dret = FTP_BROKEN then put_tries server_net False abc 3 k True name s
       else Some (FTP_ERROR, s) })"
    using attempt_server [OF assms(1-3) v_def] unfolding v(3) by blast
  show ?thesis
    unfolding t(3)
    by (rule ends_bind [OF dtp_close_stores [OF t(1,2)]]) (use v in \<open>auto simp: at_server_def stored_def\<close>)
qed

lemma put_lost:
  assumes "maybe_chdir server_net fn s0 = Some ((FTP_OK, name), s)" "at_server up c m w s" "length name < 1000"
    and w: "sv_drops w = Suc d" "sv_files w = fs"
  obtains c' w' t where "put_tries server_net False abc 3 (Suc k) again fn s0
      = put_tries server_net False abc 3 k True name t"
    "at_server False c' m w' t" "sv_drops w' = d" "sv_files w' = fs"
proof -
  define v where "v = (if up then w else greeted w)"
  have v: "sv_drops v = Suc d" "sv_files v = fs" using w by (auto simp: v_def greeted_def)
  obtain t where t: "at_server True (if up then c else ''x'') m
      (v\<lparr>sv_data := ''abc'', sv_stor := Some (sv_cwd v @ ''/'' @ name)\<rparr>) t" "ft_dtpsock t"
    "put_tries server_net False abc 3 (Suc k) again fn s0 = (do { (dret, s) \<leftarrow> dtp_close server_net False t;
       if dret = FTP_SENT then Some (FTP_OK, s)
       else if dret = FTP_BROKEN then put_tries server_net False abc 3 k True name s
       else Some (FTP_ERROR, s) })"
    using attempt_server [OF assms(1-3) v_def] by blast
  obtain u where "dtp_close server_net False t = Some (FTP_BROKEN, u)"
      "at_server False (if up then c else ''x'') m (v\<lparr>sv_data := ''abc'', sv_stor := None, sv_drops := d\<rparr>) u"
    using dtp_close_drops [OF t(1,2)] v(1) by (auto simp: ends_def)
  then show thesis using that [of u] t(3) v(2) by simp
qed

lemma ftp_put_server:
  assumes "at_server True c m w s" "sv_line w = None"
  obtains t where "ftp_put server_net l fn False s = put_tries server_net False abc 3 3 False fn t"
    "at_server True c tran_binary w t"
proof -
  obtain t where "set_mode server_net tran_binary s = Some (FTP_OK, t)" "at_server True c tran_binary w t"
    using set_mode_server [OF assms(1), of "ftp_open ftp_depth server_net" tran_binary]
    by (auto simp: set_mode_def ftp_depth_def numeral_2_eq_2 ends_def)
  then show thesis using that [of t] by (simp add: ftp_put_def on_net_eq)
qed

lemma open_session_at: "\<exists>w. at_server True ''x'' tran_unknown w (open_session drops)
  \<and> sv_drops w = drops \<and> sv_files w = []"
  by (simp add: open_session_def at_server_def ftp_init_def)

text \<open>C38.  When the server drops the connection at the end of an upload, the next attempt of \<open>ftp_put\<close>
  goes on with the name relative to the working directory, but a new connection starts in the
  login directory, and \<open>maybe_chdir\<close> leaves a relative name alone: with \<^verbatim>\<open>ftp usecwd\<close> the upload of
  \<^verbatim>\<open>dir/name\<close> is reported as successful and has stored the file as \<^verbatim>\<open>name\<close> in the login directory.
  Without the lost connection the file is where it belongs.\<close>
theorem ftp_put_wrong_directory:
  assumes "dir = CHR ''/'' # d" "CHR ''/'' \<notin> set name" "length dir + length name < 1000"
  shows "(\<exists>t. ftp_put server_net l (dir @ CHR ''/'' # name) False (open_session 0) = Some (FTP_OK, t)
      \<and> sv_files (ft_world t) = [(dir @ ''/'' @ name, ''abc'')])
    \<and> (\<exists>t. ftp_put server_net l (dir @ CHR ''/'' # name) False (open_session 1) = Some (FTP_OK, t)
      \<and> sv_files (ft_world t) = [(''/home/joe/'' @ name, ''abc'')])"
proof
  have start: "\<exists>s t. ftp_put server_net l (dir @ CHR ''/'' # name) False (open_session drops)
        = put_tries server_net False abc 3 3 False (dir @ CHR ''/'' # name) s
      \<and> maybe_chdir server_net (dir @ CHR ''/'' # name) s = Some ((FTP_OK, name), t)
      \<and> (\<exists>w. at_server True dir tran_binary (w\<lparr>sv_cwd := dir\<rparr>) t \<and> sv_drops w = drops \<and> sv_files w = [])" for drops
  proof -
    obtain w where w: "at_server True ''x'' tran_unknown w (open_session drops)" "sv_drops w = drops" "sv_files w = []"
      using open_session_at by blast
    obtain s where s: "ftp_put server_net l (dir @ CHR ''/'' # name) False (open_session drops)
          = put_tries server_net False abc 3 3 False (dir @ CHR ''/'' # name) s"
        "at_server True ''x'' tran_binary w s"
      using ftp_put_server [OF w(1)] w(1) by (auto simp: at_server_def)
    then show ?thesis
      using maybe_chdir_server [OF s(2) _ assms] w assms(1) by (auto simp: ends_def)
  qed
  have name: "length name < 1000" using assms(3) by simp
  show "\<exists>t. ftp_put server_net l (dir @ CHR ''/'' # name) False (open_session 0) = Some (FTP_OK, t)
      \<and> sv_files (ft_world t) = [(dir @ ''/'' @ name, ''abc'')]"
  proof -
    obtain s t w where s: "ftp_put server_net l (dir @ CHR ''/'' # name) False (open_session 0)
          = put_tries server_net False abc 3 3 False (dir @ CHR ''/'' # name) s"
        "maybe_chdir server_net (dir @ CHR ''/'' # name) s = Some ((FTP_OK, name), t)"
        "at_server True dir tran_binary (w\<lparr>sv_cwd := dir\<rparr>) t" "sv_drops w = 0" "sv_files w = []"
      using start [of 0] by blast
    show ?thesis
      using put_stores [OF s(2,3) name, of "[]" dir 2 False] s(1,4,5)
      by (auto simp: ends_def numeral_2_eq_2 numeral_3_eq_3)
  qed
  show "\<exists>t. ftp_put server_net l (dir @ CHR ''/'' # name) False (open_session 1) = Some (FTP_OK, t)
      \<and> sv_files (ft_world t) = [(''/home/joe/'' @ name, ''abc'')]"
  proof -
    obtain s t w where s: "ftp_put server_net l (dir @ CHR ''/'' # name) False (open_session 1)
          = put_tries server_net False abc 3 3 False (dir @ CHR ''/'' # name) s"
        "maybe_chdir server_net (dir @ CHR ''/'' # name) s = Some ((FTP_OK, name), t)"
        "at_server True dir tran_binary (w\<lparr>sv_cwd := dir\<rparr>) t" "sv_drops w = 1" "sv_files w = []"
      using start [of 1] by blast
    have dr: "sv_drops (w\<lparr>sv_cwd := dir\<rparr>) = Suc 0" "sv_files (w\<lparr>sv_cwd := dir\<rparr>) = []" using s(4,5) by simp_all
    obtain c w' u where u: "put_tries server_net False abc 3 (Suc 2) False (dir @ CHR ''/'' # name) s
          = put_tries server_net False abc 3 2 True name u"
        "at_server False c tran_binary w' u" "sv_drops w' = 0" "sv_files w' = []"
      using put_lost [OF s(2,3) name dr] by blast
    have "ends (put_tries server_net False abc 3 (Suc 1) True name u)
        (\<lambda>r t. r = FTP_OK \<and> sv_files (ft_world t) = (''/home/joe'' @ ''/'' @ name, ''abc'') # [])"
      by (rule put_stores [OF maybe_chdir_relative [OF assms(2)] u(2) name u(3,4)]) (simp add: greeted_def)
    then show ?thesis using s(1) u(1) by (auto simp: ends_def numeral_2_eq_2 numeral_3_eq_3)
  qed
qed

section \<open>The contract of the network holds for this server\<close>

lemma server_final_replies: "final_replies server_net"
proof -
  have "run_command server_net cmd s \<noteq> Some (FTP_READY, t)"
    if "take 5 cmd \<in> {''TYPE '', ''PORT ''}" for cmd and s t :: "ftp_server ftp_session"
  proof (cases "ft_pisock s")
    case True
    have "take 4 (take 5 cmd) \<in> take 4 ` {''TYPE '', ''PORT ''}" using that by (rule imageI)
    then have "srv_code cmd = FTP_OK" by (auto simp: srv_code_def Let_def)
    then show ?thesis using run_server [OF True, of cmd] by (auto simp: ends_def)
  qed (simp add: run_command_def)
  then show ?thesis unfolding final_replies_def by blast
qed


lemma server_carries_anything: "carries server_net (\<lambda>x. anything)"
  unfolding carries_def using net_ok_anything [OF server_net_ok] server_final_replies by simp


text \<open>With the counter for \<^verbatim>\<open>NOOP\<close>.\<close>

abbreviation (input) noops :: "(ftp_server \<times> nat) net" where
  "noops \<equiv> counting server_net (snprintf 1024 ''NOOP'' @ CRLF)"

abbreviation (input) noop_session :: "(ftp_server \<times> nat) ftp_session" where
  "noop_session \<equiv> (ftp_init (ft_world (open_session 0), 0))\<lparr>ft_connected := True, ft_pisock := True\<rparr>"

lemma ftp_commands_end_witness:
  "(\<exists>ret t. execute noops ''NOOP'' noop_session = Some (ret, t) \<and> ret \<noteq> FTP_BROKEN
      \<and> idle t \<and> same_user noop_session t \<and> snd (ft_world t) \<le> 3)
    \<and> execute_with (ftp_open (ftp_depth + 1) noops) noops ''NOOP'' noop_session
      = execute noops ''NOOP'' noop_session"
proof -
  have "idle noop_session" by (simp add: ftp_ok_def)
  moreover have "counts_line noops (snprintf 1024 ''NOOP'' @ CRLF) snd"
    by (rule counting_counts) (simp add: login_line_def snprintf_def)
  moreover have "snd (ft_world noop_session) = 0" by (simp add: ftp_init_def)
  ultimately show ?thesis
    using ftp_commands_end [OF counting_net_ok [OF net_ok_anything [OF server_net_ok]], of noop_session
        "snprintf 1024 ''NOOP'' @ CRLF" "''NOOP''" 1]
    by fastforce
qed


lemma ftp_put_wrong_directory_witness:
  "(\<exists>t. ftp_put server_net ''a'' (''/www'' @ CHR ''/'' # ''a.html'') False (open_session 0) = Some (FTP_OK, t)
      \<and> sv_files (ft_world t) = [(''/www'' @ ''/'' @ ''a.html'', ''abc'')])
    \<and> (\<exists>t. ftp_put server_net ''a'' (''/www'' @ CHR ''/'' # ''a.html'') False (open_session 1) = Some (FTP_OK, t)
      \<and> sv_files (ft_world t) = [(''/home/joe/'' @ ''a.html'', ''abc'')])"
  by (rule ftp_put_wrong_directory [where d = "''www''"]) simp_all

text \<open>An update of the example site over this server.\<close>

definition ftp_example_run :: "ftp_server ftp_world run" where
  "ftp_example_run = \<lparr>r_site = rooted_example, r_world = No_session (ft_world (open_session 0)), r_log = []\<rparr>"

definition agreeing_os :: "'w os" where
  "agreeing_os = \<lparr>o_mkdir = (\<lambda>_ _ w. (None, w)), o_rmdir = (\<lambda>_ w. (None, w)),
     o_unlink = (\<lambda>_ w. (None, w)), o_rename = (\<lambda>_ _ w. (None, w)),
     o_chmod = (\<lambda>_ _ w. (None, w)), o_utime = (\<lambda>_ _ w. (None, w)),
     o_can_update = (\<lambda>_ w. (True, w))\<rparr>"

lemma ftp_update_never_crashes_witness:
  "\<exists>r' ret s. site_update (ftp_driver_ops server_net undefined) agreeing_os ftp_example_run = Some (r', ret)
    \<and> ready (r_site r') \<and> r_world r' = Session s \<and> idle s"
proof (rule ftp_update_never_crashes [OF server_carries_anything])
  show "ready (r_site ftp_example_run)"
    using example_run_ready by (simp add: example_run_def ftp_example_run_def)
  show "short_login (r_site ftp_example_run)"
    by (simp add: short_login_def ftp_example_run_def rooted_example_def example_site_def zero_site_def zero_host_def)
  show "r_world ftp_example_run = No_session (ft_world (open_session 0))" by (simp add: ftp_example_run_def)
  show "connected_world (snd (o_can_update agreeing_os f st))" if "connected_world st" for f st
    using that by (simp add: agreeing_os_def)
qed (simp add: ftp_example_run_def rooted_example_def example_site_def zero_site_def)

end
