(* ===== verification/Console_Text.thy ===== *)
theory Console_Text
  imports Site_Driver C_Number C_Text
begin

text \<open>
  What the console frontend, \<^verbatim>\<open>src/console_fe.c\<close>, prints and asks: the list of changes, the
  notifications of the driver interface, the question before each update and the answer.  The
  messages are the ones of the source, untranslated; \<open>progname\<close> is the name of the program.
\<close>

section \<open>The answer to a question\<close>

text \<open>\<open>rpmatch\<close> and \<open>yesno\<close> of \<^verbatim>\<open>lib\<close>: the answer is one line of the standard input.\<close>

definition rpmatch :: "string \<Rightarrow> int" where
  "rpmatch response =
     (case response of
        [] \<Rightarrow> - 1
      | c # _ \<Rightarrow> if c = CHR ''y'' \<or> c = CHR ''Y'' then 1
          else if c = CHR ''n'' \<or> c = CHR ''N'' then 0 else - 1)"

fun answer_buffer :: "string \<Rightarrow> string \<Rightarrow> string" where
  "answer_buffer [] buf = buf"
| "answer_buffer (c # cs) buf =
     answer_buffer cs (if length buf > 0 \<and> length buf < 127 \<or> length buf = 0 \<and> \<not> isspace c
                       then buf @ [c] else buf)"

definition yesno :: "string \<Rightarrow> bool \<times> string" where
  "yesno input =
     (rpmatch (c_string (answer_buffer (takeWhile (\<lambda>c. c \<noteq> NL) input) '''')) = 1,
      drop 1 (dropWhile (\<lambda>c. c \<noteq> NL) input))"

section \<open>Text\<close>

text \<open>\<^verbatim>\<open>%s\<close> of a pointer that may be NULL.\<close>

definition percent_s :: "string option \<Rightarrow> string" where
  "percent_s p = (case p of Some t \<Rightarrow> t | None \<Rightarrow> ''(null)'')"

definition quote_site :: "string \<Rightarrow> string" where
  "quote_site name = [CHR 0x60] @ name @ [CHR 0x27]"

definition nonblank :: "bool \<Rightarrow> string \<Rightarrow> string" where
  "nonblank b t = (if b then t else [])"

section \<open>The list of changes\<close>

text \<open>The names that one heading of \<open>list_site_changes\<close> is followed by.\<close>

fun comma_list :: "string list \<Rightarrow> string" where
  "comma_list [] = []"
| "comma_list [x] = x"
| "comma_list (x # y # zs) = x @ '', '' @ comma_list (y # zs)"

definition listed :: "file_diff \<Rightarrow> site \<Rightarrow> site_file list" where
  "listed d s = filter (\<lambda>f. sf_diff f = d) (map snd (s_files s))"

definition plain_item :: "site_file \<Rightarrow> string" where
  "plain_item f = nonblank (sf_type f = file_dir) ''dir:'' @ percent_s (file_name f)"

definition changed_item :: "site_file \<Rightarrow> string" where
  "changed_item f =
     nonblank (sf_ignore f) ''['' @ percent_s (file_name f) @ nonblank (sf_ignore f) '']''"

definition moved_item :: "site_file \<Rightarrow> string" where
  "moved_item f =
     percent_s (fs_filename (sf_stored f)) @ ''->'' @ percent_s (fs_filename (sf_local f))"

definition list_section :: "string \<Rightarrow> (site_file \<Rightarrow> string) \<Rightarrow> file_diff \<Rightarrow> site \<Rightarrow> string" where
  "list_section heading item d s =
     heading @ [NL] @ comma_list (map item (listed d s)) @ [NL]"

definition list_site_changes :: "site \<Rightarrow> string" where
  "list_site_changes s =
     nonblank (s_numnew s > 0)
       (list_section ''* These items have been added since the last update:'' plain_item file_new s)
     @ nonblank (s_numchanged s > 0 \<or> s_numignored s > 0)
       (list_section (''* These items have been changed since the last update:''
          @ nonblank (s_numignored s > 0)
              ([NL] @ ''  Changes to items in [brackets] are ignored during updates.''))
          changed_item file_changed s)
     @ nonblank (s_numdeleted s > 0)
       (list_section
          (if s_nodelete s then ''* These items have been deleted, but will be left on the server:''
           else ''* These items have been deleted since the last update:'')
          plain_item file_deleted s)
     @ nonblank (s_nummoved s > 0)
       (list_section ''* These items have been moved since the last update:'' moved_item file_moved s)"

section \<open>The site definitions\<close>

definition get_perms_mode :: "site \<Rightarrow> string" where
  "get_perms_mode s =
     (case s_perms s of
        sitep_ignore \<Rightarrow> ''Ignored''
      | sitep_exec \<Rightarrow> ''Maintained for executables''
      | sitep_all \<Rightarrow> ''Always maintained'')"

definition get_symlinks_mode :: "site \<Rightarrow> string" where
  "get_symlinks_mode s =
     (case s_symlinks s of
        sitesym_ignore \<Rightarrow> ''Ignored''
      | sitesym_maintain \<Rightarrow> ''Maintained''
      | sitesym_follow \<Rightarrow> ''Followed'')"

definition TAB :: string where "TAB = [CHR 0x09]"

definition site_definition :: "string \<Rightarrow> site \<Rightarrow> string" where
  "site_definition protoname s =
     ''Site: '' @ s_name s @ [NL] @ TAB @ ''Server: '' @ percent_s (h_hostname (s_server s))
     @ ''  Port: ''
     @ (if h_port (s_server s) = 0 then ''(default)'' else show_int (h_port (s_server s))) @ [NL]
     @ TAB @ ''Protocol: '' @ protoname @ ''    Username: ''
     @ (case h_username (s_server s) of Some u \<Rightarrow> u | None \<Rightarrow> ''(unspecified)'') @ [NL]
     @ nonblank (\<not> s_ftp_pasv_mode s) (TAB @ ''Passive mode FTP will not be used.'' @ [NL])
     @ TAB @ ''Remote directory: '' @ percent_s (s_remote_root_user s) @ [NL]
     @ TAB @ ''Local directory: '' @ percent_s (s_local_root_user s) @ [NL]
     @ TAB @ ''Permissions: '' @ get_perms_mode s @ ''     Symlinks: '' @ get_symlinks_mode s @ [NL]
     @ nonblank (s_nodelete s) (TAB @ ''Remote files will not be deleted.'' @ [NL])
     @ nonblank (s_checkmoved s) (TAB @ ''Files will be moved remotely if moved locally.'' @ [NL])"

section \<open>The notifications\<close>

definition contact_mntr :: string where
  "contact_mntr = ''You should never see this message.'' @ [NL]
     @ ''Please contact the maintainer at sitecopy@lyra.org'' @ [NL]"

definition impossible :: "string \<Rightarrow> string \<Rightarrow> string" where
  "impossible progname place = progname @ '': in '' @ place @ [NL] @ contact_mntr"

definition the_name :: "site_file \<Rightarrow> string" where "the_name f = percent_s (file_name f)"

definition updating_text :: "string \<Rightarrow> site_file \<Rightarrow> string" where
  "updating_text progname f =
     (case sf_type f of
        file_dir \<Rightarrow> (if sf_diff f = file_new then ''Creating '' else ''Deleting '') @ the_name f @ ''/: ''
      | file_file \<Rightarrow>
          (case sf_diff f of
             file_deleted \<Rightarrow> ''Deleting '' @ the_name f @ '': ''
           | file_moved \<Rightarrow> ''Moving '' @ moved_item f @ '': ''
           | file_unchanged \<Rightarrow> impossible progname ''fe_updating/file_file''
           | _ \<Rightarrow> ''Uploading '' @ the_name f @ '': ['')
      | file_link \<Rightarrow>
          (case sf_diff f of
             file_changed \<Rightarrow> ''Changing '' @ the_name f @ '': ''
           | file_new \<Rightarrow> ''Creating '' @ the_name f @ '': ''
           | file_deleted \<Rightarrow> ''Deleting '' @ the_name f @ '': ''
           | _ \<Rightarrow> impossible progname ''fe_updating/file_link''))"

text \<open>\<open>percent\<close> is the text of the share of the upload that is done, which the code computes with
  floats.\<close>

definition wrap_error :: "string option \<Rightarrow> string" where
  "wrap_error e =
     (if e \<noteq> None \<and> length (the e) < 30 then '' '' else [NL]) @ percent_s e @ [NL]"

definition updated_text :: "int \<Rightarrow> string option \<Rightarrow> site_file \<Rightarrow> bool \<Rightarrow> string option \<Rightarrow> string" where
  "updated_text quiet percent f success e =
     (if quiet > 0 then
        (if success then [] else ''Failed to update '' @ the_name f @ '':'' @ wrap_error e)
      else if sf_type f = file_dir \<or> sf_diff f \<noteq> file_changed \<and> sf_diff f \<noteq> file_new then
        (if success then ''done.'' @ [NL] else ''failed:'' @ wrap_error e)
      else if success then
        (case percent of
           Some p \<Rightarrow> ''] done. ('' @ p @ ''% finished)'' @ [NL] | None \<Rightarrow> ''] done.'' @ [NL])
      else ''] failed:'' @ wrap_error e)"

definition synching_text :: "site_file \<Rightarrow> string" where
  "synching_text f =
     (case sf_type f of
        file_dir \<Rightarrow> (if sf_diff f \<noteq> file_new then ''Creating '' else ''Deleting '') @ the_name f @ ''/: ''
      | file_file \<Rightarrow>
          (case sf_diff f of
             file_new \<Rightarrow> ''Deleting '' @ the_name f @ '': ''
           | file_moved \<Rightarrow> ''Moving '' @ percent_s (fs_filename (sf_local f)) @ ''->''
               @ percent_s (fs_filename (sf_stored f)) @ '': ''
           | file_unchanged \<Rightarrow> []
           | _ \<Rightarrow> ''Downloading '' @ the_name f @ '': ['')
      | file_link \<Rightarrow> [])"

definition synched_text :: "site_file \<Rightarrow> bool \<Rightarrow> string option \<Rightarrow> string" where
  "synched_text f success e =
     (let bracket = nonblank (\<not> (sf_type f = file_dir
        \<or> sf_diff f \<noteq> file_changed \<and> sf_diff f \<noteq> file_deleted)) ''] ''
      in bracket @ (if success then ''done.'' @ [NL] else ''failed:'' @ [NL] @ percent_s e @ [NL]))"

definition found_text :: "site_file \<Rightarrow> string" where
  "found_text f =
     (case sf_type f of
        file_dir \<Rightarrow> ''Directory: '' @ percent_s (fs_filename (sf_stored f)) @ ''/'' @ [NL]
      | file_file \<Rightarrow> ''File: '' @ percent_s (fs_filename (sf_stored f)) @ '' - size ''
          @ show_int (fs_size (sf_stored f)) @ nonblank (fs_ascii (sf_stored f)) '' (ASCII)'' @ [NL]
      | file_link \<Rightarrow> ''Link: '' @ percent_s (fs_filename (sf_stored f)) @ '' - target ''
          @ percent_s (fs_linktarget (sf_stored f)) @ [NL])"

definition verified_text :: "string \<Rightarrow> file_diff \<Rightarrow> string" where
  "verified_text name match =
     (case match of
        file_changed \<Rightarrow> ''Changed on server: '' @ name @ [NL]
      | file_new \<Rightarrow> ''Added on server: '' @ name @ [NL]
      | _ \<Rightarrow> [])"

fun fe_text :: "string \<Rightarrow> int \<Rightarrow> string option \<Rightarrow> fe_event \<Rightarrow> string" where
  "fe_text progname quiet percent (fe_updating f) =
     (if quiet \<noteq> 0 then nonblank (quiet = 1) (the_name f @ [NL]) else updating_text progname f)"
| "fe_text progname quiet percent (fe_updated f success e) = updated_text quiet percent f success e"
| "fe_text progname quiet percent (fe_setting_perms f) =
     nonblank (quiet = 0) (''Setting permissions on '' @ the_name f
       @ nonblank (sf_type f = file_dir) ''/'' @ '': '')"
| "fe_text progname quiet percent (fe_set_perms f success e) =
     nonblank (quiet = 0) (if success then ''done.'' @ [NL]
       else ''failed:'' @ [NL] @ percent_s e @ [NL])"
| "fe_text progname quiet percent (fe_synching f) =
     (if quiet \<noteq> 0 then the_name f @ [NL] else synching_text f)"
| "fe_text progname quiet percent (fe_synched f success e) =
     nonblank (quiet = 0) (synched_text f success e)"
| "fe_text progname quiet percent (fe_warning descr reason e) =
     progname @ '': Warning on '' @ quote_site reason @ '':'' @ [NL] @ descr @ '' - '' @ e @ [NL]"
| "fe_text progname quiet percent (fe_checksumming fname) =
     (if quiet = 0 then ''Checksumming '' @ fname @ '': [''
      else nonblank (quiet = 1) (fname @ [NL]))"
| "fe_text progname quiet percent (fe_checksummed fname success e) =
     nonblank (quiet = 0) (if success then ''] done.'' @ [NL]
       else ''] failed:'' @ [NL] @ percent_s e @ [NL])"
| "fe_text progname quiet percent (fe_fetch_found f) = found_text f"
| "fe_text progname quiet percent (fe_verified name match) = verified_text name match"

section \<open>The question before an update\<close>

definition can_update_text :: "string \<Rightarrow> site_file \<Rightarrow> string" where
  "can_update_text progname f =
     (case sf_type f of
        file_dir \<Rightarrow> (if sf_diff f = file_new then ''Create '' else ''Delete '') @ the_name f @ ''/''
      | file_file \<Rightarrow>
          (case sf_diff f of
             file_deleted \<Rightarrow> ''Delete '' @ the_name f
           | file_moved \<Rightarrow> ''Move '' @ percent_s (fs_filename (sf_stored f)) @ ''->'' @ the_name f
           | file_unchanged \<Rightarrow> impossible progname ''fe_can_update/file_file''
           | _ \<Rightarrow> ''Upload '' @ the_name f @ '' ('' @ show_int (fs_size (sf_local f)) @ '' bytes)'')
      | file_link \<Rightarrow>
          (case sf_diff f of
             file_changed \<Rightarrow> ''Change '' @ the_name f
           | file_new \<Rightarrow> ''Create '' @ the_name f
           | file_deleted \<Rightarrow> ''Remove '' @ the_name f
           | _ \<Rightarrow> impossible progname ''fe_can_update/file_link''))
     @ ''? (y/n) ''"

text \<open>The answer, what is left of the input, and what is printed.\<close>

definition fe_can_update :: "string \<Rightarrow> bool \<Rightarrow> site_file \<Rightarrow> string \<Rightarrow> bool \<times> string \<times> string" where
  "fe_can_update progname prompting f input =
     (if \<not> prompting then (True, input, [])
      else let (yes, input) = yesno input in (yes, input, can_update_text progname f))"

section \<open>The login\<close>

text \<open>
  \<open>fe_login\<close>: a user name is asked for unless one is there, the password always.  \<open>getpass\<close> is what the
  function of that name returns.  The result: the two buffers or nothing, the input left, the text.
\<close>

definition get_username :: "string \<Rightarrow> (string \<times> string) option" where
  "get_username input =
     (case fgets_lines FE_LBUFSIZ input of
        [] \<Rightarrow> None
      | line # _ \<Rightarrow> Some (cut_end [CHR 0x0D, NL, CHR '' ''] (c_string line), drop (length line) input))"

definition login_banner :: "bool \<Rightarrow> string option \<Rightarrow> string option \<Rightarrow> string" where
  "login_banner server realm hostname =
     (case realm of
        Some r \<Rightarrow> ''Authentication required for '' @ r @ '' on ''
      | None \<Rightarrow> ''Authentication required on '')
     @ (if server then ''server'' else ''proxy server'') @ '' '' @ quote_site (percent_s hostname)
     @ '':'' @ [NL]"

definition fe_login ::
    "bool \<Rightarrow> bool \<Rightarrow> string option \<Rightarrow> string option \<Rightarrow> string option \<Rightarrow> string \<Rightarrow> string
      \<Rightarrow> (string \<times> string) option \<times> string \<times> string" where
  "fe_login in_transfer server realm hostname getpass username input =
     (let banner = nonblank in_transfer '']'' @ login_banner server realm hostname;
          (name, input, shown) =
            (if username = [] then
               (case get_username input of
                  None \<Rightarrow> (None, input, ''Username: '' @ [NL] @ ''Authentication aborted!'' @ [NL])
                | Some (u, rest) \<Rightarrow> (Some u, rest, ''Username: ''))
             else (Some username, input, ''Username: '' @ username @ [NL]))
      in case (name, getpass) of
           (None, _) \<Rightarrow> (None, input, banner @ shown)
         | (Some u, None) \<Rightarrow> (None, input, banner @ shown)
         | (Some u, Some p) \<Rightarrow>
             (Some (u, take (FE_LBUFSIZ - 1) p), input,
              banner @ shown @ nonblank in_transfer ''Retrying: [''))"

section \<open>Certificates\<close>

text \<open>
  The questions about the certificate of a server and the password of a client certificate.  The
  identity, the fingerprint and the two names of the certificate, which neon gives, are arguments.
  The results: 0 is acceptance; the password is cut at the size of the buffer.
\<close>

definition fe_accept_cert ::
    "string option \<Rightarrow> string \<Rightarrow> string \<Rightarrow> string \<Rightarrow> string \<Rightarrow> int \<times> string \<times> string" where
  "fe_accept_cert ident fprint subject issuer input =
     (let (yes, input) = yesno input
      in (if yes then 0 else 1, input,
          ''WARNING: Server certificate is not trusted.'' @ [NL]
          @ (case ident of
               Some i \<Rightarrow> ''Certificate was issued for server '' @ quote_site i @ ''.'' @ [NL]
             | None \<Rightarrow> ''WARNING: Certificate does not specify a server'' @ [NL])
          @ ''Fingerprint: '' @ fprint @ [NL]
          @ ''Issued to: '' @ subject @ [NL]
          @ ''Issued by: '' @ issuer @ [NL]
          @ ''Do you wish to accept this certificate? (y/n) ''))"

definition fe_decrypt_clicert ::
    "string \<Rightarrow> string option \<Rightarrow> string option \<Rightarrow> (int \<times> string option) \<times> string" where
  "fe_decrypt_clicert progname name getpass =
     ((case getpass of None \<Rightarrow> (- 1, None) | Some p \<Rightarrow> (0, Some (take (FE_LBUFSIZ - 1) p))),
      progname @ '': Encrypted client certificate configured''
      @ (case name of Some n \<Rightarrow> '': '' @ n | None \<Rightarrow> []) @ ''.'' @ [NL])"

end
