(* ===== verification/Console.thy ===== *)
theory Console
  imports Console_Text Site_Update Site_Synch Site_Scan Site_Store Rcfile Rsh_Driver
begin

text \<open>
  The program \<^verbatim>\<open>sitecopy\<close>: \<^verbatim>\<open>src/console_fe.c\<close> from the command line to the exit status, on top of the
  modes of operation.  \<^verbatim>\<open>getopt_long\<close> gives the options one after the other; the environment, the
  local files, the drivers and the storage files are the parameter \<open>'w app\<close>, whose functions act on
  a world or look at it.  What is printed is a list of texts and notifications.
\<close>

section \<open>The modes of operation\<close>

datatype action = action_list | action_synch | action_fetch | action_update | action_verify
  | action_autoupdate | action_catchup | action_init | action_view | action_none

definition action_number :: "action \<Rightarrow> nat" where
  "action_number act =
     (case act of action_list \<Rightarrow> 0 | action_synch \<Rightarrow> 1 | action_fetch \<Rightarrow> 2 | action_update \<Rightarrow> 3
      | action_verify \<Rightarrow> 4 | action_autoupdate \<Rightarrow> 5 | action_catchup \<Rightarrow> 6 | action_init \<Rightarrow> 7
      | action_view \<Rightarrow> 8 | action_none \<Rightarrow> 9)"

definition A_LOCAL :: "32 word" where "A_LOCAL = 4"
definition A_STORED :: "32 word" where "A_STORED = 8"
definition A_COND_STORED :: "32 word" where "A_COND_STORED = or A_STORED 16"

record action_info =
  ai_verb :: "string option"
  ai_doing :: "string option"
  ai_subject :: "string option"
  ai_flags :: "32 word"

abbreviation row :: "string \<Rightarrow> string \<Rightarrow> string \<Rightarrow> 32 word \<Rightarrow> action_info" where
  "row v d s f \<equiv> \<lparr>ai_verb = Some v, ai_doing = Some d, ai_subject = Some s, ai_flags = f\<rparr>"

text \<open>The rows are in the order of the source, which is not the order of the enum: \<^verbatim>\<open>actions[act]\<close> for
  the verify mode is the row of the automatic update, and the other way round.\<close>

definition actions :: "action_info list" where
  "actions =
     [row ''Show changes to'' ''showing changes to'' ''local'' (or A_LOCAL A_STORED),
      row ''Synchronize'' ''synchronizing'' ''local'' (or A_LOCAL A_STORED),
      row ''Fetch'' ''fetching'' ''remote'' (or A_LOCAL A_COND_STORED),
      row ''Update'' ''updating'' ''remote'' (or A_LOCAL A_STORED),
      row ''Automatic Update'' ''updating'' ''remote'' (or A_LOCAL A_STORED),
      row ''Verify'' ''verifying'' ''remote'' A_STORED,
      row ''Catch up'' ''catching up'' ''stored'' A_LOCAL,
      row ''Initialize'' ''initializing'' ''stored'' 0,
      \<lparr>ai_verb = None, ai_doing = None, ai_subject = None, ai_flags = 0\<rparr>]"

definition act_info :: "action \<Rightarrow> action_info" where
  "act_info act = actions ! action_number act"

definition reads_local :: "action \<Rightarrow> bool" where
  "reads_local act \<longleftrightarrow> and (ai_flags (act_info act)) A_LOCAL \<noteq> 0"

definition reads_stored :: "action \<Rightarrow> bool" where
  "reads_stored act \<longleftrightarrow> and (ai_flags (act_info act)) A_STORED \<noteq> 0"

definition stored_optional :: "action \<Rightarrow> bool" where
  "stored_optional act \<longleftrightarrow> and (ai_flags (act_info act)) A_COND_STORED = A_COND_STORED"

section \<open>The command line\<close>

text \<open>The globals that the options set.  A result of \<^verbatim>\<open>getopt_long\<close> is an option with its argument,
  or one of the two long options that set \<^verbatim>\<open>quiet\<close> directly.\<close>

record options =
  op_action :: action
  op_quiet :: int
  op_allsites :: bool
  op_listflat :: bool
  op_firstlist :: bool
  op_show_progress :: bool
  op_prompting :: bool
  op_keepgoing :: bool
  op_dry_run :: bool
  op_rcfile :: "string option"
  op_copypath :: "string option"
  op_debug :: int
  op_sitenames :: "string list"

definition no_options :: options where
  "no_options = \<lparr>op_action = action_none, op_quiet = 0, op_allsites = False, op_listflat = False,
     op_firstlist = False, op_show_progress = False, op_prompting = False, op_keepgoing = False,
     op_dry_run = False, op_rcfile = None, op_copypath = None, op_debug = 0, op_sitenames = []\<rparr>"

datatype getopt_result = Opt char string | Set_quiet int

text \<open>What is printed: texts, notifications (\<^const>\<open>fe_text\<close> of theory Console_Text gives their text), the
  warnings of the scan of the local tree, which carry the error string of the system, and the two
  fixed texts.\<close>

datatype console_text = Say string | Event fe_event | Warned string string | Usage | Version

definition line :: "string \<Rightarrow> string \<Rightarrow> console_text" where
  "line progname t = Say (progname @ '': '' @ t @ [NL])"

definition contact :: "string \<Rightarrow> string \<Rightarrow> console_text" where
  "contact progname place = Say (impossible progname place)"

definition try_help :: "string \<Rightarrow> console_text" where
  "try_help progname =
     Say (''Try '' @ quote_site (progname @ '' --help'') @ '' for more information.'' @ [NL])"

definition MAXSITES :: nat where "MAXSITES = 20"

definition set_action :: "string \<Rightarrow> action \<Rightarrow> options \<Rightarrow> (int \<times> console_text list) + options" where
  "set_action progname newact gl =
     (if op_action gl \<noteq> action_none
      then Inl (- 1, [line progname ''Error: Only specify ONE operation mode at a time.'',
             try_help progname])
      else Inr (gl\<lparr>op_action := newact\<rparr>))"

definition debug_map :: "(string \<times> int) list" where
  "debug_map = [(''socket'', 1), (''files'', 1024), (''rcfile'', 2048), (''ftp'', 4096), (''xml'', 4),
     (''xmlparse'', 64), (''http'', 2), (''httpauth'', 8), (''httpbody'', 128), (''cleartext'', 16),
     (''ssl'', 256), (''rsh'', 16384), (''sftp'', 32768)]"

text \<open>\<open>map_debug_options\<close> of \<^verbatim>\<open>src/common.c\<close>: the bits, or what fits of the unknown name.\<close>

function map_debug_loop :: "string option \<Rightarrow> int \<Rightarrow> string + int" where
  "map_debug_loop None bits = Inr bits"
| "map_debug_loop (Some ptr) bits =
     (let (token, rest) = ne_token ptr CHR '',''; token = ne_shave token '' '' in
      case find (\<lambda>(name, val). strcasecmp_eq token name) debug_map of
        None \<Rightarrow> Inl (take 19 token)
      | Some (name, val) \<Rightarrow> map_debug_loop rest (or bits val))"
  by pat_completeness auto
termination
  by (relation "measure (\<lambda>(p, m). case p of None \<Rightarrow> 0 | Some t \<Rightarrow> Suc (length t))")
    (auto simp: ne_token_def dropWhile_eq_Nil_conv le_imp_less_Suc length_dropWhile_le
      split: if_splits)

definition map_debug_options :: "string \<Rightarrow> string + int" where
  "map_debug_options names = map_debug_loop (Some names) 0"

text \<open>One option.  The test of \<^verbatim>\<open>optarg[strlen(optarg)]\<close> for a slash looks at the NUL.\<close>

definition one_option :: "string \<Rightarrow> char \<Rightarrow> string \<Rightarrow> options \<Rightarrow> (int \<times> console_text list) + options" where
  "one_option progname optc optarg gl =
     (let modes = [(CHR ''s'', action_synch), (CHR ''e'', action_verify), (CHR ''f'', action_fetch),
        (CHR ''i'', action_init), (CHR ''c'', action_catchup), (CHR ''u'', action_update),
        (CHR ''U'', action_autoupdate), (CHR ''v'', action_view)] in
      case map_of modes optc of
        Some act \<Rightarrow> set_action progname act gl
      | None \<Rightarrow>
          if optc = CHR ''Z'' then set_action progname action_list (gl\<lparr>op_listflat := True\<rparr>)
          else if optc = CHR ''l'' then
            (if \<not> op_firstlist gl
             then map_sum id (\<lambda>gl. gl\<lparr>op_firstlist := True\<rparr>) (set_action progname action_list gl)
             else Inr (gl\<lparr>op_listflat := True\<rparr>))
          else if optc = CHR ''q'' then Inr (gl\<lparr>op_quiet := op_quiet gl + 1\<rparr>)
          else if optc = CHR ''r'' then
            (if optarg \<noteq> [] then Inr (gl\<lparr>op_rcfile := Some optarg\<rparr>) else Inl (- 1, [Usage]))
          else if optc = CHR ''p'' then
            (if optarg \<noteq> []
             then Inr (gl\<lparr>op_copypath := Some (if (optarg @ [NULc]) ! length optarg \<noteq> CHR ''/''
                                            then optarg @ ''/'' else optarg)\<rparr>)
             else Inl (- 1, [Usage]))
          else if optc = CHR ''d'' then
            (case map_debug_options optarg of
               Inl name \<Rightarrow> Inl (- 1, [line progname (''Error: Debug channel '' @ name @ '' not known.'')])
             | Inr bits \<Rightarrow> Inr (gl\<lparr>op_debug := bits\<rparr>))
          else if optc = CHR ''g'' then Inr gl
          else if optc = CHR ''y'' then Inr (gl\<lparr>op_prompting := True\<rparr>)
          else if optc = CHR ''k'' then Inr (gl\<lparr>op_keepgoing := True\<rparr>)
          else if optc = CHR ''a'' then Inr (gl\<lparr>op_allsites := True\<rparr>)
          else if optc = CHR ''n'' then Inr (gl\<lparr>op_dry_run := True\<rparr>)
          else if optc = CHR ''o'' then Inr (gl\<lparr>op_show_progress := True\<rparr>)
          else if optc = CHR ''V'' then Inl (- 1, [Version])
          else if optc = CHR ''h'' then Inl (- 1, [Usage])
          else Inl (1, [try_help progname]))"

fun parse_options ::
    "string \<Rightarrow> getopt_result list \<Rightarrow> options \<Rightarrow> (int \<times> console_text list) + options" where
  "parse_options progname [] gl = Inr gl"
| "parse_options progname (Set_quiet n # rest) gl =
     (let gl = gl\<lparr>op_quiet := n\<rparr>
      in parse_options progname rest (if op_listflat gl then gl\<lparr>op_action := action_list\<rparr> else gl))"
| "parse_options progname (Opt optc optarg # rest) gl =
     (case one_option progname optc optarg gl of
        Inl e \<Rightarrow> Inl e
      | Inr gl \<Rightarrow> parse_options progname rest gl)"

text \<open>\<open>args\<close>: what \<^verbatim>\<open>getopt_long\<close> leaves at the end of \<^verbatim>\<open>argv\<close>.\<close>

definition parse_cmdline ::
    "string \<Rightarrow> getopt_result list \<Rightarrow> string list \<Rightarrow> (int \<times> console_text list) + options \<times> console_text list" where
  "parse_cmdline argv0 results args =
     (let progname = base_name argv0 in
      case parse_options progname results no_options of
        Inl e \<Rightarrow> Inl e
      | Inr gl \<Rightarrow>
          (let gl = (if op_action gl = action_none then gl\<lparr>op_action := action_list\<rparr> else gl) in
           if op_dry_run gl \<and> op_action gl \<noteq> action_update
           then Inl (1, [line progname ''Error: Dry run mode is currently only supported for updates.''])
           else Inr (gl\<lparr>op_sitenames := take MAXSITES args\<rparr>,
                  if length args \<ge> MAXSITES
                  then [line progname (''Warning: Only '' @ show_nat MAXSITES
                    @ '' sites can be specified on the command line!'' @ [NL]
                    @ ''Extra entries are being skipped.'')] else [])))"

section \<open>What the program runs on\<close>

text \<open>
  \<open>ap_info\<close> is the storage file of that name; \<open>ap_open_info\<close> truncates it, \<open>ap_write_info\<close> writes
  the text and closes it.  \<open>ap_modes\<close> is \<^verbatim>\<open>stat\<close>.  The user answers on \<open>ap_input\<close>.  \<open>ap_time\<close> and
  \<open>ap_now\<close> are \<^verbatim>\<open>time\<close>.
\<close>

record 'w app =
  ap_home :: "string option"
  ap_modes :: "string \<Rightarrow> mode_t option"
  ap_netrc :: "string option \<Rightarrow> string option"
  ap_rcfile :: "string \<Rightarrow> string + string"
  ap_fuel :: nat
  ap_fsys :: "'w \<Rightarrow> fsys"
  ap_fnm :: matcher
  ap_md5 :: "string \<Rightarrow> char list"
  ap_now :: int
  ap_time :: "'w \<Rightarrow> int"
  ap_driver :: "driver_name \<Rightarrow> 'w proto_driver"
  ap_os :: "'w os"
  ap_input :: "'w \<Rightarrow> string"
  ap_set_input :: "string \<Rightarrow> 'w \<Rightarrow> 'w"
  ap_parser :: xml_parser
  ap_msg :: "store_error \<Rightarrow> string"
  ap_saved_by :: "string \<times> string"
  ap_info :: "string \<Rightarrow> 'w \<Rightarrow> info_file"
  ap_open_info :: "string \<Rightarrow> 'w \<Rightarrow> string option \<times> 'w"
  ap_write_info :: "string \<Rightarrow> string \<Rightarrow> 'w \<Rightarrow> int \<times> 'w"

text \<open>A walk that does not end within the fuel has no result here.\<close>

definition within :: "(unit + 'a) option \<Rightarrow> 'a option" where
  "within r = (case r of Some (Inr x) \<Rightarrow> Some x | _ \<Rightarrow> None)"

definition console_os :: "string \<Rightarrow> 'w app \<Rightarrow> options \<Rightarrow> 'w os" where
  "console_os progname A gl = (ap_os A)\<lparr>o_can_update := (\<lambda>f w.
     let (yes, input, asked) = fe_can_update progname (op_prompting gl) f (ap_input A w)
     in (yes, if op_prompting gl then ap_set_input A input w else w))\<rparr>"

section \<open>The storage file\<close>

definition site_open_storage_file :: "'w app \<Rightarrow> 'w run \<Rightarrow> string option \<times> 'w run" where
  "site_open_storage_file A r =
     (if s_storage_file (r_site r) then (None, r)
      else let (e, r) = call (ap_open_info A (s_infofile (r_site r))) r
           in (e, if e = None then r\<lparr>r_site := (r_site r)\<lparr>s_storage_file := True\<rparr>\<rparr> else r))"

definition save_stored_state :: "'w app \<Rightarrow> 'w run \<Rightarrow> (int \<times> 'w run) option" where
  "save_stored_state A r =
     (let (e, r) = site_open_storage_file A r in
      if e \<noteq> None then Some (- 1, r)
      else do { (text, s) \<leftarrow> site_write_stored_state (ap_saved_by A) (r_site r);
                let (ret, r) = call (ap_write_info A (s_infofile s) text) (r\<lparr>r_site := s\<rparr>);
                Some (ret, r\<lparr>r_site := (r_site r)\<lparr>s_storage_file := False\<rparr>\<rparr>) })"

section \<open>Checking the sites\<close>

abbreviation (input) SITE_INVALIDPORT :: int where "SITE_INVALIDPORT \<equiv> 927"

text \<open>What \<open>verify_sites\<close> prints for a code of \<open>rcfile_verify\<close>.\<close>

definition verify_complaint :: "string \<Rightarrow> string \<Rightarrow> int \<Rightarrow> site \<Rightarrow> console_text" where
  "verify_complaint progname protoname ret s =
     (let quoted = quote_site (s_name s); site_part = '' (site '' @ quoted @ '').'' in
      if ret = SITE_ACCESSLOCALDIR then
        line progname (''Could not read directory for '' @ quoted @ '':'' @ [NL] @ TAB
          @ percent_s (s_local_root s))
      else if ret = SITE_NOSERVER then
        line progname (''Server not specified in site '' @ quoted @ ''.'')
      else if ret = SITE_NOREMOTEDIR then
        line progname (''Remote directory not specified in site '' @ quoted @ ''.'')
      else if ret = SITE_NOLOCALDIR then
        line progname (''Local directory not specified in site '' @ quoted @ ''.'')
      else if ret = SITE_INVALIDPORT then
        line progname (''Invalid port used in site '' @ quoted @ ''.'')
      else if ret = SITE_NOMAINTAIN then
        line progname (protoname @ '' cannot maintain symbolic links'' @ site_part)
      else if ret = SITE_NOREMOTEREL then
        line progname (''Cannot use a relative remote directory in '' @ protoname @ site_part)
      else if ret = SITE_NOPERMS then
        line progname (''File permissions are not supported in '' @ protoname @ site_part)
      else if ret = SITE_NOSAFEOVER then
        line progname (''Safe mode cannot be used in conjunction with nooverwrite'' @ site_part)
      else if ret = SITE_NOSAFETEMPUP then
        line progname (''Safe mode cannot be used in conjunction with tempupload'' @ site_part)
      else if ret = SITE_NORENAMES then
        line progname (''Can only check for renamed files when checksumming'' @ site_part)
      else if ret = SITE_UNSUPPORTED then
        line progname (''The protocol '' @ quote_site (s_proto_string s) @ '' is unsupported'' @ site_part)
      else
        line progname (''Unhandled error '' @ show_int ret @ '' in site '' @ quoted
          @ '' - please contact the maintainer.''))"

definition protoname :: "'w app \<Rightarrow> site \<Rightarrow> string" where
  "protoname A s = site_get_protoname (ap_driver A) s"

definition read_local :: "'w app \<Rightarrow> action \<Rightarrow> 'w \<Rightarrow> site \<Rightarrow> (site \<times> console_text list) option" where
  "read_local A act w s =
     (if reads_local act
      then do { (s, log) \<leftarrow> within (site_read_local_state (ap_fuel A) (ap_fsys A w) (ap_fnm A) s);
                Some (s, map (\<lambda>(descr, reason). Warned descr reason) log) }
      else Some (s, []))"

text \<open>The site, whether it is still okay, and what is printed.\<close>

definition read_stored ::
    "'w app \<Rightarrow> string \<Rightarrow> action \<Rightarrow> 'w \<Rightarrow> site \<Rightarrow> (site \<times> bool \<times> console_text list) option" where
  "read_stored A progname act w s =
     (if reads_stored act
      then do { (ret, s) \<leftarrow> site_read_stored_state (ap_parser A) (ap_msg A) (ap_fnm A)
                              (ap_info A (s_infofile s) w) s;
                Some (if ret = SITE_ERRORS then
                        (s, False, [line progname (''Error: Corrupt site storage file for ''
                          @ quote_site (s_name s) @ '':'' @ [NL] @ progname @ '': ''
                          @ percent_s (s_last_error s))])
                      else if ret = SITE_FAILED \<and> \<not> stored_optional act then
                        (s, False, [line progname (''Error: No storage file for ''
                          @ quote_site (s_name s) @ ''.''),
                          line progname ''Use --init, --catchup or --fetch to create a storage file.''])
                      else (s, True, [])) }
      else Some (s, True, []))"

definition verify_site ::
    "'w app \<Rightarrow> rc_env \<Rightarrow> string \<Rightarrow> action \<Rightarrow> 'w \<Rightarrow> site \<Rightarrow> (site \<times> bool \<times> console_text list) option"
where
  "verify_site A e progname act w s =
     do { (ret, s) \<leftarrow> rcfile_verify e s;
          (s, isokay, texts) \<leftarrow>
            (if ret \<noteq> 0 then Some (s, False, [verify_complaint progname (protoname A s) ret s])
             else do { (s, warned) \<leftarrow> read_local A act w s;
                       (s, isokay, said) \<leftarrow> read_stored A progname act w s;
                       Some (s, isokay, warned @ said) });
          Some (if isokay then (s, True, texts)
                else (s\<lparr>s_use_this := False\<rparr>, False,
                      texts @ [line progname (''Skipping site '' @ quote_site (s_name s) @ ''.'')])) }"

fun verify_sites ::
    "'w app \<Rightarrow> rc_env \<Rightarrow> string \<Rightarrow> bool \<Rightarrow> action \<Rightarrow> 'w \<Rightarrow> site list
      \<Rightarrow> (nat \<times> site list \<times> console_text list) option" where
  "verify_sites A e progname allsites act w [] = Some (0, [], [])"
| "verify_sites A e progname allsites act w (current # rest) =
     (if \<not> s_use_this current \<and> \<not> allsites
      then do { (n, rest, texts) \<leftarrow> verify_sites A e progname allsites act w rest;
                Some (n, current # rest, texts) }
      else do { (current, isokay, said) \<leftarrow> verify_site A e progname act w current;
                (n, rest, texts) \<leftarrow> verify_sites A e progname allsites act w rest;
                Some (if isokay then Suc n else n, current # rest, said @ texts) })"

end
