(* ===== verification/Console_Main.thy ===== *)
theory Console_Main
  imports Console
begin

text \<open>
  \<open>act_on_site\<close>, \<open>main\<close> and \<open>init\<close> of \<^verbatim>\<open>src/console_fe.c\<close>: one mode of operation on each site, and the
  program from its command line to its exit status.  The result \<^const>\<open>None\<close> is a crash, or a walk
  over a tree that does not end within the fuel.
\<close>

section \<open>One site\<close>

definition host_and_port :: "site_host \<Rightarrow> string" where
  "host_and_port h = percent_s (h_hostname h) @ '' port '' @ show_int (h_port h)"

text \<open>The exit status and the message for the result of a mode.\<close>

definition issue_error ::
    "string \<Rightarrow> int \<Rightarrow> string \<Rightarrow> site \<Rightarrow> action \<Rightarrow> int \<Rightarrow> int \<times> console_text list" where
  "issue_error progname quiet proto s actno error =
     (let act = act_info actno in
      if error = SITE_OK then
        (0, if quiet = 0 then [line progname (percent_s (ai_verb act) @ '' completed successfully.'')]
            else [])
      else if error = SITE_UNSUPPORTED then
        (4, [line progname (percent_s (ai_verb act) @ '' unsupported for '' @ proto @ ''.'')])
      else if error = SITE_ERRORS then
        (1, [line progname (''Errors occurred while '' @ percent_s (ai_doing act) @ '' the ''
          @ percent_s (ai_subject act) @ '' site.'')])
      else if error = SITE_LOOKUP then
        (2, [line progname (''Error: Could not resolve remote hostname ('' @
          percent_s (h_hostname (s_server s)) @ '').'')])
      else if error = SITE_PROXYLOOKUP then
        (2, [line progname (''Error: Could not resolve hostname of proxy server ('' @
          percent_s (h_hostname (s_proxy s)) @ '').'')])
      else if error = SITE_CONNECT then
        (2, [line progname
          (if h_hostname (s_proxy s) \<noteq> None
           then ''Error: Could not connect to proxy server ('' @ host_and_port (s_proxy s) @ '').''
           else ''Error: Could not connect to server ('' @ host_and_port (s_server s) @ '').'')])
      else if error = SITE_AUTH then
        (2, [line progname ''Error: Could not authorise user on server.''])
      else if error = SITE_FAILED then
        (2, [line progname (''Error: '' @ percent_s (s_last_error s))])
      else if error = SITE_PROXYAUTH then
        (2, [line progname (''Error: Could not authorise user on proxy server ('' @
          percent_s (h_hostname (s_proxy s)) @ '').'')])
      else (5, [contact progname ''issue_error'']))"

definition start_run :: "site \<Rightarrow> 'w \<Rightarrow> 'w run" where
  "start_run s w = \<lparr>r_site = s, r_world = w, r_log = []\<rparr>"

text \<open>What a mode gives: the exit status, the site, the world and what is printed.\<close>

type_synonym 'w acted = "int \<times> site \<times> 'w \<times> console_text list"

definition ended :: "'w run \<Rightarrow> int \<times> console_text list \<Rightarrow> 'w acted" where
  "ended r res = (fst res, r_site r, r_world r, map Event (r_log r) @ snd res)"

definition issue ::
    "'w app \<Rightarrow> string \<Rightarrow> options \<Rightarrow> action \<Rightarrow> int \<Rightarrow> 'w run \<Rightarrow> int \<times> console_text list" where
  "issue A progname gl act ret r =
     issue_error progname (op_quiet gl) (protoname A (r_site r)) (r_site r) act ret"

definition act_update :: "'w app \<Rightarrow> string \<Rightarrow> options \<Rightarrow> site \<Rightarrow> 'w \<Rightarrow> 'w acted option" where
  "act_update A progname gl s w =
     (if \<not> s_remote_is_different s then
        Some (0, s, w, if op_quiet gl = 0 then [line progname ''Nothing to do - no changes found.'']
                       else [])
      else if op_dry_run gl then
        do { (r, ret) \<leftarrow> site_update (null_driver_ops (ap_time A)) (console_os progname A gl)
                (start_run (s\<lparr>s_driver := Some null_driver\<rparr>) w);
             Some (ended r (issue A progname gl action_update ret r)) }
      else let (e, r) = site_open_storage_file A (start_run s w) in
        (case e of
           Some strerror \<Rightarrow>
             Some (- 1, r_site r, r_world r,
               [line progname (''Error: Could not open storage file for writing ('' @ s_infofile s @ '')''),
                line progname (''Error: '' @ strerror),
                line progname (''Will not update site '' @ quote_site (s_name s) @ ''.'')])
         | None \<Rightarrow>
             do { d \<leftarrow> s_driver (r_site r);
                  (r, ret) \<leftarrow> site_update (ap_driver A d) (console_os progname A gl) r;
                  (failed, r') \<leftarrow> save_stored_state A r;
                  Some (ended r' (issue A progname gl action_update ret r)) }))"

text \<open>The walk prints a line for each directory it pushes.\<close>

definition act_autoupdate :: "'w app \<Rightarrow> string \<Rightarrow> options \<Rightarrow> site \<Rightarrow> 'w \<Rightarrow> 'w acted option" where
  "act_autoupdate A progname gl s w =
     do { (r, ret, printed) \<leftarrow> within (site_autoupdate (ap_fuel A) (ap_fsys A w) (ap_fnm A)
            (null_driver_ops (ap_time A)) (start_run (s\<lparr>s_driver := Some null_driver\<rparr>) w));
          let (status, texts) = issue A progname gl action_autoupdate ret r;
          Some (ended r (status, line progname ''Testing autoupdate.''
            # map (\<lambda>d. Say (''Adding '' @ d @ '' to dirstack.'' @ [NL])) printed @ texts)) }"

definition act_list :: "string \<Rightarrow> options \<Rightarrow> site \<Rightarrow> (int \<times> console_text list) option" where
  "act_list progname gl s =
     do { texts \<leftarrow>
            (if op_listflat gl then do { t \<leftarrow> site_flatlist s; Some [Say t] }
             else let n = s_numchanged s + s_numdeleted s + s_nummoved s + s_numnew s in
               Some ([Say (list_site_changes s)]
                 @ (if s_state_method s \<noteq> s_stored_state_method s
                    then [line progname (''Warning: Current state method differs from stored in site ''
                            @ quote_site (s_name s) @ ''.''),
                          line progname ''All existing files will appear changed (use catchup?).'']
                    else [])
                 @ [line progname
                      (if \<not> s_remote_is_different s then ''The remote site does not need updating.''
                       else if n > 1 then
                         ''The remote site needs updating ('' @ show_int n @ '' items to update).''
                       else ''The remote site needs updating (1 item to update).'')]));
          Some (if s_remote_is_different s then 1 else 0, texts) }"

text \<open>Changing the stored states and writing them: initialise and catch up.\<close>

definition act_stored ::
    "'w app \<Rightarrow> (site \<Rightarrow> site option) \<Rightarrow> console_text \<Rightarrow> site \<Rightarrow> 'w \<Rightarrow> 'w acted option" where
  "act_stored A change said s w =
     do { s \<leftarrow> change s;
          (failed, r) \<leftarrow> save_stored_state A (start_run s w);
          Some (ended r (0, [said])) }"

definition act_fetch :: "'w app \<Rightarrow> string \<Rightarrow> options \<Rightarrow> site \<Rightarrow> 'w \<Rightarrow> 'w acted option" where
  "act_fetch A progname gl s w =
     do { d \<leftarrow> s_driver s;
          (r, ret) \<leftarrow> within (site_fetch (ap_fuel A) (ap_driver A d) (ap_fnm A) (ap_md5 A) (ap_now A)
                        (start_run s w));
          (failed, r) \<leftarrow> (if ret = SITE_OK then save_stored_state A r else Some (0, r));
          Some (if ret = SITE_FAILED then
                  ended r (- 1, [line progname (''Failed to fetch file listing for site ''
                      @ quote_site (s_name s) @ '':''),
                    line progname (percent_s (s_last_error (r_site r)))])
                else ended r (issue A progname gl action_fetch ret r)) }"

definition act_verify :: "'w app \<Rightarrow> string \<Rightarrow> options \<Rightarrow> site \<Rightarrow> 'w \<Rightarrow> 'w acted option" where
  "act_verify A progname gl s w =
     do { d \<leftarrow> s_driver s;
          (r, ret, verify_removed) \<leftarrow> site_verify (ap_driver A d) (start_run s w);
          if ret = SITE_FAILED then
            Some (ended r (- 1, [line progname (''Failed to fetch file listing to verify site ''
                @ quote_site (s_name s) @ '':''),
              line progname (percent_s (s_last_error (r_site r)))]))
          else if ret = SITE_ERRORS then
            do { n \<leftarrow> verify_removed;
                 Some (ended r (ret,
                   (if n > 0 then [line progname (''Verify found '' @ show_int n
                      @ '' files missing from server.'')] else [])
                   @ [line progname ''Remote site not synchronized with stored state.''])) }
          else Some (ended r (issue A progname gl action_verify ret r)) }"

definition act_synch :: "'w app \<Rightarrow> string \<Rightarrow> options \<Rightarrow> site \<Rightarrow> 'w \<Rightarrow> 'w acted option" where
  "act_synch A progname gl s w =
     (if \<not> s_local_is_different s then
        Some (0, s, w, [line progname ''Nothing to do - no changes found.''])
      else if s_numunchanged s = 0 \<and> s_numdeleted s = 0 \<and> s_nummoved s = 0 \<and> s_numchanged s = 0
          \<and> s_numignored s = 0 then
        Some (0, s, w,
          [line progname ''Refusing to delete all local files with a synchronize operation.'',
           line progname ''Use --update to update the remote site.''])
      else do { d \<leftarrow> s_driver s;
                (r, ret) \<leftarrow> site_synch (ap_driver A d) (console_os progname A gl) (start_run s w);
                Some (ended r (issue A progname gl action_synch ret r)) })"

definition act_on_site ::
    "'w app \<Rightarrow> string \<Rightarrow> options \<Rightarrow> action \<Rightarrow> site \<Rightarrow> 'w \<Rightarrow> 'w acted option" where
  "act_on_site A progname gl act s w =
     (let s = s\<lparr>s_keep_going := op_keepgoing gl\<rparr> in
      case act of
        action_update \<Rightarrow> act_update A progname gl s w
      | action_autoupdate \<Rightarrow> act_autoupdate A progname gl s w
      | action_list \<Rightarrow> do { (ret, texts) \<leftarrow> act_list progname gl s; Some (ret, s, w, texts) }
      | action_init \<Rightarrow> act_stored A site_initialize (line progname
          ''All the files and directories are marked as NOT updated remotely.'') s w
      | action_catchup \<Rightarrow> act_stored A site_catchup (line progname
          ''All the files and and directories are marked as updated remotely.'') s w
      | action_fetch \<Rightarrow> act_fetch A progname gl s w
      | action_verify \<Rightarrow> act_verify A progname gl s w
      | action_synch \<Rightarrow> act_synch A progname gl s w
      | _ \<Rightarrow> Some (- 1, s, w, [contact progname ''act_on_site'']))"

section \<open>All sites\<close>

definition toupper :: "char \<Rightarrow> char" where
  "toupper c = (if islower c then char_of (code c - 32) else c)"

definition capital :: "string \<Rightarrow> string" where
  "capital t = (case t of [] \<Rightarrow> [] | c # r \<Rightarrow> toupper c # r)"

definition banner :: "string \<Rightarrow> action \<Rightarrow> site \<Rightarrow> console_text" where
  "banner progname act s =
     line progname (capital (percent_s (ai_doing (act_info act))) @ '' site '' @ quote_site (s_name s)
       @ '' (on '' @ percent_s (h_hostname (s_server s)) @ '' in ''
       @ percent_s (s_remote_root_user s) @ '')'')"

text \<open>\<open>ret\<close> is the status of the last site that was acted on.\<close>

fun act_sites ::
    "'w app \<Rightarrow> string \<Rightarrow> options \<Rightarrow> action \<Rightarrow> site list \<Rightarrow> int \<Rightarrow> 'w
      \<Rightarrow> (int \<times> 'w \<times> console_text list) option" where
  "act_sites A progname gl act [] ret w = Some (ret, w, [])"
| "act_sites A progname gl act (current # rest) ret w =
     (if s_use_this current \<or> op_allsites gl
      then do { (ret, s, w, texts) \<leftarrow> act_on_site A progname gl act current w;
                (ret, w, more) \<leftarrow> act_sites A progname gl act rest ret w;
                Some (ret, w,
                  (if \<not> op_listflat gl \<and> op_quiet gl = 0 then [banner progname act current] else [])
                  @ texts @ more) }
      else act_sites A progname gl act rest ret w)"

fun mark_site :: "string \<Rightarrow> site list \<Rightarrow> site list" where
  "mark_site name [] = []"
| "mark_site name (current # rest) =
     (if s_name current = name then current\<lparr>s_use_this := True\<rparr> # rest
      else current # mark_site name rest)"

fun mark_sites :: "string \<Rightarrow> string list \<Rightarrow> site list \<Rightarrow> site list \<times> console_text list" where
  "mark_sites progname [] all_sites = (all_sites, [])"
| "mark_sites progname (name # names) all_sites =
     (case site_find name all_sites of
        None \<Rightarrow> (let (sites, texts) = mark_sites progname names all_sites
                  in (sites, line progname (''Error: No site called '' @ quote_site name
                        @ '' found - skipping.'') # texts))
      | Some s \<Rightarrow> mark_sites progname names (mark_site name all_sites))"

definition list_site_definitions :: "'w app \<Rightarrow> bool \<Rightarrow> site list \<Rightarrow> console_text list" where
  "list_site_definitions A allsites sites =
     map (\<lambda>s. Say (site_definition (protoname A s) s))
       (filter (\<lambda>s. s_use_this s \<or> allsites) sites)"

text \<open>\<open>main\<close> after \<open>init\<close>.\<close>

definition main_sites ::
    "'w app \<Rightarrow> rc_env \<Rightarrow> string \<Rightarrow> options \<Rightarrow> site list \<Rightarrow> 'w
      \<Rightarrow> (int \<times> 'w \<times> console_text list) option" where
  "main_sites A e progname gl all_sites w =
     (let act = op_action gl; names = op_sitenames gl;
          gl = (if names = [] \<and> act = action_view then gl\<lparr>op_allsites := True\<rparr> else gl);
          (sites, skipped) = (if op_allsites gl then (all_sites, [])
                              else mark_sites progname names all_sites)
      in do { (numgoodsites, sites, checked) \<leftarrow>
                verify_sites A e progname (op_allsites gl) act w sites;
              if act = action_view then
                Some (0, w, skipped @ checked @ list_site_definitions A (op_allsites gl) sites)
              else if numgoodsites = 0 then
                Some (- 1, w, skipped @ checked
                  @ [line progname (if names \<noteq> [] then ''No valid sites specified.''
                       else ''No sites specified.''), try_help progname])
              else do { (ret, w, texts) \<leftarrow> act_sites A progname gl act sites 0 w;
                        Some (ret, w, skipped @ checked @ texts) } })"

section \<open>The start of the program\<close>

text \<open>The messages for the result of \<open>init_paths\<close>.\<close>

definition paths_complaint :: "string \<Rightarrow> string \<Rightarrow> string \<Rightarrow> int \<Rightarrow> console_text list" where
  "paths_complaint progname rcfile copypath ret =
     (if ret = RC_OPENFILE then [line progname (''Error: Could not open rcfile: '' @ rcfile)]
      else if ret = RC_PERMS then
        [line progname ''Error: rcfile permissions allow other users to read your rcfile.'',
         line progname ''Set the permissions to 0600.'']
      else if ret = RC_DIROPEN then
        [line progname (''Error: Could not open storage directory: '' @ copypath),
         line progname ''You need to create this directory and set the permissions to 0700.'']
      else if ret = RC_DIRPERMS then
        [line progname ''Error: storage directory permissions incorrect.'',
         line progname ''Set the permissions to 0700.'']
      else if ret = RC_NETRCPERMS then
        [line progname ''Error: ~/.netrc permissions incorrect.'',
         line progname ''Set the permissions to 0600.'']
      else [Say (progname @ '': init_paths gave '' @ show_int ret @ [NL] @ contact_mntr)])"

definition rcfile_complaint :: "string \<Rightarrow> string \<Rightarrow> int \<Rightarrow> int \<Rightarrow> string option \<Rightarrow> console_text list" where
  "rcfile_complaint progname rcfile ret linenum err =
     (if ret = RC_OPENFILE then [line progname (''Error: Could not open rcfile: '' @ rcfile @ ''.'')]
      else if ret = RC_CORRUPT then
        [line progname (''rcfile corrupt at line '' @ show_int linenum @ '':'' @ [NL] @ percent_s err)]
      else [])"

definition app_env :: "'w app \<Rightarrow> bool \<Rightarrow> netrc_entry list \<Rightarrow> rc_env" where
  "app_env A havenetrc netrc_list =
     \<lparr>e_home = ap_home A, e_havenetrc = havenetrc, e_netrc_list = netrc_list,
      e_stat = (\<lambda>p. ap_modes A p \<noteq> None),
      e_server_port = (\<lambda>d s. d_get_server_port (ap_driver A d) s),
      e_proxy_port = (\<lambda>d s. d_get_proxy_port (ap_driver A d) s)\<rparr>"

text \<open>\<open>init\<close> after the command line is parsed: an exit, or the environment and the sites.\<close>

definition init_program ::
    "'w app \<Rightarrow> string \<Rightarrow> options \<Rightarrow> ((int \<times> console_text list) + rc_env \<times> site list) option" where
  "init_program A progname gl =
     (let (ret, rcfile, copypath, netrcfile) =
        init_env (ap_home A) (op_rcfile gl, op_copypath gl, None) in
      if ret = 1 then
        Some (Inl (- 1, [line progname ''Error: Environment variable HOME not set.'']))
      else do { rcfile \<leftarrow> rcfile; copypath \<leftarrow> copypath;
        let (ret, havenetrc) = init_paths (ap_modes A) rcfile copypath netrcfile False;
        if ret \<noteq> 0 then Some (Inl (- 1, paths_complaint progname rcfile copypath ret))
        else let (ret, netrc_list) = init_netrc havenetrc (ap_netrc A netrcfile) [] in
          if ret = 1 then Some (Inl (- 1, [line progname ''Error: Could not parse ~/.netrc.'']))
          else do { (ret, all_sites, linenum, err) \<leftarrow> rcfile_read copypath (ap_rcfile A rcfile) 0;
                    Some (if ret = RC_OPENFILE \<or> ret = RC_CORRUPT
                          then Inl (- 1, rcfile_complaint progname rcfile ret linenum err)
                          else Inr (app_env A havenetrc netrc_list, all_sites)) } })"

definition sitecopy_main ::
    "'w app \<Rightarrow> string \<Rightarrow> getopt_result list \<Rightarrow> string list \<Rightarrow> 'w
      \<Rightarrow> (int \<times> 'w \<times> console_text list) option" where
  "sitecopy_main A argv0 results args w =
     (case parse_cmdline argv0 results args of
        Inl (status, texts) \<Rightarrow> Some (status, w, texts)
      | Inr (gl, warned) \<Rightarrow>
          (let progname = base_name argv0 in
           do { started \<leftarrow> init_program A progname gl;
                (case started of
                   Inl (status, texts) \<Rightarrow> Some (status, w, warned @ texts)
                 | Inr (e, all_sites) \<Rightarrow>
                     do { (status, w, texts) \<leftarrow> main_sites A e progname gl all_sites w;
                          Some (status, w, warned @ texts) }) }))"

end
