(* ===== verification/Catch_Up.thy ===== *)
theory Catch_Up
  imports Console_Main Store_Trip
begin

text \<open>
  Two runs of the program one after the other: what the catch-up mode writes to the storage file is
  what the list mode of the next run finds on the disk, so it reports that nothing is to be updated.
\<close>

section \<open>Catching up a site with no stored states\<close>

definition half_caught :: "site \<Rightarrow> site \<Rightarrow> bool" where
  "half_caught s0 s \<longleftrightarrow> kept s0 s \<and> (no_server s0 \<longrightarrow> no_server s)
     \<and> (\<forall>a f. get_file a s = Some f \<longrightarrow> sf_stored f = sf_local f \<or> sf_diff f = file_new)"

definition mirrored :: "addr \<Rightarrow> site \<Rightarrow> bool" where
  "mirrored a s \<longleftrightarrow> (case get_file a s of None \<Rightarrow> True | Some f \<Rightarrow> sf_stored f = sf_local f)"

lemma catchup_step_mirrors:
  assumes h: "half_caught s0 s" and f: "get_file a s = Some f"
  shows "\<exists>t. catchup_step a s = Some t \<and> half_caught s0 t \<and> frame a s t \<and> mirrored a t"
proof -
  have inv: "site_inv s" and k: "kept s0 s" using h by (simp_all add: half_caught_def kept_def)
  have wf: "wf_file f" using site_inv_get [OF inv f] by (simp add: file_ok_def)
  have d: "file_compare (sf_type f) (sf_local f) (sf_stored f) s = Some (sf_diff f)"
    using site_inv_get [OF inv f] by (simp add: file_ok_def)
  show ?thesis
  proof (cases "sf_diff f = file_new")
    case False
    then have m: "sf_stored f = sf_local f" using h f by (auto simp: half_caught_def)
    then have "sf_diff f = file_unchanged"
      using d wf file_compare_self [of "sf_type f" "sf_local f" s] by (auto simp: wf_file_def)
    then show ?thesis
      using f h m by (auto simp: catchup_step_def mirrored_def frame_def)
  next
    case True
    then have ex: "fs_exists (sf_local f)" using d by (auto simp: file_compare_new)
    have "put_file a (\<lambda>f. f\<lparr>sf_stored := file_state_copy (sf_local f)\<rparr>) s
        = put_file a (\<lambda>f'. f'\<lparr>sf_stored := sf_local f\<rparr>) s"
      by (subst (1 2) put_file_const [OF site_invD(4) [OF inv] f]) (simp add: file_state_copy_def)
    then have s: "catchup_step a s = file_set_diff a (put_file a (\<lambda>f'. f'\<lparr>sf_stored := sf_local f\<rparr>) s)"
      using f True by (simp add: catchup_step_def)
    obtain t e where t: "file_set_diff a (put_file a (\<lambda>f'. f'\<lparr>sf_stored := sf_local f\<rparr>) s) = Some t"
      "site_inv t" "frame a s t" "get_file a t = Some (f\<lparr>sf_stored := sf_local f, sf_diff := e\<rparr>)"
      "states m_local t = states m_local s"
      using stored_set_result [OF inv f wf_catchup(1) [OF wf ex]] by blast
    have g: "get_file b t = get_file b s" if "b \<noteq> a" for b using t(3) that by (simp add: frame_def)
    have "half_caught s0 t"
      unfolding half_caught_def
    proof (intro conjI impI allI)
      show "kept s0 t" using k t by (simp add: kept_def frame_def)
      show "no_server t" if "no_server s0"
      proof -
        have n: "\<not> fs_exists (sf_server h)" if "get_file b s = Some h" for b h
          using that h \<open>no_server s0\<close> by (simp add: half_caught_def no_server_def)
        have "\<not> fs_exists (sf_server h)" if "get_file b t = Some h" for b h
          using that n [of b h] n [OF f] t(4) g [of b] by (cases "b = a") auto
        then show ?thesis by (simp add: no_server_def)
      qed
      show "sf_stored h = sf_local h \<or> sf_diff h = file_new" if "get_file b t = Some h" for b h
        using that h t(4) g by (cases "b = a") (auto simp: half_caught_def)
    qed
    then show ?thesis using s t by (auto simp: mirrored_def)
  qed
qed

interpretation mirror: sweep catchup_step "half_caught s0" live mirrored for s0
proof
  fix s a b t
  assume k: "half_caught s0 s" and l: "live a s"
  then obtain f where f: "get_file a s = Some f" by blast
  note r = catchup_step_mirrors [OF k f]
  show "\<exists>t. catchup_step a s = Some t \<and> half_caught s0 t" using r by blast
  assume t: "catchup_step a s = Some t"
  show "live b t" if "live b s" "b \<noteq> a" using r t that by (fastforce simp: frame_def)
  show "mirrored a t" using r t by fastforce
  show "mirrored b t" if "mirrored b s" "b \<noteq> a"
    using r t that by (fastforce simp: frame_def mirrored_def)
qed

lemma catchup_mirrors:
  assumes inv: "site_inv s" and none: "states m_stored s = {#}"
  shows "\<exists>u. site_catchup s = Some u \<and> site_inv u \<and> opts u = opts s \<and> (no_server s \<longrightarrow> no_server u)
    \<and> states m_local u = states m_local s \<and> states m_stored u = states m_local s"
proof -
  have "sf_diff f = file_new" if "get_file a s = Some f" for a f
  proof -
    have "\<not> fs_exists (sf_stored f)"
      using states_member [OF inv, of _ m_stored] that none by force
    then show ?thesis
      using site_inv_get [OF inv that] by (auto simp: file_ok_def wf_file_def file_compare_def)
  qed
  then have k: "half_caught s s" using inv by (simp add: half_caught_def kept_def)
  note fl = files_live [OF inv]
  obtain u where u: "site_catchup s = Some u" "half_caught s u"
    using mirror.loop_runs [OF k fl(1,2)] by (auto simp: site_catchup_def)
  have m: "mirrored a u" for a
    using mirror.loop_settles [OF k fl(1,2) u(1) [unfolded site_catchup_def], of a] fl(3) [of a]
    by (auto simp: mirrored_def)
  have inv': "site_inv u" using u(2) by (simp add: half_caught_def kept_def)
  have "sf_stored f = sf_local f" if "(a, f) \<in> set (s_files u)" for a f
    using that m [of a] by (simp add: files_set_get [OF inv'] mirrored_def)
  then have "states m_stored u = states m_local u"
    unfolding states_def tally_def by (intro arg_cong [where f = sum_list] map_cong) auto
  then show ?thesis using u by (auto simp: half_caught_def kept_def)
qed

section \<open>Stored states that are those of the disk\<close>

lemma recorded_compare:
  assumes "wf_state ty st" "fs_exists st"
  shows "file_compare ty st (snd (recorded (s_state_method s) (ty, st))) s = Some file_unchanged"
  using assms
  by (cases "fs_filename st"; cases "fs_linktarget st"; cases "s_state_method s")
    (auto simp: file_compare_def recorded_def wf_state_def zero_state_def split: file_type.split)

lemma recorded_sel [simp]:
  "fst (recorded m p) = fst p"
  "fs_filename (snd (recorded m p)) = fs_filename (snd p)"
  "fs_exists (snd (recorded m p))"
  by (cases p; simp add: recorded_def split: file_type.split)+

lemma names_recorded [simp]: "names_of (image_mset (recorded m) M) = names_of M"
proof -
  have "(\<lambda>(type, st). (type, fs_filename st)) (recorded m p) = (\<lambda>(type, st). (type, fs_filename st)) p" for p
    using recorded_sel [of m p] by (simp add: case_prod_beta')
  then show ?thesis by (simp add: names_of_def multiset.map_comp comp_def)
qed

lemma recorded_unchanged:
  assumes inv: "site_inv t" and tidy: "tidy t" and cm: "\<not> s_checkmoved t"
    and L: "distinct_names (states m_local t)"
    and S: "states m_stored t = image_mset (recorded (s_state_method t)) (states m_local t)"
    and f: "get_file a t = Some f"
  shows "sf_diff f = file_unchanged"
proof -
  let ?r = "recorded (s_state_method t)"
  have paired: "paired t"
    using tidy cm L S by (simp add: tidy_def distinct_names_def)
  have same: "b = c" if "get_file b t = Some g" "get_file c t = Some h" "fs_exists (FS_GET m g)"
    "fs_exists (FS_GET n h)" "sf_type g = sf_type h" "fs_filename (FS_GET m g) = fs_filename (FS_GET n h)"
    for b c g h m n
    using paired that unfolding paired_def has_name_def by metis
  have wf: "wf_file f" and d: "file_compare (sf_type f) (sf_local f) (sf_stored f) t = Some (sf_diff f)"
    using site_inv_get [OF inv f] by (simp_all add: file_ok_def)
  have loc: "fs_exists (sf_local f)"
  proof (rule ccontr)
    assume n: "\<not> fs_exists (sf_local f)"
    then have "(sf_type f, sf_stored f) \<in># states m_stored t"
      using wf f by (auto simp: wf_file_def states_member [OF inv])
    then obtain l where l: "l \<in># states m_local t" "?r l = (sf_type f, sf_stored f)"
      unfolding S by auto
    then obtain b g where g: "get_file b t = Some g" "fs_exists (sf_local g)" "l = (sf_type g, sf_local g)"
      by (auto simp: states_member [OF inv])
    have "b = a"
      by (rule same [OF g(1) f, of m_local m_stored])
        (use g l(2) recorded_sel [of "s_state_method t" l] n wf in \<open>auto simp: wf_file_def\<close>)
    then show False using g f n by simp
  qed
  then have "(sf_type f, sf_local f) \<in># states m_local t"
    using f by (auto simp: states_member [OF inv])
  then have "?r (sf_type f, sf_local f) \<in># states m_stored t" unfolding S by simp
  then obtain b g where g: "get_file b t = Some g" "fs_exists (sf_stored g)"
      "?r (sf_type f, sf_local f) = (sf_type g, sf_stored g)"
    by (auto simp: states_member [OF inv])
  have k: "sf_type g = sf_type f" "fs_filename (sf_stored g) = fs_filename (sf_local f)"
    using recorded_sel [of "s_state_method t" "(sf_type f, sf_local f)"] g(3) by simp_all
  have "b = a" by (rule same [OF g(1) f, of m_stored m_local]) (use g k loc in auto)
  then have "sf_stored f = snd (?r (sf_type f, sf_local f))" using g f by (metis option.inject snd_conv)
  then show ?thesis
    using d recorded_compare [of "sf_type f" "sf_local f" t] wf loc by (simp add: wf_file_def)
qed

section \<open>The first run\<close>

definition storable_state :: "state_method \<Rightarrow> file_type \<Rightarrow> file_state \<Rightarrow> bool" where
  "storable_state m ty st \<longleftrightarrow>
     storable (zero_site\<lparr>s_state_method := m\<rparr>) (zero_file\<lparr>sf_type := ty, sf_stored := st\<rparr>)"

lemma storable_stateI:
  assumes "storable_state (s_state_method s) (sf_type f) (sf_stored f)" "\<not> fs_exists (sf_server f)"
  shows "storable s f"
  using assms
  by (auto simp: storable_state_def storable_def zero_file_def split: file_type.splits state_method.splits)

text \<open>What the storage files and the disk do: the text that is written is the text that is read, and
  writing it does not change what the scan sees.\<close>

definition stores :: "'w app \<Rightarrow> string \<Rightarrow> 'w \<Rightarrow> bool" where
  "stores A name w \<longleftrightarrow> (\<forall>text. \<exists>w1 w2. ap_open_info A name w = (None, w1)
     \<and> ap_write_info A name text w1 = (0, w2) \<and> ap_info A name w2 = Info_text text None
     \<and> ap_fsys A w2 = ap_fsys A w)"

text \<open>A site as it is after \<open>rcfile_verify\<close>.\<close>

definition unread :: "site \<Rightarrow> bool" where
  "unread t \<longleftrightarrow> site_inv t \<and> s_files t = []"

lemma unread_states:
  assumes "unread t"
  shows "states m t = {#}" "no_server t" "tidy t" "paired t"
  using assms by (simp_all add: unread_def states_def no_server_def tidy_def paired_def has_name_def get_file_def)

lemma scanned:
  assumes "unread t" "s_local_root t = Some root" "short_links y" "local_tree fuel y fnm t [root] = Inr files"
  obtains l log where "site_read_local_state fuel y fnm t = Some (Inr (l, log))" "site_inv l" "opts l = opts t"
    "states m_stored l = {#}" "states m_local l = mset files" "no_server l" "tidy l"
proof -
  have inv: "site_inv t" using assms(1) by (simp add: unread_def)
  have "s_local_root t \<noteq> None" using assms(2) by simp
  from scan_dirs_result [OF inv this assms(3,4), of "[]"]
  obtain l log where "site_read_local_state fuel y fnm t = Some (Inr (l, log))" "site_inv l" "opts l = opts t"
    "states m_stored l = {#}" "states m_local l = mset files" "undisturbed t l"
    using unread_states(1) [OF assms(1)] by (auto simp: site_read_local_state_def assms(2))
  then show ?thesis using that unread_states [OF assms(1)] by (auto simp: undisturbed_def)
qed

lemma stored_files_storable:
  assumes inv: "site_inv u" and ns: "no_server u" and L: "states m_stored u = mset files"
    and st: "\<And>ty st. (ty, st) \<in> set files \<Longrightarrow> storable_state (s_state_method u) ty st"
    and f: "f \<in> set (stored_files u)"
  shows "storable u f"
proof -
  obtain a where a: "get_file a u = Some f" "fs_exists (sf_stored f)"
    using f by (auto simp: stored_files_def files_set_get [OF inv])
  then have "(sf_type f, sf_stored f) \<in> set files"
    using states_member [OF inv, of _ m_stored] L by (metis FS_GET.simps(2) set_mset_mset)
  then show ?thesis
    using st a ns by (intro storable_stateI) (auto simp: no_server_def)
qed

lemma open_frame [simp]:
  "storable (u\<lparr>s_storage_file := b\<rparr>) f = storable u f"
  "stored_files (u\<lparr>s_storage_file := b\<rparr>) = stored_files u"
  "state_tree sb (u\<lparr>s_storage_file := b\<rparr>) = state_tree sb u"
proof -
  show files: "stored_files (u\<lparr>s_storage_file := b\<rparr>) = stored_files u" by (simp add: stored_files_def)
  have "item_tree (u\<lparr>s_storage_file := b\<rparr>) = item_tree u"
    by (intro ext) (simp add: item_tree_def body_trees_def split: file_type.split)
  then show "state_tree sb (u\<lparr>s_storage_file := b\<rparr>) = state_tree sb u"
    by (simp add: state_tree_def option_trees_def files)
qed (simp add: storable_def split: file_type.split)

lemma saved:
  assumes st: "\<And>f. f \<in> set (stored_files u) \<Longrightarrow> storable u f" and "\<not> s_storage_file u"
    and "stores A (s_infofile u) w"
  obtains w2 r where "save_stored_state A (start_run u w) = Some (0, r)" "r_world r = w2" "r_log r = []"
    "ap_info A (s_infofile u) w2 = Info_text (document (state_tree (ap_saved_by A) u)) None"
    "ap_fsys A w2 = ap_fsys A w"
proof -
  obtain w1 w2 where "ap_open_info A (s_infofile u) w = (None, w1)"
    "ap_write_info A (s_infofile u) (document (state_tree (ap_saved_by A) u)) w1 = (0, w2)"
    "ap_info A (s_infofile u) w2 = Info_text (document (state_tree (ap_saved_by A) u)) None"
    "ap_fsys A w2 = ap_fsys A w"
    using assms(3) unfolding stores_def by blast
  then show ?thesis
    using that assms(2) written_document [of "u\<lparr>s_storage_file := True\<rparr>"] st
    by (simp add: save_stored_state_def site_open_storage_file_def call_def start_run_def Let_def)
qed

lemma act_flags [simp]:
  "reads_local action_catchup" "\<not> reads_stored action_catchup"
  "reads_local action_list" "reads_stored action_list"
  by (simp_all add: reads_local_def reads_stored_def act_info_def actions_def action_number_def
      A_LOCAL_def A_STORED_def)

text \<open>What both runs are given: a site that \<open>rcfile_verify\<close> accepts, a tree whose names are distinct and
  fit the storage file.\<close>

definition tree_ok :: "'w app \<Rightarrow> site \<Rightarrow> 'w \<Rightarrow> (file_type \<times> file_state) list \<Rightarrow> bool" where
  "tree_ok A t w files \<longleftrightarrow>
     (\<exists>root. s_local_root t = Some root
       \<and> local_tree (ap_fuel A) (ap_fsys A w) (ap_fnm A) t [root] = Inr files)
     \<and> short_links (ap_fsys A w)
     \<and> distinct (map (\<lambda>(ty, st). (ty, fs_filename st)) files)
     \<and> (\<forall>(ty, st) \<in> set files. storable_state (s_state_method t) ty st)"

lemma opts_more:
  assumes "opts s = opts t"
  shows "s_infofile s = s_infofile t" "s_storage_file s = s_storage_file t" "s_use_this s = s_use_this t"
proof -
  have "s_infofile (opts x) = s_infofile x" "s_storage_file (opts x) = s_storage_file x"
    "s_use_this (opts x) = s_use_this x" for x
    by (simp_all add: opts_def)
  then show "s_infofile s = s_infofile t" "s_storage_file s = s_storage_file t"
    "s_use_this s = s_use_this t"
    using assms by metis+
qed

lemma keep_going_frame [simp]:
  "site_inv (s\<lparr>s_keep_going := k\<rparr>) = site_inv s"
  "states m (s\<lparr>s_keep_going := k\<rparr>) = states m s"
  "opts (s\<lparr>s_keep_going := k\<rparr>) = (opts s)\<lparr>s_keep_going := k\<rparr>"
  "no_server (s\<lparr>s_keep_going := k\<rparr>) = no_server s"
proof -
  have c: "counter i (s\<lparr>s_keep_going := k\<rparr>) = counter i s" for i by (cases i) simp_all
  have "file_compare ty a b (s\<lparr>s_keep_going := k\<rparr>) = file_compare ty a b s" for ty a b
    by (cases s) (simp only: file_compare_def site.select_convs site.update_convs)
  then show "site_inv (s\<lparr>s_keep_going := k\<rparr>) = site_inv s"
    by (simp add: site_inv_def files_ok_def stats_ok_def flags_ok_def file_ok_def c site_stats_update_def)
qed (simp_all add: states_def opts_def no_server_def get_file_def)

text \<open>What the catch-up mode leaves of a site: its tree is read, and all of it counts as updated.\<close>

definition caught_up_site :: "'w app \<Rightarrow> bool \<Rightarrow> site \<Rightarrow> 'w \<Rightarrow> site option" where
  "caught_up_site A keepgoing t w =
     do { (l, log) \<leftarrow> within (site_read_local_state (ap_fuel A) (ap_fsys A w) (ap_fnm A) t);
          site_catchup (l\<lparr>s_keep_going := keepgoing\<rparr>) }"

lemma catchup_run:
  assumes v: "rcfile_verify e s = Some (0, t)" and t: "unread t" "\<not> s_storage_file t"
    and tree: "tree_ok A t w files" and disk: "stores A (s_infofile t) w"
  obtains u w2 where
    "caught_up_site A (op_keepgoing gl) t w = Some u"
    "op_allsites gl \<Longrightarrow> op_action gl = action_catchup
      \<Longrightarrow> \<exists>texts. main_sites A e progname gl [s] w = Some (0, w2, texts)"
    "states m_stored u = mset files" "s_state_method u = s_state_method t"
    "\<And>f. f \<in> set (stored_files u) \<Longrightarrow> storable u f"
    "ap_info A (s_infofile t) w2 = Info_text (document (state_tree (ap_saved_by A) u)) None"
    "ap_fsys A w2 = ap_fsys A w"
proof -
  obtain root where root: "s_local_root t = Some root"
    "local_tree (ap_fuel A) (ap_fsys A w) (ap_fnm A) t [root] = Inr files"
    using tree by (auto simp: tree_ok_def)
  have short: "short_links (ap_fsys A w)" using tree by (simp add: tree_ok_def)
  obtain l log where l: "site_read_local_state (ap_fuel A) (ap_fsys A w) (ap_fnm A) t = Some (Inr (l, log))"
    "site_inv l" "opts l = opts t" "states m_stored l = {#}" "states m_local l = mset files"
    "no_server l"
    by (rule scanned [OF t(1) root(1) short root(2)])
  let ?l = "l\<lparr>s_keep_going := op_keepgoing gl\<rparr>"
  obtain u where u: "site_catchup ?l = Some u" "site_inv u" "opts u = opts ?l" "no_server u"
    "states m_stored u = mset files"
    using catchup_mirrors [of ?l] l by auto
  have o: "s_infofile u = s_infofile t" "\<not> s_storage_file u"
    using opts_more [OF u(3)] opts_more [OF l(3)] t(2) by simp_all
  have m: "s_state_method u = s_state_method t"
    using opts_fields(1) [OF u(3)] opts_fields(1) [OF l(3)] by simp
  have st: "storable u f" if "f \<in> set (stored_files u)" for f
    by (rule stored_files_storable [OF u(2,4,5) _ that]) (use tree m in \<open>auto simp: tree_ok_def\<close>)
  obtain w2 r where r: "save_stored_state A (start_run u w) = Some (0, r)" "r_world r = w2" "r_log r = []"
    "ap_info A (s_infofile u) w2 = Info_text (document (state_tree (ap_saved_by A) u)) None"
    "ap_fsys A w2 = ap_fsys A w"
    by (rule saved [OF st o(2)]) (use disk o(1) in simp_all)
  have "\<exists>texts. main_sites A e progname gl [s] w = Some (0, w2, texts)"
    if "op_allsites gl" "op_action gl = action_catchup"
    using that v l(1) u(1) r
    by (simp add: main_sites_def Let_def verify_site_def read_local_def read_stored_def within_def
        act_on_site_def act_stored_def ended_def)
  then show ?thesis
    using that [of u w2] u l(1) m st r(4,5) o by (auto simp: within_def caught_up_site_def)
qed

section \<open>The second run\<close>

lemma list_run:
  assumes v: "rcfile_verify e s = Some (0, t)" and t: "unread t" "\<not> s_checkmoved t"
    and tree: "tree_ok A t w files"
    and u: "states m_stored u = mset files" "s_state_method u = s_state_method t"
      "\<And>f. f \<in> set (stored_files u) \<Longrightarrow> storable u f"
    and info: "ap_info A (s_infofile t) w = Info_text (document (state_tree (ap_saved_by A) u)) None"
    and p: "parses (ap_parser A) (state_tree (ap_saved_by A) u)"
    and gl: "op_allsites gl" "op_action gl = action_list"
  shows "\<exists>texts. main_sites A e progname gl [s] w = Some (0, w, texts)"
proof -
  obtain root where root: "s_local_root t = Some root"
    "local_tree (ap_fuel A) (ap_fsys A w) (ap_fnm A) t [root] = Inr files"
    using tree by (auto simp: tree_ok_def)
  have short: "short_links (ap_fsys A w)" using tree by (simp add: tree_ok_def)
  obtain l log where l: "site_read_local_state (ap_fuel A) (ap_fsys A w) (ap_fnm A) t = Some (Inr (l, log))"
    "site_inv l" "opts l = opts t" "states m_stored l = {#}" "states m_local l = mset files" "tidy l"
    by (rule scanned [OF t(1) root(1) short root(2)])
  obtain v where v2: "site_read_stored_state (ap_parser A) (ap_msg A) (ap_fnm A)
      (ap_info A (s_infofile l) w) l = Some (1, v)" "site_inv v"
    "opts v = (opts l)\<lparr>s_stored_state_method := s_state_method u\<rparr>"
    "states m_stored v = image_mset (recorded (s_state_method u)) (mset files)"
    "states m_local v = mset files" "tidy v"
    using stored_state_read [OF l(2) u(3) p, of "ap_msg A" "ap_fnm A"] info opts_more(1) [OF l(3)] l u(1) by auto
  have cm: "s_checkmoved v = s_checkmoved t" "s_state_method v = s_state_method t"
    using arg_cong [OF v2(3), of s_checkmoved] arg_cong [OF v2(3), of s_state_method]
      arg_cong [OF l(3), of s_checkmoved] arg_cong [OF l(3), of s_state_method] by (simp_all add: opts_sel)
  have "distinct_names (mset files)" using tree by (simp add: tree_ok_def distinct_names_list)
  then have "sf_diff f = file_unchanged" if "get_file a v = Some f" for a f
    using recorded_unchanged [OF v2(2,6) _ _ _ that] t(2) cm v2(4,5) u(2) by simp
  note zero = all_unchanged_counters [OF v2(2) this]
  have "\<exists>texts. act_list progname gl (v\<lparr>s_keep_going := op_keepgoing gl\<rparr>) = Some (0, texts)"
    using zero by (simp add: act_list_def Let_def site_flatlist_def)
  then show ?thesis
    using v l(1) v2(1) gl
    by (auto simp: main_sites_def Let_def verify_site_def read_local_def read_stored_def within_def
        act_on_site_def)
qed

section \<open>The two command lines\<close>

lemma init_program_site:
  assumes i: "init_program A progname gl = Some (Inr (e, sites))" and s: "s \<in> set sites"
    and home: "ap_home A = Some home" and v: "rcfile_verify e s = Some (0, t)"
  shows "unread t"
proof -
  obtain r0 rf cp nf where p: "init_env (ap_home A) (op_rcfile gl, op_copypath gl, None) = (r0, rf, cp, nf)"
    by (metis prod_cases4)
  obtain f c where fc: "rf = Some f" "cp = Some c"
    using i p by (auto simp: init_program_def bind_eq_Some_conv split: if_splits)
  obtain r1 hv where q: "init_paths (ap_modes A) f c nf False = (r1, hv)" by fastforce
  obtain r2 netrc where n: "init_netrc hv (ap_netrc A nf) [] = (r2, netrc)" by fastforce
  have us: "list_all usable netrc"
    using n parse_netrc_usable by (auto simp: init_netrc_def Let_def split: if_splits)
  obtain ret lines err where
    r: "rcfile_read c (ap_rcfile A f) 0 = Some (ret, sites, lines, err)" and a: "e = app_env A hv netrc"
    using i p q n fc by (auto simp: init_program_def bind_eq_Some_conv split: if_splits)
  have e: "e_home e = Some home" "list_all usable (e_netrc_list e)"
    using a us home by (simp_all add: app_env_def)
  have "conf_ok s"
    using rcfile_read_ok [of c "ap_rcfile A f" 0] r s by (auto simp: read_ok_def list_all_iff)
  then have v: "verified e home s t" and f: "s_files s = []"
    using conf_ok_verify [OF _ e(2,1), of s] v by (auto simp: conf_ok_def untouched_def)
  have "s_files (settings x) = s_files x" for x by (simp add: settings_def)
  then have "s_files t = []" using v f unfolding verified_def by metis
  then show ?thesis using v by (simp add: unread_def verified_def ready_def)
qed

lemma init_program_options:
  "init_program A progname (gl\<lparr>op_action := act, op_allsites := b\<rparr>) = init_program A progname gl"
  "init_program A progname (gl\<lparr>op_action := act, op_allsites := b, op_firstlist := c\<rparr>) = init_program A progname gl"
  by (simp_all add: init_program_def)

lemma parse_catchup:
  "parse_cmdline argv0 [Opt CHR ''a'' x, Opt CHR ''c'' y] []
    = Inr (no_options\<lparr>op_action := action_catchup, op_allsites := True\<rparr>, [])"
  "parse_cmdline argv0 [Opt CHR ''a'' x, Opt CHR ''l'' y] []
    = Inr (no_options\<lparr>op_action := action_list, op_allsites := True, op_firstlist := True\<rparr>, [])"
  by (simp_all add: parse_cmdline_def one_option_def set_action_def no_options_def Let_def MAXSITES_def)

text \<open>C2. For a configuration with one site that \<^verbatim>\<open>rcfile_verify\<close> accepts and that does not look for moved
  files, a finite local tree whose items have distinct names and fit the storage file (the targets
  of maintained links need no escape in XML), a disk that gives back what was written and an XML parser that reads the document written: after
  \<^verbatim>\<open>sitecopy --allsites --catchup\<close>, which exits with status 0, a second run
  \<^verbatim>\<open>sitecopy --allsites --list\<close> reads the storage file and exits with status 0 too: nothing is to be
  updated.  This goes through the command line, the rcfile, the scan of the tree, \<^verbatim>\<open>site_catchup\<close>, the
  writing and the reading of the storage file and \<^verbatim>\<open>file_set\<close>.\<close>

theorem catchup_then_list:
  assumes i: "init_program A (base_name argv0) no_options = Some (Inr (e, [s]))" and "ap_home A = Some home"
    and v: "rcfile_verify e s = Some (0, t)" and t: "\<not> s_checkmoved t" "\<not> s_storage_file t"
    and tree: "tree_ok A t w files" and disk: "stores A (s_infofile t) w"
    and u: "caught_up_site A False t w = Some u" "parses (ap_parser A) (state_tree (ap_saved_by A) u)"
  shows "\<exists>w' texts texts'.
    sitecopy_main A argv0 [Opt CHR ''a'' '''', Opt CHR ''c'' ''''] [] w = Some (0, w', texts)
    \<and> sitecopy_main A argv0 [Opt CHR ''a'' '''', Opt CHR ''l'' ''''] [] w' = Some (0, w', texts')"
proof -
  have un: "unread t" by (rule init_program_site [OF i _ assms(2) v]) simp
  let ?c = "no_options\<lparr>op_action := action_catchup, op_allsites := True\<rparr>"
  let ?l = "no_options\<lparr>op_action := action_list, op_allsites := True, op_firstlist := True\<rparr>"
  have k: "op_keepgoing ?c = False" by (simp add: no_options_def)
  obtain u' w2 where r: "caught_up_site A (op_keepgoing ?c) t w = Some u'"
    "op_allsites ?c \<Longrightarrow> op_action ?c = action_catchup
      \<Longrightarrow> \<exists>texts. main_sites A e (base_name argv0) ?c [s] w = Some (0, w2, texts)"
    "states m_stored u' = mset files" "s_state_method u' = s_state_method t"
    "\<And>f. f \<in> set (stored_files u') \<Longrightarrow> storable u' f"
    "ap_info A (s_infofile t) w2 = Info_text (document (state_tree (ap_saved_by A) u')) None"
    "ap_fsys A w2 = ap_fsys A w"
    by (rule catchup_run [OF v un t(2) tree disk, where gl = ?c and progname = "base_name argv0"]) blast
  have same: "u' = u" using r(1) u(1) k by simp
  have "tree_ok A t w2 files" using tree r(7) by (simp add: tree_ok_def)
  then have "\<exists>texts. main_sites A e (base_name argv0) ?l [s] w2 = Some (0, w2, texts)"
    by (rule list_run [OF v un t(1) _ r(3-6)]) (use u(2) same in simp_all)
  then show ?thesis
    using r(2) i by (auto simp: sitecopy_main_def parse_catchup init_program_options)
qed

text \<open>A disk with one file in the tree and room for one storage file.\<close>

definition one_file_fsys :: fsys where
  "one_file_fsys = \<lparr>
     y_readdir = (\<lambda>d. if d = ''/home/l/'' then Some [''.'', ''..'', ''a''] else None),
     y_lstat = (\<lambda>p. if p = ''/home/l/a''
        then Some \<lparr>st_kind = S_REG, st_mtime = 5, st_size = 3, st_mode = 420\<rparr> else None),
     y_stat = (\<lambda>p. None), y_readlink = (\<lambda>p. None), y_checksum = (\<lambda>p. None)\<rparr>"

definition plain_os :: "'w os" where
  "plain_os = \<lparr>o_mkdir = (\<lambda>_ _ w. (None, w)), o_rmdir = (\<lambda>_ w. (None, w)), o_unlink = (\<lambda>_ w. (None, w)),
     o_rename = (\<lambda>_ _ w. (None, w)), o_chmod = (\<lambda>_ _ w. (None, w)), o_utime = (\<lambda>_ _ w. (None, w)),
     o_can_update = (\<lambda>_ w. (True, w))\<rparr>"

definition disk_app :: "string option app" where
  "disk_app = \<lparr>ap_home = Some ''/home'',
     ap_modes = (\<lambda>p. if p = ''/home/.netrc'' then None
        else if p = ''/home/.sitecopy/'' then Some 448 else Some 33152),
     ap_netrc = (\<lambda>_. None), ap_rcfile = (\<lambda>_. Inr example_rcfile), ap_fuel = 1,
     ap_fsys = (\<lambda>_. one_file_fsys), ap_fnm = (\<lambda>_ _ _. False), ap_md5 = (\<lambda>t. t), ap_now = 0,
     ap_time = (\<lambda>_. 0), ap_driver = (\<lambda>_. null_driver_ops (\<lambda>_. 0)), ap_os = plain_os,
     ap_input = (\<lambda>_. ''''), ap_set_input = (\<lambda>_ w. w), ap_parser = (\<lambda>_. ([], None)),
     ap_msg = (\<lambda>_. ''''), ap_saved_by = (''sitecopy'', ''0.16.6''),
     ap_info = (\<lambda>_ w. case w of None \<Rightarrow> Info_missing '''' | Some text \<Rightarrow> Info_text text None),
     ap_open_info = (\<lambda>_ w. (None, Some '''')), ap_write_info = (\<lambda>_ text w. (0, Some text))\<rparr>"

definition disk_site :: site where
  "disk_site = example_configured\<lparr>s_infofile := ''/home/.sitecopy/a'', s_certfile := ''/home/.sitecopy/a.crt''\<rparr>"

definition disk_verified :: site where
  "disk_verified = snd (the (rcfile_verify (app_env disk_app False []) disk_site))"

definition disk_parser :: xml_parser where
  "disk_parser = (\<lambda>_. (events (state_tree (''sitecopy'', ''0.16.6'')
     (the (caught_up_site disk_app False disk_verified None))), None))"

lemma disk_rcfile: "rcfile_read ''/home/.sitecopy/'' (Inr example_rcfile) 0 = Some (0, [disk_site], 4, Some ''local ~/l'')"
  by code_simp

lemma disk_init:
  "init_program (disk_app\<lparr>ap_parser := disk_parser\<rparr>) progname no_options
    = Some (Inr (app_env disk_app False [], [disk_site]))"
  by (simp add: init_program_def disk_app_def init_env_def no_options_def init_paths_def private_file_def
      S_IFMT_def S_IFREG_def S_IREAD_def S_IWRITE_def S_IRWXG_def S_IRWXO_def init_netrc_def disk_rcfile
      app_env_def)

lemma disk_verify: "rcfile_verify (app_env disk_app False []) disk_site = Some (0, disk_verified)"
  "\<not> s_checkmoved disk_verified" "\<not> s_storage_file disk_verified"
  by code_simp+

lemma disk_tree:
  "local_tree 1 one_file_fsys (\<lambda>_ _ _. False) disk_verified [''/home/l/'']
    = Inr [(file_file, zero_state\<lparr>fs_filename := Some ''a'', fs_time := 5, fs_size := 3,
        fs_exists := True, fs_mode := 420\<rparr>)]"
  "s_local_root disk_verified = Some ''/home/l/''" "s_state_method disk_verified = state_timesize"
  by code_simp+

lemma disk_storable:
  "short_links one_file_fsys"
  "storable_state state_timesize file_file (zero_state\<lparr>fs_filename := Some ''a'', fs_time := 5,
     fs_size := 3, fs_exists := True, fs_mode := 420\<rparr>)"
  by (simp_all add: short_links_def one_file_fsys_def storable_state_def storable_def zero_file_def
      zero_state_def zero_site_def long_ok_def LONG_MIN_def LONG_MAX_def)

lemma disk_caught_up:
  "caught_up_site disk_app False disk_verified None \<noteq> None"
  by code_simp

lemma catchup_then_list_witness:
  "\<exists>w' texts texts'.
    sitecopy_main (disk_app\<lparr>ap_parser := disk_parser\<rparr>) ''sitecopy'' [Opt CHR ''a'' '''', Opt CHR ''c'' ''''] [] None
      = Some (0, w', texts)
    \<and> sitecopy_main (disk_app\<lparr>ap_parser := disk_parser\<rparr>) ''sitecopy'' [Opt CHR ''a'' '''', Opt CHR ''l'' ''''] [] w'
      = Some (0, w', texts')"
proof -
  let ?A = "disk_app\<lparr>ap_parser := disk_parser\<rparr>"
  have same: "caught_up_site ?A k t w = caught_up_site disk_app k t w" for k t w
    by (simp add: caught_up_site_def)
  obtain u where u: "caught_up_site ?A False disk_verified None = Some u"
    using disk_caught_up same by auto
  show ?thesis
  proof (rule catchup_then_list [OF disk_init _ disk_verify _ _ u])
    show "ap_home ?A = Some ''/home''" by (simp add: disk_app_def)
    show "tree_ok ?A disk_verified None [(file_file, zero_state\<lparr>fs_filename := Some ''a'', fs_time := 5,
        fs_size := 3, fs_exists := True, fs_mode := 420\<rparr>)]"
      using disk_tree disk_storable
      by (simp add: tree_ok_def disk_app_def del: One_nat_def local_tree.simps)
    show "stores ?A (s_infofile disk_verified) None" by (simp add: stores_def disk_app_def)
    show "parses (ap_parser ?A) (state_tree (ap_saved_by ?A) u)"
      using u same by (simp add: parses_def disk_parser_def disk_app_def)
  qed
qed

end
