(* ===== verification/Console_Safe.thy ===== *)
theory Console_Safe
  imports Catch_Up
begin

text \<open>
  What the command line decides, a dry run, and the sites that \<open>verify_sites\<close> rejects.
\<close>

section \<open>One mode of operation\<close>

definition mode_of :: "char \<Rightarrow> action option" where
  "mode_of c = map_of [(CHR ''s'', action_synch), (CHR ''e'', action_verify), (CHR ''f'', action_fetch),
     (CHR ''i'', action_init), (CHR ''c'', action_catchup), (CHR ''u'', action_update),
     (CHR ''U'', action_autoupdate), (CHR ''v'', action_view), (CHR ''Z'', action_list)] c"

text \<open>The modes of a command line, where a second \<^verbatim>\<open>--list\<close> is a request for the flat listing.\<close>

fun modes_given :: "bool \<Rightarrow> getopt_result list \<Rightarrow> action list" where
  "modes_given seen [] = []"
| "modes_given seen (Set_quiet n # rest) = modes_given seen rest"
| "modes_given seen (Opt c arg # rest) =
     (if c = CHR ''l'' then (if seen then modes_given seen rest else action_list # modes_given True rest)
      else case mode_of c of
        Some act \<Rightarrow> act # modes_given seen rest
      | None \<Rightarrow> modes_given seen rest)"

definition settled_list :: "options \<Rightarrow> bool" where
  "settled_list gl \<longleftrightarrow> (op_listflat gl \<or> op_firstlist gl \<longrightarrow> op_action gl = action_list)"

lemma one_option_step:
  assumes "one_option progname c arg gl = Inr gl'" and "settled_list gl"
  shows "settled_list gl' \<and>
    (if c = CHR ''l'' then
       (if op_firstlist gl then op_action gl' = op_action gl \<and> op_firstlist gl'
        else op_action gl = action_none \<and> op_action gl' = action_list \<and> op_firstlist gl')
     else op_firstlist gl' = op_firstlist gl
       \<and> (case mode_of c of
            Some act \<Rightarrow> op_action gl = action_none \<and> op_action gl' = act
          | None \<Rightarrow> op_action gl' = op_action gl))"
  using assms
  by (auto simp: one_option_def set_action_def settled_list_def mode_of_def Let_def
      split: if_splits option.splits sum.splits)

lemma modes_not_none: "act \<in> set (modes_given b results) \<Longrightarrow> act \<noteq> action_none"
  by (induction b results rule: modes_given.induct)
    (auto simp: mode_of_def split: if_splits option.splits)

lemma parse_options_mode:
  assumes "parse_options progname results gl = Inr gl'" and "settled_list gl"
  shows "op_action gl' = (case modes_given (op_firstlist gl) results of [] \<Rightarrow> op_action gl | act # _ \<Rightarrow> act)
    \<and> (modes_given (op_firstlist gl) results \<noteq> [] \<longrightarrow> op_action gl = action_none)
    \<and> length (modes_given (op_firstlist gl) results) \<le> 1"
  using assms
proof (induction progname results gl rule: parse_options.induct)
  case (2 progname n rest gl)
  then show ?case by (auto simp: settled_list_def Let_def split: if_splits list.splits)
next
  case (3 progname c arg rest gl)
  obtain gl1 where g: "one_option progname c arg gl = Inr gl1"
    using "3.prems"(1) by (auto split: sum.splits)
  note s = one_option_step [OF g "3.prems"(2)]
  have IH: "op_action gl' = (case modes_given (op_firstlist gl1) rest of [] \<Rightarrow> op_action gl1 | act # _ \<Rightarrow> act)
      \<and> (modes_given (op_firstlist gl1) rest \<noteq> [] \<longrightarrow> op_action gl1 = action_none)
      \<and> length (modes_given (op_firstlist gl1) rest) \<le> 1"
    by (rule "3.IH" [OF g]) (use "3.prems"(1) g s in auto)
  have "act \<noteq> action_none" if "mode_of c = Some act" for act
    using that by (auto simp: mode_of_def split: if_splits)
  then show ?case
    using IH s by (auto split: if_splits option.splits list.splits)
qed simp

text \<open>C6. The command line (\<^verbatim>\<open>parse_cmdline\<close>): if it is accepted, at most one mode of operation was given on
  it, in any order among the other options; that mode is the one that runs, and the list mode if there
  was none; a dry run is one of the update mode, and at most 20 site names are kept, in order.\<close>

theorem command_line_one_mode:
  assumes "parse_cmdline argv0 results args = Inr (gl, warned)"
  shows "length (modes_given False results) \<le> 1
    \<and> op_action gl = (case modes_given False results of [] \<Rightarrow> action_list | act # _ \<Rightarrow> act)
    \<and> (op_dry_run gl \<longrightarrow> op_action gl = action_update)
    \<and> op_sitenames gl = take 20 args"
proof -
  obtain gl1 where p: "parse_options (base_name argv0) results no_options = Inr gl1"
    and gl: "op_action gl = (if op_action gl1 = action_none then action_list else op_action gl1)"
      "op_dry_run gl \<longrightarrow> op_action gl = action_update" "op_sitenames gl = take 20 args"
    using assms by (auto simp: parse_cmdline_def Let_def MAXSITES_def split: sum.splits if_splits)
  have "settled_list no_options" "op_firstlist no_options = False" "op_action no_options = action_none"
    by (simp_all add: settled_list_def no_options_def)
  then show ?thesis
    using parse_options_mode [OF p] gl modes_not_none [of _ False results]
    by (auto split: list.splits)
qed

definition flat_results :: "getopt_result list" where
  "flat_results = [Opt CHR ''k'' '''', Opt CHR ''l'' '''', Opt CHR ''l'' '''']"

definition flat_options :: options where
  "flat_options = no_options\<lparr>op_keepgoing := True, op_firstlist := True, op_action := action_list,
     op_listflat := True, op_sitenames := [''a'']\<rparr>"

lemma command_line_one_mode_witness:
  "length (modes_given False flat_results) \<le> 1
    \<and> op_action flat_options = (case modes_given False flat_results of [] \<Rightarrow> action_list | act # _ \<Rightarrow> act)
    \<and> op_sitenames flat_options = take 20 [''a'']"
proof -
  have "parse_cmdline ''sitecopy'' flat_results [''a''] = Inr (flat_options, [])"
    by (simp add: flat_results_def flat_options_def parse_cmdline_def one_option_def set_action_def
        no_options_def Let_def MAXSITES_def)
  from command_line_one_mode [OF this] show ?thesis by blast
qed

section \<open>A dry run\<close>

lemma parsed_dry_run:
  assumes "parse_cmdline argv0 results args = Inr (gl, warned)" "op_dry_run gl"
  shows "op_action gl = action_update"
  using assms by (auto simp: parse_cmdline_def Let_def split: sum.splits if_splits)

lemma dry_run_site:
  assumes view: "\<And>i w. view (ap_set_input A i w) = view w" and gl: "op_dry_run gl"
    and a: "act_on_site A progname gl action_update s w = Some (ret, s', w', texts)"
  shows "view w' = view w"
proof -
  let ?s = "s\<lparr>s_keep_going := op_keepgoing gl, s_driver := Some null_driver\<rparr>"
  have "gives (\<lambda>x. view (r_world (fst x)) = view w)
    (site_update (null_driver_ops (ap_time A)) (console_os progname A gl) (start_run ?s w))"
    by (rule null.site_update_world [where W = "\<lambda>x. view x = view w"])
      (simp_all add: null_driver_ops_def start_run_def console_os_def case_prod_beta' Let_def view)
  then show ?thesis
    using a gl by (auto simp: act_on_site_def act_update_def Let_def gives_def ended_def bind_eq_Some_conv
        split: if_splits)
qed

lemma dry_run_sites:
  assumes view: "\<And>i w. view (ap_set_input A i w) = view w" and gl: "op_dry_run gl"
  shows "act_sites A progname gl action_update sites ret w = Some (ret', w', texts) \<Longrightarrow> view w' = view w"
proof (induction sites arbitrary: ret w ret' w' texts)
  case (Cons s sites)
  show ?case
  proof (cases "s_use_this s \<or> op_allsites gl")
    case True
    then obtain r s' w1 t1 t2 where "act_on_site A progname gl action_update s w = Some (r, s', w1, t1)"
      "act_sites A progname gl action_update sites r w1 = Some (ret', w', t2)"
      using Cons.prems by (auto simp: bind_eq_Some_conv)
    then show ?thesis using Cons.IH dry_run_site [OF view gl] by metis
  qed (use Cons in auto)
qed simp

lemma dry_run_main:
  assumes view: "\<And>i w. view (ap_set_input A i w) = view w" and gl: "op_dry_run gl" "op_action gl = action_update"
    and run: "main_sites A e progname gl sites w = Some (ret, w', texts)"
  shows "view w' = view w"
  using run dry_run_sites [OF view gl(1), of progname] gl(2)
  by (auto simp: main_sites_def bind_eq_Some_conv Let_def split: prod.splits if_splits)

text \<open>C5. A dry run (\<^verbatim>\<open>sitecopy --update --dry-run\<close>, with any other options) changes nothing: whatever
  the sites, the tree and the stored states are, the world at the end is the world at the start, apart
  from the answers of the user that were read.  In particular no storage file is written.\<close>

theorem dry_run_changes_nothing:
  assumes "parse_cmdline argv0 results args = Inr (gl, warned)" and dry: "op_dry_run gl"
    and view: "\<And>i w. view (ap_set_input A i w) = view w"
    and run: "sitecopy_main A argv0 results args w = Some (ret, w', texts)"
  shows "view w' = view w"
  using run assms(1) dry_run_main [OF view dry parsed_dry_run [OF assms(1,2)]]
  by (auto simp: sitecopy_main_def Let_def bind_eq_Some_conv split: sum.splits)
    (metis sum.exhaust surj_pair)

text \<open>A site whose stored state is empty and whose tree has one file, which is new.\<close>

definition dry_app :: "string option app" where
  "dry_app = disk_app\<lparr>ap_parser := (\<lambda>_. (events (state_tree (''sitecopy'', ''0.16.6'') zero_site), None))\<rparr>"

definition dry_results :: "getopt_result list" where
  "dry_results = [Opt CHR ''a'' '''', Opt CHR ''u'' '''', Opt CHR ''n'' '''']"

definition dry_options :: options where
  "dry_options = no_options\<lparr>op_allsites := True, op_action := action_update, op_dry_run := True\<rparr>"

lemma dry_runs:
  "case sitecopy_main dry_app ''sitecopy'' dry_results [] (Some ''text'') of
     Some (ret, w, texts) \<Rightarrow> ret = 0 \<and> list_ex (\<lambda>t. case t of Event (fe_updated f success e) \<Rightarrow> success | _ \<Rightarrow> False) texts
   | None \<Rightarrow> False"
  by code_simp

lemma dry_run_changes_nothing_witness:
  "\<exists>texts. sitecopy_main dry_app ''sitecopy'' dry_results [] (Some ''text'') = Some (0, Some ''text'', texts)"
proof -
  obtain w texts where r: "sitecopy_main dry_app ''sitecopy'' dry_results [] (Some ''text'') = Some (0, w, texts)"
    using dry_runs by (auto split: option.splits)
  have p: "parse_cmdline ''sitecopy'' dry_results [] = Inr (dry_options, [])" "op_dry_run dry_options"
    by (simp_all add: parse_cmdline_def one_option_def set_action_def dry_results_def dry_options_def
        no_options_def Let_def MAXSITES_def)
  have "w = Some ''text''"
    by (rule dry_run_changes_nothing [OF p _ r, where view = "\<lambda>w. w"]) (simp add: dry_app_def disk_app_def)
  then show ?thesis using r by simp
qed

section \<open>All sites, also the rejected ones\<close>

lemma rejected_site:
  assumes "s_protocol s = siteproto_unknown"
  shows "rcfile_verify e s = Some (SITE_UNSUPPORTED, s)"
  using assms by (simp add: rcfile_verify_def verify_protocol_def)

lemma verify_sites_keeps_rejected:
  assumes "verify_sites A e progname True act w sites = Some (n, sites', texts)"
    and "s \<in> set sites" "s_protocol s = siteproto_unknown" "s_driver s = None"
  shows "\<exists>s' \<in> set sites'. s_driver s' = None \<and> \<not> s_use_this s'"
  using assms
proof (induction sites arbitrary: n sites' texts)
  case (Cons s1 sites)
  obtain t1 ok said n' rest more where
    v: "verify_site A e progname act w s1 = Some (t1, ok, said)"
    and r: "verify_sites A e progname True act w sites = Some (n', rest, more)"
    and t: "sites' = t1 # rest"
    using Cons.prems(1) by (auto simp: bind_eq_Some_conv)
  show ?case
  proof (cases "s = s1")
    case True
    then have "s_driver t1 = None \<and> \<not> s_use_this t1"
      using v rejected_site [OF Cons.prems(3)] Cons.prems(4) by (auto simp: verify_site_def)
    then show ?thesis using t by auto
  next
    case False
    then show ?thesis using Cons.IH [OF r _ Cons.prems(3,4)] Cons.prems(2) t by auto
  qed
qed simp

lemma act_sites_crash:
  assumes "op_allsites gl" "s \<in> set sites" "\<And>w. act_on_site A progname gl act s w = None"
  shows "act_sites A progname gl act sites ret w = None"
  using assms(2)
proof (induction sites arbitrary: ret w)
  case (Cons t sites)
  then show ?case
    using assms(1,3) by (cases "act_on_site A progname gl act t w") auto
qed simp

text \<open>C39. \<open>verify_sites\<close> drops a site by clearing \<^verbatim>\<open>use_this\<close>, but \<open>main\<close> acts on every site when
  \<^verbatim>\<open>--allsites\<close> is given (\<^verbatim>\<open>current->use_this || allsites\<close>).  If some site is fine, a site with an
  unknown protocol, which was reported as skipped, is fetched or verified all the same, through a driver
  pointer that is NULL: the program crashes.\<close>

theorem allsites_acts_on_rejected:
  assumes gl: "op_allsites gl" "op_action gl = action_fetch \<or> op_action gl = action_verify"
    and v: "verify_sites A e progname True (op_action gl) w sites = Some (n, sites', texts)" "n \<noteq> 0"
    and s: "s \<in> set sites" "s_protocol s = siteproto_unknown" "s_driver s = None"
  shows "main_sites A e progname gl sites w = None"
proof -
  obtain s' where s': "s' \<in> set sites'" "s_driver s' = None"
    using verify_sites_keeps_rejected [OF v(1) s] by blast
  have "act_on_site A progname gl (op_action gl) s' w = None" for w
    using s'(2) gl(2) by (auto simp: act_on_site_def act_fetch_def act_verify_def)
  then have "act_sites A progname gl (op_action gl) sites' ret w = None" for ret w
    by (rule act_sites_crash [OF gl(1) s'(1)])
  then show ?thesis using gl v by (auto simp: main_sites_def Let_def)
qed

definition odd_site :: site where
  "odd_site = default_site\<lparr>s_name := ''b'', s_protocol := siteproto_unknown, s_proto_string := ''gopher''\<rparr>"

definition fetch_all :: options where
  "fetch_all = no_options\<lparr>op_allsites := True, op_action := action_fetch\<rparr>"

lemma odd_sites_verified:
  "map_option fst (verify_sites disk_app (app_env disk_app False []) ''sitecopy'' True action_fetch None
     [disk_site, odd_site]) = Some 1"
  by code_simp

lemma allsites_acts_on_rejected_witness:
  "main_sites disk_app (app_env disk_app False []) ''sitecopy'' fetch_all [disk_site, odd_site] None = None"
proof -
  obtain n sites' texts where "verify_sites disk_app (app_env disk_app False []) ''sitecopy'' True action_fetch None
     [disk_site, odd_site] = Some (n, sites', texts)" "n \<noteq> 0"
    using odd_sites_verified by force
  then show ?thesis
    by (intro allsites_acts_on_rejected [where s = odd_site])
      (simp_all add: fetch_all_def no_options_def odd_site_def default_site_def zero_site_def)
qed

end
