(* ===== verification/Ne_Uri.thy ===== *)
theory Ne_Uri
  imports Site_Store Rcfile_Read
begin

text \<open>
  URIs and paths, \<^verbatim>\<open>lib/neon/ne_uri.c\<close>: the classes of characters, percent-escaping, parsing a URI
  reference, resolving it against a base, and the tests on paths that the WebDAV driver uses.  A
  table look-up outside the table, or a read past the end of the string, is undefined.
\<close>

section \<open>Classes of characters\<close>

datatype uclass = PS | PC | DS | DT | US | TD | FS | CL | AT | QU | DG | AL | GD | SD | OT

definition uri_table :: "uclass list" where
  "uri_table =
     replicate 32 OT
     @ [OT, SD, OT, GD, SD, PC, SD, SD, SD, SD, SD, PS, SD, DS, DT, FS]
     @ replicate 10 DG @ [CL, SD, OT, SD, OT, QU]
     @ AT # replicate 15 AL
     @ replicate 11 AL @ [GD, OT, GD, OT, US]
     @ OT # replicate 15 AL
     @ replicate 11 AL @ [OT, OT, OT, TD, OT]
     @ replicate 128 OT"

text \<open>The index is the character as an unsigned int: a plain \<^verbatim>\<open>char\<close> is signed.\<close>

definition uri_lookup :: "int \<Rightarrow> uclass option" where
  "uri_lookup ch = (if 0 \<le> ch \<and> ch < 256 then Some (uri_table ! nat ch) else None)"

definition URI_ALPHA :: "uclass set" where "URI_ALPHA = {AL}"
definition URI_UNRESERVED :: "uclass set" where "URI_UNRESERVED = {AL, DG, DS, DT, US, TD}"
definition URI_SCHEME :: "uclass set" where "URI_SCHEME = {AL, DG, PS, DS, DT}"
definition URI_SUBDELIM :: "uclass set" where "URI_SUBDELIM = {PS, SD}"
definition URI_GENDELIM :: "uclass set" where "URI_GENDELIM = {GD, CL, FS, AT, QU}"
definition URI_USERINFO :: "uclass set" where "URI_USERINFO = URI_UNRESERVED \<union> {PC} \<union> URI_SUBDELIM \<union> {CL}"
definition URI_PCHAR :: "uclass set" where "URI_PCHAR = URI_UNRESERVED \<union> {PC} \<union> URI_SUBDELIM \<union> {CL, AT}"
definition URI_SEGCHAR :: "uclass set" where "URI_SEGCHAR = URI_PCHAR \<union> {FS}"
definition URI_QUERY :: "uclass set" where "URI_QUERY = URI_PCHAR \<union> {FS, QU}"
definition URI_ESCAPE :: "uclass set" where "URI_ESCAPE = (URI_GENDELIM - {FS}) \<union> URI_SUBDELIM \<union> {OT, PC}"

lemmas uri_classes = URI_ALPHA_def URI_UNRESERVED_def URI_SCHEME_def URI_SUBDELIM_def URI_GENDELIM_def
  URI_USERINFO_def URI_PCHAR_def URI_SEGCHAR_def URI_QUERY_def URI_ESCAPE_def

section \<open>Percent-escaping\<close>

definition path_escape_ch :: "char \<Rightarrow> bool" where
  "path_escape_ch c \<longleftrightarrow> uri_table ! code c \<in> URI_ESCAPE"

definition ne_path_escape :: "string \<Rightarrow> string" where
  "ne_path_escape path =
     (if list_all (\<lambda>c. \<not> path_escape_ch c) path then path
      else concat (map (\<lambda>c. if path_escape_ch c then CHR ''%'' # show_hex2 (code c) else [c]) path))"

definition isxdigit :: "char \<Rightarrow> bool" where
  "isxdigit c \<longleftrightarrow> isdigit c \<or> (65 \<le> code c \<and> code c \<le> 70) \<or> (97 \<le> code c \<and> code c \<le> 102)"

text \<open>The loop of \<open>ne_path_unescape\<close>.  The caller sees the buffer up to its first NUL.\<close>

fun unescape_path :: "string \<Rightarrow> string option" where
  "unescape_path [] = Some []"
| "unescape_path (c # r) =
     (if c = CHR ''%'' then
        (case r of
           a # b # t \<Rightarrow>
             if \<not> isxdigit a \<or> \<not> isxdigit b then None
             else map_option ((#) (char_of (digit_val a * 16 + digit_val b))) (unescape_path t)
         | _ \<Rightarrow> None)
      else map_option ((#) c) (unescape_path r))"

definition ne_path_unescape :: "string \<Rightarrow> string option" where
  "ne_path_unescape uri = map_option c_string (unescape_path uri)"

section \<open>Tests on paths\<close>

definition ne_path_has_trailing_slash :: "string \<Rightarrow> bool" where
  "ne_path_has_trailing_slash uri \<longleftrightarrow> uri \<noteq> [] \<and> last uri = CHR ''/''"

definition ne_path_parent :: "string \<Rightarrow> string option" where
  "ne_path_parent uri =
     (let u = (if ne_path_has_trailing_slash uri then butlast uri else uri) in
      map_option fst (strrchr_split u CHR ''/''))"

text \<open>Whether \<open>ne_path_compare\<close> returns zero.\<close>

definition ne_path_compare :: "string \<Rightarrow> string \<Rightarrow> bool" where
  "ne_path_compare a b \<longleftrightarrow>
     strcasecmp_eq a b \<or>
     (let traila = ne_path_has_trailing_slash a; trailb = ne_path_has_trailing_slash b;
          lena = int (length a); lenb = int (length b) in
      traila \<noteq> trailb \<and> \<bar>lena - lenb\<bar> = 1
      \<and> ((traila \<and> lena > lenb) \<or> (trailb \<and> lenb > lena))
      \<and> strcasecmp_eq (take (min (length a) (length b)) a) (take (min (length a) (length b)) b))"

definition ne_path_childof :: "string \<Rightarrow> string \<Rightarrow> bool" where
  "ne_path_childof parent child \<longleftrightarrow>
     length parent < length child \<and> ne_path_compare parent (take (length parent) child)"

section \<open>URI references\<close>

record ne_uri =
  u_scheme :: "string option"
  u_host :: "string option"
  u_userinfo :: "string option"
  u_port :: int
  u_path :: string
  u_query :: "string option"
  u_fragment :: "string option"

definition zero_uri :: ne_uri where
  "zero_uri = \<lparr>u_scheme = None, u_host = None, u_userinfo = None, u_port = 0, u_path = [],
     u_query = None, u_fragment = None\<rparr>"

definition ne_uri_defaultport :: "string \<Rightarrow> int" where
  "ne_uri_defaultport scheme =
     (if strcasecmp_eq scheme ''http'' then 80 else if strcasecmp_eq scheme ''https'' then 443 else 0)"

text \<open>\<open>span cls s\<close>: the loop \<^verbatim>\<open>while (uri_lookup(*p) & cls) p++\<close>; it stops at the NUL.\<close>

fun span :: "uclass set \<Rightarrow> string \<Rightarrow> (string \<times> string) option" where
  "span cls [] = Some ([], [])"
| "span cls (c # r) =
     do { k \<leftarrow> uri_lookup (signed_char c);
          if k \<in> cls then map_option (\<lambda>(p, t). (c # p, t)) (span cls r) else Some ([], c # r) }"

text \<open>The scheme: what it is, and what follows its colon.\<close>

definition parse_scheme :: "string \<Rightarrow> (string option \<times> string) option" where
  "parse_scheme s =
     (case s of
        [] \<Rightarrow> Some (None, s)
      | c # _ \<Rightarrow>
          do { k \<leftarrow> uri_lookup (signed_char c);
               if k \<in> URI_ALPHA then
                 do { (p, t) \<leftarrow> span URI_SCHEME s;
                      Some (case t of x # r \<Rightarrow> if x = CHR '':'' then (Some p, r) else (None, s)
                            | [] \<Rightarrow> (None, s)) }
               else Some (None, s) })"

text \<open>
  The host and the port, from the part \<open>a\<close> of the authority that follows the user and the rest \<open>r\<close>
  of the string; the outer \<^const>\<open>None\<close> is a read past the end, the inner one the result \<open>-1\<close>.
  Behind an address in brackets the code looks at \<^verbatim>\<open>p + 1\<close> even where there is no colon.
\<close>

definition parse_host :: "string \<Rightarrow> string \<Rightarrow> (string \<times> int) option option" where
  "parse_host a r =
     (case a of
        x # _ \<Rightarrow>
          if x = CHR ''['' then
            (let inner = takeWhile (\<lambda>c. c \<noteq> CHR '']'') a; t = dropWhile (\<lambda>c. c \<noteq> CHR '']'') a in
             case t of
               [] \<Rightarrow> Some None
             | _ # t \<Rightarrow>
                 if t \<noteq> [] \<and> hd t \<noteq> CHR '':'' then Some None
                 else if t = [CHR '':''] then Some (Some (inner @ '']'', 0))
                 else if t \<noteq> [] then Some (Some (inner @ '']'', atoi (tl t @ r)))
                 else if r = [] then None
                 else Some (Some (inner @ '']'', atoi (tl r))))
          else
            (case strrchr_split (tl a) CHR '':'' of
               None \<Rightarrow> Some (Some (a, 0))
             | Some (h, digs) \<Rightarrow>
                 Some (Some (x # butlast h, if digs = [] then 0 else atoi (digs @ r))))
      | [] \<Rightarrow> Some (Some ([], 0)))"

definition parse_query :: "string \<Rightarrow> (string option \<times> string option) option option" where
  "parse_query s =
     (case s of
        [] \<Rightarrow> Some (Some (None, None))
      | c # r \<Rightarrow>
          do { (q, t) \<leftarrow> span URI_QUERY r;
               if c = CHR ''?'' then
                 (case t of
                    [] \<Rightarrow> Some (Some (Some q, None))
                  | d # r' \<Rightarrow>
                      do { (f, _) \<leftarrow> span URI_QUERY r';
                           Some (if d = CHR ''#'' then Some (Some q, Some f) else None) })
               else Some (if c = CHR ''#'' then Some (None, Some q) else None) })"

definition ne_uri_parse :: "string \<Rightarrow> ne_uri option option" where
  "ne_uri_parse uri =
     do { (scheme, s) \<leftarrow> parse_scheme uri;
          (auth, s) \<leftarrow>
            (if take 2 s = ''//'' then
               (let pa = takeWhile (\<lambda>c. c \<noteq> CHR ''/'') (drop 2 s);
                    r = dropWhile (\<lambda>c. c \<noteq> CHR ''/'') (drop 2 s) in
                do { (u, t) \<leftarrow> span URI_USERINFO pa;
                     let (user, a) = (if t \<noteq> [] \<and> hd t = CHR ''@'' then (Some u, tl t) else (None, pa));
                     hp \<leftarrow> parse_host a r;
                     Some (map_option (\<lambda>(h, p). (user, Some h, p)) hp, if r = [] then ''/'' else r) })
             else Some (Some (None, None, 0), s));
          (case auth of
             None \<Rightarrow> Some None
           | Some (user, host, port) \<Rightarrow>
               do { (path, t) \<leftarrow> span URI_SEGCHAR s;
                    qf \<leftarrow> parse_query t;
                    Some (map_option (\<lambda>(q, f).
                      \<lparr>u_scheme = scheme, u_host = host, u_userinfo = user, u_port = port, u_path = path,
                       u_query = q, u_fragment = f\<rparr>) qf) }) }"

definition merge_paths :: "ne_uri \<Rightarrow> string \<Rightarrow> string" where
  "merge_paths bas path =
     (if u_host bas \<noteq> None \<and> u_path bas = [] then CHR ''/'' # path
      else case strrchr_split (u_path bas) CHR ''/'' of
        None \<Rightarrow> path
      | Some (p, _) \<Rightarrow> p @ path)"

text \<open>\<open>trim_last\<close> cuts the output buffer at its last slash, or empties it.\<close>

definition trim_last :: "string \<Rightarrow> string" where
  "trim_last out = (case strrchr_split out CHR ''/'' of None \<Rightarrow> [] | Some (p, _) \<Rightarrow> butlast p)"

function dot_loop :: "string \<Rightarrow> string \<Rightarrow> string" where
  "dot_loop s out =
     (if s = [] then out
      else if take 2 s = ''./'' then dot_loop (drop 2 s) out
      else if take 3 s = ''../'' then dot_loop (drop 3 s) out
      else if take 3 s = ''/./'' then dot_loop (drop 2 s) out
      else if s = ''/.'' then dot_loop ''/'' out
      else if take 4 s = ''/../'' \<or> s = ''/..'' then
        dot_loop (if length s = 3 then ''/'' else drop 3 s) (trim_last out)
      else if s = ''.'' \<or> s = ''..'' then dot_loop [] out
      else
        (let rest = (if hd s = CHR ''/'' then tl s else s);
             seg = takeWhile (\<lambda>c. c \<noteq> CHR ''/'') rest
         in dot_loop (drop (length s - length rest + length seg) s)
              (out @ take (length s - length rest + length seg) s)))"
  by auto
termination
proof (relation "measure (\<lambda>(s, out). length s)", goal_cases)
  case (8 s out rest seg)
  then have "0 < length s - length rest + length seg"
    by (cases s) auto
  then show ?case using 8 by (auto simp: in_measure)
qed auto

declare dot_loop.simps [simp del]

definition remove_dot_segments :: "string \<Rightarrow> string" where
  "remove_dot_segments path = dot_loop path []"

definition copy_authority :: "ne_uri \<Rightarrow> ne_uri \<Rightarrow> ne_uri" where
  "copy_authority dest src =
     dest\<lparr>u_host := (if u_host src \<noteq> None then u_host src else u_host dest), u_port := u_port src,
       u_userinfo := (if u_userinfo src \<noteq> None then u_userinfo src else u_userinfo dest)\<rparr>"

definition ne_uri_resolve :: "ne_uri \<Rightarrow> ne_uri \<Rightarrow> ne_uri" where
  "ne_uri_resolve bas rel =
     (let t = zero_uri;
          t = (if u_scheme rel \<noteq> None then
                 (copy_authority (t\<lparr>u_scheme := u_scheme rel\<rparr>) rel)
                   \<lparr>u_path := remove_dot_segments (u_path rel), u_query := u_query rel\<rparr>
               else
                 (let t = (if u_host rel \<noteq> None then
                             (copy_authority t rel)
                               \<lparr>u_path := remove_dot_segments (u_path rel), u_query := u_query rel\<rparr>
                           else
                             copy_authority
                               (if u_path rel = [] then
                                  t\<lparr>u_path := u_path bas,
                                    u_query := (if u_query rel \<noteq> None then u_query rel else u_query bas)\<rparr>
                                else
                                  t\<lparr>u_path := remove_dot_segments
                                      (if hd (u_path rel) = CHR ''/'' then u_path rel
                                       else merge_paths bas (u_path rel)),
                                    u_query := u_query rel\<rparr>) bas)
                  in t\<lparr>u_scheme := u_scheme bas\<rparr>))
      in t\<lparr>u_fragment := u_fragment rel\<rparr>)"

definition ne_uri_unparse :: "ne_uri \<Rightarrow> string" where
  "ne_uri_unparse u =
     (case u_scheme u of Some s \<Rightarrow> s @ '':'' | None \<Rightarrow> [])
     @ (case u_host u of
          None \<Rightarrow> []
        | Some h \<Rightarrow>
            ''//'' @ (case u_userinfo u of Some i \<Rightarrow> i @ ''@'' | None \<Rightarrow> []) @ h
            @ (if u_port u > 0 \<and> (case u_scheme u of None \<Rightarrow> True | Some s \<Rightarrow> ne_uri_defaultport s \<noteq> u_port u)
               then '':'' @ show_int (u_port u) else []))
     @ u_path u
     @ (case u_query u of Some q \<Rightarrow> ''?'' @ q | None \<Rightarrow> [])
     @ (case u_fragment u of Some f \<Rightarrow> ''#'' @ f | None \<Rightarrow> [])"

section \<open>Escaping and unescaping\<close>

definition uesc :: "char \<Rightarrow> string" where
  "uesc c = (if path_escape_ch c then CHR ''%'' # show_hex2 (code c) else [c])"

lemma uescaped: "ne_path_escape path = concat (map uesc path)"
proof (cases "list_all (\<lambda>c. \<not> path_escape_ch c) path")
  case True
  then have "concat (map uesc path) = path"
    by (induction path) (auto simp: uesc_def)
  then show ?thesis using True by (simp add: ne_path_escape_def)
next
  case False
  then show ?thesis by (simp add: ne_path_escape_def uesc_def [abs_def])
qed

lemma escape_append: "ne_path_escape (s @ t) = ne_path_escape s @ ne_path_escape t"
  by (simp add: uescaped)

lemma escape_Cons: "ne_path_escape (c # t) = uesc c @ ne_path_escape t"
  by (simp add: uescaped)

lemma escape_Nil [simp]: "ne_path_escape [] = []"
  by (simp add: uescaped)

lemma table_facts:
  "\<forall>n \<in> set [0..<256]. uri_table ! n \<notin> URI_ESCAPE \<longrightarrow> n < 128 \<and> n \<noteq> 37 \<and> uri_table ! n \<in> URI_SEGCHAR"
  by code_simp

lemma unescaped_char:
  assumes "\<not> path_escape_ch c"
  shows "code c < 128" "c \<noteq> CHR ''%''" "uri_table ! code c \<in> URI_SEGCHAR"
  using bspec [OF table_facts, of "code c"] assms code_bound [of c]
  by (auto simp: path_escape_ch_def)

lemma hex_facts: "\<forall>n \<in> set ([48..<58] @ [97..<103]). uri_table ! n \<in> URI_SEGCHAR"
  by code_simp

lemma hex_char:
  assumes "d < 16"
  shows "isxdigit (digit_char d)" "uri_table ! code (digit_char d) \<in> URI_SEGCHAR"
    "code (digit_char d) < 128" "digit_char d \<noteq> CHR ''/''"
proof -
  let ?n = "if d < 10 then 48 + d else 87 + d"
  have n: "code (digit_char d) = ?n" using assms by (rule code_digit_char)
  then show "isxdigit (digit_char d)" "code (digit_char d) < 128"
    using assms by (auto simp: isxdigit_def isdigit_def)
  have "?n \<in> set ([48..<58] @ [97..<103])" using assms by auto
  then show "uri_table ! code (digit_char d) \<in> URI_SEGCHAR" using hex_facts n by metis
  have "code (digit_char d) \<noteq> code CHR ''/''" using n by simp
  then show "digit_char d \<noteq> CHR ''/''" by metis
qed

lemma uesc_cases:
  obtains (plain) "\<not> path_escape_ch c" "uesc c = [c]"
  | (hex) "path_escape_ch c"
      "uesc c = [CHR ''%'', digit_char (code c div 16), digit_char (code c mod 16)]"
  by (cases "path_escape_ch c") (auto simp: uesc_def show_hex2_byte code_bound)

lemma unescape_uesc: "unescape_path (uesc c @ r) = map_option ((#) c) (unescape_path r)"
proof (cases c rule: uesc_cases)
  case plain
  then show ?thesis by (simp add: unescaped_char)
next
  case hex
  have "code c div 16 < 16" by (rule high_nibble)
  then show ?thesis by (simp add: hex hex_char)
qed

lemma unescape_escape: "unescape_path (ne_path_escape path) = Some path"
proof -
  have "unescape_path (concat (map uesc path) @ r) = map_option ((@) path) (unescape_path r)" for r
    by (induction path) (auto simp: unescape_uesc option.map_comp comp_def option.map_ident)
  from this [of "[]"] show ?thesis by (simp add: uescaped)
qed

text \<open>The characters of an escaped path are in the class of path characters.\<close>

definition seg_char :: "char \<Rightarrow> bool" where
  "seg_char c \<longleftrightarrow> code c < 128 \<and> uri_table ! code c \<in> URI_SEGCHAR"

lemma seg_char_lookup:
  "seg_char c \<Longrightarrow> uri_lookup (signed_char c) = Some (uri_table ! code c) \<and> uri_table ! code c \<in> URI_SEGCHAR"
  by (auto simp: seg_char_def uri_lookup_def signed_char_def)

lemma uesc_seg_char: "x \<in> set (uesc c) \<Longrightarrow> seg_char x"
proof (cases c rule: uesc_cases)
  case plain
  moreover assume "x \<in> set (uesc c)"
  ultimately show ?thesis by (simp add: seg_char_def unescaped_char)
next
  case hex
  have "code c div 16 < 16" by (rule high_nibble)
  moreover have "seg_char (CHR ''%'')" by code_simp
  moreover assume "x \<in> set (uesc c)"
  ultimately show ?thesis by (auto simp: hex seg_char_def hex_char)
qed

lemma escape_seg_chars: "list_all seg_char (ne_path_escape path)"
  by (auto simp: uescaped list_all_iff dest: uesc_seg_char)

lemma span_all: "list_all seg_char p \<Longrightarrow> span URI_SEGCHAR p = Some (p, [])"
proof (induction p)
  case (Cons c p)
  then have "uri_lookup (signed_char c) = Some (uri_table ! code c) \<and> uri_table ! code c \<in> URI_SEGCHAR"
    by (intro seg_char_lookup) simp
  then show ?case using Cons by simp
qed simp

text \<open>A path that is absolute, and not the start of an authority, is parsed as just a path.\<close>

lemma parse_path:
  assumes "list_all seg_char p" "p \<noteq> []" "hd p = CHR ''/''" "take 2 p \<noteq> ''//''"
  shows "ne_uri_parse p = Some (Some (zero_uri\<lparr>u_path := p\<rparr>))"
proof -
  obtain r where p: "p = CHR ''/'' # r" using assms by (cases p) auto
  have "uri_lookup (signed_char CHR ''/'') = Some FS" by code_simp
  then have "parse_scheme p = Some (None, p)" by (simp add: parse_scheme_def p URI_ALPHA_def)
  then show ?thesis
    using assms span_all [of p]
    by (simp add: ne_uri_parse_def parse_query_def zero_uri_def)
qed

section \<open>Dot segments\<close>

definition path_of :: "string list \<Rightarrow> string" where
  "path_of segs = concat (map ((#) CHR ''/'') segs)"

definition good_seg :: "string \<Rightarrow> bool" where
  "good_seg s \<longleftrightarrow> CHR ''/'' \<notin> set s \<and> s \<noteq> ''.'' \<and> s \<noteq> ''..''"

lemma path_of_simps [simp]:
  "path_of [] = []" "path_of (s # segs) = CHR ''/'' # s @ path_of segs"
  "path_of (segs @ segs') = path_of segs @ path_of segs'"
  by (simp_all add: path_of_def)

lemma path_of_hd: "path_of segs = [] \<or> hd (path_of segs) = CHR ''/''"
  by (cases segs) auto

lemma takeWhile_seg:
  assumes "CHR ''/'' \<notin> set s"
  shows "takeWhile (\<lambda>c. c \<noteq> CHR ''/'') (s @ path_of segs) = s"
  using assms by (cases segs) (auto simp: takeWhile_append takeWhile_eq_all_conv)

lemma good_seg_start:
  assumes "good_seg s" "r = [] \<or> hd r = CHR ''/''"
  shows "take 2 (s @ r) \<noteq> ''./''" "s @ r \<noteq> ''.''" "take 3 (s @ r) \<noteq> ''../''" "s @ r \<noteq> ''..''"
proof -
  have s: "s = [] \<or> (\<exists>a. s = [a]) \<or> (\<exists>a b. s = [a, b]) \<or> (\<exists>a b c t. s = a # b # c # t)"
    by (metis list.exhaust)
  have r: "r = [] \<or> (\<exists>t. r = CHR ''/'' # t)" using assms(2) by (cases r) auto
  from s r assms(1)
  show "take 2 (s @ r) \<noteq> ''./''" "s @ r \<noteq> ''.''" "take 3 (s @ r) \<noteq> ''../''" "s @ r \<noteq> ''..''"
    by (auto simp: good_seg_def numeral_eq_Suc)
qed

lemma dot_loop_seg:
  assumes "good_seg s"
  shows "dot_loop (CHR ''/'' # s @ path_of segs) out = dot_loop (path_of segs) (out @ CHR ''/'' # s)"
proof -
  have sl: "CHR ''/'' \<notin> set s" using assms by (simp add: good_seg_def)
  have "take 3 (CHR ''/'' # s @ path_of segs) \<noteq> ''/./''" "CHR ''/'' # s @ path_of segs \<noteq> ''/.''"
    "take 4 (CHR ''/'' # s @ path_of segs) \<noteq> ''/../''" "CHR ''/'' # s @ path_of segs \<noteq> ''/..''"
    using good_seg_start [OF assms path_of_hd [of segs]] by (simp_all add: numeral_eq_Suc)
  then show ?thesis
    using takeWhile_seg [OF sl, of segs] by (subst dot_loop.simps) (simp add: Let_def)
qed

lemma remove_dot_segments_id:
  assumes "list_all good_seg segs"
  shows "remove_dot_segments (path_of segs) = path_of segs"
proof -
  have "dot_loop (path_of segs) out = out @ path_of segs" for out
    using assms
  proof (induction segs arbitrary: out)
    case Nil
    then show ?case by (simp add: dot_loop.simps)
  next
    case (Cons s segs)
    then show ?case by (simp add: dot_loop_seg)
  qed
  then show ?thesis by (simp add: remove_dot_segments_def)
qed

fun segments :: "string \<Rightarrow> string list" where
  "segments [] = [[]]"
| "segments (c # r) = (if c = CHR ''/'' then [] # segments r
     else (c # hd (segments r)) # tl (segments r))"

lemma segments_ne [simp]: "segments s \<noteq> []"
  by (cases s) auto

lemma segments_join: "segments (s @ CHR ''/'' # t) = segments s @ segments t"
  by (induction s) auto

lemma segments_flat: "CHR ''/'' \<notin> set s \<Longrightarrow> segments s = [s]"
  by (induction s) auto

lemma segments_trim: "list_all good_seg (segments s) \<Longrightarrow> list_all good_seg (segments (trim_last s))"
proof (cases "strrchr_split s CHR ''/''")
  case None
  then show ?thesis by (simp add: trim_last_def good_seg_def)
next
  case (Some pr)
  obtain p r where pr: "pr = (p, r)" by force
  then obtain q where "s = q @ CHR ''/'' # r" "p = q @ [CHR ''/'']"
    using strrchr_split_Some [of s "CHR ''/''" p r] Some by auto
  moreover assume "list_all good_seg (segments s)"
  ultimately show ?thesis using Some pr by (simp add: trim_last_def segments_join)
qed

lemma take_eq_Cons:
  "take (numeral n) s = c # t \<longleftrightarrow> (\<exists>r. s = c # r \<and> take (pred_numeral n) r = t)"
  "take (Suc k) s = c # t \<longleftrightarrow> (\<exists>r. s = c # r \<and> take k r = t)"
  by (cases s; auto simp: numeral_eq_Suc)+

lemma dot_start:
  assumes "s = u @ t" "t = [] \<or> hd t = CHR ''/''"
    and "take 2 s \<noteq> ''./''" "take 3 s \<noteq> ''../''" "take 3 s \<noteq> ''/./''" "s \<notin> {''/.'', ''/..'', ''.'', ''..''}"
    "take 4 s \<noteq> ''/../''"
  shows "u \<noteq> ''.'' \<and> u \<noteq> ''/.'' \<and> u \<noteq> ''..'' \<and> u \<noteq> ''/..''"
  using assms by (cases t) (auto simp: numeral_eq_Suc)

text \<open>One segment moves from the input to the output.\<close>

lemma dot_loop_move:
  assumes "s \<noteq> []" "take 2 s \<noteq> ''./''" "take 3 s \<noteq> ''../''" "take 3 s \<noteq> ''/./''" "s \<noteq> ''/.''"
    "\<not> (take 4 s = ''/../'' \<or> s = ''/..'')" "\<not> (s = ''.'' \<or> s = ''..'')"
    and "out = [] \<or> hd s = CHR ''/''" "list_all good_seg (segments out)"
  obtains t u where "dot_loop s out = dot_loop t (out @ u)" "t = [] \<or> hd t = CHR ''/''"
    "length t < length s" "list_all good_seg (segments (out @ u))"
proof -
  let ?rest = "if hd s = CHR ''/'' then tl s else s"
  let ?seg = "takeWhile (\<lambda>c. c \<noteq> CHR ''/'') ?rest"
  let ?t = "dropWhile (\<lambda>c. c \<noteq> CHR ''/'') ?rest"
  let ?u = "if hd s = CHR ''/'' then CHR ''/'' # ?seg else ?seg"
  have s: "s = ?u @ ?t" using assms(1) by (cases s) auto
  have t: "?t = [] \<or> hd ?t = CHR ''/''"
    using hd_dropWhile [of "\<lambda>c. c \<noteq> CHR ''/''" ?rest] by auto
  have len: "length s - length ?rest + length ?seg = length ?u" using assms(1) by (cases s) auto
  have cut: "take (length ?u) s = ?u" "drop (length ?u) s = ?t"
    using iffD1 [OF append_eq_conv_conj s [symmetric]] by simp_all
  have step: "dot_loop s out = dot_loop ?t (out @ ?u)"
    using assms(1-7) by (subst dot_loop.simps) (simp only: if_False Let_def len cut)
  have seg: "CHR ''/'' \<notin> set ?seg" by (auto dest: set_takeWhileD)
  have "good_seg ?seg"
  proof -
    have "?u \<noteq> ''.'' \<and> ?u \<noteq> ''/.'' \<and> ?u \<noteq> ''..'' \<and> ?u \<noteq> ''/..''"
      using assms(2-7) by (intro dot_start [OF s t]) auto
    then have "?seg \<noteq> ''.'' \<and> ?seg \<noteq> ''..''" by (cases "hd s = CHR ''/''") simp_all
    then show ?thesis using seg by (simp add: good_seg_def)
  qed
  then have "list_all good_seg (segments (out @ ?u))"
    using assms(8,9) segments_flat [OF seg] by (auto simp: segments_join)
  moreover have "length ?t < length s"
  proof (cases "hd s = CHR ''/''")
    case True
    then show ?thesis using assms(1) length_dropWhile_le [of "\<lambda>c. c \<noteq> CHR ''/''" "tl s"]
      by (cases s) auto
  next
    case False
    then show ?thesis using assms(1) length_dropWhile_le [of "\<lambda>c. c \<noteq> CHR ''/''" "tl s"]
      by (cases s) auto
  qed
  ultimately show ?thesis using that step t by blast
qed

lemma dot_loop_good:
  "out = [] \<or> s = [] \<or> hd s = CHR ''/'' \<Longrightarrow> list_all good_seg (segments out)
   \<Longrightarrow> list_all good_seg (segments (dot_loop s out))"
proof (induction "length s" arbitrary: s out rule: less_induct)
  case less
  note trim = segments_trim [OF less.prems(2)]
  have go: "list_all good_seg (segments (dot_loop s out))"
    if "dot_loop s out = dot_loop t u" "length t < length s" "u = [] \<or> t = [] \<or> hd t = CHR ''/''"
      "list_all good_seg (segments u)" for t u
    using that less.hyps by simp
  show ?case
  proof (cases "s = [] \<or> take 2 s = ''./'' \<or> take 3 s = ''../'' \<or> take 3 s = ''/./'' \<or> s = ''/.''
      \<or> take 4 s = ''/../'' \<or> s = ''/..'' \<or> s = ''.'' \<or> s = ''..''")
    case False
    then obtain t u where "dot_loop s out = dot_loop t (out @ u)" "t = [] \<or> hd t = CHR ''/''"
      "length t < length s" "list_all good_seg (segments (out @ u))"
      using dot_loop_move [of s out] less.prems by auto
    then show ?thesis using less.hyps [of t "out @ u"] by auto
  next
    case True
    consider "s = []" | "take 2 s = ''./''" | "take 3 s = ''../''" | "take 3 s = ''/./''" | "s = ''/.''"
      | "take 4 s = ''/../''" | "s = ''/..''" | "s = ''.'' \<or> s = ''..''"
      using True by blast
    then show ?thesis
    proof cases
      case 1
      then show ?thesis using less.prems(2) by (simp add: dot_loop.simps)
    next
      case 2
      then show ?thesis using less.prems
        by (intro go [of "drop 2 s" out]) (auto simp: dot_loop.simps [of s] take_eq_Cons)
    next
      case 3
      then show ?thesis using less.prems
        by (intro go [of "drop 3 s" out]) (auto simp: dot_loop.simps [of s] take_eq_Cons)
    next
      case 4
      then show ?thesis using less.prems
        by (intro go [of "drop 2 s" out]) (auto simp: dot_loop.simps [of s] take_eq_Cons)
    next
      case 5
      then show ?thesis using less.prems
        by (intro go [of "''/''" out]) (auto simp: dot_loop.simps [of "''/.''"])
    next
      case 6
      then show ?thesis using trim
        by (intro go [of "drop 3 s" "trim_last out"]) (auto simp: dot_loop.simps [of s] take_eq_Cons)
    next
      case 7
      then show ?thesis using trim
        by (intro go [of "''/''" "trim_last out"]) (auto simp: dot_loop.simps [of "''/..''"])
    next
      case 8
      then show ?thesis using less.prems(2)
        by (intro go [of "[]" out]) (auto simp: dot_loop.simps [of "''.''"] dot_loop.simps [of "''..''"])
    qed
  qed
qed

text \<open>C24.  Escaping a path and unescaping the result gives the path, byte for byte, and what is sent
  in between consists of characters that a URI path may contain.\<close>
theorem path_round_trip:
  assumes "NULc \<notin> set path"
  shows "ne_path_unescape (ne_path_escape path) = Some path
    \<and> list_all seg_char (ne_path_escape path)"
  using assms by (simp add: ne_path_unescape_def unescape_escape c_string_text escape_seg_chars)

lemma path_round_trip_witness:
  "ne_path_unescape (ne_path_escape ''/a b%/#.html'') = Some ''/a b%/#.html''
   \<and> list_all seg_char (ne_path_escape ''/a b%/#.html'')"
  by (rule path_round_trip) (simp add: NULc_def)

text \<open>What the dots mean, on the segments of an absolute path: \<open>.\<close> goes away, \<open>..\<close> takes the segment
  before it along, and at the end either leaves an empty segment.  \<open>st\<close> has the segments so far, the
  last one first.\<close>

fun without_dots :: "string list \<Rightarrow> string list \<Rightarrow> string list" where
  "without_dots st [] = rev st"
| "without_dots st (s # segs) =
     (if s = ''.'' then without_dots (if segs = [] then [] # st else st) segs
      else if s = ''..'' then without_dots (if segs = [] then [] # tl st else tl st) segs
      else without_dots (s # st) segs)"

lemma path_of_rest: "path_of segs = [] \<longleftrightarrow> segs = []"
  by (cases segs) simp_all

lemma dot_loop_slash: "dot_loop ''/'' out = out @ ''/''"
  by (subst dot_loop.simps) (simp add: dot_loop.simps [of "[]"])

lemma trim_last_path:
  assumes "\<forall>s \<in> set st. CHR ''/'' \<notin> set s"
  shows "trim_last (path_of (rev st)) = path_of (rev (tl st))"
proof (cases st)
  case Nil
  then show ?thesis by (simp add: trim_last_def strrchr_split_def)
next
  case (Cons s st')
  have "CHR ''/'' \<notin> set (rev s)" using assms Cons by simp
  then have "takeWhile (\<lambda>x. x \<noteq> CHR ''/'') (rev s @ CHR ''/'' # r) = rev s"
    "dropWhile (\<lambda>x. x \<noteq> CHR ''/'') (rev s @ CHR ''/'' # r) = CHR ''/'' # r" for r
    by (subst takeWhile_append2 dropWhile_append2, auto)+
  then show ?thesis using Cons by (simp add: trim_last_def strrchr_split_def butlast_append)
qed

lemma dot_loop_path:
  "\<forall>s \<in> set segs. CHR ''/'' \<notin> set s \<Longrightarrow> \<forall>s \<in> set st. CHR ''/'' \<notin> set s
   \<Longrightarrow> dot_loop (path_of segs) (path_of (rev st)) = path_of (without_dots st segs)"
proof (induction segs arbitrary: st)
  case Nil
  then show ?case by (simp add: dot_loop.simps)
next
  case (Cons s segs)
  have start: "\<exists>r. path_of segs = CHR ''/'' # r" if "segs \<noteq> []" using that by (cases segs) auto
  consider "s = ''.''" | "s = ''..''" | "good_seg s" using Cons.prems(1) by (auto simp: good_seg_def)
  then show ?case
  proof cases
    case 1
    show ?thesis
    proof (cases "segs = []")
      case True
      then show ?thesis using 1 by (subst dot_loop.simps) (simp add: dot_loop_slash)
    next
      case False
      then have "dot_loop (path_of (s # segs)) (path_of (rev st)) = dot_loop (path_of segs) (path_of (rev st))"
        using 1 start by (subst dot_loop.simps) auto
      then show ?thesis using 1 False Cons by simp
    qed
  next
    case 2
    note trim = trim_last_path [OF Cons.prems(2)]
    have tl: "\<forall>s \<in> set (tl st). CHR ''/'' \<notin> set s" using Cons.prems(2) by (cases st) auto
    show ?thesis
    proof (cases "segs = []")
      case True
      then show ?thesis using 2 by (subst dot_loop.simps) (simp add: dot_loop_slash trim)
    next
      case False
      then have "dot_loop (path_of (s # segs)) (path_of (rev st)) = dot_loop (path_of segs) (path_of (rev (tl st)))"
        using 2 start by (subst dot_loop.simps) (auto simp: trim)
      then show ?thesis using 2 False Cons.IH [OF _ tl] Cons.prems(1) by simp
    qed
  next
    case 3
    then have "s \<noteq> ''.''" "s \<noteq> ''..''" by (auto simp: good_seg_def)
    then show ?thesis using Cons.IH [of "s # st"] Cons.prems dot_loop_seg [OF 3] by simp
  qed
qed

lemma removed_good: "set (segments (remove_dot_segments path)) \<inter> {''.'', ''..''} = {}"
  using dot_loop_good [of "[]" path]
  by (auto simp: remove_dot_segments_def good_seg_def list_all_iff)

text \<open>C25.  Removing the dot segments of an absolute path gives what the dots mean (\<open>without_dots\<close>); the
  path of a reference that \<^verbatim>\<open>ne_uri_resolve\<close> resolves has no segment \<open>.\<close> or \<open>..\<close>, whatever the
  base and the reference are, unless the reference has neither scheme, host nor path: then the path
  of the base is taken as it is.\<close>
theorem resolve_removes_dots:
  assumes "\<forall>s \<in> set segs. CHR ''/'' \<notin> set s"
  shows "remove_dot_segments (path_of segs) = path_of (without_dots [] segs)
    \<and> (if u_scheme rel = None \<and> u_host rel = None \<and> u_path rel = []
       then u_path (ne_uri_resolve bas rel) = u_path bas
       else set (segments (u_path (ne_uri_resolve bas rel))) \<inter> {''.'', ''..''} = {})"
proof -
  have "u_path (copy_authority t u) = u_path t" for t u by (simp add: copy_authority_def)
  then show ?thesis
    using dot_loop_path [OF assms, of "[]"] removed_good
    by (auto simp: remove_dot_segments_def ne_uri_resolve_def Let_def)
qed

lemma resolve_removes_dots_witness:
  "remove_dot_segments (path_of [''a'', ''..'', ''b'', ''.'']) = ''/b/''
    \<and> set (segments (u_path (ne_uri_resolve zero_uri (zero_uri\<lparr>u_path := ''../x/..''\<rparr>)))) \<inter> {''.'', ''..''} = {}"
  using resolve_removes_dots [of "[''a'', ''..'', ''b'', ''.'']" "zero_uri\<lparr>u_path := ''../x/..''\<rparr>" zero_uri]
  by (simp add: zero_uri_def)

text \<open>Yet the percent-encoded dots of a reference are neither removed nor refused, and are dots again
  when the path is unescaped.\<close>

lemma escaped_dots_survive:
  "ne_path_unescape (remove_dot_segments ''/www/%2e%2e/x'') = Some ''/www/../x''"
  by code_simp

text \<open>A byte beyond ASCII in a reference is looked up outside the table of character classes: the
  index is a negative character as an unsigned int.\<close>

lemma uri_parse_raw_byte:
  assumes "list_all seg_char p" "take 2 (CHR ''/'' # p @ c # r) \<noteq> ''//''" "127 < code c"
  shows "ne_uri_parse (CHR ''/'' # p @ c # r) = None"
proof -
  have lk: "uri_lookup (signed_char c) = None"
  proof -
    have "signed_char c < 0"
      using assms(3) code_bound [of c] unfolding signed_char_def by (simp only: if_True)
    then show ?thesis by (simp add: uri_lookup_def)
  qed
  have sp: "span URI_SEGCHAR (p @ c # r) = None"
    using assms(1)
  proof (induction p)
    case (Cons x p)
    then show ?case using seg_char_lookup [of x] by simp
  qed (simp add: lk)
  have sl: "uri_lookup (signed_char CHR ''/'') = Some FS" by code_simp
  then have "parse_scheme (CHR ''/'' # p @ c # r) = Some (None, CHR ''/'' # p @ c # r)"
    by (simp add: parse_scheme_def URI_ALPHA_def)
  then show ?thesis
    using assms(2) sl sp by (simp add: ne_uri_parse_def URI_SEGCHAR_def URI_PCHAR_def)
qed

text \<open>A port is read out of the path that follows an address in brackets, and past the end of the
  string where nothing follows.\<close>

lemma bracket_port:
  "map_option (map_option u_port) (ne_uri_parse ''http://[::1]/8080'') = Some (Some 8080)"
  "ne_uri_parse ''http://[::1]'' = None"
  by code_simp+

end
