(* ===== verification/Ne_Xml.thy ===== *)
theory Ne_Xml
  imports Ne_Uri Ls_Parser
begin

text \<open>
  The reading of XML responses, \<^verbatim>\<open>lib/neon/ne_xml.c\<close>, and of multi-status responses,
  \<^verbatim>\<open>lib/neon/ne_207.c\<close>.  The XML parser below is a library, whose events come in a list; what \<^verbatim>\<open>ne_xml.c\<close>
  does with them is modelled: the branch of open elements with their namespaces, the search for a
  handler that accepts an element, dead branches, and the end of the parse at an error.  The handlers
  work on a state of any type, and a handler that is undefined makes the parse undefined.
\<close>

section \<open>Elements and handlers\<close>

datatype sax = Start string "(string \<times> string) list" | Chars string | End string | Malformed

datatype xml_error = Bad_namespace | Bad_name | Undeclared_prefix | Bad_status_line string
  | Too_many_properties | Not_well_formed

text \<open>The integer a start-element callback returns: a state, zero, or a negative number.\<close>

datatype verdict = Accept int | Decline | Abort xml_error

record 'u xml_handler =
  hd_start :: "int \<Rightarrow> string \<Rightarrow> string \<Rightarrow> 'u \<Rightarrow> (verdict \<times> 'u) option"
  hd_cdata :: "(int \<Rightarrow> string \<Rightarrow> 'u \<Rightarrow> 'u) option"
  hd_end :: "(int \<Rightarrow> string \<Rightarrow> string \<Rightarrow> 'u \<Rightarrow> (xml_error option \<times> 'u) option) option"

record elem =
  e_nspace :: string
  e_name :: string
  e_state :: int
  e_default_ns :: "string option"
  e_nspaces :: "(string \<times> string) list"
  e_handler :: nat

definition new_elem :: elem where
  "new_elem = \<lparr>e_nspace = [], e_name = [], e_state = 0, e_default_ns = None, e_nspaces = [], e_handler = 0\<rparr>"

text \<open>The branch of the tree: the current element first, the placeholder of the root last.\<close>

record 'u xml_parser =
  x_branch :: "elem list"
  x_failure :: "xml_error option"
  x_prune :: nat
  x_user :: 'u

definition ne_xml_create :: "'u \<Rightarrow> 'u xml_parser" where
  "ne_xml_create u = \<lparr>x_branch = [new_elem\<lparr>e_default_ns := Some []\<rparr>], x_failure = None, x_prune = 0, x_user = u\<rparr>"

definition invalid_ncname :: "string \<Rightarrow> bool" where
  "invalid_ncname xn \<longleftrightarrow> xn = [] \<or> hd xn \<in> set ''-.0123456789''"

fun declare_nspaces :: "(string \<times> string) list \<Rightarrow> elem \<Rightarrow> elem option" where
  "declare_nspaces [] elm = Some elm"
| "declare_nspaces ((a, v) # atts) elm =
     (if a = ''xmlns'' then declare_nspaces atts (elm\<lparr>e_default_ns := Some v\<rparr>)
      else if take 6 a = ''xmlns:'' then
        (if invalid_ncname (drop 6 a) \<or> v = [] then None
         else declare_nspaces atts (elm\<lparr>e_nspaces := (drop 6 a, v) # e_nspaces elm\<rparr>))
      else declare_nspaces atts elm)"

fun resolve_nspace :: "elem list \<Rightarrow> string \<Rightarrow> string option" where
  "resolve_nspace [] pfx = None"
| "resolve_nspace (e # es) pfx =
     (case map_of (e_nspaces e) pfx of Some uri \<Rightarrow> Some uri | None \<Rightarrow> resolve_nspace es pfx)"

fun default_ns :: "elem list \<Rightarrow> string" where
  "default_ns [] = []"
| "default_ns (e # es) = (case e_default_ns e of Some ns \<Rightarrow> ns | None \<Rightarrow> default_ns es)"

definition expand_qname :: "elem \<Rightarrow> elem list \<Rightarrow> string \<Rightarrow> xml_error + elem" where
  "expand_qname elm parents qname =
     (let pfx = takeWhile (\<lambda>c. c \<noteq> CHR '':'') qname; loc = dropWhile (\<lambda>c. c \<noteq> CHR '':'') qname in
      if loc = [] then Inr (elm\<lparr>e_name := qname, e_nspace := default_ns (elm # parents)\<rparr>)
      else if invalid_ncname (tl loc) \<or> pfx = [] then Inl Bad_name
      else case resolve_nspace (elm # parents) pfx of
        Some uri \<Rightarrow> Inr (elm\<lparr>e_name := tl loc, e_nspace := uri\<rparr>)
      | None \<Rightarrow> Inl Undeclared_prefix)"

text \<open>The handlers are tried from the one of the parent element on.\<close>

fun find_handler ::
    "'u xml_handler list \<Rightarrow> nat \<Rightarrow> int \<Rightarrow> string \<Rightarrow> string \<Rightarrow> 'u \<Rightarrow> (verdict \<times> nat \<times> 'u) option" where
  "find_handler [] n parent nspace name u = Some (Decline, n, u)"
| "find_handler (h # hs) n parent nspace name u =
     do { (v, u) \<leftarrow> hd_start h parent nspace name u;
          if v = Decline then find_handler hs (Suc n) parent nspace name u else Some (v, n, u) }"

definition xml_start_element ::
    "'u xml_handler list \<Rightarrow> string \<Rightarrow> (string \<times> string) list \<Rightarrow> 'u xml_parser \<Rightarrow> 'u xml_parser option" where
  "xml_start_element hs name atts p =
     (if x_failure p \<noteq> None then Some p
      else if x_prune p > 0 then Some (p\<lparr>x_prune := x_prune p + 1\<rparr>)
      else case x_branch p of
        [] \<Rightarrow> None
      | parent # up \<Rightarrow>
          (case declare_nspaces atts new_elem of
             None \<Rightarrow> Some (p\<lparr>x_branch := new_elem # x_branch p, x_failure := Some Bad_namespace\<rparr>)
           | Some elm \<Rightarrow>
               (case expand_qname elm (x_branch p) name of
                  Inl e \<Rightarrow> Some (p\<lparr>x_branch := elm # x_branch p, x_failure := Some e\<rparr>)
                | Inr elm \<Rightarrow>
                    do { (v, n, u) \<leftarrow> find_handler (drop (e_handler parent) hs) (e_handler parent)
                           (e_state parent) (e_nspace elm) (e_name elm) (x_user p);
                         let p = p\<lparr>x_branch := elm\<lparr>e_handler := n\<rparr> # x_branch p, x_user := u\<rparr> in
                         Some (case v of
                           Accept st \<Rightarrow> p\<lparr>x_branch := elm\<lparr>e_handler := n, e_state := st\<rparr> # tl (x_branch p)\<rparr>
                         | Decline \<Rightarrow> p\<lparr>x_prune := x_prune p + 1\<rparr>
                         | Abort e \<Rightarrow> p\<lparr>x_failure := Some e\<rparr>) })))"

definition xml_char_data :: "'u xml_handler list \<Rightarrow> string \<Rightarrow> 'u xml_parser \<Rightarrow> 'u xml_parser option" where
  "xml_char_data hs data p =
     (if x_failure p \<noteq> None \<or> x_prune p > 0 then Some p
      else case x_branch p of
        [] \<Rightarrow> None
      | elm # _ \<Rightarrow>
          if e_handler elm < length hs then
            (case hd_cdata (hs ! e_handler elm) of
               Some f \<Rightarrow> Some (p\<lparr>x_user := f (e_state elm) data (x_user p)\<rparr>)
             | None \<Rightarrow> Some p)
          else None)"

definition xml_end_element :: "'u xml_handler list \<Rightarrow> 'u xml_parser \<Rightarrow> 'u xml_parser option" where
  "xml_end_element hs p =
     (if x_failure p \<noteq> None then Some p
      else if x_prune p > 1 then Some (p\<lparr>x_prune := x_prune p - 1\<rparr>)
      else case x_branch p of
        [] \<Rightarrow> None
      | elm # up \<Rightarrow>
          if x_prune p = 1 then Some (p\<lparr>x_branch := up, x_prune := 0\<rparr>)
          else if e_handler elm < length hs then
            (case hd_end (hs ! e_handler elm) of
               Some f \<Rightarrow>
                 do { (e, u) \<leftarrow> f (e_state elm) (e_nspace elm) (e_name elm) (x_user p);
                      Some (p\<lparr>x_branch := up, x_failure := e, x_user := u\<rparr>) }
             | None \<Rightarrow> Some (p\<lparr>x_branch := up\<rparr>))
          else None)"

fun xml_event :: "'u xml_handler list \<Rightarrow> sax \<Rightarrow> 'u xml_parser \<Rightarrow> 'u xml_parser option" where
  "xml_event hs (Start name atts) p = xml_start_element hs name atts p"
| "xml_event hs (Chars data) p = xml_char_data hs data p"
| "xml_event hs (End name) p = xml_end_element hs p"
| "xml_event hs Malformed p =
     Some (if x_failure p = None then p\<lparr>x_failure := Some Not_well_formed\<rparr> else p)"

definition ne_xml_parse :: "'u xml_handler list \<Rightarrow> sax list \<Rightarrow> 'u xml_parser \<Rightarrow> 'u xml_parser option" where
  "ne_xml_parse hs evs p = for_each (xml_event hs) evs p"

fun ne_xml_mapid :: "((string \<times> string) \<times> int) list \<Rightarrow> string \<Rightarrow> string \<Rightarrow> int" where
  "ne_xml_mapid [] nspace name = 0"
| "ne_xml_mapid (((ns, nm), i) # m) nspace name =
     (if name = nm \<and> nspace = ns then i else ne_xml_mapid m nspace name)"

section \<open>Status lines\<close>

record status =
  st_code :: int
  st_klass :: int
  st_reason :: string

fun strstr :: "string \<Rightarrow> string \<Rightarrow> string option" where
  "strstr [] pat = (if pat = [] then Some [] else None)"
| "strstr (c # r) pat = (if take (length pat) (c # r) = pat then Some (c # r) else strstr r pat)"

definition ne_strclean :: "string \<Rightarrow> string" where
  "ne_strclean s = map (\<lambda>c. if 32 \<le> code c \<and> code c < 127 then c else CHR '' '') s"

definition after_minor :: "string \<Rightarrow> string option" where
  "after_minor s =
     (case dropWhile isdigit s of
        c # r \<Rightarrow>
          if c = CHR ''.'' then
            (case dropWhile isdigit r of
               d # t \<Rightarrow> if d = CHR '' '' then Some (dropWhile (\<lambda>c. c = CHR '' '') (d # t)) else None
             | [] \<Rightarrow> None)
          else None
      | [] \<Rightarrow> None)"

definition ne_parse_statusline :: "string \<Rightarrow> status option" where
  "ne_parse_statusline line =
     do { part \<leftarrow> strstr line ''HTTP/'';
          part \<leftarrow> after_minor (drop 5 part);
          (case part of
             a # b # c # r \<Rightarrow>
               if isdigit a \<and> isdigit b \<and> isdigit c \<and> (r = [] \<or> hd r = CHR '' '') then
                 Some \<lparr>st_code = int (100 * digit_val a + 10 * digit_val b + digit_val c),
                   st_klass = int (digit_val a),
                   st_reason = ne_strclean (dropWhile (\<lambda>c. c = CHR '' '' \<or> c = CHR 0x09) r)\<rparr>
               else None
           | _ \<Rightarrow> None) }"

section \<open>Multi-status responses\<close>

abbreviation (input) ELM_multistatus :: int where "ELM_multistatus \<equiv> 1"
abbreviation (input) ELM_response :: int where "ELM_response \<equiv> 2"
abbreviation (input) ELM_responsedescription :: int where "ELM_responsedescription \<equiv> 3"
abbreviation (input) ELM_href :: int where "ELM_href \<equiv> 4"
abbreviation (input) ELM_status :: int where "ELM_status \<equiv> 6"
abbreviation (input) ELM_propstat :: int where "ELM_propstat \<equiv> 7"
abbreviation (input) ELM_prop :: int where "ELM_prop \<equiv> 50"
abbreviation (input) ELM_flatprop :: int where "ELM_flatprop \<equiv> 99"

definition map207 :: "((string \<times> string) \<times> int) list" where
  "map207 =
     [((''DAV:'', ''multistatus''), ELM_multistatus),
      ((''DAV:'', ''response''), ELM_response),
      ((''DAV:'', ''responsedescription''), ELM_responsedescription),
      ((''DAV:'', ''href''), ELM_href),
      ((''DAV:'', ''propstat''), ELM_propstat),
      ((''DAV:'', ''prop''), ELM_prop),
      ((''DAV:'', ''status''), ELM_status)]"

text \<open>
  The callbacks of the reader; the pointer to the response and to the propstat of the callbacks is in
  their state \<open>'r\<close>.  \<open>m_propstat\<close> tells whether the reader's pointer to a propstat is set, and
  \<open>m_status\<close> holds the status once it has a reason phrase.
\<close>

record 'r callbacks207 =
  cb_start_response :: "ne_uri \<Rightarrow> 'r \<Rightarrow> 'r"
  cb_end_response :: "status option \<Rightarrow> string option \<Rightarrow> 'r \<Rightarrow> 'r option"
  cb_start_propstat :: "('r \<Rightarrow> (xml_error + 'r) option) option"
  cb_end_propstat :: "status option \<Rightarrow> string option \<Rightarrow> 'r \<Rightarrow> 'r option"

record 'r multi =
  m_base :: ne_uri
  m_cdata :: string
  m_in_response :: bool
  m_propstat :: bool
  m_status :: "status option"
  m_description :: "string option"
  m_user :: 'r

definition ne_207_create :: "ne_uri \<Rightarrow> 'r \<Rightarrow> 'r multi" where
  "ne_207_create bas u = \<lparr>m_base = bas, m_cdata = [], m_in_response = False, m_propstat = False,
     m_status = None, m_description = None, m_user = u\<rparr>"

definition can_handle :: "int \<Rightarrow> int \<Rightarrow> bool" where
  "can_handle parent child \<longleftrightarrow>
     (parent = 0 \<and> child = ELM_multistatus) \<or>
     (parent = ELM_multistatus \<and> child = ELM_response) \<or>
     (parent = ELM_response
       \<and> (child = ELM_href \<or> child = ELM_status \<or> child = ELM_propstat \<or> child = ELM_responsedescription)) \<or>
     (parent = ELM_propstat
       \<and> (child = ELM_prop \<or> child = ELM_status \<or> child = ELM_responsedescription))"

definition cdata_207 :: "int \<Rightarrow> string \<Rightarrow> 'r multi \<Rightarrow> 'r multi" where
  "cdata_207 state buf p =
     (if (state = ELM_href \<or> state = ELM_responsedescription \<or> state = ELM_status)
        \<and> length (m_cdata p) + 1 + length buf < 2048
      then p\<lparr>m_cdata := m_cdata p @ buf\<rparr> else p)"

definition start_element_207 ::
    "'r callbacks207 \<Rightarrow> int \<Rightarrow> string \<Rightarrow> string \<Rightarrow> 'r multi \<Rightarrow> (verdict \<times> 'r multi) option" where
  "start_element_207 cb parent nspace name p =
     (let state = ne_xml_mapid map207 nspace name in
      if \<not> can_handle parent state then Some (Decline, p)
      else if \<not> m_in_response p \<and> state \<notin> {ELM_response, ELM_multistatus, ELM_href}
      then Some (Decline, p)
      else
        (case (if state = ELM_propstat then cb_start_propstat cb else None) of
           None \<Rightarrow> Some (Accept state, p\<lparr>m_cdata := []\<rparr>)
         | Some start \<Rightarrow>
             do { r \<leftarrow> start (m_user p);
                  Some (case r of
                    Inl e \<Rightarrow> (Abort e, p\<lparr>m_propstat := False\<rparr>)
                  | Inr u \<Rightarrow> (Accept state, p\<lparr>m_propstat := True, m_user := u, m_cdata := []\<rparr>)) }))"

definition xml_white :: string where "xml_white = [CHR 0x0D, NL, CHR 0x09, CHR '' '']"

definition end_element_207 ::
    "'r callbacks207 \<Rightarrow> int \<Rightarrow> 'r multi \<Rightarrow> (xml_error option \<times> 'r multi) option" where
  "end_element_207 cb state p =
     (let cdata = ne_shave (m_cdata p) xml_white; have_cdata = (m_cdata p \<noteq> []) in
      if state = ELM_responsedescription then
        Some (None, if have_cdata then p\<lparr>m_description := Some cdata\<rparr> else p)
      else if state = ELM_href then
        (if have_cdata then
           do { parsed \<leftarrow> ne_uri_parse cdata;
                Some (None, case parsed of
                  Some ref \<Rightarrow>
                    p\<lparr>m_user := cb_start_response cb (ne_uri_resolve (m_base p) ref) (m_user p),
                      m_in_response := True\<rparr>
                | None \<Rightarrow> p) }
         else Some (None, p))
      else if state = ELM_status then
        (if have_cdata then
           (case ne_parse_statusline cdata of
              None \<Rightarrow> Some (Some (Bad_status_line cdata), p)
            | Some st \<Rightarrow> Some (None, p\<lparr>m_status := Some st\<rparr>))
         else Some (None, p))
      else if state = ELM_propstat then
        do { u \<leftarrow> cb_end_propstat cb (m_status p) (m_description p) (m_user p);
             Some (None, p\<lparr>m_user := u, m_propstat := False, m_description := None,
               m_status := None\<rparr>) }
      else if state = ELM_response then
        (if \<not> m_in_response p then Some (None, p)
         else
           do { u \<leftarrow> cb_end_response cb (m_status p) (m_description p) (m_user p);
                Some (None, p\<lparr>m_user := u, m_in_response := False, m_description := None,
                  m_status := None\<rparr>) })
      else Some (None, p))"

definition handler_207 :: "'r callbacks207 \<Rightarrow> 'r multi xml_handler" where
  "handler_207 cb =
     \<lparr>hd_start = start_element_207 cb,
      hd_cdata = Some cdata_207,
      hd_end = Some (\<lambda>state nspace name p. end_element_207 cb state p)\<rparr>"

section \<open>Errors in a multi-status response\<close>

record context207 =
  cx_href :: "string option"
  cx_buf :: string
  cx_is_error :: bool

text \<open>\<^verbatim>\<open>ne_buffer_concat\<close> ends at a NULL.\<close>

definition handle_error :: "status option \<Rightarrow> string option \<Rightarrow> context207 \<Rightarrow> context207" where
  "handle_error st description ctx =
     (case st of
        None \<Rightarrow> ctx
      | Some st \<Rightarrow>
          if st_klass st \<noteq> 2 \<and> st_code st \<noteq> 424 then
            ctx\<lparr>cx_is_error := True,
              cx_buf := cx_buf ctx
                @ (case cx_href ctx of
                     None \<Rightarrow> []
                   | Some href \<Rightarrow> href @ '': '' @ show_int (st_code st) @ '' '' @ st_reason st @ [NL])
                @ (case description of None \<Rightarrow> [] | Some d \<Rightarrow> '' -> '' @ d @ [NL])\<rparr>
          else ctx)"

definition callbacks_simple :: "context207 callbacks207" where
  "callbacks_simple =
     \<lparr>cb_start_response = (\<lambda>uri ctx. ctx\<lparr>cx_href := Some (ne_uri_unparse uri)\<rparr>),
      cb_end_response = (\<lambda>st d ctx. Some (handle_error st d ctx)),
      cb_start_propstat = None,
      cb_end_propstat = (\<lambda>st d ctx. Some (handle_error st d ctx))\<rparr>"

end
