(* ===== verification/Ne_Http.thy ===== *)
theory Ne_Http
  imports Ne_Xml Site_Driver
begin

text \<open>
  The methods of HTTP and WebDAV, \<^verbatim>\<open>lib/neon/ne_basic.c\<close>, \<^verbatim>\<open>lib/neon/ne_props.c\<close> and
  \<open>ne_simple_request\<close> of \<^verbatim>\<open>lib/neon/ne_207.c\<close>, over a transport that acts on a world of type \<open>'w\<close>:
  \<^verbatim>\<open>ne_request_dispatch\<close>, the reading of a response in blocks, and the calls on local files.  The XML
  parser is an argument, \<open>hp_expat\<close>.  No locks are registered, so the lock calls do nothing.
\<close>

section \<open>The transport\<close>

abbreviation (input) NE_OK :: int where "NE_OK \<equiv> 0"
abbreviation (input) NE_ERROR :: int where "NE_ERROR \<equiv> 1"
abbreviation (input) NE_LOOKUP :: int where "NE_LOOKUP \<equiv> 2"
abbreviation (input) NE_AUTH :: int where "NE_AUTH \<equiv> 3"
abbreviation (input) NE_PROXYAUTH :: int where "NE_PROXYAUTH \<equiv> 4"
abbreviation (input) NE_CONNECT :: int where "NE_CONNECT \<equiv> 5"
abbreviation (input) NE_TIMEOUT :: int where "NE_TIMEOUT \<equiv> 6"
abbreviation (input) NE_FAILED :: int where "NE_FAILED \<equiv> 7"
abbreviation (input) NE_RETRY :: int where "NE_RETRY \<equiv> 8"

text \<open>A body is a text, or what the local file of that name holds.\<close>

datatype rq_body = No_body | Body_text string | Body_fd string

record request =
  rq_method :: string
  rq_uri :: string
  rq_headers :: "(string \<times> string) list"
  rq_content :: rq_body

record response =
  rp_code :: int
  rp_klass :: int
  rp_headers :: "(string \<times> string) list"
  rp_body :: string

text \<open>One round of \<^verbatim>\<open>ne_begin_request\<close>, \<^verbatim>\<open>ne_read_response_block\<close> and \<^verbatim>\<open>ne_end_request\<close>: the result of the
  first, the status, the blocks, whether the last read failed, and the result of the last call.\<close>

record attempt =
  at_begin :: int
  at_code :: int
  at_klass :: int
  at_blocks :: "string list"
  at_read_ok :: bool
  at_end :: int

record 'w http =
  hp_scheme :: string
  hp_hostname :: string
  hp_port :: int
  hp_hostport :: string
  hp_expat :: "string \<Rightarrow> sax list"
  hp_xml_error :: "xml_error \<Rightarrow> string"
  hp_rfc1123_date :: "int \<Rightarrow> string"
  hp_httpdate_parse :: "string \<Rightarrow> int"
  hp_dispatch :: "request \<Rightarrow> 'w \<Rightarrow> (int \<times> response) \<times> 'w"
  hp_attempt :: "request \<Rightarrow> 'w \<Rightarrow> attempt \<times> 'w"
  hp_set_error :: "string \<Rightarrow> 'w \<Rightarrow> 'w"
  hp_get_error :: "'w \<Rightarrow> string"
  hp_open_read :: "string \<Rightarrow> 'w \<Rightarrow> string option \<times> 'w"
  hp_open_write :: "string \<Rightarrow> 'w \<Rightarrow> string option \<times> 'w"
  hp_fstat :: "string \<Rightarrow> 'w \<Rightarrow> string option \<times> 'w"
  hp_write :: "string \<Rightarrow> string \<Rightarrow> 'w \<Rightarrow> bool \<times> 'w"
  hp_close :: "string \<Rightarrow> 'w \<Rightarrow> bool \<times> 'w"

definition ne_request_create :: "string \<Rightarrow> string \<Rightarrow> request" where
  "ne_request_create method uri =
     \<lparr>rq_method = method, rq_uri = uri, rq_headers = [], rq_content = No_body\<rparr>"

definition ne_add_request_header :: "string \<Rightarrow> string \<Rightarrow> request \<Rightarrow> request" where
  "ne_add_request_header name val req = req\<lparr>rq_headers := rq_headers req @ [(name, val)]\<rparr>"

text \<open>The header of a response: names are compared without regard to case.\<close>

definition ne_get_response_header :: "string \<Rightarrow> response \<Rightarrow> string option" where
  "ne_get_response_header name rsp =
     map_option snd (List.find (\<lambda>(n, v). strcasecmp_eq n name) (rp_headers rsp))"

definition server_uri :: "'w http \<Rightarrow> ne_uri" where
  "server_uri hp = zero_uri\<lparr>u_host := Some (hp_hostname hp), u_port := hp_port hp,
     u_scheme := Some (hp_scheme hp)\<rparr>"

section \<open>Simple requests\<close>

text \<open>The body of a response is parsed where its status is 207.\<close>

definition parse_207 :: "'w http \<Rightarrow> 'u xml_handler list \<Rightarrow> 'u \<Rightarrow> response \<Rightarrow> 'u xml_parser option" where
  "parse_207 hp hs u rsp =
     ne_xml_parse hs (if rp_code rsp = 207 then hp_expat hp (rp_body rsp) else []) (ne_xml_create u)"

definition ne_simple_request :: "'w http \<Rightarrow> request \<Rightarrow> 'w \<Rightarrow> (int \<times> 'w) option" where
  "ne_simple_request hp req w =
     (let ((ret, rsp), w) = hp_dispatch hp req w;
          ctx = \<lparr>cx_href = None, cx_buf = [], cx_is_error = False\<rparr>
      in do { p \<leftarrow> parse_207 hp [handler_207 callbacks_simple]
                (ne_207_create ((server_uri hp)\<lparr>u_path := ''/''\<rparr>) ctx) rsp;
              Some
                (if ret = NE_OK then
                   (if rp_code rsp = 207 then
                      (case x_failure p of
                         Some e \<Rightarrow> (NE_ERROR, hp_set_error hp (hp_xml_error hp e) w)
                       | None \<Rightarrow>
                           if cx_is_error (m_user (x_user p))
                           then (NE_ERROR, hp_set_error hp (cx_buf (m_user (x_user p))) w)
                           else (ret, w))
                    else if rp_klass rsp \<noteq> 2 then (NE_ERROR, w) else (ret, w))
                 else (ret, w)) })"

definition ne_move :: "'w http \<Rightarrow> bool \<Rightarrow> string \<Rightarrow> string \<Rightarrow> 'w \<Rightarrow> (int \<times> 'w) option" where
  "ne_move hp overwrite src dest =
     ne_simple_request hp
       (ne_add_request_header ''Overwrite'' (if overwrite then ''T'' else ''F'')
         (ne_add_request_header ''Destination'' (hp_scheme hp @ ''://'' @ hp_hostport hp @ dest)
           (ne_request_create ''MOVE'' src)))"

definition ne_delete :: "'w http \<Rightarrow> string \<Rightarrow> 'w \<Rightarrow> (int \<times> 'w) option" where
  "ne_delete hp uri = ne_simple_request hp (ne_request_create ''DELETE'' uri)"

definition ne_mkcol :: "'w http \<Rightarrow> string \<Rightarrow> 'w \<Rightarrow> (int \<times> 'w) option" where
  "ne_mkcol hp uri =
     ne_simple_request hp
       (ne_request_create ''MKCOL'' (if ne_path_has_trailing_slash uri then uri else uri @ ''/''))"

section \<open>Other methods\<close>

definition ne_getmodtime :: "'w http \<Rightarrow> string \<Rightarrow> int \<Rightarrow> 'w \<Rightarrow> (int \<times> int) \<times> 'w" where
  "ne_getmodtime hp uri modtime w =
     (let ((ret, rsp), w) = hp_dispatch hp (ne_request_create ''HEAD'' uri) w in
      if ret = NE_OK \<and> rp_klass rsp \<noteq> 2 then ((NE_ERROR, - 1), w)
      else case ne_get_response_header ''Last-Modified'' rsp of
        Some v \<Rightarrow> ((ret, hp_httpdate_parse hp v), w)
      | None \<Rightarrow> ((ret, modtime), w))"

definition ne_put :: "'w http \<Rightarrow> string \<Rightarrow> string \<Rightarrow> 'w \<Rightarrow> int \<times> 'w" where
  "ne_put hp uri fd w =
     (let (st, w) = hp_fstat hp fd w in
      case st of
        Some err \<Rightarrow> (NE_ERROR, hp_set_error hp (''Could not determine file size: '' @ err) w)
      | None \<Rightarrow>
          (let ((ret, rsp), w) =
             hp_dispatch hp ((ne_request_create ''PUT'' uri)\<lparr>rq_content := Body_fd fd\<rparr>) w
           in (if ret = NE_OK \<and> rp_klass rsp \<noteq> 2 then NE_ERROR else ret, w)))"

text \<open>The tokens of a list in a header, and the capabilities they stand for.\<close>

record capabilities =
  dav_class1 :: bool
  dav_class2 :: bool
  dav_executable :: bool

text \<open>\<open>ne_qtoken\<close>: the token, and the rest behind the separator if there is one.\<close>

fun qtoken :: "char \<Rightarrow> string \<Rightarrow> nat \<Rightarrow> string \<Rightarrow> (string \<times> string option) option" where
  "qtoken sep quotes 0 s = None"
| "qtoken sep quotes (Suc n) [] = Some ([], None)"
| "qtoken sep quotes (Suc n) (c # r) =
     (if c \<in> set quotes then
        (case strchr r c of
           None \<Rightarrow> None
         | Some t \<Rightarrow>
             map_option (\<lambda>(a, rest). (c # take (length r - length t + 1) r @ a, rest))
               (qtoken sep quotes n (tl t)))
      else if c = sep then Some ([], Some r)
      else map_option (\<lambda>(a, rest). (c # a, rest)) (qtoken sep quotes n r))"

definition ne_qtoken :: "string \<Rightarrow> char \<Rightarrow> string \<Rightarrow> (string \<times> string option) option" where
  "ne_qtoken s sep quotes = qtoken sep quotes (length s + 1) s"

definition dav_token :: "string \<Rightarrow> capabilities \<Rightarrow> capabilities" where
  "dav_token tok caps =
     (let tok = ne_shave tok [CHR '' '', CHR 0x0D, CHR 0x09, NL] in
      if tok = ''1'' then caps\<lparr>dav_class1 := True\<rparr>
      else if tok = ''2'' then caps\<lparr>dav_class2 := True\<rparr>
      else if tok = ''<http://apache.org/dav/propset/fs/1>'' then caps\<lparr>dav_executable := True\<rparr>
      else caps)"

fun dav_tokens :: "nat \<Rightarrow> string \<Rightarrow> capabilities \<Rightarrow> capabilities" where
  "dav_tokens 0 s caps = caps"
| "dav_tokens (Suc n) s caps =
     (case ne_qtoken s CHR '','' [CHR 0x22, CHR 0x27] of
        None \<Rightarrow> caps
      | Some (tok, None) \<Rightarrow> dav_token tok caps
      | Some (tok, Some rest) \<Rightarrow> dav_tokens n rest (dav_token tok caps))"

definition parse_dav_header :: "string \<Rightarrow> capabilities \<Rightarrow> capabilities" where
  "parse_dav_header val caps = dav_tokens (length val + 1) val caps"

definition ne_options :: "'w http \<Rightarrow> string \<Rightarrow> capabilities \<Rightarrow> 'w \<Rightarrow> (int \<times> capabilities) \<times> 'w" where
  "ne_options hp uri caps w =
     (let ((ret, rsp), w) = hp_dispatch hp (ne_request_create ''OPTIONS'' uri) w;
          caps = (case ne_get_response_header ''DAV'' rsp of
                    Some v \<Rightarrow> parse_dav_header v caps | None \<Rightarrow> caps)
      in ((if ret = NE_OK \<and> rp_klass rsp \<noteq> 2 then NE_ERROR else ret, caps), w))"

section \<open>Downloads\<close>

fun write_blocks :: "'w http \<Rightarrow> string \<Rightarrow> string list \<Rightarrow> 'w \<Rightarrow> bool \<times> 'w" where
  "write_blocks hp fd [] w = (True, w)"
| "write_blocks hp fd (b # bs) w =
     (let (done, w) = hp_write hp fd b w in if done then write_blocks hp fd bs w else (False, w))"

definition ne_read_response_to_fd :: "'w http \<Rightarrow> attempt \<Rightarrow> string \<Rightarrow> 'w \<Rightarrow> int \<times> 'w" where
  "ne_read_response_to_fd hp a fd w =
     (let (done, w) = write_blocks hp fd (at_blocks a) w in
      (if done \<and> at_read_ok a then NE_OK else NE_ERROR, w))"

text \<open>\<open>dispatch_to_fd\<close> without a range, with the class of the last status.  The server decides how
  often the request is sent again.\<close>

partial_function (option) dispatch_to_fd ::
    "'w http \<Rightarrow> request \<Rightarrow> string \<Rightarrow> 'w \<Rightarrow> ((int \<times> int) \<times> 'w) option" where
  "dispatch_to_fd hp req fd w =
     (let (a, w) = hp_attempt hp req w in
      if at_begin a \<noteq> NE_OK then Some ((at_begin a, at_klass a), w)
      else
        (let (ret, w) =
           (if at_klass a = 2 then ne_read_response_to_fd hp a fd w
            else (if at_read_ok a then NE_OK else NE_ERROR, w));
             ret = (if ret = NE_OK then at_end a else ret)
         in if ret = NE_RETRY then dispatch_to_fd hp req fd w else Some ((ret, at_klass a), w)))"

definition ne_get :: "'w http \<Rightarrow> string \<Rightarrow> string \<Rightarrow> 'w \<Rightarrow> (int \<times> 'w) option" where
  "ne_get hp uri fd w =
     map_option (\<lambda>((ret, klass), w). (if ret = NE_OK \<and> klass \<noteq> 2 then NE_ERROR else ret, w))
       (dispatch_to_fd hp (ne_request_create ''GET'' uri) fd w)"

end
