(* ===== verification/Ne_Props.thy ===== *)
theory Ne_Props
  imports Ne_Http
begin

text \<open>
  WebDAV properties, \<^verbatim>\<open>lib/neon/ne_props.c\<close>: the result set that is built up for each resource of a
  PROPFIND response, with the flat values of properties, and the requests PROPFIND and PROPPATCH.
  The language of a property, which sitecopy never reads, is left out.
\<close>

section \<open>Result sets\<close>

definition MAX_FLATPROP_LEN :: nat where "MAX_FLATPROP_LEN = 102400"
definition MAX_PROP_COUNTER :: nat where "MAX_PROP_COUNTER = 1024"

type_synonym propname = "string option \<times> string"

record ne_prop =
  pr_pname :: propname
  pr_value :: "string option"

record propstat =
  ps_props :: "ne_prop list"
  ps_status :: "status option"

record 'p prop_set =
  pset_pstats :: "propstat list"
  pset_counter :: nat
  pset_private :: 'p
  pset_uri :: ne_uri

text \<open>A buffer with the bytes allocated for it; the terminating NUL is not in \<open>bf_data\<close>.\<close>

record ne_buffer =
  bf_data :: string
  bf_length :: nat

definition ne_buffer_create :: ne_buffer where "ne_buffer_create = \<lparr>bf_data = [], bf_length = 512\<rparr>"

definition ne_buffer_append :: "ne_buffer \<Rightarrow> string \<Rightarrow> ne_buffer" where
  "ne_buffer_append b s =
     (let newsize = length (bf_data b) + 1 + length s in
      \<lparr>bf_data = bf_data b @ s,
       bf_length = (if newsize > bf_length b then (newsize div 512 + 1) * 512 else bf_length b)\<rparr>)"

record ('p, 'c) propfind_handler =
  pf_current :: "'p prop_set option"
  pf_value :: ne_buffer
  pf_depth :: nat
  pf_userdata :: 'c

type_synonym ('p, 'c) propfind_state = "('p, 'c) propfind_handler multi"

text \<open>The propstat being read is the last one of the current set.\<close>

definition update_last :: "('a \<Rightarrow> 'a) \<Rightarrow> 'a list \<Rightarrow> 'a list" where
  "update_last f xs = (if xs = [] then [] else butlast xs @ [f (last xs)])"

definition start_response :: "'p \<Rightarrow> ne_uri \<Rightarrow> ('p, 'c) propfind_handler \<Rightarrow> ('p, 'c) propfind_handler" where
  "start_response creator uri hdl =
     hdl\<lparr>pf_current := Some \<lparr>pset_pstats = [], pset_counter = 0, pset_private = creator, pset_uri = uri\<rparr>\<rparr>"

definition start_propstat ::
    "('p, 'c) propfind_handler \<Rightarrow> (xml_error + ('p, 'c) propfind_handler) option" where
  "start_propstat hdl =
     do { set \<leftarrow> pf_current hdl;
          Some (if pset_counter set + 1 = MAX_PROP_COUNTER then Inl Too_many_properties
                else Inr (hdl\<lparr>pf_current := Some (set\<lparr>pset_counter := pset_counter set + 1,
                  pset_pstats := pset_pstats set @ [\<lparr>ps_props = [], ps_status = None\<rparr>]\<rparr>)\<rparr>)) }"

definition startelm ::
    "int \<Rightarrow> string \<Rightarrow> string \<Rightarrow> ('p, 'c) propfind_state \<Rightarrow> (verdict \<times> ('p, 'c) propfind_state) option" where
  "startelm parent nspace name m =
     (if (parent \<noteq> ELM_prop \<and> parent \<noteq> ELM_flatprop) \<or> \<not> m_propstat m then Some (Decline, m)
      else
        (let hdl = m_user m in
         if parent = ELM_flatprop then
           Some (Accept ELM_flatprop,
             m\<lparr>m_user := hdl\<lparr>pf_depth := pf_depth hdl + 1,
               pf_value := (if length (bf_data (pf_value hdl)) + 1 < MAX_FLATPROP_LEN
                 then ne_buffer_append (pf_value hdl) (''<'' @ name @ ''>'') else pf_value hdl)\<rparr>\<rparr>)
         else
           do { set \<leftarrow> pf_current hdl;
                Some
                  (if pset_counter set + 1 = MAX_PROP_COUNTER then (Abort Too_many_properties, m)
                   else
                     (let prop = \<lparr>pr_pname = (if nspace = [] then None else Some nspace, name), pr_value = None\<rparr>;
                          set = set\<lparr>pset_counter := pset_counter set + 1,
                            pset_pstats := update_last (\<lambda>ps. ps\<lparr>ps_props := ps_props ps @ [prop]\<rparr>)
                              (pset_pstats set)\<rparr>
                      in (Accept ELM_flatprop,
                          m\<lparr>m_user := hdl\<lparr>pf_current := Some set, pf_depth := 0\<rparr>\<rparr>))) }))"

definition chardata :: "int \<Rightarrow> string \<Rightarrow> ('p, 'c) propfind_state \<Rightarrow> ('p, 'c) propfind_state" where
  "chardata state data m =
     (let hdl = m_user m in
      if state = ELM_flatprop \<and> bf_length (pf_value hdl) < MAX_FLATPROP_LEN
      then m\<lparr>m_user := hdl\<lparr>pf_value := ne_buffer_append (pf_value hdl) data\<rparr>\<rparr> else m)"

definition endelm ::
    "int \<Rightarrow> string \<Rightarrow> string \<Rightarrow> ('p, 'c) propfind_state \<Rightarrow> (xml_error option \<times> ('p, 'c) propfind_state) option"
  where
  "endelm state nspace name m =
     (let hdl = m_user m in
      if pf_depth hdl > 0 then
        Some (None, m\<lparr>m_user := hdl\<lparr>pf_depth := pf_depth hdl - 1,
          pf_value := (if length (bf_data (pf_value hdl)) + 1 < MAX_FLATPROP_LEN
            then ne_buffer_append (pf_value hdl) (''</'' @ name @ ''>'') else pf_value hdl)\<rparr>\<rparr>)
      else
        do { set \<leftarrow> pf_current hdl;
             if \<not> m_propstat m \<or> pset_pstats set = [] \<or> ps_props (last (pset_pstats set)) = [] then None
             else
               (let set = set\<lparr>pset_pstats :=
                      update_last (\<lambda>ps. ps\<lparr>ps_props :=
                        update_last (\<lambda>p. p\<lparr>pr_value := Some (bf_data (pf_value hdl))\<rparr>) (ps_props ps)\<rparr>)
                      (pset_pstats set)\<rparr>
                in Some (None, m\<lparr>m_user := hdl\<lparr>pf_current := Some set, pf_value := ne_buffer_create\<rparr>\<rparr>)) })"

text \<open>A status that is not a success takes the values away.\<close>

definition end_propstat ::
    "status option \<Rightarrow> string option \<Rightarrow> ('p, 'c) propfind_handler \<Rightarrow> ('p, 'c) propfind_handler option" where
  "end_propstat st description hdl =
     (case st of
        None \<Rightarrow> Some hdl
      | Some st \<Rightarrow>
          do { set \<leftarrow> pf_current hdl;
               Some (hdl\<lparr>pf_current := Some (set\<lparr>pset_pstats :=
                 update_last (\<lambda>ps. ps\<lparr>ps_status := Some st,
                     ps_props := (if st_klass st \<noteq> 2 then map (pr_value_update (\<lambda>_. None)) (ps_props ps)
                       else ps_props ps)\<rparr>) (pset_pstats set)\<rparr>)\<rparr>) })"

definition end_response ::
    "(ne_uri \<Rightarrow> 'p prop_set \<Rightarrow> 'c \<Rightarrow> 'c option) \<Rightarrow> status option \<Rightarrow> string option
      \<Rightarrow> ('p, 'c) propfind_handler \<Rightarrow> ('p, 'c) propfind_handler option" where
  "end_response callback st description hdl =
     do { set \<leftarrow> pf_current hdl;
          c \<leftarrow> (if pset_pstats set \<noteq> [] then callback (pset_uri set) set (pf_userdata hdl)
                else Some (pf_userdata hdl));
          Some (hdl\<lparr>pf_current := None, pf_userdata := c\<rparr>) }"

definition callbacks_propfind ::
    "'p \<Rightarrow> (ne_uri \<Rightarrow> 'p prop_set \<Rightarrow> 'c \<Rightarrow> 'c option) \<Rightarrow> ('p, 'c) propfind_handler callbacks207" where
  "callbacks_propfind creator callback =
     \<lparr>cb_start_response = start_response creator, cb_end_response = end_response callback,
      cb_start_propstat = Some start_propstat, cb_end_propstat = end_propstat\<rparr>"

definition handler_props :: "('p, 'c) propfind_state xml_handler" where
  "handler_props = \<lparr>hd_start = startelm, hd_cdata = Some chardata, hd_end = Some endelm\<rparr>"

section \<open>What a result set holds\<close>

definition findprop :: "'p prop_set \<Rightarrow> propname \<Rightarrow> (propstat \<times> ne_prop) option" where
  "findprop results pname =
     List.find (\<lambda>(ps, p). pr_pname p = pname)
       (concat (map (\<lambda>ps. map (Pair ps) (ps_props ps)) (pset_pstats results)))"

definition ne_propset_value :: "'p prop_set \<Rightarrow> propname \<Rightarrow> string option" where
  "ne_propset_value results pname = Option.bind (findprop results pname) (\<lambda>(ps, p). pr_value p)"

text \<open>The outer \<^const>\<open>None\<close> is a property that was not given, the inner one a propstat without status.\<close>

definition ne_propset_status :: "'p prop_set \<Rightarrow> propname \<Rightarrow> status option option" where
  "ne_propset_status results pname = map_option (\<lambda>(ps, p). ps_status ps) (findprop results pname)"

definition ne_propfind_current_private :: "('p, 'c) propfind_handler \<Rightarrow> 'p option" where
  "ne_propfind_current_private hdl = map_option pset_private (pf_current hdl)"

section \<open>The requests\<close>

definition q :: "string \<Rightarrow> string" where "q s = CHR 0x22 # s @ [CHR 0x22]"

definition xml_decl :: "string \<Rightarrow> string" where
  "xml_decl sp = ''<?xml version='' @ q ''1.0'' @ '' encoding='' @ q ''utf-8'' @ sp @ ''?>'' @ [NL]"

definition NE_XML_MEDIA_TYPE :: string where "NE_XML_MEDIA_TYPE = ''application/xml''"

definition set_body :: "propname list \<Rightarrow> string" where
  "set_body names =
     ''<prop>'' @ [NL]
     @ concat (map (\<lambda>(ns, name). ''<'' @ name @ '' xmlns='' @ q (case ns of Some s \<Rightarrow> s | None \<Rightarrow> [])
         @ ''/>'' @ [NL]) names)"

definition propfind_request :: "string \<Rightarrow> string \<Rightarrow> propname list \<Rightarrow> request" where
  "propfind_request uri depth names =
     ne_add_request_header ''Content-Type'' NE_XML_MEDIA_TYPE
       (ne_add_request_header ''Depth'' depth (ne_request_create ''PROPFIND'' uri))
     \<lparr>rq_content := Body_text (xml_decl [] @ ''<propfind xmlns='' @ q ''DAV:'' @ ''>''
       @ set_body names @ ''</prop></propfind>'' @ [NL])\<rparr>"

text \<open>A handler of the caller comes between the two of the library.\<close>

definition ne_propfind_named ::
    "'w http \<Rightarrow> string \<Rightarrow> string \<Rightarrow> 'p \<Rightarrow> ('p, 'c) propfind_state xml_handler
      \<Rightarrow> (ne_uri \<Rightarrow> 'p prop_set \<Rightarrow> 'c \<Rightarrow> 'c option) \<Rightarrow> propname list \<Rightarrow> 'c \<Rightarrow> 'w \<Rightarrow> ((int \<times> 'c) \<times> 'w) option"
  where
  "ne_propfind_named hp uri depth creator handler callback names c w =
     (let ((ret, rsp), w) = hp_dispatch hp (propfind_request uri depth names) w;
          hdl = \<lparr>pf_current = None, pf_value = ne_buffer_create, pf_depth = 0, pf_userdata = c\<rparr>
      in do { p \<leftarrow> parse_207 hp [handler_207 (callbacks_propfind creator callback), handler, handler_props]
                (ne_207_create ((server_uri hp)\<lparr>u_path := uri\<rparr>) hdl) rsp;
              let c = pf_userdata (m_user (x_user p)) in
              Some
                (if ret = NE_OK \<and> rp_klass rsp \<noteq> 2 then ((NE_ERROR, c), w)
                 else case x_failure p of
                   Some e \<Rightarrow> ((NE_ERROR, c), hp_set_error hp (hp_xml_error hp e) w)
                 | None \<Rightarrow> ((ret, c), w)) })"

definition ne_proppatch_set :: "'w http \<Rightarrow> string \<Rightarrow> propname \<Rightarrow> string \<Rightarrow> 'w \<Rightarrow> (int \<times> 'w) option" where
  "ne_proppatch_set hp uri pname val =
     (let (ns, name) = pname;
          body = xml_decl '' '' @ ''<D:propertyupdate xmlns:D='' @ q ''DAV:'' @ ''>''
            @ ''<D:set><D:prop><'' @ name
            @ (case ns of Some s \<Rightarrow> '' xmlns='' @ q s | None \<Rightarrow> [])
            @ ''>'' @ val @ ''</'' @ name @ ''></D:prop></D:set>'' @ [NL] @ ''</D:propertyupdate>'' @ [NL]
      in ne_simple_request hp
           (ne_add_request_header ''Content-Type'' NE_XML_MEDIA_TYPE (ne_request_create ''PROPPATCH'' uri)
             \<lparr>rq_content := Body_text body\<rparr>))"

end
