(* ===== verification/Dav_Driver.thy ===== *)
theory Dav_Driver
  imports Ne_Props Console_Text
begin

text \<open>
  The WebDAV driver, \<^verbatim>\<open>src/davdriver.c\<close>: the opening of a session, the operations on files and
  directories, the listing of a directory with one PROPFIND, and the codes returned.  An operation is
  undefined (\<^const>\<open>None\<close>) where the parse of a response is, or where a server asks for ever that a
  request be sent again.
\<close>

section \<open>Codes\<close>

text \<open>\<open>h2s\<close>, which sets the error string for a timeout.\<close>

definition h2s :: "'w http \<Rightarrow> int \<times> 'w \<Rightarrow> int \<times> 'w" where
  "h2s hp = (\<lambda>(errcode, w).
     if errcode = NE_OK then (SITE_OK, w)
     else if errcode = NE_AUTH then (SITE_AUTH, w)
     else if errcode = NE_PROXYAUTH then (SITE_PROXYAUTH, w)
     else if errcode = NE_FAILED then (SITE_FAILED, w)
     else if errcode = NE_CONNECT then (SITE_CONNECT, w)
     else if errcode = NE_LOOKUP then (SITE_LOOKUP, w)
     else if errcode = NE_TIMEOUT then (SITE_ERRORS, hp_set_error hp ''The connection timed out.'' w)
     else (SITE_ERRORS, w))"

definition syserr :: "'w http \<Rightarrow> string \<Rightarrow> string \<Rightarrow> 'w \<Rightarrow> 'w" where
  "syserr hp msg err w = hp_set_error hp (msg @ '': '' @ err) w"

definition get_server_port_dav :: "site \<Rightarrow> int" where
  "get_server_port_dav s = (if s_http_secure s then 443 else 80)"

definition get_proxy_port_dav :: "site \<Rightarrow> int" where "get_proxy_port_dav s = 8080"

section \<open>Opening a session\<close>

text \<open>\<open>auth_common\<close> copies the user name and the password into buffers of \<^verbatim>\<open>NE_ABUFSIZ\<close> bytes.\<close>

definition NE_ABUFSIZ :: nat where "NE_ABUFSIZ = 256"

definition auth_common ::
    "site_host \<Rightarrow> (site_host \<Rightarrow> (int \<times> string \<times> string)) \<Rightarrow> int \<Rightarrow> (int \<times> string \<times> string) option" where
  "auth_common host login att =
     (case (h_username host, h_password host) of
        (Some u, Some p) \<Rightarrow>
          if length u < NE_ABUFSIZ \<and> length p < NE_ABUFSIZ then Some (att, u, p) else None
      | _ \<Rightarrow> Some (login host))"

definition NE_SSL_UNTRUSTED :: int where "NE_SSL_UNTRUSTED = 8"

text \<open>A result of zero accepts the certificate.\<close>

definition verify_untrusted ::
    "site \<Rightarrow> ('w \<Rightarrow> int \<times> 'w) \<Rightarrow> (string \<Rightarrow> 'w \<Rightarrow> 'w) \<Rightarrow> 'w \<Rightarrow> int \<times> 'w" where
  "verify_untrusted s accept_cert cert_write w =
     (let (no, w) = accept_cert w in
      if no \<noteq> 0 then (- 1, w) else (0, cert_write (s_certfile s) w))"

definition verify_trusted :: "'cert \<Rightarrow> int \<Rightarrow> 'cert \<Rightarrow> int" where
  "verify_trusted expected failures cert =
     (if failures \<noteq> NE_SSL_UNTRUSTED \<or> cert \<noteq> expected then 1 else 0)"

datatype ne_setting = Verify_trusted string | Verify_untrusted | Notify | No_persist | Useragent
  | Proxy_auth | Proxy string int | Server_auth | Clicert string

record 'w ne_session =
  sl_create :: "string \<Rightarrow> string option \<Rightarrow> int \<Rightarrow> 'w \<Rightarrow> 'w"
  sl_set :: "ne_setting \<Rightarrow> 'w \<Rightarrow> 'w"
  sl_destroy :: "'w \<Rightarrow> 'w"
  sl_has_ssl :: bool
  sl_readable :: "string \<Rightarrow> 'w \<Rightarrow> bool"
  sl_cert_read :: "string \<Rightarrow> 'w \<Rightarrow> string option"
  sl_clicert_read :: "string \<Rightarrow> 'w \<Rightarrow> (string \<times> bool) option"
  sl_decrypt_clicert :: "'w \<Rightarrow> string option \<times> 'w"
  sl_clicert_decrypt :: "string \<Rightarrow> string \<Rightarrow> 'w \<Rightarrow> bool"

definition init_verify :: "'w http \<Rightarrow> 'w ne_session \<Rightarrow> site \<Rightarrow> 'w \<Rightarrow> bool \<times> 'w" where
  "init_verify hp sl s w =
     (if \<not> s_http_secure s then (True, w)
      else if sl_readable sl (s_certfile s) w then
        (case sl_cert_read sl (s_certfile s) w of
           None \<Rightarrow> (False, hp_set_error hp (''Could not load certificate `'' @ s_certfile s @ [CHR 0x27] @ ''.'') w)
         | Some cert \<Rightarrow> (True, sl_set sl (Verify_trusted cert) w))
      else (True, sl_set sl Verify_untrusted w))"

definition init_clicert :: "'w http \<Rightarrow> 'w ne_session \<Rightarrow> site \<Rightarrow> 'w \<Rightarrow> bool \<times> 'w" where
  "init_clicert hp sl s w =
     (case s_client_cert s of
        None \<Rightarrow> (True, w)
      | Some name \<Rightarrow>
          if \<not> s_http_secure s then (True, w)
          else (case sl_clicert_read sl name w of
             None \<Rightarrow> (False, hp_set_error hp
               (''Could not read SSL client certificate '' @ [CHR 0x27] @ name @ [CHR 0x27] @ ''.'') w)
           | Some (cc, encrypted) \<Rightarrow>
               if encrypted then
                 (let (password, w) = sl_decrypt_clicert sl w in
                  case password of
                    None \<Rightarrow> (False, w)
                  | Some pw \<Rightarrow>
                      if sl_clicert_decrypt sl cc pw w then (True, sl_set sl (Clicert cc) w)
                      else (False, hp_set_error hp
                        (''Could not decrypt SSL client certificate '' @ [CHR 0x27] @ name @ [CHR 0x27] @ ''.'') w))
               else (True, sl_set sl (Clicert cc) w)))"

text \<open>What the OPTIONS request decides.\<close>

definition init_options :: "'w http \<Rightarrow> site \<Rightarrow> 'w \<Rightarrow> (int \<times> 'w) option" where
  "init_options hp s w =
     (if s_http_tolerant s then Some (SITE_OK, w)
      else
        do { root \<leftarrow> s_remote_root s;
             let ((ret, caps), w) = ne_options hp (ne_path_escape root)
               \<lparr>dav_class1 = False, dav_class2 = False, dav_executable = False\<rparr> w;
             Some
               (if ret = NE_OK then
                  (if \<not> dav_class1 caps then
                     (SITE_FAILED, hp_set_error hp ''The server does not appear to be a WebDAV server.'' w)
                   else if s_perms s \<noteq> sitep_ignore \<and> \<not> dav_executable caps then
                     (SITE_FAILED, hp_set_error hp
                       ''The server does not support the executable live property.'' w)
                   else (SITE_OK, w))
                else
                  (let (ret, w) = h2s hp (ret, w) in (if ret = SITE_ERRORS then SITE_FAILED else ret, w))) })"

definition init_dav :: "'w http \<Rightarrow> 'w ne_session \<Rightarrow> site \<Rightarrow> 'w \<Rightarrow> (int \<times> 'w) option" where
  "init_dav hp sl s w =
     (let w = sl_create sl (if s_http_secure s then ''https'' else ''http'') (h_hostname (s_server s))
            (h_port (s_server s)) w in
      if s_http_secure s \<and> \<not> sl_has_ssl sl then
        Some (SITE_FAILED, hp_set_error hp ''SSL support has not be compiled in.'' w)
      else
        (let (verified, w) = init_verify hp sl s w in
         if \<not> verified then Some (SITE_FAILED, w)
         else
           (let w = sl_set sl Notify w;
                w = (if s_http_limit s then sl_set sl No_persist w else w);
                w = sl_set sl Useragent w;
                w = (case h_hostname (s_proxy s) of
                       Some h \<Rightarrow> sl_set sl (Proxy h (h_port (s_proxy s))) (sl_set sl Proxy_auth w)
                     | None \<Rightarrow> w);
                w = sl_set sl Server_auth w;
                (done, w) = init_clicert hp sl s w
            in if \<not> done then Some (SITE_FAILED, w) else init_options hp s w)))"

section \<open>Operations on files\<close>

definition file_move_dav :: "'w http \<Rightarrow> string \<Rightarrow> string \<Rightarrow> 'w \<Rightarrow> (int \<times> 'w) option" where
  "file_move_dav hp from to w =
     map_option (h2s hp) (ne_move hp True (ne_path_escape from) (ne_path_escape to) w)"

definition file_upload_dav :: "'w http \<Rightarrow> string \<Rightarrow> string \<Rightarrow> bool \<Rightarrow> 'w \<Rightarrow> int \<times> 'w" where
  "file_upload_dav hp loc remote ascii w =
     (let (err, w) = hp_open_read hp loc w in
      case err of
        Some e \<Rightarrow> (SITE_ERRORS, syserr hp ''Could not open file'' e w)
      | None \<Rightarrow>
          (let (ret, w) = ne_put hp (ne_path_escape remote) loc w;
               (_, w) = hp_close hp loc w
           in h2s hp (ret, w)))"

definition put_if_unmodified :: "'w http \<Rightarrow> string \<Rightarrow> string \<Rightarrow> int \<Rightarrow> 'w \<Rightarrow> int \<times> 'w" where
  "put_if_unmodified hp uri fd since w =
     (let req = ne_add_request_header ''If-Unmodified-Since'' (hp_rfc1123_date hp since)
            (ne_request_create ''PUT'' uri);
          (st, w) = hp_fstat hp fd w
      in case st of
        Some e \<Rightarrow> (NE_ERROR, hp_set_error hp (''Could not stat file: '' @ e) w)
      | None \<Rightarrow>
          (let ((ret, rsp), w) = hp_dispatch hp (req\<lparr>rq_content := Body_fd fd\<rparr>) w in
           (if ret = NE_OK then
              (if rp_code rsp = 412 then NE_FAILED
               else if rp_klass rsp \<noteq> 2 then NE_ERROR else ret)
            else ret, w)))"

definition file_upload_cond_dav ::
    "'w http \<Rightarrow> string \<Rightarrow> string \<Rightarrow> bool \<Rightarrow> int \<Rightarrow> 'w \<Rightarrow> int \<times> 'w" where
  "file_upload_cond_dav hp loc remote ascii t w =
     (let (err, w) = hp_open_read hp loc w in
      case err of
        Some e \<Rightarrow> (SITE_ERRORS, syserr hp ''Could not open file'' e w)
      | None \<Rightarrow>
          (let (ret, w) = h2s hp (put_if_unmodified hp (ne_path_escape remote) loc t w);
               (_, w) = hp_close hp loc w
           in (ret, w)))"

text \<open>\<open>modtime\<close> is what the variable of the caller holds.\<close>

definition file_get_modtime_dav :: "'w http \<Rightarrow> string \<Rightarrow> int \<Rightarrow> 'w \<Rightarrow> (int \<times> int) \<times> 'w" where
  "file_get_modtime_dav hp remote modtime w =
     (let ((ret, t), w) = ne_getmodtime hp (ne_path_escape remote) modtime w;
          (ret, w) = h2s hp (ret, w)
      in ((ret, t), w))"

text \<open>The local file is opened, and cut to nothing, before the request is sent.\<close>

definition file_download_dav :: "'w http \<Rightarrow> string \<Rightarrow> string \<Rightarrow> bool \<Rightarrow> 'w \<Rightarrow> (int \<times> 'w) option" where
  "file_download_dav hp loc remote ascii w =
     (let (err, w) = hp_open_write hp loc w in
      case err of
        Some e \<Rightarrow> Some (SITE_ERRORS, syserr hp ''Could not open file'' e w)
      | None \<Rightarrow>
          do { r \<leftarrow> ne_get hp (ne_path_escape remote) loc w;
               let (ret, w) = h2s hp r;
               let (closed, w) = hp_close hp loc w;
               Some (if closed then ret else SITE_ERRORS, w) })"

text \<open>\<open>file_read\<close>: every block of every attempt goes to the reader.\<close>

partial_function (option) read_loop ::
    "'w http \<Rightarrow> request \<Rightarrow> string list \<Rightarrow> 'w \<Rightarrow> ((int \<times> string list) \<times> 'w) option" where
  "read_loop hp req got w =
     (let (a, w) = hp_attempt hp req w in
      if at_begin a \<noteq> NE_OK then Some ((at_begin a, got), w)
      else
        (let ret = (if at_read_ok a then at_end a else NE_ERROR); got = got @ at_blocks a in
         if ret = NE_RETRY then read_loop hp req got w else Some ((ret, got), w)))"

definition file_read_dav :: "'w http \<Rightarrow> string \<Rightarrow> 'w \<Rightarrow> ((int \<times> string list) \<times> 'w) option" where
  "file_read_dav hp remote w =
     do { ((ret, got), w) \<leftarrow> read_loop hp (ne_request_create ''GET'' (ne_path_escape remote)) [] w;
          let (ret, w) = h2s hp (ret, w);
          Some ((ret, got), w) }"

definition file_delete_dav :: "'w http \<Rightarrow> string \<Rightarrow> 'w \<Rightarrow> (int \<times> 'w) option" where
  "file_delete_dav hp remote w = map_option (h2s hp) (ne_delete hp (ne_path_escape remote) w)"

definition executable_prop :: propname where
  "executable_prop = (Some ''http://apache.org/dav/props/'', ''executable'')"

definition S_IXUSR :: mode_t where "S_IXUSR = 64"

definition file_chmod_dav :: "'w http \<Rightarrow> string \<Rightarrow> mode_t \<Rightarrow> 'w \<Rightarrow> (int \<times> 'w) option" where
  "file_chmod_dav hp remote mode w =
     map_option (h2s hp)
       (ne_proppatch_set hp (ne_path_escape remote) executable_prop
         (if and mode S_IXUSR \<noteq> 0 then ''T'' else ''F'') w)"

section \<open>Operations on directories\<close>

definition coll_escape :: "string \<Rightarrow> string" where
  "coll_escape dirname =
     (let ret = ne_path_escape dirname in if ne_path_has_trailing_slash ret then ret else ret @ ''/'')"

definition dir_create_dav :: "'w http \<Rightarrow> string \<Rightarrow> 'w \<Rightarrow> (int \<times> 'w) option" where
  "dir_create_dav hp dirname w = map_option (h2s hp) (ne_mkcol hp (coll_escape dirname) w)"

definition dir_remove_dav :: "'w http \<Rightarrow> string \<Rightarrow> 'w \<Rightarrow> (int \<times> 'w) option" where
  "dir_remove_dav hp dirname w = map_option (h2s hp) (ne_delete hp (coll_escape dirname) w)"

definition unimp_link2 :: "'w http \<Rightarrow> string \<Rightarrow> string option \<Rightarrow> 'w \<Rightarrow> int \<times> 'w" where
  "unimp_link2 hp l target w = (SITE_UNSUPPORTED, hp_set_error hp ''Operation not supported'' w)"

definition unimp_link1 :: "'w http \<Rightarrow> string \<Rightarrow> 'w \<Rightarrow> int \<times> 'w" where
  "unimp_link1 hp l w = (SITE_UNSUPPORTED, hp_set_error hp ''Operation not supported'' w)"

section \<open>Listing a directory\<close>

abbreviation (input) ELM_resourcetype :: int where "ELM_resourcetype \<equiv> 201"
abbreviation (input) ELM_collection :: int where "ELM_collection \<equiv> 202"

definition fetch_elms :: "((string \<times> string) \<times> int) list" where
  "fetch_elms = [((''DAV:'', ''resourcetype''), ELM_resourcetype),
     ((''DAV:'', ''collection''), ELM_collection)]"

definition dav_props :: "propname list" where
  "dav_props = [(Some ''DAV:'', ''getcontentlength''), (Some ''DAV:'', ''getlastmodified''),
     executable_prop, (Some ''DAV:'', ''resourcetype'')]"

text \<open>The files, and the warnings: the message, the path, the reason.\<close>

record fetch_context =
  fc_files :: "proto_file list"
  fc_warnings :: "(string \<times> string \<times> string option) list"

definition insert_file :: "fetch_context \<Rightarrow> proto_file \<Rightarrow> fetch_context" where
  "insert_file ctx f = ctx\<lparr>fc_files := fc_files ctx @ [f]\<rparr>"

definition empty_file :: proto_file where
  "empty_file = \<lparr>pf_filename = [], pf_type = proto_file, pf_size = 0, pf_modtime = 0, pf_mode = 0,
     pf_checksum = zero_checksum\<rparr>"

text \<open>The private structure of a resource is whether it is a collection.  A path that cannot be
  unescaped comes back as NULL, which \<^verbatim>\<open>ne_path_childof\<close> reads.\<close>

definition pfind_results ::
    "(string \<Rightarrow> int) \<Rightarrow> string \<Rightarrow> ne_uri \<Rightarrow> bool prop_set \<Rightarrow> fetch_context \<Rightarrow> fetch_context option" where
  "pfind_results httpdate root uri results ctx =
     do { let iscoll = pset_private results;
          uhref \<leftarrow> ne_path_unescape (u_path uri);
          Some
            (if \<not> ne_path_childof root uhref then ctx
             else
               (let clength = ne_propset_value results (dav_props ! 0);
                    modtime = ne_propset_value results (dav_props ! 1);
                    isexec = ne_propset_value results (dav_props ! 2);
                    st = (if modtime = None then ne_propset_status results (dav_props ! 1)
                          else if clength = None then ne_propset_status results (dav_props ! 0) else None);
                    filename = drop (length root) uhref
                in if iscoll then
                     insert_file ctx (empty_file\<lparr>pf_type := proto_dir,
                       pf_filename := (if ne_path_has_trailing_slash filename then butlast filename
                                       else filename)\<rparr>)
                   else
                     (case (clength, modtime) of
                        (Some len, Some time) \<Rightarrow>
                          insert_file ctx (empty_file\<lparr>pf_type := proto_file, pf_filename := filename,
                            pf_size := atoi len, pf_modtime := httpdate time,
                            pf_mode := (case isexec of
                                Some x \<Rightarrow> if strcasecmp_eq x ''T'' then 493 else 420
                              | None \<Rightarrow> 420)\<rparr>)
                      | _ \<Rightarrow>
                          ctx\<lparr>fc_warnings := fc_warnings ctx
                            @ [(''Could not access resource'', uhref,
                                map_option st_reason (Option.bind st (\<lambda>x. x)))]\<rparr>))) }"

definition start_element_dav ::
    "int \<Rightarrow> string \<Rightarrow> string \<Rightarrow> (bool, 'c) propfind_state \<Rightarrow> (verdict \<times> (bool, 'c) propfind_state) option"
  where
  "start_element_dav parent nspace name m =
     (let state = ne_xml_mapid fetch_elms nspace name in
      if parent = ELM_prop \<and> state = ELM_resourcetype then Some (Accept ELM_resourcetype, m)
      else if parent = ELM_resourcetype \<and> state = ELM_collection then
        do { set \<leftarrow> pf_current (m_user m);
             Some (Decline, m\<lparr>m_user := (m_user m)\<lparr>pf_current := Some (set\<lparr>pset_private := True\<rparr>)\<rparr>\<rparr>) }
      else Some (Decline, m))"

definition handler_dav :: "(bool, 'c) propfind_state xml_handler" where
  "handler_dav = \<lparr>hd_start = start_element_dav, hd_cdata = None, hd_end = None\<rparr>"

definition fetch_list_dav ::
    "'w http \<Rightarrow> string \<Rightarrow> bool \<Rightarrow> 'w \<Rightarrow> ((int \<times> fetch_context) \<times> 'w) option" where
  "fetch_list_dav hp dirname need_modtimes w =
     do { ((ret, ctx), w) \<leftarrow> ne_propfind_named hp (ne_path_escape dirname) ''1'' False handler_dav
            (pfind_results (hp_httpdate_parse hp) dirname) dav_props \<lparr>fc_files = [], fc_warnings = []\<rparr> w;
          let (ret, w) = h2s hp (ret, w);
          Some ((ret, ctx), w) }"

section \<open>The driver\<close>

text \<open>
  As a value of the driver interface.  Its functions have a result everywhere: an operation that is
  undefined fails here and leaves the world alone.  The warnings of a listing go to the frontend.
\<close>

definition defined_or :: "'a \<Rightarrow> 'w \<Rightarrow> ('a \<times> 'w) option \<Rightarrow> 'a \<times> 'w" where
  "defined_or x w r = (case r of Some y \<Rightarrow> y | None \<Rightarrow> (x, w))"

definition dav_driver_ops :: "int \<Rightarrow> 'w http \<Rightarrow> 'w ne_session \<Rightarrow> 'w proto_driver" where
  "dav_driver_ops junk hp sl =
     \<lparr>d_init = (\<lambda>s w. defined_or SITE_FAILED w (init_dav hp sl s w)),
      d_finish = sl_destroy sl,
      d_file_move = (\<lambda>p q w. defined_or SITE_FAILED w (file_move_dav hp p q w)),
      d_file_upload = file_upload_dav hp,
      d_file_upload_cond = file_upload_cond_dav hp,
      d_file_get_modtime = (\<lambda>p. file_get_modtime_dav hp p junk),
      d_file_download = (\<lambda>p q a w. defined_or SITE_FAILED w (file_download_dav hp p q a w)),
      d_file_read = (\<lambda>p w. defined_or (SITE_FAILED, []) w (file_read_dav hp p w)),
      d_file_delete = (\<lambda>p w. defined_or SITE_FAILED w (file_delete_dav hp p w)),
      d_file_chmod = (\<lambda>p m w. defined_or SITE_FAILED w (file_chmod_dav hp p m w)),
      d_dir_create = (\<lambda>p w. defined_or SITE_FAILED w (dir_create_dav hp p w)),
      d_dir_remove = (\<lambda>p w. defined_or SITE_FAILED w (dir_remove_dav hp p w)),
      d_link_create = Some (unimp_link2 hp), d_link_change = Some (unimp_link2 hp),
      d_link_delete = Some (unimp_link1 hp),
      d_fetch_list = Some (\<lambda>p n w. defined_or (SITE_FAILED, []) w
        (map_option (\<lambda>((ret, ctx), w). ((ret, fc_files ctx), w)) (fetch_list_dav hp p n w))),
      d_error = (\<lambda>w. ne_strclean (hp_get_error hp w)),
      d_get_server_port = get_server_port_dav, d_get_proxy_port = get_proxy_port_dav,
      d_protocol_name = ''WebDAV''\<rparr>"

end
