(* ===== verification/Dav_Fetch.thy ===== *)
theory Dav_Fetch
  imports Dav_Driver
begin

text \<open>
  A listing over WebDAV: the events of the multi-status document that a server sends for a PROPFIND of
  depth one, one response for the directory and one for each member, and that \<open>fetch_list\<close> returns the
  members.  The proof runs the reader over one response after the other.
\<close>

section \<open>The document\<close>

record dav_entry =
  de_name :: string
  de_dir :: bool
  de_slash :: bool
  de_size :: nat
  de_time :: string
  de_exec :: "bool option"

definition el_text :: "string \<Rightarrow> (string \<times> string) list \<Rightarrow> string \<Rightarrow> sax list" where
  "el_text name atts t = [Start name atts, Chars t, End name]"

definition exec_event :: "string \<Rightarrow> sax list" where
  "exec_event t = el_text ''executable'' [(''xmlns'', ''http://apache.org/dav/props/'')] t"

definition propstat_events :: "string \<Rightarrow> sax list \<Rightarrow> string \<Rightarrow> sax list" where
  "propstat_events ws props st =
     [Start ''D:propstat'' [], Chars ws, Start ''D:prop'' []] @ props @ [End ''D:prop'', Chars ws]
     @ el_text ''D:status'' [] st @ [End ''D:propstat'', Chars ws]"

text \<open>A member is given with its size and time, or as a collection; properties that it lacks come in a
  second propstat.\<close>

definition type_events :: "bool \<Rightarrow> sax list" where
  "type_events dir =
     [Start ''D:resourcetype'' []]
     @ (if dir then [Start ''D:collection'' [], End ''D:collection''] else [])
     @ [End ''D:resourcetype'']"

definition ok_props :: "dav_entry \<Rightarrow> sax list" where
  "ok_props e =
     (if de_dir e then type_events True @ el_text ''D:getlastmodified'' [] (de_time e)
      else
        type_events False
        @ el_text ''D:getcontentlength'' [] (show_nat (de_size e))
        @ el_text ''D:getlastmodified'' [] (de_time e)
        @ (case de_exec e of Some x \<Rightarrow> exec_event (if x then ''T'' else ''F'') | None \<Rightarrow> []))"

definition missing_props :: "dav_entry \<Rightarrow> sax list" where
  "missing_props e =
     (if de_dir e then el_text ''D:getcontentlength'' [] [] @ exec_event []
      else case de_exec e of Some x \<Rightarrow> [] | None \<Rightarrow> exec_event [])"

definition response_events :: "string \<Rightarrow> string \<Rightarrow> dav_entry \<Rightarrow> sax list" where
  "response_events ws href e =
     [Start ''D:response'' [], Chars ws] @ el_text ''D:href'' [] href @ [Chars ws]
     @ propstat_events ws (ok_props e) ''HTTP/1.1 200 OK''
     @ propstat_events ws (missing_props e) ''HTTP/1.1 404 Not Found''
     @ [End ''D:response'', Chars ws]"

definition member_path :: "string list \<Rightarrow> dav_entry \<Rightarrow> string" where
  "member_path segs e = path_of (segs @ [de_name e] @ (if de_dir e \<and> de_slash e then [[]] else []))"

definition dir_path :: "string list \<Rightarrow> string" where "dir_path segs = path_of (segs @ [[]])"

definition listing_events :: "string \<Rightarrow> string list \<Rightarrow> dav_entry \<Rightarrow> dav_entry list \<Rightarrow> sax list" where
  "listing_events ws segs self es =
     [Start ''D:multistatus'' [(''xmlns:D'', ''DAV:'')], Chars ws]
     @ response_events ws (ne_path_escape (dir_path segs)) self
     @ concat (map (\<lambda>e. response_events ws (ne_path_escape (member_path segs e)) e) es)
     @ [End ''D:multistatus'']"

text \<open>What is to come out.\<close>

definition member_file :: "(string \<Rightarrow> int) \<Rightarrow> dav_entry \<Rightarrow> proto_file" where
  "member_file httpdate e =
     (if de_dir e then empty_file\<lparr>pf_type := proto_dir, pf_filename := de_name e\<rparr>
      else empty_file\<lparr>pf_type := proto_file, pf_filename := de_name e, pf_size := int (de_size e),
        pf_modtime := httpdate (de_time e),
        pf_mode := (if de_exec e = Some True then 493 else 420)\<rparr>)"

section \<open>The reader at work\<close>

definition dav_handlers :: "(string \<Rightarrow> int) \<Rightarrow> string \<Rightarrow> (bool, fetch_context) propfind_state xml_handler list" where
  "dav_handlers date root =
     [handler_207 (callbacks_propfind False (pfind_results date root)), handler_dav, handler_props]"

text \<open>A state of the parser between two events, without failure and outside dead branches.\<close>

definition live_parser :: "elem list \<Rightarrow> 'u \<Rightarrow> 'u xml_parser" where
  "live_parser branch u = \<lparr>x_branch = branch, x_failure = None, x_prune = 0, x_user = u\<rparr>"

definition dav_elem :: "string \<Rightarrow> int \<Rightarrow> nat \<Rightarrow> elem" where
  "dav_elem name st h = new_elem\<lparr>e_nspace := ''DAV:'', e_name := name, e_state := st, e_handler := h\<rparr>"

definition root_branch :: "elem list" where
  "root_branch = [(dav_elem ''multistatus'' 1 0)\<lparr>e_nspaces := [(''D'', ''DAV:'')]\<rparr>,
     new_elem\<lparr>e_default_ns := Some []\<rparr>]"

definition exec_elem :: elem where
  "exec_elem = new_elem\<lparr>e_nspace := ''http://apache.org/dav/props/'', e_name := ''executable'',
     e_state := 99, e_handler := 2, e_default_ns := Some ''http://apache.org/dav/props/''\<rparr>"

lemmas reader_defs = live_parser_def xml_start_element_def xml_char_data_def xml_end_element_def
  expand_qname_def dav_elem_def root_branch_def exec_elem_def new_elem_def dav_handlers_def
  handler_207_def handler_dav_def handler_props_def callbacks_propfind_def invalid_ncname_def

abbreviation "in_response \<equiv> dav_elem ''response'' 2 0 # root_branch"
abbreviation "in_propstat \<equiv> dav_elem ''propstat'' 7 0 # in_response"
abbreviation "in_prop \<equiv> dav_elem ''prop'' 50 0 # in_propstat"

lemma open_response:
  "xml_event (dav_handlers date root) (Start ''D:response'' []) (live_parser root_branch m)
   = Some (live_parser in_response (m\<lparr>m_cdata := []\<rparr>))"
  by (simp add: reader_defs start_element_207_def map207_def can_handle_def)

text \<open>The state inside a response whose name is known.\<close>

definition reading ::
    "ne_uri \<Rightarrow> ne_uri \<Rightarrow> fetch_context \<Rightarrow> string \<Rightarrow> bool \<Rightarrow> status option \<Rightarrow> nat \<Rightarrow> bool \<Rightarrow> propstat list
      \<Rightarrow> (bool, fetch_context) propfind_state" where
  "reading bas uri ctx cd inps st cnt coll pss =
     \<lparr>m_base = bas, m_cdata = cd, m_in_response = True, m_propstat = inps, m_status = st,
      m_description = None, m_user = \<lparr>pf_current = Some \<lparr>pset_pstats = pss, pset_counter = cnt,
        pset_private = coll, pset_uri = uri\<rparr>, pf_value = ne_buffer_create, pf_depth = 0, pf_userdata = ctx\<rparr>\<rparr>"

definition waiting :: "ne_uri \<Rightarrow> fetch_context \<Rightarrow> string \<Rightarrow> (bool, fetch_context) propfind_state" where
  "waiting bas ctx cd =
     \<lparr>m_base = bas, m_cdata = cd, m_in_response = False, m_propstat = False, m_status = None,
      m_description = None, m_user = \<lparr>pf_current = None, pf_value = ne_buffer_create, pf_depth = 0,
        pf_userdata = ctx\<rparr>\<rparr>"

lemma parser_fields [simp]:
  "x_failure (live_parser b u) = None" "x_user (live_parser b u) = u"
  "pf_userdata (m_user (waiting bas ctx cd)) = ctx"
  by (simp_all add: live_parser_def waiting_def)

lemmas reader207_defs = reader_defs start_element_207_def end_element_207_def map207_def can_handle_def
  cdata_207_def reading_def waiting_def

lemma chars_between:
  "xml_event (dav_handlers date root) (Chars ws) (live_parser root_branch m) = Some (live_parser root_branch m)"
  "xml_event (dav_handlers date root) (Chars ws) (live_parser in_response m) = Some (live_parser in_response m)"
  "xml_event (dav_handlers date root) (Chars ws) (live_parser in_propstat m) = Some (live_parser in_propstat m)"
  by (simp_all add: reader_defs cdata_207_def)

lemma href_read:
  assumes "ne_shave href xml_white = href" "href \<noteq> []" "length href < 2047"
    "ne_uri_parse href = Some (Some u)"
  shows "for_each (xml_event (dav_handlers date root)) (el_text ''D:href'' [] href)
      (live_parser in_response (waiting bas ctx cd))
    = Some (live_parser in_response (reading bas (ne_uri_resolve bas u) ctx href False None 0 False []))"
  using assms by (simp add: el_text_def reader207_defs start_response_def)

lemma open_propstat:
  assumes "cnt + 1 \<noteq> MAX_PROP_COUNTER"
  shows "xml_event (dav_handlers date root) (Start ''D:propstat'' [])
      (live_parser in_response (reading bas uri ctx cd False st cnt coll pss))
    = Some (live_parser in_propstat (reading bas uri ctx [] True st (cnt + 1) coll
        (pss @ [\<lparr>ps_props = [], ps_status = None\<rparr>])))"
  using assms by (simp add: reader207_defs start_propstat_def)

lemma open_prop:
  "xml_event (dav_handlers date root) (Start ''D:prop'' [])
      (live_parser in_propstat (reading bas uri ctx cd True st cnt coll pss))
    = Some (live_parser in_prop (reading bas uri ctx [] True st cnt coll pss))"
  by (simp add: reader207_defs)

lemma close_prop:
  "xml_event (dav_handlers date root) (End ''D:prop'') (live_parser in_prop m)
   = Some (live_parser in_propstat m)"
  by (simp add: reader207_defs Let_def)

text \<open>A flat property becomes the last of the propstat.\<close>

definition add_prop :: "propname \<Rightarrow> string \<Rightarrow> propstat list \<Rightarrow> propstat list" where
  "add_prop name t pss =
     update_last (\<lambda>ps. ps\<lparr>ps_props := ps_props ps @ [\<lparr>pr_pname = name, pr_value = Some t\<rparr>]\<rparr>) pss"

lemma update_last_snoc [simp]: "update_last f (xs @ [x]) = xs @ [f x]"
  by (simp add: update_last_def)

lemmas flat_defs = reader207_defs el_text_def startelm_def endelm_def chardata_def start_element_dav_def
  fetch_elms_def ne_buffer_create_def ne_buffer_append_def MAX_FLATPROP_LEN_def add_prop_def

lemma flat_prop:
  assumes "cnt + 1 \<noteq> MAX_PROP_COUNTER" "name = ''getcontentlength'' \<or> name = ''getlastmodified''"
  shows "for_each (xml_event (dav_handlers date root)) (el_text (''D:'' @ name) [] t)
      (live_parser in_prop (reading bas uri ctx cd True st cnt coll (pss @ [ps])))
    = Some (live_parser in_prop (reading bas uri ctx cd True st (cnt + 1) coll
        (add_prop (Some ''DAV:'', name) t (pss @ [ps]))))"
  using assms(2) assms(1) by (elim disjE) (simp_all add: flat_defs)

lemma exec_prop:
  assumes "cnt + 1 \<noteq> MAX_PROP_COUNTER"
  shows "for_each (xml_event (dav_handlers date root)) (exec_event t)
      (live_parser in_prop (reading bas uri ctx cd True st cnt coll (pss @ [ps])))
    = Some (live_parser in_prop (reading bas uri ctx cd True st (cnt + 1) coll
        (add_prop executable_prop t (pss @ [ps]))))"
  using assms by (simp add: exec_event_def flat_defs executable_prop_def)

lemma type_prop:
  "for_each (xml_event (dav_handlers date root)) (type_events dir)
      (live_parser in_prop (reading bas uri ctx cd True st cnt False pss))
    = Some (live_parser in_prop (reading bas uri ctx cd True st cnt dir pss))"
  by (cases dir) (simp_all add: type_events_def flat_defs)

lemmas prop_read = type_prop
  flat_prop [where name = "''getcontentlength''" and pss = "[]", simplified]
  flat_prop [where name = "''getlastmodified''" and pss = "[]", simplified]
  exec_prop [where pss = "[]", simplified]
  flat_prop [where name = "''getcontentlength''" and pss = "[p]" for p, simplified]
  exec_prop [where pss = "[p]" for p, simplified]

lemma status_read:
  assumes "st' = \<lparr>st_code = 200, st_klass = 2, st_reason = ''OK''\<rparr> \<and> t = ''HTTP/1.1 200 OK''
    \<or> st' = \<lparr>st_code = 404, st_klass = 4, st_reason = ''Not Found''\<rparr> \<and> t = ''HTTP/1.1 404 Not Found''"
  shows "for_each (xml_event (dav_handlers date root)) (el_text ''D:status'' [] t)
      (live_parser in_propstat (reading bas uri ctx cd True st cnt coll pss))
    = Some (live_parser in_propstat (reading bas uri ctx t True (Some st') cnt coll pss))"
proof -
  have t: "ne_shave t xml_white = t" "t \<noteq> []" "length t < 2047"
    using assms by (elim disjE conjE; simp add: ne_shave_def xml_white_def NL_def)+
  have "ne_parse_statusline ''HTTP/1.1 200 OK'' = Some \<lparr>st_code = 200, st_klass = 2, st_reason = ''OK''\<rparr>"
    "ne_parse_statusline ''HTTP/1.1 404 Not Found''
      = Some \<lparr>st_code = 404, st_klass = 4, st_reason = ''Not Found''\<rparr>"
    by code_simp+
  then have "ne_parse_statusline t = Some st'" using assms by (elim disjE conjE) simp_all
  then show ?thesis using t by (simp add: el_text_def reader207_defs)
qed

lemma close_propstat:
  "xml_event (dav_handlers date root) (End ''D:propstat'')
      (live_parser in_propstat (reading bas uri ctx cd True (Some st) cnt coll (pss @ [ps])))
   = Some (live_parser in_response (reading bas uri ctx cd False None cnt coll
       (pss @ [ps\<lparr>ps_status := Some st,
          ps_props := (if st_klass st \<noteq> 2 then map (pr_value_update (\<lambda>_. None)) (ps_props ps)
            else ps_props ps)\<rparr>])))"
  by (simp add: reader207_defs end_propstat_def)

lemma close_response:
  assumes "pss \<noteq> []"
    "pfind_results date root uri \<lparr>pset_pstats = pss, pset_counter = cnt, pset_private = coll, pset_uri = uri\<rparr> ctx
      = Some ctx'"
  shows "xml_event (dav_handlers date root) (End ''D:response'')
      (live_parser in_response (reading bas uri ctx cd False None cnt coll pss))
    = Some (live_parser root_branch (waiting bas ctx' cd))"
  using assms by (simp add: reader207_defs end_response_def)

lemma multistatus_read:
  "xml_event (dav_handlers date root) (Start ''D:multistatus'' [(''xmlns:D'', ''DAV:'')])
     (ne_xml_create (ne_207_create bas \<lparr>pf_current = None, pf_value = ne_buffer_create, pf_depth = 0,
        pf_userdata = ctx\<rparr>))
   = Some (live_parser root_branch (waiting bas ctx []))"
  "xml_event (dav_handlers date root) (End ''D:multistatus'') (live_parser root_branch (waiting bas ctx cd))
   = Some (live_parser [new_elem\<lparr>e_default_ns := Some []\<rparr>] (waiting bas ctx cd))"
  by (simp_all add: reader207_defs ne_xml_create_def ne_207_create_def Let_def)

declare xml_event.simps [simp del]

section \<open>One response\<close>

abbreviation ok_status :: status where
  "ok_status \<equiv> \<lparr>st_code = 200, st_klass = 2, st_reason = ''OK''\<rparr>"

abbreviation missing_status :: status where
  "missing_status \<equiv> \<lparr>st_code = 404, st_klass = 4, st_reason = ''Not Found''\<rparr>"

definition ok_list :: "dav_entry \<Rightarrow> ne_prop list" where
  "ok_list e =
     (if de_dir e then [\<lparr>pr_pname = (Some ''DAV:'', ''getlastmodified''), pr_value = Some (de_time e)\<rparr>]
      else [\<lparr>pr_pname = (Some ''DAV:'', ''getcontentlength''), pr_value = Some (show_nat (de_size e))\<rparr>,
            \<lparr>pr_pname = (Some ''DAV:'', ''getlastmodified''), pr_value = Some (de_time e)\<rparr>]
           @ (case de_exec e of
                Some x \<Rightarrow> [\<lparr>pr_pname = executable_prop, pr_value = Some (if x then ''T'' else ''F'')\<rparr>]
              | None \<Rightarrow> []))"

definition missing_list :: "dav_entry \<Rightarrow> ne_prop list" where
  "missing_list e =
     (if de_dir e then [\<lparr>pr_pname = (Some ''DAV:'', ''getcontentlength''), pr_value = None\<rparr>,
        \<lparr>pr_pname = executable_prop, pr_value = None\<rparr>]
      else case de_exec e of Some x \<Rightarrow> [] | None \<Rightarrow> [\<lparr>pr_pname = executable_prop, pr_value = None\<rparr>])"

definition entry_set :: "dav_entry \<Rightarrow> propstat list" where
  "entry_set e = [\<lparr>ps_props = ok_list e, ps_status = Some ok_status\<rparr>,
     \<lparr>ps_props = missing_list e, ps_status = Some missing_status\<rparr>]"

lemma ok_props_read:
  "for_each (xml_event (dav_handlers date root)) (ok_props e)
      (live_parser in_prop (reading bas uri ctx cd True st 1 False [\<lparr>ps_props = [], ps_status = None\<rparr>]))
    = Some (live_parser in_prop (reading bas uri ctx cd True st (1 + length (ok_list e)) (de_dir e)
        [\<lparr>ps_props = ok_list e, ps_status = None\<rparr>]))"
  by (simp add: ok_props_def ok_list_def for_each_append prop_read MAX_PROP_COUNTER_def add_prop_def
      update_last_def split: option.splits)

lemma missing_props_read:
  assumes "cnt < 10"
  shows "for_each (xml_event (dav_handlers date root)) (missing_props e)
      (live_parser in_prop (reading bas uri ctx cd True st cnt coll [p, \<lparr>ps_props = [], ps_status = None\<rparr>]))
    = Some (live_parser in_prop (reading bas uri ctx cd True st (cnt + length (missing_list e)) coll
        [p, \<lparr>ps_props = map (pr_value_update (\<lambda>_. Some [])) (missing_list e), ps_status = None\<rparr>]))"
  using assms
  by (simp add: missing_props_def missing_list_def for_each_append prop_read MAX_PROP_COUNTER_def add_prop_def
      update_last_def split: option.splits)

lemma missing_list_kept [simp]:
  "map (pr_value_update (\<lambda>_. None) \<circ> pr_value_update (\<lambda>_. Some [])) (missing_list e) = missing_list e"
  by (simp add: missing_list_def split: option.splits)

lemma response_read:
  assumes "ne_shave href xml_white = href" "href \<noteq> []" "length href < 2047"
    "ne_uri_parse href = Some (Some u)"
    "pfind_results date root (ne_uri_resolve bas u) \<lparr>pset_pstats = entry_set e,
       pset_counter = 2 + length (ok_list e) + length (missing_list e), pset_private = de_dir e,
       pset_uri = ne_uri_resolve bas u\<rparr> ctx = Some ctx'"
  shows "\<exists>cd'. for_each (xml_event (dav_handlers date root)) (response_events ws href e)
      (live_parser root_branch (waiting bas ctx cd)) = Some (live_parser root_branch (waiting bas ctx' cd'))"
proof -
  let ?run = "for_each (xml_event (dav_handlers date root))"
  let ?read = "reading bas (ne_uri_resolve bas u) ctx"
  have small: "length (ok_list e) < 8" by (simp add: ok_list_def split: option.splits)
  have w: "(waiting bas ctx cd)\<lparr>m_cdata := []\<rparr> = waiting bas ctx []" by (simp add: waiting_def)
  have 1: "?run ([Start ''D:response'' [], Chars ws] @ el_text ''D:href'' [] href @ [Chars ws])
      (live_parser root_branch (waiting bas ctx cd))
    = Some (live_parser in_response (?read href False None 0 False []))"
    using href_read [OF assms(1-4), of date root bas ctx "[]"]
    by (simp add: for_each_append open_response chars_between w)
  have 2: "?run (propstat_events ws (ok_props e) ''HTTP/1.1 200 OK'')
      (live_parser in_response (?read href False None 0 False []))
    = Some (live_parser in_response (?read ''HTTP/1.1 200 OK'' False None (1 + length (ok_list e)) (de_dir e)
        [\<lparr>ps_props = ok_list e, ps_status = Some ok_status\<rparr>]))"
    using ok_props_read [of date root e bas "ne_uri_resolve bas u" ctx "[]" None]
      close_propstat [where pss = "[]"]
    by (simp add: propstat_events_def for_each_append open_propstat MAX_PROP_COUNTER_def open_prop
        chars_between close_prop status_read)
  have 3: "?run (propstat_events ws (missing_props e) ''HTTP/1.1 404 Not Found'')
      (live_parser in_response (?read cd False None (1 + length (ok_list e)) coll [ps]))
    = Some (live_parser in_response (?read ''HTTP/1.1 404 Not Found'' False None
        (2 + length (ok_list e) + length (missing_list e)) coll
        [ps, \<lparr>ps_props = missing_list e, ps_status = Some missing_status\<rparr>]))" for cd coll ps
    using missing_props_read [of "2 + length (ok_list e)" date root e bas "ne_uri_resolve bas u" ctx "[]" None]
      close_propstat [where pss = "[ps]"] small
    by (simp add: propstat_events_def for_each_append open_propstat MAX_PROP_COUNTER_def open_prop
        chars_between close_prop status_read)
  have 4: "?run [End ''D:response'', Chars ws]
      (live_parser in_response (?read cd False None (2 + length (ok_list e) + length (missing_list e))
        (de_dir e) (entry_set e)))
    = Some (live_parser root_branch (waiting bas ctx' cd))" for cd
    using close_response [OF _ assms(5)] by (simp add: chars_between entry_set_def)
  have ev: "response_events ws href e =
    ([Start ''D:response'' [], Chars ws] @ el_text ''D:href'' [] href @ [Chars ws])
    @ propstat_events ws (ok_props e) ''HTTP/1.1 200 OK''
    @ propstat_events ws (missing_props e) ''HTTP/1.1 404 Not Found'' @ [End ''D:response'', Chars ws]"
    by (simp add: response_events_def)
  show ?thesis
    unfolding ev for_each_append [of _ "[Start ''D:response'' [], Chars ws] @ _"] 1 Option.bind.bind_lunit
      for_each_append [of _ "propstat_events _ _ _"] 2 3
    using 4 by (intro exI [of _ "''HTTP/1.1 404 Not Found''"]) (simp add: entry_set_def del: for_each.simps)
qed

section \<open>The names\<close>

lemma escape_path_of: "ne_path_escape (path_of segs) = path_of (map ne_path_escape segs)"
proof -
  have "uesc CHR ''/'' = ''/''" by code_simp
  then show ?thesis by (induction segs) (simp_all add: escape_append escape_Cons)
qed

lemma escape_inj: "ne_path_escape s = ne_path_escape t \<Longrightarrow> s = t"
  by (metis option.inject unescape_escape)

lemma escape_no_slash:
  assumes "CHR ''/'' \<notin> set s"
  shows "CHR ''/'' \<notin> set (ne_path_escape s)"
proof -
  have "CHR ''/'' \<notin> set (uesc c)" if "c \<noteq> CHR ''/''" for c
  proof (cases c rule: uesc_cases)
    case hex
    have a: "digit_char (code c div 16) \<noteq> CHR ''/''" by (rule hex_char(4) [OF high_nibble])
    have b: "digit_char (code c mod 16) \<noteq> CHR ''/''" by (rule hex_char(4)) simp
    show ?thesis unfolding hex(2) using a [symmetric] b [symmetric] by simp
  qed (use that in auto)
  then have "\<forall>c \<in> set s. CHR ''/'' \<notin> set (uesc c)" using assms by metis
  then show ?thesis unfolding uescaped set_concat set_map by blast
qed

lemma escape_good: "good_seg s \<Longrightarrow> good_seg (ne_path_escape s)"
proof -
  assume g: "good_seg s"
  have "ne_path_escape ''.'' = ''.''" "ne_path_escape ''..'' = ''..''" by code_simp+
  then have "ne_path_escape s = ''.'' \<Longrightarrow> s = ''.''" "ne_path_escape s = ''..'' \<Longrightarrow> s = ''..''"
    using escape_inj [of s "''.''"] escape_inj [of s "''..''"] by simp_all
  then show ?thesis using g escape_no_slash [of s] unfolding good_seg_def by blast
qed

text \<open>A reference that is an absolute path: it is parsed, and resolves to itself.\<close>

definition plain_path :: "string list \<Rightarrow> bool" where
  "plain_path segs \<longleftrightarrow> list_all good_seg segs \<and> list_all (\<lambda>s. NULc \<notin> set s) segs \<and> segs \<noteq> []
     \<and> (hd segs = [] \<longrightarrow> tl segs = []) \<and> length (ne_path_escape (path_of segs)) < 2047"

lemma seg_char_shown: "seg_char c \<Longrightarrow> c \<notin> set xml_white"
proof -
  have "\<not> seg_char CHR 0x0D" "\<not> seg_char CHR 0x0A" "\<not> seg_char CHR 0x09" "\<not> seg_char CHR '' ''"
    by code_simp+
  then show "seg_char c \<Longrightarrow> c \<notin> set xml_white" by (auto simp: xml_white_def NL_def)
qed

lemma shave_id: "list_all seg_char s \<Longrightarrow> ne_shave s xml_white = s"
proof -
  have dw: "dropWhile (\<lambda>c. c \<in> set xml_white) t = t" if "list_all seg_char t" for t
    using that seg_char_shown by (cases t) auto
  assume "list_all seg_char s"
  then show ?thesis using dw [of s] dw [of "rev s"] by (simp add: ne_shave_def)
qed

lemma plain_href:
  assumes "plain_path segs"
  shows "ne_shave (ne_path_escape (path_of segs)) xml_white = ne_path_escape (path_of segs)"
    "ne_path_escape (path_of segs) \<noteq> []" "length (ne_path_escape (path_of segs)) < 2047"
    "ne_uri_parse (ne_path_escape (path_of segs))
      = Some (Some (zero_uri\<lparr>u_path := ne_path_escape (path_of segs)\<rparr>))"
    "u_path (ne_uri_resolve bas (zero_uri\<lparr>u_path := ne_path_escape (path_of segs)\<rparr>))
      = ne_path_escape (path_of segs)"
    "ne_path_unescape (ne_path_escape (path_of segs)) = Some (path_of segs)"
proof -
  let ?h = "ne_path_escape (path_of segs)"
  obtain s ss where s: "segs = s # ss" using assms by (cases segs) (auto simp: plain_path_def)
  have h: "?h = path_of (map ne_path_escape segs)" by (rule escape_path_of)
  have hc: "?h = CHR ''/'' # ne_path_escape s @ path_of (map ne_path_escape ss)"
    unfolding h unfolding s by simp
  show "ne_shave ?h xml_white = ?h" by (rule shave_id [OF escape_seg_chars])
  show ne: "?h \<noteq> []" unfolding hc by simp
  show "length ?h < 2047" using assms by (simp add: plain_path_def)
  have hd: "hd ?h = CHR ''/''" unfolding hc by simp
  have good: "list_all good_seg (map ne_path_escape segs)"
    using assms escape_good by (auto simp: plain_path_def list_all_iff)
  have "take 2 ?h \<noteq> ''//''"
  proof (cases "s = []")
    case True
    then show ?thesis using assms s unfolding hc by (simp add: plain_path_def)
  next
    case False
    then obtain c t where c: "ne_path_escape s = c # t"
      using escape_inj [of s "[]"] by (cases "ne_path_escape s") auto
    have "good_seg (c # t)" using good s c by simp
    then show ?thesis unfolding hc by (auto simp: c good_seg_def numeral_eq_Suc)
  qed
  then show "ne_uri_parse ?h = Some (Some (zero_uri\<lparr>u_path := ?h\<rparr>))"
    by (rule parse_path [OF escape_seg_chars ne hd])
  show "u_path (ne_uri_resolve bas (zero_uri\<lparr>u_path := ?h\<rparr>)) = ?h"
    using remove_dot_segments_id [OF good] ne hd unfolding h
    by (simp add: ne_uri_resolve_def zero_uri_def copy_authority_def Let_def)
  have "NULc \<notin> set (path_of segs)"
    using assms by (auto simp: plain_path_def path_of_def list_all_iff NULc_def)
  then show "ne_path_unescape ?h = Some (path_of segs)" using path_round_trip by blast
qed

section \<open>The listing\<close>

definition member_segs :: "string list \<Rightarrow> dav_entry \<Rightarrow> string list" where
  "member_segs segs e = segs @ [de_name e] @ (if de_dir e \<and> de_slash e then [[]] else [])"

definition entry_ok :: "string list \<Rightarrow> dav_entry \<Rightarrow> bool" where
  "entry_ok segs e \<longleftrightarrow> plain_path (member_segs segs e) \<and> de_name e \<noteq> [] \<and> int (de_size e) \<le> LONG_MAX"

lemma childof_self: "ne_path_childof root (root @ t) \<longleftrightarrow> t \<noteq> []"
  by (auto simp: ne_path_childof_def ne_path_compare_def strcasecmp_eq_def)

lemma atoi_show_nat: "int n \<le> LONG_MAX \<Longrightarrow> atoi (show_nat n) = int n"
  using strtol_show_int [of "int n"] by (simp add: atoi_def show_int_def LONG_MIN_def)

lemma entry_values:
  assumes "\<not> de_dir e" "pset_pstats results = entry_set e"
  shows "ne_propset_value results (dav_props ! 0) = Some (show_nat (de_size e))"
    "ne_propset_value results (dav_props ! 1) = Some (de_time e)"
    "ne_propset_value results (dav_props ! 2)
      = (case de_exec e of Some x \<Rightarrow> Some (if x then ''T'' else ''F'') | None \<Rightarrow> None)"
  using assms
  by (simp_all add: ne_propset_value_def findprop_def entry_set_def ok_list_def missing_list_def
      dav_props_def executable_prop_def split: option.splits)

lemma member_path_split:
  "member_path segs e = dir_path segs @ de_name e @ (if de_dir e \<and> de_slash e then ''/'' else [])"
  by (simp add: member_path_def dir_path_def)

lemma pfind_member:
  assumes "entry_ok segs e" "u_path uri = ne_path_escape (member_path segs e)"
    "pset_pstats results = entry_set e" "pset_private results = de_dir e"
  shows "pfind_results date (dir_path segs) uri results ctx
    = Some (ctx\<lparr>fc_files := fc_files ctx @ [member_file date e]\<rparr>)"
proof -
  have un: "ne_path_unescape (u_path uri) = Some (member_path segs e)"
    using plain_href(6) [of "member_segs segs e"] assms(1,2)
    by (simp add: entry_ok_def member_path_def member_segs_def)
  have "CHR ''/'' \<notin> set (de_name e)"
    using assms(1) by (simp add: entry_ok_def plain_path_def member_segs_def good_seg_def)
  then have name: "de_name e \<noteq> []" "last (de_name e) \<noteq> CHR ''/''"
    using assms(1) last_in_set [of "de_name e"] by (metis entry_ok_def)+
  show ?thesis
  proof (cases "de_dir e")
    case True
    then show ?thesis
      using assms(4) name
      by (simp add: pfind_results_def un childof_self member_path_split member_file_def insert_file_def
          ne_path_has_trailing_slash_def butlast_append Let_def)
  next
    case False
    have "strcasecmp_eq ''T'' ''T''" "\<not> strcasecmp_eq ''F'' ''T''" by code_simp+
    then show ?thesis
      using False assms(1,4) name entry_values [OF False assms(3)]
      by (simp add: pfind_results_def un childof_self member_path_split member_file_def insert_file_def
          atoi_show_nat entry_ok_def Let_def split: option.splits)
  qed
qed

lemma pfind_self:
  assumes "plain_path (segs @ [[]])" "u_path uri = ne_path_escape (dir_path segs)"
  shows "pfind_results date (dir_path segs) uri results ctx = Some ctx"
  using plain_href(6) [OF assms(1)] assms(2) childof_self [of "dir_path segs" "[]"]
  by (simp add: pfind_results_def dir_path_def Let_def)

lemma members_read:
  assumes "\<forall>e \<in> set es. entry_ok segs e"
  shows "\<exists>cd'. for_each (xml_event (dav_handlers date (dir_path segs)))
      (concat (map (\<lambda>e. response_events ws (ne_path_escape (member_path segs e)) e) es))
      (live_parser root_branch (waiting bas ctx cd))
    = Some (live_parser root_branch
        (waiting bas (ctx\<lparr>fc_files := fc_files ctx @ map (member_file date) es\<rparr>) cd'))"
  using assms
proof (induction es arbitrary: ctx cd)
  case (Cons e es)
  let ?ctx = "ctx\<lparr>fc_files := fc_files ctx @ [member_file date e]\<rparr>"
  have e: "entry_ok segs e" using Cons.prems by simp
  then have p: "plain_path (member_segs segs e)" by (simp add: entry_ok_def)
  have path: "path_of (member_segs segs e) = member_path segs e"
    by (simp add: member_path_def member_segs_def)
  note href = plain_href [OF p, unfolded path]
  obtain cd1 where one: "for_each (xml_event (dav_handlers date (dir_path segs)))
      (response_events ws (ne_path_escape (member_path segs e)) e)
      (live_parser root_branch (waiting bas ctx cd)) = Some (live_parser root_branch (waiting bas ?ctx cd1))"
    using response_read [OF href(1-4) pfind_member [OF e href(5)]] by fastforce
  obtain cd2 where "for_each (xml_event (dav_handlers date (dir_path segs)))
      (concat (map (\<lambda>e. response_events ws (ne_path_escape (member_path segs e)) e) es))
      (live_parser root_branch (waiting bas ?ctx cd1))
    = Some (live_parser root_branch
        (waiting bas (?ctx\<lparr>fc_files := fc_files ?ctx @ map (member_file date) es\<rparr>) cd2))"
    using Cons.IH [of ?ctx cd1] Cons.prems by auto
  then show ?case using one by (auto simp: for_each_append)
qed auto

text \<open>C20.  What a server lists for a directory comes out as just that: each member with its name
  unescaped and without the directory's path, with its size, time and execute permission, collections as
  directories, in the order of the server; the directory itself is left out, properties that a member
  lacks do not matter, and SITE_OK is returned.  (The comment on \<^verbatim>\<open>insert_file\<close> promises a sorted list;
  the code appends.)\<close>
theorem dav_fetch_correct:
  assumes "plain_path (segs @ [[]])" "\<forall>e \<in> set es. entry_ok segs e"
    and "hp_dispatch hp (propfind_request (ne_path_escape (dir_path segs)) ''1'' dav_props) w
      = ((NE_OK, rsp), w')"
    and "rp_code rsp = 207" "rp_klass rsp = 2"
    and "hp_expat hp (rp_body rsp) = listing_events ws segs self es"
  shows "fetch_list_dav hp (dir_path segs) need_modtimes w
    = Some ((SITE_OK, \<lparr>fc_files = map (member_file (hp_httpdate_parse hp)) es, fc_warnings = []\<rparr>), w')"
proof -
  let ?hs = "dav_handlers (hp_httpdate_parse hp) (dir_path segs)"
  let ?bas = "(server_uri hp)\<lparr>u_path := ne_path_escape (dir_path segs)\<rparr>"
  let ?none = "\<lparr>fc_files = [], fc_warnings = []\<rparr>"
  note href = plain_href [OF assms(1), folded dir_path_def]
  obtain cd where self: "for_each (xml_event ?hs) (response_events ws (ne_path_escape (dir_path segs)) self)
      (live_parser root_branch (waiting ?bas ?none []))
    = Some (live_parser root_branch (waiting ?bas ?none cd))"
    using response_read [OF href(1-4) pfind_self [OF assms(1) href(5)]] by blast
  obtain cd' where "for_each (xml_event ?hs)
      (concat (map (\<lambda>e. response_events ws (ne_path_escape (member_path segs e)) e) es))
      (live_parser root_branch (waiting ?bas ?none cd))
    = Some (live_parser root_branch
        (waiting ?bas (?none\<lparr>fc_files := map (member_file (hp_httpdate_parse hp)) es\<rparr>) cd'))"
    using members_read [OF assms(2), of "hp_httpdate_parse hp" ws ?bas ?none cd] by auto
  with self have "for_each (xml_event ?hs) (listing_events ws segs self es)
      (ne_xml_create (ne_207_create ?bas \<lparr>pf_current = None, pf_value = ne_buffer_create, pf_depth = 0,
        pf_userdata = ?none\<rparr>))
    = Some (live_parser [new_elem\<lparr>e_default_ns := Some []\<rparr>]
        (waiting ?bas (?none\<lparr>fc_files := map (member_file (hp_httpdate_parse hp)) es\<rparr>) cd'))"
    by (simp add: listing_events_def for_each_append multistatus_read chars_between)
  then show ?thesis
    using assms(3-6)
    by (simp add: fetch_list_dav_def ne_propfind_named_def parse_207_def ne_xml_parse_def
        dav_handlers_def h2s_def Let_def)
qed

text \<open>A server with one document, and a directory with a collection and two files.\<close>

definition listed_members :: "dav_entry list" where
  "listed_members = [
     \<lparr>de_name = ''img'', de_dir = True, de_slash = True, de_size = 0, de_time = ''t1'', de_exec = None\<rparr>,
     \<lparr>de_name = ''a b.html'', de_dir = False, de_slash = False, de_size = 12, de_time = ''t2'', de_exec = None\<rparr>,
     \<lparr>de_name = ''run'', de_dir = False, de_slash = False, de_size = 3, de_time = ''t3'', de_exec = Some True\<rparr>]"

definition fixed_http :: "(request \<Rightarrow> (int \<times> response)) \<Rightarrow> sax list \<Rightarrow> unit http" where
  "fixed_http answer doc =
     \<lparr>hp_scheme = ''http'', hp_hostname = ''h'', hp_port = 80, hp_hostport = ''h'', hp_expat = (\<lambda>_. doc),
      hp_xml_error = (\<lambda>_. ''error''), hp_rfc1123_date = (\<lambda>_. ''date''), hp_httpdate_parse = (\<lambda>_. 7),
      hp_dispatch = (\<lambda>q w. (answer q, w)),
      hp_attempt = (\<lambda>q w. (\<lparr>at_begin = 0, at_code = 404, at_klass = 4, at_blocks = [''Not Found''],
        at_read_ok = True, at_end = 0\<rparr>, w)),
      hp_set_error = (\<lambda>_ w. w), hp_get_error = (\<lambda>w. ''error''),
      hp_open_read = (\<lambda>_ w. (None, w)), hp_open_write = (\<lambda>_ w. (None, w)), hp_fstat = (\<lambda>_ w. (None, w)),
      hp_write = (\<lambda>_ _ w. (True, w)), hp_close = (\<lambda>_ w. (True, w))\<rparr>"

definition listing_http :: "unit http" where
  "listing_http =
     fixed_http (\<lambda>q. (NE_OK, \<lparr>rp_code = 207, rp_klass = 2, rp_headers = [], rp_body = []\<rparr>))
       (listing_events [NL] [''www''] (hd listed_members) listed_members)"

lemma dav_fetch_correct_witness:
  "fetch_list_dav listing_http (dir_path [''www'']) True ()
   = Some ((SITE_OK, \<lparr>fc_files = map (member_file (hp_httpdate_parse listing_http)) listed_members,
       fc_warnings = []\<rparr>), ())"
proof -
  have "plain_path ([''www''] @ [[]])" "\<forall>e \<in> set listed_members. entry_ok [''www''] e" by code_simp+
  then show ?thesis
    by (rule dav_fetch_correct [where ws = "[NL]" and self = "hd listed_members"
        and rsp = "\<lparr>rp_code = 207, rp_klass = 2, rp_headers = [], rp_body = []\<rparr>"])
      (simp_all add: listing_http_def fixed_http_def)
qed

section \<open>What a listing can do\<close>

text \<open>A document whose first response has the reference \<open>href\<close>.\<close>

definition answers :: "'w http \<Rightarrow> string \<Rightarrow> 'w \<Rightarrow> 'w \<Rightarrow> sax list \<Rightarrow> bool" where
  "answers hp dirname w w' doc \<longleftrightarrow>
     (\<exists>rsp. hp_dispatch hp (propfind_request (ne_path_escape dirname) ''1'' dav_props) w = ((NE_OK, rsp), w')
        \<and> rp_code rsp = 207 \<and> rp_klass rsp = 2 \<and> hp_expat hp (rp_body rsp) = doc)"

definition document :: "sax list \<Rightarrow> sax list" where
  "document evs = Start ''D:multistatus'' [(''xmlns:D'', ''DAV:'')] # evs @ [End ''D:multistatus'']"

lemma fetch_list_document:
  assumes "answers hp dirname w w' (document evs)"
  shows "fetch_list_dav hp dirname need_modtimes w =
    (case for_each (xml_event (dav_handlers (hp_httpdate_parse hp) dirname)) evs
        (live_parser root_branch (waiting ((server_uri hp)\<lparr>u_path := ne_path_escape dirname\<rparr>)
          \<lparr>fc_files = [], fc_warnings = []\<rparr> [])) of
       None \<Rightarrow> None
     | Some p \<Rightarrow>
         (case xml_event (dav_handlers (hp_httpdate_parse hp) dirname) (End ''D:multistatus'') p of
            None \<Rightarrow> None
          | Some p \<Rightarrow>
              let c = pf_userdata (m_user (x_user p)) in
              Some (case x_failure p of
                None \<Rightarrow> ((SITE_OK, c), w')
              | Some e \<Rightarrow> ((SITE_ERRORS, c), hp_set_error hp (hp_xml_error hp e) w'))))"
  using assms
  by (auto simp: answers_def document_def fetch_list_dav_def ne_propfind_named_def parse_207_def
      ne_xml_parse_def dav_handlers_def [symmetric] multistatus_read for_each_append h2s_def Let_def
      split: option.split)




text \<open>The same document, whoever is asked.\<close>

definition hostile_http :: "string \<Rightarrow> unit http" where
  "hostile_http href =
     fixed_http (\<lambda>q. (NE_OK, \<lparr>rp_code = 207, rp_klass = 2, rp_headers = [], rp_body = []\<rparr>))
       (document (response_events [] href (listed_members ! 1)))"

lemma hostile_answers:
  "answers (hostile_http href) dirname () () (document (response_events [] href (listed_members ! 1) @ []))"
  by (simp add: answers_def hostile_http_def fixed_http_def)


lemma pfind_named:
  assumes "\<not> de_dir e" "pset_pstats results = entry_set e" "\<not> pset_private results"
    "ne_path_unescape (u_path uri) = Some (root @ t)" "t \<noteq> []"
  shows "\<exists>f. pf_filename f = t
    \<and> pfind_results date root uri results ctx = Some (ctx\<lparr>fc_files := fc_files ctx @ [f]\<rparr>)"
  using assms entry_values [OF assms(1,2)]
  by (simp add: pfind_results_def childof_self insert_file_def Let_def)
    (rule exI, rule conjI [rotated], rule refl, simp)

text \<open>The names of a listing are those the server likes: an escaped reference out of the directory
  is returned as the name of a file, although \<open>resolve_removes_dots\<close> holds for the path, which was
  resolved before it was unescaped.\<close>
theorem dav_fetch_escapes_root:
  "map_option (\<lambda>((ret, ctx), w). (ret, map pf_filename (fc_files ctx)))
     (fetch_list_dav (hostile_http ''/www/%2e%2e/%2e%2e/.bashrc'') ''/www/'' True ())
   = Some (SITE_OK, [''../../.bashrc''])"
proof -
  let ?href = "''/www/%2e%2e/%2e%2e/.bashrc''" and ?e = "listed_members ! 1"
  let ?u = "zero_uri\<lparr>u_path := ?href\<rparr>"
  have h: "ne_shave ?href xml_white = ?href" "ne_uri_parse ?href = Some (Some ?u)" by code_simp+
  have "u_path (ne_uri_resolve bas ?u) = remove_dot_segments ?href" for bas
    by (simp add: ne_uri_resolve_def zero_uri_def copy_authority_def Let_def)
  moreover have "ne_path_unescape (remove_dot_segments ?href) = Some (''/www/'' @ ''../../.bashrc'')"
    by code_simp
  ultimately have un: "ne_path_unescape (u_path (ne_uri_resolve bas ?u)) = Some (''/www/'' @ ''../../.bashrc'')"
    for bas by simp
  have e: "\<not> de_dir ?e" by (simp add: listed_members_def)
  let ?hp = "hostile_http ?href"
  let ?bas = "(server_uri ?hp)\<lparr>u_path := ne_path_escape ''/www/''\<rparr>"
  let ?results = "\<lparr>pset_pstats = entry_set ?e, pset_counter = 2 + length (ok_list ?e) + length (missing_list ?e),
    pset_private = de_dir ?e, pset_uri = ne_uri_resolve ?bas ?u\<rparr>"
  obtain f where f: "pf_filename f = ''../../.bashrc''" and
    res: "pfind_results (hp_httpdate_parse ?hp) ''/www/'' (ne_uri_resolve ?bas ?u) ?results
      \<lparr>fc_files = [], fc_warnings = []\<rparr> = Some \<lparr>fc_files = [f], fc_warnings = []\<rparr>"
    using pfind_named [where results = ?results and date = "hp_httpdate_parse ?hp"
        and ctx = "\<lparr>fc_files = [], fc_warnings = []\<rparr>", OF e _ _ un] e
    by auto
  obtain cd where "for_each (xml_event (dav_handlers (hp_httpdate_parse ?hp) ''/www/''))
      (response_events [] ?href ?e)
      (live_parser root_branch (waiting ?bas \<lparr>fc_files = [], fc_warnings = []\<rparr> []))
    = Some (live_parser root_branch (waiting ?bas \<lparr>fc_files = [f], fc_warnings = []\<rparr> cd))"
    using response_read [OF h(1) _ _ h(2) res] by auto
  then show ?thesis
    using f unfolding fetch_list_document [OF hostile_answers] by (simp add: multistatus_read)
qed

end
