(* ===== verification/Dav_Ops.thy ===== *)
theory Dav_Ops
  imports Dav_Fetch Rsh_Driver
begin

text \<open>
  The operations of the WebDAV driver on one resource: when they succeed, what a multi-status response to
  them means, and what they do with the answers of a server that refuses.
\<close>

section \<open>Multi-status errors\<close>

text \<open>A document with one response for each resource that a request failed on.\<close>

record failure =
  fl_href :: string
  fl_uri :: ne_uri
  fl_line :: string
  fl_status :: status

definition failure_events :: "failure \<Rightarrow> sax list" where
  "failure_events f =
     [Start ''D:response'' [], Start ''D:href'' [], Chars (fl_href f), End ''D:href'',
      Start ''D:status'' [], Chars (fl_line f), End ''D:status'', End ''D:response'']"

definition failures_events :: "failure list \<Rightarrow> sax list" where
  "failures_events fs =
     Start ''D:multistatus'' [(''xmlns:D'', ''DAV:'')] # concat (map failure_events fs)
     @ [End ''D:multistatus'']"

definition failure_ok :: "failure \<Rightarrow> bool" where
  "failure_ok f \<longleftrightarrow>
     ne_shave (fl_href f) xml_white = fl_href f \<and> fl_href f \<noteq> [] \<and> length (fl_href f) < 2047
     \<and> ne_uri_parse (fl_href f) = Some (Some (fl_uri f))
     \<and> ne_shave (fl_line f) xml_white = fl_line f \<and> fl_line f \<noteq> [] \<and> length (fl_line f) < 2047
     \<and> ne_parse_statusline (fl_line f) = Some (fl_status f)"

text \<open>A failure that counts: 424 says that something else went wrong.\<close>

definition counts :: "failure \<Rightarrow> bool" where
  "counts f \<longleftrightarrow> st_klass (fl_status f) \<noteq> 2 \<and> st_code (fl_status f) \<noteq> 424"

definition failure_text :: "ne_uri \<Rightarrow> failure \<Rightarrow> string" where
  "failure_text bas f =
     ne_uri_unparse (ne_uri_resolve bas (fl_uri f)) @ '': '' @ show_int (st_code (fl_status f)) @ '' ''
     @ st_reason (fl_status f) @ [NL]"

definition simple_branch :: "elem list" where
  "simple_branch = [new_elem\<lparr>e_nspace := ''DAV:'', e_name := ''multistatus'', e_state := 1,
       e_nspaces := [(''D'', ''DAV:'')]\<rparr>, new_elem\<lparr>e_default_ns := Some []\<rparr>]"

definition simple_state :: "ne_uri \<Rightarrow> string \<Rightarrow> context207 \<Rightarrow> context207 multi xml_parser" where
  "simple_state bas cd ctx =
     \<lparr>x_branch = simple_branch, x_failure = None, x_prune = 0,
      x_user = \<lparr>m_base = bas, m_cdata = cd, m_in_response = False, m_propstat = False,
        m_status = None, m_description = None, m_user = ctx\<rparr>\<rparr>"

lemmas simple_defs = simple_state_def simple_branch_def xml_start_element_def xml_char_data_def
  xml_end_element_def expand_qname_def new_elem_def handler_207_def callbacks_simple_def
  invalid_ncname_def start_element_207_def end_element_207_def map207_def can_handle_def cdata_207_def
  xml_event.simps

lemma failure_read:
  assumes "failure_ok f"
  shows "for_each (xml_event [handler_207 callbacks_simple]) (failure_events f) (simple_state bas cd ctx)
    = Some (simple_state bas (fl_line f)
        \<lparr>cx_href = Some (ne_uri_unparse (ne_uri_resolve bas (fl_uri f))),
         cx_buf = (if counts f then cx_buf ctx @ failure_text bas f else cx_buf ctx),
         cx_is_error = (cx_is_error ctx \<or> counts f)\<rparr>)"
  using assms
  by (simp add: failure_ok_def failure_events_def simple_defs handle_error_def counts_def failure_text_def)

lemma failures_read:
  assumes "\<forall>f \<in> set fs. failure_ok f"
  shows "\<exists>cd' href. for_each (xml_event [handler_207 callbacks_simple]) (concat (map failure_events fs))
      (simple_state bas cd ctx)
    = Some (simple_state bas cd' \<lparr>cx_href = href,
        cx_buf = cx_buf ctx @ concat (map (failure_text bas) (filter counts fs)),
        cx_is_error = (cx_is_error ctx \<or> (\<exists>f \<in> set fs. counts f))\<rparr>)"
  using assms
proof (induction fs arbitrary: cd ctx)
  case Nil
  then show ?case by (cases ctx) auto
next
  case (Cons f fs)
  let ?ctx = "\<lparr>cx_href = Some (ne_uri_unparse (ne_uri_resolve bas (fl_uri f))),
         cx_buf = (if counts f then cx_buf ctx @ failure_text bas f else cx_buf ctx),
         cx_is_error = (cx_is_error ctx \<or> counts f)\<rparr>"
  obtain cd' href where rest: "for_each (xml_event [handler_207 callbacks_simple])
      (concat (map failure_events fs)) (simple_state bas (fl_line f) ?ctx)
    = Some (simple_state bas cd' \<lparr>cx_href = href,
        cx_buf = cx_buf ?ctx @ concat (map (failure_text bas) (filter counts fs)),
        cx_is_error = (cx_is_error ?ctx \<or> (\<exists>f \<in> set fs. counts f))\<rparr>)"
    using Cons.IH [of "fl_line f" ?ctx] Cons.prems by auto
  have one: "failure_ok f" using Cons.prems by simp
  show ?case
    using rest by (auto simp: for_each_append failure_read [OF one])
qed

lemma failures_parse:
  assumes "\<forall>f \<in> set fs. failure_ok f"
  shows "\<exists>p. ne_xml_parse [handler_207 callbacks_simple] (failures_events fs)
      (ne_xml_create (ne_207_create bas \<lparr>cx_href = None, cx_buf = [], cx_is_error = False\<rparr>)) = Some p
    \<and> x_failure p = None \<and> cx_is_error (m_user (x_user p)) = (\<exists>f \<in> set fs. counts f)
    \<and> cx_buf (m_user (x_user p)) = concat (map (failure_text bas) (filter counts fs))"
proof -
  have "xml_event [handler_207 callbacks_simple] (Start ''D:multistatus'' [(''xmlns:D'', ''DAV:'')])
      (ne_xml_create (ne_207_create bas ctx)) = Some (simple_state bas [] ctx)" for ctx
    by (simp add: simple_defs ne_xml_create_def ne_207_create_def)
  moreover have "xml_event [handler_207 callbacks_simple] (End ''D:multistatus'') (simple_state bas cd ctx)
    = Some ((simple_state bas cd ctx)\<lparr>x_branch := tl simple_branch\<rparr>)" for cd ctx
    by (simp add: simple_defs Let_def)
  moreover obtain cd href where "for_each (xml_event [handler_207 callbacks_simple])
      (concat (map failure_events fs))
      (simple_state bas [] \<lparr>cx_href = None, cx_buf = [], cx_is_error = False\<rparr>)
    = Some (simple_state bas cd \<lparr>cx_href = href,
        cx_buf = concat (map (failure_text bas) (filter counts fs)),
        cx_is_error = (\<exists>f \<in> set fs. counts f)\<rparr>)"
    using failures_read [OF assms, of bas "[]" "\<lparr>cx_href = None, cx_buf = [], cx_is_error = False\<rparr>"] by auto
  ultimately show ?thesis
    by (simp add: ne_xml_parse_def failures_events_def for_each_append)
      (simp add: simple_state_def)
qed

text \<open>C22.  A DELETE that is answered with a multi-status response succeeds exactly if no resource in it
  failed by itself; otherwise the session's error is the list of those that did, with their status.\<close>
theorem dav_delete_multistatus:
  assumes "hp_dispatch hp (ne_request_create ''DELETE'' (ne_path_escape remote)) w = ((NE_OK, rsp), w')"
    and "rp_code rsp = 207" "hp_expat hp (rp_body rsp) = failures_events fs"
    and "\<forall>f \<in> set fs. failure_ok f"
  shows "file_delete_dav hp remote w =
    (if \<exists>f \<in> set fs. counts f
     then Some (SITE_ERRORS, hp_set_error hp
       (concat (map (failure_text ((server_uri hp)\<lparr>u_path := ''/''\<rparr>)) (filter counts fs))) w')
     else Some (SITE_OK, w'))"
proof -
  obtain p where "ne_xml_parse [handler_207 callbacks_simple] (failures_events fs)
      (ne_xml_create (ne_207_create ((server_uri hp)\<lparr>u_path := ''/''\<rparr>)
        \<lparr>cx_href = None, cx_buf = [], cx_is_error = False\<rparr>)) = Some p"
    "x_failure p = None" "cx_is_error (m_user (x_user p)) = (\<exists>f \<in> set fs. counts f)"
    "cx_buf (m_user (x_user p))
      = concat (map (failure_text ((server_uri hp)\<lparr>u_path := ''/''\<rparr>)) (filter counts fs))"
    using failures_parse [OF assms(4)] by blast
  then show ?thesis
    using assms(1-3)
    by (simp add: file_delete_dav_def ne_delete_def ne_simple_request_def parse_207_def h2s_def Let_def)
qed

definition locked_failures :: "failure list" where
  "locked_failures = [
     \<lparr>fl_href = ''/www/a'', fl_uri = zero_uri\<lparr>u_path := ''/www/a''\<rparr>, fl_line = ''HTTP/1.1 423 Locked'',
      fl_status = \<lparr>st_code = 423, st_klass = 4, st_reason = ''Locked''\<rparr>\<rparr>,
     \<lparr>fl_href = ''/www/'', fl_uri = zero_uri\<lparr>u_path := ''/www/''\<rparr>, fl_line = ''HTTP/1.1 424 Failed Dependency'',
      fl_status = \<lparr>st_code = 424, st_klass = 4, st_reason = ''Failed Dependency''\<rparr>\<rparr>]"

definition locked_http :: "unit http" where
  "locked_http =
     fixed_http (\<lambda>q. (NE_OK, \<lparr>rp_code = 207, rp_klass = 2, rp_headers = [], rp_body = []\<rparr>))
       (failures_events locked_failures)"

lemma dav_delete_multistatus_witness:
  "file_delete_dav locked_http ''/www/'' () =
    (if \<exists>f \<in> set locked_failures. counts f
     then Some (SITE_ERRORS, hp_set_error locked_http
       (concat (map (failure_text ((server_uri locked_http)\<lparr>u_path := ''/''\<rparr>)) (filter counts locked_failures))) ())
     else Some (SITE_OK, ()))"
proof -
  have "\<forall>f \<in> set locked_failures. failure_ok f" by code_simp
  then show ?thesis
    by (rule dav_delete_multistatus [where rsp = "\<lparr>rp_code = 207, rp_klass = 2, rp_headers = [], rp_body = []\<rparr>", rotated 3])
      (simp_all add: locked_http_def fixed_http_def)
qed

section \<open>Conditional uploads\<close>

text \<open>The request with which \<open>put_if_unmodified\<close> sends a local file.\<close>

definition cond_put :: "'w http \<Rightarrow> string \<Rightarrow> string \<Rightarrow> int \<Rightarrow> request" where
  "cond_put hp remote loc since =
     (ne_add_request_header ''If-Unmodified-Since'' (hp_rfc1123_date hp since)
       (ne_request_create ''PUT'' (ne_path_escape remote)))\<lparr>rq_content := Body_fd loc\<rparr>"

text \<open>C21.  An update in safe mode sends a file that the server has with the condition that it has not
  been modified since.  If the server says that it was, the file stays as it is and the user is told;
  if the server fails otherwise the upload fails; and the file counts as uploaded if the server took it,
  but also if the connection, the name look-up or the authentication failed.\<close>
theorem dav_safe_upload:
  assumes "s_safemode (r_site r)" "fs_exists (sf_server f)" "r_world (notify (fe_updating f) r) = w"
    and "hp_open_read hp loc w = (None, w1)" "hp_fstat hp loc w1 = (None, w2)"
    and "hp_dispatch hp (cond_put hp remote loc (fs_time (sf_server f))) w2 = ((ret, rsp), w3)"
    and "hp_close hp loc w3 = (ok, w4)" "ret \<noteq> NE_TIMEOUT" "drv = dav_driver_ops junk hp sl"
    and "r' = (notify (fe_updating f) r)\<lparr>r_world := w4\<rparr>"
  shows "upload_body drv loc remote f current (r, ret0) =
    (if ret = NE_OK \<and> rp_code rsp = 412
     then Some (notify (fe_updated f False
       (Some ''Remote file has been modified - not overwriting with local changes'')) r', 1)
     else if ret = NE_FAILED
     then Some (notify (fe_updated f False
       (Some ''Remote file has been modified - not overwriting with local changes'')) r', 1)
     else if ret = NE_OK \<and> rp_klass rsp = 2 \<or> ret \<in> {NE_AUTH, NE_PROXYAUTH, NE_CONNECT, NE_LOOKUP}
     then upload_done drv True f current (r', ret0)
     else Some (notify (fe_updated f False (Some (ne_strclean (hp_get_error hp w4)))) r', 1))"
proof -
  define code where "code = (if ret = NE_OK then (if rp_code rsp = 412 then NE_FAILED
      else if rp_klass rsp \<noteq> 2 then NE_ERROR else ret) else ret)"
  have "file_upload_cond_dav hp loc remote asc (fs_time (sf_server f)) w = (fst (h2s hp (code, w3)), w4)" for asc
    using assms(4-8)
    by (simp add: file_upload_cond_dav_def put_if_unmodified_def cond_put_def h2s_def code_def)
  then have "call (d_file_upload_cond drv loc remote asc (fs_time (sf_server f))) (notify (fe_updating f) r)
      = (fst (h2s hp (code, w3)), r')" for asc
    using assms(3,9,10) by (simp add: call_def dav_driver_ops_def)
  then show ?thesis
    using assms(1,2,8,10)
    by (simp add: upload_body_def driver_err_def assms(9) dav_driver_ops_def h2s_def code_def Let_def)
qed

text \<open>A transport over a log of the requests, on which the connection is lost, and a session library
  that does nothing.\<close>

definition dropping_http :: "string list http" where
  "dropping_http =
     \<lparr>hp_scheme = ''http'', hp_hostname = ''h'', hp_port = 80, hp_hostport = ''h'', hp_expat = (\<lambda>_. []),
      hp_xml_error = (\<lambda>_. ''error''), hp_rfc1123_date = (\<lambda>_. ''date''), hp_httpdate_parse = (\<lambda>_. 7),
      hp_dispatch = (\<lambda>q w. ((NE_CONNECT, \<lparr>rp_code = 0, rp_klass = 0, rp_headers = [], rp_body = []\<rparr>), w)),
      hp_attempt = (\<lambda>q w. (\<lparr>at_begin = NE_CONNECT, at_code = 0, at_klass = 0, at_blocks = [],
        at_read_ok = True, at_end = 0\<rparr>, w)),
      hp_set_error = (\<lambda>_ w. w), hp_get_error = (\<lambda>w. ''error''),
      hp_open_read = (\<lambda>_ w. (None, w)), hp_open_write = (\<lambda>_ w. (None, w)), hp_fstat = (\<lambda>_ w. (None, w)),
      hp_write = (\<lambda>_ _ w. (True, w)), hp_close = (\<lambda>_ w. (True, w))\<rparr>"

definition quiet_session :: "string list ne_session" where
  "quiet_session =
     \<lparr>sl_create = (\<lambda>_ _ _ w. w), sl_set = (\<lambda>_ w. w), sl_destroy = id, sl_has_ssl = False,
      sl_readable = (\<lambda>_ _. False), sl_cert_read = (\<lambda>_ _. None), sl_clicert_read = (\<lambda>_ _. None),
      sl_decrypt_clicert = (\<lambda>w. (None, w)), sl_clicert_decrypt = (\<lambda>_ _ _. False)\<rparr>"

definition safe_dav_site :: site where
  "safe_dav_site = safe_rsh_site\<lparr>s_protocol := siteproto_dav, s_http_tolerant := True\<rparr>"

definition safe_run :: "string list run" where
  "safe_run = \<lparr>r_site = safe_dav_site, r_world = [], r_log = []\<rparr>"

lemma dav_safe_upload_witness:
  "upload_body (dav_driver_ops 0 dropping_http quiet_session) ''/home/a'' ''/www/a'' changed_file 1 (safe_run, 0) =
    (if NE_CONNECT = NE_OK \<and> (0::int) = 412
     then Some (notify (fe_updated changed_file False
       (Some ''Remote file has been modified - not overwriting with local changes''))
       ((notify (fe_updating changed_file) safe_run)\<lparr>r_world := []\<rparr>), 1)
     else if NE_CONNECT = NE_FAILED
     then Some (notify (fe_updated changed_file False
       (Some ''Remote file has been modified - not overwriting with local changes''))
       ((notify (fe_updating changed_file) safe_run)\<lparr>r_world := []\<rparr>), 1)
     else if NE_CONNECT = NE_OK \<and> (0::int) = 2 \<or> NE_CONNECT \<in> {NE_AUTH, NE_PROXYAUTH, NE_CONNECT, NE_LOOKUP}
     then upload_done (dav_driver_ops 0 dropping_http quiet_session) True changed_file 1
       ((notify (fe_updating changed_file) safe_run)\<lparr>r_world := []\<rparr>, 0)
     else Some (notify (fe_updated changed_file False (Some (ne_strclean (hp_get_error dropping_http []))))
       ((notify (fe_updating changed_file) safe_run)\<lparr>r_world := []\<rparr>), 1))"
  by (rule dav_safe_upload [where w = "[]" and ?w1.0 = "[]" and ?w2.0 = "[]" and ?w3.0 = "[]" and ok = True
      and rsp = "\<lparr>rp_code = 0, rp_klass = 0, rp_headers = [], rp_body = []\<rparr>" and ret = NE_CONNECT, simplified response.select_convs])
    (simp_all add: safe_run_def safe_dav_site_def safe_rsh_site_def changed_file_def zero_state_def
      zero_site_def notify_def dropping_http_def)

text \<open>So over WebDAV a lost connection loses an upload in safe mode: the update returns SITE_OK, the
  changed file counts as uploaded and the site as up to date, and nothing was sent.\<close>
theorem dav_safemode_lost_upload:
  "updated_quietly (site_update (dav_driver_ops 0 dropping_http quiet_session) agreeing_os safe_run)"
proof -
  have code: "file_upload_cond_dav dropping_http = (\<lambda>_ _ _ _ w. (SITE_CONNECT, w))"
    by (intro ext) (simp add: file_upload_cond_dav_def put_if_unmodified_def dropping_http_def h2s_def)
  have start: "(\<lambda>s w. defined_or SITE_FAILED w (init_dav dropping_http quiet_session s w)) =
    (\<lambda>s w. if s_http_tolerant s \<and> \<not> s_http_secure s then (SITE_OK, w)
       else defined_or SITE_FAILED w (init_dav dropping_http quiet_session s w))"
    by (intro ext) (simp add: init_dav_def init_verify_def init_clicert_def init_options_def quiet_session_def
        defined_or_def Let_def split: option.splits)
  have "updated_quietly (site_update \<lparr>d_init = (\<lambda>s w. if s_http_tolerant s \<and> \<not> s_http_secure s
        then (SITE_OK, w) else ini s w), d_finish = id,
      d_file_move = mv, d_file_upload = up, d_file_upload_cond = (\<lambda>_ _ _ _ w. (SITE_CONNECT, w)),
      d_file_get_modtime = (\<lambda>_ w. ((SITE_CONNECT, 0), w)),
      d_file_download = dl,
      d_file_read = rd, d_file_delete = del, d_file_chmod = ch, d_dir_create = mk, d_dir_remove = rm,
      d_link_create = lc, d_link_change = lg, d_link_delete = ld, d_fetch_list = fl,
      d_error = e, d_get_server_port = p, d_get_proxy_port = pp,
      d_protocol_name = n\<rparr> agreeing_os safe_run)"
    for ini mv up dl rd del ch mk rm lc lg ld fl e p pp n
    by code_simp
  moreover have "file_get_modtime_dav dropping_http p 0 = (\<lambda>w. ((SITE_CONNECT, 0), w))" for p
    by (intro ext) (simp add: file_get_modtime_dav_def ne_getmodtime_def dropping_http_def h2s_def
        ne_get_response_header_def)
  moreover have "sl_destroy quiet_session = id" by (simp add: quiet_session_def)
  ultimately show ?thesis unfolding dav_driver_ops_def code start by presburger
qed

section \<open>Reading a file\<close>

text \<open>The attempts at a request: all but the last end with \<^verbatim>\<open>NE_RETRY\<close>.\<close>

fun attempts :: "'w http \<Rightarrow> request \<Rightarrow> attempt list \<Rightarrow> 'w \<Rightarrow> 'w \<Rightarrow> bool" where
  "attempts hp req [] w w' \<longleftrightarrow> False"
| "attempts hp req (a # as) w w' \<longleftrightarrow>
     at_begin a = NE_OK \<and> at_read_ok a
     \<and> (if as = [] then hp_attempt hp req w = (a, w') \<and> at_end a = NE_OK
        else fst (hp_attempt hp req w) = a \<and> at_end a = NE_RETRY
          \<and> attempts hp req as (snd (hp_attempt hp req w)) w')"

lemma read_loop_attempts:
  "attempts hp req as w w'
   \<Longrightarrow> read_loop hp req got w = Some ((NE_OK, got @ concat (map at_blocks as)), w')"
proof (induction as arbitrary: w got)
  case (Cons a as)
  then show ?case
    by (subst read_loop.simps) (auto simp: Let_def case_prod_beta' split: if_splits)
qed simp

text \<open>The checksum of a file on the server is taken over whatever the server sends: the status is
  not looked at, so an error page counts as the content of the file, and the bodies of attempts that
  were answered with a demand to authenticate are read as well.\<close>
theorem dav_checksum_any_status:
  assumes "s_remote_root (r_site r) = Some root"
    and "attempts hp (ne_request_create ''GET'' (ne_path_escape (root @ pf_filename file))) as (r_world r) w'"
  shows "fetch_checksum_file (dav_driver_ops junk hp sl) md5 file r
    = Some (file\<lparr>pf_checksum := md5 (concat (concat (map at_blocks as)))\<rparr>,
        notify (fe_checksummed (root @ pf_filename file) True None)
          ((notify (fe_checksumming (pf_filename file)) r)\<lparr>r_world := w'\<rparr>))"
  using assms
  by (simp add: fetch_checksum_file_def dav_driver_ops_def file_read_dav_def read_loop_attempts defined_or_def
      h2s_def call_def Let_def)

definition page_file :: proto_file where
  "page_file = empty_file\<lparr>pf_filename := ''gone.html''\<rparr>"

definition fetching_run :: "unit run" where
  "fetching_run = \<lparr>r_site = zero_site\<lparr>s_remote_root := Some ''/www/''\<rparr>, r_world = (), r_log = []\<rparr>"

definition not_found :: attempt where
  "not_found = \<lparr>at_begin = 0, at_code = 404, at_klass = 4, at_blocks = [''Not Found''],
     at_read_ok = True, at_end = 0\<rparr>"

lemma dav_checksum_any_status_witness:
  "fetch_checksum_file (dav_driver_ops 0 listing_http sl) (\<lambda>t. t) page_file fetching_run
    = Some (page_file\<lparr>pf_checksum := concat (concat (map at_blocks [not_found]))\<rparr>,
        notify (fe_checksummed (''/www/'' @ pf_filename page_file) True None)
          ((notify (fe_checksumming (pf_filename page_file)) fetching_run)\<lparr>r_world := ()\<rparr>))"
  by (rule dav_checksum_any_status)
    (simp_all add: fetching_run_def listing_http_def fixed_http_def not_found_def)

end
