(* ===== verification/Sftp_Driver.thy ===== *)
theory Sftp_Driver
  imports Rsh_Driver
begin

text \<open>
  The SFTP driver, \<^verbatim>\<open>src/sftpdriver.c\<close>: commands are written to an \<^verbatim>\<open>sftp\<close> process, whose output is read
  up to the next prompt, and files and listings are read from an \<^verbatim>\<open>ssh\<close> process.  The system calls
  act on a world of type \<open>'w\<close>.  \<^const>\<open>None\<close> is undefined behaviour, or the end of this process
  where \<^verbatim>\<open>execlp\<close> replaces it.  The buffer of the session is written before it is read, and so is
  not part of the state.
\<close>

section \<open>The session\<close>

record 'w sftp_sys =
  ss_socketpair :: "'w \<Rightarrow> (int \<times> int) option \<times> 'w"
  ss_fork :: "'w \<Rightarrow> int \<times> 'w"
  ss_dup2 :: "int \<Rightarrow> int \<Rightarrow> 'w \<Rightarrow> bool \<times> 'w"
  ss_close :: "int \<Rightarrow> 'w \<Rightarrow> 'w"
  ss_shutdown :: "int \<Rightarrow> 'w \<Rightarrow> 'w"
  ss_execlp :: "string \<Rightarrow> string \<Rightarrow> 'w \<Rightarrow> 'w option"
  ss_waitpid :: "int \<Rightarrow> 'w \<Rightarrow> bool \<times> 'w"
  ss_read :: "int \<Rightarrow> nat \<Rightarrow> 'w \<Rightarrow> string option \<times> 'w"
  ss_write :: "int \<Rightarrow> string \<Rightarrow> 'w \<Rightarrow> bool \<times> 'w"
  ss_popen :: "string \<Rightarrow> 'w \<Rightarrow> (string \<times> int) option \<times> 'w"

text \<open>A stream of \<^verbatim>\<open>popen\<close>: its text and the status its process will have, or closed.\<close>

datatype stream = Piped string int | Closed

record 'w sftp_session =
  sp_host :: string
  sp_username :: "string option"
  sp_sftp_cmd :: string
  sp_ssh_cmd :: string
  sp_connected :: bool
  sp_fd_in :: int
  sp_fd_out :: int
  sp_sftp_pid :: int
  sp_fp :: "stream option"
  sp_world :: 'w

definition sftp_call :: "('w \<Rightarrow> 'a \<times> 'w) \<Rightarrow> 'w sftp_session \<Rightarrow> 'a \<times> 'w sftp_session" where
  "sftp_call g s = (let (x, w) = g (sp_world s) in (x, s\<lparr>sp_world := w\<rparr>))"

definition sftp_do :: "('w \<Rightarrow> 'w) \<Rightarrow> 'w sftp_session \<Rightarrow> 'w sftp_session" where
  "sftp_do g s = s\<lparr>sp_world := g (sp_world s)\<rparr>"

definition sftp_init :: "site \<Rightarrow> 'w \<Rightarrow> 'w sftp_session option" where
  "sftp_init site w =
     do { host \<leftarrow> h_hostname (s_server site);
          Some \<lparr>sp_host = host, sp_username = h_username (s_server site),
            sp_sftp_cmd = (case s_rcp_cmd site of Some c \<Rightarrow> c | None \<Rightarrow> ''sftp''),
            sp_ssh_cmd = (case s_rsh_cmd site of Some c \<Rightarrow> c | None \<Rightarrow> ''ssh''),
            sp_connected = False, sp_fd_in = 0, sp_fd_out = 0, sp_sftp_pid = 0, sp_fp = None,
            sp_world = w\<rparr> }"

text \<open>
  \<open>read_sftp\<close> reads into what is left of the buffer, and puts a NUL behind what it has: past the end
  of the buffer where that is full.
\<close>

function read_prompt ::
    "'w sftp_sys \<Rightarrow> int \<Rightarrow> string \<Rightarrow> 'w \<Rightarrow> (int \<times> 'w) option" where
  "read_prompt sys fd got w =
     (let (r, w) = ss_read sys fd (BUFSIZ - length got) w in
      case r of
        None \<Rightarrow> Some (SITE_FAILED, w)
      | Some t \<Rightarrow>
          (let got' = got @ take (BUFSIZ - length got) t in
           if length got' = length got then Some (SITE_OK, w)
           else if BUFSIZ \<le> length got' then None
           else if CHR ''>'' \<in> set (c_string got') then Some (SITE_OK, w)
           else read_prompt sys fd got' w))"
  by auto
termination
  by (relation "measure (\<lambda>(sys, fd, got, w). BUFSIZ - length got)") (auto simp: min_def neq_Nil_conv)

declare read_prompt.simps [simp del]

definition read_sftp :: "'w sftp_sys \<Rightarrow> 'w sftp_session \<Rightarrow> (int \<times> 'w sftp_session) option" where
  "read_sftp sys s =
     map_option (\<lambda>(ret, w). (ret, s\<lparr>sp_world := w\<rparr>)) (read_prompt sys (sp_fd_in s) [] (sp_world s))"

text \<open>In the child: it comes back from here if the name is too long or the program cannot be run.\<close>

definition exec_sftp :: "'w sftp_sys \<Rightarrow> 'w sftp_session \<Rightarrow> 'w sftp_session option" where
  "exec_sftp sys s =
     (let buf = buffered ((case sp_username s of Some u \<Rightarrow> u @ ''@'' | None \<Rightarrow> []) @ sp_host s) in
      if length buf + 1 \<ge> BUFSIZ then Some s
      else map_option (\<lambda>w. s\<lparr>sp_world := w\<rparr>) (ss_execlp sys (sp_sftp_cmd s) buf (sp_world s)))"

definition sftp_connect :: "'w sftp_sys \<Rightarrow> 'w sftp_session \<Rightarrow> (int \<times> 'w sftp_session) option" where
  "sftp_connect sys s =
     (let (inout, s) = sftp_call (ss_socketpair sys) s in
      case inout of
        None \<Rightarrow> Some (SITE_FAILED, s)
      | Some (fd, c) \<Rightarrow>
          (let s = s\<lparr>sp_fd_in := fd, sp_fd_out := fd, sp_connected := True\<rparr>;
               (pid, s) = sftp_call (ss_fork sys) s;
               s = s\<lparr>sp_sftp_pid := pid\<rparr>
           in if pid = - 1 then Some (SITE_FAILED, s)
              else if pid = 0 then
                (let (ok0, s) = sftp_call (ss_dup2 sys c 0) s;
                     (ok1, s) = (if ok0 then sftp_call (ss_dup2 sys c 1) s else (False, s))
                 in if \<not> ok1 then Some (SITE_FAILED, s)
                    else
                      do { s \<leftarrow> exec_sftp sys
                             (sftp_do (\<lambda>w. ss_close sys c (ss_close sys c (ss_close sys fd (ss_close sys fd w)))) s);
                           Some (SITE_FAILED, s) })
              else
                do { (_, s) \<leftarrow> read_sftp sys (sftp_do (\<lambda>w. ss_close sys c (ss_close sys c w)) s);
                     Some (SITE_OK, s) }))"

definition sftp_disconnect :: "'w sftp_sys \<Rightarrow> 'w sftp_session \<Rightarrow> int \<times> 'w sftp_session" where
  "sftp_disconnect sys s =
     (let s = sftp_do (\<lambda>w. ss_close sys (sp_fd_out s) (ss_close sys (sp_fd_in s)
                (ss_shutdown sys (sp_fd_out s) (ss_shutdown sys (sp_fd_in s) w)))) s;
          (ok, s) = sftp_call (ss_waitpid sys (sp_sftp_pid s)) s
      in (if ok then SITE_OK else SITE_FAILED, s))"

section \<open>Commands\<close>

definition run_sftp :: "'w sftp_sys \<Rightarrow> string \<Rightarrow> 'w sftp_session \<Rightarrow> (int \<times> 'w sftp_session) option" where
  "run_sftp sys command s =
     do { (_, s) \<leftarrow> (if sp_connected s then Some (SITE_OK, s) else sftp_connect sys s);
          let buf = buffered command in
          if length buf + 2 \<ge> BUFSIZ then Some (SITE_FAILED, s)
          else
            (let (ok, s) = sftp_call (ss_write sys (sp_fd_out s) (buf @ [NL])) s in
             if \<not> ok then Some (SITE_FAILED, s)
             else do { (_, s) \<leftarrow> read_sftp sys s; Some (SITE_OK, s) }) }"

definition ssh_command :: "'w sftp_session \<Rightarrow> string \<Rightarrow> string" where
  "ssh_command s command =
     buffered (sp_ssh_cmd s @ (case sp_username s of Some u \<Rightarrow> '' -l '' @ u | None \<Rightarrow> [])
       @ '' '' @ sp_host s @ '' '' @ [CHR 0x5C, CHR 0x5C] @ command @ '' 2> /dev/null'')"

definition run_ssh :: "'w sftp_sys \<Rightarrow> string \<Rightarrow> 'w sftp_session \<Rightarrow> int \<times> 'w sftp_session" where
  "run_ssh sys command s =
     (let buf = ssh_command s command in
      if length buf + 1 \<ge> BUFSIZ then (SITE_FAILED, s)
      else
        (let (p, s) = sftp_call (ss_popen sys buf) s in
         case p of
           Some (t, st) \<Rightarrow> (SITE_OK, s\<lparr>sp_fp := Some (Piped t st)\<rparr>)
         | None \<Rightarrow> (SITE_FAILED, s\<lparr>sp_fp := None\<rparr>)))"

text \<open>\<open>ssh_finish\<close> forgets the stream only if its process succeeded; closing it again is undefined.\<close>

definition ssh_finish :: "'w sftp_session \<Rightarrow> (int \<times> 'w sftp_session) option" where
  "ssh_finish s =
     (case sp_fp s of
        Some (Piped t st) \<Rightarrow>
          Some (if st = 0 then (SITE_OK, s\<lparr>sp_fp := None\<rparr>) else (SITE_FAILED, s\<lparr>sp_fp := Some Closed\<rparr>))
      | _ \<Rightarrow> None)"

definition sftp_finish :: "'w sftp_sys \<Rightarrow> 'w sftp_session \<Rightarrow> 'w option" where
  "sftp_finish sys s =
     (let s = (if sp_connected s then snd (sftp_disconnect sys s) else s) in
      if sp_fp s \<noteq> None then map_option (sp_world \<circ> snd) (ssh_finish s) else Some (sp_world s))"

definition sftp_read ::
    "'w sftp_sys \<Rightarrow> string \<Rightarrow> 'w sftp_session \<Rightarrow> ((int \<times> string list) \<times> 'w sftp_session) option" where
  "sftp_read sys remote s =
     (let (ret, s) = run_ssh sys (''cat '' @ quote1 remote) s in
      if ret \<noteq> SITE_OK then Some ((SITE_FAILED, []), s)
      else case sp_fp s of
        Some (Piped t st) \<Rightarrow>
          do { (ret, s) \<leftarrow> ssh_finish s; Some ((ret, blocks (length t) BUFSIZ t), s) }
      | _ \<Rightarrow> None)"

definition ssh_fetch :: "ls_entry \<Rightarrow> string \<Rightarrow> string \<Rightarrow> proto_file list option" where
  "ssh_fetch junk startdir t =
     do { lsctx \<leftarrow> ls_init startdir;
          (ctx, lt) \<leftarrow> ls_run lsctx junk (map c_string (fgets_lines BUFSIZ t)) ([], None);
          Some (map snd (fst lt)) }"

definition sftp_fetch_list ::
    "ls_entry \<Rightarrow> 'w sftp_sys \<Rightarrow> string \<Rightarrow> 'w sftp_session
      \<Rightarrow> ((int \<times> proto_file list) \<times> 'w sftp_session) option" where
  "sftp_fetch_list junk sys dirname s =
     (let (ret, s) = run_ssh sys (''ls -la '' @ quote1 dirname) s in
      if ret \<noteq> SITE_OK then Some ((ret, []), s)
      else case sp_fp s of
        Some (Piped t st) \<Rightarrow>
          do { files \<leftarrow> ssh_fetch junk dirname t;
               (ret, s) \<leftarrow> ssh_finish s;
               Some ((ret, files), s) }
      | _ \<Rightarrow> None)"

section \<open>The driver\<close>

text \<open>The world of the driver: no session, a session, or a program that crashed.\<close>

datatype 'w sftp_world = Sftp_none 'w | Sftp_on "'w sftp_session" | Sftp_dead

definition on_sftp ::
    "('w sftp_session \<Rightarrow> ('a \<times> 'w sftp_session) option) \<Rightarrow> 'a \<Rightarrow> 'w sftp_world \<Rightarrow> 'a \<times> 'w sftp_world" where
  "on_sftp g none st =
     (case st of
        Sftp_on s \<Rightarrow> (case g s of Some (x, t) \<Rightarrow> (x, Sftp_on t) | None \<Rightarrow> (none, Sftp_dead))
      | _ \<Rightarrow> (none, Sftp_dead))"

definition sftp_driver_init :: "site \<Rightarrow> 'w sftp_world \<Rightarrow> int \<times> 'w sftp_world" where
  "sftp_driver_init site st =
     (let start = (\<lambda>w. case sftp_init site w of
            Some s \<Rightarrow> (SITE_OK, Sftp_on s) | None \<Rightarrow> (SITE_FAILED, Sftp_dead))
      in case st of Sftp_none w \<Rightarrow> start w | Sftp_on s \<Rightarrow> start (sp_world s)
         | Sftp_dead \<Rightarrow> (SITE_FAILED, Sftp_dead))"

definition sftp_driver_finish :: "'w sftp_sys \<Rightarrow> 'w sftp_world \<Rightarrow> 'w sftp_world" where
  "sftp_driver_finish sys st =
     (case st of
        Sftp_on s \<Rightarrow> (case sftp_finish sys s of Some w \<Rightarrow> Sftp_none w | None \<Rightarrow> Sftp_dead)
      | _ \<Rightarrow> Sftp_dead)"

definition sftp_command :: "'w sftp_sys \<Rightarrow> string \<Rightarrow> 'w sftp_world \<Rightarrow> int \<times> 'w sftp_world" where
  "sftp_command sys command = on_sftp (run_sftp sys command) SITE_FAILED"

definition sftp_driver_ops :: "ls_entry \<Rightarrow> 'w sftp_sys \<Rightarrow> 'w sftp_world proto_driver" where
  "sftp_driver_ops junk sys =
     \<lparr>d_init = sftp_driver_init, d_finish = sftp_driver_finish sys,
      d_file_move = (\<lambda>from to. sftp_command sys (''rename '' @ from @ '' '' @ to)),
      d_file_upload = (\<lambda>loc remote ascii. sftp_command sys (''put '' @ loc @ '' '' @ remote)),
      d_file_upload_cond = (\<lambda>_ _ _ _ st. (SITE_UNSUPPORTED, st)),
      d_file_get_modtime = (\<lambda>_ st. ((SITE_UNSUPPORTED, 0), st)),
      d_file_download = (\<lambda>loc remote ascii. sftp_command sys (''get '' @ remote @ '' '' @ loc)),
      d_file_read = (\<lambda>remote. on_sftp (sftp_read sys remote) (SITE_FAILED, [])),
      d_file_delete = (\<lambda>f. sftp_command sys (''rm '' @ f)),
      d_file_chmod = (\<lambda>f m. sftp_command sys (''chmod '' @ show_oct3 (unat m) @ '' '' @ f)),
      d_dir_create = (\<lambda>d. sftp_command sys (''mkdir '' @ d)),
      d_dir_remove = (\<lambda>d. sftp_command sys (''rmdir '' @ d)),
      d_link_create = None, d_link_change = None, d_link_delete = None,
      d_fetch_list = Some (\<lambda>d need. on_sftp (sftp_fetch_list junk sys d) (SITE_FAILED, [])),
      d_error = (\<lambda>_. ''An error occurred.''),
      d_get_server_port = (\<lambda>_. 0), d_get_proxy_port = (\<lambda>_. 0),
      d_protocol_name = ''sftp/ssh''\<rparr>"

section \<open>Reading up to the prompt\<close>

text \<open>A channel that delivers chunks: each call gives the next, as far as there is room.\<close>

definition delivers :: "'w sftp_sys \<Rightarrow> int \<Rightarrow> (string list \<Rightarrow> 'w) \<Rightarrow> bool" where
  "delivers sys fd w \<longleftrightarrow>
     (\<forall>n c cs. 0 < length c \<and> length c \<le> n \<longrightarrow> ss_read sys fd n (w (c # cs)) = (Some c, w cs))"

lemma read_prompt_chunks:
  assumes "delivers sys fd w" "NULc \<notin> set c" "CHR ''>'' \<in> set c"
  shows "\<forall>c \<in> set cs. c \<noteq> [] \<and> NULc \<notin> set c \<and> CHR ''>'' \<notin> set c \<Longrightarrow> NULc \<notin> set got \<Longrightarrow> CHR ''>'' \<notin> set got
    \<Longrightarrow> length (got @ concat cs @ c) \<le> BUFSIZ
    \<Longrightarrow> read_prompt sys fd got (w (cs @ c # rest))
      = (if length (got @ concat cs @ c) < BUFSIZ then Some (SITE_OK, w rest) else None)"
proof (induction cs arbitrary: got)
  case Nil
  have "c \<noteq> []" using assms(3) by auto
  then have "ss_read sys fd (BUFSIZ - length got) (w (c # rest)) = (Some c, w rest)"
    using assms(1) Nil by (auto simp: delivers_def)
  moreover have "c_string (got @ c) = got @ c" using Nil assms(2) by (intro c_string_text) simp
  ultimately show ?case using Nil assms(3) \<open>c \<noteq> []\<close>
    by (subst read_prompt.simps) (auto simp: Let_def)
next
  case (Cons d cs)
  have ne: "c \<noteq> []" using assms(3) by auto
  have "ss_read sys fd (BUFSIZ - length got) (w (d # cs @ c # rest)) = (Some d, w (cs @ c # rest))"
    using assms(1) Cons.prems by (auto simp: delivers_def)
  moreover have "c_string (got @ d) = got @ d" using Cons.prems by (intro c_string_text) simp
  moreover have "read_prompt sys fd (got @ d) (w (cs @ c # rest))
      = (if length ((got @ d) @ concat cs @ c) < BUFSIZ then Some (SITE_OK, w rest) else None)"
    using Cons.prems by (intro Cons.IH) auto
  moreover have "length (got @ d) < BUFSIZ" using Cons.prems(4) ne by (cases c) auto
  ultimately show ?case using Cons.prems by (subst read_prompt.simps) (auto simp: Let_def)
qed

text \<open>C26.  What the sftp process prints up to its prompt has to fit the buffer, however it is cut into
  pieces: if it ends before the last byte of the buffer the prompt is found, and if it fills the
  buffer a NUL is written behind it.\<close>
theorem sftp_read_bound:
  assumes "delivers sys fd w" "\<forall>c \<in> set cs. c \<noteq> [] \<and> NULc \<notin> set c \<and> CHR ''>'' \<notin> set c"
    and "NULc \<notin> set c" "CHR ''>'' \<in> set c" "length (concat cs @ c) \<le> BUFSIZ"
  shows "read_prompt sys fd [] (w (cs @ c # rest))
    = (if length (concat cs @ c) < BUFSIZ then Some (SITE_OK, w rest) else None)"
  using read_prompt_chunks [OF assms(1,3,4), of cs "[]" rest] assms(2,5) by simp

text \<open>A system on which all calls succeed, whose worlds are the chunks that the process will print and
  the commands it was sent.\<close>

definition chunk_sys :: "(string list \<times> string list) sftp_sys" where
  "chunk_sys =
     \<lparr>ss_socketpair = (\<lambda>w. (Some (3, 4), w)), ss_fork = (\<lambda>w. (7, w)), ss_dup2 = (\<lambda>_ _ w. (True, w)),
      ss_close = (\<lambda>_ w. w), ss_shutdown = (\<lambda>_ w. w), ss_execlp = (\<lambda>_ _ w. None),
      ss_waitpid = (\<lambda>_ w. (True, w)),
      ss_read = (\<lambda>_ n w. case fst w of
        [] \<Rightarrow> (Some [], w)
      | c # cs \<Rightarrow> (Some (take n c), if length c \<le> n then cs else drop n c # cs, snd w)),
      ss_write = (\<lambda>_ t w. (True, fst w, snd w @ [t])),
      ss_popen = (\<lambda>c w. (Some ([], 1), w))\<rparr>"

lemma sftp_read_bound_witness:
  "read_prompt chunk_sys 3 [] ([''Connecting...''] @ ''sftp> '' # [], [])
   = (if length (concat [''Connecting...''] @ ''sftp> '') < BUFSIZ then Some (SITE_OK, ([], [])) else None)"
  by (rule sftp_read_bound [where w = "\<lambda>cs. (cs, [])"])
    (auto simp: delivers_def chunk_sys_def NULc_def BUFSIZ_def)

section \<open>Replies\<close>

text \<open>A command over SFTP succeeds whatever the server says to it: on an open session the result
  depends on the length of the command and on the write alone, and an upload, a deletion or a change
  of permissions that is refused is taken for done.\<close>
theorem sftp_ignores_replies:
  assumes "sp_connected s" "length command + 2 < BUFSIZ"
    and "ss_write sys (sp_fd_out s) (command @ [NL]) (sp_world s) = (True, w)"
    and "read_prompt sys (sp_fd_in s) [] w = Some (reply, w')"
  shows "sftp_command sys command (Sftp_on s) = (SITE_OK, Sftp_on (s\<lparr>sp_world := w'\<rparr>))"
  using assms
  by (simp add: sftp_command_def on_sftp_def run_sftp_def buffered_def sftp_call_def read_sftp_def)

definition chunk_session :: "string list \<Rightarrow> (string list \<times> string list) sftp_session" where
  "chunk_session cs = \<lparr>sp_host = ''h'', sp_username = None, sp_sftp_cmd = ''sftp'', sp_ssh_cmd = ''ssh'',
     sp_connected = True, sp_fd_in = 3, sp_fd_out = 3, sp_sftp_pid = 7, sp_fp = None, sp_world = (cs, [])\<rparr>"

lemma sftp_ignores_replies_witness:
  "sftp_command chunk_sys ''put /home/a /www/a'' (Sftp_on (chunk_session [''Permission denied'', ''sftp>'']))
   = (SITE_OK, Sftp_on ((chunk_session [''Permission denied'', ''sftp>''])
       \<lparr>sp_world := ([], [''put /home/a /www/a'' @ [NL]])\<rparr>))"
proof (rule sftp_ignores_replies)
  let ?w = "([''Permission denied'', ''sftp>''], [''put /home/a /www/a'' @ [NL]])"
  show "ss_write chunk_sys (sp_fd_out (chunk_session [''Permission denied'', ''sftp>'']))
      (''put /home/a /www/a'' @ [NL]) (sp_world (chunk_session [''Permission denied'', ''sftp>''])) = (True, ?w)"
    by (simp add: chunk_sys_def chunk_session_def)
  have "delivers chunk_sys 3 (\<lambda>cs. (cs, [''put /home/a /www/a'' @ [NL]]))"
    by (auto simp: delivers_def chunk_sys_def)
  from read_prompt_chunks [OF this, of "''sftp>''" "[''Permission denied'']" "[]" "[]"]
  show "read_prompt chunk_sys (sp_fd_in (chunk_session [''Permission denied'', ''sftp>''])) [] ?w
      = Some (SITE_OK, ([], [''put /home/a /www/a'' @ [NL]]))"
    by (simp add: chunk_session_def NULc_def BUFSIZ_def)
qed (simp_all add: chunk_session_def BUFSIZ_def)

section \<open>Listings\<close>

text \<open>What the server prints for \<^verbatim>\<open>ls -la\<close> over ssh comes out as its regular files, in the
  opposite order, and then its directories, each with its name, size and permission bits.\<close>
theorem sftp_fetch_correct:
  assumes "\<forall>l \<in> set ls. ls_line_ok l \<and> CHR ''/'' \<notin> set (ll_name l) \<and> line_text BUFSIZ (ls_text l)"
    and "int total_blocks \<le> LONG_MAX" "dirname \<noteq> []"
    and "length (ssh_command s (''ls -la '' @ quote1 dirname)) + 1 < BUFSIZ"
    and "ss_popen sys (ssh_command s (''ls -la '' @ quote1 dirname)) (sp_world s)
      = (Some (concat (ls_output total_blocks [NL] ls), 0), w')"
  shows "on_sftp (sftp_fetch_list junk sys dirname) (SITE_FAILED, []) (Sftp_on s)
    = ((SITE_OK, files_then_dirs ls), Sftp_on (s\<lparr>sp_fp := None, sp_world := w'\<rparr>))"
proof -
  let ?sh = "\<lparr>sh_system = (\<lambda>_ w. (0, w)),
    sh_popen = (\<lambda>_ w. (Some (concat (ls_output total_blocks [NL] ls), 0), w))\<rparr> :: unit shell"
  have "rsh_fetch_list junk ?sh plain_session dirname () = Some ((SITE_OK, files_then_dirs ls), ())"
    using rsh_fetch_correct [OF assms(1-3), of ?sh plain_session "()" 0 "()" junk] by simp
  then have "ssh_fetch junk dirname (concat (ls_output total_blocks [NL] ls)) = Some (files_then_dirs ls)"
    by (auto simp: rsh_fetch_list_def run_rcmd_pipe_def ssh_fetch_def rsh_fetch_def bind_eq_Some_conv)
  then show ?thesis
    using assms(4,5)
    by (simp add: on_sftp_def sftp_fetch_list_def run_ssh_def sftp_call_def ssh_finish_def)
qed

definition sftp_listing_sys :: "unit sftp_sys" where
  "sftp_listing_sys =
     \<lparr>ss_socketpair = (\<lambda>w. (None, w)), ss_fork = (\<lambda>w. (- 1, w)), ss_dup2 = (\<lambda>_ _ w. (True, w)),
      ss_close = (\<lambda>_ w. w), ss_shutdown = (\<lambda>_ w. w), ss_execlp = (\<lambda>_ _ w. None),
      ss_waitpid = (\<lambda>_ w. (True, w)), ss_read = (\<lambda>_ n w. (Some [], w)), ss_write = (\<lambda>_ t w. (True, w)),
      ss_popen = (\<lambda>c w. (Some (concat (ls_output 8 [NL] listed_lines), 0), w))\<rparr>"

definition listing_session :: "unit sftp_session" where
  "listing_session = \<lparr>sp_host = ''h'', sp_username = None, sp_sftp_cmd = ''sftp'', sp_ssh_cmd = ''ssh'',
     sp_connected = False, sp_fd_in = 0, sp_fd_out = 0, sp_sftp_pid = 0, sp_fp = None, sp_world = ()\<rparr>"

lemma sftp_fetch_correct_witness:
  "on_sftp (sftp_fetch_list no_entry sftp_listing_sys ''/www/'') (SITE_FAILED, []) (Sftp_on listing_session)
    = ((SITE_OK, files_then_dirs listed_lines), Sftp_on (listing_session\<lparr>sp_fp := None, sp_world := ()\<rparr>))"
proof (rule sftp_fetch_correct [OF listed_lines_ok])
  show "int 8 \<le> LONG_MAX" by (simp add: LONG_MAX_def)
  show "ss_popen sftp_listing_sys c (sp_world listing_session)
      = (Some (concat (ls_output 8 [NL] listed_lines), 0), ())" for c
    by (simp only: sftp_listing_sys_def sftp_sys.select_convs listing_session_def sftp_session.select_convs)
qed (simp_all add: ssh_command_def listing_session_def quote1_def buffered_def BUFSIZ_def)

text \<open>A listing that fails on the server ends the program when the session is closed: the stream of
  the failed command was closed but not forgotten, and is closed a second time.\<close>
theorem sftp_failed_listing_crashes:
  assumes "length (ssh_command s (''ls -la '' @ quote1 dirname)) + 1 < BUFSIZ"
    and "ss_popen sys (ssh_command s (''ls -la '' @ quote1 dirname)) (sp_world s) = (Some (t, st), w')"
    and "st \<noteq> 0" "ssh_fetch junk dirname t = Some files"
    and "on_sftp (sftp_fetch_list junk sys dirname) (SITE_FAILED, []) (Sftp_on s) = (res, st')"
  shows "res = (SITE_FAILED, files) \<and> st' \<noteq> Sftp_dead \<and> d_finish (sftp_driver_ops junk sys) st' = Sftp_dead"
proof -
  have fp: "sp_fp (snd (sftp_disconnect sys s)) = sp_fp s" for s :: "'a sftp_session"
    by (simp add: sftp_disconnect_def sftp_call_def sftp_do_def Let_def case_prod_beta')
  show ?thesis
    using assms
    by (auto simp: on_sftp_def sftp_fetch_list_def run_ssh_def sftp_call_def ssh_finish_def
        sftp_driver_ops_def sftp_driver_finish_def sftp_finish_def fp Let_def)
qed

text \<open>A directory that is not there.\<close>

lemma sftp_failed_listing_crashes_witness:
  "(SITE_FAILED, []) = (SITE_FAILED, [] :: proto_file list)
   \<and> Sftp_on ((chunk_session [])\<lparr>sp_fp := Some Closed, sp_world := ([], [])\<rparr>) \<noteq> Sftp_dead
   \<and> d_finish (sftp_driver_ops no_entry chunk_sys)
       (Sftp_on ((chunk_session [])\<lparr>sp_fp := Some Closed, sp_world := ([], [])\<rparr>)) = Sftp_dead"
proof (rule sftp_failed_listing_crashes)
  let ?s = "chunk_session []" and ?d = "''/gone/''"
  have l: "length (ssh_command ?s (''ls -la '' @ quote1 ?d)) + 1 < BUFSIZ"
    by (simp add: ssh_command_def chunk_session_def quote1_def buffered_def BUFSIZ_def)
  have p: "ss_popen chunk_sys c (sp_world ?s) = (Some ([], 1), ([], []))" for c
    by (simp add: chunk_sys_def chunk_session_def)
  have f: "ssh_fetch no_entry ?d [] = Some []" by code_simp
  show "length (ssh_command ?s (''ls -la '' @ quote1 ?d)) + 1 < BUFSIZ" by (rule l)
  show "ss_popen chunk_sys (ssh_command ?s (''ls -la '' @ quote1 ?d)) (sp_world ?s) = (Some ([], 1), ([], []))"
    by (rule p)
  show "ssh_fetch no_entry ?d [] = Some []" by (rule f)
  show "on_sftp (sftp_fetch_list no_entry chunk_sys ?d) (SITE_FAILED, []) (Sftp_on ?s)
      = ((SITE_FAILED, []), Sftp_on (?s\<lparr>sp_fp := Some Closed, sp_world := ([], [])\<rparr>))"
    using l p f by (simp add: on_sftp_def sftp_fetch_list_def run_ssh_def sftp_call_def ssh_finish_def)
qed simp

end
