(* ===== verification/Driver_Codes.thy ===== *)
theory Driver_Codes
  imports Dav_Driver Sftp_Driver Ftp_Driver Console_Main
begin

text \<open>
  The codes that drivers return: every function of every driver returns one of the \<open>SITE_\<close> codes of
  \<^verbatim>\<open>src/sites.h\<close>, hence so do the modes that pass the codes on, and the console has a message for what
  it gets.  The contract is a locale, with one interpretation for each driver of the program.
\<close>

definition site_codes :: "int set" where
  "site_codes = {SITE_OK, SITE_LOOKUP, SITE_PROXYLOOKUP, SITE_CONNECT, SITE_ERRORS, SITE_AUTH,
     SITE_PROXYAUTH, SITE_FAILED, SITE_UNSUPPORTED}"

definition coded :: "'w proto_driver \<Rightarrow> bool" where
  "coded drv \<longleftrightarrow>
     (\<forall>s w. fst (d_init drv s w) \<in> site_codes) \<and>
     (\<forall>p q w. fst (d_file_move drv p q w) \<in> site_codes) \<and>
     (\<forall>p q a w. fst (d_file_upload drv p q a w) \<in> site_codes) \<and>
     (\<forall>p q a t w. fst (d_file_upload_cond drv p q a t w) \<in> site_codes) \<and>
     (\<forall>p w. fst (fst (d_file_get_modtime drv p w)) \<in> site_codes) \<and>
     (\<forall>p q a w. fst (d_file_download drv p q a w) \<in> site_codes) \<and>
     (\<forall>p w. fst (fst (d_file_read drv p w)) \<in> site_codes) \<and>
     (\<forall>p w. fst (d_file_delete drv p w) \<in> site_codes) \<and>
     (\<forall>p m w. fst (d_file_chmod drv p m w) \<in> site_codes) \<and>
     (\<forall>p w. fst (d_dir_create drv p w) \<in> site_codes) \<and>
     (\<forall>p w. fst (d_dir_remove drv p w) \<in> site_codes) \<and>
     (\<forall>f p l w. d_link_create drv = Some f \<longrightarrow> fst (f p l w) \<in> site_codes) \<and>
     (\<forall>f p l w. d_link_change drv = Some f \<longrightarrow> fst (f p l w) \<in> site_codes) \<and>
     (\<forall>f p w. d_link_delete drv = Some f \<longrightarrow> fst (f p w) \<in> site_codes) \<and>
     (\<forall>f p n w. d_fetch_list drv = Some f \<longrightarrow> fst (fst (f p n w)) \<in> site_codes)"

lemma site_codes_simps [simp]:
  "0 \<in> site_codes" "- 1 \<in> site_codes" "- 3 \<in> site_codes" "- 4 \<in> site_codes" "- 5 \<in> site_codes"
  "- 6 \<in> site_codes" "- 7 \<in> site_codes" "- 9 \<in> site_codes"
  by (simp_all add: site_codes_def)

section \<open>The modes\<close>

locale coded_driver =
  fixes drv :: "'w proto_driver"
  assumes codes: "coded drv"
begin

lemma init_code: "fst (proto_init drv r) \<in> site_codes"
  using codes by (auto simp: proto_init_def call_def coded_def Let_def case_prod_beta' split: if_splits)

lemma update_code: "site_update drv os r = Some (r', ret) \<Longrightarrow> ret \<in> site_codes"
  using init_code [of r]
  by (auto simp: site_update_def Let_def bind_eq_Some_conv split: prod.splits if_splits)

lemma synch_code: "site_synch drv os r = Some (r', ret) \<Longrightarrow> ret \<in> site_codes"
  using init_code [of r]
  by (auto simp: site_synch_def Let_def bind_eq_Some_conv split: prod.splits if_splits)

lemma fetch_code: "site_fetch fuel drv fnm md5 now r = Some (Inr (r', ret)) \<Longrightarrow> ret \<in> site_codes"
proof -
  assume f: "site_fetch fuel drv fnm md5 now r = Some (Inr (r', ret))"
  obtain ret0 r0 where i: "proto_init drv r = (ret0, r0)" by fastforce
  then have "ret0 \<in> site_codes" using init_code [of r] by simp
  then show ?thesis
    using f unfolding site_fetch_def i Let_def prod.case
    by (auto simp: bind_eq_Some_conv split: if_split_asm option.split_asm)
      (auto simp: bind_eq_Some_conv split: sum.split_asm prod.split_asm if_split_asm)
qed

end

text \<open>The console has a message for each code; status 5 is for a code it does not know.\<close>

lemma issue_error_known: "ret \<in> site_codes \<Longrightarrow> fst (issue_error progname quiet proto s act ret) \<noteq> 5"
  by (auto simp: site_codes_def issue_error_def Let_def)

section \<open>The drivers\<close>

lemma h2s_code [simp]: "fst (h2s hp r) \<in> site_codes"
  by (cases r) (simp add: h2s_def)

lemma h2s_coded: "map_option (h2s hp) x = Some y \<Longrightarrow> fst y \<in> site_codes"
  by auto

lemma defined_or_code: "x \<in> site_codes \<Longrightarrow> (\<And>y. r = Some y \<Longrightarrow> fst y \<in> site_codes) \<Longrightarrow> fst (defined_or x w r) \<in> site_codes"
  by (auto simp: defined_or_def split: option.splits)

lemma defined_or_code2:
  "fst x \<in> site_codes \<Longrightarrow> (\<And>y. r = Some y \<Longrightarrow> fst (fst y) \<in> site_codes) \<Longrightarrow> fst (fst (defined_or x w r)) \<in> site_codes"
  by (auto simp: defined_or_def split: option.splits)

lemma h2s_eq_code: "h2s hp x = (ret, w) \<Longrightarrow> ret \<in> site_codes"
  using h2s_code [of hp x] by simp

lemma init_options_code:
  assumes "init_options hp s w = Some (ret, w')"
  shows "ret \<in> site_codes"
proof (cases "s_http_tolerant s \<or> s_remote_root s = None")
  case True
  then show ?thesis using assms by (cases "s_http_tolerant s") (auto simp: init_options_def)
next
  case False
  then obtain root where root: "s_remote_root s = Some root" by auto
  obtain r caps v where o: "ne_options hp (ne_path_escape root)
      \<lparr>dav_class1 = False, dav_class2 = False, dav_executable = False\<rparr> w = ((r, caps), v)"
    by (metis prod.exhaust)
  show ?thesis
    using assms False by (auto simp: init_options_def root o Let_def dest: h2s_eq_code
        split: prod.split_asm if_split_asm)
qed

lemma init_dav_code: "init_dav hp sl s w = Some (ret, w') \<Longrightarrow> ret \<in> site_codes"
  by (auto simp: init_dav_def Let_def dest: init_options_code split: prod.split_asm if_split_asm)

lemma dav_transfer_codes:
  "file_download_dav hp p l asc w = Some y \<Longrightarrow> fst y \<in> site_codes"
  "file_read_dav hp p w = Some z \<Longrightarrow> fst (fst z) \<in> site_codes"
  "fetch_list_dav hp p n w = Some u \<Longrightarrow> fst (fst u) \<in> site_codes"
  by (auto simp: file_download_dav_def file_read_dav_def fetch_list_dav_def Let_def case_prod_beta'
      bind_eq_Some_conv split: option.split_asm)

lemma dav_coded: "coded (dav_driver_ops junk hp sl)"
  unfolding coded_def dav_driver_ops_def
  by (auto intro!: defined_or_code defined_or_code2
      dest: init_dav_code h2s_eq_code dav_transfer_codes(1) [unfolded fst_conv]
        dav_transfer_codes(2,3)
      simp: file_move_dav_def file_upload_dav_def file_upload_cond_dav_def file_get_modtime_dav_def
        file_delete_dav_def file_chmod_dav_def dir_create_dav_def
        dir_remove_dav_def unimp_link1_def unimp_link2_def Let_def
      split: prod.split option.split)

lemma null_coded: "coded (null_driver_ops time)"
  by (simp add: coded_def null_driver_ops_def)

lemma run_rcmd_code: "fst (run_rcmd k sh sess t w) \<in> site_codes"
  by (simp add: run_rcmd_def case_prod_beta' Let_def)

lemma rsh_coded: "coded (rsh_driver_ops junk sh sess)"
  unfolding coded_def rsh_driver_ops_def
  by (auto simp: run_rcmd_code rsh_move_def rsh_upload_def rsh_read_def rsh_fetch_list_def Let_def
      bind_eq_Some_conv split: prod.split prod.split_asm option.split option.split_asm)

lemma f2s_code [simp]: "f2s x \<in> site_codes"
  by (simp add: f2s_def)

lemma in_session_code:
  "(\<And>s x t. g s = Some (x, t) \<Longrightarrow> P x) \<Longrightarrow> P none \<Longrightarrow> P (fst (in_session g none st))"
  by (auto simp: in_session_def split: ftp_world.split option.split)

lemma ftp_op_code: "fst (ftp_op g st) \<in> site_codes"
  unfolding ftp_op_def by (rule in_session_code) (auto simp: bind_eq_Some_conv)

lemma ftp_start_code: "ftp_start n site w = Some x \<Longrightarrow> fst x \<in> site_codes"
  by (auto simp: ftp_start_def bind_eq_Some_conv case_prod_beta')

lemma ftp_init_code: "fst (ftp_driver_init n site st) \<in> site_codes"
  using ftp_start_code [of n site]
  by (fastforce simp: ftp_driver_init_def Let_def split: ftp_world.split option.split)

lemma ftp_coded: "coded (ftp_driver_ops n junk)"
proof -
  have "fst (fst (in_session (\<lambda>s. do { ((ret, t), s) \<leftarrow> ftp_get_modtime n r s; Some ((f2s ret, t), s) })
      (SITE_ERRORS, - 1) st)) \<in> site_codes" for r st
    by (rule in_session_code) (auto simp: bind_eq_Some_conv)
  moreover have "fst (fst (in_session (\<lambda>s. do { ((ret, t), s) \<leftarrow> ftp_read_file n r s; Some ((f2s ret, t), s) })
      (SITE_ERRORS, []) st)) \<in> site_codes" for r st
    by (rule in_session_code) (auto simp: bind_eq_Some_conv)
  moreover have "fst (fst (in_session (ftp_fetch_list n junk d need) (SITE_ERRORS, []) st)) \<in> site_codes"
    for d need st
    by (rule in_session_code) (auto simp: ftp_fetch_list_def bind_eq_Some_conv)
  ultimately show ?thesis
    unfolding coded_def ftp_driver_ops_def by (simp add: ftp_op_code ftp_init_code)
qed

lemma on_sftp_code:
  "(\<And>s x t. g s = Some (x, t) \<Longrightarrow> P x) \<Longrightarrow> P none \<Longrightarrow> P (fst (on_sftp g none st))"
  by (auto simp: on_sftp_def split: sftp_world.split option.split)

lemma sftp_command_code: "fst (sftp_command sys command st) \<in> site_codes"
  unfolding sftp_command_def
  by (rule on_sftp_code) (auto simp: run_sftp_def bind_eq_Some_conv Let_def
      split: prod.split_asm if_split_asm)

lemma ssh_finish_code: "ssh_finish s = Some (ret, t) \<Longrightarrow> ret \<in> site_codes"
  by (auto simp: ssh_finish_def split: option.split_asm stream.split_asm if_split_asm)

lemma run_ssh_code: "run_ssh sys command s = (ret, t) \<Longrightarrow> ret \<in> site_codes"
  by (auto simp: run_ssh_def Let_def split: prod.split_asm option.split_asm if_split_asm)

lemma sftp_init_code: "fst (sftp_driver_init s st) \<in> site_codes"
  by (auto simp: sftp_driver_init_def split: sftp_world.split option.split)

lemma sftp_coded: "coded (sftp_driver_ops junk sys)"
proof -
  have "fst (fst (on_sftp (sftp_read sys r) (SITE_FAILED, []) st)) \<in> site_codes" for r st
    by (rule on_sftp_code) (auto simp: sftp_read_def bind_eq_Some_conv Let_def dest: ssh_finish_code
        split: prod.split_asm option.split_asm stream.split_asm if_split_asm)
  moreover have "fst (fst (on_sftp (sftp_fetch_list junk sys d) (SITE_FAILED, []) st)) \<in> site_codes" for d st
    by (rule on_sftp_code) (auto simp: sftp_fetch_list_def bind_eq_Some_conv Let_def
        dest: ssh_finish_code run_ssh_code
        split: prod.split_asm option.split_asm stream.split_asm if_split_asm)
  ultimately show ?thesis
    unfolding coded_def sftp_driver_ops_def by (simp add: sftp_command_code sftp_init_code)
qed

interpretation dav: coded_driver "dav_driver_ops junk hp sl" for junk hp sl
  by unfold_locales (rule dav_coded)

interpretation null_codes: coded_driver "null_driver_ops time" for time
  by unfold_locales (rule null_coded)

interpretation rsh: coded_driver "rsh_driver_ops junk sh sess" for junk sh sess
  by unfold_locales (rule rsh_coded)

interpretation ftp: coded_driver "ftp_driver_ops n junk" for n junk
  by unfold_locales (rule ftp_coded)

interpretation sftp: coded_driver "sftp_driver_ops junk sys" for junk sys
  by unfold_locales (rule sftp_coded)

text \<open>C23.  Every function of every driver returns one of the codes of \<^verbatim>\<open>src/sites.h\<close>.\<close>
theorem drivers_coded:
  "coded (ftp_driver_ops n junk) \<and> coded (dav_driver_ops mtime hp sl) \<and> coded (rsh_driver_ops junk sh sess)
   \<and> coded (sftp_driver_ops junk sys) \<and> coded (null_driver_ops time)"
  by (simp add: ftp_coded dav_coded rsh_coded sftp_coded null_coded)

text \<open>So the console never ends with the status for a code it does not know, whatever driver the update
  ran over.\<close>

definition has_message :: "int \<Rightarrow> bool" where
  "has_message ret \<longleftrightarrow> (\<forall>progname quiet proto s act. fst (issue_error progname quiet proto s act ret) \<noteq> 5)"

lemma code_message: "ret \<in> site_codes \<Longrightarrow> has_message ret"
  by (simp add: has_message_def issue_error_known)

lemma update_message:
  "gives (\<lambda>x. has_message (snd x)) (site_update (ftp_driver_ops n junk) os r)"
  "gives (\<lambda>x. has_message (snd x)) (site_update (dav_driver_ops mtime hp sl) os' r1)"
  "gives (\<lambda>x. has_message (snd x)) (site_update (rsh_driver_ops junk sh sess) os1 r2)"
  "gives (\<lambda>x. has_message (snd x)) (site_update (sftp_driver_ops junk sys) os2 r3)"
  "gives (\<lambda>x. has_message (snd x)) (site_update (null_driver_ops time) os3 r4)"
  by (auto simp: gives_def intro: code_message dest: ftp.update_code dav.update_code rsh.update_code
      sftp.update_code null_codes.update_code)

end
