(* ===== verification/Getopt_Order.thy ===== *)
theory Getopt_Order
  imports Getopt Console_Main
begin

text \<open>
  That the calls of \<^verbatim>\<open>getopt_long\<close> read the command line from left to right: the exchange of two parts of
  \<^verbatim>\<open>argv\<close>, the reference reading \<open>scan_args\<close>, and that the calls deliver its options in order, end
  with its arguments in order, and never read behind \<^verbatim>\<open>argv\<close>.
\<close>

section \<open>Exchanging two parts\<close>

lemma swap_segments_swap:
  "length A = n \<Longrightarrow> length B = n
    \<Longrightarrow> swap_segments n (length P) (length P + n + length M) (P @ A @ M @ B @ S) = P @ B @ M @ A @ S"
proof (induction n arbitrary: P M A B)
  case (Suc n)
  then obtain a A' b B' where [simp]: "A = a # A'" "B = b # B'" by (auto simp: length_Suc_conv)
  have b: "(P @ a # A' @ M @ b # B' @ S) ! (length P + Suc n + length M) = b"
    using Suc.prems by (simp add: nth_append)
  have "(P @ a # A' @ M @ b # B' @ S)[length P := b, length P + Suc n + length M := a]
    = (P @ [b]) @ A' @ (M @ [a]) @ B' @ S"
    using Suc.prems by (simp add: list_update_append)
  then show ?case
    using Suc.IH [of A' B' "P @ [b]" "M @ [a]"] Suc.prems b by (simp add: nth_append)
qed simp

lemma swap_from:
  assumes "length A = n" "length B = n" "i = length P" "j = length P + n + length M"
    "xs = P @ A @ M @ B @ S"
  shows "swap_segments n i j xs = P @ B @ M @ A @ S"
  using assms swap_segments_swap by blast

lemma exchange_loop_swaps:
  "exchange_loop (length P) (length P + length A) (length P + length A + length B) (P @ A @ B @ S)
    = P @ B @ A @ S"
proof (induction "length A + length B" arbitrary: P A B S rule: less_induct)
  case less
  consider "A = [] \<or> B = []" | "A \<noteq> []" "length A < length B" | "B \<noteq> []" "length B \<le> length A" by fastforce
  then show ?case
  proof cases
    case 1
    then show ?thesis by (auto simp: exchange_loop.simps)
  next
    case 2
    define B1 B2 where "B1 = take (length B - length A) B" and "B2 = drop (length B - length A) B"
    then have B: "B = B1 @ B2" "length B2 = length A" using 2 by auto
    then have "B2 \<noteq> []" using 2 by auto
    have "swap_segments (length A) (length P) (length P + length A + length B1) (P @ A @ B1 @ B2 @ S)
        = P @ B2 @ B1 @ A @ S"
      by (rule swap_from [where M = B1]) (simp_all add: B)
    moreover have "exchange_loop (length P) (length P + length A) (length P + length A + length B1)
        (P @ B2 @ B1 @ A @ S) = P @ B1 @ B2 @ A @ S"
      using less [of B2 B1 P "A @ S"] B 2 by simp
    moreover have "length P + length A + length B - length A = length P + length A + length B1"
      using B by simp
    ultimately show ?thesis using 2 B \<open>B2 \<noteq> []\<close> by (subst exchange_loop.simps) (simp add: Let_def add_ac)
  next
    case 3
    define A1 A2 where "A1 = take (length B) A" and "A2 = drop (length B) A"
    then have A: "A = A1 @ A2" "length A1 = length B" using 3 by auto
    then have "A1 \<noteq> []" using 3 by auto
    have "swap_segments (length B) (length P) (length P + length A) (P @ A1 @ A2 @ B @ S)
        = P @ B @ A2 @ A1 @ S"
      by (rule swap_from [where M = A2]) (simp_all add: A)
    moreover have "exchange_loop (length (P @ B)) (length (P @ B) + length A2) (length (P @ B) + length A2 + length A1)
        ((P @ B) @ A2 @ A1 @ S) = (P @ B) @ A1 @ A2 @ S"
      using less [of A2 A1 "P @ B" S] A 3 by simp
    ultimately show ?thesis using 3 A \<open>A1 \<noteq> []\<close> by (subst exchange_loop.simps) (simp add: Let_def add_ac)
  qed
qed

section \<open>What is behind \<^verbatim>\<open>optind\<close>\<close>

text \<open>\<open>split_argv g ns os rest\<close>: the non-options \<open>ns\<close> that were skipped lie before the options \<open>os\<close> that
  were read since, and \<open>rest\<close> is still to be read.\<close>

definition split_argv :: "getopt_state \<Rightarrow> string list \<Rightarrow> string list \<Rightarrow> string list \<Rightarrow> bool" where
  "split_argv g ns os rest \<longleftrightarrow>
     (\<exists>pre. go_argv g = pre @ ns @ os @ rest \<and> pre \<noteq> [] \<and> go_first_nonopt g = length pre
       \<and> go_last_nonopt g = length pre + length ns \<and> go_optind g = length pre + length ns + length os)
     \<and> go_initialized g \<and> go_ordering g = PERMUTE"

lemma permute_split:
  assumes "split_argv g ns os rest"
  shows "split_argv (permute g) (ns @ takeWhile nonoption rest) [] (dropWhile nonoption rest)"
proof -
  obtain pre where g: "go_argv g = pre @ ns @ os @ rest" "pre \<noteq> []" "go_first_nonopt g = length pre"
    "go_last_nonopt g = length pre + length ns" "go_optind g = length pre + length ns + length os"
    "go_initialized g" "go_ordering g = PERMUTE"
    using assms unfolding split_argv_def by auto
  have rest: "rest = takeWhile nonoption rest @ dropWhile nonoption rest" by simp
  show ?thesis
  proof (cases "os = []")
    case True
    show ?thesis unfolding split_argv_def
      by (rule conjI, rule exI [of _ pre]) (use g True in \<open>auto simp: permute_def Let_def\<close>)
  next
    case False
    have "exchange_loop (length pre) (length pre + length ns) (length pre + length ns + length os) (go_argv g)
        = pre @ os @ ns @ rest"
      using g(1) exchange_loop_swaps by metis
    then show ?thesis unfolding split_argv_def
      by (intro conjI exI [of _ "pre @ os"])
        (use g False in \<open>auto simp: permute_def exchange_def Let_def\<close>)
  qed
qed

lemma end_of_options_split:
  assumes "split_argv g ns [] (''--'' # rest)"
  shows "go_optind (end_of_options g) = argc (end_of_options g)
    \<and> (let g = end_of_options g in
        drop (if go_first_nonopt g \<noteq> go_last_nonopt g then go_first_nonopt g else go_optind g) (go_argv g)
          = ns @ rest)"
proof -
  obtain pre where g: "go_argv g = pre @ ns @ [''--''] @ rest" "go_first_nonopt g = length pre"
    "go_last_nonopt g = length pre + length ns" "go_optind g = length pre + length ns"
    using assms unfolding split_argv_def by auto
  have "exchange_loop (length pre) (length pre + length ns) (Suc (length pre + length ns)) (go_argv g)
      = pre @ [''--''] @ ns @ rest"
    using exchange_loop_swaps [of pre ns "[''--'']" rest] g(1) by simp
  then show ?thesis using g by (cases "ns = []") (auto simp: end_of_options_def exchange_def argc_def Let_def)
qed


lemma split_argv_fields [simp]:
  "split_argv (g\<lparr>go_nextchar := x\<rparr>) ns os rest = split_argv g ns os rest"
  "split_argv (g\<lparr>go_optarg := y\<rparr>) ns os rest = split_argv g ns os rest"
  "split_argv (g\<lparr>go_optopt := z\<rparr>) ns os rest = split_argv g ns os rest"
  "split_argv (g\<lparr>go_optarg := y, go_optind := i\<rparr>) ns os rest = split_argv (g\<lparr>go_optind := i\<rparr>) ns os rest"
  "split_argv (g\<lparr>go_nextchar := x, go_optind := i\<rparr>) ns os rest = split_argv (g\<lparr>go_optind := i\<rparr>) ns os rest"
  "split_argv (complain t g) ns os rest = split_argv g ns os rest"
  by (simp_all add: split_argv_def complain_def)

lemma split_argv_read:
  "split_argv g ns os (xs @ rest) \<Longrightarrow> split_argv (g\<lparr>go_optind := go_optind g + length xs\<rparr>) ns (os @ xs) rest"
  by (auto simp: split_argv_def)

lemma split_argv_arg:
  assumes "split_argv g ns os (a # rest)"
  shows "arg g (go_optind g) = Some a" "go_optind g < argc g" "go_argv g ! go_optind g = a"
  using assms by (auto simp: split_argv_def arg_def argc_def nth_append)

lemma split_argv_end: "split_argv g ns os [] \<Longrightarrow> go_optind g = argc g"
  by (auto simp: split_argv_def argc_def)

lemma split_argv_drop: "split_argv g ns os rest \<Longrightarrow> drop (go_optind g) (go_argv g) = rest"
  by (auto simp: split_argv_def)

lemma permute_fields [simp]:
  "go_nextchar (permute g) = go_nextchar g" "go_optarg (permute g) = go_optarg g"
  by (simp_all add: permute_def exchange_def Let_def)

lemma next_element_permutes:
  assumes "split_argv g ns os rest"
  shows "next_element long g =
    (let g = permute g in
     case dropWhile nonoption rest of
       [] \<Rightarrow> Some (Inl (Ret (- 1), if go_first_nonopt g \<noteq> go_last_nonopt g
                                  then g\<lparr>go_optind := go_first_nonopt g\<rparr> else g))
     | a # r \<Rightarrow>
         if a = ''--'' then
           (let g = end_of_options g
            in Some (Inl (Ret (- 1), if go_first_nonopt g \<noteq> go_last_nonopt g
                                     then g\<lparr>go_optind := go_first_nonopt g\<rparr> else g)))
         else Some (Inr (g\<lparr>go_nextchar := Some (drop (if long \<and> a ! 1 = CHR ''-'' then 2 else 1) a)\<rparr>)))"
proof -
  note s = permute_split [OF assms]
  have same: "g\<lparr>go_last_nonopt := min (go_last_nonopt g) (go_optind g),
      go_first_nonopt := min (go_first_nonopt g) (go_optind g)\<rparr> = g"
    using assms by (auto simp: split_argv_def)
  have P: "go_ordering g = PERMUTE" using assms by (simp add: split_argv_def)
  show ?thesis
  proof (cases "dropWhile nonoption rest")
    case Nil
    then have "go_optind (permute g) = argc (permute g)" using s by (metis split_argv_end)
    then show ?thesis using Nil same P by (simp add: next_element_def Let_def del: dropWhile_eq_Nil_conv)
  next
    case (Cons a r)
    then have a: "\<not> nonoption a" by (metis hd_dropWhile list.distinct(1) list.sel(1))
    have g: "arg (permute g) (go_optind (permute g)) = Some a" "go_optind (permute g) \<noteq> argc (permute g)"
      using split_argv_arg [of "permute g"] s Cons by (auto simp: order_less_imp_not_eq)
    have e: "a = ''--'' \<Longrightarrow> go_optind (end_of_options (permute g)) = argc (end_of_options (permute g))"
      using end_of_options_split [of "permute g"] s Cons by auto
    show ?thesis
      using Cons same P g e a by (simp add: next_element_def Let_def)
  qed
qed

section \<open>The reading from left to right\<close>

text \<open>The options that an element stands for, and what is left of the elements behind it.\<close>

definition long_value :: "string \<Rightarrow> long_option \<Rightarrow> string \<Rightarrow> string list \<Rightarrow> (getopt_ret \<times> string option) \<times> string list" where
  "long_value optstring p val rest =
     (let ret = (case lo_flag p of Some v \<Rightarrow> Stored v (lo_val p) | None \<Rightarrow> Ret (lo_val p)) in
      if val \<noteq> [] then ((if lo_has_arg p \<noteq> 0 then (ret, Some (tl val)) else (Ret 63, None)), rest)
      else if lo_has_arg p = 1 then
        (case rest of [] \<Rightarrow> ((Ret (missing optstring), None), []) | a # r \<Rightarrow> ((ret, Some a), r))
      else ((ret, None), rest))"

definition scan_long :: "string \<Rightarrow> long_option list \<Rightarrow> string \<Rightarrow> string list \<Rightarrow> (getopt_ret \<times> string option) \<times> string list" where
  "scan_long optstring los s rest =
     (let name = takeWhile (\<lambda>c. c \<noteq> CHR ''='') s; val = dropWhile (\<lambda>c. c \<noteq> CHR ''='') s in
      case (filter (\<lambda>p. lo_name p = name) los, filter (\<lambda>p. prefix name (lo_name p)) los) of
        (p # _, _) \<Rightarrow> long_value optstring p val rest
      | ([], [p]) \<Rightarrow> long_value optstring p val rest
      | _ \<Rightarrow> ((Ret 63, None), rest))"

definition colons :: "string \<Rightarrow> char \<Rightarrow> nat option" where
  "colons optstring c =
     (case strchr optstring c of
        Some (_ # t) \<Rightarrow> if c = CHR '':'' then None else Some (length (takeWhile (\<lambda>d. d = CHR '':'') (take 2 t)))
      | _ \<Rightarrow> None)"

fun scan_short :: "string \<Rightarrow> string \<Rightarrow> string list \<Rightarrow> (getopt_ret \<times> string option) list \<times> string list" where
  "scan_short optstring [] rest = ([], rest)"
| "scan_short optstring (c # r) rest =
     (case colons optstring c of
        None \<Rightarrow> apfst ((#) (Ret 63, None)) (scan_short optstring r rest)
      | Some 0 \<Rightarrow> apfst ((#) (Ret (char_int c), None)) (scan_short optstring r rest)
      | Some (Suc 0) \<Rightarrow>
          if r \<noteq> [] then ([(Ret (char_int c), Some r)], rest)
          else (case rest of
                  [] \<Rightarrow> ([(Ret (missing optstring), None)], [])
                | a # as \<Rightarrow> ([(Ret (char_int c), Some a)], as))
      | Some _ \<Rightarrow> ([(Ret (char_int c), if r \<noteq> [] then Some r else None)], rest))"

lemma scan_long_shorter: "length (snd (scan_long optstring los s rest)) \<le> length rest"
  by (auto simp: scan_long_def long_value_def Let_def split: list.splits)

lemma scan_short_shorter: "length (snd (scan_short optstring s rest)) \<le> length rest"
  by (induction optstring s rest rule: scan_short.induct) (auto split: option.splits list.splits nat.splits)

function scan_args :: "string \<Rightarrow> long_option list \<Rightarrow> string list \<Rightarrow> (getopt_ret \<times> string option) list \<times> string list" where
  "scan_args optstring los [] = ([], [])"
| "scan_args optstring los (a # rest) =
     (if a = ''--'' then ([], rest)
      else if nonoption a then apsnd ((#) a) (scan_args optstring los rest)
      else if a ! 1 = CHR ''-'' then
        apfst ((#) (fst (scan_long optstring los (drop 2 a) rest)))
          (scan_args optstring los (snd (scan_long optstring los (drop 2 a) rest)))
      else
        apfst ((@) (fst (scan_short optstring (tl a) rest)))
          (scan_args optstring los (snd (scan_short optstring (tl a) rest))))"
  by pat_completeness auto
termination
  by (relation "measure (\<lambda>(_, _, args). length args)")
    (simp_all add: scan_long_shorter scan_short_shorter le_imp_less_Suc)


text \<open>The loop over the table finds an exact name, or the only one that the name abbreviates.\<close>

lemma take_prefix: "take (length name) s = name \<longleftrightarrow> prefix name s"
  by (metis append_eq_conv_conj prefix_def)

lemma match_long_exact:
  "filter (\<lambda>p. lo_name p = name) los = p # ps \<Longrightarrow> \<exists>a. match_long name los pf amb = (Some p, True, a)"
proof (induction los arbitrary: pf amb)
  case (Cons q los)
  have "take (length name) (lo_name q) = name \<and> length name = length (lo_name q) \<longleftrightarrow> lo_name q = name" by auto
  then show ?case using Cons by (auto split: if_splits option.splits)
qed simp

lemma match_long_prefix:
  "filter (\<lambda>p. lo_name p = name) los = []
    \<Longrightarrow> match_long name los pf amb =
      (let cands = (case pf of None \<Rightarrow> [] | Some p \<Rightarrow> [p]) @ filter (\<lambda>p. prefix name (lo_name p)) los
       in (if cands = [] then None else Some (hd cands), False, amb \<or> 1 < length cands))"
proof (induction los arbitrary: pf amb)
  case (Cons q los)
  have "take (length name) (lo_name q) = name \<and> length name = length (lo_name q) \<longleftrightarrow> lo_name q = name" by auto
  then show ?case using Cons by (auto simp: take_prefix Let_def split: option.splits)
qed (simp add: Let_def split: option.split)

lemma take_long_reads:
  assumes "split_argv g ns os rest" "go_optarg g = None" "os \<noteq> []"
    and "long_value optstring p val rest = ((ret, oa), rest')"
  shows "\<exists>g' os'. take_long False optstring p val elm g = Some (ret, g') \<and> go_nextchar g' = Some []
    \<and> go_optarg g' = oa \<and> split_argv g' ns os' rest' \<and> os' \<noteq> []"
proof -
  have prev: "\<exists>a. arg g (go_optind g - 1) = Some a"
    using assms(1,3) by (cases os) (auto simp: split_argv_def arg_def argc_def)
  show ?thesis
  proof (cases "val = [] \<and> lo_has_arg p = 1 \<and> rest \<noteq> []")
    case True
    then obtain a r where r: "rest = a # r" by (cases rest) auto
    show ?thesis
      using True assms(2,4) split_argv_arg [of g ns os a r] assms(1) split_argv_read [of g ns os "[a]" r] r
      by (fastforce simp: take_long_def long_value_def found_def Let_def)
  next
    case False
    then show ?thesis
      using assms split_argv_end [of g ns os] prev
      by (auto simp: take_long_def long_value_def found_def complain_def Let_def split: if_splits list.splits)
        (auto simp: split_argv_def)
  qed
qed

lemma long_elem_reads:
  assumes "split_argv g ns os (elm # rest)" "go_optarg g = None"
    and "scan_long optstring los nc rest = ((ret, oa), rest')"
  shows "\<exists>g' os'. long_elem False optstring los elm nc g = Some (Some (ret, g')) \<and> go_nextchar g' = Some []
    \<and> go_optarg g' = oa \<and> split_argv g' ns os' rest'"
proof -
  let ?name = "takeWhile (\<lambda>c. c \<noteq> CHR ''='') nc" and ?val = "dropWhile (\<lambda>c. c \<noteq> CHR ''='') nc"
  let ?ex = "filter (\<lambda>p. lo_name p = ?name) los" and ?cands = "filter (\<lambda>p. prefix ?name (lo_name p)) los"
  let ?g = "g\<lparr>go_optind := go_optind g + 1\<rparr>"
  have g: "split_argv ?g ns (os @ [elm]) rest" "go_optarg ?g = None"
    using split_argv_read [of g ns os "[elm]" rest] assms(1,2) by auto
  note take = take_long_reads [OF g]
  have refused: "split_argv (complain t g\<lparr>go_nextchar := x, go_optind := Suc (go_optind g), go_optopt := y\<rparr>)
      ns (os @ [elm]) rest" "go_optind (complain t g) = go_optind g" "go_optarg (complain t g) = go_optarg g"
    for t x y
    using g(1) by (simp_all add: split_argv_def complain_def)
  show ?thesis
  proof (cases ?ex)
    case (Cons p ps)
    then obtain a where m: "match_long ?name los None False = (Some p, True, a)"
      using match_long_exact [OF Cons] by blast
    show ?thesis
      using take [of optstring p ?val ret oa rest'] m Cons assms(3)
      by (fastforce simp: long_elem_def scan_long_def Let_def)
  next
    case Nil
    note m = match_long_prefix [OF Nil, of None False]
    consider "?cands = []" | p where "?cands = [p]" | p q r where "?cands = p # q # r"
      by (metis list.exhaust)
    then show ?thesis
    proof cases
      case 2
      then show ?thesis
        using take [of optstring p ?val ret oa rest'] m Nil assms(3)
        by (fastforce simp: long_elem_def scan_long_def Let_def)
    qed (use refused m Nil assms(2,3) in \<open>fastforce simp: long_elem_def scan_long_def Let_def\<close>)+
  qed
qed


text \<open>An option string without the signs of the other orderings and without \<^verbatim>\<open>W;\<close>, and values that are
  not the -1 of the end.\<close>

definition plain_table :: "string \<Rightarrow> long_option list \<Rightarrow> bool" where
  "plain_table optstring los \<longleftrightarrow>
     optstring \<noteq> [] \<and> hd optstring \<noteq> CHR ''-'' \<and> hd optstring \<noteq> CHR ''+''
     \<and> (\<forall>c \<in> set optstring. code c < 128)
     \<and> (case strchr optstring CHR ''W'' of None \<Rightarrow> True | Some t \<Rightarrow> take 2 t \<noteq> ''W;'')
     \<and> (\<forall>p \<in> set los. lo_val p \<noteq> - 1)"

lemma colons_tests:
  "colons optstring c = None \<longleftrightarrow> strchr optstring c = None \<or> c = CHR '':''"
  "colons optstring c = Some n \<longleftrightarrow>
     c \<noteq> CHR '':'' \<and> (\<exists>t. strchr optstring c = Some (c # t)
       \<and> n = (if take 2 t = ''::'' then 2 else if take 1 t = '':'' then 1 else 0))"
proof -
  have eq: "length (takeWhile (\<lambda>d. d = CHR '':'') (take 2 t))
      = (if take 2 t = ''::'' then 2 else if take 1 t = '':'' then 1 else 0)" for t
    by (cases t; cases "tl t") (auto simp: numeral_2_eq_2)
  have st: "strchr optstring c = Some u \<Longrightarrow> \<exists>t. u = c # t" for u using strchr_Some by blast
  show "colons optstring c = None \<longleftrightarrow> strchr optstring c = None \<or> c = CHR '':''"
    by (auto simp: colons_def split: option.splits list.splits dest: st)
  show "colons optstring c = Some n \<longleftrightarrow>
     c \<noteq> CHR '':'' \<and> (\<exists>t. strchr optstring c = Some (c # t)
       \<and> n = (if take 2 t = ''::'' then 2 else if take 1 t = '':'' then 1 else 0))"
    unfolding eq [symmetric] by (auto simp: colons_def split: option.splits list.splits dest: st)
qed

lemma short_elem_reads:
  assumes "split_argv g ns os (elm # rest)" "go_optarg g = None" "go_nextchar g = Some (c # r)"
    and "plain_table optstring los"
  shows "case colons optstring c of
      Some (Suc n) \<Rightarrow>
        (\<exists>ret g' os'. short_elem optstring lopts g = Some (ret, g') \<and> go_nextchar g' = None
          \<and> scan_short optstring (c # r) rest = ([(ret, go_optarg g')], snd (scan_short optstring (c # r) rest))
          \<and> split_argv g' ns os' (snd (scan_short optstring (c # r) rest)))
    | x \<Rightarrow>
        (\<exists>g'. short_elem optstring lopts g = Some (Ret (if x = None then 63 else char_int c), g')
          \<and> go_nextchar g' = Some r \<and> go_optarg g' = None
          \<and> (if r = [] then split_argv g' ns (os @ [elm]) rest else split_argv g' ns os (elm # rest)))"
proof -
  have w: "take 2 (c # t) \<noteq> ''W;''" if "strchr optstring c = Some (c # t)" for t
    using that assms(4) by (auto simp: plain_table_def split: option.splits)
  let ?g = "g\<lparr>go_nextchar := Some r, go_optind := Suc (go_optind g)\<rparr>"
  have g: "split_argv ?g ns (os @ [elm]) rest"
    using split_argv_read [of g ns os "[elm]" rest] assms(1) by (auto simp: split_argv_def)
  define g1 where "g1 = g\<lparr>go_nextchar := Some r, go_optind := go_optind g + (if r = [] then 1 else 0)\<rparr>"
  have g1: "if r = [] then split_argv g1 ns (os @ [elm]) rest else split_argv g1 ns os (elm # rest)"
    "go_nextchar (complain t g1) = Some r" "go_optarg (complain t g1) = None" for t
    using g assms(1,2) by (auto simp: g1_def complain_def split_argv_def)
  note e = assms(2,3)
  show ?thesis
  proof (cases "colons optstring c")
    case None
    then have "strchr optstring c = None \<or> c = CHR '':''" by (simp add: colons_tests)
    then have "\<exists>t. short_elem optstring lopts g = Some (Ret 63, (complain t g1)\<lparr>go_optopt := char_int c\<rparr>)"
      by (cases "strchr optstring c") (auto simp: short_elem_def e g1_def Let_def)
    then show ?thesis using None g1 by fastforce
  next
    case (Some n)
    then obtain t where t: "c \<noteq> CHR '':''" "strchr optstring c = Some (c # t)"
      "n = (if take 2 t = ''::'' then 2 else if take 1 t = '':'' then 1 else 0)"
      unfolding colons_tests(2) by blast
    have tests: "take 2 t = ''::'' \<longleftrightarrow> n = 2" "take (Suc 0) t = '':'' \<longleftrightarrow> n \<noteq> 0"
      "c = CHR ''W'' \<and> take (Suc 0) t = '';'' \<longleftrightarrow> False"
      using t(3) w [OF t(2)] by (cases t; auto split: if_splits)+
    have eq: "short_elem optstring lopts g =
      (if n = 2 then Some (Ret (char_int c),
           (if r \<noteq> [] then g1\<lparr>go_optarg := Some r, go_optind := go_optind g1 + 1\<rparr> else g1\<lparr>go_optarg := None\<rparr>)
             \<lparr>go_nextchar := None\<rparr>)
       else if n \<noteq> 0 then
         do { x \<leftarrow> short_arg optstring c r g1;
              Some (case x of Inl (ret, g) \<Rightarrow> (ret, g\<lparr>go_nextchar := None\<rparr>)
                            | Inr g \<Rightarrow> (Ret (char_int c), g\<lparr>go_nextchar := None\<rparr>)) }
       else Some (Ret (char_int c), g1))"
      unfolding short_elem_def e(2) option.case list.case t(2) Let_def
      by (simp only: tests t(1) g1_def take_Suc_Cons list.sel One_nat_def numeral_2_eq_2 if_False list.inject simp_thms
          split: if_split)
        (simp add: tests flip: numeral_2_eq_2)
    consider "n = 0" | "n = 1" "r \<noteq> []" | "n = 1" "r = []" | "n = 2" using t(3) by (auto split: if_splits)
    then show ?thesis
    proof cases
      case 1
      then have "short_elem optstring lopts g = Some (Ret (char_int c), g1)"
        by (simp add: eq)
      then show ?thesis using Some 1 g1(1) g1(2,3) [of "[]"] by (simp add: complain_def)
    next
      case 2
      have "short_elem optstring lopts g = Some (Ret (char_int c), ?g\<lparr>go_optarg := Some r, go_nextchar := None\<rparr>)"
        using 2 by (simp add: eq short_arg_def g1_def)
      moreover have "colons optstring c = Some (Suc 0)" using Some 2 by simp
      ultimately show ?thesis using 2 g by (auto simp del: One_nat_def)
    next
      case 3
      show ?thesis
      proof (cases rest)
        case Nil
        have "\<exists>t. short_elem optstring lopts g = Some (Ret (missing optstring),
            (complain t ?g)\<lparr>go_optopt := char_int c, go_nextchar := None\<rparr>)"
          using 3 split_argv_end [of ?g ns "os @ [elm]"] g Nil by (auto simp: eq short_arg_def g1_def argc_def)
        moreover have "go_optarg (complain t ?g) = None" for t using e by (simp add: complain_def)
        moreover have "colons optstring c = Some (Suc 0)" using Some 3 by simp
        ultimately show ?thesis using 3 g Nil by fastforce
      next
        case (Cons a as)
        have "short_elem optstring lopts g = Some (Ret (char_int c),
            ?g\<lparr>go_optarg := Some a, go_optind := Suc (Suc (go_optind g)), go_nextchar := None\<rparr>)"
          using 3 split_argv_arg [of ?g ns "os @ [elm]" a as] g Cons by (auto simp: eq short_arg_def g1_def argc_def arg_def)
        moreover have "split_argv (?g\<lparr>go_optind := Suc (Suc (go_optind g))\<rparr>) ns ((os @ [elm]) @ [a]) as"
          using split_argv_read [of ?g ns "os @ [elm]" "[a]" as] g Cons by simp
        moreover have "colons optstring c = Some (Suc 0)" using Some 3 by simp
        ultimately show ?thesis using 3 Cons by auto
      qed
    next
      case 4
      have "short_elem optstring lopts g = Some (Ret (char_int c), ?g\<lparr>go_optarg := if r = [] then None else Some r,
          go_nextchar := None\<rparr>)"
        using 4 by (simp add: eq g1_def)
      moreover have "colons optstring c = Some (Suc (Suc 0))" using Some 4 by simp
      ultimately show ?thesis using 4 g by auto
    qed
  qed
qed


section \<open>The calls read the command line\<close>

lemma split_argv_started: "split_argv g ns os rest \<Longrightarrow> go_optind g \<noteq> 0 \<and> go_initialized g"
  by (auto simp: split_argv_def)

lemma getopt_long_pending:
  assumes "split_argv g ns os (elm # rest)" "go_nextchar g = Some (c # r)" "char_at elm 1 \<noteq> CHR ''-''"
  shows "getopt_long False optstring los g = short_elem optstring (Some los) (g\<lparr>go_optarg := None\<rparr>)"
  using assms(2,3) split_argv_arg [OF assms(1)] split_argv_started [OF assms(1)]
  by (simp add: getopt_long_def getopt_internal_def decode_def Let_def arg_def argc_def)

lemma getopt_long_start:
  assumes "split_argv g ns os args" "go_nextchar g = None \<or> go_nextchar g = Some []"
    and "dropWhile nonoption args = a # rest" "a \<noteq> ''--''"
  shows "\<exists>g1. getopt_long False optstring los g = decode False optstring (Some los) g1
    \<and> split_argv g1 (ns @ takeWhile nonoption args) [] (a # rest) \<and> go_optarg g1 = None
    \<and> go_nextchar g1 = Some (drop (if a ! 1 = CHR ''-'' then 2 else 1) a)"
proof -
  let ?g = "g\<lparr>go_optarg := None\<rparr>"
  have s: "split_argv ?g ns os args" using assms(1) by simp
  have "getopt_long False optstring los g = decode False optstring (Some los)
      ((permute ?g)\<lparr>go_nextchar := Some (drop (if a ! 1 = CHR ''-'' then 2 else 1) a)\<rparr>)"
    using assms(2) next_element_permutes [OF s, of True] assms(3,4) split_argv_started [OF s]
    by (auto simp: getopt_long_def getopt_internal_def Let_def)
  then show ?thesis using permute_split [OF s] assms(3) by fastforce
qed

lemma getopt_long_ends:
  assumes "split_argv g ns os args" "go_nextchar g = None \<or> go_nextchar g = Some []"
    and "dropWhile nonoption args = [] \<or> (\<exists>rest. dropWhile nonoption args = ''--'' # rest)"
  shows "\<exists>g'. getopt_long False optstring los g = Some (Ret (- 1), g')
    \<and> drop (go_optind g') (go_argv g') = ns @ takeWhile nonoption args @ tl (dropWhile nonoption args)"
proof -
  let ?g = "g\<lparr>go_optarg := None\<rparr>"
  have s: "split_argv ?g ns os args" using assms(1) by simp
  have call: "getopt_long False optstring los g = (case next_element True ?g of
      Some (Inl res) \<Rightarrow> Some res | Some (Inr g) \<Rightarrow> decode False optstring (Some los) g | None \<Rightarrow> None)"
    using assms(2) split_argv_started [OF s]
    by (auto simp: getopt_long_def getopt_internal_def Let_def split: option.split sum.split)
  note p = permute_split [OF s]
  show ?thesis
  proof (cases "dropWhile nonoption args")
    case Nil
    then have "drop (if go_first_nonopt (permute ?g) \<noteq> go_last_nonopt (permute ?g)
        then go_first_nonopt (permute ?g) else go_optind (permute ?g)) (go_argv (permute ?g)) = ns @ takeWhile nonoption args"
      using p takeWhile_dropWhile_id [of nonoption args] by (auto simp: split_argv_def simp del: dropWhile_eq_Nil_conv)
    then show ?thesis
      using Nil next_element_permutes [OF s, of True] call by (auto simp: Let_def simp del: dropWhile_eq_Nil_conv)
  next
    case (Cons a rest)
    then have "a = ''--''" using assms(3) by auto
    then show ?thesis
      using Cons end_of_options_split [of "permute ?g" "ns @ takeWhile nonoption args" rest] p
        next_element_permutes [OF s, of True] call
      by (auto simp: Let_def split: if_splits)
  qed
qed

lemma getopt_calls_step:
  "f g = Some (ret, g') \<Longrightarrow> ret \<noteq> Ret (- 1)
    \<Longrightarrow> getopt_calls f (Suc n) g = map_option (apfst ((#) (ret, go_optarg g'))) (getopt_calls f n g')"
  by (cases "getopt_calls f n g'") auto

lemma char_int_end:
  assumes "plain_table optstring los" "colons optstring c = Some n"
  shows "char_int c \<noteq> - 1"
proof -
  have "c \<in> set optstring" using assms(2) strchr_Some by (fastforce simp: colons_tests)
  then show ?thesis using assms(1) by (auto simp: plain_table_def char_int_def)
qed

lemma short_calls:
  assumes "split_argv g ns os (elm # rest)" "go_nextchar g = Some s" "s \<noteq> []" "char_at elm 1 \<noteq> CHR ''-''"
    and "plain_table optstring los"
  shows "\<exists>g' os'. split_argv g' ns os' (snd (scan_short optstring s rest))
    \<and> (go_nextchar g' = None \<or> go_nextchar g' = Some [])
    \<and> (\<forall>n. getopt_calls (getopt_long False optstring los) (length (fst (scan_short optstring s rest)) + n) g
        = map_option (apfst ((@) (fst (scan_short optstring s rest))))
            (getopt_calls (getopt_long False optstring los) n g'))"
  using assms(1-3)
proof (induction s arbitrary: g)
  case (Cons c r)
  let ?f = "getopt_long False optstring los"
  let ?g = "g\<lparr>go_optarg := None\<rparr>"
  have call: "?f g = short_elem optstring (Some los) ?g"
    using getopt_long_pending Cons.prems(1,2) assms(4) by blast
  have step: "case colons optstring c of
      Some (Suc n) \<Rightarrow>
        (\<exists>ret g' os'. ?f g = Some (ret, g') \<and> go_nextchar g' = None
          \<and> scan_short optstring (c # r) rest = ([(ret, go_optarg g')], snd (scan_short optstring (c # r) rest))
          \<and> split_argv g' ns os' (snd (scan_short optstring (c # r) rest)))
    | x \<Rightarrow>
        (\<exists>g'. ?f g = Some (Ret (if x = None then 63 else char_int c), g')
          \<and> go_nextchar g' = Some r \<and> go_optarg g' = None
          \<and> (if r = [] then split_argv g' ns (os @ [elm]) rest else split_argv g' ns os (elm # rest)))"
    unfolding call by (rule short_elem_reads) (use Cons.prems assms(5) in auto)
  show ?case
  proof (cases "\<exists>n. colons optstring c = Some (Suc n)")
    case True
    then obtain n where n: "colons optstring c = Some (Suc n)" ..
    then obtain ret g' os' where g': "?f g = Some (ret, g')" "go_nextchar g' = None"
      "scan_short optstring (c # r) rest = ([(ret, go_optarg g')], snd (scan_short optstring (c # r) rest))"
      "split_argv g' ns os' (snd (scan_short optstring (c # r) rest))"
      using step by auto
    have "ret = Ret (char_int c) \<or> ret = Ret (missing optstring)"
      using g'(3) n by (cases n) (auto split: if_splits list.splits)
    then have ret: "ret \<noteq> Ret (- 1)" using char_int_end [OF assms(5) n] by (auto simp: missing_def split: if_splits)
    have "fst (scan_short optstring (c # r) rest) = [(ret, go_optarg g')]" using g'(3) by (metis fst_conv)
    then show ?thesis
      using getopt_calls_step [of ?f g, OF g'(1) ret] g'(2,4)
      by (intro exI [of _ g'] exI [of _ os']) (simp del: scan_short.simps add: apfst_def map_prod_def)
  next
    case False
    define x where "x = colons optstring c"
    have x: "x = None \<or> x = Some 0" using False x_def by (metis not0_implies_Suc option.exhaust)
    obtain g' where g': "?f g = Some (Ret (if x = None then 63 else char_int c), g')"
      "go_nextchar g' = Some r" "go_optarg g' = None"
      "if r = [] then split_argv g' ns (os @ [elm]) rest else split_argv g' ns os (elm # rest)"
      using step x unfolding x_def by auto
    let ?ret = "Ret (if x = None then 63 else char_int c)"
    have ret: "?ret \<noteq> Ret (- 1)" using x char_int_end [OF assms(5)] unfolding x_def by auto
    have scan: "scan_short optstring (c # r) rest = apfst ((#) (?ret, None)) (scan_short optstring r rest)"
      using x unfolding x_def by auto
    note c = getopt_calls_step [of ?f g, OF g'(1) ret]
    show ?thesis
    proof (cases "r = []")
      case True
      then have one: "scan_short optstring (c # r) rest = ([(?ret, None)], rest)" using scan by simp
      show ?thesis
        unfolding one using g'(2-4) c True
        by (intro exI [of _ g'] exI [of _ "os @ [elm]"]) (simp add: apfst_def map_prod_def del: getopt_calls.simps(2))
    next
      case nonempty: False
      then obtain g2 os2 where "split_argv g2 ns os2 (snd (scan_short optstring r rest))"
        "go_nextchar g2 = None \<or> go_nextchar g2 = Some []"
        "\<forall>n. getopt_calls ?f (length (fst (scan_short optstring r rest)) + n) g'
          = map_option (apfst ((@) (fst (scan_short optstring r rest)))) (getopt_calls ?f n g2)"
        using Cons.IH [of g'] g' by auto
      then show ?thesis
        using c g'(3) by (intro exI [of _ g2] exI [of _ os2])
          (simp add: scan option.map_comp comp_def apfst_def map_prod_def case_prod_beta'
            del: scan_short.simps(2) getopt_calls.simps(2))
    qed
  qed
qed simp


lemma scan_args_skip:
  "scan_args optstring los args = apsnd ((@) (takeWhile nonoption args)) (scan_args optstring los (dropWhile nonoption args))"
  by (induction args) (auto simp: apsnd_def map_prod_def case_prod_beta')

lemma long_value_ret:
  assumes "p \<in> set los" "plain_table optstring los"
  shows "fst (fst (long_value optstring p val rest)) \<noteq> Ret (- 1)"
  using assms by (auto simp: long_value_def plain_table_def missing_def Let_def split: list.splits option.splits)

lemma scan_long_ret:
  assumes "plain_table optstring los"
  shows "fst (fst (scan_long optstring los s rest)) \<noteq> Ret (- 1)"
proof -
  let ?name = "takeWhile (\<lambda>c. c \<noteq> CHR ''='') s"
  have found: "x \<in> set los" if "filter P los = x # xs" for P x xs
    using that by (metis filter_is_subset list.set_intros(1) subsetD)
  show ?thesis
  proof (cases "filter (\<lambda>p. lo_name p = ?name) los")
    case (Cons p ps)
    then show ?thesis using long_value_ret [OF found [OF Cons] assms] by (simp add: scan_long_def Let_def)
  next
    case Nil
    consider "filter (\<lambda>p. prefix ?name (lo_name p)) los = []" | p where "filter (\<lambda>p. prefix ?name (lo_name p)) los = [p]"
      | p q r where "filter (\<lambda>p. prefix ?name (lo_name p)) los = p # q # r"
      by (metis list.exhaust)
    then show ?thesis
      using Nil by cases (simp_all add: scan_long_def Let_def long_value_ret [OF found assms])
  qed
qed

lemma getopt_calls_scan:
  assumes "plain_table optstring los"
  shows "split_argv g ns os args \<Longrightarrow> go_nextchar g = None \<or> go_nextchar g = Some []
    \<Longrightarrow> \<exists>g'. drop (go_optind g') (go_argv g') = ns @ snd (scan_args optstring los args)
      \<and> (\<forall>n. getopt_calls (getopt_long False optstring los) (length (fst (scan_args optstring los args)) + Suc n) g
          = Some (fst (scan_args optstring los args), g'))"
proof (induction "length args" arbitrary: args g ns os rule: less_induct)
  case less
  let ?f = "getopt_long False optstring los"
  note skip = scan_args_skip [of optstring los args]
  have shorter: "length (dropWhile nonoption args) \<le> length args" by (rule length_dropWhile_le)
  consider "dropWhile nonoption args = []" | rest where "dropWhile nonoption args = ''--'' # rest"
    | a rest where "dropWhile nonoption args = a # rest" "a \<noteq> ''--''"
    by (metis list.exhaust)
  then show ?case
  proof cases
    case 3
    have a: "\<not> nonoption a" using 3(1) by (metis hd_dropWhile list.distinct(1) list.sel(1))
    then obtain d r where a2: "a = CHR ''-'' # d # r" by (cases a rule: nonoption.cases) auto
    obtain g1 where g1: "?f g = decode False optstring (Some los) g1"
      "split_argv g1 (ns @ takeWhile nonoption args) [] (a # rest)" "go_optarg g1 = None"
      "go_nextchar g1 = Some (drop (if a ! 1 = CHR ''-'' then 2 else 1) a)"
      using getopt_long_start [OF less.prems 3] by blast
    have rest: "length rest < length args" using shorter 3 by simp
    show ?thesis
    proof (cases "d = CHR ''-''")
      case True
      obtain ret oa rest' where s: "scan_long optstring los (drop 2 a) rest = ((ret, oa), rest')" by (metis surj_pair)
      obtain g2 os2 where g2: "long_elem False optstring los a (drop 2 a) g1 = Some (Some (ret, g2))"
        "go_nextchar g2 = Some []" "go_optarg g2 = oa" "split_argv g2 (ns @ takeWhile nonoption args) os2 rest'"
        using long_elem_reads [OF g1(2,3) s] by blast
      have f: "?f g = Some (ret, g2)"
        using g1 g2(1) split_argv_arg [OF g1(2)] True a2 by (simp add: decode_def char_at_def)
      have ret: "ret \<noteq> Ret (- 1)" using scan_long_ret [OF assms, of "drop 2 a" rest] s by simp
      have "length rest' < length args" using scan_long_shorter [of optstring los "drop 2 a" rest] s rest by simp
      then obtain g' where "drop (go_optind g') (go_argv g')
          = (ns @ takeWhile nonoption args) @ snd (scan_args optstring los rest')"
        "\<forall>n. getopt_calls ?f (length (fst (scan_args optstring los rest')) + Suc n) g2
          = Some (fst (scan_args optstring los rest'), g')"
        using less.hyps [OF _ g2(4)] g2(2) by blast
      moreover have "scan_args optstring los args = apsnd ((@) (takeWhile nonoption args))
          (apfst ((#) (ret, oa)) (scan_args optstring los rest'))"
        using skip 3 True a2 s by simp
      ultimately show ?thesis
        using getopt_calls_step [of ?f g, OF f ret] g2(3)
        by (intro exI [of _ g']) (simp add: apsnd_def apfst_def map_prod_def case_prod_beta' del: getopt_calls.simps(2))
    next
      case False
      let ?s = "scan_short optstring (tl a) rest"
      have pending: "go_nextchar g1 = Some (tl a)" "tl a \<noteq> []" "char_at a 1 \<noteq> CHR ''-''"
        using g1(4) a2 False by (auto simp: char_at_def)
      have same: "g1\<lparr>go_optarg := None\<rparr> = g1" by (cases g1) (use g1(3) in simp)
      have "?f g1 = ?f g"
        using g1 getopt_long_pending [OF g1(2), of d r optstring los, unfolded same] split_argv_arg [OF g1(2)] a2 pending
        by (simp add: decode_def)
      then have same: "getopt_calls ?f n g1 = getopt_calls ?f n g" for n by (cases n) simp_all
      obtain g2 os2 where g2: "split_argv g2 (ns @ takeWhile nonoption args) os2 (snd ?s)"
        "go_nextchar g2 = None \<or> go_nextchar g2 = Some []"
        "\<forall>n. getopt_calls ?f (length (fst ?s) + n) g1 = map_option (apfst ((@) (fst ?s))) (getopt_calls ?f n g2)"
        using short_calls [OF g1(2) pending assms] by blast
      have "length (snd ?s) < length args" using scan_short_shorter [of optstring "tl a" rest] rest by simp
      then obtain g' where "drop (go_optind g') (go_argv g')
          = (ns @ takeWhile nonoption args) @ snd (scan_args optstring los (snd ?s))"
        "\<forall>n. getopt_calls ?f (length (fst (scan_args optstring los (snd ?s))) + Suc n) g2
          = Some (fst (scan_args optstring los (snd ?s)), g')"
        using less.hyps [OF _ g2(1)] g2(2) by blast
      moreover have "scan_args optstring los args = apsnd ((@) (takeWhile nonoption args))
          (apfst ((@) (fst ?s)) (scan_args optstring los (snd ?s)))"
        using skip 3 False a2 by simp
      ultimately show ?thesis
        using g2(3) same
        by (intro exI [of _ g']) (simp add: apsnd_def apfst_def map_prod_def case_prod_beta' add.assoc del: getopt_calls.simps(2) add_Suc_right)
    qed
  qed (use getopt_long_ends [OF less.prems, of optstring los] skip in \<open>auto simp: apsnd_def map_prod_def simp del: dropWhile_eq_Nil_conv\<close>)
qed


lemma getopt_first_call:
  assumes "argv \<noteq> []" "plain_table optstring los"
  shows "\<exists>g. split_argv g [] [] (tl argv) \<and> go_nextchar g = None
    \<and> (\<forall>n. getopt_calls (getopt_long False optstring los) n (getopt_static argv)
        = getopt_calls (getopt_long False optstring los) n g)"
proof -
  let ?g = "(getopt_static argv)\<lparr>go_first_nonopt := 1, go_last_nonopt := 1, go_initialized := True,
    go_ordering := PERMUTE\<rparr>"
  have "getopt_long False optstring los (getopt_static argv) = getopt_long False optstring los ?g"
    using assms(2)
    by (auto simp: getopt_long_def getopt_internal_def getopt_initialize_def getopt_static_def plain_table_def)
  then have "getopt_calls (getopt_long False optstring los) n (getopt_static argv)
      = getopt_calls (getopt_long False optstring los) n ?g" for n by (cases n) simp_all
  moreover have "split_argv ?g [] [] (tl argv)"
    using assms(1) by (auto simp: split_argv_def getopt_static_def intro!: exI [of _ "[hd argv]"])
  moreover have "go_nextchar ?g = None" by (simp add: getopt_static_def)
  ultimately show ?thesis by blast
qed

text \<open>C18. \<^verbatim>\<open>getopt_long\<close>, called until it returns -1, delivers the options of the reading from left to right,
  each with its argument, whatever \<^verbatim>\<open>argv\<close> and the (plain) tables are; it then has moved the other
  arguments to the end of \<^verbatim>\<open>argv\<close>, in their order.  It needs one call for each option and one more, and
  never reads behind \<^verbatim>\<open>argv\<close> or one of its strings.\<close>

theorem getopt_long_correct:
  assumes "argv \<noteq> []" "plain_table optstring los"
    and "length (fst (scan_args optstring los (tl argv))) < n"
  shows "map_option (apsnd (\<lambda>g. drop (go_optind g) (go_argv g)))
      (getopt_calls (getopt_long False optstring los) n (getopt_static argv))
    = Some (scan_args optstring los (tl argv))"
proof -
  obtain g where g: "split_argv g [] [] (tl argv)" "go_nextchar g = None"
    "\<forall>n. getopt_calls (getopt_long False optstring los) n (getopt_static argv)
        = getopt_calls (getopt_long False optstring los) n g"
    using getopt_first_call [OF assms(1,2)] by blast
  obtain m where "n = length (fst (scan_args optstring los (tl argv))) + Suc m"
    using assms(3) less_iff_Suc_add by auto
  moreover obtain g' where "drop (go_optind g') (go_argv g') = snd (scan_args optstring los (tl argv))"
    "\<forall>n. getopt_calls (getopt_long False optstring los) (length (fst (scan_args optstring los (tl argv))) + Suc n) g
      = Some (fst (scan_args optstring los (tl argv)), g')"
    using getopt_calls_scan [OF assms(2) g(1)] g(2) by auto
  ultimately show ?thesis using g(3) by (simp del: getopt_calls.simps add_Suc_right)
qed

lemma sitecopy_table: "plain_table shortopts longopts"
  by code_simp

lemma getopt_long_correct_witness:
  "map_option (apsnd (\<lambda>g. drop (go_optind g) (go_argv g)))
      (getopt_calls (getopt_long False shortopts longopts) 5
        (getopt_static [''sitecopy'', ''one'', ''-ap'', ''dir'', ''two'', ''--dry'', ''--'', ''-u'']))
    = Some ([(Ret 97, None), (Ret 112, Some ''dir''), (Ret 110, None)], [''one'', ''two'', ''-u''])"
proof -
  have scan: "scan_args shortopts longopts [''one'', ''-ap'', ''dir'', ''two'', ''--dry'', ''--'', ''-u'']
      = ([(Ret 97, None), (Ret 112, Some ''dir''), (Ret 110, None)], [''one'', ''two'', ''-u''])"
    by code_simp
  show ?thesis
    using getopt_long_correct [OF _ sitecopy_table, of
        "[''sitecopy'', ''one'', ''-ap'', ''dir'', ''two'', ''--dry'', ''--'', ''-u'']" 5]
    by (simp only: list.sel scan) simp
qed


section \<open>The program on its \<^verbatim>\<open>argv\<close>\<close>

text \<open>No more options than characters.\<close>

lemma scan_short_results: "length (fst (scan_short optstring s rest)) \<le> length s"
  by (induction optstring s rest rule: scan_short.induct) (auto split: option.splits nat.splits list.splits)

lemma long_value_rest: "snd (long_value optstring p val rest) = rest \<or> snd (long_value optstring p val rest) = tl rest"
  by (auto simp: long_value_def Let_def split: list.splits)

lemma scan_long_rest: "snd (scan_long optstring los s rest) = rest \<or> snd (scan_long optstring los s rest) = tl rest"
  using long_value_rest by (auto simp: scan_long_def Let_def split: list.splits)

lemma scan_short_rest: "snd (scan_short optstring s rest) = rest \<or> snd (scan_short optstring s rest) = tl rest"
  by (induction optstring s rest rule: scan_short.induct) (auto split: option.splits nat.splits list.splits)

lemma tl_characters: "sum_list (map length (tl xs)) \<le> sum_list (map length xs)"
  by (cases xs) auto

lemma scan_args_results: "length (fst (scan_args optstring los args)) \<le> sum_list (map length args)"
proof (induction optstring los args rule: scan_args.induct)
  case (2 optstring los a rest)
  have rest: "sum_list (map length (snd (scan_long optstring los (drop 2 a) rest))) \<le> sum_list (map length rest)"
    "sum_list (map length (snd (scan_short optstring (tl a) rest))) \<le> sum_list (map length rest)"
    using scan_long_rest [of optstring los "drop 2 a" rest] scan_short_rest [of optstring "tl a" rest]
      tl_characters [of rest] by auto
  have "\<not> nonoption a \<Longrightarrow> 1 \<le> length a" by (cases a) auto
  then show ?case
    using 2 rest scan_short_results [of optstring "tl a" rest] by (auto simp: le_diff_conv2)
qed simp

definition main_argv :: "'w app \<Rightarrow> bool \<Rightarrow> string list \<Rightarrow> 'w \<Rightarrow> (int \<times> 'w \<times> console_text list) option" where
  "main_argv A posix argv w =
     do { (results, g) \<leftarrow> getopt_calls (getopt_long posix shortopts longopts)
            (Suc (sum_list (map length argv))) (getopt_static argv);
          sitecopy_main A (hd argv) (map getopt_result results) (drop (go_optind g) (go_argv g)) w }"

text \<open>The program runs on the options and site names of its command line, in any order of the two.\<close>

lemma main_argv_reads:
  assumes "argv \<noteq> []"
  shows "main_argv A False argv w =
    sitecopy_main A (hd argv) (map getopt_result (fst (scan_args shortopts longopts (tl argv))))
      (snd (scan_args shortopts longopts (tl argv))) w"
proof -
  have "length (fst (scan_args shortopts longopts (tl argv))) < Suc (sum_list (map length argv))"
    using scan_args_results [of shortopts longopts "tl argv"] tl_characters [of argv] by linarith
  moreover obtain g where g: "split_argv g [] [] (tl argv)" "go_nextchar g = None"
    "\<forall>n. getopt_calls (getopt_long False shortopts longopts) n (getopt_static argv)
        = getopt_calls (getopt_long False shortopts longopts) n g"
    using getopt_first_call [OF assms sitecopy_table] by blast
  ultimately show ?thesis
    using getopt_calls_scan [OF sitecopy_table g(1)] by (auto simp: main_argv_def less_iff_Suc_add simp del: getopt_calls.simps)
qed

end
