(* ===== verification/Ne_Dates.thy ===== *)
theory Ne_Dates
  imports Ftp_Text
begin

text \<open>
  The dates of HTTP: \<^verbatim>\<open>lib/neon/ne_dates.c\<close>, which the WebDAV driver uses for the condition of an upload
  and for the times of a listing.  \<^verbatim>\<open>gmtime\<close> is the Gregorian calendar; \<^verbatim>\<open>mktime\<close> and the \<^verbatim>\<open>tm_gmtoff\<close> it
  sets depend on the time zone and are an argument.  The date written for a time is read as that time;
  a date in one of the two older formats of HTTP/1.1 never is.
\<close>

section \<open>The calendar\<close>

text \<open>Days since 1970-01-01; the years before the year 1 are counted 0, -1 and so on.\<close>

definition leap :: "int \<Rightarrow> bool" where
  "leap y \<longleftrightarrow> 4 dvd y \<and> (\<not> 100 dvd y \<or> 400 dvd y)"

definition days_before_year :: "int \<Rightarrow> int" where
  "days_before_year y = 365 * (y - 1) + (y - 1) div 4 - (y - 1) div 100 + (y - 1) div 400 - 719162"

definition month_days :: "bool \<Rightarrow> int list" where
  "month_days lp = [31, if lp then 29 else 28, 31, 30, 31, 30, 31, 31, 30, 31, 30, 31]"

text \<open>The time of a broken-down time whose fields may be out of range, as \<^verbatim>\<open>mktime\<close> takes them, in UTC.\<close>

definition utc_time :: "tm \<Rightarrow> int" where
  "utc_time t =
     (let y = tm_year t + 1900 + tm_mon t div 12;
          days = days_before_year y + sum_list (take (nat (tm_mon t mod 12)) (month_days (leap y)))
            + tm_mday t - 1
      in ((days * 24 + tm_hour t) * 60 + tm_min t) * 60 + tm_sec t)"

function year_loop :: "int \<Rightarrow> int \<Rightarrow> int \<times> int" where
  "year_loop y d =
     (let n = (if leap y then 366 else 365) in if n \<le> d then year_loop (y + 1) (d - n) else (y, d))"
  by pat_completeness auto
termination by (relation "measure (\<lambda>(y, d). nat d)") (auto split: if_splits)

declare year_loop.simps [simp del]

fun month_loop :: "int \<Rightarrow> int list \<Rightarrow> int \<Rightarrow> int \<times> int" where
  "month_loop m [] d = (m, d)"
| "month_loop m (n # ns) d = (if n \<le> d then month_loop (m + 1) ns (d - n) else (m, d))"

text \<open>From the start of the 400 years that the day is in.  The day of the week is the second part.\<close>

definition gmtime :: "int \<Rightarrow> tm \<times> int" where
  "gmtime t =
     (let days = t div 86400; s = t mod 86400;
          (y, d) = year_loop (400 * ((days + 719162) div 146097) + 1) ((days + 719162) mod 146097);
          (m, d) = month_loop 0 (month_days (leap y)) d
      in (\<lparr>tm_year = y - 1900, tm_mon = m, tm_mday = d + 1, tm_hour = s div 3600, tm_min = s div 60 mod 60,
            tm_sec = s mod 60\<rparr>, (days + 4) mod 7))"

section \<open>Conversions\<close>

datatype conv = Str nat | Dec nat | Chr char | White

datatype scanned = Text string | Num int

text \<open>\<^verbatim>\<open>sscanf\<close>: what was converted before the first mismatch.\<close>

fun sscanf :: "conv list \<Rightarrow> string \<Rightarrow> scanned list" where
  "sscanf [] s = []"
| "sscanf (White # fs) s = sscanf fs (dropWhile isspace s)"
| "sscanf (Chr c # fs) s = (case s of x # r \<Rightarrow> if x = c then sscanf fs r else [] | [] \<Rightarrow> [])"
| "sscanf (Str w # fs) s =
     (let s = dropWhile isspace s; t = takeWhile (\<lambda>c. \<not> isspace c) (take w s)
      in if t = [] then [] else Text t # sscanf fs (drop (length t) s))"
| "sscanf (Dec w # fs) s =
     (case scan_d w s of None \<Rightarrow> [] | Some (n, r) \<Rightarrow> Num n # sscanf fs r)"

definition lits :: "string \<Rightarrow> conv list" where "lits s = map Chr s"

definition RFC1123_FORMAT :: "conv list" where
  "RFC1123_FORMAT = [Str 3, Chr CHR '','', White, Dec 2, White, Str 3, White, Dec 4, White,
     Dec 2, Chr CHR '':'', Dec 2, Chr CHR '':'', Dec 2, White] @ lits ''GMT''"

definition RFC1036_FORMAT :: "conv list" where
  "RFC1036_FORMAT = [Str 10, White, Dec 2, Chr CHR ''-'', Str 3, Chr CHR ''-'', Dec 2, White,
     Dec 2, Chr CHR '':'', Dec 2, Chr CHR '':'', Dec 2, White] @ lits ''GMT''"

definition ASCTIME_FORMAT :: "conv list" where
  "ASCTIME_FORMAT = [Str 3, White, Str 3, White, Dec 2, White, Dec 2, Chr CHR '':'', Dec 2, Chr CHR '':'',
     Dec 2, White, Dec 4]"

definition rfc1123_weekdays :: "string list" where
  "rfc1123_weekdays = [''Sun'', ''Mon'', ''Tue'', ''Wed'', ''Thu'', ''Fri'', ''Sat'']"

definition short_months :: "string list" where
  "short_months = [''Jan'', ''Feb'', ''Mar'', ''Apr'', ''May'', ''Jun'', ''Jul'', ''Aug'', ''Sep'', ''Oct'',
     ''Nov'', ''Dec'']"

text \<open>The loop over the months: 12 if there is none.\<close>

fun month_index :: "string list \<Rightarrow> string \<Rightarrow> int" where
  "month_index [] s = 0"
| "month_index (m # ms) s = (if s = m then 0 else month_index ms s + 1)"

text \<open>The conversions fill variables; one that is not reached keeps what the variable held.\<close>

definition num_field :: "scanned list \<Rightarrow> nat \<Rightarrow> int" where
  "num_field fs i = (if i < length fs then (case fs ! i of Num n \<Rightarrow> n | Text t \<Rightarrow> 0) else 0)"

definition str_field :: "string \<Rightarrow> scanned list \<Rightarrow> nat \<Rightarrow> string" where
  "str_field junk fs i = (if i < length fs then (case fs ! i of Text t \<Rightarrow> t | Num n \<Rightarrow> junk) else junk)"

section \<open>Writing and reading dates\<close>

text \<open>\<^verbatim>\<open>%<w>d\<close> of \<^verbatim>\<open>printf\<close>.\<close>

definition show_d :: "nat \<Rightarrow> int \<Rightarrow> string" where
  "show_d w n = (let s = show_int n in replicate (w - length s) CHR '' '' @ s)"

definition ne_rfc1123_date :: "int \<Rightarrow> string" where
  "ne_rfc1123_date anytime =
     (let (gmt, wday) = gmtime anytime in
      take 29 (rfc1123_weekdays ! nat wday @ '', '' @ pad0 2 (show_nat (nat (tm_mday gmt))) @ '' '' @
        short_months ! nat (tm_mon gmt) @ '' '' @ show_d 4 (1900 + tm_year gmt) @ '' '' @
        pad0 2 (show_nat (nat (tm_hour gmt))) @ '':'' @ pad0 2 (show_nat (nat (tm_min gmt))) @ '':'' @
        pad0 2 (show_nat (nat (tm_sec gmt))) @ '' GMT''))"

text \<open>\<open>mktime\<close> gives the time and the offset to UTC of the local time; \<open>mon\<close> is what the variable for the
  month holds before it is read.\<close>

definition ne_rfc1123_parse :: "(tm \<Rightarrow> int \<times> int) \<Rightarrow> string \<Rightarrow> string \<Rightarrow> int" where
  "ne_rfc1123_parse mktime mon date =
     (let fs = sscanf RFC1123_FORMAT date;
          (t, gmtoff) = mktime \<lparr>tm_year = num_field fs 3 - 1900,
             tm_mon = month_index short_months (str_field mon fs 2), tm_mday = num_field fs 1,
             tm_hour = num_field fs 4, tm_min = num_field fs 5, tm_sec = num_field fs 6\<rparr>
      in t + gmtoff)"

definition ne_rfc1036_parse :: "(tm \<Rightarrow> int \<times> int) \<Rightarrow> string \<Rightarrow> string \<Rightarrow> int" where
  "ne_rfc1036_parse mktime mon date =
     (let fs = sscanf RFC1036_FORMAT date in
      if length fs \<noteq> 7 then - 1
      else let y = num_field fs 3;
               (t, gmtoff) = mktime \<lparr>tm_year = (if y < 50 then y + 100 else y),
                 tm_mon = month_index short_months (str_field mon fs 2), tm_mday = num_field fs 1,
                 tm_hour = num_field fs 4, tm_min = num_field fs 5, tm_sec = num_field fs 6\<rparr>
           in t + gmtoff)"

text \<open>The year of \<^verbatim>\<open>asctime\<close> is taken as it is, without the 1900.\<close>

definition ne_asctime_parse :: "(tm \<Rightarrow> int \<times> int) \<Rightarrow> string \<Rightarrow> string \<Rightarrow> int" where
  "ne_asctime_parse mktime mon date =
     (let fs = sscanf ASCTIME_FORMAT date;
          (t, gmtoff) = mktime \<lparr>tm_year = num_field fs 6,
             tm_mon = month_index short_months (str_field mon fs 1), tm_mday = num_field fs 2,
             tm_hour = num_field fs 3, tm_min = num_field fs 4, tm_sec = num_field fs 5\<rparr>
      in t + gmtoff)"

definition ne_httpdate_parse :: "(tm \<Rightarrow> int \<times> int) \<Rightarrow> string \<Rightarrow> string \<Rightarrow> int" where
  "ne_httpdate_parse mktime mon date =
     (let tmp = ne_rfc1123_parse mktime mon date in
      if tmp = - 1 then
        (let tmp = ne_rfc1036_parse mktime mon date
         in if tmp = - 1 then ne_asctime_parse mktime mon date else tmp)
      else tmp)"

section \<open>\<^verbatim>\<open>gmtime\<close> and back\<close>

lemma div_step: "(y::int) div n = (y - 1) div n + (if n dvd y then 1 else 0)" if "0 < n"
proof (cases "n dvd y")
  case True
  then obtain k where "y = n * k" ..
  moreover have "(n * k - 1) div n = k - 1"
    by (rule int_div_pos_eq [where r = "n - 1"]) (use that in \<open>simp_all add: algebra_simps\<close>)
  ultimately show ?thesis using that by simp
next
  case False
  then have "0 < y mod n" using that by (simp add: dvd_eq_mod_eq_0 less_le)
  have "(y - 1) div n = y div n"
    by (rule int_div_pos_eq [where r = "y mod n - 1"])
      (use \<open>0 < y mod n\<close> that pos_mod_bound [OF that, of y] in \<open>simp_all add: algebra_simps\<close>)
  then show ?thesis using False by simp
qed

definition year_days :: "int \<Rightarrow> int" where "year_days y = (if leap y then 366 else 365)"

lemma year_arith:
  "a = a' + (if p then 1 else 0) \<Longrightarrow> b = b' + (if q then 1 else 0) \<Longrightarrow> c = c' + (if r then 1 else 0)
    \<Longrightarrow> q \<longrightarrow> p \<Longrightarrow> r \<longrightarrow> q
    \<Longrightarrow> 365 * y + a - b + c - k = 365 * (y - 1) + a' - b' + c' - k + (if p \<and> (\<not> q \<or> r) then 366 else (365::int))"
  by (cases p; cases q; cases r) simp_all

lemma clock_arith:
  "(h * 60 + m) * 60 + s = (x::int) \<Longrightarrow> d * 86400 + x = t \<Longrightarrow> (d * 24 + h) * 3600 + m * 60 + s = t"
  by (simp add: algebra_simps)

lemma days_before_next: "days_before_year (y + 1) = days_before_year y + year_days y"
proof -
  have dvd: "100 dvd y \<longrightarrow> 4 dvd y" "400 dvd y \<longrightarrow> 100 dvd y"
    by (simp_all add: dvd_trans [of 4 100 y] dvd_trans [of 100 400 y])
  have steps: "y div 4 = (y - 1) div 4 + (if 4 dvd y then 1 else 0)"
    "y div 100 = (y - 1) div 100 + (if 100 dvd y then 1 else 0)"
    "y div 400 = (y - 1) div 400 + (if 400 dvd y then 1 else 0)"
    by (rule div_step; simp)+
  show ?thesis
    unfolding days_before_year_def year_days_def leap_def add_diff_cancel_right'
    using steps dvd by (rule year_arith)
qed

lemma days_before_mono: "y \<le> z \<Longrightarrow> days_before_year y \<le> days_before_year z"
  by (induction z rule: int_ge_induct) (auto simp: days_before_next year_days_def)

lemma year_loop_result:
  "year_loop y d = (y', d') \<Longrightarrow> 0 \<le> d
    \<Longrightarrow> days_before_year y + d = days_before_year y' + d' \<and> 0 \<le> d' \<and> d' < year_days y'"
proof (induction y d rule: year_loop.induct)
  case (1 y d)
  show ?case
  proof (cases "year_days y \<le> d")
    case True
    then have "year_loop (y + 1) (d - year_days y) = (y', d')"
      using "1.prems" by (simp add: year_loop.simps [of y d] year_days_def Let_def)
    then show ?thesis using "1.IH" [of "year_days y"] True days_before_next [of y] by (simp add: year_days_def)
  next
    case False
    then show ?thesis using "1.prems" by (auto simp: year_loop.simps [of y d] year_days_def Let_def split: if_splits)
  qed
qed

lemma month_loop_result:
  "month_loop m ns d = (m', d') \<Longrightarrow> 0 \<le> d \<Longrightarrow> d < sum_list ns
    \<Longrightarrow> m \<le> m' \<and> m' < m + int (length ns) \<and> d = sum_list (take (nat (m' - m)) ns) + d'
      \<and> 0 \<le> d' \<and> d' < ns ! nat (m' - m)"
proof (induction m ns d rule: month_loop.induct)
  case (2 m n ns d)
  show ?case
  proof (cases "n \<le> d")
    case True
    then have IH: "m + 1 \<le> m'" "m' < m + 1 + int (length ns)"
      "d - n = sum_list (take (nat (m' - (m + 1))) ns) + d'" "0 \<le> d'" "d' < ns ! nat (m' - (m + 1))"
      using 2 by auto
    moreover have "nat (m' - m) = Suc (nat (m' - (m + 1)))" using IH(1) by simp
    ultimately show ?thesis by simp
  next
    case False
    then show ?thesis using 2 by auto
  qed
qed simp

lemma year_of_months: "sum_list (month_days (leap y)) = year_days y"
  by (simp add: month_days_def year_days_def)

lemma month_days_bound: "i < 12 \<Longrightarrow> month_days b ! i \<le> 31"
  by (auto simp: month_days_def less_Suc_eq numeral_eq_Suc)

lemma day_seconds:
  assumes "0 \<le> (s::int)" "s < 86400"
  shows "(s div 3600 * 60 + s div 60 mod 60) * 60 + s mod 60 = s" "0 \<le> s div 3600" "s div 3600 < 24"
proof -
  have "s div 60 div 60 = s div 3600" using zdiv_zmult2_eq [of 60 s 60] by simp
  then show "(s div 3600 * 60 + s div 60 mod 60) * 60 + s mod 60 = s"
    using div_mult_mod_eq [of "s div 60" 60] div_mult_mod_eq [of s 60] by simp
qed (use assms in auto)

lemma gmtime_result:
  assumes "gmtime t = (gmt, wday)"
  shows "utc_time gmt = t" "0 \<le> tm_mon gmt" "tm_mon gmt < 12" "1 \<le> tm_mday gmt" "tm_mday gmt \<le> 31"
    "0 \<le> tm_hour gmt" "tm_hour gmt < 24" "0 \<le> tm_min gmt" "tm_min gmt < 60" "0 \<le> tm_sec gmt"
    "tm_sec gmt < 60" "0 \<le> wday" "wday < 7"
    "days_before_year (tm_year gmt + 1900) \<le> t div 86400" "t div 86400 < days_before_year (tm_year gmt + 1901)"
proof -
  define n where "n = t div 86400 + 719162"
  obtain y d where y: "year_loop (400 * (n div 146097) + 1) (n mod 146097) = (y, d)" by (metis surj_pair)
  obtain m k where m: "month_loop 0 (month_days (leap y)) d = (m, k)" by (metis surj_pair)
  have "days_before_year (400 * (n div 146097) + 1) = 146097 * (n div 146097) - 719162"
  proof -
    have "400 * a div 4 = 100 * a" "400 * a div 100 = 4 * a" for a :: int by simp_all
    then show ?thesis by (simp add: days_before_year_def)
  qed
  moreover have "146097 * (n div 146097) + n mod 146097 = t div 86400 + 719162"
    using mult_div_mod_eq [of 146097 n] by (simp only: n_def)
  moreover have "0 \<le> n mod 146097" by simp
  ultimately have days: "t div 86400 = days_before_year y + d" "0 \<le> d" "d < year_days y"
    using year_loop_result [OF y] by linarith+
  note mon = month_loop_result [OF m days(2) days(3) [folded year_of_months]]
  have len: "length (month_days (leap y)) = 12" by (simp add: month_days_def)
  have gmt: "gmt = \<lparr>tm_year = y - 1900, tm_mon = m, tm_mday = k + 1, tm_hour = t mod 86400 div 3600,
      tm_min = t mod 86400 div 60 mod 60, tm_sec = t mod 86400 mod 60\<rparr>" "wday = (t div 86400 + 4) mod 7"
    using assms y m by (simp_all add: gmtime_def Let_def n_def)
  have m12: "0 \<le> m" "m < 12" using mon len by auto
  then have mm: "m div 12 = 0" "m mod 12 = m" by simp_all
  have "nat m < 12" using m12 by simp
  then have "k < 31" using mon month_days_bound [of "nat m" "leap y"] by simp
  then show "1 \<le> tm_mday gmt" "tm_mday gmt \<le> 31" using mon gmt by simp_all
  have s: "(t mod 86400 div 3600 * 60 + t mod 86400 div 60 mod 60) * 60 + t mod 86400 mod 60 = t mod 86400"
    using day_seconds(1) [of "t mod 86400"] by simp
  have "utc_time gmt = (t div 86400 * 24 + t mod 86400 div 3600) * 3600 + t mod 86400 div 60 mod 60 * 60
      + t mod 86400 mod 60"
    using mon days by (simp add: gmt utc_time_def mm Let_def algebra_simps)
  also have "\<dots> = t" by (rule clock_arith [OF s div_mult_mod_eq])
  finally show "utc_time gmt = t" .
  show "days_before_year (tm_year gmt + 1900) \<le> t div 86400" "t div 86400 < days_before_year (tm_year gmt + 1901)"
    using days days_before_next [of y] by (simp_all add: gmt add.commute)
  have "0 \<le> t mod 86400" "t mod 86400 < 86400" by simp_all
  then show "0 \<le> tm_hour gmt" "tm_hour gmt < 24" using day_seconds(2,3) by (simp_all add: gmt)
  show "0 \<le> tm_mon gmt" "tm_mon gmt < 12" "0 \<le> tm_min gmt" "tm_min gmt < 60" "0 \<le> tm_sec gmt"
    "tm_sec gmt < 60" "0 \<le> wday" "wday < 7"
    using m12 by (simp_all add: gmt)
qed


section \<open>The round trip\<close>

lemma scan_d_show:
  assumes "n < 10 ^ w" "0 < w" "no_digit r"
  shows "scan_d w (replicate k CHR '' '' @ show_nat n @ r) = Some (int n, r)"
proof -
  have len: "length (show_nat n) \<le> w" using digits_length [of n 10 w] assms by (simp add: show_nat_def)
  have "dropWhile isspace (replicate k CHR '' '' @ show_nat n @ r) = show_nat n @ r"
    by (subst dropWhile_append2) (auto simp: isspace_def show_nat_start)
  moreover have "no_digit (take (w - length (show_nat n)) r)"
    using assms(3) by (auto simp: no_digit_def take_Cons split: list.splits nat.splits)
  then have "takeWhile isdigit (take w (show_nat n @ r)) = show_nat n"
    using len show_nat_then(1) [of "take (w - length (show_nat n)) r" n] by simp
  moreover have "show_nat n \<noteq> []" by (simp add: show_nat_def digits_nonempty)
  ultimately show ?thesis
    by (simp add: scan_d_def Let_def show_nat_start number_show_nat)
qed

lemma sscanf_str:
  assumes "length t = w" "t \<noteq> []" "\<forall>c \<in> set t. \<not> isspace c"
  shows "sscanf (Str w # fs) (t @ r) = Text t # sscanf fs r"
proof -
  have "dropWhile isspace (t @ r) = t @ r" using assms(2,3) by (cases t) auto
  moreover have "takeWhile (\<lambda>c. \<not> isspace c) (take w (t @ r)) = t"
    using assms(1,3) by (simp add: takeWhile_eq_all_conv)
  ultimately show ?thesis using assms(1,2) by (simp del: take_append)
qed

lemma dropWhile_blanks: "dropWhile isspace (replicate k CHR '' '' @ s) = dropWhile isspace s"
  by (induction k) (simp_all add: isspace_def)

lemma white_digits:
  assumes "n < 100"
  shows "dropWhile isspace (CHR '' '' # pad0 2 (show_nat n) @ r) = pad0 2 (show_nat n) @ r"
proof -
  obtain c s where "pad0 2 (show_nat n) = c # s" using pad0_digits(2) [of n 2] assms by (cases "pad0 2 (show_nat n)") auto
  moreover have "isdigit c" using pad0_digits(1) [of n 2] assms calculation by auto
  ultimately show ?thesis by (auto simp: isspace_def isdigit_def)
qed

lemma weekday_text:
  "n < 7 \<Longrightarrow> length (rfc1123_weekdays ! n) = 3 \<and> (\<forall>c \<in> set (rfc1123_weekdays ! n). \<not> isspace c)"
  by (auto simp: rfc1123_weekdays_def isspace_def less_Suc_eq numeral_eq_Suc)

lemma month_text:
  "n < 12 \<Longrightarrow> length (short_months ! n) = 3 \<and> (\<forall>c \<in> set (short_months ! n). \<not> isspace c)
    \<and> month_index short_months (short_months ! n) = int n"
  by (auto simp: short_months_def isspace_def less_Suc_eq numeral_eq_Suc)

definition date_text :: "string \<Rightarrow> nat \<Rightarrow> string \<Rightarrow> nat \<Rightarrow> nat \<Rightarrow> nat \<Rightarrow> nat \<Rightarrow> string" where
  "date_text wd d mo y h mi s =
     wd @ '', '' @ pad0 2 (show_nat d) @ '' '' @ mo @ '' '' @ (replicate (4 - length (show_nat y)) CHR '' '' @ show_nat y) @
     '' '' @ pad0 2 (show_nat h) @ '':'' @ pad0 2 (show_nat mi) @ '':'' @ pad0 2 (show_nat s) @ '' GMT''"

lemma date_text_length:
  assumes "length wd = 3" "length mo = 3" "d < 100" "y < 10000" "h < 100" "mi < 100" "s < 100"
  shows "length (date_text wd d mo y h mi s) = 29"
proof -
  have "length (show_nat y) \<le> 4" using digits_length [of y 10 4] assms(4) by (simp add: show_nat_def)
  then show ?thesis using assms by (simp add: date_text_def pad0_digits)
qed

lemma sscanf_date:
  assumes "length wd = 3" "\<forall>c \<in> set wd. \<not> isspace c" "length mo = 3" "\<forall>c \<in> set mo. \<not> isspace c"
    and "d < 100" "y < 10000" "h < 100" "mi < 100" "s < 100"
  shows "sscanf RFC1123_FORMAT (date_text wd d mo y h mi s)
    = [Text wd, Num (int d), Text mo, Num (int y), Num (int h), Num (int mi), Num (int s)]"
proof -
  have mo: "mo \<noteq> []" "dropWhile isspace (CHR '' '' # mo @ r) = mo @ r" for r
    using assms(3,4) by (cases mo; auto simp: isspace_def)+
  have blank: "dropWhile isspace (CHR '' '' # replicate k CHR '' '' @ show_nat y @ r) = show_nat y @ r" for k r
    using show_nat_start(1) [of y r] dropWhile_blanks [of "Suc k"] by simp
  have year: "scan_d 4 (show_nat y @ r) = Some (int y, r)" if "no_digit r" for r
    using scan_d_show [of y 4 r 0] that assms(6) by simp
  have two: "scan_d 2 (pad0 2 (show_nat n) @ r) = Some (int n, r)" if "n < 100" for n r
    using scan_d_pad0 [of n 2 r] that by simp
  have gmt: "dropWhile isspace '' GMT'' = ''GMT''" by (simp add: isspace_def)
  have "wd \<noteq> []" using assms(1) by auto
  note texts = sscanf_str [OF assms(1) this assms(2)] sscanf_str [OF assms(3) mo(1) assms(4)]
  show ?thesis
    unfolding RFC1123_FORMAT_def date_text_def append_Cons append_Nil append_assoc
    using assms(5-9)
    by (simp add: texts mo(2) lits_def white_digits blank year two gmt isdigit_def del: dropWhile.simps sscanf.simps(4))
qed


text \<open>A time zone is its offset to UTC at each time.  \<^verbatim>\<open>mktime\<close> sets the offset of the time it returns,
  and where a clock in the zone shows the reading, it returns such a time; a reading that the clocks
  skip gives any time.\<close>

definition zone :: "(int \<Rightarrow> int) \<Rightarrow> (tm \<Rightarrow> int \<times> int) \<Rightarrow> bool" where
  "zone off mktime \<longleftrightarrow> (\<forall>t. snd (mktime t) = off (fst (mktime t))
     \<and> ((\<exists>u. u + off u = utc_time t) \<longrightarrow> fst (mktime t) + off (fst (mktime t)) = utc_time t))"

definition shown :: "(int \<Rightarrow> int) \<Rightarrow> int \<Rightarrow> bool" where
  "shown off x \<longleftrightarrow> (\<exists>u. u + off u = x)"

lemma zone_reading:
  assumes "zone off mktime"
  shows "fst (mktime t) + snd (mktime t) = utc_time t \<longleftrightarrow> shown off (utc_time t)"
  using assms unfolding zone_def shown_def by metis

lemma date_written:
  assumes "0 \<le> t" "t < 253402300800" "gmtime t = (gmt, wday)"
  shows "ne_rfc1123_date t = date_text (rfc1123_weekdays ! nat wday) (nat (tm_mday gmt)) (short_months ! nat (tm_mon gmt))
      (nat (tm_year gmt + 1900)) (nat (tm_hour gmt)) (nat (tm_min gmt)) (nat (tm_sec gmt))"
    "0 \<le> tm_year gmt + 1900" "tm_year gmt + 1900 < 10000"
proof -
  note g = gmtime_result [OF assms(3)]
  have days: "0 \<le> t div 86400" "t div 86400 \<le> 2932896" using assms(1,2) by simp_all
  show y: "0 \<le> tm_year gmt + 1900"
  proof (rule ccontr)
    assume "\<not> 0 \<le> tm_year gmt + 1900"
    then have "days_before_year (tm_year gmt + 1901) \<le> days_before_year 0" by (intro days_before_mono) simp
    then show False using g(15) days by (simp add: days_before_year_def)
  qed
  show y2: "tm_year gmt + 1900 < 10000"
  proof (rule ccontr)
    assume "\<not> tm_year gmt + 1900 < 10000"
    then have "days_before_year 10000 \<le> days_before_year (tm_year gmt + 1900)" by (intro days_before_mono) simp
    then show False using g(14) days by (simp add: days_before_year_def)
  qed
  have "length (date_text (rfc1123_weekdays ! nat wday) (nat (tm_mday gmt)) (short_months ! nat (tm_mon gmt))
      (nat (tm_year gmt + 1900)) (nat (tm_hour gmt)) (nat (tm_min gmt)) (nat (tm_sec gmt))) = 29"
    using g y y2 weekday_text [of "nat wday"] month_text [of "nat (tm_mon gmt)"]
    by (intro date_text_length) simp_all
  then have "take 29 (date_text (rfc1123_weekdays ! nat wday) (nat (tm_mday gmt)) (short_months ! nat (tm_mon gmt))
      (nat (tm_year gmt + 1900)) (nat (tm_hour gmt)) (nat (tm_min gmt)) (nat (tm_sec gmt)))
    = date_text (rfc1123_weekdays ! nat wday) (nat (tm_mday gmt)) (short_months ! nat (tm_mon gmt))
      (nat (tm_year gmt + 1900)) (nat (tm_hour gmt)) (nat (tm_min gmt)) (nat (tm_sec gmt))" by simp
  moreover have "show_d 4 (1900 + tm_year gmt)
      = replicate (4 - length (show_nat (nat (tm_year gmt + 1900)))) CHR '' '' @ show_nat (nat (tm_year gmt + 1900))"
    using y by (simp add: show_d_def show_int_def Let_def add.commute)
  ultimately show "ne_rfc1123_date t = date_text (rfc1123_weekdays ! nat wday) (nat (tm_mday gmt)) (short_months ! nat (tm_mon gmt))
      (nat (tm_year gmt + 1900)) (nat (tm_hour gmt)) (nat (tm_min gmt)) (nat (tm_sec gmt))"
    unfolding ne_rfc1123_date_def assms(3) Let_def case_prod_conv by (simp only: date_text_def append_assoc)
qed

lemma parse_written:
  assumes "0 \<le> t" "t < 253402300800"
  shows "\<exists>gmt. utc_time gmt = t
    \<and> ne_rfc1123_parse mktime mon (ne_rfc1123_date t) = fst (mktime gmt) + snd (mktime gmt)"
proof -
  obtain gmt wday where gm: "gmtime t = (gmt, wday)" by (metis surj_pair)
  note g = gmtime_result [OF gm] and d = date_written [OF assms gm]
  note mo = month_text [of "nat (tm_mon gmt)"]
  have fs: "sscanf RFC1123_FORMAT (ne_rfc1123_date t) = [Text (rfc1123_weekdays ! nat wday), Num (tm_mday gmt),
      Text (short_months ! nat (tm_mon gmt)), Num (tm_year gmt + 1900), Num (tm_hour gmt), Num (tm_min gmt),
      Num (tm_sec gmt)]"
    unfolding d(1) by (subst sscanf_date) (use g d(2,3) mo weekday_text [of "nat wday"] in simp_all)
  have fields: "\<lparr>tm_year = tm_year gmt, tm_mon = tm_mon gmt, tm_mday = tm_mday gmt, tm_hour = tm_hour gmt,
      tm_min = tm_min gmt, tm_sec = tm_sec gmt\<rparr> = gmt" by (cases gmt) simp
  have "ne_rfc1123_parse mktime mon (ne_rfc1123_date t) = fst (mktime gmt) + snd (mktime gmt)"
    using mo g(2,3) by (simp add: ne_rfc1123_parse_def fs num_field_def str_field_def case_prod_beta' Let_def fields)
  then show ?thesis using g(1) by blast
qed

text \<open>C19. The date that is written for a time of the years 1970 to 9999 is read as that time just when
  clocks in the local time zone show that reading at some time; what the variables held before does
  not matter.  \<open>ne_httpdate_parse\<close> then gives the time too.  A reading that the clocks skip, at the
  start of daylight saving time, is read as another time.\<close>

theorem http_date_round_trip:
  assumes "zone off mktime" "0 \<le> t" "t < 253402300800"
  shows "(ne_rfc1123_parse mktime mon (ne_rfc1123_date t) = t \<longleftrightarrow> shown off t)
    \<and> (shown off t \<longrightarrow> ne_httpdate_parse mktime mon (ne_rfc1123_date t) = t)"
proof -
  obtain gmt where g: "utc_time gmt = t"
    "ne_rfc1123_parse mktime mon (ne_rfc1123_date t) = fst (mktime gmt) + snd (mktime gmt)"
    using parse_written [OF assms(2,3)] by blast
  then have "ne_rfc1123_parse mktime mon (ne_rfc1123_date t) = t \<longleftrightarrow> shown off t"
    using zone_reading [OF assms(1), of gmt] by simp
  then show ?thesis using assms(2) by (auto simp: ne_httpdate_parse_def Let_def)
qed

text \<open>Paris in 2024: summer time from 31 March, 01:00 UTC, to 27 October, 01:00 UTC.\<close>

definition paris :: "int \<Rightarrow> int" where
  "paris u = (if 1711846800 \<le> u \<and> u < 1729990800 then 7200 else 3600)"

definition paris_mktime :: "tm \<Rightarrow> int \<times> int" where
  "paris_mktime t =
     (let x = utc_time t; u = (if paris (x - 7200) = 7200 then x - 7200 else x - 3600) in (u, paris u))"

lemma paris_zone: "zone paris paris_mktime"
  unfolding zone_def paris_mktime_def Let_def by (auto simp: paris_def split: if_splits)

lemma http_date_round_trip_witness:
  "ne_httpdate_parse paris_mktime ''???'' (ne_rfc1123_date 1720000000) = 1720000000
    \<and> ne_rfc1123_parse paris_mktime ''???'' (ne_rfc1123_date 1711852200) \<noteq> 1711852200"
proof -
  have "shown paris 1720000000" unfolding shown_def by (rule exI [of _ 1719992800]) (simp add: paris_def)
  moreover have "\<not> shown paris 1711852200" by (auto simp: shown_def paris_def split: if_splits)
  ultimately show ?thesis
    using http_date_round_trip [OF paris_zone, of 1720000000 "''???''"]
      http_date_round_trip [OF paris_zone, of 1711852200 "''???''"] by simp
qed

text \<open>02:30 GMT on 31 March 2024 is read an hour late there.\<close>

theorem skipped_date_late:
  "ne_rfc1123_parse paris_mktime mon (ne_rfc1123_date 1711852200) = 1711852200 + 3600"
  using parse_written [of 1711852200 paris_mktime mon] by (auto simp: paris_mktime_def paris_def)

section \<open>The older formats\<close>

lemma month_index_bound: "0 \<le> month_index ms s \<and> month_index ms s \<le> int (length ms)"
  by (induction ms) auto

text \<open>Only a date with a comma behind three characters is read by \<open>ne_rfc1123_parse\<close>.  For any other, all
  the fields are still zero, and \<^verbatim>\<open>mktime\<close> does not fail as the comment in the code expects, whatever the
  variable for the month holds: the result is a time of the year 0, and the other two formats of
  HTTP/1.1 are never tried.  (No clock changes are assumed before the year 1.)\<close>

theorem older_dates_unread:
  assumes "zone off mktime" "\<forall>x < - 62135596800. shown off x" "length wd = 3" "\<forall>c \<in> set wd. \<not> isspace c" "c \<noteq> CHR '',''"
  shows "ne_httpdate_parse mktime mon (wd @ c # rest) < - 62135596800"
proof -
  have wd: "wd \<noteq> []" using assms(3) by auto
  have fs: "sscanf RFC1123_FORMAT (wd @ c # rest) = [Text wd]"
    using sscanf_str [OF assms(3) wd assms(4)] assms(5) by (simp add: RFC1123_FORMAT_def del: sscanf.simps(4))
  define m where "m = month_index short_months mon"
  have m: "0 \<le> m" "m \<le> 12" using month_index_bound [of short_months mon] by (simp_all add: m_def short_months_def)
  let ?tm = "\<lparr>tm_year = - 1900, tm_mon = m, tm_mday = 0, tm_hour = 0, tm_min = 0, tm_sec = 0\<rparr>"
  have old: "utc_time ?tm < - 62135596800"
  proof (cases "m = 12")
    case True
    then show ?thesis by (simp add: utc_time_def days_before_year_def)
  next
    case False
    then have "m div 12 = 0" "m mod 12 = m" using m by simp_all
    moreover have "sum_list (take (nat m) (month_days (leap 0))) \<le> sum_list (month_days (leap 0))"
    proof -
      have "sum_list (month_days (leap 0)) = sum_list (take (nat m) (month_days (leap 0))) + sum_list (drop (nat m) (month_days (leap 0)))"
        by (metis append_take_drop_id sum_list_append)
      moreover have "0 \<le> sum_list (drop (nat m) (month_days (leap 0)))"
        by (rule sum_list_nonneg) (auto simp: month_days_def dest!: in_set_dropD)
      ultimately show ?thesis by linarith
    qed
    moreover have "sum_list (month_days (leap 0)) = 366" by (simp add: month_days_def leap_def)
    ultimately show ?thesis by (simp add: utc_time_def days_before_year_def)
  qed
  have "ne_rfc1123_parse mktime mon (wd @ c # rest) = fst (mktime ?tm) + snd (mktime ?tm)"
    by (simp add: ne_rfc1123_parse_def fs num_field_def str_field_def case_prod_beta' m_def Let_def)
  also have "\<dots> = utc_time ?tm" using zone_reading [OF assms(1)] assms(2) old by blast
  finally show ?thesis using old by (simp add: ne_httpdate_parse_def Let_def)
qed

end
