(* ===== verification/Spec2Isabelle.thy ===== *)
theory Spec2Isabelle
  imports File_List Store_Trip Glob Rcfile_Trip Rsh_Driver Ftp_Server Console_Safe Dav_Ops Driver_Codes
    Getopt_Order Ne_Dates
begin

text \<open>
  \<^bold>\<open>A verification development for sitecopy.\<close>

  sitecopy keeps a remote web site equal to a local directory tree.  For each site it holds a list of
  files; each file has a local state (what is on disk), a stored state (what is believed to be on the
  server, kept between runs in a storage file) and a diff between the two.  The modes of the program
  work on that list: scanning the disk and fetching the server's list fill it in, update and
  synchronise transfer files and move the diffs to \<open>file_unchanged\<close>, catch-up and initialise set
  the stored states, verify compares them with the server, and the storage file saves them.

  \<^bold>\<open>Layout.\<close>
  \<^item> \<open>Prelude\<close>: lists indexed by addresses, sums over them, loops over a list (with the locales
    \<open>loop_inv\<close> and \<open>sweep\<close> of loops that keep an invariant and that settle each element), the
    character classes and string functions of the C library.
  \<^item> \<open>Site_Types\<close>: the enums and structs of \<^verbatim>\<open>src/sites.h\<close> and \<^verbatim>\<open>src/protocol.h\<close>.
  \<^item> \<open>Site_Files\<close>: the operations of \<^verbatim>\<open>src/sitefiles.c\<close> and \<^verbatim>\<open>src/sitesi.h\<close>: insertion, deletion,
    \<open>file_set\<close>, comparison, the counters, exclusion lists.
  \<^item> \<open>Site_Inv\<close>: the invariant \<open>site_inv\<close> (each counter is the sum over the files, each diff is the
    comparison of the two states, a state that exists is named).
  \<^item> \<open>Site_List\<close>: that the operations keep it, and what they do to the multisets of local and stored
    states.  \<open>File_List\<close>: that the doubly linked list of the code implements the lists used here.
  \<^item> \<open>Site_Ops\<close>: catch-up, initialise, destroy, verification, flat listing, adding a fetched file
    (\<^verbatim>\<open>src/sites.c\<close>).
  \<^item> \<open>Site_Driver\<close>: the driver interface (\<^verbatim>\<open>struct proto_driver\<close>), the calls on the local system, the
    notifications of the frontend; all act on a world the model leaves open.
  \<^item> \<open>Site_Update\<close>, \<open>Site_Update_Inv\<close>: \<open>site_update\<close> with its six handlers, and its properties.
  \<^item> \<open>Site_Synch\<close>: \<open>site_synch\<close>, \<open>site_fetch\<close>, \<open>site_verify\<close>.  \<open>Site_Scan\<close>: \<open>site_read_local_state\<close>
    and \<open>site_read_local_dirs\<close>.
  \<^item> \<open>C_Number\<close>: numbers as text, with the round trips.  \<open>Site_Store\<close>, \<open>Store_Trip\<close>: the storage file
    (\<^verbatim>\<open>src/sitestore.c\<close>) and that what is written is what is read.
  \<^item> \<open>Fnmatch\<close>, \<open>Glob\<close>: \<open>fnmatch\<close> of \<^verbatim>\<open>lib/fnmatch.c\<close>, which decides the exclude, ignore and ascii
    lists: that it finds every match that \<^verbatim>\<open>lib/fnmatch.h\<close> documents, for which patterns and names it
    finds no other, and the patterns on which it is wrong.
  \<^item> \<open>C_Text\<close>: strings in C buffers, lines and tokens.  \<open>Netrc\<close>: \<^verbatim>\<open>lib/netrc.c\<close>.
  \<^item> \<open>Rcfile\<close>: \<^verbatim>\<open>src/rcfile.c\<close>, the lexer with its buffers of 128 characters, every key, the checks of
    \<open>rcfile_verify\<close>, the writer and the start of the program.  \<open>Rcfile_Read\<close>: the buffers never
    overflow and what the sites read look like.  \<open>Rcfile_Verify\<close>: which sites are accepted, and that an
    accepted one is what the update needs.  \<open>Rcfile_Trip\<close>: what is written is read back.
  \<^item> \<open>Ls_Parser\<close>, \<open>Ls_Listing\<close>: \<^verbatim>\<open>src/lsparser.c\<close> and that it reads printed directory listings.
    \<open>Rsh_Driver\<close>: the drivers of \<^verbatim>\<open>src/rshdriver.c\<close> and \<^verbatim>\<open>src/nulldriver.c\<close> as values of the driver
    interface, run under \<open>site_update\<close>.
  \<^item> \<open>Ftp_Text\<close>: the texts of \<^verbatim>\<open>src/ftp.c\<close>, the replies with an address or a time and the line ends of
    uploads.  \<open>Ftp_Client\<close>: the session (\<^verbatim>\<open>struct ftp_session_s\<close>), reading replies, running commands
    with their retries, \<open>ftp_open\<close>.  \<open>Ftp_Transfer\<close>: the commands, the data connection, uploads,
    downloads, listings.  \<open>Ftp_Conn\<close>: every command comes back and never uses a closed socket, with
    the locale \<open>opener\<close> of the ways to open the connection.  \<open>Ftp_Put\<close>: what a successful upload has
    sent.  \<open>Update_World\<close>: the locale \<open>keeps_world\<close> of drivers that keep a property of the world, which
    \<open>site_update\<close> then keeps.  \<open>Ftp_Driver\<close>: \<^verbatim>\<open>src/ftpdriver.c\<close> and updates over FTP.  \<open>Ftp_Server\<close>: a
    small server on which the client runs.
  \<^item> \<open>Console_Text\<close>: the messages and questions of \<^verbatim>\<open>src/console_fe.c\<close>, with \<^verbatim>\<open>yesno\<close> and \<^verbatim>\<open>rpmatch\<close>.
    \<open>Console\<close>: the modes, the command line with \<^verbatim>\<open>src/common.c\<close>, the storage file and the check of the
    sites.  \<open>Console_Main\<close>: each mode on a site, and the program from its command line to its exit
    status.  \<open>Catch_Up\<close>: two runs one after the other.  \<open>Console_Safe\<close>: what the command line decides,
    dry runs, and sites that are acted on although they were rejected.
  \<^item> \<open>Ne_Uri\<close>: \<^verbatim>\<open>lib/neon/ne_uri.c\<close>, the parsing, resolving and escaping of references, with the round
    trip of escaping and the meaning of dot segments.  \<open>Ne_Xml\<close>: the parser of \<^verbatim>\<open>ne_xml.c\<close> over the events of expat (name spaces, the stack
    of elements, the handlers) and the reader of multi-status responses (\<^verbatim>\<open>ne_207.c\<close>).  \<open>Ne_Http\<close>: the
    methods of \<^verbatim>\<open>ne_basic.c\<close>.  \<open>Ne_Props\<close>: PROPFIND and PROPPATCH (\<^verbatim>\<open>ne_props.c\<close>).  \<open>Dav_Driver\<close>:
    \<^verbatim>\<open>src/davdriver.c\<close> on these.  \<open>Dav_Fetch\<close>: a printed multi-status listing, element by element through
    the handlers, comes out as its members.  \<open>Dav_Ops\<close>: deletions with partial failures, uploads on a
    condition in safe mode, downloads for checksums.
  \<^item> \<open>Sftp_Driver\<close>: \<^verbatim>\<open>src/sftpdriver.c\<close>, the prompt of the sftp process, its commands and the listing over
    ssh.  \<open>Driver_Codes\<close>: the locale \<open>coded_driver\<close> of drivers that return the codes of \<^verbatim>\<open>src/sites.h\<close>
    only, interpreted for all five drivers.
  \<^item> \<open>Getopt\<close>: \<^verbatim>\<open>lib/getopt.c\<close> with the option tables of the program.  \<open>Getopt_Order\<close>: that its calls, which
    move the site names behind the options, are a reading of \<^verbatim>\<open>argv\<close> from left to right, and the program
    on its \<^verbatim>\<open>argv\<close>.  \<open>Ne_Dates\<close>: the dates of HTTP (\<^verbatim>\<open>lib/neon/ne_dates.c\<close>) with the calendar; when what was
    written is read back (not for the readings that daylight saving skips), and the older formats,
    which are never read.

  \<^bold>\<open>How C is modelled.\<close>  The files of a site are an association list from node addresses to
  \<open>site_file\<close> records.  A \<^verbatim>\<open>char *\<close> that may be NULL is an option; a read through NULL, or past
  the end of a string, is the result \<^const>\<open>None\<close> of the operation, so a theorem that an operation returns
  \<open>Some\<close> says that it does not happen.  Return codes are the integers of the source.  \<^verbatim>\<open>mode_t\<close> is a
  word of 32 bits, the counters, sizes and times are unbounded integers (an overflow of \<^verbatim>\<open>int\<close>,
  \<^verbatim>\<open>off_t\<close> or \<^verbatim>\<open>time_t\<close> is not modelled), and the bounds of \<^verbatim>\<open>long\<close> are written out where numbers are
  read.  A driver operation whose own code reads through NULL leaves a session that is dead, with a
  default code as its result; the theorems say where that happens and where it does not.  Loops over the files visit the nodes that were in the list at
  the start, as the code does by saving \<open>next\<close>.

  \<^bold>\<open>Fuel.\<close>  \<open>site_fetch\<close>, \<open>site_read_local_state\<close> and \<open>site_read_local_dirs\<close> walk a tree that the server
  or the disk gives, and end only if it is finite.  They take a bound on the directories visited,
  with a result of its own for running out; the theorems state how much is enough: for \<open>site_fetch\<close> one
  more than the directories of the server's tree that are not excluded (\<open>tree_dirs\<close>), for the disk
  \<open>Suc b ^ rank root\<close> where the tree has the rank \<open>rank\<close> and at most \<open>b\<close> entries in a directory
  (\<open>finite_local_tree\<close>).
  \<open>ftp_open\<close> takes the depth of its recursion through \<open>set_mode\<close> and \<open>execute\<close>; two is enough, a
  greater depth gives the same.  The loops over what an FTP server sends have no bound and are partial
  functions; they end for a network with the property \<open>net_ok\<close>.  Over HTTP it is the server that decides
  how often a request is sent again, so \<open>dispatch_to_fd\<close> and \<open>read_loop\<close> are partial functions as well.
  The fuel of \<open>qtoken\<close>, \<open>dav_tokens\<close> is the length of the header; the calls of \<^verbatim>\<open>getopt_long\<close> are bounded by the
  number of characters of \<^verbatim>\<open>argv\<close>, and one for each option and one more are enough.

  \<^bold>\<open>Parameters.\<close>  The matcher of file name patterns (\<open>lib_matcher\<close> is the one of the code), MD5, the
  file system, the environment and the shell (\<^verbatim>\<open>system\<close>, \<^verbatim>\<open>popen\<close>) are arguments; the drivers are
  arbitrary functions; the XML parser is an argument with the hypothesis that it turns the one
  document in question into its events.  Sockets, system calls and the frontend of the FTP client are
  the record \<open>net\<close>.  What the console program runs on is the record \<open>app\<close>, with the answers of
  \<^verbatim>\<open>getopt_long\<close> as a list, which \<open>main_argv\<close> takes from \<open>Getopt\<close>; its theorems
  assume that the disk gives back what was written (\<open>stores\<close>).
  The theorems on FTP assume \<open>net_ok\<close> (a line read ends with its newline, a server does not
  talk for ever) and \<open>carries\<close> (a data connection carries what is written to it, and \<^verbatim>\<open>TYPE\<close> and
  \<^verbatim>\<open>PORT\<close> get final replies); \<open>Ftp_Server\<close> has a server for which both hold.

  The transport of HTTP is the record \<open>http\<close>: the dispatch of a request, or one attempt at it where the
  code reads the body itself; the tokenizer of expat as the events of a document; the conversions of
  dates (\<open>Ne_Dates\<close> has those of the code); local files.  The settings of a neon session and its
  certificates are the record \<open>ne_session\<close>, pipes, processes and \<^verbatim>\<open>popen\<close> of the SFTP driver the record \<open>sftp_sys\<close>.

  \<^bold>\<open>Not modelled.\<close>  The driver for gnome-vfs, the experiments with libcurl and the proxy, the GNOME
  frontend, memory management, and the vendored libraries (of neon the sockets, TLS, request
  headers, authentication, locks and compression; expat, curl), apart from the functions
  named above.  Of the WebDAV driver, the progress and connection callbacks; of the properties,
  \<^verbatim>\<open>xml:lang\<close>.  Of the console frontend, the help text, the progress
  dots and the share of the upload that is done (a float).  Of \<open>rcfile_verify\<close>, the line that it prints
  for a proxy and one warning.  Of the FTP session, the pointer to the address in use is taken to be set
  when it is used; the control and the data socket may be closed (\<open>ft_pisock\<close>, \<open>ft_dtpsock\<close>), and using one
  that is closed is the result \<^const>\<open>None\<close>.
\<close>

end
